(* ===== verification/Prelude.thy ===== *)
theory Prelude
  imports Main "HOL-Library.AList" "HOL-Library.Multiset"
begin

text \<open>
  What the components of the platform share: the JavaScript \<open>Map\<close> as an association list
  in insertion order, array slices, decimal and base-36 rendering, ASCII case folding,
  and the two generic contracts the components are proved against: entities stored under
  their own identifier, and machines whose steps keep an invariant.

  Conventions of every theory of this development:
  \<^item> a TypeScript \<open>Map\<close> is a \<open>jsmap\<close>: \<open>set\<close> on a present key keeps its position, on an
    absent key appends, and \<open>values()\<close> walks the insertion order, as ECMAScript says;
  \<^item> an object that the code finds in a map and then mutates is written back under its key;
  \<^item> \<open>Date.now()\<close> and \<open>new Date()\<close> are an instant \<open>now\<close> in milliseconds that the caller
    supplies (one instant per call: the code never compares two of its own readings), and
    identifiers drawn from \<open>uuid\<close> or \<open>Math.random\<close> are arguments too;
  \<^item> a \<open>number\<close> that holds cents, units, counts, minutes or milliseconds is an \<open>int\<close> or a
    \<open>nat\<close>: exact as long as magnitudes stay under \<open>2 ^ 53\<close>.
\<close>

named_theorems defs \<open>definitions a component unfolds\<close>
named_theorems keeps \<open>preservation of a component's invariant by one operation\<close>

section \<open>Maps in insertion order\<close>

type_synonym ('k, 'v) jsmap = "('k \<times> 'v) list"
type_synonym instant = int

abbreviation jm_get :: "('k, 'v) jsmap \<Rightarrow> 'k \<Rightarrow> 'v option" where
  "jm_get m k \<equiv> map_of m k"

abbreviation jm_has :: "('k, 'v) jsmap \<Rightarrow> 'k \<Rightarrow> bool" where
  "jm_has m k \<equiv> map_of m k \<noteq> None"

abbreviation jm_set :: "'k \<Rightarrow> 'v \<Rightarrow> ('k, 'v) jsmap \<Rightarrow> ('k, 'v) jsmap" where
  "jm_set k v m \<equiv> AList.update k v m"

abbreviation jm_delete :: "'k \<Rightarrow> ('k, 'v) jsmap \<Rightarrow> ('k, 'v) jsmap" where
  "jm_delete k m \<equiv> AList.delete k m"

definition jm_values :: "('k, 'v) jsmap \<Rightarrow> 'v list" where
  "jm_values m = map snd m"

lemma jm_values_Nil [simp]: "jm_values [] = []"
  by (simp add: jm_values_def)

abbreviation jm_ok :: "('k, 'v) jsmap \<Rightarrow> bool" where
  "jm_ok m \<equiv> distinct (map fst m)"

lemma jm_get_set [simp]: "jm_get (jm_set k v m) k' = (if k' = k then Some v else jm_get m k')"
  by (simp add: update_conv')

lemma jm_get_delete [simp]: "jm_get (jm_delete k m) k' = (if k' = k then None else jm_get m k')"
  by (simp add: delete_conv')

lemma jm_ok_set [simp, intro]: "jm_ok m \<Longrightarrow> jm_ok (jm_set k v m)"
  by (rule distinct_update)

lemma jm_ok_delete [simp, intro]: "jm_ok m \<Longrightarrow> jm_ok (jm_delete k m)"
  by (rule distinct_delete)

lemma jm_values_iff: "jm_ok m \<Longrightarrow> v \<in> set (jm_values m) \<longleftrightarrow> (\<exists>k. jm_get m k = Some v)"
  by (force simp: jm_values_def)

lemma jm_get_value: "jm_get m k = Some v \<Longrightarrow> v \<in> set (jm_values m)"
  by (force simp: jm_values_def dest: map_of_SomeD)

lemma jm_set_append: "jm_get m k = None \<Longrightarrow> jm_set k v m = m @ [(k, v)]"
  by (induction m) (auto split: if_splits)

lemma jm_set_split:
  assumes "jm_ok m" and "jm_get m k = Some v"
  obtains xs ys where "m = xs @ (k, v) # ys" and "jm_set k w m = xs @ (k, w) # ys"
    and "k \<notin> fst ` set xs" and "k \<notin> fst ` set ys"
  using assms
proof (induction m arbitrary: thesis)
  case Nil
  then show ?case by simp
next
  case (Cons p m)
  show ?case
  proof (cases "fst p = k")
    case True
    with Cons.prems have "p # m = [] @ (k, v) # m" "jm_set k w (p # m) = [] @ (k, w) # m"
      by (auto simp: prod_eq_iff)
    moreover from Cons.prems True have "k \<notin> fst ` set m" by auto
    ultimately show ?thesis using Cons.prems(1) by force
  next
    case False
    with Cons.prems have "jm_ok m" "jm_get m k = Some v" by auto
    from Cons.IH [OF _ this] obtain xs ys where
      "m = xs @ (k, v) # ys" "jm_set k w m = xs @ (k, w) # ys"
      "k \<notin> fst ` set xs" "k \<notin> fst ` set ys" by blast
    with False show ?thesis by (intro Cons.prems(1) [of "p # xs" ys]) (auto simp: prod_eq_iff)
  qed
qed

lemma jm_length_set: "length (jm_set k v m) = (if jm_has m k then length m else Suc (length m))"
  by (induction m) (auto split: if_splits)

lemma jm_keys_set: "fst ` set (jm_set k v m) = insert k (fst ` set m)"
  by (simp add: dom_update)

lemma jm_ball_set:
  "jm_ok m \<Longrightarrow> (\<forall>p \<in> set (jm_set k v m). P p) \<longleftrightarrow> P (k, v) \<and> (\<forall>p \<in> set m. fst p \<noteq> k \<longrightarrow> P p)"
  by (induction m) (auto simp: image_iff)

lemma jm_set_mem: "p \<in> set (jm_set k v m) \<Longrightarrow> p = (k, v) \<or> p \<in> set m"
  by (induction m) (auto split: if_splits)

lemma jm_set_value: "x \<in> set (jm_values (jm_set k v m)) \<Longrightarrow> x = v \<or> x \<in> set (jm_values m)"
  by (auto simp: jm_values_def dest!: jm_set_mem)

lemma jm_delete_mem: "p \<in> set (jm_delete k m) \<Longrightarrow> p \<in> set m"
  by (induction m) (auto split: if_splits)

lemma jm_delete_value: "x \<in> set (jm_values (jm_delete k m)) \<Longrightarrow> x \<in> set (jm_values m)"
  by (force simp: jm_values_def dest!: jm_delete_mem)

lemma find_SomeD: "find P xs = Some x \<Longrightarrow> x \<in> set xs \<and> P x"
  by (auto simp: find_Some_iff)

lemma find_NoneD: "find P xs = None \<Longrightarrow> x \<in> set xs \<Longrightarrow> \<not> P x"
  by (auto simp: find_None_iff)

lemma find_append:
  "find P (xs @ ys) = (case find P xs of None \<Rightarrow> find P ys | Some x \<Rightarrow> Some x)"
  by (induction xs) auto

section \<open>Sums over values\<close>

lemma sum_values_set:
  fixes f :: "'v \<Rightarrow> 'n :: ab_group_add"
  assumes "jm_ok m" and "jm_get m k = Some v"
  shows "(\<Sum>x \<leftarrow> jm_values (jm_set k w m). f x) = (\<Sum>x \<leftarrow> jm_values m. f x) - f v + f w"
proof -
  from assms obtain xs ys where m: "m = xs @ (k, v) # ys" and m': "jm_set k w m = xs @ (k, w) # ys"
    by (rule jm_set_split)
  show ?thesis unfolding m' by (simp add: m jm_values_def)
qed

lemma sum_values_new:
  fixes f :: "'v \<Rightarrow> int"
  assumes "jm_get m k = None"
  shows "(\<Sum>x \<leftarrow> jm_values (jm_set k w m). f x) = (\<Sum>x \<leftarrow> jm_values m. f x) + f w"
  using assms by (simp add: jm_set_append jm_values_def)

section \<open>Array slices\<close>

text \<open>\<open>xs.slice(a, b)\<close>: negative bounds count from the end, both are clamped to the array.\<close>

definition slice_bound :: "nat \<Rightarrow> int \<Rightarrow> nat" where
  "slice_bound n i = (if i < 0 then nat (int n + i) else min n (nat i))"

definition js_slice :: "int \<Rightarrow> int \<Rightarrow> 'a list \<Rightarrow> 'a list" where
  "js_slice a b xs =
     (let i = slice_bound (length xs) a; j = slice_bound (length xs) b
      in take (j - i) (drop i xs))"

lemma js_slice_nonneg:
  "0 \<le> a \<Longrightarrow> a \<le> b \<Longrightarrow> js_slice a b xs = take (nat (b - a)) (drop (nat a) xs)"
  by (simp add: js_slice_def slice_bound_def Let_def min_def nat_diff_distrib)

lemma js_slice_subset: "set (js_slice a b xs) \<subseteq> set xs"
  by (auto simp: js_slice_def Let_def dest: in_set_takeD in_set_dropD)

text \<open>\<open>xs.slice(-n)\<close>: the last \<open>n\<close> elements (all of them for \<open>n = 0\<close>, since \<open>-0\<close> is \<open>0\<close>).\<close>

definition js_last :: "nat \<Rightarrow> 'a list \<Rightarrow> 'a list" where
  "js_last n xs = js_slice (- int n) (int (length xs)) xs"

lemma js_last_pos: "0 < n \<Longrightarrow> js_last n xs = drop (length xs - n) xs"
  by (simp add: js_last_def js_slice_def slice_bound_def Let_def nat_diff_distrib')

text \<open>Pages of a list: \<open>slice((page - 1) * limit, page * limit)\<close> for pages from 1.\<close>

lemma page_slice:
  "js_slice ((int (Suc p) - 1) * int l) (int (Suc p) * int l) xs = take l (drop (p * l) xs)"
  by (subst js_slice_nonneg) (auto simp: algebra_simps nat_mult_distrib simp flip: of_nat_mult)

lemma pages_concat:
  "concat (map (\<lambda>p. js_slice ((int (Suc p) - 1) * int l) (int (Suc p) * int l) xs) [0..<n]) = take (n * l) xs"
proof (induction n)
  case (Suc n)
  have "take (n * l) xs @ take l (drop (n * l) xs) = take (n * l + l) xs" by (simp add: take_add)
  with Suc page_slice [of n l xs] show ?case by (simp add: add.commute)
qed simp

section \<open>Strings\<close>

text \<open>
  Case folding on ASCII, the alphabet of the identifiers, codes and e-mail addresses the
  code folds; any other character is left alone.
\<close>

definition lower_char :: "char \<Rightarrow> char" where
  "lower_char c = (let n = (of_char c :: nat) in if 65 \<le> n \<and> n \<le> 90 then char_of (n + 32) else c)"

definition upper_char :: "char \<Rightarrow> char" where
  "upper_char c = (let n = (of_char c :: nat) in if 97 \<le> n \<and> n \<le> 122 then char_of (n - 32) else c)"

definition to_lower :: "string \<Rightarrow> string" where
  "to_lower s = map lower_char s"

definition to_upper :: "string \<Rightarrow> string" where
  "to_upper s = map upper_char s"

lemma of_char_less_256 [simp]: "(of_char c :: nat) < 256"
  using of_char_mod_256 [of c, where ?'a = nat] by (metis mod_less_divisor zero_less_numeral)

lemma lower_char_idem [simp]: "lower_char (lower_char c) = lower_char c"
  by (simp add: lower_char_def Let_def)

lemma to_lower_idem [simp]: "to_lower (to_lower s) = to_lower s"
  by (simp add: to_lower_def)

lemma upper_char_idem [simp]: "upper_char (upper_char c) = upper_char c"
proof -
  have "(of_char c - 32) mod 256 = (of_char c - 32 :: nat)"
    by (simp add: less_imp_diff_less)
  then show ?thesis by (auto simp: upper_char_def Let_def)
qed

lemma to_upper_idem [simp]: "to_upper (to_upper s) = to_upper s"
  by (simp add: to_upper_def)

text \<open>\<open>n.toString(b)\<close> for \<open>2 \<le> b \<le> 36\<close>.\<close>

definition digit_char :: "nat \<Rightarrow> char" where
  "digit_char d = (if d < 10 then char_of (48 + d) else char_of (87 + d))"

definition char_digit :: "char \<Rightarrow> nat" where
  "char_digit c = (let n = (of_char c :: nat) in if n < 87 then n - 48 else n - 87)"

function base_string :: "nat \<Rightarrow> nat \<Rightarrow> string" where
  "base_string b n =
     (if n < b \<or> b < 2 then [digit_char n] else base_string b (n div b) @ [digit_char (n mod b)])"
  by pat_completeness auto
termination
  by (relation "measure snd") auto

declare base_string.simps [simp del]

lemma char_digit_inverse: "d < 36 \<Longrightarrow> char_digit (digit_char d) = d"
  by (auto simp: char_digit_def digit_char_def Let_def)

definition base_value :: "nat \<Rightarrow> string \<Rightarrow> nat" where
  "base_value b s = foldl (\<lambda>acc c. acc * b + char_digit c) 0 s"

lemma base_value_string: "2 \<le> b \<Longrightarrow> b \<le> 36 \<Longrightarrow> base_value b (base_string b n) = n"
proof (induction b n rule: base_string.induct)
  case (1 b n)
  show ?case
  proof (cases "n < b")
    case True
    with 1 show ?thesis
      by (simp add: base_string.simps [of b n] base_value_def char_digit_inverse)
  next
    case False
    with 1 have "base_value b (base_string b (n div b)) = n div b" by simp
    with False 1 show ?thesis
      by (simp add: base_string.simps [of b n] base_value_def char_digit_inverse less_le_trans
          [OF mod_less_divisor])
  qed
qed

lemma base_string_inject:
  "2 \<le> b \<Longrightarrow> b \<le> 36 \<Longrightarrow> base_string b m = base_string b n \<longleftrightarrow> m = n"
  by (metis base_value_string)

definition dec_string :: "nat \<Rightarrow> string" where
  "dec_string n = base_string 10 n"

lemma dec_string_inject [simp]: "dec_string m = dec_string n \<longleftrightarrow> m = n"
  by (simp add: dec_string_def base_string_inject)

definition int_string :: "int \<Rightarrow> string" where
  "int_string i = (if i < 0 then CHR ''-'' # dec_string (nat (- i)) else dec_string (nat i))"

text \<open>\<open>s.padStart(n, c)\<close> with a one-character filler.\<close>

definition pad_start :: "nat \<Rightarrow> char \<Rightarrow> string \<Rightarrow> string" where
  "pad_start n c s = replicate (n - length s) c @ s"

text \<open>\<open>s.split(c)\<close> and \<open>s.startsWith(p)\<close>.\<close>

fun js_split :: "char \<Rightarrow> string \<Rightarrow> string list" where
  "js_split c [] = [[]]"
| "js_split c (x # xs) =
     (if x = c then [] # js_split c xs
      else case js_split c xs of [] \<Rightarrow> [[x]] | p # ps \<Rightarrow> (x # p) # ps)"

definition starts_with :: "string \<Rightarrow> string \<Rightarrow> bool" where
  "starts_with p s \<longleftrightarrow> take (length p) s = p"

text \<open>\<open>a || b\<close> on strings that may be missing: the empty string is falsy.\<close>

definition or_else :: "string option \<Rightarrow> string option \<Rightarrow> string option" where
  "or_else a b = (case a of None \<Rightarrow> b | Some s \<Rightarrow> if s = [] then b else Some s)"

text \<open>\<open>s.includes(t)\<close>.\<close>

fun str_includes :: "string \<Rightarrow> string \<Rightarrow> bool" where
  "str_includes [] t = (t = [])"
| "str_includes (c # s) t = (take (length t) (c # s) = t \<or> str_includes s t)"

lemma str_includes_iff: "str_includes s t \<longleftrightarrow> (\<exists>u v. s = u @ t @ v)"
proof (induction s)
  case (Cons c s)
  have "take (length t) (c # s) = t \<longleftrightarrow> (\<exists>v. c # s = t @ v)"
    by (metis append_eq_conv_conj append_take_drop_id)
  with Cons show ?case
    by (auto simp: Cons_eq_append_conv)
qed simp

section \<open>Contract: entities stored under their own identifier\<close>

text \<open>
  The repositories keep every entity under the identifier it carries. \<open>key\<close> reads that
  identifier; a write is well behaved when it stores the entity under it.
\<close>

definition keyed :: "('e \<Rightarrow> 'k) \<Rightarrow> ('k, 'e) jsmap \<Rightarrow> bool" where
  "keyed key m \<longleftrightarrow> jm_ok m \<and> (\<forall>(k, e) \<in> set m. key e = k)"

lemma keyed_empty [simp]: "keyed key []"
  by (simp add: keyed_def)

lemma keyed_put [intro]: "keyed key m \<Longrightarrow> key e = k \<Longrightarrow> keyed key (jm_set k e m)"
  by (auto simp: keyed_def dest!: jm_set_mem)

lemma keyed_delete [intro]: "keyed key m \<Longrightarrow> keyed key (jm_delete k m)"
  by (auto simp: keyed_def dest!: jm_delete_mem)

lemma keyed_ok: "keyed key m \<Longrightarrow> jm_ok m"
  by (simp add: keyed_def)

lemma keyed_get: "keyed key m \<Longrightarrow> jm_get m k = Some e \<Longrightarrow> key e = k"
  by (auto simp: keyed_def dest: map_of_SomeD)

lemma keyed_value: "keyed key m \<Longrightarrow> e \<in> set (jm_values m) \<Longrightarrow> jm_get m (key e) = Some e"
  by (auto simp: keyed_def jm_values_def)

lemma keyed_inj: "keyed key m \<Longrightarrow> inj_on key (set (jm_values m))"
  using keyed_value by (metis inj_onI option.inject)

lemma keyed_values_set:
  "keyed key m \<Longrightarrow> key e = k \<Longrightarrow>
    set (jm_values (jm_set k e m)) = insert e {x \<in> set (jm_values m). key x \<noteq> k}"
proof (rule set_eqI)
  fix v
  assume m: "keyed key m" and e: "key e = k"
  have "v \<in> set (jm_values (jm_set k e m)) \<longleftrightarrow> (\<exists>k'. jm_get (jm_set k e m) k' = Some v)"
    by (rule jm_values_iff) (rule jm_ok_set [OF keyed_ok [OF m]])
  also have "\<dots> \<longleftrightarrow> v = e \<or> (\<exists>k'. k' \<noteq> k \<and> jm_get m k' = Some v)"
    by auto
  also have "\<dots> \<longleftrightarrow> v = e \<or> (v \<in> set (jm_values m) \<and> key v \<noteq> k)"
    using m keyed_get [OF m] jm_values_iff [OF keyed_ok [OF m]] by metis
  finally show "v \<in> set (jm_values (jm_set k e m)) \<longleftrightarrow> v \<in> insert e {x \<in> set (jm_values m). key x \<noteq> k}"
    by simp
qed

section \<open>Contract: a repository of entities\<close>

text \<open>
  Every in-memory repository of the services has the same \<open>update\<close>: it looks the entity up,
  spreads the \<open>Partial\<close> updates over it, stamps \<open>updatedAt\<close> and stores the copy. The updates
  are a function on the entity, the stamp is \<open>touch\<close>.
\<close>

definition repo_update ::
  "('e \<Rightarrow> 'e) \<Rightarrow> 'k \<Rightarrow> ('e \<Rightarrow> 'e) \<Rightarrow> ('k, 'e) jsmap \<Rightarrow> ('k, 'e) jsmap \<times> 'e option" where
  "repo_update touch k f m =
     (case jm_get m k of
        None \<Rightarrow> (m, None)
      | Some e \<Rightarrow> let u = touch (f e) in (jm_set k u m, Some u))"

lemma repo_update_result [simp]: "snd (repo_update touch k f m) = map_option (touch \<circ> f) (jm_get m k)"
  by (simp add: repo_update_def Let_def split: option.split)

lemma repo_update_get [simp]:
  "jm_get (fst (repo_update touch k f m)) k' =
     (if k' = k then map_option (touch \<circ> f) (jm_get m k) else jm_get m k')"
  by (simp add: repo_update_def Let_def split: option.split)

lemma repo_update_keyed [intro]:
  assumes "keyed key m" and "\<And>e. jm_get m k = Some e \<Longrightarrow> key (touch (f e)) = key e"
  shows "keyed key (fst (repo_update touch k f m))"
  using assms keyed_get [OF assms(1)]
  by (auto simp: repo_update_def Let_def split: option.split)

lemma repo_update_values:
  assumes "keyed key m" and "\<And>e. jm_get m k = Some e \<Longrightarrow> key (touch (f e)) = key e"
    and "\<forall>e \<in> set (jm_values m). P e"
    and "\<And>e. jm_get m k = Some e \<Longrightarrow> P e \<Longrightarrow> P (touch (f e))"
  shows "\<forall>e \<in> set (jm_values (fst (repo_update touch k f m))). P e"
proof (cases "jm_get m k")
  case (Some e)
  then have "P e" using assms(3) jm_get_value by fast
  with Some assms show ?thesis
    by (auto simp: repo_update_def Let_def dest!: jm_set_value)
qed (use assms in \<open>simp add: repo_update_def\<close>)

text \<open>The interface the services are written against.\<close>

locale entity_repository =
  fixes find_e :: "'s \<Rightarrow> 'k \<Rightarrow> 'e option"
    and create_e :: "'k \<Rightarrow> 'e \<Rightarrow> 's \<Rightarrow> 's"
    and update_e :: "'k \<Rightarrow> ('e \<Rightarrow> 'e) \<Rightarrow> 's \<Rightarrow> 's \<times> 'e option"
    and touch :: "'e \<Rightarrow> 'e"
  assumes find_create: "find_e (create_e k e s) k' = (if k' = k then Some e else find_e s k')"
    and update_result: "snd (update_e k f s) = map_option (touch \<circ> f) (find_e s k)"
    and find_update:
      "find_e (fst (update_e k f s)) k' = (if k' = k then snd (update_e k f s) else find_e s k')"
begin

lemma find_updated:
  "find_e (fst (update_e k f s)) k' =
     (if k' = k then map_option (touch \<circ> f) (find_e s k) else find_e s k')"
  by (simp add: find_update update_result)

lemma update_missing: "find_e s k = None \<Longrightarrow> find_e (fst (update_e k f s)) k' = find_e s k'"
  by (simp add: find_updated)

lemma update_known: "find_e (fst (update_e k f s)) k' = None \<longleftrightarrow> find_e s k' = None"
  by (simp add: find_updated)

lemma update_field:
  assumes "\<And>e. sel (touch (f e)) = sel e"
  shows "map_option sel (find_e (fst (update_e k f s)) k') = map_option sel (find_e s k')"
  using assms by (simp add: find_updated option.map_comp comp_def)

lemma update_update:
  "find_e (fst (update_e k g (fst (update_e k f s)))) k = map_option (touch \<circ> g \<circ> touch \<circ> f) (find_e s k)"
  by (simp add: find_updated option.map_comp comp_def)

end

section \<open>Contract: machines whose steps keep an invariant\<close>

locale invariant_machine =
  fixes step :: "'e \<Rightarrow> 's \<Rightarrow> 's" and inv :: "'s \<Rightarrow> bool"
  assumes step_keeps: "inv s \<Longrightarrow> inv (step e s)"
begin

lemma run_keeps: "inv s \<Longrightarrow> inv (fold step es s)"
  by (induction es arbitrary: s) (simp_all add: step_keeps)

end

end
