(* ===== verification/Common_Types.thy ===== *)
theory Common_Types
  imports Prelude
begin

text \<open>
  The shared vocabulary of the services (packages/common/src): the enumerations of
  types/enums.ts, the money, address and paging types of types/common.ts, the domain
  exceptions of errors/index.ts as one datatype with the status, code and message each
  constructor passes to its superclass, and the \<open>Result\<close> type of types/result.ts.
  Constructors are written with their enumeration's name, as in the code
  (\<open>OrderStatus.CANCELLED\<close>), since several enumerations share names.
\<close>

section \<open>Enumerations\<close>

datatype UserRole = SUPER_ADMIN | TENANT_ADMIN | OPERATIONS_MANAGER | WAREHOUSE_SUPERVISOR
  | FLEET_DISPATCHER | DRIVER | FINANCE_OFFICER | AUDITOR | CUSTOMER

datatype TenantTier = STARTER | PROFESSIONAL | ENTERPRISE | UNLIMITED

datatype OrderStatus = PENDING_VALIDATION | VALIDATED | INVENTORY_RESERVING | INVENTORY_RESERVED
  | INVENTORY_FAILED | PAYMENT_PROCESSING | PAYMENT_CAPTURED | PAYMENT_FAILED
  | AWAITING_FULFILLMENT | DISPATCH_SCHEDULED | IN_TRANSIT | OUT_FOR_DELIVERY | DELIVERED
  | CANCELLED | REFUNDED | FAILED

datatype OrderPriority = LOW | STANDARD | HIGH | CRITICAL | EMERGENCY

datatype StockMovementType = INBOUND_RECEIPT | OUTBOUND_DISPATCH | ORDER_RESERVATION
  | RESERVATION_RELEASE | BIN_TRANSFER | DAMAGE_SCRAP | CYCLE_COUNT_ADJUSTMENT | RETURN_RESTOCK

datatype WarehouseZoneType = RECEIVING_DOCK | BULK_STORAGE | PICK_FACE | COLD_STORAGE
  | HAZMAT_VAULT | PACKING_STATION | DISPATCH_STAGING | RETURNS_QUARANTINE

datatype ShipmentStatus = DRAFT | MANIFESTED | CARRIER_ASSIGNED | LOADING | DISPATCHED
  | IN_TRANSIT | OUT_FOR_DELIVERY | FAILED_ATTEMPT | DELIVERED | RETURNED_TO_HUB | CANCELLED

datatype VehicleType = SPRINTER_VAN | BOX_TRUCK_16FT | BOX_TRUCK_26FT | FLATBED_TRAILER
  | REFRIGERATED_REEFER | SEMI_TRAILER_53FT | ELECTRIC_CARGO_VAN

datatype VehicleStatus = AVAILABLE | EN_ROUTE | LOADING | UNLOADING | MAINTENANCE | OUT_OF_SERVICE

datatype AccountType = ASSET_CASH | ASSET_RECEIVABLES | ASSET_INVENTORY | LIABILITY_PAYABLES
  | LIABILITY_DEFERRED_REVENUE | EQUITY_CAPITAL | EQUITY_RETAINED_EARNINGS
  | REVENUE_FULFILLMENT | REVENUE_SHIPPING | EXPENSE_COGS | EXPENSE_FLEET_FUEL
  | EXPENSE_PAYMENT_GATEWAY_FEES | EXPENSE_WAREHOUSE_OVERHEAD

datatype InvoiceStatus = DRAFT | ISSUED | PAID | PARTIALLY_PAID | VOID | OVERDUE | IN_DISPUTE

datatype PaymentMethodType = CREDIT_CARD | ACH_BANK_TRANSFER | SEPA_TRANSFER
  | ESCROW_SETTLEMENT | COMMERCIAL_INVOICE_NET30

datatype PaymentStatus = INITIATED | AUTHORIZED | CAPTURED | SETTLED | DECLINED | REFUNDED
  | CHARGEBACK

datatype NotificationChannel = IN_APP | WEBSOCKET | EMAIL | SMS | WEBHOOK | SLACK_BRIDGE

datatype NotificationPriority = LOW | NORMAL | HIGH | URGENT

datatype SagaStatus = STARTED | IN_PROGRESS | COMPLETED | COMPENSATING | COMPENSATED | FAILED

section \<open>Shared records\<close>

record AuthenticatedUser =
  au_userId :: string
  au_tenantId :: string
  au_email :: string
  au_roles :: "UserRole list"
  au_permissions :: "string list"
  au_sessionId :: "string option"

record PaginationParams =
  pg_page :: int
  pg_limit :: int
  pg_sortBy :: "string option"
  pg_sortOrder :: "string option"
  pg_search :: "string option"

record 'a PagedResponse =
  pr_items :: "'a list"
  pr_total :: nat
  pr_page :: int
  pr_limit :: int
  pr_totalPages :: int
  pr_hasNext :: bool
  pr_hasPrev :: bool

record Money =
  m_amount :: int
  m_currency :: string

record Address =
  ad_streetLine1 :: string
  ad_streetLine2 :: "string option"
  ad_city :: string
  ad_stateOrProvince :: string
  ad_postalCode :: string
  ad_countryCode :: string
  ad_contactName :: string
  ad_contactPhone :: string
  ad_contactEmail :: "string option"
  ad_instructions :: "string option"

section \<open>Domain exceptions\<close>

text \<open>
  One constructor per exception class, with the arguments its constructor takes. The
  \<open>details\<close>, the timestamp and the stack trace are diagnostics that no code path reads.
\<close>

datatype app_error =
    NotFoundException string "string option"
  | ValidationError string
  | UnauthorizedException string
  | ForbiddenException string
  | ConflictException string
  | InsufficientInventoryException string int int
  | PaymentProcessingException string "string option"
  | SagaExecutionException string string string
  | UnbalancedLedgerException int int
  | RateLimitExceededException nat nat
  | PlainError string
  | TypeError string

type_synonym 'a outcome = "app_error + 'a"

definition UnauthorizedDefault :: string where
  "UnauthorizedDefault = ''Authentication token is invalid, missing, or expired.''"

definition ForbiddenDefault :: string where
  "ForbiddenDefault =
     ''You do not possess the required permissions or roles to perform this action.''"

text \<open>The status a class passes to \<open>BaseDomainException\<close>; any other \<open>Error\<close> carries none.\<close>

fun statusCode :: "app_error \<Rightarrow> nat option" where
  "statusCode (NotFoundException _ _) = Some 404"
| "statusCode (ValidationError _) = Some 400"
| "statusCode (UnauthorizedException _) = Some 401"
| "statusCode (ForbiddenException _) = Some 403"
| "statusCode (ConflictException _) = Some 409"
| "statusCode (InsufficientInventoryException _ _ _) = Some 422"
| "statusCode (PaymentProcessingException _ _) = Some 402"
| "statusCode (SagaExecutionException _ _ _) = Some 500"
| "statusCode (UnbalancedLedgerException _ _) = Some 422"
| "statusCode (RateLimitExceededException _ _) = Some 429"
| "statusCode (PlainError _) = None"
| "statusCode (TypeError _) = None"

fun errorCode :: "app_error \<Rightarrow> string option" where
  "errorCode (NotFoundException _ _) = Some ''ENTITY_NOT_FOUND''"
| "errorCode (ValidationError _) = Some ''VALIDATION_FAILED''"
| "errorCode (UnauthorizedException _) = Some ''UNAUTHORIZED''"
| "errorCode (ForbiddenException _) = Some ''FORBIDDEN''"
| "errorCode (ConflictException _) = Some ''CONFLICT_STATE''"
| "errorCode (InsufficientInventoryException _ _ _) = Some ''INSUFFICIENT_INVENTORY''"
| "errorCode (PaymentProcessingException _ _) = Some ''PAYMENT_FAILED''"
| "errorCode (SagaExecutionException _ _ _) = Some ''SAGA_EXECUTION_ERROR''"
| "errorCode (UnbalancedLedgerException _ _) = Some ''UNBALANCED_LEDGER_TRANSACTION''"
| "errorCode (RateLimitExceededException _ _) = Some ''RATE_LIMIT_EXCEEDED''"
| "errorCode (PlainError _) = None"
| "errorCode (TypeError _) = None"

definition quoted :: "string \<Rightarrow> string" where
  "quoted s = CHR 0x27 # s @ [CHR 0x27]"

text \<open>An identifier that is the empty string is falsy, like a missing one.\<close>

fun errorMessage :: "app_error \<Rightarrow> string" where
  "errorMessage (NotFoundException entity ident) =
     (case ident of
        None \<Rightarrow> entity @ '' was not found.''
      | Some i \<Rightarrow> if i = [] then entity @ '' was not found.''
                 else entity @ '' with identifier '' @ quoted i @ '' was not found.'')"
| "errorMessage (ValidationError m) = m"
| "errorMessage (UnauthorizedException m) = m"
| "errorMessage (ForbiddenException m) = m"
| "errorMessage (ConflictException m) = m"
| "errorMessage (InsufficientInventoryException sku r a) =
     ''Insufficient inventory for SKU '' @ quoted sku @ ''. Requested: '' @ int_string r
       @ '', Available: '' @ int_string a @ ''.''"
| "errorMessage (PaymentProcessingException reason _) = ''Payment processing failed: '' @ reason"
| "errorMessage (SagaExecutionException s st reason) =
     ''Saga '' @ quoted s @ '' execution failed at step '' @ quoted st @ '': '' @ reason"
| "errorMessage (UnbalancedLedgerException d c) =
     ''Double-entry ledger invariant violated: Debits ('' @ int_string d
       @ '') do not equal Credits ('' @ int_string c @ '').''"
| "errorMessage (RateLimitExceededException l w) =
     ''API rate limit exceeded. Max '' @ dec_string l @ '' requests per '' @ dec_string w
       @ '' seconds allowed.''"
| "errorMessage (PlainError m) = m"
| "errorMessage (TypeError m) = m"

text \<open>\<open>toJSON\<close> of an exception: what the error handlers serialise, less the diagnostics.\<close>

definition toJSON :: "app_error \<Rightarrow> (string \<times> nat option \<times> string option)" where
  "toJSON e = (errorMessage e, statusCode e, errorCode e)"

lemma statusCode_domain: "statusCode e = Some n \<Longrightarrow> 400 \<le> n \<and> n \<le> 500"
  by (cases e) auto

lemma statusCode_errorCode: "statusCode e = None \<longleftrightarrow> errorCode e = None"
  by (cases e) auto

section \<open>Result\<close>

datatype ('a, 'e) Result = Success 'a | Failure 'e

fun isSuccess :: "('a, 'e) Result \<Rightarrow> bool" where
  "isSuccess (Success _) = True"
| "isSuccess (Failure _) = False"

fun map_R :: "('a \<Rightarrow> 'b) \<Rightarrow> ('a, 'e) Result \<Rightarrow> ('b, 'e) Result" where
  "map_R fn (Success v) = Success (fn v)"
| "map_R fn (Failure e) = Failure e"

fun flatMap :: "('a \<Rightarrow> ('b, 'e) Result) \<Rightarrow> ('a, 'e) Result \<Rightarrow> ('b, 'e) Result" where
  "flatMap fn (Success v) = fn v"
| "flatMap fn (Failure e) = Failure e"

text \<open>
  A failure holding an \<open>Error\<close> throws that error, any other failure throws a new \<open>Error\<close>
  with the value rendered; \<open>asError\<close> says which of the two a value is.
\<close>

fun getOrThrow :: "('e \<Rightarrow> app_error option) \<Rightarrow> ('e \<Rightarrow> string) \<Rightarrow> ('a, 'e) Result \<Rightarrow> 'a outcome" where
  "getOrThrow asError render (Success v) = Inr v"
| "getOrThrow asError render (Failure e) =
     Inl (case asError e of Some x \<Rightarrow> x | None \<Rightarrow> PlainError (render e))"

fun getOrElse :: "('a, 'e) Result \<Rightarrow> 'a \<Rightarrow> 'a" where
  "getOrElse (Success v) _ = v"
| "getOrElse (Failure _) d = d"

lemma flatMap_assoc: "flatMap g (flatMap f r) = flatMap (\<lambda>x. flatMap g (f x)) r"
  by (cases r) auto

lemma flatMap_right_unit [simp]: "flatMap Success r = r"
  by (cases r) auto

lemma map_R_flatMap: "map_R f r = flatMap (Success \<circ> f) r"
  by (cases r) auto

lemma getOrThrow_iff: "(\<exists>v. getOrThrow a b r = Inr v) \<longleftrightarrow> isSuccess r"
  by (cases r) auto

text \<open>
  The sequential composition of a \<open>throw\<close>ing computation: the first error is the outcome.
\<close>

fun bind_o :: "'a outcome \<Rightarrow> ('a \<Rightarrow> 'b outcome) \<Rightarrow> 'b outcome" where
  "bind_o (Inl e) f = Inl e"
| "bind_o (Inr v) f = f v"

lemma bind_o_Inr: "bind_o x f = Inr y \<longleftrightarrow> (\<exists>v. x = Inr v \<and> f v = Inr y)"
  by (cases x) auto

lemma bind_o_Inl: "bind_o x f = Inl e \<longleftrightarrow> x = Inl e \<or> (\<exists>v. x = Inr v \<and> f v = Inl e)"
  by (cases x) auto

end
