(* ===== verification/Event_Bus.thy ===== *)
theory Event_Bus
  imports Common_Types
begin

text \<open>
  The in-memory event bus (packages/common/src/messaging/bus.ts): handlers per event type in
  a \<open>Set\<close> (insertion order, no duplicates), and \<open>publish\<close>, which calls every listener and
  swallows the exceptions they throw. The locale \<open>event_bus\<close> is the interface \<open>IEventBus\<close>
  as its clients see it; the in-memory bus interprets it.
\<close>

record 'p CloudEventEnvelope =
  ev_id :: string
  ev_type :: string
  ev_tenantId :: string
  ev_correlationId :: string
  ev_data :: 'p

section \<open>The interface\<close>

locale event_bus =
  fixes listeners :: "'b \<Rightarrow> string \<Rightarrow> 'h list"
    and subscribe :: "string \<Rightarrow> 'h \<Rightarrow> 'b \<Rightarrow> 'b"
    and unsubscribe :: "string \<Rightarrow> 'h \<Rightarrow> 'b \<Rightarrow> 'b"
    and valid :: "'b \<Rightarrow> bool"
  assumes valid_distinct: "valid b \<Longrightarrow> distinct (listeners b t)"
    and subscribe_valid: "valid b \<Longrightarrow> valid (subscribe t h b)"
    and unsubscribe_valid: "valid b \<Longrightarrow> valid (unsubscribe t h b)"
    and subscribe_listeners:
      "listeners (subscribe t h b) t' =
         (if t' = t \<and> h \<notin> set (listeners b t) then listeners b t @ [h] else listeners b t')"
    and unsubscribe_listeners:
      "valid b \<Longrightarrow> listeners (unsubscribe t h b) t' =
         (if t' = t then filter (\<lambda>x. x \<noteq> h) (listeners b t) else listeners b t')"
begin

lemma subscribed: "h \<in> set (listeners (subscribe t h b) t)"
  by (simp add: subscribe_listeners)

lemma subscribe_idem: "listeners (subscribe t h (subscribe t h b)) t' = listeners (subscribe t h b) t'"
  by (auto simp: subscribe_listeners)

lemma unsubscribed: "valid b \<Longrightarrow> h \<notin> set (listeners (unsubscribe t h b) t)"
  by (simp add: unsubscribe_listeners)

lemma unsubscribe_subscribe:
  "valid b \<Longrightarrow> h \<notin> set (listeners b t) \<Longrightarrow>
    listeners (unsubscribe t h (subscribe t h b)) t' = listeners b t'"
  by (auto simp: unsubscribe_listeners subscribe_valid subscribe_listeners filter_id_conv)

lemma listener_count:
  assumes "valid b"
  shows "count_list (listeners b t) h = (if h \<in> set (listeners b t) then 1 else 0)"
proof -
  have "distinct xs \<Longrightarrow> count_list xs h = (if h \<in> set xs then 1 else 0)" for xs
    by (induction xs) (auto simp: count_list_0_iff)
  then show ?thesis using valid_distinct [OF assms] by blast
qed

end

section \<open>The in-memory bus\<close>

type_synonym 'h InMemoryEventBus = "(string, 'h list) jsmap"

definition set_add :: "'h \<Rightarrow> 'h list \<Rightarrow> 'h list" where
  "set_add h xs = (if h \<in> set xs then xs else xs @ [h])"

definition bus_listeners :: "'h InMemoryEventBus \<Rightarrow> string \<Rightarrow> 'h list" where
  "bus_listeners b t = (case jm_get b t of None \<Rightarrow> [] | Some hs \<Rightarrow> hs)"

definition bus_subscribe :: "string \<Rightarrow> 'h \<Rightarrow> 'h InMemoryEventBus \<Rightarrow> 'h InMemoryEventBus" where
  "bus_subscribe t h b =
     (let b' = (if jm_has b t then b else jm_set t [] b)
      in case jm_get b' t of Some hs \<Rightarrow> jm_set t (set_add h hs) b' | None \<Rightarrow> b')"

definition bus_unsubscribe :: "string \<Rightarrow> 'h \<Rightarrow> 'h InMemoryEventBus \<Rightarrow> 'h InMemoryEventBus" where
  "bus_unsubscribe t h b =
     (case jm_get b t of
        Some hs \<Rightarrow> jm_set t (filter (\<lambda>x. x \<noteq> h) hs) b
      | None \<Rightarrow> b)"

text \<open>
  \<open>call h e s\<close> is what handler \<open>h\<close> does to the rest of the world \<open>s\<close> when it is given
  the event: the new state and, if its promise rejects, the error. \<open>publish\<close> starts the
  handlers in subscription order over a snapshot of the set (\<open>Array.from\<close>); a rejection is
  caught and logged. Handlers are taken to run to completion one after another.
\<close>

definition deliver ::
  "('h \<Rightarrow> 'p CloudEventEnvelope \<Rightarrow> 's \<Rightarrow> 's \<times> app_error option) \<Rightarrow> 'p CloudEventEnvelope \<Rightarrow> 'h
     \<Rightarrow> 's \<times> (string \<times> app_error) list \<Rightarrow> 's \<times> (string \<times> app_error) list" where
  "deliver call e h sl =
     (case call h e (fst sl) of
        (s', None) \<Rightarrow> (s', snd sl)
      | (s', Some err) \<Rightarrow> (s', snd sl @ [(ev_type e, err)]))"

definition bus_publish ::
  "('h \<Rightarrow> 'p CloudEventEnvelope \<Rightarrow> 's \<Rightarrow> 's \<times> app_error option) \<Rightarrow> 'p CloudEventEnvelope
     \<Rightarrow> 'h InMemoryEventBus \<Rightarrow> 's \<Rightarrow> 's \<times> (string \<times> app_error) list" where
  "bus_publish call e b s =
     (case jm_get b (ev_type e) of
        None \<Rightarrow> (s, [])
      | Some hs \<Rightarrow> if hs = [] then (s, []) else fold (deliver call e) hs (s, []))"

definition bus_valid :: "'h InMemoryEventBus \<Rightarrow> bool" where
  "bus_valid b \<longleftrightarrow> jm_ok b \<and> (\<forall>(t, hs) \<in> set b. distinct hs)"

lemma bus_valid_get: "bus_valid b \<Longrightarrow> jm_get b t = Some hs \<Longrightarrow> distinct hs"
  by (auto simp: bus_valid_def dest: map_of_SomeD)

lemma bus_valid_set: "bus_valid b \<Longrightarrow> distinct hs \<Longrightarrow> bus_valid (jm_set t hs b)"
  by (auto simp: bus_valid_def dest!: jm_set_mem)

interpretation bus: event_bus bus_listeners bus_subscribe bus_unsubscribe bus_valid
proof
  show "distinct (bus_listeners b t)" if "bus_valid b" for b :: "'h InMemoryEventBus" and t
    using that by (auto simp: bus_listeners_def bus_valid_get split: option.split)
  show "bus_valid (bus_subscribe t h b)" if "bus_valid b" for b :: "'h InMemoryEventBus" and t h
    using that by (auto simp: bus_subscribe_def Let_def set_add_def intro!: bus_valid_set
        dest: bus_valid_get split: option.split if_splits)
  show "bus_valid (bus_unsubscribe t h b)" if "bus_valid b" for b :: "'h InMemoryEventBus" and t h
    using that by (auto simp: bus_unsubscribe_def intro!: bus_valid_set
        dest: bus_valid_get split: option.split)
qed (auto simp: bus_listeners_def bus_subscribe_def bus_unsubscribe_def Let_def set_add_def
    split: option.split)

text \<open>What \<open>publish\<close> does, as an iteration that never looks at a handler's failure.\<close>

lemma deliver_state: "fst (deliver call e h sl) = fst (call h e (fst sl))"
  by (auto simp: deliver_def split: prod.split option.split)

lemma publish_state:
  "fst (bus_publish call e b s) = fold (\<lambda>h s. fst (call h e s)) (bus_listeners b (ev_type e)) s"
proof -
  have "fst (fold (deliver call e) hs (s, l)) = fold (\<lambda>h s. fst (call h e s)) hs s" for hs l
  proof (induction hs arbitrary: s l)
    case (Cons h hs)
    show ?case
      using Cons.IH [of "fst (deliver call e h (s, l))" "snd (deliver call e h (s, l))"]
        deliver_state [of call e h "(s, l)"]
      by (cases "deliver call e h (s, l)") simp
  qed simp
  then show ?thesis
    by (auto simp: bus_publish_def bus_listeners_def split: option.split)
qed

lemma publish_log_type:
  "x \<in> set (snd (bus_publish call e b s)) \<Longrightarrow> fst x = ev_type e"
proof -
  have step: "set (snd (deliver call e h sl)) \<subseteq> set (snd sl) \<union> {y. fst y = ev_type e}" for h sl
    by (auto simp: deliver_def split: prod.split option.split)
  have run: "set (snd (fold (deliver call e) hs sl)) \<subseteq> set (snd sl) \<union> {y. fst y = ev_type e}" for hs sl
  proof (induction hs arbitrary: sl)
    case (Cons h hs)
    have "set (snd (fold (deliver call e) (h # hs) sl))
        \<subseteq> set (snd (deliver call e h sl)) \<union> {y. fst y = ev_type e}"
      using Cons.IH [of "deliver call e h sl"] by simp
    with step [of h sl] show ?case by blast
  qed simp
  assume "x \<in> set (snd (bus_publish call e b s))"
  with run [of "bus_listeners b (ev_type e)" "(s, [])"] show "fst x = ev_type e"
    by (auto simp: bus_publish_def bus_listeners_def split: option.splits if_splits)
qed

lemma publish_record:
  "fold (deliver (\<lambda>h e s. (s @ [h], err h e)) e) hs (s, l) =
     (s @ hs, l @ [(ev_type e, x). Some x \<leftarrow> map (\<lambda>h. err h e) hs])"
  by (induction hs arbitrary: s l) (auto simp: deliver_def split: option.split)

text \<open>Whatever handlers fail, \<open>publish\<close> calls every current listener of the event's type
  exactly once, in subscription order, and reports exactly the failures; a handler is called
  after it has subscribed (once, even if it subscribed twice) and not after it unsubscribed.\<close>

theorem publish_reaches_every_listener:
  assumes "bus_valid b"
  shows "fst (bus_publish (\<lambda>h e s. (s @ [h], err h e)) e b s) = s @ bus_listeners b (ev_type e) \<and>
    snd (bus_publish (\<lambda>h e s. (s @ [h], err h e)) e b s) =
      [(ev_type e, x). Some x \<leftarrow> map (\<lambda>h. err h e) (bus_listeners b (ev_type e))] \<and>
    count_list (bus_listeners (bus_subscribe t h (bus_subscribe t h b)) t) h = 1 \<and>
    count_list (bus_listeners (bus_unsubscribe t h (bus_subscribe t h b)) t) h = 0 \<and>
    (t' \<noteq> t \<longrightarrow> bus_listeners (bus_unsubscribe t h (bus_subscribe t h b)) t' = bus_listeners b t')"
proof -
  have v: "bus_valid (bus_subscribe t h b)" "bus_valid (bus_subscribe t h (bus_subscribe t h b))"
    using assms by (simp_all add: bus.subscribe_valid)
  show ?thesis
    using bus.listener_count [OF v(2), of t h] bus.unsubscribed [OF v(1), of h t]
      bus.subscribed [of h t "bus_subscribe t h b"]
    by (auto simp: bus_publish_def bus_listeners_def [of b] publish_record count_list_0_iff
        bus.unsubscribe_listeners [OF v(1)] bus.subscribe_listeners split: option.split)
qed

theorem publish_reaches_every_listener_witness:
  "fst (bus_publish (\<lambda>h e s. (s @ [h], if h = 1 then Some (PlainError ''boom'') else None))
      \<lparr> ev_id = ''e'', ev_type = ''t'', ev_tenantId = ''x'', ev_correlationId = ''c'', ev_data = () \<rparr>
      [(''t'', [1, 2 :: nat])] []) = [1, 2]"
  using publish_reaches_every_listener
    [where b = "[(''t'', [1, 2 :: nat])]" and s = "[]"
      and err = "\<lambda>h e. if h = 1 then Some (PlainError ''boom'') else None"
      and e = "\<lparr> ev_id = ''e'', ev_type = ''t'', ev_tenantId = ''x'', ev_correlationId = ''c'', ev_data = () \<rparr>"]
  by (simp add: bus_valid_def bus_listeners_def)

end
