(* ===== verification/Lease_Lock.thy ===== *)
theory Lease_Lock
  imports Prelude
begin

text \<open>
  The lease lock manager (packages/common/src/concurrency/DistributedLeaseLockManager.ts):
  leases per resource with an owner, an expiry and a fencing token drawn from a sequence.
  The lemmas show that the stored leases are well formed, that an unexpired lease cannot be
  taken over or released by anybody else, and that fencing tokens only grow.
\<close>

record ILeaseLock =
  ll_resourceKey :: string
  ll_ownerId :: string
  ll_fencingToken :: nat
  ll_grantedAt :: instant
  ll_expiresAt :: instant

record LeaseManager =
  lm_locks :: "(string, ILeaseLock) jsmap"
  lm_sequence :: nat

definition lease_init :: LeaseManager where
  "lease_init = \<lparr> lm_locks = [], lm_sequence = 1000 \<rparr>"

definition acquireLease ::
  "instant \<Rightarrow> string \<Rightarrow> string \<Rightarrow> int \<Rightarrow> LeaseManager \<Rightarrow> LeaseManager \<times> ILeaseLock option" where
  "acquireLease now r owner dur s =
     (let blocked = (case jm_get (lm_locks s) r of
                       None \<Rightarrow> False
                     | Some l \<Rightarrow> ll_expiresAt l > now \<and> ll_ownerId l \<noteq> owner)
      in if blocked then (s, None)
         else let n = Suc (lm_sequence s);
                  l = \<lparr> ll_resourceKey = r, ll_ownerId = owner, ll_fencingToken = n,
                        ll_grantedAt = now, ll_expiresAt = now + dur \<rparr>
              in (s\<lparr> lm_locks := jm_set r l (lm_locks s), lm_sequence := n \<rparr>, Some l))"

definition releaseLease :: "string \<Rightarrow> string \<Rightarrow> LeaseManager \<Rightarrow> LeaseManager \<times> bool" where
  "releaseLease r owner s =
     (case jm_get (lm_locks s) r of
        None \<Rightarrow> (s, False)
      | Some l \<Rightarrow> if ll_ownerId l \<noteq> owner then (s, False)
                 else (s\<lparr> lm_locks := jm_delete r (lm_locks s) \<rparr>, True))"

section \<open>Runs\<close>

datatype lease_op = Acquire instant string string int | Release string string

fun op_owner :: "lease_op \<Rightarrow> string" where
  "op_owner (Acquire _ _ ow _) = ow"
| "op_owner (Release _ ow) = ow"

fun op_before :: "instant \<Rightarrow> lease_op \<Rightarrow> bool" where
  "op_before t (Acquire now _ _ _) = (now < t)"
| "op_before t (Release _ _) = True"

fun lease_step :: "lease_op \<Rightarrow> LeaseManager \<Rightarrow> LeaseManager" where
  "lease_step (Acquire now r ow d) s = fst (acquireLease now r ow d s)"
| "lease_step (Release r ow) s = fst (releaseLease r ow s)"

text \<open>The leases that a run grants, in order.\<close>

fun lease_grants :: "lease_op list \<Rightarrow> LeaseManager \<Rightarrow> ILeaseLock list" where
  "lease_grants [] s = []"
| "lease_grants (Acquire now r ow d # es) s =
     (case acquireLease now r ow d s of
        (s', Some l) \<Rightarrow> l # lease_grants es s'
      | (s', None) \<Rightarrow> lease_grants es s')"
| "lease_grants (Release r ow # es) s = lease_grants es (fst (releaseLease r ow s))"

section \<open>Invariant\<close>

definition lease_inv :: "LeaseManager \<Rightarrow> bool" where
  "lease_inv s \<longleftrightarrow> keyed ll_resourceKey (lm_locks s) \<and> 1000 \<le> lm_sequence s \<and>
     (\<forall>l \<in> set (jm_values (lm_locks s)). 1000 < ll_fencingToken l \<and> ll_fencingToken l \<le> lm_sequence s) \<and>
     inj_on ll_fencingToken (set (jm_values (lm_locks s)))"

lemma lease_init_inv: "lease_inv lease_init"
  by (simp add: lease_inv_def lease_init_def)

lemma acquireLease_inv [keeps]: "lease_inv s \<Longrightarrow> lease_inv (fst (acquireLease now r ow d s))"
  by (fastforce simp: lease_inv_def acquireLease_def Let_def inj_on_def
      intro!: keyed_put dest!: jm_set_value split: if_splits)

lemma releaseLease_inv [keeps]: "lease_inv s \<Longrightarrow> lease_inv (fst (releaseLease r ow s))"
  by (fastforce simp: releaseLease_def lease_inv_def inj_on_def dest!: jm_delete_value
      split: option.split)

interpretation lease: invariant_machine lease_step lease_inv
proof
  show "lease_inv (lease_step e s)" if "lease_inv s" for e s
    using that by (cases e) (simp_all add: keeps)
qed

section \<open>Mutual exclusion and fencing\<close>

text \<open>\<open>held r ow t l s\<close>: owner \<open>ow\<close> has the unexpired lease \<open>l\<close> on \<open>r\<close> at time \<open>t\<close>.\<close>

definition held :: "string \<Rightarrow> ILeaseLock \<Rightarrow> LeaseManager \<Rightarrow> bool" where
  "held r l s \<longleftrightarrow> jm_get (lm_locks s) r = Some l"

lemma held_step:
  assumes "held r l s" and "op_owner e \<noteq> ll_ownerId l" and "op_before (ll_expiresAt l) e"
  shows "held r l (lease_step e s)"
  using assms by (cases e) (auto simp: held_def acquireLease_def releaseLease_def Let_def
      split: option.splits if_splits)

lemma held_run:
  assumes "held r l s" and "\<forall>e \<in> set es. op_owner e \<noteq> ll_ownerId l \<and> op_before (ll_expiresAt l) e"
  shows "held r l (fold lease_step es s)"
  using assms by (induction es arbitrary: s) (auto simp: held_step)

lemma acquire_blocked:
  assumes "held r l s" and "now < ll_expiresAt l" and "ow \<noteq> ll_ownerId l"
  shows "acquireLease now r ow d s = (s, None)"
  using assms by (auto simp: held_def acquireLease_def)

lemma acquire_free:
  assumes "\<forall>l. held r l s \<longrightarrow> ll_expiresAt l \<le> now \<or> ll_ownerId l = ow"
  shows "\<exists>l. snd (acquireLease now r ow d s) = Some l \<and> ll_fencingToken l = Suc (lm_sequence s) \<and>
    held r l (fst (acquireLease now r ow d s))"
  using assms by (force simp: held_def acquireLease_def Let_def split: option.splits)

lemma release_seq: "lm_sequence (fst (releaseLease r ow s)) = lm_sequence s"
  by (simp add: releaseLease_def split: option.split)

lemma acquire_result:
  "acquireLease now r ow d s = (s', Some l) \<Longrightarrow>
    ll_fencingToken l = Suc (lm_sequence s) \<and> lm_sequence s' = Suc (lm_sequence s)"
  "acquireLease now r ow d s = (s', None) \<Longrightarrow> s' = s"
  by (auto simp: acquireLease_def Let_def split: if_splits)

lemma grants_sorted:
  "sorted_wrt (<) (lm_sequence s # map ll_fencingToken (lease_grants es s))"
proof (induction es s rule: lease_grants.induct)
  case (2 now r ow d es s)
  obtain s' g where step: "acquireLease now r ow d s = (s', g)" by force
  show ?case
  proof (cases g)
    case None
    with 2 step acquire_result(2) [of now r ow d s s'] show ?thesis by simp
  next
    case (Some l)
    with 2 step acquire_result(1) [of now r ow d s s' l] show ?thesis
      by (simp, metis Suc_lessD)
  qed
next
  case (3 r ow es s)
  then show ?case by (simp add: release_seq)
qed simp

text \<open>C23: While a granted lease has not expired, no sequence of calls by other owners, made before
  its expiry, can take, replace or release it, and every attempt of another owner to acquire the
  resource is refused; once it has expired anybody can acquire it. The fencing tokens of all the
  leases a run grants are strictly increasing, from 1001 on, so a token identifies its grant.\<close>

theorem lease_mutual_exclusion:
  assumes "jm_get (lm_locks s) r = Some l"
    and "\<forall>e \<in> set es. op_owner e \<noteq> ll_ownerId l \<and> op_before (ll_expiresAt l) e"
  shows "jm_get (lm_locks (fold lease_step es s)) r = Some l \<and>
    (\<forall>now ow d. now < ll_expiresAt l \<longrightarrow> ow \<noteq> ll_ownerId l \<longrightarrow>
       snd (acquireLease now r ow d (fold lease_step es s)) = None) \<and>
    (\<forall>now ow d. ll_expiresAt l \<le> now \<longrightarrow>
       snd (acquireLease now r ow d (fold lease_step es s)) \<noteq> None) \<and>
    (\<forall>fs. sorted_wrt (<) (1000 # map ll_fencingToken (lease_grants fs lease_init)))"
proof -
  have h: "held r l (fold lease_step es s)"
    using held_run assms by (simp add: held_def)
  have "snd (acquireLease now r ow d (fold lease_step es s)) \<noteq> None"
    if "ll_expiresAt l \<le> now" for now ow d
    using acquire_free [of r "fold lease_step es s" now ow d] h that by (auto simp: held_def)
  moreover have "snd (acquireLease now r ow d (fold lease_step es s)) = None"
    if "now < ll_expiresAt l" "ow \<noteq> ll_ownerId l" for now ow d
    using acquire_blocked [OF h that] by simp
  moreover have "sorted_wrt (<) (1000 # map ll_fencingToken (lease_grants fs lease_init))" for fs
    using grants_sorted [of lease_init fs] by (simp add: lease_init_def)
  ultimately show ?thesis using h unfolding held_def by blast
qed

theorem lease_mutual_exclusion_witness:
  "snd (acquireLease 20 ''db'' ''bob'' 50
     (fold lease_step [Acquire 10 ''db'' ''bob'' 50, Release ''db'' ''bob'']
       (fst (acquireLease 0 ''db'' ''ann'' 100 lease_init)))) = None"
proof -
  define s where "s = fst (acquireLease 0 ''db'' ''ann'' 100 lease_init)"
  let ?l = "\<lparr> ll_resourceKey = ''db'', ll_ownerId = ''ann'', ll_fencingToken = 1001,
               ll_grantedAt = 0, ll_expiresAt = 100 \<rparr>"
  have "jm_get (lm_locks s) ''db'' = Some ?l"
    by (simp add: s_def acquireLease_def lease_init_def Let_def)
  from lease_mutual_exclusion [OF this, of "[Acquire 10 ''db'' ''bob'' 50, Release ''db'' ''bob'']"]
  show ?thesis unfolding s_def [symmetric] by simp
qed

end
