(* ===== verification/Ring_Buffer.thy ===== *)
theory Ring_Buffer
  imports Prelude "HOL-Library.Word"
begin

text \<open>
  The ring buffer of packages/common/src/buffers/HighThroughputDisruptorRingBuffer.ts.
  A JavaScript array that is written at an index is a partial map from integers; the index
  is computed with \<open>&\<close>, which reduces both operands to 32-bit integers and yields a signed
  one. The lemmas show that for a capacity that is a power of two (up to \<open>2 ^ 31\<close>) the index
  is the sequence number modulo the capacity, and what \<open>get\<close> reads after any run.
\<close>

unbundle bit_operations_syntax

record 'a RingBuffer =
  rb_buffer :: "int \<rightharpoonup> 'a"
  rb_capacity :: int
  rb_mask :: int
  rb_sequence :: int

definition js_and :: "int \<Rightarrow> int \<Rightarrow> int" where
  "js_and a b = sint ((word_of_int a :: 32 word) AND word_of_int b)"

definition ring_new :: "int \<Rightarrow> 'a RingBuffer" where
  "ring_new cap = \<lparr> rb_buffer = Map.empty, rb_capacity = cap, rb_mask = cap - 1, rb_sequence = 0 \<rparr>"

definition ring_publish :: "'a \<Rightarrow> 'a RingBuffer \<Rightarrow> 'a RingBuffer \<times> int" where
  "ring_publish item b =
     (let cur = rb_sequence b; idx = js_and cur (rb_mask b)
      in (b\<lparr> rb_sequence := cur + 1, rb_buffer := (rb_buffer b)(idx \<mapsto> item) \<rparr>, cur))"

definition ring_get :: "int \<Rightarrow> 'a RingBuffer \<Rightarrow> 'a option" where
  "ring_get sq b = rb_buffer b (js_and sq (rb_mask b))"

definition getCapacity :: "'a RingBuffer \<Rightarrow> int" where
  "getCapacity b = rb_capacity b"

lemma js_and_mask:
  assumes "k \<le> 31"
  shows "js_and n (2 ^ k - 1) = n mod 2 ^ k"
proof -
  have mask: "(word_of_int (2 ^ k - 1) :: 32 word) = mask k"
    by (simp add: mask_eq_exp_minus_1)
  have "(word_of_int n :: 32 word) AND mask k = word_of_int (take_bit k n)"
    by (rule bit_eqI) (auto simp: bit_simps)
  moreover have "(take_bit k n) < 2 ^ 31" "0 \<le> take_bit k n"
  proof -
    have "take_bit k n < 2 ^ k" by (rule take_bit_int_less_exp)
    also have "(2::int) ^ k \<le> 2 ^ 31" using assms by (intro power_increasing) auto
    finally show "take_bit k n < 2 ^ 31" .
  qed simp
  moreover from calculation(2,3) have "signed_take_bit 31 (take_bit k n) = take_bit k n"
    by (intro signed_take_bit_int_eq_self) (auto intro: order.trans [of _ 0])
  ultimately show ?thesis
    unfolding js_and_def mask by (simp add: sint_sbintrunc' take_bit_eq_mod)
qed

text \<open>Publishing a list of items, one after another.\<close>

definition publish_all :: "'a list \<Rightarrow> 'a RingBuffer \<Rightarrow> 'a RingBuffer" where
  "publish_all xs b = fold (\<lambda>x b. fst (ring_publish x b)) xs b"

lemma publish_all_Nil [simp]: "publish_all [] b = b"
  by (simp add: publish_all_def)

lemma publish_all_snoc:
  "publish_all (xs @ [x]) b = fst (ring_publish x (publish_all xs b))"
  by (simp add: publish_all_def)

lemma publish_all_frame:
  "rb_sequence (publish_all xs b) = rb_sequence b + int (length xs) \<and>
   rb_mask (publish_all xs b) = rb_mask b \<and> rb_capacity (publish_all xs b) = rb_capacity b"
  by (induction xs rule: rev_induct) (auto simp: publish_all_snoc ring_publish_def Let_def)

text \<open>The item that slot \<open>i\<close> holds: the last published one whose number is congruent.\<close>

lemma publish_all_slot:
  assumes "k \<le> 31"
  shows "rb_buffer (publish_all xs (ring_new (2 ^ k))) i =
    (case filter (\<lambda>j. int j mod 2 ^ k = i) [0..<length xs] of
       [] \<Rightarrow> None | js \<Rightarrow> Some (xs ! last js))"
proof (induction xs rule: rev_induct)
  case (snoc x xs)
  let ?b = "publish_all xs (ring_new (2 ^ k))"
  have idx: "js_and (rb_sequence ?b) (rb_mask ?b) = int (length xs) mod 2 ^ k"
    using publish_all_frame [of xs "ring_new (2 ^ k)"] assms
    by (simp add: ring_new_def js_and_mask)
  have last_less: "last js < length xs"
    if "filter (\<lambda>j. int j mod 2 ^ k = i) [0..<length xs] = js" "js \<noteq> []" for js
  proof -
    have "last js \<in> set js" using that by simp
    then show ?thesis by (auto simp: that(1) [symmetric])
  qed
  show ?case
    using snoc idx last_less
    by (auto simp: publish_all_snoc ring_publish_def Let_def nth_append split: list.splits)
qed (simp add: ring_new_def)

lemma last_congruent:
  assumes "j < n" and "n \<le> j + 2 ^ k"
  shows "filter (\<lambda>i. int i mod 2 ^ k = int j mod 2 ^ k) [0..<n] \<noteq> [] \<and>
    last (filter (\<lambda>i. int i mod 2 ^ k = int j mod 2 ^ k) [0..<n]) = j"
proof -
  have split: "[0..<n] = [0..<Suc j] @ [Suc j..<n]"
    using assms(1) by (metis Suc_leI le_add1 plus_nat.add_0 upt_add_eq_append le_add_diff_inverse)
  have "filter (\<lambda>i. int i mod 2 ^ k = int j mod 2 ^ k) [Suc j..<n] = []"
  proof -
    have "int i mod 2 ^ k \<noteq> int j mod 2 ^ k" if "Suc j \<le> i" "i < n" for i
    proof
      assume "int i mod 2 ^ k = int j mod 2 ^ k"
      then have "(2::int) ^ k dvd int i - int j" by (rule mod_eq_dvd_iff [THEN iffD1])
      moreover have "0 < int i - int j" using that by simp
      moreover have "int i - int j < 2 ^ k"
      proof -
        have "i < j + 2 ^ k" using that assms by simp
        then have "int i < int j + 2 ^ k" by (metis of_nat_add of_nat_less_iff of_nat_numeral of_nat_power)
        then show ?thesis by simp
      qed
      ultimately show False using zdvd_imp_le by fastforce
    qed
    then show ?thesis by (auto simp: filter_empty_conv)
  qed
  then show ?thesis unfolding split filter_append by simp
qed

lemma get_recent:
  assumes "k \<le> 31" and "j < length xs" and "length xs \<le> j + 2 ^ k"
  shows "ring_get (int j) (publish_all xs (ring_new (2 ^ k))) = Some (xs ! j)"
  using publish_all_slot [OF assms(1), of xs "int j mod 2 ^ k"] last_congruent [OF assms(2,3)]
    publish_all_frame [of xs "ring_new (2 ^ k)"] assms(1)
  by (auto simp: ring_get_def ring_new_def js_and_mask split: list.splits)

lemma get_stale:
  assumes "k \<le> 31" and "j < length xs" and "length xs \<le> j + 2 ^ k"
    and "int i mod 2 ^ k = int j mod 2 ^ k"
  shows "ring_get (int i) (publish_all xs (ring_new (2 ^ k))) = Some (xs ! j)"
  using get_recent [OF assms(1-3)] publish_all_frame [of xs "ring_new (2 ^ k)"] assms(1,4)
  by (simp add: ring_get_def ring_new_def js_and_mask)

text \<open>A ring buffer whose capacity is a power of two (up to \<open>2 ^ 31\<close>) hands out consecutive
  sequence numbers, and after any run of \<open>publish\<close> calls \<open>get(seq)\<close> returns exactly the item
  published under \<open>seq\<close> as long as it is among the last \<open>capacity\<close> ones; a reader that is too
  late silently gets the item that is \<open>capacity\<close> (or a multiple of it) newer, and a slot that
  was never written reads as undefined.\<close>

theorem ring_buffer_window:
  assumes "k \<le> 31"
  shows "snd (ring_publish x (publish_all xs (ring_new (2 ^ k)))) = int (length xs) \<and>
    (\<forall>j < length xs. length xs \<le> j + 2 ^ k \<longrightarrow>
       ring_get (int j) (publish_all xs (ring_new (2 ^ k))) = Some (xs ! j)) \<and>
    (\<forall>i j. j < length xs \<longrightarrow> length xs \<le> j + 2 ^ k \<longrightarrow> i mod 2 ^ k = j mod 2 ^ k \<longrightarrow>
       ring_get (int i) (publish_all xs (ring_new (2 ^ k))) = Some (xs ! j)) \<and>
    (\<forall>i < 2 ^ k. length xs \<le> i \<longrightarrow>
       ring_get (int i) (publish_all xs (ring_new (2 ^ k))) = None)"
proof (intro conjI allI impI)
  show "snd (ring_publish x (publish_all xs (ring_new (2 ^ k)))) = int (length xs)"
    using publish_all_frame [of xs "ring_new (2 ^ k)"] by (simp add: ring_publish_def Let_def ring_new_def)
next
  fix i j assume "j < length xs" "length xs \<le> j + 2 ^ k" "i mod 2 ^ k = j mod 2 ^ k"
  moreover from this(3) have "int i mod 2 ^ k = int j mod 2 ^ k"
    using zmod_int [of i "2 ^ k"] zmod_int [of j "2 ^ k"] by simp
  ultimately show "ring_get (int i) (publish_all xs (ring_new (2 ^ k))) = Some (xs ! j)"
    using assms by (intro get_stale)
next
  fix i :: nat assume i: "i < 2 ^ k" "length xs \<le> i"
  have "int i < 2 ^ k" using i(1) by (metis of_nat_less_iff of_nat_numeral of_nat_power)
  then have "int j mod 2 ^ k \<noteq> int i" if "j < length xs" for j
    using that i(2) by simp
  then have "filter (\<lambda>j. int j mod 2 ^ k = int i) [0..<length xs] = []"
    by (auto simp: filter_empty_conv)
  with assms \<open>int i < 2 ^ k\<close> publish_all_slot [OF assms, of xs "int i"]
    publish_all_frame [of xs "ring_new (2 ^ k)"]
  show "ring_get (int i) (publish_all xs (ring_new (2 ^ k))) = None"
    by (simp add: ring_get_def ring_new_def js_and_mask)
qed (use assms in \<open>simp add: get_recent\<close>)

theorem ring_buffer_window_witness:
  "ring_get 2 (publish_all [10, 20, 30 :: nat] (ring_new (2 ^ 1))) = Some 30 \<and>
   ring_get 1 (publish_all [10, 20, 30 :: nat] (ring_new (2 ^ 1))) = Some 20 \<and>
   ring_get 0 (publish_all [10, 20, 30 :: nat] (ring_new (2 ^ 1))) = Some 30"
proof -
  have w: "\<forall>i j. j < 3 \<longrightarrow> 3 \<le> j + 2 \<longrightarrow> i mod 2 = j mod 2 \<longrightarrow>
      ring_get (int i) (publish_all [10, 20, 30 :: nat] (ring_new (2 ^ 1))) = Some ([10, 20, 30] ! j)"
    using ring_buffer_window [of 1 "0 :: nat" "[10, 20, 30]"] by simp
  show ?thesis using w [rule_format, of 2 2] w [rule_format, of 1 1] w [rule_format, of 2 0] by simp
qed

end
