(* ===== verification/Double.thy ===== *)
theory Double
  imports Prelude "HOL-Library.Log_Nat"
begin

text \<open>
  JavaScript \<open>number\<close> arithmetic. A finite double is a rational; each arithmetic operation
  returns the exact result rounded to 53 significant bits, ties to even (IEEE 754 binary64,
  as ECMAScript prescribes). \<open>fl\<close> is that rounding. Overflow, subnormal results, NaN and the
  sign of zero are outside the model: the quantities of this code base (cents, kilograms,
  minutes, percentages) stay well inside the normal range.

  \<open>Math.round\<close> rounds half up, \<open>Math.floor\<close>, \<open>Math.ceil\<close> are exact, and \<open>+x.toFixed(d)\<close>
  is the double nearest to the decimal with \<open>d\<close> places nearest to \<open>x\<close>.
\<close>

definition pow2 :: "int \<Rightarrow> rat" where
  "pow2 k = (if 0 \<le> k then 2 ^ nat k else 1 / 2 ^ nat (- k))"

definition ilog2 :: "rat \<Rightarrow> int" where
  "ilog2 x =
     (let (n, d) = quotient_of x; k = bitlen n - bitlen d
      in if pow2 k \<le> x then k else k - 1)"

definition round_even :: "rat \<Rightarrow> int" where
  "round_even x =
     (let f = \<lfloor>x\<rfloor>; r = x - of_int f
      in if r < 1 / 2 then f else if 1 / 2 < r then f + 1 else if even f then f else f + 1)"

definition fl_pos :: "rat \<Rightarrow> rat" where
  "fl_pos x = (let u = pow2 (ilog2 x - 52) in of_int (round_even (x / u)) * u)"

definition fl :: "rat \<Rightarrow> rat" where
  "fl x = (if x = 0 then 0 else if x < 0 then - fl_pos (- x) else fl_pos x)"

definition dadd :: "rat \<Rightarrow> rat \<Rightarrow> rat" where "dadd a b = fl (a + b)"
definition dsub :: "rat \<Rightarrow> rat \<Rightarrow> rat" where "dsub a b = fl (a - b)"
definition dmul :: "rat \<Rightarrow> rat \<Rightarrow> rat" where "dmul a b = fl (a * b)"
definition ddiv :: "rat \<Rightarrow> rat \<Rightarrow> rat" where "ddiv a b = fl (a / b)"

definition Math_round :: "rat \<Rightarrow> int" where "Math_round x = \<lfloor>x + 1 / 2\<rfloor>"
definition Math_floor :: "rat \<Rightarrow> int" where "Math_floor x = \<lfloor>x\<rfloor>"
definition Math_ceil :: "rat \<Rightarrow> int" where "Math_ceil x = \<lceil>x\<rceil>"

definition toFixed :: "nat \<Rightarrow> rat \<Rightarrow> rat" where
  "toFixed d x =
     (if x < 0 then - fl (of_int (Math_round (- x * 10 ^ d)) / 10 ^ d)
      else fl (of_int (Math_round (x * 10 ^ d)) / 10 ^ d))"

section \<open>Powers of two\<close>

lemma pow2_pos [simp]: "0 < pow2 k"
  by (simp add: pow2_def)

lemma pow2_nonzero [simp]: "pow2 k \<noteq> 0"
  using pow2_pos [of k] by linarith

lemma pow2_Suc: "pow2 (k + 1) = 2 * pow2 k"
proof (cases "0 \<le> k")
  case True
  then show ?thesis by (simp add: pow2_def nat_add_distrib)
next
  case False
  then have "nat (- k) = Suc (nat (- (k + 1)))" by simp
  with False show ?thesis by (auto simp: pow2_def)
qed

lemma pow2_add_nat: "pow2 (k + int n) = pow2 k * 2 ^ n"
proof (induction n)
  case (Suc n)
  have "pow2 (k + int (Suc n)) = pow2 ((k + int n) + 1)" by (simp add: algebra_simps)
  also have "\<dots> = 2 * pow2 (k + int n)" by (rule pow2_Suc)
  finally show ?case using Suc by simp
qed simp

lemma pow2_add: "pow2 (a + b) = pow2 a * pow2 b"
proof (cases "0 \<le> b")
  case True
  with pow2_add_nat [of a "nat b"] show ?thesis by (simp add: pow2_def)
next
  case False
  then have "pow2 a = pow2 (a + b) * 2 ^ nat (- b)"
    using pow2_add_nat [of "a + b" "nat (- b)"] by simp
  with False show ?thesis by (simp add: pow2_def)
qed

lemma pow2_mono: "a \<le> b \<Longrightarrow> pow2 a \<le> pow2 b"
proof -
  assume "a \<le> b"
  then have "pow2 b = pow2 a * 2 ^ nat (b - a)" using pow2_add_nat [of a "nat (b - a)"] by simp
  moreover have "pow2 a * 1 \<le> pow2 a * 2 ^ nat (b - a)"
    by (intro mult_left_mono) (auto intro: less_imp_le)
  ultimately show ?thesis by simp
qed

lemma pow2_strict: "a < b \<Longrightarrow> pow2 a < pow2 b"
  using pow2_mono [of "a + 1" b] pow2_pos [of a] unfolding pow2_Suc by linarith

lemma pow2_less_iff: "pow2 a < pow2 b \<longleftrightarrow> a < b"
  using pow2_mono [of b a] pow2_strict [of a b] by (meson linorder_not_less)

lemma pow2_nat: "pow2 (int n) = 2 ^ n"
  by (simp add: pow2_def)

lemma pow2_neg: "pow2 (- int n) = 1 / 2 ^ n"
  by (simp add: pow2_def)

section \<open>The binade of a number\<close>

lemma floorlog_pow2:
  assumes "0 < n"
  shows "pow2 (int (floorlog 2 n) - 1) \<le> of_nat n \<and> of_nat n < pow2 (int (floorlog 2 n))"
proof -
  obtain k where k: "floorlog 2 n = Suc k"
    using assms floorlog_eq_zero_iff [of 2 n] by (cases "floorlog 2 n") auto
  have "2 ^ k \<le> n" "n < 2 ^ Suc k"
    using floorlog_bounds [of n 2] assms by (simp_all add: k)
  then have "of_nat (2 ^ k) \<le> (of_nat n :: rat)" "(of_nat n :: rat) < of_nat (2 ^ Suc k)"
    by (simp_all only: of_nat_le_iff of_nat_less_iff)
  then have "pow2 (int k) \<le> of_nat n" "of_nat n < pow2 (int (Suc k))"
    by (simp_all only: pow2_nat of_nat_power of_nat_numeral)
  moreover have "int (Suc k) - 1 = int k" by simp
  ultimately show ?thesis by (simp only: k)
qed

lemma ilog2_bounds:
  assumes "0 < x"
  shows "pow2 (ilog2 x) \<le> x" and "x < pow2 (ilog2 x + 1)"
proof -
  obtain n d where q: "quotient_of x = (n, d)" by force
  have d: "0 < d" using quotient_of_denom_pos [OF q] .
  have xnd: "x = of_int n / of_int d" using quotient_of_div [OF q] .
  have n: "0 < n" using assms d unfolding xnd by (simp add: zero_less_divide_iff)
  define a where "a = bitlen n"
  define b where "b = bitlen d"
  have an: "pow2 (a - 1) \<le> of_int n" "of_int n < pow2 a"
    using floorlog_pow2 [of "nat n"] n by (simp_all add: a_def bitlen_def)
  have bd: "pow2 (b - 1) \<le> of_int d" "of_int d < pow2 b"
    using floorlog_pow2 [of "nat d"] d by (simp_all add: b_def bitlen_def)
  have dq: "(0::rat) < of_int d" using d by simp
  have nx: "of_int n = x * of_int d" using dq by (simp add: xnd)
  have up: "x < pow2 (a - b + 1)"
  proof -
    have "x * pow2 (b - 1) \<le> x * of_int d" using bd(1) assms by simp
    also have "\<dots> < pow2 a" using an(2) nx by simp
    also have "pow2 a = pow2 (a - b + 1) * pow2 (b - 1)" by (simp flip: pow2_add)
    finally show ?thesis by simp
  qed
  have low: "pow2 (a - b - 1) \<le> x"
  proof -
    have "pow2 (a - b - 1) * pow2 b = pow2 (a - 1)" by (simp flip: pow2_add)
    also have "\<dots> \<le> x * of_int d" using an(1) nx by simp
    also have "\<dots> \<le> x * pow2 b" using bd(2) assms by simp
    finally show ?thesis by simp
  qed
  have il: "ilog2 x = (if pow2 (a - b) \<le> x then a - b else a - b - 1)"
    by (simp add: ilog2_def q a_def b_def)
  show "pow2 (ilog2 x) \<le> x" using low by (simp add: il)
  show "x < pow2 (ilog2 x + 1)" using up by (simp add: il)
qed

lemma ilog2_mono: "0 < x \<Longrightarrow> x \<le> y \<Longrightarrow> ilog2 x \<le> ilog2 y"
  using ilog2_bounds [of x] ilog2_bounds [of y] pow2_less_iff [of "ilog2 x" "ilog2 y + 1"] by simp

section \<open>Rounding\<close>

lemma round_even_error: "\<bar>of_int (round_even x) - x\<bar> \<le> 1 / 2"
proof -
  define f where "f = \<lfloor>x\<rfloor>"
  have "of_int f \<le> x" "x < of_int f + 1"
    using floor_correct [of x] by (simp_all add: f_def)
  then show ?thesis by (auto simp: round_even_def f_def [symmetric] Let_def abs_if)
qed

lemma round_even_int [simp]: "round_even (of_int n) = n"
  by (simp add: round_even_def)

lemma round_even_mono:
  assumes "x \<le> y"
  shows "round_even x \<le> round_even y"
proof (cases "\<lfloor>x\<rfloor> = \<lfloor>y\<rfloor>")
  case True
  with assms show ?thesis by (auto simp: round_even_def Let_def)
next
  case False
  then have "\<lfloor>x\<rfloor> + 1 \<le> \<lfloor>y\<rfloor>" using floor_mono [OF assms] by simp
  moreover have "round_even x \<le> \<lfloor>x\<rfloor> + 1" "\<lfloor>y\<rfloor> \<le> round_even y"
    by (auto simp: round_even_def Let_def)
  ultimately show ?thesis by simp
qed

lemma fl_pos_error:
  assumes "0 < x"
  shows "\<bar>fl_pos x - x\<bar> \<le> x / 2 ^ 53"
proof -
  define u where "u = pow2 (ilog2 x - 52)"
  have u: "0 < u" by (simp add: u_def)
  have "fl_pos x - x = (of_int (round_even (x / u)) - x / u) * u"
    using u by (simp add: fl_pos_def u_def [symmetric] left_diff_distrib)
  then have "\<bar>fl_pos x - x\<bar> \<le> 1 / 2 * u"
    using round_even_error [of "x / u"] u by (simp add: abs_mult)
  also have "1 / 2 * u * 2 ^ 53 = pow2 (ilog2 x)"
    using pow2_add_nat [of "ilog2 x - 52" 52] by (simp add: u_def)
  then have "1 / 2 * u \<le> x / 2 ^ 53"
    using ilog2_bounds(1) [OF assms] by (simp add: field_simps)
  finally show ?thesis .
qed

lemma fl_error: "\<bar>fl x - x\<bar> \<le> \<bar>x\<bar> / 2 ^ 53"
proof -
  consider "0 < x" | "x = 0" | "x < 0" by linarith
  then show ?thesis
  proof cases
    case 1
    then have "fl x = fl_pos x" "\<bar>x\<bar> = x" by (simp_all add: fl_def)
    with fl_pos_error [OF 1] show ?thesis by (simp only:)
  next
    case 3
    then have "fl x - x = - (fl_pos (- x) - (- x))" "\<bar>x\<bar> = - x" by (simp_all add: fl_def)
    with fl_pos_error [of "- x"] 3 show ?thesis by (simp only: abs_minus_cancel neg_0_less_iff_less)
  qed (simp add: fl_def)
qed

lemma fl_0 [simp]: "fl 0 = 0"
  by (simp add: fl_def)

lemma fl_minus: "fl (- x) = - fl x"
  by (auto simp: fl_def)

lemma fl_bounds: "0 \<le> x \<Longrightarrow> x * (1 - 1 / 2 ^ 53) \<le> fl x \<and> fl x \<le> x * (1 + 1 / 2 ^ 53)"
  using fl_error [of x] abs_ge_self [of "fl x - x"] abs_ge_minus_self [of "fl x - x"]
  by (auto simp: algebra_simps)

lemma fl_nonneg: "0 \<le> x \<Longrightarrow> 0 \<le> fl x"
proof -
  assume "0 \<le> x"
  then have "0 \<le> x * (1 - 1 / 2 ^ 53)" by simp
  with fl_bounds [OF \<open>0 \<le> x\<close>] show ?thesis by linarith
qed

lemma fl_nonpos: "x \<le> 0 \<Longrightarrow> fl x \<le> 0"
  using fl_nonneg [of "- x"] by (simp add: fl_minus)

text \<open>A value that is a multiple of its unit in the last place is represented exactly.\<close>

lemma fl_pos_exact:
  assumes "0 < x" and "x = of_int n * pow2 e" and "e \<ge> ilog2 x - 52"
  shows "fl_pos x = x"
proof -
  define u where "u = pow2 (ilog2 x - 52)"
  have u: "u \<noteq> 0" by (simp add: u_def)
  define k where "k = nat (e - (ilog2 x - 52))"
  have "pow2 e = u * 2 ^ k"
    using pow2_add_nat [of "ilog2 x - 52" k] assms(3) by (simp add: u_def k_def)
  then have "x = of_int (n * 2 ^ k) * u" using assms(2) by simp
  then have "x / u = of_int (n * 2 ^ k)" using u by (metis nonzero_mult_div_cancel_right)
  then have "of_int (round_even (x / u)) = x / u" by (metis round_even_int)
  then show ?thesis by (simp add: fl_pos_def u_def [symmetric]) (simp add: u_def)
qed

lemma fl_pos_int:
  assumes "0 < n" and "n \<le> 2 ^ 53"
  shows "fl_pos (of_int n) = of_int n"
proof (cases "n = 2 ^ 53")
  case True
  then have x: "(of_int n :: rat) = pow2 53" by (simp add: pow2_def)
  have "ilog2 (of_int n) < 54" using ilog2_bounds(1) [of "of_int n"] assms(1)
    by (simp only: x pow2_less_iff [symmetric]) (simp add: pow2_def)
  moreover have "of_int n = (of_int 1 :: rat) * pow2 53" by (simp add: x)
  ultimately show ?thesis using assms(1) by (intro fl_pos_exact [of _ 1 53]) auto
next
  case False
  then have "(of_int n :: rat) < of_int (2 ^ 53)" using assms(2) by (simp only: of_int_less_iff)
  then have "(of_int n :: rat) < pow2 53" by (simp add: pow2_def)
  then have "pow2 (ilog2 (of_int n)) < pow2 53" using ilog2_bounds(1) [of "of_int n"] assms(1)
    by (metis dual_order.strict_trans2 linorder_not_le of_int_0_less_iff order_less_le_trans)
  then have "ilog2 (of_int n) < 53" by (simp only: pow2_less_iff)
  with assms(1) show ?thesis by (intro fl_pos_exact [of _ n 0]) (auto simp: pow2_def)
qed

lemma fl_int [simp]:
  assumes "\<bar>n\<bar> \<le> 2 ^ 53"
  shows "fl (of_int n) = of_int n"
  using fl_pos_int [of n] fl_pos_int [of "- n"] assms by (auto simp: fl_def abs_if split: if_splits)

lemma fl_nat: "n \<le> 2 ^ 53 \<Longrightarrow> fl (of_nat n) = of_nat n"
proof -
  assume "n \<le> 2 ^ 53"
  then have "\<bar>int n\<bar> \<le> 2 ^ 53" by (metis abs_of_nat of_nat_le_iff of_nat_numeral of_nat_power)
  from fl_int [OF this] show ?thesis by simp
qed

section \<open>Monotonicity\<close>

lemma fl_pos_binade:
  assumes "0 < x"
  shows "pow2 (ilog2 x) \<le> fl_pos x" and "fl_pos x \<le> pow2 (ilog2 x + 1)"
proof -
  define u where "u = pow2 (ilog2 x - 52)"
  have u: "0 < u" by (simp add: u_def)
  have lo: "pow2 (ilog2 x) = of_int (2 ^ 52) * u"
    using pow2_add_nat [of "ilog2 x - 52" 52] by (simp add: u_def)
  then have hi: "pow2 (ilog2 x + 1) = of_int (2 ^ 53) * u" by (simp add: pow2_Suc)
  have "of_int (2 ^ 52) \<le> x / u" "x / u \<le> of_int (2 ^ 53)"
    using ilog2_bounds [OF assms] u unfolding lo hi by (simp_all add: field_simps)
  then have "2 ^ 52 \<le> round_even (x / u)" "round_even (x / u) \<le> 2 ^ 53"
    using round_even_mono [of "of_int (2 ^ 52)" "x / u"] round_even_mono [of "x / u" "of_int (2 ^ 53)"]
    by (simp_all only: round_even_int)
  then have "(of_int (2 ^ 52) :: rat) \<le> of_int (round_even (x / u))"
    "(of_int (round_even (x / u)) :: rat) \<le> of_int (2 ^ 53)"
    by (simp_all only: of_int_le_iff)
  then show "pow2 (ilog2 x) \<le> fl_pos x" "fl_pos x \<le> pow2 (ilog2 x + 1)"
    unfolding lo hi using u by (simp_all add: fl_pos_def u_def [symmetric])
qed

lemma ilog2_unique: "pow2 k \<le> x \<Longrightarrow> x < pow2 (k + 1) \<Longrightarrow> ilog2 x = k"
proof -
  assume a: "pow2 k \<le> x" "x < pow2 (k + 1)"
  then have "0 < x" using pow2_pos [of k] by linarith
  from ilog2_bounds [OF this] a have "pow2 (ilog2 x) < pow2 (k + 1)" "pow2 k < pow2 (ilog2 x + 1)"
    by linarith+
  then show ?thesis by (simp add: pow2_less_iff)
qed

text \<open>A computed value is a double: rounding it again changes nothing.\<close>

lemma fl_pos_idem:
  assumes "0 < x"
  shows "fl_pos (fl_pos x) = fl_pos x"
proof (cases "fl_pos x = pow2 (ilog2 x + 1)")
  case True
  then have "ilog2 (fl_pos x) = ilog2 x + 1" using pow2_strict [of "ilog2 x + 1" "ilog2 x + 1 + 1"]
    by (intro ilog2_unique) simp_all
  with True show ?thesis by (intro fl_pos_exact [where n = 1 and e = "ilog2 x + 1"]) simp_all
next
  case False
  with fl_pos_binade [OF assms] have "ilog2 (fl_pos x) = ilog2 x" by (intro ilog2_unique) simp_all
  moreover have "0 < fl_pos x" using fl_pos_binade(1) [OF assms] pow2_pos [of "ilog2 x"] by linarith
  moreover have "fl_pos x = of_int (round_even (x / pow2 (ilog2 x - 52))) * pow2 (ilog2 x - 52)"
    by (simp add: fl_pos_def Let_def)
  ultimately show ?thesis by (intro fl_pos_exact [where e = "ilog2 x - 52"]) simp_all
qed

lemma fl_pos_positive: "0 < x \<Longrightarrow> 0 < fl_pos x"
  using fl_pos_binade(1) [of x] pow2_pos [of "ilog2 x"] by linarith

lemma fl_idem [simp]: "fl (fl x) = fl x"
  using fl_pos_idem [of x] fl_pos_idem [of "- x"] fl_pos_positive [of x] fl_pos_positive [of "- x"]
  by (auto simp: fl_def)

lemma fl_sign: "(0 < fl x \<longleftrightarrow> 0 < x) \<and> (fl x < 0 \<longleftrightarrow> x < 0) \<and> (fl x = 0 \<longleftrightarrow> x = 0)"
  using fl_pos_positive [of x] fl_pos_positive [of "- x"] by (auto simp: fl_def)

lemma fl_pos_mono:
  assumes "0 < x" and "x \<le> y"
  shows "fl_pos x \<le> fl_pos y"
proof (cases "ilog2 x = ilog2 y")
  case True
  have "x / pow2 (ilog2 y - 52) \<le> y / pow2 (ilog2 y - 52)"
    using assms(2) by (simp add: divide_right_mono less_imp_le)
  from round_even_mono [OF this] show ?thesis
    by (simp add: fl_pos_def True Let_def mult_right_mono less_imp_le)
next
  case False
  then have "ilog2 x + 1 \<le> ilog2 y" using ilog2_mono [OF assms] by simp
  then have "pow2 (ilog2 x + 1) \<le> pow2 (ilog2 y)" by (rule pow2_mono)
  then show ?thesis using fl_pos_binade [of x] fl_pos_binade [of y] assms by linarith
qed

lemma fl_mono:
  assumes "x \<le> y"
  shows "fl x \<le> fl y"
proof -
  consider "0 < x" | "x \<le> 0" "0 \<le> y" | "y < 0" by linarith
  then show ?thesis
  proof cases
    case 1
    with assms show ?thesis by (simp add: fl_def fl_pos_mono)
  next
    case 2
    then show ?thesis using fl_nonpos fl_nonneg order_trans by blast
  next
    case 3
    with assms show ?thesis using fl_pos_mono [of "- y" "- x"] by (simp add: fl_def)
  qed
qed

lemma Math_round_mono: "x \<le> y \<Longrightarrow> Math_round x \<le> Math_round y"
  by (simp add: Math_round_def floor_mono)

lemma Math_round_int [simp]: "Math_round (of_int n) = n"
  by (simp add: Math_round_def floor_eq_iff)

text \<open>
  A product with a decimal constant, rounded to an integer, is the exact rounding as soon as
  the exact product keeps a margin from the ties: \<open>c\<close> is the double nearest to the constant
  \<open>q\<close>, so the computed product is within \<open>3 / 2 ^ 53\<close> of \<open>n * q\<close> relatively.
\<close>

lemma fl_product_error:
  assumes "0 \<le> q" and "0 \<le> n"
  shows "\<bar>dmul n (fl q) - n * q\<bar> \<le> 3 * (n * q) / 2 ^ 53"
proof -
  have c: "\<bar>fl q - q\<bar> \<le> q / 2 ^ 53" using fl_error [of q] assms by simp
  have "\<bar>n * fl q - n * q\<bar> = n * \<bar>fl q - q\<bar>"
    using assms by (simp add: abs_mult right_diff_distrib [symmetric])
  also have "\<dots> \<le> n * (q / 2 ^ 53)" using c assms by (intro mult_left_mono) auto
  finally have e1: "\<bar>n * fl q - n * q\<bar> \<le> n * q / 2 ^ 53" by simp
  have "\<bar>fl (n * fl q) - n * fl q\<bar> \<le> \<bar>n * fl q\<bar> / 2 ^ 53" by (rule fl_error)
  also have "\<bar>n * fl q\<bar> / 2 ^ 53 \<le> 2 * (n * q) / 2 ^ 53"
    if "\<bar>n * fl q\<bar> \<le> 2 * (n * q)" using that by (rule divide_right_mono) simp
  finally have e2: "\<bar>n * fl q\<bar> \<le> 2 * (n * q) \<Longrightarrow>
      \<bar>fl (n * fl q) - n * fl q\<bar> \<le> 2 * (n * q) / 2 ^ 53" .
  have "\<bar>n * fl q\<bar> \<le> 2 * (n * q)"
  proof -
    have nq: "0 \<le> n * q" using assms by simp
    then have "n * q / 2 ^ 53 \<le> n * q" by simp
    with e1 nq show ?thesis by linarith
  qed
  from e2 [OF this] have "\<bar>fl (n * fl q) - n * fl q\<bar> \<le> 2 * (n * q) / 2 ^ 53" .
  with e1 show ?thesis unfolding dmul_def by linarith
qed

lemma toFixed_mono: "x \<le> y \<Longrightarrow> toFixed d x \<le> toFixed d y" if "0 \<le> x"
  using that by (simp add: toFixed_def) (intro fl_mono divide_right_mono, simp_all add: Math_round_mono mult_right_mono)

lemma toFixed_nonneg: "0 \<le> x \<Longrightarrow> 0 \<le> toFixed d x"
  by (simp add: toFixed_def Math_round_def fl_nonneg)

lemma dmul_nonneg: "0 \<le> a \<Longrightarrow> 0 \<le> b \<Longrightarrow> 0 \<le> dmul a b"
  by (simp add: dmul_def fl_nonneg)

lemma dadd_nonneg: "0 \<le> a \<Longrightarrow> 0 \<le> b \<Longrightarrow> 0 \<le> dadd a b"
  by (simp add: dadd_def fl_nonneg)

lemma dadd_mono_right: "a \<le> b \<Longrightarrow> dadd c a \<le> dadd c b"
  by (simp add: dadd_def fl_mono)

lemma dmul_mono_right: "0 \<le> c \<Longrightarrow> a \<le> b \<Longrightarrow> dmul c a \<le> dmul c b"
  by (simp add: dmul_def fl_mono mult_left_mono)

lemma dmul_mono_left: "0 \<le> c \<Longrightarrow> a \<le> b \<Longrightarrow> dmul a c \<le> dmul b c"
  by (simp add: dmul_def fl_mono mult_right_mono)

section \<open>Amounts with two decimals\<close>

text \<open>\<open>+x.toFixed(d)\<close> is the double nearest to a decimal when \<open>x\<close> is closer to it than half a unit of its
  last place, and so sums and differences of amounts in cents come out as the amounts they stand for.\<close>

lemma toFixed_near:
  assumes "\<bar>x * 10 ^ d - of_int n\<bar> < 1 / 2"
  shows "toFixed d x = fl (of_int n / 10 ^ d)"
proof -
  have near: "x * 10 ^ d - of_int n < 1 / 2" "- (x * 10 ^ d - of_int n) < 1 / 2"
    using assms unfolding abs_less_iff by blast+
  have "Math_round (- (x * 10 ^ d)) = - n" "Math_round (x * 10 ^ d) = n"
    unfolding Math_round_def by (rule floor_unique; use near in simp)+
  then show ?thesis by (simp add: toFixed_def fl_minus)
qed

definition cents :: "int \<Rightarrow> rat" where
  "cents n = fl (of_int n / 100)"

lemma cents_error: "\<bar>n\<bar> \<le> 10 ^ 12 \<Longrightarrow> \<bar>cents n - of_int n / 100\<bar> \<le> 1 / 10 ^ 5"
proof -
  assume "\<bar>n\<bar> \<le> 10 ^ 12"
  then have "\<bar>of_int n :: rat\<bar> \<le> 10 ^ 12" by (metis of_int_abs of_int_le_iff of_int_numeral of_int_power)
  with fl_error [of "of_int n / 100"] show ?thesis by (simp add: cents_def)
qed

lemma cents_mono: "m \<le> n \<Longrightarrow> cents m \<le> cents n"
  unfolding cents_def by (rule fl_mono) (simp add: divide_right_mono)

lemma cents_0 [simp]: "cents 0 = 0"
  by (simp add: cents_def)

lemma cents_nonneg: "0 \<le> n \<Longrightarrow> 0 \<le> cents n"
  using cents_mono [of 0 n] by simp

lemma toFixed_cents: "\<bar>n\<bar> \<le> 10 ^ 12 \<Longrightarrow> toFixed 2 (cents n) = cents n"
  using cents_error [of n] toFixed_near [of "cents n" 2 n] by (simp add: cents_def [symmetric] abs_if split: if_splits)

lemma fl_abs_le: "\<bar>fl x - x\<bar> \<le> 1 / 10 ^ 5" if "\<bar>x\<bar> \<le> 3 * 10 ^ 10"
  using fl_error [of x] that by simp

lemma toFixed_error: "\<bar>toFixed 2 x - x\<bar> \<le> 1 / 199" if "\<bar>x\<bar> \<le> 10 ^ 10"
proof -
  have pos: "\<bar>fl (of_int (Math_round (y * 100)) / 100) - y\<bar> \<le> 1 / 199" if "0 \<le> y" "y \<le> 10 ^ 10" for y
  proof -
    let ?r = "of_int (Math_round (y * 100)) / 100 :: rat"
    have r: "?r \<le> y + 1 / 200" "y - 1 / 200 \<le> ?r"
      using floor_correct [of "y * 100 + 1 / 2"] by (simp_all add: Math_round_def)
    then have "\<bar>?r\<bar> \<le> 3 * 10 ^ 10" using that by (simp add: abs_if)
    from fl_abs_le [OF this] r show ?thesis by (simp add: abs_if split: if_splits)
  qed
  show ?thesis
  proof (cases "x < 0")
    case True
    with pos [of "- x"] that show ?thesis by (simp add: toFixed_def abs_if split: if_splits)
  next
    case False
    with pos [of x] that show ?thesis by (simp add: toFixed_def)
  qed
qed

lemma toFixed_dsub_cents:
  assumes "\<bar>m\<bar> \<le> 10 ^ 12" and "\<bar>n\<bar> \<le> 10 ^ 12"
  shows "toFixed 2 (dsub (cents m) (cents n)) = cents (m - n)"
proof -
  have mn: "\<bar>of_int m :: rat\<bar> \<le> 10 ^ 12" "\<bar>of_int n :: rat\<bar> \<le> 10 ^ 12"
    using assms by (metis of_int_abs of_int_le_iff of_int_numeral of_int_power)+
  have e: "\<bar>cents k - of_int k / 100\<bar> * 10 ^ 5 \<le> 1" if "\<bar>k\<bar> \<le> 10 ^ 12" for k
    using cents_error [OF that] by simp
  have "\<bar>cents m - cents n\<bar> \<le> 3 * 10 ^ 10"
    using e [OF assms(1)] e [OF assms(2)] mn unfolding abs_le_iff by (auto simp: abs_if split: if_splits)
  from fl_abs_le [OF this] e [OF assms(1)] e [OF assms(2)]
  have "\<bar>dsub (cents m) (cents n) * 10 ^ 2 - of_int (m - n)\<bar> < 1 / 2"
    unfolding dsub_def by (auto simp: abs_if split: if_splits)
  from toFixed_near [OF this] show ?thesis by (simp add: cents_def)
qed

text \<open>
  \<open>x.toFixed(d)\<close> as text, for \<open>|x| < 10^21\<close>: the digits of the integer nearest to \<open>x 10^d\<close>, the larger one on a tie,
  padded to \<open>d + 1\<close> digits, with a point before the last \<open>d\<close>; the sign comes before, also when the digits are zero.
\<close>

definition fixed_text :: "nat \<Rightarrow> rat \<Rightarrow> string" where
  "fixed_text d x =
     (let m = pad_start (d + 1) (CHR ''0'') (dec_string (nat (Math_round (\<bar>x\<bar> * 10 ^ d))));
          k = length m - d
      in (if x < 0 then ''-'' else []) @ (if d = 0 then m else take k m @ CHR ''.'' # drop k m))"

end
