(* ===== verification/Order_Model.thy ===== *)
theory Order_Model
  imports Common_Types Double
begin

text \<open>
  The order service's data and its two in-memory repositories (models/entities.ts,
  dto/order.dto.ts, repositories/inMemoryOrderRepositories.ts of services/order-service), and
  the operations of OrderService (services/orderService.ts). The asynchronous saga that
  \<open>createOrder\<close> launches is in \<open>Order_Saga\<close>.
\<close>

section \<open>Entities\<close>

record OrderItemEntity =
  oi_id :: string
  oi_orderId :: string
  oi_sku :: string
  oi_productName :: string
  oi_quantity :: int
  oi_unitPriceCents :: int
  oi_totalPriceCents :: int

record OrderEntity =
  o_id :: string
  o_tenantId :: string
  o_orderNumber :: string
  o_customerId :: string
  o_customerEmail :: string
  o_warehouseId :: string
  o_status :: OrderStatus
  o_priority :: OrderPriority
  o_items :: "OrderItemEntity list"
  o_subtotalCents :: int
  o_taxCents :: int
  o_shippingCents :: int
  o_totalAmount :: Money
  o_shippingAddress :: Address
  o_billingAddress :: Address
  o_notes :: "string option"
  o_cancellationReason :: "string option"
  o_sagaInstanceId :: "string option"
  o_createdAt :: instant
  o_updatedAt :: instant

datatype StepStatus = PENDING | SUCCESS | FAILED | COMPENSATED

record SagaStepRecord =
  st_stepName :: string
  st_status :: StepStatus
  st_error :: "string option"
  st_executedAt :: "instant option"

record SagaInstanceEntity =
  sg_id :: string
  sg_orderId :: string
  sg_tenantId :: string
  sg_status :: SagaStatus
  sg_currentStep :: string
  sg_steps :: "SagaStepRecord list"
  sg_failureReason :: "string option"
  sg_createdAt :: instant
  sg_updatedAt :: instant

record OrderItemDTO =
  di_sku :: string
  di_productName :: string
  di_quantity :: int
  di_unitPriceCents :: int

record CreateOrderDTO =
  co_tenantId :: string
  co_customerId :: string
  co_customerEmail :: string
  co_warehouseId :: string
  co_priority :: OrderPriority
  co_items :: "OrderItemDTO list"
  co_shippingAddress :: Address
  co_billingAddress :: Address
  co_notes :: "string option"

section \<open>Repositories\<close>

type_synonym OrderRepository = "(string, OrderEntity) jsmap"
type_synonym SagaRepository = "(string, SagaInstanceEntity) jsmap"

definition order_create :: "instant \<Rightarrow> string \<Rightarrow> OrderEntity \<Rightarrow> OrderRepository \<Rightarrow> OrderRepository \<times> OrderEntity" where
  "order_create now uid draft m =
     (let e = draft\<lparr> o_id := uid, o_createdAt := now, o_updatedAt := now \<rparr> in (jm_set uid e m, e))"

definition order_find :: "OrderRepository \<Rightarrow> string \<Rightarrow> OrderEntity option" where
  "order_find m i = jm_get m i"

definition order_update ::
  "instant \<Rightarrow> string \<Rightarrow> (OrderEntity \<Rightarrow> OrderEntity) \<Rightarrow> OrderRepository \<Rightarrow> OrderRepository \<times> OrderEntity option" where
  "order_update now = repo_update (\<lambda>e. e\<lparr> o_updatedAt := now \<rparr>)"

definition order_listByTenant :: "string \<Rightarrow> OrderRepository \<Rightarrow> OrderEntity list" where
  "order_listByTenant t m = filter (\<lambda>e. o_tenantId e = t) (jm_values m)"

definition saga_create ::
  "instant \<Rightarrow> string \<Rightarrow> SagaInstanceEntity \<Rightarrow> SagaRepository \<Rightarrow> SagaRepository \<times> SagaInstanceEntity" where
  "saga_create now uid draft m =
     (let e = draft\<lparr> sg_id := uid, sg_createdAt := now, sg_updatedAt := now \<rparr> in (jm_set uid e m, e))"

definition saga_find :: "SagaRepository \<Rightarrow> string \<Rightarrow> SagaInstanceEntity option" where
  "saga_find m i = jm_get m i"

definition saga_update ::
  "instant \<Rightarrow> string \<Rightarrow> (SagaInstanceEntity \<Rightarrow> SagaInstanceEntity) \<Rightarrow> SagaRepository
     \<Rightarrow> SagaRepository \<times> SagaInstanceEntity option" where
  "saga_update now = repo_update (\<lambda>e. e\<lparr> sg_updatedAt := now \<rparr>)"

lemmas order_repo_defs = order_create_def order_find_def order_update_def saga_create_def
  saga_find_def saga_update_def

interpretation orders: entity_repository order_find jm_set "order_update now"
    "\<lambda>e. e\<lparr> o_updatedAt := now \<rparr>" for now
  by unfold_locales (simp_all add: order_repo_defs)

interpretation sagas: entity_repository saga_find jm_set "saga_update now"
    "\<lambda>e. e\<lparr> sg_updatedAt := now \<rparr>" for now
  by unfold_locales (simp_all add: order_repo_defs)

section \<open>The order service\<close>

text \<open>The wire names of the statuses, which error messages interpolate.\<close>

fun OrderStatus_name :: "OrderStatus \<Rightarrow> string" where
  "OrderStatus_name OrderStatus.PENDING_VALIDATION = ''PENDING_VALIDATION''"
| "OrderStatus_name OrderStatus.VALIDATED = ''VALIDATED''"
| "OrderStatus_name OrderStatus.INVENTORY_RESERVING = ''INVENTORY_RESERVING''"
| "OrderStatus_name OrderStatus.INVENTORY_RESERVED = ''INVENTORY_RESERVED''"
| "OrderStatus_name OrderStatus.INVENTORY_FAILED = ''INVENTORY_FAILED''"
| "OrderStatus_name OrderStatus.PAYMENT_PROCESSING = ''PAYMENT_PROCESSING''"
| "OrderStatus_name OrderStatus.PAYMENT_CAPTURED = ''PAYMENT_CAPTURED''"
| "OrderStatus_name OrderStatus.PAYMENT_FAILED = ''PAYMENT_FAILED''"
| "OrderStatus_name OrderStatus.AWAITING_FULFILLMENT = ''AWAITING_FULFILLMENT''"
| "OrderStatus_name OrderStatus.DISPATCH_SCHEDULED = ''DISPATCH_SCHEDULED''"
| "OrderStatus_name OrderStatus.IN_TRANSIT = ''IN_TRANSIT''"
| "OrderStatus_name OrderStatus.OUT_FOR_DELIVERY = ''OUT_FOR_DELIVERY''"
| "OrderStatus_name OrderStatus.DELIVERED = ''DELIVERED''"
| "OrderStatus_name OrderStatus.CANCELLED = ''CANCELLED''"
| "OrderStatus_name OrderStatus.REFUNDED = ''REFUNDED''"
| "OrderStatus_name OrderStatus.FAILED = ''FAILED''"

definition line_total :: "OrderItemDTO \<Rightarrow> int" where
  "line_total it = di_quantity it * di_unitPriceCents it"

definition order_item :: "string \<Rightarrow> OrderItemDTO \<Rightarrow> OrderItemEntity" where
  "order_item uid it =
     \<lparr> oi_id = uid, oi_orderId = [], oi_sku = di_sku it, oi_productName = di_productName it,
       oi_quantity = di_quantity it, oi_unitPriceCents = di_unitPriceCents it,
       oi_totalPriceCents = line_total it \<rparr>"

definition order_tax :: "int \<Rightarrow> int" where
  "order_tax subtotal = Math_round (dmul (of_int subtotal) (fl (8 / 100)))"

text \<open>
  The synchronous part of \<open>createOrder\<close>: \<open>uids i\<close> is the identifier drawn for item \<open>i\<close>, and
  the one after the last item's is the order's. The saga starts when the repository's promise
  is awaited, see \<open>Order_Saga\<close>.
\<close>

definition createOrder ::
  "instant \<Rightarrow> (nat \<Rightarrow> string) \<Rightarrow> string \<Rightarrow> CreateOrderDTO \<Rightarrow> OrderRepository
     \<Rightarrow> OrderRepository \<times> OrderEntity" where
  "createOrder now uids orderNumber dto m =
     (let items = map (\<lambda>(i, it). order_item (uids i) it) (enumerate 0 (co_items dto));
          subtotal = foldl (\<lambda>acc it. acc + line_total it) 0 (co_items dto);
          tax = order_tax subtotal;
          shipping = 1500;
          total = subtotal + tax + shipping
      in order_create now (uids (length (co_items dto)))
           \<lparr> o_id = [], o_tenantId = co_tenantId dto, o_orderNumber = orderNumber,
             o_customerId = co_customerId dto, o_customerEmail = co_customerEmail dto,
             o_warehouseId = co_warehouseId dto, o_status = OrderStatus.PENDING_VALIDATION,
             o_priority = co_priority dto, o_items = items, o_subtotalCents = subtotal,
             o_taxCents = tax, o_shippingCents = shipping,
             o_totalAmount = \<lparr> m_amount = total, m_currency = ''USD'' \<rparr>,
             o_shippingAddress = co_shippingAddress dto, o_billingAddress = co_billingAddress dto,
             o_notes = co_notes dto, o_cancellationReason = None, o_sagaInstanceId = None,
             o_createdAt = 0, o_updatedAt = 0 \<rparr> m)"

definition getOrder :: "string \<Rightarrow> OrderRepository \<Rightarrow> OrderEntity outcome" where
  "getOrder i m =
     (case order_find m i of
        None \<Rightarrow> Inl (NotFoundException ''Order'' (Some i))
      | Some e \<Rightarrow> Inr e)"

definition listOrders :: "string \<Rightarrow> OrderRepository \<Rightarrow> OrderEntity list" where
  "listOrders t m = order_listByTenant t m"

text \<open>
  \<open>cancelOrder\<close> awaits the lookup, so it decides on the entity it read, \<open>found\<close>, and then
  updates the entity that is stored by then.
\<close>

definition cancel_decide ::
  "instant \<Rightarrow> string \<Rightarrow> string \<Rightarrow> OrderEntity option \<Rightarrow> OrderRepository
     \<Rightarrow> OrderRepository \<times> OrderEntity option outcome" where
  "cancel_decide now i reason found m =
     (case found of
        None \<Rightarrow> (m, Inl (NotFoundException ''Order'' (Some i)))
      | Some e \<Rightarrow>
          if o_status e = OrderStatus.DELIVERED \<or> o_status e = OrderStatus.CANCELLED
          then (m, Inl (ConflictException
                  (''Cannot cancel order in status '' @ quoted (OrderStatus_name (o_status e)) @ ''.'')))
          else let (m', r) = order_update now i
                     (\<lambda>e. e\<lparr> o_status := OrderStatus.CANCELLED, o_cancellationReason := Some reason \<rparr>) m
               in (m', Inr r))"

definition cancelOrder ::
  "instant \<Rightarrow> string \<Rightarrow> string \<Rightarrow> OrderRepository \<Rightarrow> OrderRepository \<times> OrderEntity option outcome" where
  "cancelOrder now i reason m = cancel_decide now i reason (order_find m i) m"

section \<open>Pricing\<close>

lemma foldl_line_total: "foldl (\<lambda>acc it. acc + line_total it) a its = a + (\<Sum>it \<leftarrow> its. line_total it)"
  by (induction its arbitrary: a) auto

text \<open>
  The double product rounds to the exact integer rounding of 8 percent: the exact product is a
  multiple of 2/25, so it stays 1/50 away from every tie, and the two floating-point roundings
  move it by less.
\<close>

lemma order_tax_exact:
  assumes "0 \<le> n" and "n \<le> 2 ^ 45"
  shows "order_tax n = (8 * n + 50) div 100"
proof -
  define y where "y = dmul (of_int n) (fl (8 / 100))"
  define m where "m = (8 * n + 50) div 100"
  have "\<bar>y - of_int n * (8 / 100)\<bar> \<le> 3 * (of_int n * (8 / 100)) / 2 ^ 53"
    unfolding y_def by (rule fl_product_error) (use assms in auto)
  also have "\<dots> < 1 / 50"
  proof -
    have "(of_int n :: rat) \<le> of_int (2 ^ 45)" using assms(2) by (simp only: of_int_le_iff)
    then show ?thesis by simp
  qed
  finally have close: "\<bar>y - of_int n * (8 / 100)\<bar> < 1 / 50" .
  have "0 < 4 * n + 25 - 50 * m" "4 * n + 25 - 50 * m < 50"
    unfolding m_def by presburger+
  then have lo: "1 \<le> 4 * n + 25 - 50 * m" and hi: "4 * n + 25 - 50 * m \<le> 49" by simp_all
  have "(of_int 1 :: rat) \<le> of_int (4 * n + 25 - 50 * m)" using lo by (simp only: of_int_le_iff)
  moreover have "(of_int (4 * n + 25 - 50 * m) :: rat) \<le> of_int 49" using hi by (simp only: of_int_le_iff)
  moreover have "y - of_int n * (8 / 100) < 1 / 50" "- (y - of_int n * (8 / 100)) < 1 / 50"
    using close by (simp_all only: abs_less_iff)
  ultimately have "of_int m \<le> y + 1 / 2" "y + 1 / 2 < of_int m + 1"
    by simp_all
  then have "\<lfloor>y + 1 / 2\<rfloor> = m" by (simp add: floor_eq_iff)
  then show ?thesis by (simp add: order_tax_def Math_round_def y_def m_def)
qed

definition order_priced :: "OrderEntity \<Rightarrow> bool" where
  "order_priced e \<longleftrightarrow>
     o_subtotalCents e = (\<Sum>it \<leftarrow> o_items e. oi_totalPriceCents it) \<and>
     (\<forall>it \<in> set (o_items e). oi_totalPriceCents it = oi_quantity it * oi_unitPriceCents it) \<and>
     o_taxCents e = order_tax (o_subtotalCents e) \<and> o_shippingCents e = 1500 \<and>
     m_amount (o_totalAmount e) = o_subtotalCents e + o_taxCents e + o_shippingCents e"

lemma items_sum:
  "(\<Sum>it \<leftarrow> map (\<lambda>(i, it). order_item (uids i) it) (enumerate n its). oi_totalPriceCents it)
     = (\<Sum>it \<leftarrow> its. line_total it)"
  by (induction its arbitrary: n) (auto simp: order_item_def)

lemma createOrder_priced: "order_priced (snd (createOrder now uids num dto m))"
  unfolding order_priced_def
  using items_sum [of uids 0 "co_items dto"]
  by (auto simp: createOrder_def Let_def order_create_def foldl_line_total)
    (auto simp: order_item_def line_total_def)

lemma createOrder_stored:
  "fst (createOrder now uids num dto m) =
     jm_set (uids (length (co_items dto))) (snd (createOrder now uids num dto m)) m"
  "o_id (snd (createOrder now uids num dto m)) = uids (length (co_items dto))"
  "o_status (snd (createOrder now uids num dto m)) = OrderStatus.PENDING_VALIDATION"
  "o_tenantId (snd (createOrder now uids num dto m)) = co_tenantId dto"
  by (simp_all add: createOrder_def Let_def order_create_def)

definition demo_address :: Address where
  "demo_address = \<lparr> ad_streetLine1 = ''1 Dock'', ad_streetLine2 = None, ad_city = ''Oslo'',
     ad_stateOrProvince = ''OS'', ad_postalCode = ''0150'', ad_countryCode = ''NO'',
     ad_contactName = ''Ann'', ad_contactPhone = ''12345'', ad_contactEmail = None,
     ad_instructions = None \<rparr>"

definition demo_dto :: CreateOrderDTO where
  "demo_dto = \<lparr> co_tenantId = ''t'', co_customerId = ''c'', co_customerEmail = ''c@x'',
     co_warehouseId = ''w'', co_priority = OrderPriority.STANDARD,
     co_items = [\<lparr> di_sku = ''SKU'', di_productName = ''Box'', di_quantity = 2, di_unitPriceCents = 500 \<rparr>],
     co_shippingAddress = demo_address, co_billingAddress = demo_address, co_notes = None \<rparr>"

definition demo_uids :: "nat \<Rightarrow> string" where
  "demo_uids n = (if n = 0 then ''item'' else ''order'')"

section \<open>Properties\<close>

text \<open>C5: \<open>createOrder\<close> prices an order in exact cents. For non-negative lines with a subtotal of at
  most \<open>2 ^ 45\<close> cents, the tax computed in floating point is 8 percent of the subtotal rounded
  half up, shipping is 1500, and the total is their sum; the line totals are quantity times unit
  price and sum to the subtotal. The new order is stored under its identifier as
  PENDING_VALIDATION, \<open>getOrder\<close> returns it, and no other order changes.\<close>

theorem createOrder_prices_exactly:
  assumes "\<forall>it \<in> set (co_items dto). 0 \<le> di_quantity it \<and> 0 \<le> di_unitPriceCents it"
    and "(\<Sum>it \<leftarrow> co_items dto. di_quantity it * di_unitPriceCents it) \<le> 2 ^ 45"
    and "createOrder now uids num dto m = (m', e)"
  shows "o_subtotalCents e = (\<Sum>it \<leftarrow> co_items dto. di_quantity it * di_unitPriceCents it) \<and>
    o_taxCents e = (8 * o_subtotalCents e + 50) div 100 \<and>
    m_amount (o_totalAmount e) = o_subtotalCents e + (8 * o_subtotalCents e + 50) div 100 + 1500 \<and>
    map oi_totalPriceCents (o_items e) = map (\<lambda>it. di_quantity it * di_unitPriceCents it) (co_items dto) \<and>
    o_status e = OrderStatus.PENDING_VALIDATION \<and> o_tenantId e = co_tenantId dto \<and>
    getOrder (o_id e) m' = Inr e \<and> (\<forall>i. i \<noteq> o_id e \<longrightarrow> getOrder i m' = getOrder i m)"
proof -
  have m': "m' = jm_set (o_id e) e m"
    using createOrder_stored(1,2) [of now uids num dto m] by (simp add: assms(3))
  have sub: "o_subtotalCents e = (\<Sum>it \<leftarrow> co_items dto. line_total it)"
    using assms(3) by (auto simp: createOrder_def Let_def order_create_def foldl_line_total)
  have "0 \<le> (\<Sum>it \<leftarrow> co_items dto. line_total it)"
    using assms(1) by (intro sum_list_nonneg) (auto simp: line_total_def)
  with sub assms(2) have tax: "order_tax (o_subtotalCents e) = (8 * o_subtotalCents e + 50) div 100"
    by (intro order_tax_exact) (simp_all add: line_total_def)
  have "map oi_totalPriceCents (map (\<lambda>(i, it). order_item (uids i) it) (enumerate n its))
      = map line_total its" for n its
    by (induction its arbitrary: n) (auto simp: order_item_def)
  then have items: "map oi_totalPriceCents (o_items e) = map line_total (co_items dto)"
    using assms(3) by (auto simp: createOrder_def Let_def order_create_def)
  show ?thesis
    using createOrder_priced [of now uids num dto m] createOrder_stored(3,4) [of now uids num dto m]
      sub tax items
    by (simp add: assms(3) order_priced_def line_total_def [abs_def] m' getOrder_def order_find_def)
qed

theorem createOrder_prices_exactly_witness:
  "o_taxCents (snd (createOrder 0 demo_uids ''ORD'' demo_dto [])) = 80 \<and>
   m_amount (o_totalAmount (snd (createOrder 0 demo_uids ''ORD'' demo_dto []))) = 2580"
proof -
  obtain m' e where "createOrder 0 demo_uids ''ORD'' demo_dto [] = (m', e)" by force
  from createOrder_prices_exactly [OF _ _ this] this show ?thesis by (simp add: demo_dto_def)
qed

text \<open>\<open>cancelOrder\<close> of an unknown order fails with a 404 and of a DELIVERED or CANCELLED one with a
  409, and neither changes anything. Otherwise it succeeds: the order becomes CANCELLED with the
  given reason and the current time, its price breakdown, tenant, items and saga stay, and no
  other order changes; cancelling again is then refused.\<close>

theorem cancelOrder_outcomes:
  "(order_find m i = None \<longrightarrow>
      cancelOrder now i r m = (m, Inl (NotFoundException ''Order'' (Some i)))) \<and>
   (\<forall>e. order_find m i = Some e \<longrightarrow> o_status e \<in> {OrderStatus.DELIVERED, OrderStatus.CANCELLED} \<longrightarrow>
      fst (cancelOrder now i r m) = m \<and>
      (\<exists>x. snd (cancelOrder now i r m) = Inl x \<and> statusCode x = Some 409)) \<and>
   (\<forall>e. order_find m i = Some e \<longrightarrow> o_status e \<notin> {OrderStatus.DELIVERED, OrderStatus.CANCELLED} \<longrightarrow>
      (let e' = e\<lparr> o_status := OrderStatus.CANCELLED, o_cancellationReason := Some r, o_updatedAt := now \<rparr>;
           m' = fst (cancelOrder now i r m)
       in snd (cancelOrder now i r m) = Inr (Some e') \<and> order_find m' i = Some e' \<and>
          order_priced e' = order_priced e \<and>
          (\<forall>j. j \<noteq> i \<longrightarrow> order_find m' j = order_find m j) \<and>
          (\<exists>x. cancelOrder later i r' m' = (m', Inl x) \<and> statusCode x = Some 409)))"
proof (intro conjI allI impI)
  fix e assume e: "order_find m i = Some e" "o_status e \<notin> {OrderStatus.DELIVERED, OrderStatus.CANCELLED}"
  let ?f = "\<lambda>e. e\<lparr> o_status := OrderStatus.CANCELLED, o_cancellationReason := Some r \<rparr>"
  have c: "cancelOrder now i r m = (fst (order_update now i ?f m), Inr (snd (order_update now i ?f m)))"
    using e by (simp add: cancelOrder_def cancel_decide_def split: prod.split)
  show "let e' = e\<lparr> o_status := OrderStatus.CANCELLED, o_cancellationReason := Some r, o_updatedAt := now \<rparr>;
           m' = fst (cancelOrder now i r m)
       in snd (cancelOrder now i r m) = Inr (Some e') \<and> order_find m' i = Some e' \<and>
          order_priced e' = order_priced e \<and>
          (\<forall>j. j \<noteq> i \<longrightarrow> order_find m' j = order_find m j) \<and>
          (\<exists>x. cancelOrder later i r' m' = (m', Inl x) \<and> statusCode x = Some 409)"
    unfolding Let_def c fst_conv snd_conv
    by (simp add: orders.find_updated orders.update_result e order_priced_def
        cancelOrder_def [of later] cancel_decide_def)
qed (auto simp: cancelOrder_def cancel_decide_def)

theorem cancelOrder_outcomes_witness:
  "(let m = fst (createOrder 0 demo_uids ''ORD'' demo_dto []);
        m' = fst (cancelOrder 5 ''order'' ''late'' m)
    in \<exists>x. cancelOrder 9 ''order'' ''again'' m' = (m', Inl x) \<and> statusCode x = Some 409)"
proof -
  let ?m = "fst (createOrder 0 demo_uids ''ORD'' demo_dto [])"
  obtain e where e: "order_find ?m ''order'' = Some e"
    "o_status e \<notin> {OrderStatus.DELIVERED, OrderStatus.CANCELLED}"
    using createOrder_stored [of 0 demo_uids "''ORD''" demo_dto "[]"]
    by (auto simp: demo_uids_def demo_dto_def order_find_def)
  then show ?thesis
    using cancelOrder_outcomes [of ?m "''order''" 5 "''late''" 9 "''again''"]
    unfolding Let_def by blast
qed

end
