(* ===== verification/Order_Saga.thy ===== *)
theory Order_Saga
  imports Order_Model
begin

text \<open>
  The order saga (services/order-service/src/services/sagaOrchestrator.ts) running beside the
  requests of OrderService. An async function runs atomically between two \<open>await\<close>s, so a
  running call is a \<open>order_task\<close> that names its next segment, and \<open>order_seg\<close> executes that
  segment and says what the call waits for next. The system keeps the pending tasks in a
  queue; an action either starts a request or runs any pending task, so a lemma about all
  action sequences covers every interleaving. The event loop itself takes the tasks first in,
  first out: the schedules that always run task 0.
\<close>

section \<open>Segments\<close>

datatype order_task =
    CreateResumed string string
  | SagaLinkOrder string string
  | SagaFindInventory string string
  | SagaInventory string string "SagaInstanceEntity option"
  | SagaOrderPayment string string
  | SagaFindPayment string string
  | SagaPayment string string "SagaInstanceEntity option"
  | SagaOrderDispatch string string
  | CancelDecide string string "OrderEntity option"

record order_sys =
  os_orders :: OrderRepository
  os_sagas :: SagaRepository
  os_tasks :: "order_task list"

definition initial_steps :: "instant \<Rightarrow> SagaStepRecord list" where
  "initial_steps now =
     [\<lparr> st_stepName = ''VALIDATE_ORDER'', st_status = SUCCESS, st_error = None, st_executedAt = Some now \<rparr>,
      \<lparr> st_stepName = ''RESERVE_INVENTORY'', st_status = PENDING, st_error = None, st_executedAt = None \<rparr>,
      \<lparr> st_stepName = ''AUTHORIZE_PAYMENT'', st_status = PENDING, st_error = None, st_executedAt = None \<rparr>,
      \<lparr> st_stepName = ''SCHEDULE_DISPATCH'', st_status = PENDING, st_error = None, st_executedAt = None \<rparr>]"

definition new_saga :: "instant \<Rightarrow> string \<Rightarrow> string \<Rightarrow> SagaInstanceEntity" where
  "new_saga now oid tid =
     \<lparr> sg_id = [], sg_orderId = oid, sg_tenantId = tid, sg_status = SagaStatus.STARTED,
       sg_currentStep = ''RESERVE_INVENTORY'', sg_steps = initial_steps now,
       sg_failureReason = None, sg_createdAt = 0, sg_updatedAt = 0 \<rparr>"

text \<open>
  \<open>steps.find(s => s.stepName === name)\<close> and the assignments to the step it returns. The copies
  that \<open>update\<close> makes share the array, so the assignments reach the stored saga.
\<close>

fun succeed_step :: "instant \<Rightarrow> string \<Rightarrow> SagaStepRecord list \<Rightarrow> SagaStepRecord list" where
  "succeed_step now name [] = []"
| "succeed_step now name (s # ss) =
     (if st_stepName s = name then s\<lparr> st_status := SUCCESS, st_executedAt := Some now \<rparr> # ss
      else s # succeed_step now name ss)"

definition set_order :: "instant \<Rightarrow> string \<Rightarrow> (OrderEntity \<Rightarrow> OrderEntity) \<Rightarrow> order_sys \<Rightarrow> order_sys" where
  "set_order now oid f s = s\<lparr> os_orders := fst (order_update now oid f (os_orders s)) \<rparr>"

definition set_saga :: "instant \<Rightarrow> string \<Rightarrow> (SagaInstanceEntity \<Rightarrow> SagaInstanceEntity) \<Rightarrow> order_sys \<Rightarrow> order_sys" where
  "set_saga now sid f s = s\<lparr> os_sagas := fst (saga_update now sid f (os_sagas s)) \<rparr>"

fun order_seg :: "instant \<Rightarrow> string \<Rightarrow> order_task \<Rightarrow> order_sys \<Rightarrow> order_sys \<times> order_task option" where
  "order_seg now uid (CreateResumed oid tid) s =
     (s\<lparr> os_sagas := fst (saga_create now uid (new_saga now oid tid) (os_sagas s)) \<rparr>,
      Some (SagaLinkOrder uid oid))"
| "order_seg now uid (SagaLinkOrder sid oid) s =
     (set_order now oid (\<lambda>e. e\<lparr> o_sagaInstanceId := Some sid, o_status := OrderStatus.INVENTORY_RESERVING \<rparr>) s,
      Some (SagaFindInventory sid oid))"
| "order_seg now uid (SagaFindInventory sid oid) s =
     (s, Some (SagaInventory sid oid (saga_find (os_sagas s) sid)))"
| "order_seg now uid (SagaInventory sid oid found) s =
     (case found of
        None \<Rightarrow> (s, None)
      | Some _ \<Rightarrow>
          (set_saga now sid (\<lambda>g. g\<lparr> sg_steps := succeed_step now ''RESERVE_INVENTORY'' (sg_steps g),
                                    sg_status := SagaStatus.IN_PROGRESS,
                                    sg_currentStep := ''AUTHORIZE_PAYMENT'' \<rparr>) s,
           Some (SagaOrderPayment sid oid)))"
| "order_seg now uid (SagaOrderPayment sid oid) s =
     (set_order now oid (\<lambda>e. e\<lparr> o_status := OrderStatus.PAYMENT_PROCESSING \<rparr>) s,
      Some (SagaFindPayment sid oid))"
| "order_seg now uid (SagaFindPayment sid oid) s =
     (s, Some (SagaPayment sid oid (saga_find (os_sagas s) sid)))"
| "order_seg now uid (SagaPayment sid oid found) s =
     (case found of
        None \<Rightarrow> (s, None)
      | Some _ \<Rightarrow>
          (set_saga now sid (\<lambda>g. g\<lparr> sg_steps := succeed_step now ''SCHEDULE_DISPATCH''
                                                (succeed_step now ''AUTHORIZE_PAYMENT'' (sg_steps g)),
                                    sg_status := SagaStatus.COMPLETED,
                                    sg_currentStep := ''COMPLETED'' \<rparr>) s,
           Some (SagaOrderDispatch sid oid)))"
| "order_seg now uid (SagaOrderDispatch sid oid) s =
     (set_order now oid (\<lambda>e. e\<lparr> o_status := OrderStatus.DISPATCH_SCHEDULED \<rparr>) s, None)"
| "order_seg now uid (CancelDecide oid reason found) s =
     (s\<lparr> os_orders := fst (cancel_decide now oid reason found (os_orders s)) \<rparr>, None)"

text \<open>
  The actions of the system. \<open>ok_act\<close> is what \<open>uuid\<close> promises: an identifier it draws has
  not been used.
\<close>

datatype order_act =
    ActCreate instant "nat \<Rightarrow> string" string CreateOrderDTO
  | ActCancel string string
  | ActRun nat instant string

definition take_task :: "nat \<Rightarrow> order_task option \<Rightarrow> order_task list \<Rightarrow> order_task list" where
  "take_task i nxt ts = take i ts @ drop (Suc i) ts @ (case nxt of None \<Rightarrow> [] | Some t \<Rightarrow> [t])"

fun order_exec :: "order_act \<Rightarrow> order_sys \<Rightarrow> order_sys" where
  "order_exec (ActCreate now uids num dto) s =
     (let (m, e) = createOrder now uids num dto (os_orders s)
      in s\<lparr> os_orders := m, os_tasks := os_tasks s @ [CreateResumed (o_id e) (co_tenantId dto)] \<rparr>)"
| "order_exec (ActCancel oid reason) s =
     s\<lparr> os_tasks := os_tasks s @ [CancelDecide oid reason (order_find (os_orders s) oid)] \<rparr>"
| "order_exec (ActRun i now uid) s =
     (if i < length (os_tasks s)
      then let (s', nxt) = order_seg now uid (os_tasks s ! i) s
           in s'\<lparr> os_tasks := take_task i nxt (os_tasks s') \<rparr>
      else s)"

fun ok_act :: "order_sys \<Rightarrow> order_act \<Rightarrow> bool" where
  "ok_act s (ActCreate now uids num dto) \<longleftrightarrow> order_find (os_orders s) (uids (length (co_items dto))) = None"
| "ok_act s (ActCancel _ _) \<longleftrightarrow> True"
| "ok_act s (ActRun i now uid) \<longleftrightarrow> saga_find (os_sagas s) uid = None"

definition order_init :: order_sys where
  "order_init = \<lparr> os_orders = [], os_sagas = [], os_tasks = [] \<rparr>"

inductive order_step :: "order_sys \<Rightarrow> order_sys \<Rightarrow> bool" where
  act: "ok_act s a \<Longrightarrow> order_step s (order_exec a s)"

inductive order_reachable :: "order_sys \<Rightarrow> bool" where
  init: "order_reachable order_init"
| step: "order_reachable s \<Longrightarrow> order_step s s' \<Longrightarrow> order_reachable s'"

inductive_cases order_stepE: "order_step s s'"

section \<open>What a task owns\<close>

text \<open>The saga a task drives, the order it will still write, and the phase its saga is in.\<close>

fun task_saga :: "order_task \<Rightarrow> string option" where
  "task_saga (CreateResumed _ _) = None"
| "task_saga (SagaLinkOrder sid _) = Some sid"
| "task_saga (SagaFindInventory sid _) = Some sid"
| "task_saga (SagaInventory sid _ _) = Some sid"
| "task_saga (SagaOrderPayment sid _) = Some sid"
| "task_saga (SagaFindPayment sid _) = Some sid"
| "task_saga (SagaPayment sid _ _) = Some sid"
| "task_saga (SagaOrderDispatch sid _) = Some sid"
| "task_saga (CancelDecide _ _ _) = None"

fun task_order :: "order_task \<Rightarrow> string option" where
  "task_order (CreateResumed oid _) = Some oid"
| "task_order (SagaLinkOrder _ oid) = Some oid"
| "task_order (SagaFindInventory _ oid) = Some oid"
| "task_order (SagaInventory _ oid _) = Some oid"
| "task_order (SagaOrderPayment _ oid) = Some oid"
| "task_order (SagaFindPayment _ oid) = Some oid"
| "task_order (SagaPayment _ oid _) = Some oid"
| "task_order (SagaOrderDispatch _ oid) = Some oid"
| "task_order (CancelDecide _ _ _) = None"

fun task_phase :: "order_task \<Rightarrow> SagaStatus" where
  "task_phase (SagaOrderPayment _ _) = SagaStatus.IN_PROGRESS"
| "task_phase (SagaFindPayment _ _) = SagaStatus.IN_PROGRESS"
| "task_phase (SagaPayment _ _ _) = SagaStatus.IN_PROGRESS"
| "task_phase (SagaOrderDispatch _ _) = SagaStatus.COMPLETED"
| "task_phase _ = SagaStatus.STARTED"

fun task_found :: "order_task \<Rightarrow> bool" where
  "task_found (SagaInventory _ _ f) = (f \<noteq> None)"
| "task_found (SagaPayment _ _ f) = (f \<noteq> None)"
| "task_found _ = True"

fun task_left :: "order_task \<Rightarrow> nat" where
  "task_left (CreateResumed _ _) = 8"
| "task_left (SagaLinkOrder _ _) = 7"
| "task_left (SagaFindInventory _ _) = 6"
| "task_left (SagaInventory _ _ _) = 5"
| "task_left (SagaOrderPayment _ _) = 4"
| "task_left (SagaFindPayment _ _) = 3"
| "task_left (SagaPayment _ _ _) = 2"
| "task_left (SagaOrderDispatch _ _) = 1"
| "task_left (CancelDecide _ _ _) = 1"

text \<open>A saga's record agrees with its status: the step list tells which steps are behind it.\<close>

definition step_view :: "SagaInstanceEntity \<Rightarrow> (string \<times> StepStatus) list" where
  "step_view g = map (\<lambda>s. (st_stepName s, st_status s)) (sg_steps g)"

fun phase_steps :: "SagaStatus \<Rightarrow> (string \<times> StepStatus) list" where
  "phase_steps SagaStatus.STARTED =
     [(''VALIDATE_ORDER'', SUCCESS), (''RESERVE_INVENTORY'', PENDING),
      (''AUTHORIZE_PAYMENT'', PENDING), (''SCHEDULE_DISPATCH'', PENDING)]"
| "phase_steps SagaStatus.IN_PROGRESS =
     [(''VALIDATE_ORDER'', SUCCESS), (''RESERVE_INVENTORY'', SUCCESS),
      (''AUTHORIZE_PAYMENT'', PENDING), (''SCHEDULE_DISPATCH'', PENDING)]"
| "phase_steps SagaStatus.COMPLETED =
     [(''VALIDATE_ORDER'', SUCCESS), (''RESERVE_INVENTORY'', SUCCESS),
      (''AUTHORIZE_PAYMENT'', SUCCESS), (''SCHEDULE_DISPATCH'', SUCCESS)]"
| "phase_steps _ = []"

definition saga_in :: "SagaStatus \<Rightarrow> SagaInstanceEntity \<Rightarrow> bool" where
  "saga_in p g \<longleftrightarrow> sg_status g = p \<and> step_view g = phase_steps p"

lemma succeed_view:
  "map (\<lambda>s. (st_stepName s, st_status s)) (succeed_step now n ss) =
     (let v = map (\<lambda>s. (st_stepName s, st_status s)) ss;
          k = length (takeWhile (\<lambda>x. fst x \<noteq> n) v)
      in if k < length v then v[k := (n, SUCCESS)] else v)"
  by (induction ss) (auto simp: Let_def)

lemma new_saga_in: "saga_in SagaStatus.STARTED (g\<lparr> sg_status := SagaStatus.STARTED, sg_steps := initial_steps now \<rparr>)"
  by (simp add: saga_in_def step_view_def initial_steps_def)

lemma inventory_phase:
  "saga_in SagaStatus.STARTED g \<Longrightarrow>
    saga_in SagaStatus.IN_PROGRESS (g\<lparr> sg_steps := succeed_step now ''RESERVE_INVENTORY'' (sg_steps g),
      sg_status := SagaStatus.IN_PROGRESS, sg_currentStep := c, sg_updatedAt := t \<rparr>)"
  by (simp add: saga_in_def step_view_def succeed_view)

lemma payment_phase:
  "saga_in SagaStatus.IN_PROGRESS g \<Longrightarrow>
    saga_in SagaStatus.COMPLETED (g\<lparr> sg_steps := succeed_step now ''SCHEDULE_DISPATCH''
        (succeed_step now ''AUTHORIZE_PAYMENT'' (sg_steps g)),
      sg_status := SagaStatus.COMPLETED, sg_currentStep := c, sg_updatedAt := t \<rparr>)"
  by (simp add: saga_in_def step_view_def succeed_view)

section \<open>The invariant\<close>

definition settled :: "OrderStatus \<Rightarrow> bool" where
  "settled st \<longleftrightarrow> st = OrderStatus.DISPATCH_SCHEDULED \<or> st = OrderStatus.CANCELLED"

definition good_order :: "string \<Rightarrow> OrderEntity \<Rightarrow> bool" where
  "good_order i e \<longleftrightarrow> o_id e = i \<and> order_priced e \<and>
     o_status e \<in> {OrderStatus.PENDING_VALIDATION, OrderStatus.INVENTORY_RESERVING,
       OrderStatus.PAYMENT_PROCESSING, OrderStatus.DISPATCH_SCHEDULED, OrderStatus.CANCELLED}"

definition task_ok :: "OrderRepository \<Rightarrow> SagaRepository \<Rightarrow> order_task \<Rightarrow> bool" where
  "task_ok m g t \<longleftrightarrow> task_found t \<and>
     (\<forall>oid. task_order t = Some oid \<longrightarrow> order_find m oid \<noteq> None) \<and>
     (\<forall>sid. task_saga t = Some sid \<longrightarrow>
        (\<exists>sg. saga_find g sid = Some sg \<and> saga_in (task_phase t) sg \<and> task_order t = Some (sg_orderId sg)))"

definition saga_ids :: "order_task list \<Rightarrow> string list" where
  "saga_ids ts = List.map_filter task_saga ts"

definition order_inv :: "OrderRepository \<Rightarrow> SagaRepository \<Rightarrow> order_task list \<Rightarrow> bool" where
  "order_inv m g ts \<longleftrightarrow>
     (\<forall>i e. order_find m i = Some e \<longrightarrow> good_order i e \<and>
        (settled (o_status e) \<or> (\<exists>t \<in> set ts. task_order t = Some i))) \<and>
     (\<forall>i sg. saga_find g i = Some sg \<longrightarrow> sg_id sg = i \<and>
        (saga_in SagaStatus.COMPLETED sg \<or> (\<exists>t \<in> set ts. task_saga t = Some i))) \<and>
     (\<forall>t \<in> set ts. task_ok m g t) \<and>
     distinct (saga_ids ts)"

lemma saga_ids_simps [simp]:
  "saga_ids [] = []"
  "saga_ids (t # ts) = (case task_saga t of None \<Rightarrow> saga_ids ts | Some i \<Rightarrow> i # saga_ids ts)"
  by (auto simp: saga_ids_def map_filter_simps split: option.split)

lemma saga_ids_append [simp]: "saga_ids (ts @ us) = saga_ids ts @ saga_ids us"
  by (induction ts) (auto split: option.split)

lemma set_saga_ids: "set (saga_ids ts) = {i. \<exists>t \<in> set ts. task_saga t = Some i}"
  by (induction ts) (auto split: option.splits)

lemma saga_ids_perm: "mset ts = mset us \<Longrightarrow> mset (saga_ids ts) = mset (saga_ids us)"
  by (simp add: saga_ids_def map_filter_def)

lemma order_inv_perm:
  assumes eq: "mset ts = mset us"
  shows "order_inv m g ts \<longleftrightarrow> order_inv m g us"
proof -
  from eq have "set ts = set us" by (rule mset_eq_setD)
  moreover from saga_ids_perm [OF eq] have "distinct (saga_ids ts) = distinct (saga_ids us)"
    by (rule mset_eq_imp_distinct_iff)
  ultimately show ?thesis unfolding order_inv_def by simp
qed

lemma order_priced_update [simp]:
  "order_priced (e\<lparr> o_status := st \<rparr>) = order_priced e"
  "order_priced (e\<lparr> o_updatedAt := t \<rparr>) = order_priced e"
  "order_priced (e\<lparr> o_sagaInstanceId := x \<rparr>) = order_priced e"
  "order_priced (e\<lparr> o_cancellationReason := r \<rparr>) = order_priced e"
  by (simp_all add: order_priced_def)

text \<open>Only the fields a task touches change, so tasks of other sagas stay as they are.\<close>

lemma task_ok_frame:
  assumes "task_ok m g t"
    and "\<And>i. order_find m i \<noteq> None \<Longrightarrow> order_find m' i \<noteq> None"
    and "\<And>i. task_saga t = Some i \<Longrightarrow> saga_find g' i = saga_find g i"
  shows "task_ok m' g' t"
  using assms unfolding task_ok_def by metis

text \<open>Updating the order a saga drives, whatever becomes of its status.\<close>

lemma inv_write_order:
  assumes inv: "order_inv m g (t # ts)"
    and keep: "\<And>i e. good_order i e \<Longrightarrow> good_order i ((f e)\<lparr> o_updatedAt := now \<rparr>)"
    and next_ok: "\<And>u. u \<in> set us \<Longrightarrow> task_ok m g u"
    and ids: "saga_ids us = saga_ids [t] \<or> (us = [] \<and> task_phase t = SagaStatus.COMPLETED)"
    and oid: "task_order t = Some oid"
    and cover: "(\<exists>u \<in> set us. task_order u = Some oid) \<or> (\<forall>e. settled (o_status (f e)))"
  shows "order_inv (fst (order_update now oid f m)) g (us @ ts)"
proof -
  let ?m = "fst (order_update now oid f m)"
  have found: "order_find ?m i =
      (if i = oid then map_option (\<lambda>e. (f e)\<lparr> o_updatedAt := now \<rparr>) (order_find m oid) else order_find m i)" for i
    by (simp add: orders.find_updated comp_def)
  have ok: "task_ok ?m g u" if "task_ok m g u" for u
    using that by (rule task_ok_frame) (auto simp: found)
  have saga_done: "saga_in SagaStatus.COMPLETED sg"
    if "us = []" "task_phase t = SagaStatus.COMPLETED" "task_saga t = Some i" "saga_find g i = Some sg" for i sg
    using inv that by (auto simp: order_inv_def task_ok_def)
  have sids: "set (saga_ids us) = set (saga_ids [t]) \<or> (us = [] \<and> task_phase t = SagaStatus.COMPLETED)"
    using ids by auto
  have dist: "distinct (saga_ids (us @ ts))"
    using inv ids unfolding order_inv_def by (auto split: option.splits)
  show ?thesis
    unfolding order_inv_def
  proof (intro conjI allI impI ballI dist)
    fix i e assume e: "order_find ?m i = Some e"
    then obtain e0 where e0: "order_find m i = Some e0" "i \<noteq> oid \<Longrightarrow> e = e0"
      "i = oid \<Longrightarrow> e = (f e0)\<lparr> o_updatedAt := now \<rparr>" by (auto simp: found split: if_splits)
    then show "good_order i e" using inv keep by (cases "i = oid") (auto simp: order_inv_def)
    show "settled (o_status e) \<or> (\<exists>u \<in> set (us @ ts). task_order u = Some i)"
    proof (cases "i = oid")
      case True
      with cover e0 show ?thesis by auto
    next
      case False
      with inv e0 oid show ?thesis by (force simp: order_inv_def)
    qed
  next
    fix i sg assume sg: "saga_find g i = Some sg"
    show "sg_id sg = i" using inv sg by (auto simp: order_inv_def)
    show "saga_in SagaStatus.COMPLETED sg \<or> (\<exists>u \<in> set (us @ ts). task_saga u = Some i)"
    proof (cases "task_saga t = Some i")
      case True
      then have "i \<in> set (saga_ids [t])" by simp
      with sids saga_done [OF _ _ True sg] show ?thesis by (auto simp: set_saga_ids)
    next
      case False
      have "saga_in SagaStatus.COMPLETED sg \<or> (\<exists>u \<in> set (t # ts). task_saga u = Some i)"
        using inv sg unfolding order_inv_def by blast
      with False show ?thesis by auto
    qed
  next
    fix u assume "u \<in> set (us @ ts)"
    then show "task_ok ?m g u" using inv next_ok ok by (auto simp: order_inv_def)
  qed
qed

text \<open>Updating the saga a task drives, into the phase of the task that follows.\<close>

lemma inv_write_saga:
  assumes inv: "order_inv m g (t # ts)"
    and sid: "task_saga t = Some sid" "task_saga u = Some sid" "task_order u = task_order t" "task_found u"
    and keep: "\<And>sg. sg_id ((f sg)\<lparr> sg_updatedAt := now \<rparr>) = sg_id sg \<and>
                     sg_orderId ((f sg)\<lparr> sg_updatedAt := now \<rparr>) = sg_orderId sg"
    and phase: "\<And>sg. saga_in (task_phase t) sg \<Longrightarrow> saga_in (task_phase u) ((f sg)\<lparr> sg_updatedAt := now \<rparr>)"
  shows "order_inv m (fst (saga_update now sid f g)) (u # ts)"
proof -
  let ?g = "fst (saga_update now sid f g)"
  have found: "saga_find ?g i =
      (if i = sid then map_option (\<lambda>e. (f e)\<lparr> sg_updatedAt := now \<rparr>) (saga_find g sid) else saga_find g i)" for i
    by (simp add: sagas.find_updated comp_def)
  obtain sg where sg: "saga_find g sid = Some sg" "saga_in (task_phase t) sg" "task_order t = Some (sg_orderId sg)"
    using inv sid(1) by (auto simp: order_inv_def task_ok_def)
  have fresh: "sid \<notin> set (saga_ids ts)" "distinct (saga_ids ts)"
    using inv sid(1) by (auto simp: order_inv_def)
  have ok_u: "task_ok m ?g u"
    using inv sid sg keep phase by (auto simp: order_inv_def task_ok_def found)
  have ok_ts: "task_ok m ?g v" if "v \<in> set ts" for v
  proof (rule task_ok_frame [of m g])
    show "task_ok m g v" using inv that by (auto simp: order_inv_def)
    show "saga_find ?g i = saga_find g i" if "task_saga v = Some i" for i
      using fresh \<open>v \<in> set ts\<close> that by (auto simp: found set_saga_ids)
  qed
  show ?thesis
    unfolding order_inv_def
  proof (intro conjI allI impI ballI)
    fix i e assume "order_find m i = Some e"
    then show "good_order i e" "settled (o_status e) \<or> (\<exists>v \<in> set (u # ts). task_order v = Some i)"
      using inv sid by (force simp: order_inv_def)+
  next
    fix i sg' assume "saga_find ?g i = Some sg'"
    then show "sg_id sg' = i" "saga_in SagaStatus.COMPLETED sg' \<or> (\<exists>v \<in> set (u # ts). task_saga v = Some i)"
      using inv sid keep by (force simp: order_inv_def found split: if_splits)+
  next
    fix v assume "v \<in> set (u # ts)"
    then show "task_ok m ?g v" using ok_u ok_ts by auto
  next
    show "distinct (saga_ids (u # ts))" using sid fresh by simp
  qed
qed

text \<open>A task that only reads hands over to one that owns the same.\<close>

lemma inv_read:
  assumes inv: "order_inv m g (t # ts)"
    and "task_saga u = task_saga t" "task_order u = task_order t" "task_phase u = task_phase t" "task_found u"
  shows "order_inv m g (u # ts)"
  using assms unfolding order_inv_def task_ok_def by (auto split: option.splits)

lemma inv_create_saga:
  assumes inv: "order_inv m g (CreateResumed oid tid # ts)" and fresh: "saga_find g uid = None"
  shows "order_inv m (fst (saga_create now uid (new_saga now oid tid) g)) (SagaLinkOrder uid oid # ts)"
proof -
  let ?e = "(new_saga now oid tid)\<lparr> sg_id := uid, sg_createdAt := now, sg_updatedAt := now \<rparr>"
  let ?g = "fst (saga_create now uid (new_saga now oid tid) g)"
  have found: "saga_find ?g i = (if i = uid then Some ?e else saga_find g i)" for i
    by (simp add: saga_create_def saga_find_def Let_def)
  have e: "saga_in SagaStatus.STARTED ?e" "sg_orderId ?e = oid" "sg_id ?e = uid"
    by (simp_all add: saga_in_def step_view_def new_saga_def initial_steps_def)
  have no: "task_saga v \<noteq> Some uid" if "v \<in> set ts" for v
    using inv fresh that by (auto simp: order_inv_def task_ok_def)
  have ok_ts: "task_ok m ?g v" if "v \<in> set ts" for v
    by (rule task_ok_frame [of m g]) (use inv that no [OF that] in \<open>auto simp: order_inv_def found\<close>)
  have "task_ok m ?g (SagaLinkOrder uid oid)"
    using inv e by (auto simp: order_inv_def task_ok_def found)
  with ok_ts inv no e show ?thesis
    by (auto simp: order_inv_def found set_saga_ids split: if_splits)
qed

lemma inv_cancel:
  assumes inv: "order_inv m g (CancelDecide oid reason f # ts)"
  shows "order_inv (fst (cancel_decide now oid reason f m)) g ts"
proof -
  have drop: "order_inv m g ts" using inv by (auto simp: order_inv_def)
  let ?f = "\<lambda>e. e\<lparr> o_status := OrderStatus.CANCELLED, o_cancellationReason := Some reason \<rparr>"
  have found: "order_find (fst (order_update now oid ?f m)) i =
      (if i = oid then map_option (\<lambda>e. (?f e)\<lparr> o_updatedAt := now \<rparr>) (order_find m oid) else order_find m i)" for i
    by (simp add: orders.find_updated comp_def)
  have ok: "task_ok (fst (order_update now oid ?f m)) g v" if "task_ok m g v" for v
    using that by (rule task_ok_frame) (auto simp: found)
  have "order_inv (fst (order_update now oid ?f m)) g ts"
    using drop ok unfolding order_inv_def
    by (auto simp: found good_order_def settled_def split: if_splits)
  with drop show ?thesis
    by (auto simp: cancel_decide_def split: option.split prod.split)
qed

lemma seg_tasks [simp]: "os_tasks (fst (order_seg now uid t s)) = os_tasks s"
  by (cases t) (auto simp: set_order_def set_saga_def split: option.split)

lemma good_order_status:
  "good_order i e \<Longrightarrow> st \<in> {OrderStatus.INVENTORY_RESERVING, OrderStatus.PAYMENT_PROCESSING,
      OrderStatus.DISPATCH_SCHEDULED} \<Longrightarrow> good_order i (e\<lparr> o_status := st, o_updatedAt := t \<rparr>)"
  "good_order i e \<Longrightarrow> good_order i (e\<lparr> o_sagaInstanceId := x, o_status := OrderStatus.INVENTORY_RESERVING,
      o_updatedAt := t \<rparr>)"
  by (auto simp: good_order_def)

lemma inv_seg:
  assumes inv: "order_inv (os_orders s) (os_sagas s) (t # ts)" and fresh: "saga_find (os_sagas s) uid = None"
  shows "order_inv (os_orders (fst (order_seg now uid t s))) (os_sagas (fst (order_seg now uid t s)))
    ((case snd (order_seg now uid t s) of None \<Rightarrow> [] | Some u \<Rightarrow> [u]) @ ts)"
proof -
  have tok: "task_ok (os_orders s) (os_sagas s) t" using inv by (auto simp: order_inv_def)
  show ?thesis
  proof (cases t)
    case (CreateResumed oid tid)
    then show ?thesis using inv fresh inv_create_saga by simp
  next
    case (SagaLinkOrder sid oid)
    then show ?thesis
      using inv tok inv_write_order [OF inv, where f = "\<lambda>e. e\<lparr> o_sagaInstanceId := Some sid, o_status := OrderStatus.INVENTORY_RESERVING \<rparr>"
            and now = now and us = "[SagaFindInventory sid oid]" and oid = oid]
      by (simp add: set_order_def good_order_status task_ok_def)
  next
    case (SagaFindInventory sid oid)
    then show ?thesis
      using inv tok by (auto intro!: inv_read [OF inv] simp: task_ok_def)
  next
    case (SagaInventory sid oid found)
    with tok obtain g where "found = Some g" by (auto simp: task_ok_def)
    with SagaInventory show ?thesis
      by (simp add: set_saga_def) (rule inv_write_saga [OF inv], auto simp: inventory_phase)
  next
    case (SagaOrderPayment sid oid)
    then show ?thesis
      using inv tok inv_write_order [OF inv, where f = "\<lambda>e. e\<lparr> o_status := OrderStatus.PAYMENT_PROCESSING \<rparr>"
            and now = now and us = "[SagaFindPayment sid oid]" and oid = oid]
      by (simp add: set_order_def good_order_status task_ok_def)
  next
    case (SagaFindPayment sid oid)
    then show ?thesis
      using inv tok by (auto intro!: inv_read [OF inv] simp: task_ok_def)
  next
    case (SagaPayment sid oid found)
    with tok obtain g where "found = Some g" by (auto simp: task_ok_def)
    with SagaPayment show ?thesis
      by (simp add: set_saga_def) (rule inv_write_saga [OF inv], auto simp: payment_phase)
  next
    case (SagaOrderDispatch sid oid)
    then show ?thesis
      using inv tok inv_write_order [OF inv, where f = "\<lambda>e. e\<lparr> o_status := OrderStatus.DISPATCH_SCHEDULED \<rparr>"
            and now = now and us = "[]" and oid = oid]
      by (simp add: set_order_def good_order_status task_ok_def settled_def)
  next
    case (CancelDecide oid reason f)
    then show ?thesis using inv inv_cancel by simp
  qed
qed

lemma take_task_perm:
  "i < length ts \<Longrightarrow>
    mset (take_task i nxt ts) = mset ((case nxt of None \<Rightarrow> [] | Some u \<Rightarrow> [u]) @ (take i ts @ drop (Suc i) ts))"
  "i < length ts \<Longrightarrow> mset ts = mset (ts ! i # (take i ts @ drop (Suc i) ts))"
  by (auto simp: take_task_def split: option.split)
    (metis Cons_nth_drop_Suc append_take_drop_id mset.simps(2) mset_append union_mset_add_mset_right)

lemma inv_create_order:
  assumes inv: "order_inv m g ts" and fresh: "order_find m (uids (length (co_items dto))) = None"
  shows "order_inv (fst (createOrder now uids num dto m)) g
    (ts @ [CreateResumed (o_id (snd (createOrder now uids num dto m))) (co_tenantId dto)])"
proof -
  let ?e = "snd (createOrder now uids num dto m)" and ?m = "fst (createOrder now uids num dto m)"
  let ?i = "uids (length (co_items dto))"
  have found: "order_find ?m i = (if i = ?i then Some ?e else order_find m i)" for i
    by (simp add: createOrder_stored(1) order_find_def)
  have "good_order ?i ?e"
    by (simp add: good_order_def createOrder_stored createOrder_priced)
  moreover have "task_ok ?m g v" if "v \<in> set ts" for v
    by (rule task_ok_frame [of m g]) (use inv that in \<open>auto simp: order_inv_def found\<close>)
  moreover have "task_ok ?m g (CreateResumed (o_id ?e) (co_tenantId dto))"
    by (simp add: task_ok_def found createOrder_stored(2))
  ultimately show ?thesis
    using inv unfolding order_inv_def by (auto simp: found createOrder_stored(2) split: if_splits)
qed

lemma order_exec_inv:
  assumes inv: "order_inv (os_orders s) (os_sagas s) (os_tasks s)" and ok: "ok_act s a"
  shows "order_inv (os_orders (order_exec a s)) (os_sagas (order_exec a s)) (os_tasks (order_exec a s))"
proof (cases a)
  case (ActCreate now uids num dto)
  with inv_create_order [OF inv, of uids dto now num] ok show ?thesis
    by (cases "createOrder now uids num dto (os_orders s)") simp
next
  case (ActCancel oid reason)
  have "task_ok (os_orders s) (os_sagas s) (CancelDecide oid reason f)" for f
    by (simp add: task_ok_def)
  with ActCancel inv show ?thesis unfolding order_inv_def by auto
next
  case (ActRun i now uid)
  show ?thesis
  proof (cases "i < length (os_tasks s)")
    case True
    let ?t = "os_tasks s ! i" and ?ts = "take i (os_tasks s) @ drop (Suc i) (os_tasks s)"
    have "order_inv (os_orders s) (os_sagas s) (?t # ?ts)"
      using inv order_inv_perm [OF take_task_perm(2) [OF True]] by blast
    from inv_seg [OF this, of uid now] ok ActRun
    have "order_inv (os_orders (fst (order_seg now uid ?t s))) (os_sagas (fst (order_seg now uid ?t s)))
      (take_task i (snd (order_seg now uid ?t s)) (os_tasks s))"
      using order_inv_perm [OF take_task_perm(1) [OF True]] by simp
    with ActRun True show ?thesis
      using seg_tasks [of now uid ?t s] by (cases "order_seg now uid ?t s") simp
  qed (use ActRun inv in simp)
qed

lemma order_reachable_inv:
  "order_reachable s \<Longrightarrow> order_inv (os_orders s) (os_sagas s) (os_tasks s)"
proof (induction rule: order_reachable.induct)
  case init
  show ?case by (simp add: order_inv_def order_init_def order_find_def saga_find_def)
next
  case (step s s')
  then show ?case by (auto elim!: order_stepE intro: order_exec_inv)
qed

section \<open>Runs\<close>

fun ok_acts :: "order_sys \<Rightarrow> order_act list \<Rightarrow> bool" where
  "ok_acts s [] \<longleftrightarrow> True"
| "ok_acts s (a # as) \<longleftrightarrow> ok_act s a \<and> ok_acts (order_exec a s) as"

lemma reachable_run:
  "order_reachable s \<Longrightarrow> ok_acts s as \<Longrightarrow> order_reachable (fold order_exec as s)"
  by (induction as arbitrary: s) (auto intro: order_reachable.step order_step.act)

text \<open>The segments that the pending tasks still have to run.\<close>

definition work_left :: "order_sys \<Rightarrow> nat" where
  "work_left s = (\<Sum>t \<leftarrow> os_tasks s. task_left t)"

lemma work_take_task:
  assumes "i < length ts"
  shows "(\<Sum>t \<leftarrow> take_task i nxt ts. task_left t) + task_left (ts ! i) =
    (\<Sum>t \<leftarrow> ts. task_left t) + (case nxt of None \<Rightarrow> 0 | Some u \<Rightarrow> task_left u)"
proof -
  have sum: "(\<Sum>t \<leftarrow> us. task_left t) = \<Sum>\<^sub># (image_mset task_left (mset us))" for us
    by (metis mset_map sum_mset_sum_list)
  from take_task_perm(1) [OF assms, of nxt] take_task_perm(2) [OF assms] show ?thesis
    by (simp add: sum split: option.split)
qed

lemma seg_work:
  "(case snd (order_seg now uid t s) of None \<Rightarrow> 0 | Some u \<Rightarrow> task_left u) < task_left t"
  by (cases t) (auto split: option.split)

lemma run_work:
  "i < length (os_tasks s) \<Longrightarrow> work_left (order_exec (ActRun i now uid) s) < work_left s"
  using work_take_task [of i "os_tasks s" "snd (order_seg now uid (os_tasks s ! i) s)"]
    seg_work [of now uid "os_tasks s ! i" s] seg_tasks [of now uid "os_tasks s ! i" s]
  by (cases "order_seg now uid (os_tasks s ! i) s") (simp add: work_left_def)

lemma task_left_pos: "0 < task_left t"
  by (cases t) auto

lemma work_left_0: "work_left s = 0 \<longleftrightarrow> os_tasks s = []"
  using task_left_pos by (cases "os_tasks s") (auto simp: work_left_def)

text \<open>The event loop: it always runs the task that has waited longest.\<close>

definition drain :: "(instant \<times> string) list \<Rightarrow> order_sys \<Rightarrow> order_sys" where
  "drain us s = fold (\<lambda>(now, uid). order_exec (ActRun 0 now uid)) us s"

lemma drain_tasks: "work_left s \<le> length us \<Longrightarrow> os_tasks (drain us s) = []"
proof (induction us arbitrary: s)
  case Nil
  then show ?case by (simp add: drain_def work_left_0)
next
  case (Cons u us)
  obtain now uid where u: "u = (now, uid)" by force
  have "work_left (order_exec (ActRun 0 now uid) s) \<le> length us"
  proof (cases "os_tasks s")
    case Nil
    then show ?thesis by (simp add: work_left_def)
  next
    case (Cons t ts)
    then show ?thesis using run_work [of 0 s now uid] \<open>work_left s \<le> length (u # us)\<close> by simp
  qed
  from Cons.IH [OF this] show ?case by (simp add: drain_def u)
qed

lemma run_sagas:
  "saga_find (os_sagas (order_exec (ActRun i now uid) s)) x \<noteq> None \<Longrightarrow>
    x = uid \<or> saga_find (os_sagas s) x \<noteq> None"
proof -
  have "saga_find (os_sagas (fst (order_seg now uid t s))) x \<noteq> None \<Longrightarrow>
      x = uid \<or> saga_find (os_sagas s) x \<noteq> None" for t
    by (cases t) (auto simp: set_order_def set_saga_def saga_create_def saga_find_def saga_update_def
        Let_def split: option.splits if_splits)
  then show "saga_find (os_sagas (order_exec (ActRun i now uid) s)) x \<noteq> None \<Longrightarrow> ?thesis"
    by (auto split: if_splits prod.splits) (metis fst_conv option.distinct(1))+
qed

lemma drain_reachable:
  assumes "order_reachable s" and "distinct (map snd us)"
    and "\<forall>u \<in> set us. saga_find (os_sagas s) (snd u) = None"
  shows "order_reachable (drain us s)"
  using assms
proof (induction us arbitrary: s)
  case (Cons u us)
  obtain now uid where u: "u = (now, uid)" by force
  let ?s = "order_exec (ActRun 0 now uid) s"
  have "order_reachable ?s"
    using Cons.prems u by (intro order_reachable.step [OF Cons.prems(1)] order_step.act) auto
  moreover have "\<forall>v \<in> set us. saga_find (os_sagas ?s) (snd v) = None"
    using Cons.prems(2,3) run_sagas [of 0 now uid s] by (force simp: u)
  ultimately have "order_reachable (drain us ?s)" using Cons by (intro Cons.IH) auto
  then show ?case by (simp add: drain_def u)
qed (simp add: drain_def)

section \<open>Properties\<close>

text \<open>C1: Every order and saga finishes. Take any state that requests and saga segments can reach,
  in any interleaving. The event loop then empties its queue within the number of segments that
  the pending calls have left (at most 8 for a saga); after that every order is
  DISPATCH_SCHEDULED or CANCELLED and keeps its price breakdown, and every saga is COMPLETED
  with its four steps SUCCESS.\<close>

theorem order_sagas_complete:
  assumes "order_reachable s" and "work_left s \<le> length us" and "distinct (map snd us)"
    and "\<forall>u \<in> set us. saga_find (os_sagas s) (snd u) = None"
  shows "os_tasks (drain us s) = [] \<and>
    (\<forall>i e. order_find (os_orders (drain us s)) i = Some e \<longrightarrow> o_id e = i \<and> order_priced e \<and>
       o_status e \<in> {OrderStatus.DISPATCH_SCHEDULED, OrderStatus.CANCELLED}) \<and>
    (\<forall>i g. saga_find (os_sagas (drain us s)) i = Some g \<longrightarrow> sg_id g = i \<and>
       sg_status g = SagaStatus.COMPLETED \<and> map st_status (sg_steps g) = [SUCCESS, SUCCESS, SUCCESS, SUCCESS])"
proof -
  have empty: "os_tasks (drain us s) = []" using assms(2) by (rule drain_tasks)
  have "order_inv (os_orders (drain us s)) (os_sagas (drain us s)) []"
    using order_reachable_inv [OF drain_reachable [OF assms(1,3,4)]] empty by simp
  moreover have "map st_status (sg_steps g) = [SUCCESS, SUCCESS, SUCCESS, SUCCESS]"
    if "saga_in SagaStatus.COMPLETED g" for g
  proof -
    from that have "map snd (step_view g) = map snd (phase_steps SagaStatus.COMPLETED)"
      by (simp add: saga_in_def)
    then show ?thesis by (simp add: step_view_def comp_def)
  qed
  ultimately show ?thesis
    using empty unfolding order_inv_def good_order_def settled_def saga_in_def by auto
qed

definition demo_created :: order_sys where
  "demo_created = order_exec (ActCreate 0 demo_uids ''ORD-1'' demo_dto) order_init"

lemma demo_created_reachable: "order_reachable demo_created"
  unfolding demo_created_def
  by (rule order_reachable.step [OF order_reachable.init], rule order_step.act)
    (simp add: order_init_def order_find_def)

lemma demo_created_parts:
  "os_tasks demo_created = [CreateResumed ''order'' ''t'']" "os_sagas demo_created = []"
  by (simp_all add: demo_created_def order_init_def createOrder_def order_create_def Let_def
      demo_uids_def demo_dto_def)

theorem order_sagas_complete_witness:
  "os_tasks (drain (map (\<lambda>i. (int i, replicate (Suc i) CHR ''u'')) [0..<8]) demo_created) = []"
  by (rule order_sagas_complete [OF demo_created_reachable, THEN conjunct1])
    (auto simp: work_left_def demo_created_parts saga_find_def distinct_map inj_on_def)

definition race_trace :: "order_act list" where
  "race_trace =
     [ActCreate 0 demo_uids ''ORD-1'' demo_dto, ActRun 0 1 ''saga'', ActRun 0 2 ''u2'',
      ActCancel ''order'' ''changed my mind'', ActRun 0 3 ''u3'', ActRun 0 4 ''u4'',
      ActRun 0 5 ''u5'', ActRun 0 6 ''u6'', ActRun 0 7 ''u7'', ActRun 0 8 ''u8'', ActRun 0 9 ''u9'']"

fun ordered_status :: "OrderStatus \<Rightarrow> string \<Rightarrow> OrderRepository \<Rightarrow> bool" where
  "ordered_status st i m = (case order_find m i of None \<Rightarrow> False | Some e \<Rightarrow> o_status e = st)"

lemma cancel_decide_state:
  "fst (cancel_decide now i reason found m) =
     (if \<exists>e. found = Some e \<and> o_status e \<notin> {OrderStatus.DELIVERED, OrderStatus.CANCELLED}
      then fst (order_update now i
        (\<lambda>e. e\<lparr> o_status := OrderStatus.CANCELLED, o_cancellationReason := Some reason \<rparr>) m)
      else m)"
  by (auto simp: cancel_decide_def split: option.split prod.split)

lemma cancelled_seg:
  assumes "ordered_status OrderStatus.CANCELLED i (os_orders s)" and "task_order t \<noteq> Some i"
  shows "ordered_status OrderStatus.CANCELLED i (os_orders (fst (order_seg now uid t s)))"
  using assms
  by (cases t) (auto simp: set_order_def set_saga_def orders.find_updated cancel_decide_state
      comp_def split: option.splits)

lemma seg_task_order:
  "snd (order_seg now uid t s) = Some u \<Longrightarrow> task_order u = task_order t"
  by (cases t) (auto split: option.splits)

definition cancelled_free :: "string \<Rightarrow> order_sys \<Rightarrow> bool" where
  "cancelled_free i s \<longleftrightarrow> ordered_status OrderStatus.CANCELLED i (os_orders s) \<and>
     (\<forall>t \<in> set (os_tasks s). task_order t \<noteq> Some i)"

lemma set_take_task: "set (take_task i nxt ts) \<subseteq> set ts \<union> set_option nxt"
  by (auto simp: take_task_def dest: in_set_takeD in_set_dropD split: option.splits)

lemma cancelled_free_exec:
  assumes "cancelled_free i s" and "ok_act s a"
  shows "cancelled_free i (order_exec a s)"
proof (cases a)
  case (ActCreate now uids num dto)
  then show ?thesis
    using assms createOrder_stored [of now uids num dto "os_orders s"]
    by (cases "createOrder now uids num dto (os_orders s)")
      (auto simp: cancelled_free_def order_find_def split: option.splits)
next
  case (ActCancel oid reason)
  with assms show ?thesis by (simp add: cancelled_free_def)
next
  case (ActRun k now uid)
  show ?thesis
  proof (cases "k < length (os_tasks s)")
    case True
    let ?t = "os_tasks s ! k"
    obtain s' nxt where seg: "order_seg now uid ?t s = (s', nxt)" by force
    have t: "task_order ?t \<noteq> Some i" using assms(1) True by (auto simp: cancelled_free_def)
    have "ordered_status OrderStatus.CANCELLED i (os_orders s')"
      using cancelled_seg [OF _ t, of s now uid] assms(1) seg by (simp add: cancelled_free_def)
    moreover have "task_order u \<noteq> Some i" if "u \<in> set (take_task k nxt (os_tasks s))" for u
      using that set_take_task [of k nxt "os_tasks s"] assms(1) t seg_task_order [of now uid ?t s u] seg
      by (auto simp: cancelled_free_def)
    ultimately show ?thesis
      using ActRun True seg seg_tasks [of now uid ?t s] by (simp add: cancelled_free_def)
  qed (use ActRun assms in simp)
qed

text \<open>C2: Cancelling races with the saga. There is a run of the event loop in which an order is
  created, cancelled by a call that succeeds while its saga is waiting, and nevertheless ends as
  DISPATCH_SCHEDULED with the cancellation reason still on it: the later saga segments
  overwrite the status without looking at it. A cancellation is final only when no saga segment
  is pending for the order: then no sequence of requests and segments changes the status
  back.\<close>

theorem cancel_race_and_finality:
  "ok_acts order_init race_trace \<and> os_tasks (fold order_exec race_trace order_init) = [] \<and>
   (\<exists>e. order_find (os_orders (fold order_exec race_trace order_init)) ''order'' = Some e \<and>
      o_status e = OrderStatus.DISPATCH_SCHEDULED \<and> o_cancellationReason e = Some ''changed my mind'') \<and>
   (\<forall>s i as. ordered_status OrderStatus.CANCELLED i (os_orders s) \<longrightarrow>
      (\<forall>t \<in> set (os_tasks s). task_order t \<noteq> Some i) \<longrightarrow> ok_acts s as \<longrightarrow>
      ordered_status OrderStatus.CANCELLED i (os_orders (fold order_exec as s)))"
proof -
  have run: "ordered_status OrderStatus.CANCELLED i (os_orders (fold order_exec as s))"
    if "cancelled_free i s" "ok_acts s as" for s i as
    using that
  proof (induction as arbitrary: s)
    case (Cons a as)
    then show ?case using cancelled_free_exec by auto
  qed (simp add: cancelled_free_def)
  have "ok_acts order_init race_trace" by code_simp
  moreover have "os_tasks (fold order_exec race_trace order_init) = []" by code_simp
  moreover have "(case order_find (os_orders (fold order_exec race_trace order_init)) ''order'' of
      None \<Rightarrow> False | Some e \<Rightarrow> o_status e = OrderStatus.DISPATCH_SCHEDULED \<and>
        o_cancellationReason e = Some ''changed my mind'')"
    by code_simp
  ultimately show ?thesis
    using run by (auto simp: cancelled_free_def split: option.splits)
qed

theorem cancel_race_and_finality_witness:
  "ordered_status OrderStatus.CANCELLED ''order''
     (os_orders (fold order_exec [ActRun 0 3 ''a'', ActCancel ''order'' ''again'', ActRun 0 4 ''b'']
       (order_exec (ActCancel ''order'' ''first'')
         (set_order 2 ''order'' (\<lambda>e. e\<lparr> o_status := OrderStatus.CANCELLED \<rparr>)
           (demo_created\<lparr> os_tasks := [] \<rparr>)))))"
proof -
  let ?s = "order_exec (ActCancel ''order'' ''first'')
    (set_order 2 ''order'' (\<lambda>e. e\<lparr> o_status := OrderStatus.CANCELLED \<rparr>) (demo_created\<lparr> os_tasks := [] \<rparr>))"
  have "ordered_status OrderStatus.CANCELLED ''order'' (os_orders ?s)" by code_simp
  moreover have "\<forall>t \<in> set (os_tasks ?s). task_order t \<noteq> Some ''order''"
    by (simp add: set_order_def)
  moreover have "ok_acts ?s [ActRun 0 3 ''a'', ActCancel ''order'' ''again'', ActRun 0 4 ''b'']"
    by code_simp
  ultimately show ?thesis using cancel_race_and_finality by blast
qed

end
