(* ===== verification/Policy_Engine.thy ===== *)
theory Policy_Engine
  imports Prelude
begin

text \<open>
  The attribute-based access control engine (packages/common/src/security/policyEngine.ts):
  rules with three conditions and an effect, the four default policies, and \<open>evaluate\<close>, which
  returns the effect of the first rule that matches. Attributes are the string attributes of a
  resource (the code reads \<open>assignedDriverId\<close> only).
\<close>

record AccessSubject =
  sub_userId :: string
  sub_tenantId :: string
  sub_roles :: "string list"

record AccessResource =
  res_type :: string
  res_id :: string
  res_tenantId :: string
  res_ownerId :: "string option"
  res_attributes :: "string \<rightharpoonup> string"

type_synonym AccessAction = string

datatype PolicyEffect = ALLOW | DENY

record PolicyRule =
  pol_id :: string
  pol_description :: string
  pol_effect :: PolicyEffect
  subjectCondition :: "AccessSubject \<Rightarrow> bool"
  resourceCondition :: "AccessResource \<Rightarrow> AccessSubject \<Rightarrow> bool"
  actionCondition :: "AccessAction \<Rightarrow> bool"

record PolicyDecision =
  isAllowed :: bool
  matchedRuleId :: "string option"
  reason :: string

definition default_policies :: "PolicyRule list" where
  "default_policies =
     [\<lparr> pol_id = ''SUPER_ADMIN_ALL_ACCESS'',
        pol_description = ''SuperAdmin possesses global administrative privileges'',
        pol_effect = ALLOW,
        subjectCondition = (\<lambda>sub. ''SUPER_ADMIN'' \<in> set (sub_roles sub)),
        resourceCondition = (\<lambda>_ _. True),
        actionCondition = (\<lambda>_. True) \<rparr>,
      \<lparr> pol_id = ''TENANT_ISOLATION_GUARD'',
        pol_description = ''Subjects cannot access resources belonging to another tenant'',
        pol_effect = DENY,
        subjectCondition = (\<lambda>sub. ''SUPER_ADMIN'' \<notin> set (sub_roles sub)),
        resourceCondition = (\<lambda>res sub. res_tenantId res \<noteq> sub_tenantId sub),
        actionCondition = (\<lambda>_. True) \<rparr>,
      \<lparr> pol_id = ''TENANT_ADMIN_TENANT_ACCESS'',
        pol_description = ''Tenant admins have full read/write capabilities in their tenant'',
        pol_effect = ALLOW,
        subjectCondition = (\<lambda>sub. ''TENANT_ADMIN'' \<in> set (sub_roles sub)),
        resourceCondition = (\<lambda>res sub. res_tenantId res = sub_tenantId sub),
        actionCondition = (\<lambda>_. True) \<rparr>,
      \<lparr> pol_id = ''DRIVER_ASSIGNED_SHIPMENT_ACCESS'',
        pol_description = ''Drivers can only view and update their own assigned shipments'',
        pol_effect = ALLOW,
        subjectCondition = (\<lambda>sub. ''DRIVER'' \<in> set (sub_roles sub)),
        resourceCondition = (\<lambda>res sub. res_type res = ''Shipment'' \<and>
          res_attributes res ''assignedDriverId'' = Some (sub_userId sub)),
        actionCondition = (\<lambda>act. act \<in> {''read'', ''update_telemetry'', ''submit_pod''}) \<rparr>]"

definition rule_matches :: "AccessSubject \<Rightarrow> AccessResource \<Rightarrow> AccessAction \<Rightarrow> PolicyRule \<Rightarrow> bool" where
  "rule_matches sub res act r \<longleftrightarrow>
     subjectCondition r sub \<and> resourceCondition r res sub \<and> actionCondition r act"

fun evaluate_rules :: "PolicyRule list \<Rightarrow> AccessSubject \<Rightarrow> AccessResource \<Rightarrow> AccessAction \<Rightarrow> PolicyDecision" where
  "evaluate_rules [] sub res act =
     \<lparr> isAllowed = False, matchedRuleId = None,
       reason = ''Default deny: no matching policy rule granted authorization.'' \<rparr>"
| "evaluate_rules (r # rs) sub res act =
     (if rule_matches sub res act r
      then (case pol_effect r of
              DENY \<Rightarrow> \<lparr> isAllowed = False, matchedRuleId = Some (pol_id r), reason = pol_description r \<rparr>
            | ALLOW \<Rightarrow> \<lparr> isAllowed = True, matchedRuleId = Some (pol_id r), reason = pol_description r \<rparr>)
      else evaluate_rules rs sub res act)"

definition evaluate :: "AccessSubject \<Rightarrow> AccessResource \<Rightarrow> AccessAction \<Rightarrow> PolicyDecision" where
  "evaluate = evaluate_rules default_policies"

section \<open>Specification\<close>

text \<open>
  Deny overrides: a request is allowed when some rule that matches allows it and none that
  matches denies it. First match and deny overrides agree when no allowing rule precedes a
  denying one that can match together with it.
\<close>

definition deny_overrides :: "PolicyRule list \<Rightarrow> AccessSubject \<Rightarrow> AccessResource \<Rightarrow> AccessAction \<Rightarrow> bool" where
  "deny_overrides rs sub res act \<longleftrightarrow>
     (\<exists>r \<in> set rs. rule_matches sub res act r \<and> pol_effect r = ALLOW) \<and>
     \<not> (\<exists>r \<in> set rs. rule_matches sub res act r \<and> pol_effect r = DENY)"

definition no_shadow :: "PolicyRule list \<Rightarrow> bool" where
  "no_shadow rs \<longleftrightarrow> sorted_wrt (\<lambda>a d. pol_effect a = ALLOW \<longrightarrow> pol_effect d = DENY \<longrightarrow>
     (\<forall>sub res act. \<not> (rule_matches sub res act a \<and> rule_matches sub res act d))) rs"

lemma first_match_deny_overrides:
  "no_shadow rs \<Longrightarrow> isAllowed (evaluate_rules rs sub res act) = deny_overrides rs sub res act"
proof (induction rs)
  case (Cons r rs)
  then have IH: "isAllowed (evaluate_rules rs sub res act) = deny_overrides rs sub res act"
    and head: "pol_effect r = ALLOW \<Longrightarrow> d \<in> set rs \<Longrightarrow> pol_effect d = DENY \<Longrightarrow>
      rule_matches sub res act r \<Longrightarrow> \<not> rule_matches sub res act d" for d
    by (auto simp: no_shadow_def)
  show ?case
  proof (cases "rule_matches sub res act r")
    case True
    with head show ?thesis by (cases "pol_effect r") (auto simp: deny_overrides_def)
  next
    case False
    with IH show ?thesis by (auto simp: deny_overrides_def)
  qed
qed (simp add: deny_overrides_def)

lemma default_no_shadow: "no_shadow default_policies"
  by (auto simp: no_shadow_def default_policies_def rule_matches_def)

lemma evaluate_decides:
  "isAllowed (evaluate sub res act) \<longleftrightarrow>
     ''SUPER_ADMIN'' \<in> set (sub_roles sub) \<or>
     res_tenantId res = sub_tenantId sub \<and>
       (''TENANT_ADMIN'' \<in> set (sub_roles sub) \<or>
        ''DRIVER'' \<in> set (sub_roles sub) \<and> res_type res = ''Shipment'' \<and>
          res_attributes res ''assignedDriverId'' = Some (sub_userId sub) \<and>
          act \<in> {''read'', ''update_telemetry'', ''submit_pod''})"
  by (auto simp: evaluate_def default_policies_def rule_matches_def)

text \<open>C8: The policy engine's decision. A request is allowed exactly for super administrators, for
  tenant administrators inside their tenant, and for drivers reading, updating or proving
  delivery of a shipment of their tenant that is assigned to them; so nobody but a super
  administrator ever reaches another tenant's resource. On the default policies the first-match
  loop decides as deny-overrides would, and an allowed decision names the rule that allows it.\<close>

theorem policy_decision:
  "(isAllowed (evaluate sub res act) \<longleftrightarrow>
     ''SUPER_ADMIN'' \<in> set (sub_roles sub) \<or>
     res_tenantId res = sub_tenantId sub \<and>
       (''TENANT_ADMIN'' \<in> set (sub_roles sub) \<or>
        ''DRIVER'' \<in> set (sub_roles sub) \<and> res_type res = ''Shipment'' \<and>
          res_attributes res ''assignedDriverId'' = Some (sub_userId sub) \<and>
          act \<in> {''read'', ''update_telemetry'', ''submit_pod''})) \<and>
   isAllowed (evaluate sub res act) = deny_overrides default_policies sub res act \<and>
   (isAllowed (evaluate sub res act) \<longrightarrow> (\<exists>r \<in> set default_policies. pol_effect r = ALLOW \<and>
      rule_matches sub res act r \<and> matchedRuleId (evaluate sub res act) = Some (pol_id r)))"
proof -
  have "isAllowed (evaluate_rules rs sub res act) \<Longrightarrow> \<exists>r \<in> set rs. pol_effect r = ALLOW \<and>
      rule_matches sub res act r \<and> matchedRuleId (evaluate_rules rs sub res act) = Some (pol_id r)" for rs
    by (induction rs) (auto split: PolicyEffect.splits if_splits)
  then show ?thesis
    using evaluate_decides [of sub res act] first_match_deny_overrides [OF default_no_shadow, of sub res act]
    unfolding evaluate_def by blast
qed

theorem policy_decision_witness:
  "\<not> isAllowed (evaluate \<lparr> sub_userId = ''u'', sub_tenantId = ''t1'', sub_roles = [''TENANT_ADMIN''] \<rparr>
     \<lparr> res_type = ''Order'', res_id = ''o'', res_tenantId = ''t2'', res_ownerId = None,
       res_attributes = Map.empty \<rparr> ''read'')"
  by (simp add: policy_decision [THEN conjunct1])

end
