(* ===== verification/Radix_Trie.thy ===== *)
theory Radix_Trie
  imports Prelude
begin

text \<open>
  The compressed prefix trie (packages/common/src/trees/RadixTrieRoutingIndex.ts). A node
  carries the edge label that leads to it and its children keyed by their label's first
  character. \<open>insert\<close> mutates nodes in place, here it rebuilds the path; the loop over
  \<open>children.entries()\<close> is the walk \<open>r_insert_list\<close>. The lemmas show that the trie is well
  formed after every insertion and that \<open>lookup\<close> sees it as a finite map.
\<close>

datatype 'a IRadixNode =
  RNode (prefix: string) (isLeaf: bool) (node_value: "'a option") (kids: "(char \<times> 'a IRadixNode) list")

fun getCommonPrefixLength :: "string \<Rightarrow> string \<Rightarrow> nat" where
  "getCommonPrefixLength (a # as) (b # bs) = (if a = b then Suc (getCommonPrefixLength as bs) else 0)"
| "getCommonPrefixLength _ _ = 0"

definition leaf_node :: "string \<Rightarrow> 'a \<Rightarrow> 'a IRadixNode" where
  "leaf_node p v = RNode p True (Some v) []"

definition split_node :: "string \<Rightarrow> 'a \<Rightarrow> nat \<Rightarrow> 'a IRadixNode \<Rightarrow> 'a IRadixNode" where
  "split_node key v n nd =
     (let lower = RNode (drop n (prefix nd)) (isLeaf nd) (node_value nd) (kids nd);
          cs = jm_set (hd (prefix lower)) lower []
      in if n = length key then RNode (take n (prefix nd)) True (Some v) cs
         else RNode (take n (prefix nd)) False None
                (jm_set (hd (drop n key)) (leaf_node (drop n key) v) cs))"

fun r_insert :: "string \<Rightarrow> 'a \<Rightarrow> 'a IRadixNode \<Rightarrow> 'a IRadixNode"
  and r_insert_list :: "string \<Rightarrow> 'a \<Rightarrow> (char \<times> 'a IRadixNode) list \<Rightarrow> (char \<times> 'a IRadixNode) list" where
  "r_insert key v (RNode p lf val cs) =
     (if key = [] then RNode p True (Some v) cs
      else if \<exists>(c, nd) \<in> set cs. 0 < getCommonPrefixLength key (prefix nd)
      then RNode p lf val (r_insert_list key v cs)
      else RNode p lf val (jm_set (hd key) (leaf_node key v) cs))"
| "r_insert_list key v [] = []"
| "r_insert_list key v ((c, nd) # cs) =
     (let n = getCommonPrefixLength key (prefix nd)
      in if 0 < n
         then if n = length (prefix nd) then (c, r_insert (drop n key) v nd) # cs
              else (c, split_node key v n nd) # cs
         else (c, nd) # r_insert_list key v cs)"

fun r_lookup :: "string \<Rightarrow> 'a IRadixNode \<Rightarrow> 'a option"
  and r_lookup_list :: "string \<Rightarrow> (char \<times> 'a IRadixNode) list \<Rightarrow> 'a option" where
  "r_lookup key (RNode p lf val cs) =
     (if key = [] then (if lf then val else None) else r_lookup_list key cs)"
| "r_lookup_list key [] = None"
| "r_lookup_list key ((c, nd) # cs) =
     (if c = hd key
      then if take (length (prefix nd)) key = prefix nd then r_lookup (drop (length (prefix nd)) key) nd else None
      else r_lookup_list key cs)"

definition trie_root :: "'a IRadixNode" where
  "trie_root = RNode [] False None []"

definition trie_insert :: "string \<Rightarrow> 'a \<Rightarrow> 'a IRadixNode \<Rightarrow> 'a IRadixNode" where
  "trie_insert key v t = r_insert key v t"

definition trie_lookup :: "string \<Rightarrow> 'a IRadixNode \<Rightarrow> 'a option" where
  "trie_lookup key t = r_lookup key t"

section \<open>Common prefixes\<close>

lemma lcp_le: "getCommonPrefixLength a b \<le> length a" "getCommonPrefixLength a b \<le> length b"
  by (induction a b rule: getCommonPrefixLength.induct) auto

lemma lcp_take: "take (getCommonPrefixLength a b) a = take (getCommonPrefixLength a b) b"
  by (induction a b rule: getCommonPrefixLength.induct) auto

lemma lcp_next:
  "getCommonPrefixLength a b < length a \<Longrightarrow> getCommonPrefixLength a b < length b \<Longrightarrow>
    a ! getCommonPrefixLength a b \<noteq> b ! getCommonPrefixLength a b"
  by (induction a b rule: getCommonPrefixLength.induct) auto

lemma lcp_pos: "0 < getCommonPrefixLength a b \<longleftrightarrow> a \<noteq> [] \<and> b \<noteq> [] \<and> hd a = hd b"
  by (cases a; cases b) auto

lemma lcp_full: "getCommonPrefixLength a b = length b \<longleftrightarrow> take (length b) a = b"
  by (induction a b rule: getCommonPrefixLength.induct) auto

section \<open>Well-formed tries\<close>

fun r_wf :: "'a IRadixNode \<Rightarrow> bool" and r_wf_list :: "(char \<times> 'a IRadixNode) list \<Rightarrow> bool" where
  "r_wf (RNode p lf val cs) \<longleftrightarrow> jm_ok cs \<and> (lf \<longrightarrow> val \<noteq> None) \<and> r_wf_list cs"
| "r_wf_list [] \<longleftrightarrow> True"
| "r_wf_list ((c, nd) # cs) \<longleftrightarrow> prefix nd \<noteq> [] \<and> c = hd (prefix nd) \<and> r_wf nd \<and> r_wf_list cs"

lemma r_wf_list_iff:
  "r_wf_list cs \<longleftrightarrow> (\<forall>(c, nd) \<in> set cs. prefix nd \<noteq> [] \<and> c = hd (prefix nd) \<and> r_wf nd)"
  by (induction cs) auto

lemma prefix_insert [simp]: "prefix (r_insert key v nd) = prefix nd"
  by (cases nd) auto

lemma keys_insert_list [simp]: "map fst (r_insert_list key v cs) = map fst cs"
  by (induction cs) (auto simp: Let_def)

lemma r_lookup_list_get:
  "r_lookup_list key cs =
     (case jm_get cs (hd key) of
        None \<Rightarrow> None
      | Some nd \<Rightarrow> if take (length (prefix nd)) key = prefix nd
                  then r_lookup (drop (length (prefix nd)) key) nd else None)"
  by (induction cs) auto

lemma r_lookup_cons:
  "key \<noteq> [] \<Longrightarrow> r_lookup key (RNode p lf val cs) =
     (case jm_get cs (hd key) of
        None \<Rightarrow> None
      | Some nd \<Rightarrow> if take (length (prefix nd)) key = prefix nd
                  then r_lookup (drop (length (prefix nd)) key) nd else None)"
  by (simp add: r_lookup_list_get)

text \<open>The child a label is looked up in is the child the insertion works on.\<close>

lemma wf_child:
  assumes "r_wf_list cs" and "jm_ok cs" and "key \<noteq> []"
  shows "(\<exists>(c, nd) \<in> set cs. 0 < getCommonPrefixLength key (prefix nd)) \<longleftrightarrow> jm_get cs (hd key) \<noteq> None"
  using assms by (force simp: r_wf_list_iff lcp_pos)

lemma insert_list_get:
  assumes "r_wf_list cs" and "jm_ok cs" and "jm_get cs (hd key) = Some nd" and "key \<noteq> []"
  shows "jm_get (r_insert_list key v cs) c =
    (if c = hd key
     then Some (let n = getCommonPrefixLength key (prefix nd)
                in if n = length (prefix nd) then r_insert (drop n key) v nd else split_node key v n nd)
     else jm_get cs c)"
  using assms
  by (induction cs) (auto simp: Let_def lcp_pos split: if_splits)

text \<open>Looking a key up in a child, by its label.\<close>

definition child_lookup :: "string \<Rightarrow> 'a IRadixNode \<Rightarrow> 'a option" where
  "child_lookup key nd =
     (if take (length (prefix nd)) key = prefix nd then r_lookup (drop (length (prefix nd)) key) nd else None)"

lemma leaf_lookup:
  "q \<noteq> [] \<Longrightarrow> child_lookup k (leaf_node q v) = (if k = q then Some v else None)"
  by (auto simp: child_lookup_def leaf_node_def)

lemma lookup_as_child:
  "k \<noteq> [] \<Longrightarrow> r_lookup k (RNode p lf val cs) = Option.bind (jm_get cs (hd k)) (child_lookup k)"
  by (simp add: r_lookup_list_get child_lookup_def split: option.split)

lemma take_prefix_iff: "take (length q) k = q \<longleftrightarrow> (\<exists>z. k = q @ z)"
  by (metis append_eq_conv_conj append_take_drop_id)

lemma take_append_iff: "take (length (q @ lo)) k = q @ lo \<longleftrightarrow>
    take (length q) k = q \<and> take (length lo) (drop (length q) k) = lo"
  unfolding take_prefix_iff by auto

lemma split_parts:
  assumes "n = getCommonPrefixLength key (prefix nd)" and "0 < n" and "n \<noteq> length (prefix nd)"
  obtains q lo rest where "key = q @ rest" and "prefix nd = q @ lo" and "length q = n" and "q \<noteq> []"
    and "lo \<noteq> []" and "rest = [] \<or> hd rest \<noteq> hd lo"
proof
  have n: "n < length (prefix nd)" "n \<le> length key"
    using assms lcp_le [of key "prefix nd"] by auto
  show "key = take n key @ drop n key" by simp
  show "prefix nd = take n key @ drop n (prefix nd)"
    using lcp_take [of key "prefix nd"] assms(1) by simp
  show "length (take n key) = n" "take n key \<noteq> []" "drop n (prefix nd) \<noteq> []" using n assms(2) by auto
  show "drop n key = [] \<or> hd (drop n key) \<noteq> hd (drop n (prefix nd))"
    using lcp_next [of key "prefix nd"] n assms(1) by (auto simp: hd_drop_conv_nth)
qed

lemma split_lookup:
  assumes "n = getCommonPrefixLength key (prefix nd)" and "0 < n" and "n \<noteq> length (prefix nd)"
  shows "child_lookup k (split_node key v n nd) = (if k = key then Some v else child_lookup k nd)"
proof -
  obtain q lo rest where parts: "key = q @ rest" "prefix nd = q @ lo" "length q = n" "q \<noteq> []" "lo \<noteq> []"
    "rest = [] \<or> hd rest \<noteq> hd lo"
    using assms by (rule split_parts)
  obtain p lf val cs where nd: "nd = RNode p lf val cs" by (cases nd)
  let ?lower = "RNode lo lf val cs"
  have low: "child_lookup k (RNode (q @ lo) lf val cs) =
      (if take (length q) k = q then child_lookup (drop (length q) k) ?lower else None)" for k
    using take_append_iff [of q lo k] by (auto simp: child_lookup_def simp del: r_lookup.simps)
      (simp_all add: add.commute)
  have none: "child_lookup x ?lower = None" if "x = [] \<or> hd x \<noteq> hd lo" for x
    using that parts(5) by (cases x; cases lo) (auto simp: child_lookup_def)
  have split: "split_node key v n nd =
      (if rest = [] then RNode q True (Some v) [(hd lo, ?lower)]
       else RNode q False None [(hd lo, ?lower), (hd rest, leaf_node rest v)])"
    using parts by (auto simp: split_node_def Let_def nd)
  have k: "k = q @ drop (length q) k" if "take (length q) k = q"
    using that by (metis append_take_drop_id)
  show ?thesis
  proof (cases "take (length q) k = q")
    case False
    then have "k \<noteq> key" using parts(1) by auto
    moreover have "child_lookup k (split_node key v n nd) = None"
      using False by (simp add: child_lookup_def split)
    moreover have "child_lookup k nd = None"
      using low [of k] False parts(2) by (simp add: nd)
    ultimately show ?thesis by simp
  next
    case True
    define x where "x = drop (length q) k"
    have kx: "k = q @ x" using k [OF True] by (simp add: x_def)
    have nd': "child_lookup k nd = child_lookup x ?lower"
      using low [of k] True parts(2) by (simp add: nd x_def)
    have "child_lookup k (split_node key v n nd) = r_lookup x (split_node key v n nd)"
      using True by (auto simp: child_lookup_def split x_def)
    also have "\<dots> = (if x = rest then Some v else child_lookup x ?lower)"
    proof (cases "x = []")
      case True
      then show ?thesis using none by (auto simp: split)
    next
      case False
      then show ?thesis
        using parts(6) none leaf_lookup [of rest x v]
        by (auto simp: split lookup_as_child simp del: r_lookup.simps)
    qed
    finally show ?thesis using nd' kx parts(1) by simp
  qed
qed

lemma split_wf:
  assumes "n = getCommonPrefixLength key (prefix nd)" and "0 < n" and "n \<noteq> length (prefix nd)" and "r_wf nd"
  shows "r_wf (split_node key v n nd) \<and> prefix (split_node key v n nd) \<noteq> [] \<and>
    hd (prefix (split_node key v n nd)) = hd (prefix nd)"
proof -
  obtain q lo rest where parts: "key = q @ rest" "prefix nd = q @ lo" "length q = n" "q \<noteq> []" "lo \<noteq> []"
    "rest = [] \<or> hd rest \<noteq> hd lo"
    using assms(1-3) by (rule split_parts)
  then show ?thesis
    using assms(4) by (cases nd) (auto simp: split_node_def Let_def leaf_node_def)
qed

section \<open>Insertion\<close>

lemma r_insert_correct:
  "r_wf nd \<Longrightarrow> r_wf (r_insert key v nd) \<and>
     (\<forall>k. r_lookup k (r_insert key v nd) = (if k = key then Some v else r_lookup k nd))"
  "r_wf_list cs \<Longrightarrow> jm_ok cs \<Longrightarrow> key \<noteq> [] \<Longrightarrow> r_wf_list (r_insert_list key v cs) \<and>
     (\<forall>nd \<in> snd ` set cs. getCommonPrefixLength key (prefix nd) = length (prefix nd) \<longrightarrow>
        (\<forall>k. r_lookup k (r_insert (drop (length (prefix nd)) key) v nd) =
           (if k = drop (length (prefix nd)) key then Some v else r_lookup k nd)))"
proof (induction key v nd and key v cs rule: r_insert_r_insert_list.induct)
  case (1 key v p lf val cs)
  show ?case
  proof (cases "key = []")
    case True
    with 1(2) show ?thesis by auto
  next
    case False
    have wf: "r_wf_list cs" "jm_ok cs" "lf \<longrightarrow> val \<noteq> None" using 1(2) by auto
    note child = wf_child [OF wf(1,2) False]
    show ?thesis
    proof (cases "jm_get cs (hd key)")
      case None
      then have ins: "r_insert key v (RNode p lf val cs) =
          RNode p lf val (jm_set (hd key) (leaf_node key v) cs)" using False child by simp
      have "r_wf_list (jm_set (hd key) (leaf_node key v) cs)"
        using wf(1) False by (auto simp: r_wf_list_iff leaf_node_def dest!: jm_set_mem)
      moreover have "r_lookup k (RNode p lf val (jm_set (hd key) (leaf_node key v) cs)) =
          (if k = key then Some v else r_lookup k (RNode p lf val cs))" for k
      proof (cases "k = []")
        case False
        then show ?thesis
          using None leaf_lookup [OF \<open>key \<noteq> []\<close>, of k v]
          by (auto simp: lookup_as_child simp del: r_lookup.simps)
      qed (use False in auto)
      ultimately show ?thesis unfolding ins using wf by (simp del: r_lookup.simps)
    next
      case (Some nd)
      with child have any: "\<exists>(c, nd) \<in> set cs. 0 < getCommonPrefixLength key (prefix nd)" by simp
      then have ins: "r_insert key v (RNode p lf val cs) = RNode p lf val (r_insert_list key v cs)"
        using False by simp
      from 1(1) [OF False any wf(1,2) False] have IH: "r_wf_list (r_insert_list key v cs)"
        "\<And>nd k. nd \<in> snd ` set cs \<Longrightarrow> getCommonPrefixLength key (prefix nd) = length (prefix nd) \<Longrightarrow>
           r_lookup k (r_insert (drop (length (prefix nd)) key) v nd) =
           (if k = drop (length (prefix nd)) key then Some v else r_lookup k nd)"
        by auto
      have nd: "nd \<in> snd ` set cs" "hd (prefix nd) = hd key" "prefix nd \<noteq> []"
        using map_of_SomeD [OF Some] wf(1) by (force simp: r_wf_list_iff)+
      let ?n = "getCommonPrefixLength key (prefix nd)"
      have n: "0 < ?n" using nd False by (simp add: lcp_pos)
      let ?nd' = "if ?n = length (prefix nd) then r_insert (drop ?n key) v nd else split_node key v ?n nd"
      have c': "child_lookup k ?nd' = (if k = key then Some v else child_lookup k nd)" for k
      proof (cases "?n = length (prefix nd)")
        case True
        then have "take (length (prefix nd)) key = prefix nd" by (simp add: lcp_full)
        then have "k = key \<longleftrightarrow> take (length (prefix nd)) k = prefix nd \<and>
            drop (length (prefix nd)) k = drop (length (prefix nd)) key"
          by (metis append_take_drop_id)
        with True IH(2) [OF nd(1) True] show ?thesis by (auto simp: child_lookup_def)
      next
        case False
        with split_lookup [OF refl n False, of k v] show ?thesis by simp
      qed
      have "r_lookup k (RNode p lf val (r_insert_list key v cs)) =
          (if k = key then Some v else r_lookup k (RNode p lf val cs))" for k
      proof (cases "k = []")
        case True
        with \<open>key \<noteq> []\<close> show ?thesis by auto
      next
        case False
        have "child_lookup k nd' = None" if "hd k \<noteq> hd (prefix nd')" "prefix nd' \<noteq> []" for nd' :: "'a IRadixNode"
          using that False by (cases k; cases "prefix nd'") (auto simp: child_lookup_def)
        with False show ?thesis
          using insert_list_get [OF wf(1,2) Some \<open>key \<noteq> []\<close>, of v "hd k"] c' [of k] Some
          by (auto simp: lookup_as_child Let_def simp del: r_lookup.simps)
      qed
      with IH(1) wf show ?thesis unfolding ins by (simp del: r_lookup.simps)
    qed
  qed
next
  case (2 key v)
  then show ?case by simp
next
  case (3 key v c nd cs)
  let ?n = "getCommonPrefixLength key (prefix nd)"
  have wf: "prefix nd \<noteq> []" "c = hd (prefix nd)" "r_wf nd" "r_wf_list cs" "jm_ok cs" "c \<notin> fst ` set cs"
    using 3(3,4) by auto
  show ?case
  proof (cases "0 < ?n")
    case True
    have hd: "hd key = hd (prefix nd)" using True by (simp add: lcp_pos)
    have others: "getCommonPrefixLength key (prefix nd') \<noteq> length (prefix nd')" if "nd' \<in> snd ` set cs" for nd'
    proof -
      from that wf(2,4,6) hd have "prefix nd' \<noteq> []" "hd (prefix nd') \<noteq> hd key"
        by (force simp: r_wf_list_iff)+
      then show ?thesis using lcp_pos [of key "prefix nd'"] by auto
    qed
    show ?thesis
    proof (cases "?n = length (prefix nd)")
      case full: True
      from 3(1) [OF refl True full wf(3)] have "r_wf (r_insert (drop ?n key) v nd)"
        "\<forall>k. r_lookup k (r_insert (drop ?n key) v nd) = (if k = drop ?n key then Some v else r_lookup k nd)"
        by auto
      with True full wf others show ?thesis by (auto simp: Let_def)
    next
      case False
      with True wf others split_wf [OF refl True False wf(3), of v] show ?thesis
        by (auto simp: Let_def)
    qed
  next
    case False
    moreover from this have "getCommonPrefixLength key (prefix nd) \<noteq> length (prefix nd)" using wf(1) by auto
    ultimately show ?thesis using wf 3(2) [OF refl False wf(4,5) 3(5)] by (auto simp: Let_def)
  qed
qed

section \<open>Properties\<close>

definition trie_inserts :: "(string \<times> 'a) list \<Rightarrow> 'a IRadixNode \<Rightarrow> 'a IRadixNode" where
  "trie_inserts kvs t = fold (\<lambda>(k, v). trie_insert k v) kvs t"

lemma trie_inserts_correct:
  "r_wf t \<Longrightarrow> r_wf (trie_inserts kvs t) \<and>
    (\<forall>k. trie_lookup k (trie_inserts kvs t) =
       (case map_of (rev kvs) k of None \<Rightarrow> trie_lookup k t | Some v \<Rightarrow> Some v))"
proof (induction kvs arbitrary: t)
  case (Cons kv kvs)
  obtain k v where kv: "kv = (k, v)" by force
  from Cons.prems have "r_wf (trie_insert k v t)"
    "\<forall>x. trie_lookup x (trie_insert k v t) = (if x = k then Some v else trie_lookup x t)"
    using r_insert_correct(1) [of t k v] by (auto simp: trie_insert_def trie_lookup_def)
  with Cons.IH [of "trie_insert k v t"] show ?case
    by (auto simp: trie_inserts_def kv map_add_def split: option.split)
qed (simp add: trie_inserts_def)

text \<open>C10: The compressed trie is a map. After any sequence of insertions, whatever prefixes the keys
  share and however nodes were split, \<open>lookup\<close> of a key returns the value inserted last under
  exactly that key and nothing for any other string, and the trie is well formed: sibling edges
  start with different characters and no edge label is empty.\<close>

theorem radix_trie_is_map:
  "trie_lookup k (trie_inserts kvs trie_root) = map_of (rev kvs) k \<and> r_wf (trie_inserts kvs trie_root)"
proof -
  have "r_wf (trie_root :: 'a IRadixNode)" "trie_lookup k (trie_root :: 'a IRadixNode) = None"
    by (simp_all add: trie_root_def trie_lookup_def)
  with trie_inserts_correct [of trie_root kvs] show ?thesis by (auto split: option.split)
qed

end
