(* ===== verification/BPlus_Tree.thy ===== *)
theory BPlus_Tree
  imports Prelude
begin

text \<open>
  The multi-way search index (packages/common/src/trees/BPlusTreeDatabaseIndex.ts). Nodes are
  values here; a split returns the two halves and the separator. The \<open>next\<close> pointer is written
  by splits and read by nothing, so it is left out. An index past the children of an inner node
  makes the code read a property of undefined: that is \<open>None\<close> at the outer level of a result.
\<close>

datatype ('k, 'v) BPlusTreeNode =
  BNode (leaf: bool) (keys: "'k list") (vals: "'v list") (children: "('k, 'v) BPlusTreeNode list")

fun height :: "('k, 'v) BPlusTreeNode \<Rightarrow> nat" where
  "height (BNode lf ks vs cs) = Suc (foldr max (map height cs) 0)"

lemma foldr_max_mem: "x \<in> set xs \<Longrightarrow> f x \<le> foldr max (map f xs) (0 :: nat)"
  by (induction xs) auto

lemma foldr_max_sub: "set ys \<subseteq> set xs \<Longrightarrow> foldr max (map f ys) (0 :: nat) \<le> foldr max (map f xs) 0"
  by (induction ys) (auto simp: foldr_max_mem)

lemma height_child: "i < length cs \<Longrightarrow> height (cs ! i) < height (BNode lf ks vs cs)"
  using foldr_max_mem [of "cs ! i" cs height] by (simp add: less_Suc_eq_le)

text \<open>\<open>search\<close>: \<open>keys.findIndex\<close> in a leaf, and the number of leading keys \<open>\<le> key\<close> in an inner node.\<close>

definition key_index :: "'k \<Rightarrow> 'k list \<Rightarrow> nat" where
  "key_index key ks = length (takeWhile (\<lambda>k. k \<noteq> key) ks)"

definition leaf_search :: "'k \<Rightarrow> 'k list \<Rightarrow> 'v list \<Rightarrow> 'v option" where
  "leaf_search key ks vs =
     (let i = key_index key ks in if i < length ks \<and> i < length vs then Some (vs ! i) else None)"

function bsearch :: "'k :: linorder \<Rightarrow> ('k, 'v) BPlusTreeNode \<Rightarrow> 'v option option" where
  "bsearch key (BNode lf ks vs cs) =
     (if lf then Some (leaf_search key ks vs)
      else let i = length (takeWhile (\<lambda>k. k \<le> key) ks)
           in if i < length cs then bsearch key (cs ! i) else None)"
  by pat_completeness auto
termination
  by (relation "measure (\<lambda>(k, n). height n)") (auto simp del: height.simps intro: height_child)

text \<open>Where the scan \<open>while (i >= 0 && key < keys[i]) i--\<close> stops, plus one.\<close>

definition ins_pos :: "'k :: linorder \<Rightarrow> 'k list \<Rightarrow> nat" where
  "ins_pos key ks = length ks - length (takeWhile (\<lambda>k. key < k) (rev ks))"

definition splice_in :: "nat \<Rightarrow> 'a \<Rightarrow> 'a list \<Rightarrow> 'a list" where
  "splice_in i x xs = take i xs @ x # drop i xs"

definition splitChild ::
  "nat \<Rightarrow> ('k, 'v) BPlusTreeNode \<Rightarrow> 'k \<times> ('k, 'v) BPlusTreeNode \<times> ('k, 'v) BPlusTreeNode" where
  "splitChild t child =
     (keys child ! (t - 1),
      BNode (leaf child) (butlast (take t (keys child)))
        (if leaf child then take (t - 1) (vals child) else vals child)
        (if leaf child then children child else take t (children child)),
      BNode (leaf child) (drop t (keys child))
        (if leaf child then drop (t - 1) (vals child) else [])
        (if leaf child then [] else drop t (children child)))"

definition full :: "nat \<Rightarrow> ('k, 'v) BPlusTreeNode \<Rightarrow> bool" where
  "full t n \<longleftrightarrow> int (length (keys n)) = 2 * int t - 1"

lemma splitChild_height:
  "height (fst (snd (splitChild t c))) \<le> height c" "height (snd (snd (splitChild t c))) \<le> height c"
  by (cases c; auto simp: splitChild_def intro!: foldr_max_sub dest: in_set_takeD in_set_dropD)+

function insertNonFull ::
  "nat \<Rightarrow> ('k :: linorder) \<Rightarrow> 'v \<Rightarrow> ('k, 'v) BPlusTreeNode \<Rightarrow> ('k, 'v) BPlusTreeNode option" where
  "insertNonFull t key v (BNode lf ks vs cs) =
     (let i = ins_pos key ks
      in if lf then Some (BNode lf (splice_in i key ks) (splice_in i v vs) cs)
         else if \<not> i < length cs then None
         else if full t (cs ! i)
         then (let (k, l, r) = splitChild t (cs ! i)
               in if key > k
                  then map_option (\<lambda>r'. BNode lf (splice_in i k ks) vs (take i cs @ l # r' # drop (Suc i) cs))
                         (insertNonFull t key v r)
                  else map_option (\<lambda>l'. BNode lf (splice_in i k ks) vs (take i cs @ l' # r # drop (Suc i) cs))
                         (insertNonFull t key v l))
         else map_option (\<lambda>c'. BNode lf ks vs (cs[i := c'])) (insertNonFull t key v (cs ! i)))"
  by pat_completeness auto
termination
proof (relation "measure (\<lambda>(t, k, v, n). height n)", goal_cases)
  case (2 t key v lf ks vs cs i x k xa l r)
  then show ?case
    using splitChild_height(2) [of t "cs ! i"] height_child [of i cs lf ks vs]
    by (auto simp del: height.simps simp: prod_eq_iff)
next
  case (3 t key v lf ks vs cs i x k xa l r)
  then show ?case
    using splitChild_height(1) [of t "cs ! i"] height_child [of i cs lf ks vs]
    by (auto simp del: height.simps simp: prod_eq_iff)
next
  case (4 t key v lf ks vs cs i)
  then show ?case using height_child [of i cs lf ks vs] by (auto simp del: height.simps)
qed simp

declare insertNonFull.simps [simp del]

definition binsert :: "nat \<Rightarrow> 'k :: linorder \<Rightarrow> 'v \<Rightarrow> ('k, 'v) BPlusTreeNode \<Rightarrow> ('k, 'v) BPlusTreeNode option" where
  "binsert t key v root =
     (if full t root
      then let (k, l, r) = splitChild t root in insertNonFull t key v (BNode False [k] [] [l, r])
      else insertNonFull t key v root)"

definition bempty :: "('k, 'v) BPlusTreeNode" where
  "bempty = BNode True [] [] []"

section \<open>Leaves\<close>

lemma leaf_search_map_of:
  "length ks = length vs \<Longrightarrow> leaf_search key ks vs = map_of (zip ks vs) key"
  by (induction ks vs rule: list_induct2) (auto simp: leaf_search_def key_index_def Let_def)

lemma ins_pos_le: "ins_pos key ks \<le> length ks"
  by (simp add: ins_pos_def)

lemma ins_pos_snoc: "ins_pos key (ks @ [k]) = (if key < k then ins_pos key ks else Suc (length ks))"
  using length_takeWhile_le [of "\<lambda>k. key < k" "rev ks"] by (simp add: ins_pos_def)

lemma ins_pos_sorted:
  "sorted ks \<Longrightarrow> (\<forall>k \<in> set (take (ins_pos key ks) ks). k \<le> key) \<and> (\<forall>k \<in> set (drop (ins_pos key ks) ks). key < k)"
proof (induction ks rule: rev_induct)
  case (snoc k ks)
  then show ?case
    using ins_pos_le [of key ks] by (auto simp: ins_pos_snoc sorted_append)
qed (simp add: ins_pos_def)

lemma splice_sorted: "sorted ks \<Longrightarrow> sorted (splice_in (ins_pos key ks) key ks)"
proof -
  assume s: "sorted ks"
  then have "sorted (take (ins_pos key ks) ks @ drop (ins_pos key ks) ks)" by simp
  with ins_pos_sorted [OF s, of key] show ?thesis
    unfolding splice_in_def sorted_append by (auto simp del: append_take_drop_id intro: less_imp_le)
qed

lemma leaf_insert_search:
  assumes "sorted ks" and "length ks = length vs"
  shows "leaf_search x (splice_in (ins_pos key ks) key ks) (splice_in (ins_pos key ks) v vs) =
    (case leaf_search x ks vs of Some w \<Rightarrow> Some w | None \<Rightarrow> if x = key then Some v else None)"
proof -
  let ?p = "ins_pos key ks"
  have p: "?p \<le> length vs" using ins_pos_le [of key ks] assms(2) by simp
  have z: "zip (splice_in ?p key ks) (splice_in ?p v vs) =
      take ?p (zip ks vs) @ (key, v) # drop ?p (zip ks vs)"
    using p assms(2) by (simp add: splice_in_def zip_append take_zip drop_zip)
  have len: "length (splice_in ?p key ks) = length (splice_in ?p v vs)"
    using p assms(2) by (simp add: splice_in_def)
  have tail: "map_of (drop ?p (zip ks vs)) key = None"
    using ins_pos_sorted [OF assms(1), of key] by (force simp: drop_zip map_of_eq_None_iff dest!: set_zip_leftD)
  have whole: "map_of (zip ks vs) = map_of (drop ?p (zip ks vs)) ++ map_of (take ?p (zip ks vs))"
    by (metis append_take_drop_id map_of_append)
  show ?thesis
    unfolding leaf_search_map_of [OF len] leaf_search_map_of [OF assms(2)] z
    using tail by (auto simp: whole map_add_def split: option.split)
qed

fun binserts :: "nat \<Rightarrow> ('k :: linorder \<times> 'v) list \<Rightarrow> ('k, 'v) BPlusTreeNode \<Rightarrow> ('k, 'v) BPlusTreeNode option" where
  "binserts t [] n = Some n"
| "binserts t ((k, v) # kvs) n = Option.bind (binsert t k v n) (binserts t kvs)"

lemma leaf_phase:
  assumes "sorted ks" and "length ks = length vs" and "length ks + length kvs \<le> 2 * t - 1"
  shows "\<exists>ks' vs'. binserts t kvs (BNode True ks vs []) = Some (BNode True ks' vs' []) \<and> sorted ks' \<and>
    length ks' = length vs' \<and> length ks' = length ks + length kvs \<and>
    (\<forall>x. leaf_search x ks' vs' = (case leaf_search x ks vs of Some w \<Rightarrow> Some w | None \<Rightarrow> map_of kvs x))"
  using assms
proof (induction kvs arbitrary: ks vs)
  case Nil
  then show ?case by (auto split: option.split)
next
  case (Cons kv kvs)
  obtain k v where kv: "kv = (k, v)" by force
  let ?ks = "splice_in (ins_pos k ks) k ks" and ?vs = "splice_in (ins_pos k ks) v vs"
  have p: "ins_pos k ks \<le> length ks" by (rule ins_pos_le)
  have notfull: "\<not> full t (BNode True ks vs [])" using Cons.prems(3) by (simp add: full_def)
  then have step: "binsert t k v (BNode True ks vs []) = Some (BNode True ?ks ?vs [])"
    by (simp add: binsert_def insertNonFull.simps Let_def)
  have "length ?ks = Suc (length ks)" "length ?vs = Suc (length vs)"
    using p Cons.prems(2) by (simp_all add: splice_in_def)
  with Cons.IH [OF splice_sorted [OF Cons.prems(1), of k], of ?vs] Cons.prems
  obtain ks' vs' where "binserts t kvs (BNode True ?ks ?vs []) = Some (BNode True ks' vs' [])" "sorted ks'"
    "length ks' = length vs'" "length ks' = Suc (length ks) + length kvs"
    "\<forall>x. leaf_search x ks' vs' = (case leaf_search x ?ks ?vs of Some w \<Rightarrow> Some w | None \<Rightarrow> map_of kvs x)"
    by auto
  with step leaf_insert_search [OF Cons.prems(1,2), of _ k v] show ?case
    by (auto simp: kv split: option.split)
qed

lemma key_index_nth: "distinct ks \<Longrightarrow> i < length ks \<Longrightarrow> key_index (ks ! i) ks = i"
proof (induction ks arbitrary: i)
  case (Cons k ks)
  then show ?case by (cases i) (auto simp: key_index_def)
qed simp

lemma key_index_absent:
  assumes "key \<notin> set ks"
  shows "key_index key ks = length ks"
proof -
  from assms have "takeWhile (\<lambda>k. k \<noteq> key) ks = ks" unfolding takeWhile_eq_all_conv by blast
  then show ?thesis unfolding key_index_def by (rule arg_cong)
qed

section \<open>Properties\<close>

text \<open>Until the root leaf is first split, that is for at most \<open>2 * order - 1\<close> insertions, the index is
  a first-wins map: every insertion succeeds, \<open>search\<close> returns the value of the first insertion
  of the key and null for any other key, so inserting a key again does not overwrite it.\<close>

theorem bplus_leaf_is_map:
  assumes "length kvs \<le> 2 * t - 1"
  shows "\<exists>n. binserts t kvs bempty = Some n \<and> (\<forall>k. bsearch k n = Some (map_of kvs k))"
proof -
  from assms leaf_phase [of "[]" "[]" kvs t] obtain ks vs where
    "binserts t kvs bempty = Some (BNode True ks vs [])"
    "\<forall>x. leaf_search x ks vs = (case leaf_search x [] [] of Some w \<Rightarrow> Some w | None \<Rightarrow> map_of kvs x)"
    by (auto simp: bempty_def)
  then show ?thesis by (simp add: leaf_search_def)
qed

theorem bplus_leaf_is_map_witness:
  "\<exists>n. binserts 2 [(5 :: int, ''a''), (3, ''b''), (5, ''c'')] bempty = Some n \<and> bsearch 5 n = Some (Some ''a'')"
  using bplus_leaf_is_map [of "[(5 :: int, ''a''), (3, ''b''), (5, ''c'')]" 2] by auto

text \<open>C14: Splitting a full leaf corrupts the index. The new right leaf takes its keys from position
  \<open>order\<close> but its values from position \<open>order - 1\<close>, and the separator is kept in no leaf: after the
  split, keys below the median are found, the median is lost, and every key above it yields the
  value of its left neighbour. Already with order 2, inserting 1, 2, 3, 4 makes \<open>search(2)\<close> null and
  \<open>search(3)\<close> the value stored for 2.\<close>

theorem bplus_split_corrupts:
  assumes "0 < t" and "sorted ks" and "distinct ks" and "length ks = 2 * t - 1" and "length vs = 2 * t - 1"
    and "splitChild t (BNode True ks vs []) = (k, l, r)" and "i < 2 * t - 1"
  shows "bsearch (ks ! i) (BNode False [k] [] [l, r]) =
      Some (if i < t - 1 then Some (vs ! i) else if i = t - 1 then None else Some (vs ! (i - 1))) \<and>
    map_option (\<lambda>n. map (\<lambda>x. bsearch x n) [1, 2, 3, 4])
        (binserts 2 [(1 :: int, ''v1''), (2, ''v2''), (3, ''v3''), (4, ''v4'')] bempty) =
      Some [Some (Some ''v1''), Some None, Some (Some ''v2''), Some (Some ''v4'')]"
proof -
  have k: "k = ks ! (t - 1)" and l: "l = BNode True (take (t - 1) ks) (take (t - 1) vs) []"
    and r: "r = BNode True (drop t ks) (drop (t - 1) vs) []"
    using assms(1,4,6) by (auto simp: splitChild_def butlast_take)
  have less: "a < b \<Longrightarrow> b < 2 * t - 1 \<Longrightarrow> ks ! a < ks ! b" for a b
    using assms(2-4) by (metis sorted_wrt_nth_less strict_sorted_iff)
  have le: "ks ! (t - 1) \<le> ks ! i \<longleftrightarrow> t - 1 \<le> i"
  proof (cases i "t - 1" rule: linorder_cases)
    case less': less
    moreover have "t - 1 < 2 * t - 1" using assms(1) by simp
    ultimately have "ks ! i < ks ! (t - 1)" by (rule less)
    with less' show ?thesis by (simp add: leD)
  next
    case greater
    with less [of "t - 1" i] assms(7) show ?thesis by simp
  qed simp
  consider "i < t - 1" | "i = t - 1" | "t \<le> i" using assms(1) by linarith
  then have "bsearch (ks ! i) (BNode False [k] [] [l, r]) =
      Some (if i < t - 1 then Some (vs ! i) else if i = t - 1 then None else Some (vs ! (i - 1)))"
  proof cases
    case 1
    have "key_index (ks ! i) (take (t - 1) ks) = i"
      using key_index_nth [of "take (t - 1) ks" i] 1 assms(3,4) by simp
    with 1 le assms(4,5) show ?thesis by (simp add: k l leaf_search_def Let_def)
  next
    case 2
    have "ks ! i \<notin> set (drop t ks)"
    proof
      assume "ks ! i \<in> set (drop t ks)"
      then obtain j where "j < length ks - t" "ks ! i = ks ! (t + j)"
        using assms(4) by (auto simp: in_set_conv_nth)
      moreover have "t - 1 < t + j" "t + j < 2 * t - 1" using \<open>j < length ks - t\<close> assms(1,4) by linarith+
      ultimately show False using less [of "t - 1" "t + j"] 2 by simp
    qed
    with 2 le show ?thesis by (simp add: k r leaf_search_def Let_def key_index_absent)
  next
    case 3
    have "key_index (ks ! i) (drop t ks) = i - t"
      using key_index_nth [of "drop t ks" "i - t"] 3 assms(3,4,7) by simp
    moreover have "drop (t - 1) vs ! (i - t) = vs ! (i - 1)"
    proof -
      have "t - 1 + (i - t) = i - 1" using 3 assms(1) by simp
      with assms(5) show ?thesis by (simp add: nth_drop)
    qed
    moreover have "i - t < length (drop t ks)" "i - t < length (drop (t - 1) vs)"
      using 3 assms(1,4,5,7) by auto
    ultimately have "leaf_search (ks ! i) (drop t ks) (drop (t - 1) vs) = Some (vs ! (i - 1))"
      by (simp only: leaf_search_def Let_def simp_thms if_True)
    moreover have "t - 1 \<le> i" "\<not> i < t - 1" "i \<noteq> t - 1" using 3 assms(1) by auto
    ultimately show ?thesis using le by (simp add: k r)
  qed
  moreover have "map_option (\<lambda>n. map (\<lambda>x. bsearch x n) [1, 2, 3, 4])
        (binserts 2 [(1 :: int, ''v1''), (2, ''v2''), (3, ''v3''), (4, ''v4'')] bempty) =
      Some [Some (Some ''v1''), Some None, Some (Some ''v2''), Some (Some ''v4'')]"
    by code_simp
  ultimately show ?thesis by blast
qed

theorem bplus_split_corrupts_witness:
  "bsearch (30 :: int) (BNode False [20] [] [BNode True [10] [''a''] [], BNode True [30] [''b'', ''c''] []]) =
     Some (Some ''b'')"
proof -
  have "splitChild 2 (BNode True [10 :: int, 20, 30] [''a'', ''b'', ''c''] []) =
      (20, BNode True [10] [''a''] [], BNode True [30] [''b'', ''c''] [])"
    by (simp add: splitChild_def)
  from bplus_split_corrupts [OF _ _ _ _ _ this, of 2] show ?thesis by simp
qed

end
