(* ===== verification/Circuit_Breaker.thy ===== *)
theory Circuit_Breaker
  imports Prelude Double
begin

text \<open>
  The two circuit breakers of the gateway: services/circuitBreaker.ts, which counts consecutive
  failures, and circuit/AdaptiveCircuitBreakerEngine.ts, which looks at the share of failures.
  The first refines an abstract automaton of three states; the second's floating-point
  percentage is shown to be the exact comparison.
\<close>

section \<open>The breaker on consecutive failures\<close>

datatype CircuitState = CB_CLOSED | CB_OPEN | CB_HALF_OPEN

record CircuitBreaker =
  cb_state :: CircuitState
  cb_failureCount :: nat
  cb_lastFailureTime :: instant
  cb_successCount :: nat

record breaker_config =
  failureThreshold :: nat
  recoveryTimeoutMs :: int
  halfOpenSuccessThreshold :: nat

definition breaker_defaults :: breaker_config where
  "breaker_defaults = \<lparr> failureThreshold = 5, recoveryTimeoutMs = 30000, halfOpenSuccessThreshold = 3 \<rparr>"

definition breaker_new :: CircuitBreaker where
  "breaker_new = \<lparr> cb_state = CB_CLOSED, cb_failureCount = 0, cb_lastFailureTime = 0, cb_successCount = 0 \<rparr>"

definition canPass :: "breaker_config \<Rightarrow> instant \<Rightarrow> CircuitBreaker \<Rightarrow> CircuitBreaker \<times> bool" where
  "canPass cfg now b =
     (if cb_state b = CB_OPEN
      then if now - cb_lastFailureTime b > recoveryTimeoutMs cfg
           then (b\<lparr> cb_state := CB_HALF_OPEN, cb_successCount := 0 \<rparr>, True)
           else (b, False)
      else (b, True))"

definition recordSuccess :: "breaker_config \<Rightarrow> CircuitBreaker \<Rightarrow> CircuitBreaker" where
  "recordSuccess cfg b =
     (if cb_state b = CB_HALF_OPEN
      then let b' = b\<lparr> cb_successCount := cb_successCount b + 1 \<rparr>
           in if halfOpenSuccessThreshold cfg \<le> cb_successCount b'
              then b'\<lparr> cb_state := CB_CLOSED, cb_failureCount := 0 \<rparr> else b'
      else b\<lparr> cb_failureCount := 0 \<rparr>)"

definition recordFailure :: "breaker_config \<Rightarrow> instant \<Rightarrow> CircuitBreaker \<Rightarrow> CircuitBreaker" where
  "recordFailure cfg now b =
     (let b' = b\<lparr> cb_failureCount := cb_failureCount b + 1, cb_lastFailureTime := now \<rparr>
      in if cb_state b' = CB_HALF_OPEN \<or> failureThreshold cfg \<le> cb_failureCount b'
         then b'\<lparr> cb_state := CB_OPEN \<rparr> else b')"

text \<open>What the outside sees: calls in any order, each with its clock reading.\<close>

datatype breaker_call = Ask instant | Succeeded | Failed instant

fun breaker_step :: "breaker_config \<Rightarrow> breaker_call \<Rightarrow> CircuitBreaker \<Rightarrow> CircuitBreaker \<times> bool option" where
  "breaker_step cfg (Ask now) b = map_prod id Some (canPass cfg now b)"
| "breaker_step cfg Succeeded b = (recordSuccess cfg b, None)"
| "breaker_step cfg (Failed now) b = (recordFailure cfg now b, None)"

fun breaker_run :: "breaker_config \<Rightarrow> breaker_call list \<Rightarrow> CircuitBreaker \<Rightarrow> CircuitBreaker \<times> bool list" where
  "breaker_run cfg [] b = (b, [])"
| "breaker_run cfg (c # cs) b =
     (let (b1, o1) = breaker_step cfg c b; (b2, os) = breaker_run cfg cs b1
      in (b2, (case o1 of None \<Rightarrow> os | Some x \<Rightarrow> x # os)))"

section \<open>Its abstract automaton\<close>

text \<open>
  Closed with the failures since the last success, open since the last failure, or half open
  with the successful probes so far. \<open>spec_step\<close> is the contract.
\<close>

datatype breaker_spec = Closed nat | Open instant | HalfOpen nat

fun spec_step :: "breaker_config \<Rightarrow> breaker_call \<Rightarrow> breaker_spec \<Rightarrow> breaker_spec \<times> bool option" where
  "spec_step cfg (Ask now) (Open t) =
     (if now - t > recoveryTimeoutMs cfg then (HalfOpen 0, Some True) else (Open t, Some False))"
| "spec_step cfg (Ask now) s = (s, Some True)"
| "spec_step cfg Succeeded (Closed n) = (Closed 0, None)"
| "spec_step cfg Succeeded (Open t) = (Open t, None)"
| "spec_step cfg Succeeded (HalfOpen k) =
     (if halfOpenSuccessThreshold cfg \<le> Suc k then Closed 0 else HalfOpen (Suc k), None)"
| "spec_step cfg (Failed now) (Closed n) =
     (if failureThreshold cfg \<le> Suc n then Open now else Closed (Suc n), None)"
| "spec_step cfg (Failed now) s = (Open now, None)"

fun spec_run :: "breaker_config \<Rightarrow> breaker_call list \<Rightarrow> breaker_spec \<Rightarrow> breaker_spec \<times> bool list" where
  "spec_run cfg [] s = (s, [])"
| "spec_run cfg (c # cs) s =
     (let (s1, o1) = spec_step cfg c s; (s2, os) = spec_run cfg cs s1
      in (s2, (case o1 of None \<Rightarrow> os | Some x \<Rightarrow> x # os)))"

definition breaker_abs :: "CircuitBreaker \<Rightarrow> breaker_spec" where
  "breaker_abs b =
     (case cb_state b of CB_CLOSED \<Rightarrow> Closed (cb_failureCount b) | CB_OPEN \<Rightarrow> Open (cb_lastFailureTime b)
      | CB_HALF_OPEN \<Rightarrow> HalfOpen (cb_successCount b))"

lemma breaker_step_refines:
  "spec_step cfg c (breaker_abs b) = map_prod breaker_abs id (breaker_step cfg c b)"
  by (cases c; cases "cb_state b")
    (auto simp: breaker_abs_def canPass_def recordSuccess_def recordFailure_def Let_def)

lemma breaker_run_refines:
  "spec_run cfg cs (breaker_abs b) = map_prod breaker_abs id (breaker_run cfg cs b)"
proof (induction cs arbitrary: b)
  case (Cons c cs)
  obtain b1 o1 where "breaker_step cfg c b = (b1, o1)" by force
  moreover from this breaker_step_refines [of cfg c b] have "spec_step cfg c (breaker_abs b) = (breaker_abs b1, o1)"
    by simp
  moreover obtain b2 os where "breaker_run cfg cs b1 = (b2, os)" by force
  ultimately show ?case using Cons.IH [of b1] by simp
qed simp

fun call_time :: "breaker_call \<Rightarrow> instant option" where
  "call_time (Ask t) = Some t"
| "call_time (Failed t) = Some t"
| "call_time Succeeded = None"

text \<open>Open circuits stay shut until the timeout has passed since the last failure.\<close>

lemma open_refuses:
  assumes "\<forall>c \<in> set cs. \<forall>u. call_time c = Some u \<longrightarrow> t0 \<le> u \<and> u \<le> t0 + recoveryTimeoutMs cfg" and "t0 \<le> t"
  shows "(\<exists>t'. t0 \<le> t' \<and> fst (spec_run cfg cs (Open t)) = Open t') \<and>
    True \<notin> set (snd (spec_run cfg cs (Open t)))"
  using assms
proof (induction cs arbitrary: t)
  case (Cons c cs)
  have prems: "\<forall>c \<in> set cs. \<forall>u. call_time c = Some u \<longrightarrow> t0 \<le> u \<and> u \<le> t0 + recoveryTimeoutMs cfg"
    using Cons.prems by simp
  show ?case
  proof (cases c)
    case (Ask u)
    with Cons.prems have "\<not> u - t > recoveryTimeoutMs cfg" by auto
    with Ask Cons.IH [OF prems Cons.prems(2)] show ?thesis by (auto simp: case_prod_beta)
  next
    case Succeeded
    with Cons.IH [OF prems Cons.prems(2)] show ?thesis by (auto simp: case_prod_beta)
  next
    case (Failed u)
    with Cons.prems have "t0 \<le> u" by simp
    from Cons.IH [OF prems this] Failed show ?thesis by (auto simp: case_prod_beta)
  qed
qed simp

text \<open>The longest run of failures without a success between them, given \<open>n\<close> before.\<close>

fun worst_streak :: "nat \<Rightarrow> breaker_call list \<Rightarrow> nat" where
  "worst_streak n [] = n"
| "worst_streak n (Ask t # cs) = worst_streak n cs"
| "worst_streak n (Succeeded # cs) = max n (worst_streak 0 cs)"
| "worst_streak n (Failed t # cs) = worst_streak (Suc n) cs"

lemma worst_streak_ge: "n \<le> worst_streak n cs"
  by (induction n cs rule: worst_streak.induct) auto

lemma closed_stays:
  "worst_streak n cs < failureThreshold cfg \<Longrightarrow>
    (\<exists>k. fst (spec_run cfg cs (Closed n)) = Closed k) \<and> False \<notin> set (snd (spec_run cfg cs (Closed n)))"
proof (induction n cs rule: worst_streak.induct)
  case (4 n t cs)
  have "Suc n < failureThreshold cfg" using worst_streak_ge [of "Suc n" cs] 4 by simp
  with 4 show ?case by (auto simp: case_prod_beta)
qed (auto simp: case_prod_beta)

lemma closed_trips:
  assumes "n < failureThreshold cfg" and "\<forall>c \<in> set cs. c \<noteq> Succeeded" and "failureThreshold cfg \<le> worst_streak n cs"
  shows "\<exists>as t bs. cs = as @ Failed t # bs \<and> fst (spec_run cfg (as @ [Failed t]) (Closed n)) = Open t"
  using assms
proof (induction n cs rule: worst_streak.induct)
  case (2 n t cs)
  then obtain as u bs where "cs = as @ Failed u # bs" "fst (spec_run cfg (as @ [Failed u]) (Closed n)) = Open u"
    by auto
  then have "Ask t # cs = (Ask t # as) @ Failed u # bs \<and> fst (spec_run cfg ((Ask t # as) @ [Failed u]) (Closed n)) = Open u"
    by (simp add: case_prod_beta)
  then show ?case by blast
next
  case (4 n t cs)
  show ?case
  proof (cases "failureThreshold cfg \<le> Suc n")
    case True
    then have "Failed t # cs = [] @ Failed t # cs \<and> fst (spec_run cfg ([] @ [Failed t]) (Closed n)) = Open t"
      by simp
    then show ?thesis by blast
  next
    case False
    with 4 obtain as u bs where "cs = as @ Failed u # bs" "fst (spec_run cfg (as @ [Failed u]) (Closed (Suc n))) = Open u"
      by auto
    with False have "Failed t # cs = (Failed t # as) @ Failed u # bs \<and>
        fst (spec_run cfg ((Failed t # as) @ [Failed u]) (Closed n)) = Open u"
      by (simp add: case_prod_beta)
    then show ?thesis by blast
  qed
qed simp_all

lemma half_open_recovers:
  "k + n = halfOpenSuccessThreshold cfg \<Longrightarrow> 0 < n \<Longrightarrow>
    spec_run cfg (replicate n Succeeded) (HalfOpen k) = (Closed 0, [])"
proof (induction n arbitrary: k)
  case (Suc n)
  show ?case
  proof (cases n)
    case (Suc m)
    with Suc.prems Suc.IH [of "Suc k"] show ?thesis by simp
  qed (use Suc.prems in simp)
qed simp

lemma spec_run_append:
  "spec_run cfg (cs @ ds) s =
     (let (s1, o1) = spec_run cfg cs s; (s2, o2) = spec_run cfg ds s1 in (s2, o1 @ o2))"
  by (induction cs arbitrary: s) (auto simp: case_prod_beta Let_def split: option.splits)

text \<open>C34: The circuit breaker implements its three-state automaton: every run of calls gives the
  answers of the automaton, from any state. From this: a closed circuit stays closed and passes
  every request as long as fewer than \<open>failureThreshold\<close> failures come without a success between
  them, and trips at the failure that reaches the threshold; an open circuit passes nothing until
  more than \<open>recoveryTimeoutMs\<close> milliseconds after the last failure, then lets a probe pass; and
  \<open>halfOpenSuccessThreshold\<close> successes in a row close it, while any failure of a half-open circuit
  opens it again.\<close>

theorem breaker_refines_automaton:
  assumes "0 < halfOpenSuccessThreshold cfg" and "0 < failureThreshold cfg"
  shows "spec_run cfg cs (breaker_abs b) = map_prod breaker_abs id (breaker_run cfg cs b) \<and>
    (worst_streak 0 cs < failureThreshold cfg \<longrightarrow> False \<notin> set (snd (breaker_run cfg cs breaker_new))) \<and>
    (Succeeded \<notin> set cs \<and> failureThreshold cfg \<le> worst_streak 0 cs \<longrightarrow>
      (\<exists>as t bs. cs = as @ Failed t # bs \<and> breaker_abs (fst (breaker_run cfg (as @ [Failed t]) breaker_new)) = Open t)) \<and>
    (\<forall>t. breaker_abs b = Open t \<longrightarrow>
      ((\<forall>c \<in> set cs. \<forall>u. call_time c = Some u \<longrightarrow> t \<le> u \<and> u \<le> t + recoveryTimeoutMs cfg) \<longrightarrow>
        True \<notin> set (snd (breaker_run cfg cs b))) \<and>
      (\<forall>u. t + recoveryTimeoutMs cfg < u \<longrightarrow>
        map_prod breaker_abs id
          (breaker_run cfg (Ask u # replicate (halfOpenSuccessThreshold cfg) Succeeded) b) = (Closed 0, [True]))) \<and>
    (\<forall>k u. breaker_abs b = HalfOpen k \<longrightarrow> breaker_abs (recordFailure cfg u b) = Open u)"
proof (intro conjI impI allI)
  note ref = breaker_run_refines [of cfg _ b] and new = breaker_run_refines [of cfg _ breaker_new]
  have abs_new: "breaker_abs breaker_new = Closed 0" by (simp add: breaker_abs_def breaker_new_def)
  show "spec_run cfg cs (breaker_abs b) = map_prod breaker_abs id (breaker_run cfg cs b)" by (rule ref)
  show "False \<notin> set (snd (breaker_run cfg cs breaker_new))" if "worst_streak 0 cs < failureThreshold cfg"
    using closed_stays [OF that] new [of cs] by (simp add: abs_new)
  show "\<exists>as t bs. cs = as @ Failed t # bs \<and> breaker_abs (fst (breaker_run cfg (as @ [Failed t]) breaker_new)) = Open t"
    if "Succeeded \<notin> set cs \<and> failureThreshold cfg \<le> worst_streak 0 cs"
  proof -
    from that have "\<forall>c \<in> set cs. c \<noteq> Succeeded" by auto
    from closed_trips [OF assms(2) this] that new show ?thesis by (fastforce simp: abs_new)
  qed
  show "True \<notin> set (snd (breaker_run cfg cs b))" if "breaker_abs b = Open t"
    "\<forall>c \<in> set cs. \<forall>u. call_time c = Some u \<longrightarrow> t \<le> u \<and> u \<le> t + recoveryTimeoutMs cfg" for t
    using open_refuses [OF that(2) order_refl] ref [of cs] that(1) by simp
  show "map_prod breaker_abs id (breaker_run cfg (Ask u # replicate (halfOpenSuccessThreshold cfg) Succeeded) b) =
      (Closed 0, [True])" if "breaker_abs b = Open t" "t + recoveryTimeoutMs cfg < u" for t u
    unfolding ref [symmetric] using that half_open_recovers [of 0 "halfOpenSuccessThreshold cfg" cfg] assms by simp
  show "breaker_abs (recordFailure cfg u b) = Open u" if "breaker_abs b = HalfOpen k" for k u
    using that by (auto simp: breaker_abs_def recordFailure_def Let_def split: CircuitState.splits)
qed

definition demo_calls :: "breaker_call list" where
  "demo_calls = [Failed 1, Failed 2, Succeeded, Failed 3, Failed 4, Failed 5, Failed 6, Ask 6, Failed 7, Ask 8,
     Ask 30007, Ask 30008, Succeeded, Succeeded, Succeeded, Ask 30010]"

theorem breaker_refines_automaton_witness:
  "map_prod breaker_abs id (breaker_run breaker_defaults demo_calls breaker_new) =
     (Closed 0, [True, False, False, True, True])"
proof -
  have "spec_run breaker_defaults demo_calls (breaker_abs breaker_new) = (Closed 0, [True, False, False, True, True])"
    by code_simp
  then show ?thesis
    using breaker_refines_automaton [of breaker_defaults demo_calls breaker_new] by (simp add: breaker_defaults_def)
qed

section \<open>The adaptive breaker\<close>

record ICircuitState =
  ac_state :: CircuitState
  ac_failureCount :: nat
  ac_successCount :: nat
  ac_lastStateChange :: instant
  ac_nextAttempt :: instant

type_synonym AdaptiveEngine = "(string, ICircuitState) jsmap"

definition circuit_new :: "instant \<Rightarrow> ICircuitState" where
  "circuit_new now = \<lparr> ac_state = CB_CLOSED, ac_failureCount = 0, ac_successCount = 0,
     ac_lastStateChange = now, ac_nextAttempt = 0 \<rparr>"

definition getCircuit :: "instant \<Rightarrow> string \<Rightarrow> AdaptiveEngine \<Rightarrow> AdaptiveEngine \<times> ICircuitState" where
  "getCircuit now s m =
     (case jm_get m s of
        Some c \<Rightarrow> (m, c)
      | None \<Rightarrow> (jm_set s (circuit_new now) m, circuit_new now))"

definition failure_pct :: "nat \<Rightarrow> nat \<Rightarrow> rat" where
  "failure_pct f tot = dmul (ddiv (of_nat f) (of_nat tot)) 100"

definition record_result :: "instant \<Rightarrow> bool \<Rightarrow> ICircuitState \<Rightarrow> ICircuitState" where
  "record_result now ok c =
     (if ok
      then let c' = c\<lparr> ac_successCount := ac_successCount c + 1 \<rparr>
           in if ac_state c' = CB_HALF_OPEN \<and> 5 \<le> ac_successCount c'
              then c'\<lparr> ac_state := CB_CLOSED, ac_failureCount := 0, ac_successCount := 0, ac_lastStateChange := now \<rparr>
              else c'
      else let c' = c\<lparr> ac_failureCount := ac_failureCount c + 1 \<rparr>;
               tot = ac_successCount c' + ac_failureCount c'
           in if 20 \<le> tot \<and> 50 \<le> failure_pct (ac_failureCount c') tot
              then c'\<lparr> ac_state := CB_OPEN, ac_lastStateChange := now, ac_nextAttempt := now + 15000 \<rparr>
              else c')"

definition recordResult :: "instant \<Rightarrow> string \<Rightarrow> bool \<Rightarrow> AdaptiveEngine \<Rightarrow> AdaptiveEngine" where
  "recordResult now s ok m = (let (m', c) = getCircuit now s m in jm_set s (record_result now ok c) m')"

definition allow_request :: "instant \<Rightarrow> ICircuitState \<Rightarrow> ICircuitState \<times> bool" where
  "allow_request now c =
     (if ac_state c = CB_CLOSED then (c, True)
      else if ac_state c = CB_OPEN
      then if ac_nextAttempt c \<le> now
           then (c\<lparr> ac_state := CB_HALF_OPEN, ac_lastStateChange := now, ac_successCount := 0 \<rparr>, True)
           else (c, False)
      else (c, True))"

definition allowRequest :: "instant \<Rightarrow> string \<Rightarrow> AdaptiveEngine \<Rightarrow> AdaptiveEngine \<times> bool" where
  "allowRequest now s m =
     (let (m', c) = getCircuit now s m; (c', r) = allow_request now c in (jm_set s c' m', r))"

text \<open>The percentage is a rounded quotient times a hundred, rounded: at 50 it decides exactly.\<close>

lemma failure_pct_exact:
  assumes "0 < tot" and "f \<le> tot" and "tot \<le> 2 ^ 40"
  shows "50 \<le> failure_pct f tot \<longleftrightarrow> tot \<le> 2 * f"
proof
  assume "tot \<le> 2 * f"
  then have "(of_nat tot :: rat) \<le> of_nat (2 * f)" by (simp only: of_nat_le_iff)
  with assms(1) have "(1 :: rat) / 2 \<le> of_nat f / of_nat tot" by (simp add: field_simps)
  from fl_mono [OF this] have "fl (1 / 2) \<le> ddiv (of_nat f) (of_nat tot)" by (simp add: ddiv_def)
  moreover have "fl (1 / 2) = 1 / 2" by code_simp
  ultimately have "50 \<le> ddiv (of_nat f) (of_nat tot) * 100" by simp
  from fl_mono [OF this] have "fl 50 \<le> failure_pct f tot" by (simp add: failure_pct_def dmul_def)
  moreover have "fl 50 = 50" using fl_int [of 50] by simp
  ultimately show "50 \<le> failure_pct f tot" by simp
next
  assume ge: "50 \<le> failure_pct f tot"
  show "tot \<le> 2 * f"
  proof (rule ccontr)
    assume "\<not> tot \<le> 2 * f"
    then have "2 * f + 1 \<le> tot" by simp
    then have "(of_nat (2 * f + 1) :: rat) \<le> of_nat tot" by (simp only: of_nat_le_iff)
    then have q: "of_nat f / of_nat tot \<le> 1 / 2 - 1 / (2 * of_nat tot :: rat)"
      using assms(1) by (simp add: field_simps)
    have "(of_nat tot :: rat) \<le> of_nat (2 ^ 40)" using assms(3) by (simp only: of_nat_le_iff)
    then have "(1 :: rat) / 2 ^ 41 \<le> 1 / (2 * of_nat tot)" using assms(1) by (simp add: field_simps)
    with q have "of_nat f / of_nat tot \<le> (1 / 2 - 1 / 2 ^ 41 :: rat)" by linarith
    from fl_mono [OF this] have "ddiv (of_nat f) (of_nat tot) \<le> fl (1 / 2 - 1 / 2 ^ 41)" by (simp add: ddiv_def)
    also have "fl (1 / 2 - 1 / 2 ^ 41) = 1 / 2 - 1 / 2 ^ 41" by code_simp
    finally have "ddiv (of_nat f) (of_nat tot) * 100 \<le> (1 / 2 - 1 / 2 ^ 41) * 100" by simp
    from fl_mono [OF this] have "failure_pct f tot \<le> fl ((1 / 2 - 1 / 2 ^ 41) * 100)" by (simp add: failure_pct_def dmul_def)
    also have "fl ((1 / 2 - 1 / 2 ^ 41) * 100) < 50" by code_simp
    finally show False using ge by simp
  qed
qed

definition circuit_of :: "instant \<Rightarrow> AdaptiveEngine \<Rightarrow> string \<Rightarrow> ICircuitState" where
  "circuit_of now m s = snd (getCircuit now s m)"

lemma circuit_of_engine:
  "circuit_of now (recordResult now s ok m) s' =
     (if s' = s then record_result now ok (circuit_of now m s) else circuit_of now m s')"
  "circuit_of now (fst (allowRequest now s m)) s' =
     (if s' = s then fst (allow_request now (circuit_of now m s)) else circuit_of now m s')"
  "snd (allowRequest now s m) = snd (allow_request now (circuit_of now m s))"
  by (auto simp: circuit_of_def recordResult_def allowRequest_def getCircuit_def case_prod_beta split: option.splits)

text \<open>When the adaptive breaker trips, exactly, although it compares a rounded percentage: a
  failed call opens the service's circuit if and only if at least twenty results were counted and
  at least half of them are failures; a successful one never opens it. An open circuit refuses
  for fifteen seconds and then lets requests pass, half open, and the fifth success from there
  closes it with its counters reset. Calls about one service never touch another's circuit.\<close>

theorem adaptive_breaker_trips:
  assumes "ac_failureCount (circuit_of now m s) + ac_successCount (circuit_of now m s) < 2 ^ 40"
  shows "let c = circuit_of now m s; f = ac_failureCount c + 1; n = ac_successCount c + f;
      c' = circuit_of now (recordResult now s False m) s in
    (20 \<le> n \<and> n \<le> 2 * f \<longrightarrow> ac_state c' = CB_OPEN \<and>
       (\<forall>t. snd (allow_request t c') = (now + 15000 \<le> t)) \<and>
       (\<forall>t. now + 15000 \<le> t \<longrightarrow> ac_state (fst (allow_request t c')) = CB_HALF_OPEN)) \<and>
    (\<not> (20 \<le> n \<and> n \<le> 2 * f) \<longrightarrow> ac_state c' = ac_state c \<and> ac_nextAttempt c' = ac_nextAttempt c) \<and>
    (ac_state (circuit_of now (recordResult now s True m) s) =
       (if ac_state c = CB_HALF_OPEN \<and> 4 \<le> ac_successCount c then CB_CLOSED else ac_state c)) \<and>
    (\<forall>s' ok. s' \<noteq> s \<longrightarrow> circuit_of now (recordResult now s ok m) s' = circuit_of now m s' \<and>
       circuit_of now (fst (allowRequest now s m)) s' = circuit_of now m s')"
proof -
  let ?c = "circuit_of now m s"
  let ?f = "ac_failureCount ?c + 1"
  let ?n = "ac_successCount ?c + ?f"
  have "50 \<le> failure_pct ?f ?n \<longleftrightarrow> ?n \<le> 2 * ?f"
    using assms by (intro failure_pct_exact) auto
  then show ?thesis
    by (auto simp: Let_def circuit_of_engine record_result_def allow_request_def)
qed

fun adaptive_run :: "(instant \<times> bool) list \<Rightarrow> AdaptiveEngine \<Rightarrow> AdaptiveEngine" where
  "adaptive_run [] m = m"
| "adaptive_run ((now, ok) # rs) m = adaptive_run rs (recordResult now ''svc'' ok m)"

definition demo_tripped :: AdaptiveEngine where
  "demo_tripped = adaptive_run (replicate 10 (1, True) @ replicate 10 (2, False)) []"

text \<open>
  Ten failures in twenty results trip the breaker. Its half-open state then keeps the old failures
  but only the new successes: a failed probe makes eleven results, too few to open it again, so
  requests keep passing.
\<close>

theorem adaptive_breaker_trips_witness:
  "ac_state (circuit_of 2 demo_tripped ''svc'') = CB_OPEN \<and>
   snd (allowRequest 20000 ''svc'' demo_tripped) \<and>
   (let m = fst (allowRequest 20000 ''svc'' demo_tripped) in
      ac_state (circuit_of 20001 (recordResult 20001 ''svc'' False m) ''svc'') = CB_HALF_OPEN)"
proof -
  let ?m = "fst (allowRequest 20000 ''svc'' demo_tripped)"
  have c: "circuit_of 20001 ?m ''svc'' = \<lparr> ac_state = CB_HALF_OPEN, ac_failureCount = 10, ac_successCount = 0,
      ac_lastStateChange = 20000, ac_nextAttempt = 15002 \<rparr>"
    "ac_state (circuit_of 2 demo_tripped ''svc'') = CB_OPEN" "snd (allowRequest 20000 ''svc'' demo_tripped)"
    by code_simp+
  with adaptive_breaker_trips [of 20001 ?m "''svc''"] show ?thesis by (simp add: Let_def)
qed

end
