(* ===== verification/Token_Bucket.thy ===== *)
theory Token_Bucket
  imports Prelude Double
begin

text \<open>
  The token-bucket rate limiter (services/api-gateway/src/resilience): per-key buckets refilled
  at a tier's rate, in IEEE doubles. The bound on admitted requests is proved for the rounded
  arithmetic, with the rounding error of every call accounted for.
\<close>

datatype tier = ENTERPRISE_TIER | GROWTH_TIER | STARTER_TIER

record IRateLimitRule =
  ir_ruleId :: string
  ir_tenantTier :: tier
  ir_capacityTokens :: nat
  ir_refillRate :: nat
  ir_burstAllowance :: nat

fun tier_rule :: "tier \<Rightarrow> IRateLimitRule" where
  "tier_rule ENTERPRISE_TIER = \<lparr> ir_ruleId = ''tier_enterprise'', ir_tenantTier = ENTERPRISE_TIER,
     ir_capacityTokens = 1000, ir_refillRate = 100, ir_burstAllowance = 200 \<rparr>"
| "tier_rule GROWTH_TIER = \<lparr> ir_ruleId = ''tier_growth'', ir_tenantTier = GROWTH_TIER,
     ir_capacityTokens = 300, ir_refillRate = 30, ir_burstAllowance = 50 \<rparr>"
| "tier_rule STARTER_TIER = \<lparr> ir_ruleId = ''tier_starter'', ir_tenantTier = STARTER_TIER,
     ir_capacityTokens = 100, ir_refillRate = 10, ir_burstAllowance = 20 \<rparr>"

record bucket =
  bk_tokens :: rat
  bk_lastRefill :: instant

type_synonym buckets = "(string, bucket) jsmap"

record allowance =
  aw_isAllowed :: bool
  aw_remainingTokens :: int
  aw_retryAfterSeconds :: "int option"

definition new_bucket :: "tier \<Rightarrow> instant \<Rightarrow> bucket" where
  "new_bucket tr now = \<lparr> bk_tokens = of_nat (ir_capacityTokens (tier_rule tr)), bk_lastRefill = now \<rparr>"

definition refilled :: "tier \<Rightarrow> instant \<Rightarrow> bucket \<Rightarrow> rat" where
  "refilled tr now b =
     (let rule = tier_rule tr;
          elapsedSeconds = ddiv (of_int (now - bk_lastRefill b)) 1000;
          tokensToAdd = dmul elapsedSeconds (of_nat (ir_refillRate rule))
      in min (of_nat (ir_capacityTokens rule + ir_burstAllowance rule)) (dadd (bk_tokens b) tokensToAdd))"

definition take_token :: "tier \<Rightarrow> instant \<Rightarrow> bucket \<Rightarrow> bucket \<times> allowance" where
  "take_token tr now b =
     (let tokens = refilled tr now b
      in if 1 \<le> tokens
         then (\<lparr> bk_tokens = dsub tokens 1, bk_lastRefill = now \<rparr>,
               \<lparr> aw_isAllowed = True, aw_remainingTokens = Math_floor (dsub tokens 1),
                 aw_retryAfterSeconds = None \<rparr>)
         else (\<lparr> bk_tokens = tokens, bk_lastRefill = now \<rparr>,
               \<lparr> aw_isAllowed = False, aw_remainingTokens = 0,
                 aw_retryAfterSeconds =
                   Some (Math_ceil (ddiv (dsub 1 tokens) (of_nat (ir_refillRate (tier_rule tr))))) \<rparr>))"

definition checkRequestAllowance :: "instant \<Rightarrow> string \<Rightarrow> tier \<Rightarrow> buckets \<Rightarrow> buckets \<times> allowance" where
  "checkRequestAllowance now key tr m =
     (let b = (case jm_get m key of None \<Rightarrow> new_bucket tr now | Some b \<Rightarrow> b);
          (b', a) = take_token tr now b
      in (jm_set key b' m, a))"

section \<open>One call\<close>

text \<open>The capacity with burst, and the rounding error one call can add.\<close>

abbreviation full_tokens :: "tier \<Rightarrow> rat" where
  "full_tokens tr \<equiv> of_nat (ir_capacityTokens (tier_rule tr) + ir_burstAllowance (tier_rule tr))"

abbreviation refill_rate :: "tier \<Rightarrow> rat" where
  "refill_rate tr \<equiv> of_nat (ir_refillRate (tier_rule tr))"

lemma tier_bounds: "full_tokens tr \<le> 1200" "0 < refill_rate tr" "1 \<le> full_tokens tr"
  "of_nat (ir_capacityTokens (tier_rule tr)) \<le> full_tokens tr"
  by (cases tr; simp)+

lemma fl_le: "0 \<le> x \<Longrightarrow> x \<le> 1200 \<Longrightarrow> fl x \<le> x + 1 / 2 ^ 42"
  using fl_bounds [of x] by (simp add: field_simps)

definition exact_refill :: "tier \<Rightarrow> instant \<Rightarrow> bucket \<Rightarrow> rat" where
  "exact_refill tr now b = of_int (now - bk_lastRefill b) / 1000 * refill_rate tr"

lemma refilled_nonneg:
  assumes "0 \<le> bk_tokens b" and "bk_lastRefill b \<le> now"
  shows "0 \<le> refilled tr now b" and "refilled tr now b \<le> full_tokens tr"
proof -
  have "0 \<le> ddiv (of_int (now - bk_lastRefill b)) 1000" using assms(2) by (simp add: ddiv_def fl_nonneg)
  then have "0 \<le> dmul (ddiv (of_int (now - bk_lastRefill b)) 1000) (refill_rate tr)"
    using tier_bounds(2) [of tr] by (simp add: dmul_def fl_nonneg)
  with assms(1) have "0 \<le> dadd (bk_tokens b) (dmul (ddiv (of_int (now - bk_lastRefill b)) 1000) (refill_rate tr))"
    by (simp add: dadd_def fl_nonneg)
  then show "0 \<le> refilled tr now b" by (simp add: refilled_def Let_def)
  show "refilled tr now b \<le> full_tokens tr" by (simp add: refilled_def Let_def)
qed

lemma refilled_le:
  assumes "0 \<le> bk_tokens b" and "bk_tokens b \<le> full_tokens tr" and "bk_lastRefill b \<le> now"
  shows "refilled tr now b \<le> bk_tokens b + exact_refill tr now b + 3 / 2 ^ 42"
proof (cases "full_tokens tr \<le> bk_tokens b + exact_refill tr now b")
  case True
  then show ?thesis using refilled_nonneg(2) [OF assms(1,3), of tr] by simp
next
  case False
  define q where "q = (of_int (now - bk_lastRefill b) / 1000 :: rat)"
  have q0: "0 \<le> q" using assms(3) by (simp add: q_def)
  have e: "exact_refill tr now b = q * refill_rate tr" by (simp add: exact_refill_def q_def)
  have small: "q * refill_rate tr \<le> 1200" "bk_tokens b + q * refill_rate tr \<le> 1200"
    using False tier_bounds(1) [of tr] assms(1) unfolding e by linarith+
  have prod: "dmul (refill_rate tr) (fl q) \<le> refill_rate tr * q + 1 / 2 ^ 41"
  proof -
    have "\<bar>dmul (refill_rate tr) (fl q) - refill_rate tr * q\<bar> \<le> 3 * (refill_rate tr * q) / 2 ^ 53"
      using fl_product_error [OF q0, of "refill_rate tr"] tier_bounds(2) [of tr] by simp
    moreover have "3 * (refill_rate tr * q) / 2 ^ 53 \<le> 3 * 1200 / (2 ^ 53 :: rat)"
      using small(1) by (intro divide_right_mono) (simp_all add: mult.commute)
    moreover have "3 * 1200 / (2 ^ 53 :: rat) \<le> 1 / 2 ^ 41" by simp
    ultimately show ?thesis by linarith
  qed
  have add: "dmul (ddiv (of_int (now - bk_lastRefill b)) 1000) (refill_rate tr) = dmul (refill_rate tr) (fl q)"
    by (simp add: ddiv_def dmul_def q_def mult.commute)
  have nn: "0 \<le> dmul (refill_rate tr) (fl q)"
    using q0 tier_bounds(2) [of tr] by (simp add: dmul_def fl_nonneg)
  define x where "x = bk_tokens b + dmul (refill_rate tr) (fl q)"
  have x: "0 \<le> x" "x \<le> bk_tokens b + exact_refill tr now b + 1 / 2 ^ 41" "x \<le> 1201"
    using assms(1) nn prod small(2) unfolding e x_def by (simp_all add: mult.commute)
  have "fl x \<le> x + 1 / 2 ^ 42" using fl_bounds [OF x(1)] x(3) by (simp add: field_simps)
  with x(2) have "fl x \<le> bk_tokens b + exact_refill tr now b + 3 / 2 ^ 42" by simp
  moreover have "refilled tr now b \<le> fl x"
    unfolding refilled_def Let_def add dadd_def x_def [symmetric] by simp
  ultimately show ?thesis by linarith
qed

lemma take_token_bounds:
  assumes "0 \<le> bk_tokens b" and "bk_tokens b \<le> full_tokens tr" and "bk_lastRefill b \<le> now"
    and "take_token tr now b = (b', a)"
  shows "0 \<le> bk_tokens b'" and "bk_tokens b' \<le> full_tokens tr" and "bk_lastRefill b' = now"
    and "bk_tokens b' + (if aw_isAllowed a then 1 else 0) \<le> bk_tokens b + exact_refill tr now b + 1 / 2 ^ 40"
proof -
  define t where "t = refilled tr now b"
  have t: "0 \<le> t" "t \<le> full_tokens tr" "t \<le> bk_tokens b + exact_refill tr now b + 3 / 2 ^ 42"
    using refilled_nonneg [OF assms(1,3)] refilled_le [OF assms(1-3)] by (simp_all add: t_def)
  have "0 \<le> bk_tokens b' \<and> bk_tokens b' \<le> full_tokens tr \<and> bk_lastRefill b' = now \<and>
    bk_tokens b' + (if aw_isAllowed a then 1 else 0) \<le> bk_tokens b + exact_refill tr now b + 1 / 2 ^ 40"
  proof (cases "1 \<le> t")
    case True
    have "fl (t - 1) \<le> fl (full_tokens tr)" using t(2) by (intro fl_mono) simp
    also have "\<dots> = full_tokens tr" by (rule fl_nat) (cases tr; simp)
    finally have "fl (t - 1) \<le> full_tokens tr" .
    moreover have "0 \<le> fl (t - 1)" using True by (simp add: fl_nonneg)
    moreover have "fl (t - 1) \<le> (t - 1) + 1 / 2 ^ 42"
      using True t(2) tier_bounds(1) [of tr] by (intro fl_le) linarith+
    ultimately show ?thesis
      using assms(4) True t(3) by (auto simp: take_token_def Let_def t_def [symmetric] dsub_def)
  next
    case False
    then show ?thesis using assms(4) t by (auto simp: take_token_def Let_def t_def [symmetric])
  qed
  then show "0 \<le> bk_tokens b'" "bk_tokens b' \<le> full_tokens tr" "bk_lastRefill b' = now"
    "bk_tokens b' + (if aw_isAllowed a then 1 else 0) \<le> bk_tokens b + exact_refill tr now b + 1 / 2 ^ 40"
    by blast+
qed

section \<open>Runs on one key\<close>

fun bucket_run :: "tier \<Rightarrow> instant list \<Rightarrow> bucket \<Rightarrow> bucket \<times> allowance list" where
  "bucket_run tr [] b = (b, [])"
| "bucket_run tr (t # ts) b =
     (let (b1, a) = take_token tr t b; (b2, as) = bucket_run tr ts b1 in (b2, a # as))"

text \<open>The calls of one key, whatever happens to other keys in between.\<close>

fun engine_run :: "(instant \<times> string \<times> tier) list \<Rightarrow> buckets \<Rightarrow> (string \<times> allowance) list" where
  "engine_run [] m = []"
| "engine_run ((t, k, tr) # cs) m =
     (let (m', a) = checkRequestAllowance t k tr m in (k, a) # engine_run cs m')"

definition admitted :: "allowance list \<Rightarrow> nat" where
  "admitted as = length (filter aw_isAllowed as)"

definition calls_of :: "string \<Rightarrow> (instant \<times> string \<times> tier) list \<Rightarrow> instant list" where
  "calls_of k cs = map fst (filter (\<lambda>(t, k', tr). k' = k) cs)"

definition answers_to :: "string \<Rightarrow> (string \<times> allowance) list \<Rightarrow> allowance list" where
  "answers_to k as = map snd (filter (\<lambda>(k', a). k' = k) as)"

lemma bucket_run_bound:
  assumes "0 \<le> bk_tokens b" and "bk_tokens b \<le> full_tokens tr" and "sorted (bk_lastRefill b # ts)"
  shows "of_nat (admitted (snd (bucket_run tr ts b))) \<le>
    bk_tokens b + of_int (last (bk_lastRefill b # ts) - bk_lastRefill b) / 1000 * refill_rate tr + of_nat (length ts) / 2 ^ 40"
  using assms
proof (induction ts arbitrary: b)
  case Nil
  then show ?case by (simp add: admitted_def)
next
  case (Cons t ts)
  obtain b1 a where step: "take_token tr t b = (b1, a)" by force
  have le: "bk_lastRefill b \<le> t" using Cons.prems(3) by simp
  note bnd = take_token_bounds [OF Cons.prems(1,2) le step]
  have "sorted (bk_lastRefill b1 # ts)" using Cons.prems(3) bnd(3) by simp
  from Cons.IH [OF bnd(1,2) this] bnd(3)
  have IH: "of_nat (admitted (snd (bucket_run tr ts b1))) \<le>
      bk_tokens b1 + of_int (last (t # ts) - t) / 1000 * refill_rate tr + of_nat (length ts) / 2 ^ 40" by simp
  have one: "of_nat (admitted (snd (bucket_run tr (t # ts) b))) =
      (if aw_isAllowed a then 1 else 0) + (of_nat (admitted (snd (bucket_run tr ts b1))) :: rat)"
    by (simp add: step admitted_def case_prod_beta)
  have split: "exact_refill tr t b + of_int (last (t # ts) - t) / 1000 * refill_rate tr =
      of_int (last (bk_lastRefill b # t # ts) - bk_lastRefill b) / 1000 * refill_rate tr"
    by (simp add: exact_refill_def field_simps)
  have len: "of_nat (length (t # ts)) / 2 ^ 40 = 1 / 2 ^ 40 + (of_nat (length ts) / 2 ^ 40 :: rat)"
    by (simp add: add_divide_distrib)
  from IH one bnd(4) split len show ?case by linarith
qed

lemma bucket_run_Cons:
  "snd (bucket_run tr (t # ts) b) = snd (take_token tr t b) # snd (bucket_run tr ts (fst (take_token tr t b)))"
  by (simp add: case_prod_beta)

lemma engine_run_key:
  assumes "\<forall>(t, k', tr') \<in> set cs. k' = k \<longrightarrow> tr' = tr"
  shows "answers_to k (engine_run cs m) =
    (case calls_of k cs of [] \<Rightarrow> [] | t # ts \<Rightarrow>
       snd (bucket_run tr (t # ts) (case jm_get m k of None \<Rightarrow> new_bucket tr t | Some b \<Rightarrow> b)))"
  using assms
proof (induction cs arbitrary: m)
  case Nil
  then show ?case by (simp add: answers_to_def calls_of_def)
next
  case (Cons c cs)
  obtain t k' tr' where c: "c = (t, k', tr')" by (cases c)
  define b where "b = (case jm_get m k' of None \<Rightarrow> new_bucket tr' t | Some b \<Rightarrow> b)"
  obtain b' a where step: "take_token tr' t b = (b', a)" by force
  have chk: "checkRequestAllowance t k' tr' m = (jm_set k' b' m, a)"
    by (simp add: checkRequestAllowance_def step Let_def b_def [symmetric])
  have IH: "answers_to k (engine_run cs (jm_set k' b' m)) =
    (case calls_of k cs of [] \<Rightarrow> [] | t # ts \<Rightarrow>
       snd (bucket_run tr (t # ts) (case jm_get (jm_set k' b' m) k of None \<Rightarrow> new_bucket tr t | Some b \<Rightarrow> b)))"
    using Cons by auto
  show ?case
  proof (cases "k' = k")
    case False
    then have "jm_get (jm_set k' b' m) k = jm_get m k" by simp
    with IH False show ?thesis by (simp only: c engine_run.simps chk) (simp add: answers_to_def calls_of_def)
  next
    case True
    then have tr: "tr' = tr" using Cons.prems c by simp
    have b: "(case jm_get m k of None \<Rightarrow> new_bucket tr t | Some b \<Rightarrow> b) = b"
      unfolding b_def True tr ..
    have lhs: "answers_to k (engine_run (c # cs) m) = a # answers_to k (engine_run cs (jm_set k' b' m))"
      unfolding c engine_run.simps chk by (simp add: answers_to_def True)
    have calls: "calls_of k (c # cs) = t # calls_of k cs" by (simp add: calls_of_def c True)
    show ?thesis
      unfolding lhs calls using IH step tr True
      by (cases "calls_of k cs") (simp_all only: list.case b bucket_run_Cons, simp_all)
  qed
qed

text \<open>C37: The token bucket's admission bound, for the code's floating-point arithmetic. Among the
  calls for one key and tier, with clock readings in order and whatever is asked for other keys in
  between, the number of admitted requests is at most the capacity plus the refill rate times the
  elapsed seconds plus one part in \<open>2 ^ 40\<close> per call: rounding cannot admit a whole extra request in
  fewer than \<open>2 ^ 40\<close> calls. In particular a fresh bucket admits no more than its capacity at once:
  the burst allowance only fills up over time.\<close>

theorem token_bucket_bound:
  assumes "sorted (calls_of k cs)" and "\<forall>(t, k', tr') \<in> set cs. k' = k \<longrightarrow> tr' = tr" and "calls_of k cs \<noteq> []"
  shows "of_nat (admitted (answers_to k (engine_run cs []))) \<le>
    of_nat (ir_capacityTokens (tier_rule tr)) +
    of_int (last (calls_of k cs) - hd (calls_of k cs)) / 1000 * of_nat (ir_refillRate (tier_rule tr)) +
    (of_nat (length (calls_of k cs)) / 2 ^ 40 :: rat)"
proof -
  obtain t ts where ts: "calls_of k cs = t # ts" using assms(3) by (cases "calls_of k cs") auto
  have "of_nat (admitted (snd (bucket_run tr (t # ts) (new_bucket tr t)))) \<le>
      bk_tokens (new_bucket tr t) +
      of_int (last (bk_lastRefill (new_bucket tr t) # t # ts) - bk_lastRefill (new_bucket tr t)) / 1000 * refill_rate tr +
      of_nat (length (t # ts)) / 2 ^ 40"
    using assms(1) tier_bounds(4) [of tr] by (intro bucket_run_bound) (auto simp: new_bucket_def ts)
  then show ?thesis using engine_run_key [OF assms(2), of "[]"] by (simp add: ts new_bucket_def)
qed

definition demo_bucket_calls :: "(instant \<times> string \<times> tier) list" where
  "demo_bucket_calls = [(5, ''k'', STARTER_TIER), (5, ''j'', GROWTH_TIER), (105, ''k'', STARTER_TIER)]"

theorem token_bucket_bound_witness:
  "admitted (answers_to ''k'' (engine_run demo_bucket_calls [])) = 2 \<and>
   (of_nat (admitted (answers_to ''k'' (engine_run demo_bucket_calls []))) :: rat) \<le> 101 + 2 / 2 ^ 40"
proof -
  have calls: "calls_of ''k'' demo_bucket_calls = [5, 105]" by code_simp
  have "sorted (calls_of ''k'' demo_bucket_calls)" by code_simp
  moreover have "\<forall>(t, k', tr') \<in> set demo_bucket_calls. k' = ''k'' \<longrightarrow> tr' = STARTER_TIER" by code_simp
  moreover have "calls_of ''k'' demo_bucket_calls \<noteq> []" by code_simp
  ultimately have "of_nat (admitted (answers_to ''k'' (engine_run demo_bucket_calls []))) \<le>
    of_nat (ir_capacityTokens (tier_rule STARTER_TIER)) +
    of_int (last (calls_of ''k'' demo_bucket_calls) - hd (calls_of ''k'' demo_bucket_calls)) / 1000 *
      of_nat (ir_refillRate (tier_rule STARTER_TIER)) + (of_nat (length (calls_of ''k'' demo_bucket_calls)) / 2 ^ 40 :: rat)"
    by (rule token_bucket_bound)
  then have "(of_nat (admitted (answers_to ''k'' (engine_run demo_bucket_calls []))) :: rat) \<le> 101 + 2 / 2 ^ 40"
    by (simp add: calls)
  moreover have "admitted (answers_to ''k'' (engine_run demo_bucket_calls [])) = 2" by code_simp
  ultimately show ?thesis by simp
qed

end
