(* ===== verification/Rate_Limiter.thy ===== *)
theory Rate_Limiter
  imports Common_Types Double
begin

text \<open>
  The gateway's fixed-window rate limiter (services/api-gateway/src/middleware/rateLimiter.ts):
  the request middleware, the cleanup that its interval timer runs, and runs of both. A client
  is its X-Forwarded-For header or its address; here it is the key.
\<close>

section \<open>Rate limiting\<close>

record RateLimitRecord =
  rl_count :: nat
  rl_resetTime :: instant

record rate_config =
  rc_windowMs :: nat
  rc_maxRequests :: nat

type_synonym rate_hits = "(string, RateLimitRecord) jsmap"

definition rate_cleanup :: "instant \<Rightarrow> rate_hits \<Rightarrow> rate_hits" where
  "rate_cleanup now hits = filter (\<lambda>(k, r). \<not> now > rl_resetTime r) hits"

definition rate_record :: "rate_config \<Rightarrow> instant \<Rightarrow> string \<Rightarrow> rate_hits \<Rightarrow> RateLimitRecord" where
  "rate_record cfg now key hits =
     (case jm_get hits key of
        None \<Rightarrow> \<lparr> rl_count = 1, rl_resetTime = now + int (rc_windowMs cfg) \<rparr>
      | Some r \<Rightarrow> if now > rl_resetTime r
                 then \<lparr> rl_count = 1, rl_resetTime = now + int (rc_windowMs cfg) \<rparr>
                 else r\<lparr> rl_count := rl_count r + 1 \<rparr>)"

record rate_headers =
  rh_limit :: nat
  rh_remaining :: nat
  rh_reset :: int

definition rate_limit ::
  "rate_config \<Rightarrow> instant \<Rightarrow> string \<Rightarrow> rate_hits \<Rightarrow> rate_hits \<times> rate_headers \<times> app_error option" where
  "rate_limit cfg now key hits =
     (let r = rate_record cfg now key hits
      in (jm_set key r hits,
          \<lparr> rh_limit = rc_maxRequests cfg, rh_remaining = rc_maxRequests cfg - rl_count r,
            rh_reset = Math_ceil (ddiv (of_int (rl_resetTime r)) 1000) \<rparr>,
          if rl_count r > rc_maxRequests cfg
          then Some (RateLimitExceededException (rc_maxRequests cfg)
                 (nat (Math_round (ddiv (of_nat (rc_windowMs cfg)) 1000))))
          else None))"

text \<open>Requests and ticks of the cleanup timer, in the order in which the event loop runs them.\<close>

datatype rate_event = is_Hit: Hit instant string | Tick instant

fun event_time :: "rate_event \<Rightarrow> instant" where
  "event_time (Hit t k) = t"
| "event_time (Tick t) = t"

fun rate_run :: "rate_config \<Rightarrow> rate_event list \<Rightarrow> rate_hits \<Rightarrow> (instant \<times> string \<times> bool) list" where
  "rate_run cfg [] hits = []"
| "rate_run cfg (Tick t # es) hits = rate_run cfg es (rate_cleanup t hits)"
| "rate_run cfg (Hit t k # es) hits =
     (case rate_limit cfg t k hits of (hits', _, err) \<Rightarrow> (t, k, err = None) # rate_run cfg es hits')"

definition passes_between :: "string \<Rightarrow> instant \<Rightarrow> instant \<Rightarrow> (instant \<times> string \<times> bool) list \<Rightarrow> nat" where
  "passes_between k a b outs = length (filter (\<lambda>(t, k', ok). k' = k \<and> ok \<and> a \<le> t \<and> t \<le> b) outs)"

lemma passes_simps [simp]:
  "passes_between k a b [] = 0"
  "passes_between k a b ((t, k', ok) # outs) =
     (if k' = k \<and> ok \<and> a \<le> t \<and> t \<le> b then Suc (passes_between k a b outs) else passes_between k a b outs)"
  by (auto simp: passes_between_def)

lemma cleanup_get:
  "jm_ok hits \<Longrightarrow> jm_get (rate_cleanup t hits) k =
     (case jm_get hits k of None \<Rightarrow> None | Some r \<Rightarrow> if t > rl_resetTime r then None else Some r)"
  by (induction hits) (auto simp: rate_cleanup_def map_of_eq_None_iff split: option.splits)

lemma cleanup_ok [simp]: "jm_ok hits \<Longrightarrow> jm_ok (rate_cleanup t hits)"
  by (simp add: rate_cleanup_def distinct_map_filter)

lemma rate_run_Hit [simp]:
  "rate_run cfg (Hit t k # es) hits =
     (t, k, rl_count (rate_record cfg t k hits) \<le> rc_maxRequests cfg) #
     rate_run cfg es (jm_set k (rate_record cfg t k hits) hits)"
  by (simp add: rate_limit_def Let_def)

declare rate_run.simps(3) [simp del]

lemma passes_late: "\<forall>e \<in> set es. b < event_time e \<Longrightarrow> passes_between k a b (rate_run cfg es hits) = 0"
proof (induction es arbitrary: hits)
  case (Cons e es)
  then show ?case by (cases e) auto
qed simp

text \<open>One window, opened at or after \<open>a\<close>: what is left of it bounds everything up to \<open>b\<close>.\<close>

lemma passes_in_window:
  assumes "sorted (map event_time es)" and "jm_ok hits" and "b \<le> a + int (rc_windowMs cfg)"
    and "\<forall>e \<in> set es. a \<le> event_time e"
    and "case jm_get hits k of None \<Rightarrow> n = rc_maxRequests cfg \<or> (\<forall>e \<in> set es. b < event_time e)
         | Some r \<Rightarrow> n = rc_maxRequests cfg - rl_count r \<and> b \<le> rl_resetTime r"
  shows "passes_between k a b (rate_run cfg es hits) \<le> n"
  using assms
proof (induction es arbitrary: hits n)
  case (Cons e es)
  have srt: "sorted (map event_time es)" "\<forall>e' \<in> set es. event_time e \<le> event_time e'" "\<forall>e' \<in> set es. a \<le> event_time e'"
    using Cons.prems by auto
  show ?case
  proof (cases e)
    case (Tick t)
    from Cons.prems(5) srt(2) have "case jm_get (rate_cleanup t hits) k of
        None \<Rightarrow> n = rc_maxRequests cfg \<or> (\<forall>e \<in> set es. b < event_time e)
      | Some r \<Rightarrow> n = rc_maxRequests cfg - rl_count r \<and> b \<le> rl_resetTime r"
      using Tick by (auto simp: cleanup_get [OF Cons.prems(2)] split: option.splits)
    from Cons.IH [OF srt(1) _ Cons.prems(3) srt(3) this] Tick Cons.prems(2) show ?thesis by simp
  next
    case (Hit t k')
    let ?r = "rate_record cfg t k' hits"
    have ok: "jm_ok (jm_set k' ?r hits)" using Cons.prems(2) by blast
    have at: "a \<le> t" using Cons.prems(4) Hit by simp
    show ?thesis
    proof (cases "k' = k \<and> t \<le> b")
      case False
      then consider "k' \<noteq> k" | "k' = k" "b < t" by linarith
      then show ?thesis
      proof cases
        case 1
        from Cons.prems(5) 1 have "case jm_get (jm_set k' ?r hits) k of
            None \<Rightarrow> n = rc_maxRequests cfg \<or> (\<forall>e \<in> set es. b < event_time e)
          | Some r \<Rightarrow> n = rc_maxRequests cfg - rl_count r \<and> b \<le> rl_resetTime r"
          by (auto split: option.splits)
        from Cons.IH [OF srt(1) ok Cons.prems(3) srt(3) this] 1 Hit show ?thesis by simp
      next
        case 2
        have late: "\<forall>e' \<in> set es. b < event_time e'" using srt(2) Hit 2(2) by auto
        have "passes_between k a b (rate_run cfg es h) = 0" for h
          using late by (rule passes_late)
        with Hit 2 show ?thesis by simp
      qed
    next
      case True
      have rec: "?r = (if \<exists>r. jm_get hits k = Some r then (the (jm_get hits k))\<lparr> rl_count := rl_count (the (jm_get hits k)) + 1 \<rparr>
          else \<lparr> rl_count = 1, rl_resetTime = t + int (rc_windowMs cfg) \<rparr>)"
        using True Cons.prems(5) by (auto simp: rate_record_def split: option.splits)
      have max: "n = rc_maxRequests cfg - (rl_count ?r - 1)" "b \<le> rl_resetTime ?r" "1 \<le> rl_count ?r"
        using Cons.prems(3,5) at True Hit rec by (auto split: option.splits)
      have "passes_between k a b (rate_run cfg es (jm_set k' ?r hits)) \<le> rc_maxRequests cfg - rl_count ?r"
        by (rule Cons.IH [OF srt(1) ok Cons.prems(3) srt(3)]) (use True max in simp)
      with True Hit max at show ?thesis by auto
    qed
  qed
qed simp

lemma passes_two_windows:
  assumes "sorted (map event_time es)" and "jm_ok hits" and "b \<le> a + int (rc_windowMs cfg)"
    and "\<forall>e \<in> set es. a \<le> event_time e"
  shows "passes_between k a b (rate_run cfg es hits) \<le> 2 * rc_maxRequests cfg -
    (case jm_get hits k of None \<Rightarrow> rc_maxRequests cfg | Some r \<Rightarrow> min (rl_count r) (rc_maxRequests cfg))"
  using assms
proof (induction es arbitrary: hits)
  case (Cons e es)
  have srt: "sorted (map event_time es)" "\<forall>e' \<in> set es. a \<le> event_time e'"
    using Cons.prems by auto
  show ?case
  proof (cases e)
    case (Tick t)
    have ok: "jm_ok (rate_cleanup t hits)" using Cons.prems(2) by simp
    from Cons.IH [OF srt(1) ok Cons.prems(3) srt(2)] Tick show ?thesis
      by (auto simp: cleanup_get [OF Cons.prems(2)] split: option.splits if_splits)
  next
    case (Hit t k')
    let ?r = "rate_record cfg t k' hits"
    have ok: "jm_ok (jm_set k' ?r hits)" using Cons.prems(2) by blast
    note IH = Cons.IH [OF srt(1) ok Cons.prems(3) srt(2)]
    show ?thesis
    proof (cases "k' = k")
      case False
      with IH Hit show ?thesis by simp
    next
      case True
      show ?thesis
      proof (cases "\<exists>r. jm_get hits k = Some r \<and> \<not> t > rl_resetTime r")
        case False
        then have r: "?r = \<lparr> rl_count = 1, rl_resetTime = t + int (rc_windowMs cfg) \<rparr>"
          using True by (auto simp: rate_record_def split: option.splits)
        have "a \<le> t" using Cons.prems(4) Hit by simp
        then have "passes_between k a b (rate_run cfg es (jm_set k' ?r hits)) \<le> rc_maxRequests cfg - 1"
          using True r Cons.prems(3) by (intro passes_in_window [OF srt(1) ok Cons.prems(3) srt(2)]) simp
        with True Hit r show ?thesis by (auto split: option.splits)
      next
        case True2: True
        then obtain r where "jm_get hits k = Some r" "?r = r\<lparr> rl_count := rl_count r + 1 \<rparr>"
          using True by (auto simp: rate_record_def)
        with IH True Hit show ?thesis by auto
      qed
    qed
  qed
qed (simp split: option.split)

lemma passes_before:
  assumes "\<And>es hits. sorted (map event_time es) \<Longrightarrow> jm_ok hits \<Longrightarrow> \<forall>e \<in> set es. a \<le> event_time e \<Longrightarrow>
      passes_between k a b (rate_run cfg es hits) \<le> n"
  shows "sorted (map event_time es) \<Longrightarrow> jm_ok hits \<Longrightarrow> passes_between k a b (rate_run cfg es hits) \<le> n"
proof (induction es arbitrary: hits)
  case Nil
  then show ?case by simp
next
  case (Cons e es)
  show ?case
  proof (cases "a \<le> event_time e")
    case True
    with Cons.prems(1) have "\<forall>e' \<in> set (e # es). a \<le> event_time e'" by auto
    with Cons.prems assms [of "e # es" hits] show ?thesis by blast
  next
    case False
    have srt: "sorted (map event_time es)" using Cons.prems by simp
    show ?thesis
    proof (cases e)
      case (Tick t)
      with Cons.IH [OF srt, of "rate_cleanup t hits"] Cons.prems show ?thesis by simp
    next
      case (Hit t k')
      with Cons.IH [OF srt jm_ok_set [OF Cons.prems(2), of k' "rate_record cfg t k' hits"]] False show ?thesis by simp
    qed
  qed
qed

text \<open>The cleanup timer only removes what the next request would replace.\<close>

definition same_limits :: "instant \<Rightarrow> rate_hits \<Rightarrow> rate_hits \<Rightarrow> bool" where
  "same_limits t h h' \<longleftrightarrow> (\<forall>k. jm_get h k = jm_get h' k \<or>
     (jm_get h k = None \<and> (\<exists>r. jm_get h' k = Some r \<and> rl_resetTime r < t)))"

lemma same_limits_record:
  assumes "same_limits t h h'" and "t \<le> u"
  shows "rate_record cfg u k h = rate_record cfg u k h'"
proof -
  from assms(1) have "jm_get h k = jm_get h' k \<or> (jm_get h k = None \<and> (\<exists>r. jm_get h' k = Some r \<and> rl_resetTime r < t))"
    by (simp add: same_limits_def)
  with assms(2) show ?thesis by (auto simp: rate_record_def)
qed

lemma same_limits_run:
  assumes "same_limits t h h'" and "jm_ok h" and "sorted (map event_time es)" and "\<forall>e \<in> set es. t \<le> event_time e"
  shows "rate_run cfg es h = rate_run cfg (filter is_Hit es) h'"
  using assms
proof (induction es arbitrary: t h h')
  case (Cons e es)
  have srt: "sorted (map event_time es)" "\<forall>e' \<in> set es. event_time e \<le> event_time e'" "t \<le> event_time e"
    using Cons.prems by auto
  have mono: "same_limits (event_time e) h h'"
    using Cons.prems(1) srt(3) unfolding same_limits_def by (meson order_less_le_trans)
  show ?case
  proof (cases e)
    case (Tick u)
    have "same_limits u (rate_cleanup u h) h'"
      unfolding same_limits_def cleanup_get [OF Cons.prems(2)]
    proof
      fix k
      from mono Tick have "jm_get h k = jm_get h' k \<or> (jm_get h k = None \<and> (\<exists>r. jm_get h' k = Some r \<and> rl_resetTime r < u))"
        by (simp add: same_limits_def)
      then show "(case jm_get h k of None \<Rightarrow> None | Some r \<Rightarrow> if u > rl_resetTime r then None else Some r) = jm_get h' k \<or>
          ((case jm_get h k of None \<Rightarrow> None | Some r \<Rightarrow> if u > rl_resetTime r then None else Some r) = None \<and>
            (\<exists>r. jm_get h' k = Some r \<and> rl_resetTime r < u))"
        by (auto split: option.splits)
    qed
    from Cons.IH [OF this cleanup_ok [OF Cons.prems(2)] srt(1)] srt(2) Tick show ?thesis by simp
  next
    case (Hit u k)
    let ?r = "rate_record cfg u k h"
    have r: "rate_record cfg u k h' = ?r" using same_limits_record [OF Cons.prems(1)] srt(3) Hit by simp
    have "same_limits u (jm_set k ?r h) (jm_set k ?r h')" using mono Hit by (simp add: same_limits_def)
    from Cons.IH [OF this jm_ok_set [OF Cons.prems(2)] srt(1)] srt(2) Hit r show ?thesis by simp
  qed
qed simp

text \<open>The fixed-window limiter, over any run of requests and cleanup ticks in the order of their
  clock readings, from an empty table. In no stretch of one window length do more than twice
  \<open>maxRequests\<close> requests of a client pass, wherever its windows begin; and the cleanup timer is
  invisible: without any of its ticks the same requests pass and fail.\<close>

theorem rate_limit_window:
  assumes "sorted (map event_time es)"
  shows "(\<forall>b \<le> a + int (rc_windowMs cfg). passes_between k a b (rate_run cfg es []) \<le> 2 * rc_maxRequests cfg) \<and>
    rate_run cfg es [] = rate_run cfg (filter is_Hit es) []"
proof (intro conjI allI impI)
  fix b assume b: "b \<le> a + int (rc_windowMs cfg)"
  show "passes_between k a b (rate_run cfg es []) \<le> 2 * rc_maxRequests cfg"
    by (rule passes_before [OF order_trans [OF passes_two_windows [OF _ _ b]]]) (use assms in auto)
next
  show "rate_run cfg es [] = rate_run cfg (filter is_Hit es) []"
  proof (cases es)
    case (Cons e es')
    show ?thesis
      by (rule same_limits_run [where t = "event_time e"]) (use assms Cons in \<open>auto simp: same_limits_def\<close>)
  qed simp
qed

definition demo_rate :: rate_config where
  "demo_rate = \<lparr> rc_windowMs = 100, rc_maxRequests = 2 \<rparr>"

definition demo_hits :: "rate_event list" where
  "demo_hits = [Hit 0 ''c'', Hit 99 ''c'', Hit 100 ''c'', Tick 101, Hit 101 ''c'', Hit 102 ''c'', Hit 103 ''c'', Hit 103 ''d'']"

text \<open>The bound is reached up to one: requests at the end of a window and at the start of the next.\<close>

theorem rate_limit_window_witness:
  "passes_between ''c'' 99 199 (rate_run demo_rate demo_hits []) = 3 \<and>
   passes_between ''c'' 99 199 (rate_run demo_rate demo_hits []) \<le> 4"
proof -
  have "sorted (map event_time demo_hits)" by (simp add: demo_hits_def)
  note th = conjunct1 [OF rate_limit_window [OF this, of 99 demo_rate "''c''"]]
  have "passes_between ''c'' 99 199 (rate_run demo_rate demo_hits []) \<le> 4"
    using th [THEN spec, of 199] by (simp add: demo_rate_def)
  moreover have "passes_between ''c'' 99 199 (rate_run demo_rate demo_hits []) = 3" by code_simp
  ultimately show ?thesis by simp
qed

end
