(* ===== verification/Gateway.thy ===== *)
theory Gateway
  imports Rate_Limiter
begin

text \<open>
  The API gateway (services/api-gateway/src): correlation identifiers, the JWT check, the error
  handler, and the pipeline that app.ts builds of them and of the rate limiter in front of the
  proxied services. Express's matching of mount paths and routes and jsonwebtoken's verification
  of a token are parameters of the pipeline (\<open>gateway_lib\<close>); helmet, CORS and compression
  only add response headers and are left out.
\<close>

section \<open>Requests\<close>

text \<open>A header set to \<open>undefined\<close> is \<open>Some None\<close> in the map.\<close>

type_synonym headers = "(string, string option) jsmap"

record http_request =
  hq_method :: string
  hq_path :: string
  hq_headers :: headers
  hq_remoteAddress :: "string option"

definition header :: "http_request \<Rightarrow> string \<Rightarrow> string option" where
  "header req h = (case jm_get (hq_headers req) h of Some v \<Rightarrow> v | None \<Rightarrow> None)"

definition set_header :: "string \<Rightarrow> string option \<Rightarrow> http_request \<Rightarrow> http_request" where
  "set_header h v req = req\<lparr> hq_headers := jm_set h v (hq_headers req) \<rparr>"

lemma header_set [simp]: "header (set_header h v req) h' = (if h' = h then v else header req h')"
  by (simp add: header_def set_header_def)

lemma set_header_other [simp]:
  "hq_path (set_header h v req) = hq_path req" "hq_method (set_header h v req) = hq_method req"
  "hq_remoteAddress (set_header h v req) = hq_remoteAddress req"
  by (simp_all add: set_header_def)

text \<open>\<open>JSON.stringify\<close> of an array of strings (characters up to 127).\<close>

definition json_char :: "char \<Rightarrow> string" where
  "json_char c =
     (let n = (of_char c :: nat)
      in if n = 34 then [CHR 0x5C, CHR 0x22]
         else if n = 92 then [CHR 0x5C, CHR 0x5C]
         else if n = 8 then [CHR 0x5C, CHR ''b'']
         else if n = 9 then [CHR 0x5C, CHR ''t'']
         else if n = 10 then [CHR 0x5C, CHR ''n'']
         else if n = 12 then [CHR 0x5C, CHR ''f'']
         else if n = 13 then [CHR 0x5C, CHR ''r'']
         else if n < 32 then [CHR 0x5C, CHR ''u''] @ pad_start 4 CHR ''0'' (base_string 16 n)
         else [c])"

definition json_string :: "string \<Rightarrow> string" where
  "json_string s = CHR 0x22 # concat (map json_char s) @ [CHR 0x22]"

fun json_join :: "string list \<Rightarrow> string" where
  "json_join [] = []"
| "json_join [s] = json_string s"
| "json_join (s # ss) = json_string s @ CHR '','' # json_join ss"

definition json_array :: "string list \<Rightarrow> string" where
  "json_array ss = CHR ''['' # json_join ss @ [CHR '']'']"

section \<open>Middleware\<close>

definition correlationIdMiddleware :: "string \<Rightarrow> http_request \<Rightarrow> http_request" where
  "correlationIdMiddleware uid req =
     set_header ''x-correlation-id'' (or_else (header req ''x-correlation-id'') (Some uid)) req"

text \<open>The rate limiter's key: the X-Forwarded-For header if there is one, else the address.\<close>

definition client_key :: "http_request \<Rightarrow> string" where
  "client_key req = ''rate_limit:'' @
     the (or_else (header req ''x-forwarded-for'') (or_else (hq_remoteAddress req) (Some ''unknown-ip'')))"

text \<open>The decoded token, as far as the gateway reads it.\<close>

record claims =
  cl_sub :: "string option"
  cl_userId :: "string option"
  cl_tenantId :: "string option"
  cl_email :: "string option"
  cl_roles :: "string list option"
  cl_permissions :: "string list option"
  cl_sessionId :: "string option"

record gateway_lib =
  jwtVerify :: "string \<Rightarrow> string + claims"
  mountAt :: "string \<Rightarrow> string \<Rightarrow> string option"
  routeIs :: "string \<Rightarrow> string \<Rightarrow> bool"

record GatewayUser =
  gu_userId :: "string option"
  gu_tenantId :: "string option"
  gu_email :: "string option"
  gu_roles :: "string list"
  gu_permissions :: "string list"
  gu_sessionId :: "string option"

definition decoded_user :: "claims \<Rightarrow> GatewayUser" where
  "decoded_user d =
     \<lparr> gu_userId = or_else (cl_sub d) (cl_userId d), gu_tenantId = cl_tenantId d, gu_email = cl_email d,
       gu_roles = (case cl_roles d of None \<Rightarrow> [''CUSTOMER''] | Some rs \<Rightarrow> rs),
       gu_permissions = (case cl_permissions d of None \<Rightarrow> [] | Some ps \<Rightarrow> ps),
       gu_sessionId = cl_sessionId d \<rparr>"

definition propagate_user :: "GatewayUser \<Rightarrow> http_request \<Rightarrow> http_request" where
  "propagate_user u req =
     set_header ''x-user-permissions'' (Some (json_array (gu_permissions u)))
      (set_header ''x-user-roles'' (Some (json_array (gu_roles u)))
       (set_header ''x-user-email'' (gu_email u)
        (set_header ''x-tenant-id'' (gu_tenantId u)
         (set_header ''x-user-id'' (gu_userId u) req))))"

definition bearer :: "http_request \<Rightarrow> string option" where
  "bearer req =
     (case header req ''authorization'' of
        None \<Rightarrow> None
      | Some h \<Rightarrow> if h = [] \<or> \<not> starts_with ''Bearer '' h then None else Some (js_split CHR '' '' h ! 1))"

definition authenticateJwt :: "gateway_lib \<Rightarrow> bool \<Rightarrow> http_request \<Rightarrow> app_error + http_request" where
  "authenticateJwt lib isOptional req =
     (case bearer req of
        None \<Rightarrow> if isOptional then Inr req
                else Inl (UnauthorizedException ''Missing or malformed Bearer authorization token.'')
      | Some token \<Rightarrow>
          (case jwtVerify lib token of
             Inr d \<Rightarrow> Inr (propagate_user (decoded_user d) req)
           | Inl msg \<Rightarrow>
               if isOptional then Inr req
               else Inl (UnauthorizedException (''Invalid or expired authorization token: '' @ msg))))"

text \<open>What the gateway's error handler answers: status, code, message and correlation id.\<close>

record error_reply =
  er_status :: nat
  er_code :: string
  er_message :: string
  er_correlationId :: string

definition gatewayErrorHandler :: "app_error \<Rightarrow> http_request \<Rightarrow> error_reply" where
  "gatewayErrorHandler err req =
     (let cid = the (or_else (header req ''x-correlation-id'') (Some ''unknown''))
      in case (statusCode err, errorCode err) of
           (Some st, Some code) \<Rightarrow>
             \<lparr> er_status = st, er_code = code, er_message = errorMessage err, er_correlationId = cid \<rparr>
         | _ \<Rightarrow>
             \<lparr> er_status = 500, er_code = ''INTERNAL_GATEWAY_ERROR'',
               er_message = ''An unexpected internal error occurred in the API Gateway.'',
               er_correlationId = cid \<rparr>)"

section \<open>The pipeline\<close>

datatype upstream = AUTH_SERVICE | ORDER_SERVICE | INVENTORY_SERVICE | LOGISTICS_SERVICE
  | BILLING_SERVICE | NOTIFICATION_SERVICE | ANALYTICS_SERVICE

datatype gateway_result =
    Forwarded upstream string http_request
  | Replied error_reply
  | Health string
  | NotMatched

text \<open>The mounts in the order of app.ts; every one but the auth service's is behind the JWT check.\<close>

definition mounts :: "(string \<times> upstream \<times> bool) list" where
  "mounts =
     [(''/api/v1/auth'', AUTH_SERVICE, False),
      (''/api/v1/orders'', ORDER_SERVICE, True),
      (''/api/v1/inventory'', INVENTORY_SERVICE, True),
      (''/api/v1/logistics'', LOGISTICS_SERVICE, True),
      (''/api/v1/billing'', BILLING_SERVICE, True),
      (''/api/v1/notifications'', NOTIFICATION_SERVICE, True),
      (''/api/v1/analytics'', ANALYTICS_SERVICE, True)]"

fun dispatch_mounts :: "gateway_lib \<Rightarrow> http_request \<Rightarrow> (string \<times> upstream \<times> bool) list \<Rightarrow> gateway_result" where
  "dispatch_mounts lib req [] = NotMatched"
| "dispatch_mounts lib req ((m, svc, guarded) # ms) =
     (case mountAt lib m (hq_path req) of
        None \<Rightarrow> dispatch_mounts lib req ms
      | Some url \<Rightarrow>
          if guarded
          then (case authenticateJwt lib False req of
                  Inl err \<Rightarrow> Replied (gatewayErrorHandler err req)
                | Inr req' \<Rightarrow> Forwarded svc (m @ url) req')
          else Forwarded svc (m @ url) req)"

definition health_route :: "gateway_lib \<Rightarrow> http_request \<Rightarrow> string option" where
  "health_route lib req =
     (case mountAt lib ''/health'' (hq_path req) of
        None \<Rightarrow> None
      | Some url \<Rightarrow>
          if hq_method req = ''GET'' \<and> routeIs lib ''/liveness'' url then Some ''/liveness''
          else if hq_method req = ''GET'' \<and> routeIs lib ''/readiness'' url then Some ''/readiness''
          else None)"

definition gateway ::
  "gateway_lib \<Rightarrow> rate_config \<Rightarrow> instant \<Rightarrow> string \<Rightarrow> http_request \<Rightarrow> rate_hits \<Rightarrow> rate_hits \<times> gateway_result" where
  "gateway lib cfg now uid req0 hits =
     (let req = correlationIdMiddleware uid req0
      in case rate_limit cfg now (client_key req) hits of
           (hits', _, Some err) \<Rightarrow> (hits', Replied (gatewayErrorHandler err req))
         | (hits', _, None) \<Rightarrow>
             (hits', case health_route lib req of
                       Some h \<Rightarrow> Health h
                     | None \<Rightarrow> dispatch_mounts lib req mounts))"

section \<open>Properties\<close>

lemma header_correlation [simp]:
  "header (correlationIdMiddleware uid req) h =
     (if h = ''x-correlation-id'' then or_else (header req ''x-correlation-id'') (Some uid) else header req h)"
  by (simp add: correlationIdMiddleware_def)

lemma correlation_other [simp]:
  "hq_path (correlationIdMiddleware uid req) = hq_path req"
  by (simp add: correlationIdMiddleware_def)

lemma error_correlation [simp]:
  "er_correlationId (gatewayErrorHandler e req) = the (or_else (header req ''x-correlation-id'') (Some ''unknown''))"
  by (simp add: gatewayErrorHandler_def Let_def split: option.split)

lemma dispatch_forwarded:
  "dispatch_mounts lib req ms = Forwarded svc path req' \<Longrightarrow>
    \<exists>m url g. (m, svc, g) \<in> set ms \<and> mountAt lib m (hq_path req) = Some url \<and> path = m @ url \<and>
      (if g then authenticateJwt lib False req = Inr req' else req' = req)"
proof (induction lib req ms rule: dispatch_mounts.induct)
  case (2 lib req m svc' guarded ms)
  show ?case
  proof (cases "mountAt lib m (hq_path req)")
    case None
    with 2 obtain m' url g where "(m', svc, g) \<in> set ms" "mountAt lib m' (hq_path req) = Some url" "path = m' @ url"
      "if g then authenticateJwt lib False req = Inr req' else req' = req"
      by auto
    then show ?thesis by (intro exI [of _ m'] exI [of _ url] exI [of _ g]) simp
  next
    case (Some url)
    with 2(2) have "svc = svc'" "path = m @ url" "if guarded then authenticateJwt lib False req = Inr req' else req' = req"
      by (auto split: if_splits sum.splits)
    with Some show ?thesis by (intro exI [of _ m] exI [of _ url] exI [of _ guarded]) simp
  qed
qed simp

lemma dispatch_replied:
  "dispatch_mounts lib req ms = Replied e \<Longrightarrow>
    \<exists>err. authenticateJwt lib False req = Inl err \<and> e = gatewayErrorHandler err req"
  by (induction lib req ms rule: dispatch_mounts.induct) (auto split: option.splits if_splits sum.splits)

lemma authenticated:
  "authenticateJwt lib False req = Inr req' \<Longrightarrow>
    \<exists>token d. bearer req = Some token \<and> jwtVerify lib token = Inr d \<and> req' = propagate_user (decoded_user d) req"
  by (auto simp: authenticateJwt_def split: option.splits sum.splits)

lemma unauthenticated:
  "authenticateJwt lib False req = Inl err \<Longrightarrow> statusCode err = Some 401 \<and> errorCode err = Some ''UNAUTHORIZED''"
  by (auto simp: authenticateJwt_def split: option.splits sum.splits)

lemma mounts_guarded: "(m, svc, g) \<in> set mounts \<Longrightarrow> g = (svc \<noteq> AUTH_SERVICE)"
  by (auto simp: mounts_def)

lemma bearer_correlation [simp]: "bearer (correlationIdMiddleware uid req) = bearer req"
  by (simp add: bearer_def)

lemma propagated:
  "header (propagate_user u req) ''x-user-id'' = gu_userId u"
  "header (propagate_user u req) ''x-tenant-id'' = gu_tenantId u"
  "header (propagate_user u req) ''x-user-email'' = gu_email u"
  "header (propagate_user u req) ''x-user-roles'' = Some (json_array (gu_roles u))"
  "header (propagate_user u req) ''x-user-permissions'' = Some (json_array (gu_permissions u))"
  by (simp_all add: propagate_user_def)

lemma gateway_cases:
  obtains (limited) "snd (gateway lib cfg now uid req hits) =
      Replied (gatewayErrorHandler (RateLimitExceededException (rc_maxRequests cfg)
        (nat (Math_round (ddiv (of_nat (rc_windowMs cfg)) 1000)))) (correlationIdMiddleware uid req))"
    | (healthy) h where "snd (gateway lib cfg now uid req hits) = Health h"
    | (routed) "snd (gateway lib cfg now uid req hits) = dispatch_mounts lib (correlationIdMiddleware uid req) mounts"
      "rl_count (rate_record cfg now (client_key (correlationIdMiddleware uid req)) hits) \<le> rc_maxRequests cfg"
  by (cases "health_route lib (correlationIdMiddleware uid req)";
      cases "rl_count (rate_record cfg now (client_key (correlationIdMiddleware uid req)) hits) \<le> rc_maxRequests cfg")
    (auto simp: gateway_def Let_def rate_limit_def)

text \<open>C9: What gets through the gateway. A request reaches the order, inventory, logistics, billing,
  notification or analytics service only if the client is within its rate limit and carries a
  bearer token that verifies; the identity headers the service then sees (user, tenant, e-mail,
  roles, permissions) are those of the token, whatever the client sent under these names. The auth
  service is reached without a token, and with the client's own identity headers. Every error
  reply is a 401 or a 429 and carries the client's correlation id, or the new one.\<close>

theorem gateway_protects:
  assumes "uid \<noteq> []"
  shows "case snd (gateway lib cfg now uid req hits) of
      Forwarded svc path req' \<Rightarrow>
        rl_count (rate_record cfg now (client_key (correlationIdMiddleware uid req)) hits) \<le> rc_maxRequests cfg \<and>
        (if svc = AUTH_SERVICE then header req' ''x-user-id'' = header req ''x-user-id''
         else \<exists>token d. bearer req = Some token \<and> jwtVerify lib token = Inr d \<and>
           header req' ''x-user-id'' = or_else (cl_sub d) (cl_userId d) \<and>
           header req' ''x-tenant-id'' = cl_tenantId d \<and> header req' ''x-user-email'' = cl_email d \<and>
           header req' ''x-user-roles'' = Some (json_array (gu_roles (decoded_user d))) \<and>
           header req' ''x-user-permissions'' = Some (json_array (gu_permissions (decoded_user d))))
    | Replied e \<Rightarrow> er_status e \<in> {401, 429} \<and>
        Some (er_correlationId e) = or_else (header req ''x-correlation-id'') (Some uid)
    | _ \<Rightarrow> True"
proof -
  let ?req = "correlationIdMiddleware uid req"
  have cid: "Some (the (or_else (header ?req ''x-correlation-id'') (Some ''unknown''))) =
      or_else (header req ''x-correlation-id'') (Some uid)"
    using assms by (simp add: or_else_def split: option.split)
  show ?thesis
  proof (cases rule: gateway_cases [of lib cfg now uid req hits])
    case limited
    with cid show ?thesis by (simp add: gatewayErrorHandler_def Let_def)
  next
    case (healthy h)
    then show ?thesis by simp
  next
    case routed
    show ?thesis
    proof (cases "dispatch_mounts lib ?req mounts")
      case (Forwarded svc path req')
      from dispatch_forwarded [OF Forwarded] obtain m url g where
        "(m, svc, g) \<in> set mounts" "if g then authenticateJwt lib False ?req = Inr req' else req' = ?req"
        by blast
      with mounts_guarded have fwd: "if svc = AUTH_SERVICE then req' = ?req else authenticateJwt lib False ?req = Inr req'"
        by (metis (full_types))
      show ?thesis
      proof (cases "svc = AUTH_SERVICE")
        case True
        with fwd routed Forwarded show ?thesis by simp
      next
        case False
        with fwd authenticated [of lib ?req req'] obtain token d where
          "bearer req = Some token" "jwtVerify lib token = Inr d" "req' = propagate_user (decoded_user d) ?req"
          by auto
        with False routed Forwarded show ?thesis
          by (auto simp: propagated decoded_user_def)
      qed
    next
      case (Replied e)
      from dispatch_replied [OF Replied] obtain err where
        "authenticateJwt lib False ?req = Inl err" "e = gatewayErrorHandler err ?req" by blast
      with unauthenticated [of lib ?req err] cid routed(1) Replied show ?thesis
        by (simp add: gatewayErrorHandler_def Let_def)
    qed (use routed in simp_all)
  qed
qed

definition demo_lib :: gateway_lib where
  "demo_lib = \<lparr> jwtVerify = (\<lambda>t. if t = ''good'' then Inr \<lparr> cl_sub = Some ''u1'', cl_userId = None, cl_tenantId = Some ''t1'',
       cl_email = Some ''a@b.c'', cl_roles = Some [''ADMIN''], cl_permissions = None, cl_sessionId = None \<rparr>
       else Inl ''jwt malformed''),
     mountAt = (\<lambda>m p. if starts_with m p then Some (drop (length m) p) else None),
     routeIs = (\<lambda>r p. r = p) \<rparr>"

definition demo_request :: "string \<Rightarrow> string \<Rightarrow> http_request" where
  "demo_request tok path = \<lparr> hq_method = ''GET'', hq_path = path,
     hq_headers = [(''authorization'', Some (''Bearer '' @ tok)), (''x-user-id'', Some ''root'')],
     hq_remoteAddress = Some ''10.0.0.1'' \<rparr>"

theorem gateway_protects_witness:
  "(case snd (gateway demo_lib demo_rate 0 ''c1'' (demo_request ''good'' ''/api/v1/orders/7'') []) of
      Forwarded svc path req' \<Rightarrow> svc = ORDER_SERVICE \<and> path = ''/api/v1/orders/7'' \<and> header req' ''x-user-id'' = Some ''u1''
    | _ \<Rightarrow> False) \<and>
   (case snd (gateway demo_lib demo_rate 0 ''c1'' (demo_request ''bad'' ''/api/v1/orders/7'') []) of
      Replied e \<Rightarrow> er_status e \<in> {401, 429} | _ \<Rightarrow> False)"
proof -
  have bad: "case snd (gateway demo_lib demo_rate 0 ''c1'' (demo_request ''bad'' ''/api/v1/orders/7'') []) of
      Replied e \<Rightarrow> True | _ \<Rightarrow> False" by code_simp
  have good: "case snd (gateway demo_lib demo_rate 0 ''c1'' (demo_request ''good'' ''/api/v1/orders/7'') []) of
      Forwarded svc path req' \<Rightarrow> svc = ORDER_SERVICE \<and> path = ''/api/v1/orders/7'' \<and> header req' ''x-user-id'' = Some ''u1''
    | _ \<Rightarrow> False" by code_simp
  have "''c1'' \<noteq> ([] :: string)" by simp
  note th = gateway_protects [OF this, where lib = demo_lib and cfg = demo_rate and now = 0
      and req = "demo_request ''bad'' ''/api/v1/orders/7''" and hits = "[]"]
  show ?thesis using th bad good by (auto split: gateway_result.splits)
qed

end
