(* ===== verification/Warehouse_Flow.thy ===== *)
theory Warehouse_Flow
  imports Prelude Double
begin

text \<open>
  Three warehouse algorithms of the inventory service (services/inventory-service/src): picking
  lots first-expired-first-out (lot/), matching inbound pallets with outbound orders (crossdock/)
  and booking dock doors (dock/).
\<close>

section \<open>First expired, first out\<close>

datatype QuarantineStatus = LOT_RELEASED | LOT_QUARANTINED | LOT_EXPIRED

record ILotBatchRecord =
  lt_lotNumber :: string
  lt_sku :: string
  lt_warehouseId :: string
  lt_manufactureDate :: instant
  lt_expirationDate :: instant
  lt_quantityOnHand :: int
  lt_quarantineStatus :: QuarantineStatus

type_synonym lots = "(string, ILotBatchRecord) jsmap"

definition registerLot :: "ILotBatchRecord \<Rightarrow> lots \<Rightarrow> lots" where
  "registerLot l m = jm_set (lt_lotNumber l) l m"

definition lot_eligible :: "instant \<Rightarrow> string \<Rightarrow> string \<Rightarrow> ILotBatchRecord \<Rightarrow> bool" where
  "lot_eligible now sku wh l \<longleftrightarrow> lt_sku l = sku \<and> lt_warehouseId l = wh \<and>
     lt_quarantineStatus l = LOT_RELEASED \<and> lt_expirationDate l > now \<and> lt_quantityOnHand l > 0"

fun take_lots :: "int \<Rightarrow> ILotBatchRecord list \<Rightarrow> (string \<times> int) list" where
  "take_lots remaining [] = []"
| "take_lots remaining (l # ls) =
     (if remaining \<le> 0 then []
      else let n = min remaining (lt_quantityOnHand l)
           in (lt_lotNumber l, n) # take_lots (remaining - n) ls)"

text \<open>\<open>Array.sort\<close> with a key comparison is stable, and so is \<open>sort_key\<close>.\<close>

definition matching_lots :: "instant \<Rightarrow> string \<Rightarrow> string \<Rightarrow> lots \<Rightarrow> ILotBatchRecord list" where
  "matching_lots now sku wh m = sort_key lt_expirationDate (filter (lot_eligible now sku wh) (jm_values m))"

definition getNextFefoAllocation :: "instant \<Rightarrow> string \<Rightarrow> string \<Rightarrow> int \<Rightarrow> lots \<Rightarrow> (string \<times> int) list" where
  "getNextFefoAllocation now sku wh qty m = take_lots qty (matching_lots now sku wh m)"

text \<open>What each lot gives: the part of the request the lots before it do not cover.\<close>

fun fefo_shares :: "int \<Rightarrow> ILotBatchRecord list \<Rightarrow> int list" where
  "fefo_shares q [] = []"
| "fefo_shares q (l # ls) = max 0 (min q (lt_quantityOnHand l)) # fefo_shares (q - lt_quantityOnHand l) ls"

lemma take_lots_total:
  "\<forall>l \<in> set ls. 0 < lt_quantityOnHand l \<Longrightarrow>
    (\<Sum>(k, n) \<leftarrow> take_lots q ls. n) = max 0 (min q (\<Sum>l \<leftarrow> ls. lt_quantityOnHand l))"
proof (induction q ls rule: take_lots.induct)
  case (2 q l ls)
  have "0 \<le> (\<Sum>l \<leftarrow> ls. lt_quantityOnHand l)" using 2(2) by (intro sum_list_nonneg) auto
  with 2 show ?case by (auto simp: Let_def min_def max_def)
qed simp

lemma take_lots_prefix:
  "\<forall>l \<in> set ls. 0 < lt_quantityOnHand l \<Longrightarrow>
    \<exists>n \<le> length ls. map fst (take_lots q ls) = map lt_lotNumber (take n ls) \<and>
      map snd (take_lots q ls) = take n (fefo_shares q ls) \<and>
      (\<forall>i < n. 0 < fefo_shares q ls ! i \<and> fefo_shares q ls ! i \<le> lt_quantityOnHand (ls ! i)) \<and>
      (\<forall>i. Suc i < n \<longrightarrow> fefo_shares q ls ! i = lt_quantityOnHand (ls ! i))"
proof (induction q ls rule: take_lots.induct)
  case (2 q l ls)
  show ?case
  proof (cases "q \<le> 0")
    case False
    define n where "n = min q (lt_quantityOnHand l)"
    have "\<forall>l \<in> set ls. 0 < lt_quantityOnHand l" using 2(2) by simp
    from 2(1) [OF False n_def this] obtain m where m: "m \<le> length ls"
      "map fst (take_lots (q - n) ls) = map lt_lotNumber (take m ls)"
      "map snd (take_lots (q - n) ls) = take m (fefo_shares (q - n) ls)"
      "\<forall>i < m. 0 < fefo_shares (q - n) ls ! i \<and> fefo_shares (q - n) ls ! i \<le> lt_quantityOnHand (ls ! i)"
      "\<forall>i. Suc i < m \<longrightarrow> fefo_shares (q - n) ls ! i = lt_quantityOnHand (ls ! i)" by blast
    show ?thesis
    proof (cases "lt_quantityOnHand l \<le> q")
      case True
      then have n: "n = lt_quantityOnHand l" by (simp add: n_def)
      have pos: "0 < n" using 2(2) n by simp
      show ?thesis
      proof (intro exI [of _ "Suc m"] conjI)
        show "\<forall>i < Suc m. 0 < fefo_shares q (l # ls) ! i \<and> fefo_shares q (l # ls) ! i \<le> lt_quantityOnHand ((l # ls) ! i)"
          using m(4) pos True n by (simp add: All_less_Suc2)
        show "\<forall>i. Suc i < Suc m \<longrightarrow> fefo_shares q (l # ls) ! i = lt_quantityOnHand ((l # ls) ! i)"
        proof (intro allI impI)
          fix i assume "Suc i < Suc m"
          with m(5) pos True n show "fefo_shares q (l # ls) ! i = lt_quantityOnHand ((l # ls) ! i)"
            by (cases i) simp_all
        qed
      qed (use m(1-3) False True pos n n_def in \<open>simp_all add: Let_def\<close>)
    next
      case less: False
      then have n: "n = q" by (simp add: n_def)
      then have "take_lots (q - n) ls = []" by (cases ls) simp_all
      with less False n 2(2) show ?thesis
        by (intro exI [of _ 1]) (simp add: Let_def n_def [symmetric])
    qed
  qed (simp add: exI [of _ 0])
qed simp

text \<open>Lots are picked first expired, first out. The allocation takes from released, unexpired,
  non-empty lots of the SKU and warehouse only, in the order of their expiration; each lot gives at
  least one unit and at most what it holds; every lot that is touched, but the last, is emptied
  before a later-expiring one is opened; and the total is the requested quantity or all there is.\<close>

theorem fefo_allocation:
  assumes "keyed lt_lotNumber m"
  shows "let a = getNextFefoAllocation now sku wh q m; ls = matching_lots now sku wh m in
    sorted (map lt_expirationDate ls) \<and>
    mset ls = filter_mset (lot_eligible now sku wh) (mset (jm_values m)) \<and>
    distinct (map fst a) \<and>
    map fst a = map lt_lotNumber (take (length a) ls) \<and> length a \<le> length ls \<and>
    (\<forall>i < length a. 0 < snd (a ! i) \<and> snd (a ! i) \<le> lt_quantityOnHand (ls ! i)) \<and>
    (\<forall>i. Suc i < length a \<longrightarrow> snd (a ! i) = lt_quantityOnHand (ls ! i)) \<and>
    (\<Sum>(k, n) \<leftarrow> a. n) = max 0 (min q (\<Sum>l \<leftarrow> ls. lt_quantityOnHand l))"
proof -
  define ls where "ls = matching_lots now sku wh m"
  define a where "a = getNextFefoAllocation now sku wh q m"
  have a: "a = take_lots q ls" by (simp add: a_def ls_def getNextFefoAllocation_def)
  have elig: "\<forall>l \<in> set ls. 0 < lt_quantityOnHand l" by (simp add: ls_def matching_lots_def lot_eligible_def)
  from take_lots_prefix [OF elig, of q] obtain n where n: "n \<le> length ls"
    "map fst a = map lt_lotNumber (take n ls)" "map snd a = take n (fefo_shares q ls)"
    "\<forall>i < n. 0 < fefo_shares q ls ! i \<and> fefo_shares q ls ! i \<le> lt_quantityOnHand (ls ! i)"
    "\<forall>i. Suc i < n \<longrightarrow> fefo_shares q ls ! i = lt_quantityOnHand (ls ! i)" unfolding a by blast
  have len: "length a = n" using arg_cong [OF n(2), of length] n(1) by simp
  have snd: "snd (a ! i) = fefo_shares q ls ! i" if "i < n" for i
    using arg_cong [OF n(3), of "\<lambda>xs. xs ! i"] that len by simp
  have "distinct (map lt_lotNumber (jm_values m))"
  proof -
    have "map lt_lotNumber (jm_values m) = map fst m"
      using assms by (auto simp: keyed_def jm_values_def)
    then show ?thesis using assms by (simp add: keyed_def)
  qed
  then have "distinct (map lt_lotNumber (filter (lot_eligible now sku wh) (jm_values m)))"
    by (rule distinct_map_filter)
  then have "inj_on lt_lotNumber (set ls)" "distinct ls"
    by (simp_all add: ls_def matching_lots_def distinct_map)
  then have dist: "distinct (map lt_lotNumber ls)" by (simp add: distinct_map)
  then have "distinct (map fst a)" unfolding n(2) by (simp add: take_map [symmetric])
  moreover have "mset ls = filter_mset (lot_eligible now sku wh) (mset (jm_values m))"
    by (simp add: ls_def matching_lots_def)
  moreover have "sorted (map lt_expirationDate ls)" by (simp add: ls_def matching_lots_def)
  ultimately show ?thesis
    using n len snd take_lots_total [OF elig, of q]
    unfolding Let_def a_def [symmetric] ls_def [symmetric] by (simp add: a [symmetric])
qed

definition demo_lot :: "string \<Rightarrow> instant \<Rightarrow> int \<Rightarrow> ILotBatchRecord" where
  "demo_lot n e q = \<lparr> lt_lotNumber = n, lt_sku = ''S'', lt_warehouseId = ''W'', lt_manufactureDate = 0,
     lt_expirationDate = e, lt_quantityOnHand = q, lt_quarantineStatus = LOT_RELEASED \<rparr>"

definition demo_lots :: lots where
  "demo_lots = registerLot (demo_lot ''c'' 90 4) (registerLot (demo_lot ''b'' 20 7)
     (registerLot (demo_lot ''a'' 50 5) (registerLot (demo_lot ''x'' 5 100) [])))"

theorem fefo_allocation_witness:
  "getNextFefoAllocation 10 ''S'' ''W'' 13 demo_lots = [(''b'', 7), (''a'', 5), (''c'', 1)] \<and>
   distinct (map fst (getNextFefoAllocation 10 ''S'' ''W'' 13 demo_lots))"
proof -
  have "keyed lt_lotNumber demo_lots" by (simp add: keyed_def demo_lots_def registerLot_def demo_lot_def)
  note th = fefo_allocation [OF this, of 10 "''S''" "''W''" 13]
  have "getNextFefoAllocation 10 ''S'' ''W'' 13 demo_lots = [(''b'', 7), (''a'', 5), (''c'', 1)]" by code_simp
  then show ?thesis using th unfolding Let_def by blast
qed

section \<open>Cross-docking\<close>

record IInboundPallet =
  ip_palletId :: string
  ip_sku :: string
  ip_quantity :: int
  ip_weightKg :: rat
  ip_inboundDockDoor :: string
  ip_receivedTimestamp :: instant

record IOutboundRequirement =
  or_orderId :: string
  or_sku :: string
  or_requiredQuantity :: int
  or_outboundDockDoor :: string
  or_carrierDepartureTime :: instant

record crossdock_match =
  cm_palletId :: string
  cm_orderId :: string
  cm_matchedQuantity :: int
  cm_directDockTransferDoor :: string

text \<open>The first order that still needs the pallet's SKU, served; the pallets are distinct objects.\<close>

fun serve_order :: "IInboundPallet \<Rightarrow> IOutboundRequirement list \<Rightarrow> (IOutboundRequirement list \<times> crossdock_match) option" where
  "serve_order p [] = None"
| "serve_order p (d # ds) =
     (if or_sku d = ip_sku p \<and> or_requiredQuantity d > 0
      then let n = min (ip_quantity p) (or_requiredQuantity d)
           in Some (d\<lparr> or_requiredQuantity := or_requiredQuantity d - n \<rparr> # ds,
                    \<lparr> cm_palletId = ip_palletId p, cm_orderId = or_orderId d, cm_matchedQuantity = n,
                      cm_directDockTransferDoor = or_outboundDockDoor d \<rparr>)
      else (case serve_order p ds of None \<Rightarrow> None | Some (ds', m) \<Rightarrow> Some (d # ds', m)))"

fun matchCrossDockOpportunities ::
  "IInboundPallet list \<Rightarrow> IOutboundRequirement list
     \<Rightarrow> IInboundPallet list \<times> IOutboundRequirement list \<times> crossdock_match list" where
  "matchCrossDockOpportunities [] ds = ([], ds, [])"
| "matchCrossDockOpportunities (p # ps) ds =
     (case serve_order p ds of
        None \<Rightarrow> (case matchCrossDockOpportunities ps ds of (ps', ds', ms) \<Rightarrow> (p # ps', ds', ms))
      | Some (ds1, m) \<Rightarrow>
          (case matchCrossDockOpportunities ps ds1 of
             (ps', ds', ms) \<Rightarrow>
               (p\<lparr> ip_quantity := ip_quantity p - cm_matchedQuantity m \<rparr> # ps', ds', m # ms)))"

definition stock_of :: "string \<Rightarrow> IInboundPallet list \<Rightarrow> int" where
  "stock_of s ps = (\<Sum>p \<leftarrow> ps. if ip_sku p = s then ip_quantity p else 0)"

definition need_of :: "string \<Rightarrow> IOutboundRequirement list \<Rightarrow> int" where
  "need_of s ds = (\<Sum>d \<leftarrow> ds. if or_sku d = s then or_requiredQuantity d else 0)"

definition order_line :: "IOutboundRequirement \<Rightarrow> string \<times> string" where
  "order_line d = (or_orderId d, or_sku d)"

lemma serve_order_Some:
  "serve_order p ds = Some (ds', m) \<Longrightarrow>
    need_of s ds' = need_of s ds - (if ip_sku p = s then cm_matchedQuantity m else 0) \<and>
    cm_matchedQuantity m \<le> ip_quantity p \<and> cm_palletId m = ip_palletId p \<and>
    (0 \<le> ip_quantity p \<longrightarrow> 0 \<le> cm_matchedQuantity m) \<and> (0 < ip_quantity p \<longrightarrow> 0 < cm_matchedQuantity m) \<and>
    (cm_orderId m, ip_sku p) \<in> set (map order_line ds) \<and> map order_line ds' = map order_line ds \<and>
    ((\<forall>d \<in> set ds. 0 \<le> or_requiredQuantity d) \<longrightarrow> (\<forall>d \<in> set ds'. 0 \<le> or_requiredQuantity d))"
proof (induction p ds arbitrary: ds' rule: serve_order.induct)
  case (2 p d ds)
  show ?case
  proof (cases "or_sku d = ip_sku p \<and> or_requiredQuantity d > 0")
    case True
    with 2(2) show ?thesis by (auto simp: need_of_def order_line_def Let_def)
  next
    case False
    with 2(2) obtain ds1 where ds1: "serve_order p ds = Some (ds1, m)" "ds' = d # ds1"
      by (auto simp del: de_Morgan_conj split: option.splits)
    from 2(1) [OF False ds1(1)] ds1(2) show ?thesis by (auto simp: need_of_def)
  qed
qed simp

text \<open>Cross-docking conserves goods. For every SKU, what the matching takes off the inbound
  pallets is exactly what it takes off the outbound requirements, and all matches together account
  for it; no pallet and no requirement goes below zero; a match pairs a pallet with an order of its
  SKU; identities and order are kept.\<close>

theorem crossdock_conserves:
  assumes "\<forall>p \<in> set ps. 0 \<le> ip_quantity p" and "\<forall>d \<in> set ds. 0 \<le> or_requiredQuantity d"
    and "matchCrossDockOpportunities ps ds = (ps', ds', ms)"
  shows "(\<forall>s. stock_of s ps - stock_of s ps' = need_of s ds - need_of s ds') \<and>
    (\<Sum>p \<leftarrow> ps. ip_quantity p) - (\<Sum>p \<leftarrow> ps'. ip_quantity p) = (\<Sum>m \<leftarrow> ms. cm_matchedQuantity m) \<and>
    (\<forall>p \<in> set ps'. 0 \<le> ip_quantity p) \<and> (\<forall>d \<in> set ds'. 0 \<le> or_requiredQuantity d) \<and>
    map ip_palletId ps' = map ip_palletId ps \<and> map order_line ds' = map order_line ds \<and>
    (\<forall>m \<in> set ms. 0 \<le> cm_matchedQuantity m \<and>
       (\<exists>p \<in> set ps. ip_palletId p = cm_palletId m \<and> (cm_orderId m, ip_sku p) \<in> set (map order_line ds)))"
  using assms
proof (induction ps arbitrary: ds ps' ds' ms)
  case (Cons p ps)
  show ?case
  proof (cases "serve_order p ds")
    case None
    with Cons.prems(3) obtain qs where qs: "matchCrossDockOpportunities ps ds = (qs, ds', ms)" "ps' = p # qs"
      by (auto split: prod.splits)
    from Cons.IH [OF _ Cons.prems(2) qs(1)] Cons.prems(1) show ?thesis
      by (auto simp: qs(2) stock_of_def)
  next
    case (Some dm)
    obtain ds1 m where dm: "dm = (ds1, m)" by force
    with Some Cons.prems(3) obtain qs ms' where qs: "matchCrossDockOpportunities ps ds1 = (qs, ds', ms')"
      "ps' = p\<lparr> ip_quantity := ip_quantity p - cm_matchedQuantity m \<rparr> # qs" "ms = m # ms'"
      by (auto split: prod.splits)
    note srv = serve_order_Some [OF Some [unfolded dm]]
    have nn: "\<forall>d \<in> set ds1. 0 \<le> or_requiredQuantity d" and lines: "map order_line ds1 = map order_line ds"
      using srv Cons.prems(2) by blast+
    have pos: "\<forall>p \<in> set ps. 0 \<le> ip_quantity p" using Cons.prems(1) by simp
    note IH = Cons.IH [OF pos nn qs(1), unfolded lines]
    have first: "0 \<le> cm_matchedQuantity m \<and> ip_palletId p = cm_palletId m \<and>
        (cm_orderId m, ip_sku p) \<in> set (map order_line ds) \<and> cm_matchedQuantity m \<le> ip_quantity p"
      using srv Cons.prems(1) by auto
    have "stock_of s (p # ps) - stock_of s ps' = need_of s ds - need_of s ds'" for s
    proof -
      have "stock_of s ps - stock_of s qs = need_of s ds1 - need_of s ds'" using IH by blast
      moreover have "need_of s ds1 = need_of s ds - (if ip_sku p = s then cm_matchedQuantity m else 0)"
        using srv [of s] by blast
      moreover have "stock_of s (p # ps) - stock_of s ps' =
          stock_of s ps - stock_of s qs + (if ip_sku p = s then cm_matchedQuantity m else 0)"
        by (simp add: stock_of_def qs(2))
      ultimately show ?thesis by linarith
    qed
    with IH first qs(2,3) show ?thesis by auto
  qed
qed simp

definition demo_pallets :: "IInboundPallet list" where
  "demo_pallets =
     [\<lparr> ip_palletId = ''p1'', ip_sku = ''S'', ip_quantity = 8, ip_weightKg = 1, ip_inboundDockDoor = ''i1'', ip_receivedTimestamp = 0 \<rparr>,
      \<lparr> ip_palletId = ''p2'', ip_sku = ''S'', ip_quantity = 4, ip_weightKg = 1, ip_inboundDockDoor = ''i1'', ip_receivedTimestamp = 0 \<rparr>]"

definition demo_needs :: "IOutboundRequirement list" where
  "demo_needs =
     [\<lparr> or_orderId = ''o1'', or_sku = ''S'', or_requiredQuantity = 5, or_outboundDockDoor = ''d1'', or_carrierDepartureTime = 9 \<rparr>,
      \<lparr> or_orderId = ''o2'', or_sku = ''S'', or_requiredQuantity = 6, or_outboundDockDoor = ''d2'', or_carrierDepartureTime = 9 \<rparr>]"

text \<open>The three units left on the first pallet are not offered to the second order, which stays two short.\<close>

theorem crossdock_conserves_witness:
  "(case matchCrossDockOpportunities demo_pallets demo_needs of (ps', ds', ms) \<Rightarrow>
      map ip_quantity ps' = [3, 0] \<and> map or_requiredQuantity ds' = [0, 2] \<and>
      stock_of ''S'' demo_pallets - stock_of ''S'' ps' = need_of ''S'' demo_needs - need_of ''S'' ds')"
proof -
  obtain ps' ds' ms where run: "matchCrossDockOpportunities demo_pallets demo_needs = (ps', ds', ms)" by (cases rule: prod_cases3)
  have "list_all (\<lambda>p. 0 \<le> ip_quantity p) demo_pallets" "list_all (\<lambda>d. 0 \<le> or_requiredQuantity d) demo_needs"
    by code_simp+
  with crossdock_conserves [OF _ _ run]
  have "stock_of ''S'' demo_pallets - stock_of ''S'' ps' = need_of ''S'' demo_needs - need_of ''S'' ds'"
    by (simp add: list_all_iff)
  moreover have "case matchCrossDockOpportunities demo_pallets demo_needs of (ps', ds', ms) \<Rightarrow>
      map ip_quantity ps' = [3, 0] \<and> map or_requiredQuantity ds' = [0, 2]" by (simp add: demo_pallets_def demo_needs_def)
  ultimately show ?thesis by (simp add: run)
qed

section \<open>Dock door appointments\<close>

datatype DoorType = INBOUND_UNLOAD | OUTBOUND_LOAD | DUAL_PURPOSE

record IDockDoor =
  dd_doorId :: string
  dd_doorNumber :: string
  dd_warehouseId :: string
  dd_doorType :: DoorType
  dd_hasColdTunnelSeal :: bool
  dd_maxTrailerLengthFeet :: int
  dd_isOperational :: bool

datatype AppointmentStatus = APT_BOOKED | APT_CHECKED_IN | APT_AT_DOCK | APT_COMPLETED | APT_CANCELLED | APT_NO_SHOW

record IAppointmentSlot =
  ap_appointmentId :: string
  ap_doorId :: string
  ap_carrierCode :: string
  ap_scheduledStart :: instant
  ap_scheduledEnd :: instant
  ap_status :: AppointmentStatus

record DockScheduler =
  ds_doors :: "(string, IDockDoor) jsmap"
  ds_appointments :: "(string, IAppointmentSlot) jsmap"

record booking =
  bo_warehouseId :: string
  bo_carrierCode :: string
  bo_doorType :: DoorType
  bo_startTime :: instant
  bo_durationMinutes :: int
  bo_requiresColdSeal :: bool

definition registerDoor :: "IDockDoor \<Rightarrow> DockScheduler \<Rightarrow> DockScheduler" where
  "registerDoor d s = s\<lparr> ds_doors := jm_set (dd_doorId d) d (ds_doors s) \<rparr>"

definition eligible_door :: "booking \<Rightarrow> IDockDoor \<Rightarrow> bool" where
  "eligible_door b d \<longleftrightarrow> dd_warehouseId d = bo_warehouseId b \<and> dd_isOperational d \<and>
     (dd_doorType d = bo_doorType b \<or> dd_doorType d = DUAL_PURPOSE) \<and>
     (\<not> bo_requiresColdSeal b \<or> dd_hasColdTunnelSeal d)"

definition end_time :: "booking \<Rightarrow> instant" where
  "end_time b = bo_startTime b + bo_durationMinutes b * 60000"

definition has_conflict :: "booking \<Rightarrow> string \<Rightarrow> IAppointmentSlot \<Rightarrow> bool" where
  "has_conflict b door app \<longleftrightarrow> ap_doorId app = door \<and> ap_status app \<noteq> APT_CANCELLED \<and>
     ((ap_scheduledStart app \<le> bo_startTime b \<and> bo_startTime b < ap_scheduledEnd app) \<or>
      (ap_scheduledStart app < end_time b \<and> end_time b \<le> ap_scheduledEnd app))"

definition appointment_id :: "instant \<Rightarrow> string" where
  "appointment_id now = ''DOCK-APT-'' @ to_upper (base_string 36 (nat now))"

definition bookAppointment :: "instant \<Rightarrow> booking \<Rightarrow> DockScheduler \<Rightarrow> DockScheduler \<times> (string + IAppointmentSlot)" where
  "bookAppointment now b s =
     (let eligible = filter (eligible_door b) (jm_values (ds_doors s))
      in if eligible = [] then (s, Inl ''No eligible dock doors found matching the requested facility criteria'')
         else case find (\<lambda>d. \<not> list_ex (has_conflict b (dd_doorId d)) (jm_values (ds_appointments s))) eligible of
                None \<Rightarrow> (s, Inl ''All eligible dock doors are fully booked for the requested time window'')
              | Some d \<Rightarrow>
                  let slot = \<lparr> ap_appointmentId = appointment_id now, ap_doorId = dd_doorId d,
                        ap_carrierCode = bo_carrierCode b, ap_scheduledStart = bo_startTime b,
                        ap_scheduledEnd = end_time b, ap_status = APT_BOOKED \<rparr>
                  in (s\<lparr> ds_appointments := jm_set (appointment_id now) slot (ds_appointments s) \<rparr>, Inr slot))"

definition overlap :: "IAppointmentSlot \<Rightarrow> IAppointmentSlot \<Rightarrow> bool" where
  "overlap a b \<longleftrightarrow> ap_doorId a = ap_doorId b \<and>
     ap_scheduledStart a < ap_scheduledEnd b \<and> ap_scheduledStart b < ap_scheduledEnd a"

text \<open>The slots granted by a run of bookings, each at its clock reading.\<close>

fun book_run :: "(instant \<times> booking) list \<Rightarrow> DockScheduler \<Rightarrow> IAppointmentSlot list" where
  "book_run [] s = []"
| "book_run ((now, b) # bs) s =
     (case bookAppointment now b s of
        (s', Inl _) \<Rightarrow> book_run bs s'
      | (s', Inr slot) \<Rightarrow> slot # book_run bs s')"

lemma appointment_id_inj:
  assumes "0 \<le> m" and "0 \<le> n" and "appointment_id m = appointment_id n"
  shows "m = n"
proof -
  have up: "char_digit (lower_char (upper_char (digit_char d))) = d" if "d < 36" for d
    using that by (auto simp: char_digit_def lower_char_def upper_char_def digit_char_def Let_def)
  have inv: "base_value 36 (to_lower (to_upper (base_string 36 k))) = k" for k
  proof (induction k rule: less_induct)
    case (less k)
    have app: "base_value 36 (to_lower (to_upper (xs @ [c]))) =
        base_value 36 (to_lower (to_upper xs)) * 36 + char_digit (lower_char (upper_char c))" for xs c
      by (simp add: base_value_def to_lower_def to_upper_def)
    show ?case
    proof (cases "k < 36")
      case True
      then show ?thesis
        by (simp add: base_string.simps [of 36 k] base_value_def to_lower_def to_upper_def up)
    next
      case False
      then have "base_value 36 (to_lower (to_upper (base_string 36 (k div 36)))) = k div 36" by (intro less) simp
      with False show ?thesis by (simp add: base_string.simps [of 36 k] app up)
    qed
  qed
  from assms(3) have "to_upper (base_string 36 (nat m)) = to_upper (base_string 36 (nat n))"
    by (simp add: appointment_id_def)
  then have "nat m = nat n" using inv by metis
  with assms(1,2) show ?thesis by simp
qed

lemma bookAppointment_Inr:
  assumes "bookAppointment now b s = (s', Inr slot)"
  shows "s' = s\<lparr> ds_appointments := jm_set (appointment_id now) slot (ds_appointments s) \<rparr>"
    and "ap_appointmentId slot = appointment_id now" and "ap_scheduledStart slot = bo_startTime b"
    and "ap_scheduledEnd slot = end_time b" and "ap_status slot = APT_BOOKED"
    and "\<forall>a \<in> set (jm_values (ds_appointments s)). \<not> has_conflict b (ap_doorId slot) a"
    and "\<exists>d \<in> set (jm_values (ds_doors s)). dd_doorId d = ap_doorId slot \<and> eligible_door b d"
  using assms
  by (auto simp: bookAppointment_def Let_def list_ex_iff split: if_splits option.splits dest!: find_SomeD)

lemma bookAppointment_Inl: "bookAppointment now b s = (s', Inl e) \<Longrightarrow> s' = s"
  by (auto simp: bookAppointment_def Let_def split: if_splits option.splits)

lemma no_conflict_same_length:
  assumes "\<not> has_conflict b (ap_doorId slot) a" and "ap_status a \<noteq> APT_CANCELLED"
    and "ap_scheduledStart slot = bo_startTime b" and "ap_scheduledEnd slot = end_time b"
    and "bo_durationMinutes b = D" and "ap_scheduledEnd a = ap_scheduledStart a + D * 60000" and "0 < D"
  shows "\<not> overlap a slot" and "\<not> overlap slot a"
  using assms by (auto simp: has_conflict_def overlap_def end_time_def)

lemma book_run_disjoint:
  assumes "sorted_wrt (<) (map fst bs)" and "\<forall>(t, b) \<in> set bs. 0 \<le> t \<and> bo_durationMinutes b = D" and "0 < D"
    and "\<forall>a \<in> set old. \<exists>t. 0 \<le> t \<and> (\<forall>(t', b) \<in> set bs. t < t') \<and> jm_get (ds_appointments s) (appointment_id t) = Some a \<and>
      ap_status a \<noteq> APT_CANCELLED \<and> ap_scheduledEnd a = ap_scheduledStart a + D * 60000"
    and "sorted_wrt (\<lambda>a b. \<not> overlap a b) old"
  shows "sorted_wrt (\<lambda>a b. \<not> overlap a b) (old @ book_run bs s)"
  using assms
proof (induction bs arbitrary: old s)
  case (Cons tb bs)
  obtain t b where tb: "tb = (t, b)" by force
  have rest: "sorted_wrt (<) (map fst bs)" "\<forall>(t, b) \<in> set bs. 0 \<le> t \<and> bo_durationMinutes b = D"
    "\<forall>(t', b') \<in> set bs. t < t'" "0 \<le> t" "bo_durationMinutes b = D"
    using Cons.prems(1,2) tb by auto
  show ?case
  proof (cases "bookAppointment t b s")
    case (Pair s' r)
    show ?thesis
    proof (cases r)
      case (Inl e)
      have "s' = s" using Pair Inl bookAppointment_Inl by simp
      moreover have "\<forall>a \<in> set old. \<exists>t. 0 \<le> t \<and> (\<forall>(t', b) \<in> set bs. t < t') \<and>
          jm_get (ds_appointments s) (appointment_id t) = Some a \<and>
          ap_status a \<noteq> APT_CANCELLED \<and> ap_scheduledEnd a = ap_scheduledStart a + D * 60000"
        using Cons.prems(4) by fastforce
      ultimately show ?thesis using Cons.IH [OF rest(1,2) Cons.prems(3) _ Cons.prems(5), of s] Pair Inl tb by simp
    next
      case (Inr slot)
      note bk = bookAppointment_Inr [OF Pair [unfolded Inr]]
      have slot: "ap_scheduledEnd slot = ap_scheduledStart slot + D * 60000" using bk(3,4) rest(5) by (simp add: end_time_def)
      have new: "\<not> overlap a slot" if "a \<in> set old" for a
      proof -
        from that Cons.prems(4) obtain u where u: "jm_get (ds_appointments s) (appointment_id u) = Some a"
          "ap_status a \<noteq> APT_CANCELLED" "ap_scheduledEnd a = ap_scheduledStart a + D * 60000" by blast
        then have "\<not> has_conflict b (ap_doorId slot) a" using bk(6) jm_get_value by fast
        from no_conflict_same_length(1) [OF this u(2) bk(3,4) rest(5) u(3) Cons.prems(3)] show ?thesis .
      qed
      have keep: "\<forall>a \<in> set (old @ [slot]). \<exists>u. 0 \<le> u \<and> (\<forall>(t', b) \<in> set bs. u < t') \<and>
          jm_get (ds_appointments s') (appointment_id u) = Some a \<and>
          ap_status a \<noteq> APT_CANCELLED \<and> ap_scheduledEnd a = ap_scheduledStart a + D * 60000"
      proof
        fix a assume "a \<in> set (old @ [slot])"
        then consider "a \<in> set old" | "a = slot" by auto
        then show "\<exists>u. 0 \<le> u \<and> (\<forall>(t', b) \<in> set bs. u < t') \<and>
          jm_get (ds_appointments s') (appointment_id u) = Some a \<and>
          ap_status a \<noteq> APT_CANCELLED \<and> ap_scheduledEnd a = ap_scheduledStart a + D * 60000"
        proof cases
          case 1
          with Cons.prems(4) obtain u where u: "0 \<le> u" "\<forall>(t', b) \<in> set (tb # bs). u < t'"
            "jm_get (ds_appointments s) (appointment_id u) = Some a"
            "ap_status a \<noteq> APT_CANCELLED" "ap_scheduledEnd a = ap_scheduledStart a + D * 60000" by blast
          have "appointment_id u \<noteq> appointment_id t"
            using appointment_id_inj [OF u(1) rest(4)] u(2) tb by auto
          with u bk(1) show ?thesis by (intro exI [of _ u]) auto
        next
          case 2
          with rest(3,4) bk(1,5) slot show ?thesis by (intro exI [of _ t]) auto
        qed
      qed
      have "sorted_wrt (\<lambda>a b. \<not> overlap a b) (old @ [slot])" using Cons.prems(5) new by (simp add: sorted_wrt_append)
      from Cons.IH [OF rest(1,2) Cons.prems(3) keep this] show ?thesis using Pair Inr tb by simp
    qed
  qed
qed simp

text \<open>No dock door is booked twice. When all appointments have the same positive length (60
  minutes unless the caller says otherwise) and the clock advances between bookings, no two slots
  granted for one door overlap, and every granted slot is on an operational door of the warehouse
  of a fitting kind, with a cold seal if asked for.\<close>

theorem dock_no_overlap:
  assumes "sorted_wrt (<) (map fst bs)" and "\<forall>(t, b) \<in> set bs. 0 \<le> t \<and> bo_durationMinutes b = D" and "0 < D"
    and "ds_appointments s = []"
  shows "sorted_wrt (\<lambda>a b. \<not> overlap a b) (book_run bs s) \<and>
    (\<forall>now b s' slot. bookAppointment now b s = (s', Inr slot) \<longrightarrow>
      (\<exists>d \<in> set (jm_values (ds_doors s)). dd_doorId d = ap_doorId slot \<and> dd_isOperational d \<and>
        dd_warehouseId d = bo_warehouseId b \<and> dd_doorType d \<in> {bo_doorType b, DUAL_PURPOSE} \<and>
        (bo_requiresColdSeal b \<longrightarrow> dd_hasColdTunnelSeal d)))"
proof (intro conjI allI impI)
  show "sorted_wrt (\<lambda>a b. \<not> overlap a b) (book_run bs s)"
    using book_run_disjoint [OF assms(1-3), of "[]" s] by simp
next
  fix now b s' slot
  assume "bookAppointment now b s = (s', Inr slot)"
  from bookAppointment_Inr(7) [OF this] show "\<exists>d \<in> set (jm_values (ds_doors s)). dd_doorId d = ap_doorId slot \<and>
      dd_isOperational d \<and> dd_warehouseId d = bo_warehouseId b \<and> dd_doorType d \<in> {bo_doorType b, DUAL_PURPOSE} \<and>
      (bo_requiresColdSeal b \<longrightarrow> dd_hasColdTunnelSeal d)"
    by (auto simp: eligible_door_def)
qed

definition demo_docks :: DockScheduler where
  "demo_docks = registerDoor \<lparr> dd_doorId = ''D1'', dd_doorNumber = ''1'', dd_warehouseId = ''W'', dd_doorType = DUAL_PURPOSE,
     dd_hasColdTunnelSeal = False, dd_maxTrailerLengthFeet = 53, dd_isOperational = True \<rparr>
     \<lparr> ds_doors = [], ds_appointments = [] \<rparr>"

definition demo_booking :: "instant \<Rightarrow> int \<Rightarrow> booking" where
  "demo_booking t d = \<lparr> bo_warehouseId = ''W'', bo_carrierCode = ''C'', bo_doorType = INBOUND_UNLOAD,
     bo_startTime = t, bo_durationMinutes = d, bo_requiresColdSeal = False \<rparr>"

text \<open>
  Both hypotheses matter: a longer booking that encloses an earlier one is granted, and so are two
  overlapping bookings after a third one took the first one's identifier within a millisecond.
\<close>

theorem dock_no_overlap_witness:
  "map ap_scheduledStart (book_run [(1, demo_booking 0 60), (2, demo_booking 1800000 60), (3, demo_booking 3600000 60)] demo_docks)
     = [0, 3600000] \<and>
   sorted_wrt (\<lambda>a b. \<not> overlap a b)
     (book_run [(1, demo_booking 0 60), (2, demo_booking 1800000 60), (3, demo_booking 3600000 60)] demo_docks) \<and>
   (case book_run [(1, demo_booking 600000 10), (2, demo_booking 0 60)] demo_docks of [a, b] \<Rightarrow> overlap a b | _ \<Rightarrow> False) \<and>
   (case book_run [(1, demo_booking 0 60), (1, demo_booking 3600000 60), (2, demo_booking 0 60)] demo_docks of
      [a, b, c] \<Rightarrow> overlap a c | _ \<Rightarrow> False)"
proof -
  have 1: "sorted_wrt (\<lambda>a b. \<not> overlap a b)
     (book_run [(1, demo_booking 0 60), (2, demo_booking 1800000 60), (3, demo_booking 3600000 60)] demo_docks)"
    by (rule conjunct1 [OF dock_no_overlap [where D = 60]]) (simp_all add: demo_booking_def demo_docks_def registerDoor_def)
  have 2: "map ap_scheduledStart (book_run [(1, demo_booking 0 60), (2, demo_booking 1800000 60), (3, demo_booking 3600000 60)] demo_docks)
     = [0, 3600000]" by code_simp
  have 3: "case book_run [(1, demo_booking 600000 10), (2, demo_booking 0 60)] demo_docks of [a, b] \<Rightarrow> overlap a b | _ \<Rightarrow> False"
    by code_simp
  have 4: "case book_run [(1, demo_booking 0 60), (1, demo_booking 3600000 60), (2, demo_booking 0 60)] demo_docks of
      [a, b, c] \<Rightarrow> overlap a c | _ \<Rightarrow> False" by code_simp
  from 1 2 3 4 show ?thesis by blast
qed

end
