(* ===== verification/Outbox.thy ===== *)
theory Outbox
  imports Common_Types
begin

text \<open>
  The transactional outbox (services/order-service/src/events/OrderLifecycleEventOutboxHandler.ts;
  every service carries the same class over its own event record): events are queued, and a flush
  hands each pending message to the subscribers of its type, counts failures and gives a message up
  after five. A subscriber is a function on the state \<open>'w\<close> of the world outside, which may
  fail with a message; flushes do not overlap.
\<close>

section \<open>Messages and subscribers\<close>

record DomainEvent =
  ev_eventId :: string
  ev_eventType :: string
  ev_aggregateId :: string
  ev_tenantId :: string
  ev_schemaVersion :: nat
  ev_occurredAt :: instant
  ev_correlationId :: string
  ev_causationId :: "string option"

datatype OutboxStatus = OB_PENDING | OB_PUBLISHED | OB_DEAD_LETTER

record IOutboxMessage =
  ob_messageId :: string
  ob_destinationTopic :: string
  ob_partitionKey :: string
  ob_eventPayload :: DomainEvent
  ob_status :: OutboxStatus
  ob_retryCount :: nat
  ob_lastAttemptAt :: "instant option"
  ob_errorMessage :: "string option"
  ob_createdAt :: instant

type_synonym 'w subscriber = "DomainEvent \<Rightarrow> 'w \<Rightarrow> 'w \<times> string option"

record 'w outbox =
  ox_queue :: "IOutboxMessage list"
  ox_subscribers :: "(string, 'w subscriber list) jsmap"

definition outbox_new :: "'w outbox" where
  "outbox_new = \<lparr> ox_queue = [], ox_subscribers = [] \<rparr>"

definition queueEvent :: "instant \<Rightarrow> string \<Rightarrow> string \<Rightarrow> DomainEvent \<Rightarrow> 'w outbox \<Rightarrow> 'w outbox \<times> IOutboxMessage" where
  "queueEvent now token topic ev ob =
     (let m = \<lparr> ob_messageId = ''msg_'' @ base_string 36 (nat now) @ token, ob_destinationTopic = topic,
            ob_partitionKey = ev_tenantId ev, ob_eventPayload = ev, ob_status = OB_PENDING, ob_retryCount = 0,
            ob_lastAttemptAt = None, ob_errorMessage = None, ob_createdAt = now \<rparr>
      in (ob\<lparr> ox_queue := ox_queue ob @ [m] \<rparr>, m))"

definition ob_subscribe :: "string \<Rightarrow> 'w subscriber \<Rightarrow> 'w outbox \<Rightarrow> 'w outbox" where
  "ob_subscribe t h ob =
     (let hs = (case jm_get (ox_subscribers ob) t of None \<Rightarrow> [] | Some hs \<Rightarrow> hs)
      in ob\<lparr> ox_subscribers := jm_set t (hs @ [h]) (ox_subscribers ob) \<rparr>)"

section \<open>Flushing\<close>

text \<open>Subscribers run one after another; the first that fails ends the attempt.\<close>

fun run_handlers :: "'w subscriber list \<Rightarrow> DomainEvent \<Rightarrow> 'w \<Rightarrow> 'w \<times> string option" where
  "run_handlers [] ev w = (w, None)"
| "run_handlers (h # hs) ev w =
     (case h ev w of (w', None) \<Rightarrow> run_handlers hs ev w' | (w', Some e) \<Rightarrow> (w', Some e))"

definition handlers_for :: "(string, 'w subscriber list) jsmap \<Rightarrow> IOutboxMessage \<Rightarrow> 'w subscriber list" where
  "handlers_for subs m = (case jm_get subs (ev_eventType (ob_eventPayload m)) of None \<Rightarrow> [] | Some hs \<Rightarrow> hs)"

definition attempt ::
  "instant \<Rightarrow> (string, 'w subscriber list) jsmap \<Rightarrow> IOutboxMessage \<Rightarrow> 'w \<Rightarrow> 'w \<times> IOutboxMessage \<times> bool" where
  "attempt now subs m w =
     (case run_handlers (handlers_for subs m) (ob_eventPayload m) w of
        (w', None) \<Rightarrow> (w', m\<lparr> ob_status := OB_PUBLISHED, ob_lastAttemptAt := Some now \<rparr>, True)
      | (w', Some e) \<Rightarrow>
          let m1 = m\<lparr> ob_retryCount := ob_retryCount m + 1, ob_lastAttemptAt := Some now,
                     ob_errorMessage := Some (if e = [] then ''Error executing event subscriber'' else e) \<rparr>;
              m2 = (if 5 \<le> ob_retryCount m1 then m1\<lparr> ob_status := OB_DEAD_LETTER \<rparr> else m1)
          in (w', m2, False))"

text \<open>
  \<open>flushOutbox\<close> walks the first \<open>batchSize\<close> pending messages; processing one never
  changes another, so the walk goes through the queue.
\<close>

fun flush_queue ::
  "instant \<Rightarrow> (string, 'w subscriber list) jsmap \<Rightarrow> nat \<Rightarrow> IOutboxMessage list \<Rightarrow> 'w
     \<Rightarrow> 'w \<times> IOutboxMessage list \<times> nat \<times> nat" where
  "flush_queue now subs b [] w = (w, [], 0, 0)"
| "flush_queue now subs b (m # q) w =
     (if ob_status m = OB_PENDING \<and> 0 < b
      then (case attempt now subs m w of
              (w1, m', ok) \<Rightarrow>
                (case flush_queue now subs (b - 1) q w1 of
                   (w2, q', p, f) \<Rightarrow> (w2, m' # q', if ok then Suc p else p, if ok then f else Suc f)))
      else (case flush_queue now subs b q w of (w2, q', p, f) \<Rightarrow> (w2, m # q', p, f)))"

definition flushOutbox :: "instant \<Rightarrow> nat \<Rightarrow> 'w outbox \<Rightarrow> 'w \<Rightarrow> 'w outbox \<times> 'w \<times> nat \<times> nat" where
  "flushOutbox now batchSize ob w =
     (case flush_queue now (ox_subscribers ob) batchSize (ox_queue ob) w of
        (w', q, p, f) \<Rightarrow> (ob\<lparr> ox_queue := q \<rparr>, w', p, f))"

definition getPendingCount :: "'w outbox \<Rightarrow> nat" where
  "getPendingCount ob = length (filter (\<lambda>m. ob_status m = OB_PENDING) (ox_queue ob))"

definition getDeadLetterMessages :: "'w outbox \<Rightarrow> IOutboxMessage list" where
  "getDeadLetterMessages ob = filter (\<lambda>m. ob_status m = OB_DEAD_LETTER) (ox_queue ob)"

section \<open>Invariant and progress\<close>

text \<open>A message is given up exactly at its fifth failure; what is settled is never touched again.\<close>

definition message_ok :: "IOutboxMessage \<Rightarrow> bool" where
  "message_ok m \<longleftrightarrow> (ob_status m = OB_DEAD_LETTER \<longleftrightarrow> 5 \<le> ob_retryCount m) \<and> ob_retryCount m \<le> 5"

definition attempts_left :: "IOutboxMessage \<Rightarrow> nat" where
  "attempts_left m = (if ob_status m = OB_PENDING then 5 - ob_retryCount m else 0)"

definition evolves :: "IOutboxMessage \<Rightarrow> IOutboxMessage \<Rightarrow> bool" where
  "evolves m m' \<longleftrightarrow> ob_messageId m' = ob_messageId m \<and> ob_eventPayload m' = ob_eventPayload m \<and>
     ob_destinationTopic m' = ob_destinationTopic m \<and> ob_retryCount m \<le> ob_retryCount m' \<and>
     (ob_status m \<noteq> OB_PENDING \<longrightarrow> m' = m)"

lemma evolves_refl [simp]: "evolves m m"
  by (simp add: evolves_def)

lemma evolves_trans: "evolves a b \<Longrightarrow> evolves b c \<Longrightarrow> evolves a c"
  unfolding evolves_def by (metis order_trans)

lemma attempt_ok:
  assumes "attempt now subs m w = (w', m', ok)" and "ob_status m = OB_PENDING" and "message_ok m"
  shows "message_ok m' \<and> evolves m m' \<and> attempts_left m' < attempts_left m \<and>
    (ok \<longleftrightarrow> ob_status m' = OB_PUBLISHED)"
  using assms
  by (auto simp: attempt_def message_ok_def evolves_def attempts_left_def Let_def split: prod.splits option.splits if_splits)

lemma flush_queue_ok:
  assumes "flush_queue now subs b q w = (w', q', p, f)" and "list_all message_ok q"
  shows "list_all message_ok q' \<and> list_all2 evolves q q' \<and>
    p + f = min b (length (filter (\<lambda>m. ob_status m = OB_PENDING) q)) \<and>
    sum_list (map attempts_left q') + p + f \<le> sum_list (map attempts_left q)"
  using assms
proof (induction q arbitrary: b w w' q' p f)
  case (Cons m q)
  show ?case
  proof (cases "ob_status m = OB_PENDING \<and> 0 < b")
    case True
    obtain w1 m' ok where att: "attempt now subs m w = (w1, m', ok)" by (cases rule: prod_cases3)
    obtain w2 q2 p2 f2 where rest: "flush_queue now subs (b - 1) q w1 = (w2, q2, p2, f2)" by (cases rule: prod_cases4)
    from Cons.prems(1) True att rest have res: "q' = m' # q2" "p = (if ok then Suc p2 else p2)" "f = (if ok then f2 else Suc f2)"
      by auto
    have "list_all message_ok q" "message_ok m" using Cons.prems(2) by auto
    with Cons.IH [OF rest] attempt_ok [OF att] True show ?thesis by (auto simp: res)
  next
    case False
    obtain w2 q2 p2 f2 where rest: "flush_queue now subs b q w = (w2, q2, p2, f2)" by (cases rule: prod_cases4)
    from Cons.prems(1) False rest have res: "q' = m # q2" "p = p2" "f = f2" by auto
    from Cons.IH [OF rest] Cons.prems(2) False show ?thesis by (auto simp: res)
  qed
qed simp

text \<open>Flushes in a row, at the given clock readings.\<close>

fun flush_times :: "nat \<Rightarrow> instant list \<Rightarrow> 'w outbox \<Rightarrow> 'w \<Rightarrow> 'w outbox \<times> 'w" where
  "flush_times b [] ob w = (ob, w)"
| "flush_times b (t # ts) ob w = (case flushOutbox t b ob w of (ob', w', _, _) \<Rightarrow> flush_times b ts ob' w')"

lemma attempts_zero:
  assumes "list_all message_ok q" and "sum_list (map attempts_left q) = 0"
  shows "filter (\<lambda>m. ob_status m = OB_PENDING) q = []"
proof -
  have "\<forall>m \<in> set q. attempts_left m = 0" using assms(2) by simp
  with assms(1) show ?thesis
    by (fastforce simp: filter_empty_conv attempts_left_def message_ok_def list_all_iff split: if_splits)
qed

lemma flush_times_ok:
  assumes "list_all message_ok (ox_queue ob)"
  shows "list_all message_ok (ox_queue (fst (flush_times b ts ob w))) \<and>
    list_all2 evolves (ox_queue ob) (ox_queue (fst (flush_times b ts ob w))) \<and>
    (0 < b \<longrightarrow> sum_list (map attempts_left (ox_queue (fst (flush_times b ts ob w)))) \<le>
       sum_list (map attempts_left (ox_queue ob)) - length ts)"
  using assms
proof (induction ts arbitrary: ob w)
  case Nil
  then show ?case by (simp add: list_all2_refl)
next
  case (Cons t ts)
  obtain w1 q p f where fl: "flush_queue t (ox_subscribers ob) b (ox_queue ob) w = (w1, q, p, f)"
    by (cases rule: prod_cases4)
  note st = flush_queue_ok [OF fl Cons.prems]
  let ?ob = "ob\<lparr> ox_queue := q \<rparr>"
  have step: "flush_times b (t # ts) ob w = flush_times b ts ?ob w1" by (simp add: flushOutbox_def fl)
  have IH: "list_all message_ok (ox_queue (fst (flush_times b ts ?ob w1)))"
    "list_all2 evolves q (ox_queue (fst (flush_times b ts ?ob w1)))"
    "0 < b \<Longrightarrow> sum_list (map attempts_left (ox_queue (fst (flush_times b ts ?ob w1)))) \<le> sum_list (map attempts_left q) - length ts"
    using Cons.IH [of ?ob w1] st by simp_all
  have "list_all2 evolves (ox_queue ob) (ox_queue (fst (flush_times b ts ?ob w1)))"
    by (rule list_all2_trans [OF evolves_trans conjunct1 [OF conjunct2 [OF st]] IH(2)])
  moreover have "sum_list (map attempts_left (ox_queue (fst (flush_times b ts ?ob w1)))) \<le>
      sum_list (map attempts_left (ox_queue ob)) - length (t # ts)" if b: "0 < b"
  proof (cases "filter (\<lambda>m. ob_status m = OB_PENDING) (ox_queue ob)")
    case Nil
    then have "\<forall>m \<in> set (ox_queue ob). attempts_left m = 0" by (auto simp: filter_empty_conv attempts_left_def)
    then have "sum_list (map attempts_left (ox_queue ob)) = 0" by simp
    then have "sum_list (map attempts_left q) = 0" using st by linarith
    then show ?thesis using IH(3) [OF b] by linarith
  next
    case (Cons a list)
    with b st have "1 \<le> p + f" by simp
    with st have "sum_list (map attempts_left q) + 1 \<le> sum_list (map attempts_left (ox_queue ob))" by linarith
    then show ?thesis using IH(3) [OF b] by simp
  qed
  ultimately show ?case unfolding step using IH(1) by simp
qed

text \<open>C31: The outbox settles every message. Flushing with a positive batch size, whatever the
  subscribers do, leaves no message pending after as many flushes as attempts are left in the queue
  (at most five per message); no message is lost, replaced or reordered; each ends published, or
  dead-lettered after exactly five failed attempts; and a settled message is never touched again. A
  flush processes the batch size or all that is pending, whichever is less.\<close>

theorem outbox_settles:
  assumes "list_all message_ok (ox_queue ob)" and "0 < b" and "5 * length (ox_queue ob) \<le> length ts"
  shows "let ob' = fst (flush_times b ts ob w) in
    getPendingCount ob' = 0 \<and>
    list_all2 evolves (ox_queue ob) (ox_queue ob') \<and>
    list_all (\<lambda>m. ob_status m = OB_PUBLISHED \<or> (ob_status m = OB_DEAD_LETTER \<and> ob_retryCount m = 5)) (ox_queue ob') \<and>
    (case flushOutbox now b ob w of (_, _, p, f) \<Rightarrow> p + f = min b (getPendingCount ob))"
proof -
  let ?q = "ox_queue (fst (flush_times b ts ob w))"
  note ok = flush_times_ok [OF assms(1), of b ts w]
  have "sum_list (map attempts_left (ox_queue ob)) \<le> 5 * length (ox_queue ob)"
  proof -
    have "attempts_left m \<le> 5" for m by (simp add: attempts_left_def)
    then show ?thesis using sum_list_mono [of "ox_queue ob" attempts_left "\<lambda>_. 5"] by (simp add: sum_list_triv mult.commute)
  qed
  with ok assms(2,3) have "sum_list (map attempts_left ?q) = 0" by simp
  with ok attempts_zero have none: "filter (\<lambda>m. ob_status m = OB_PENDING) ?q = []" by blast
  have "list_all (\<lambda>m. ob_status m = OB_PUBLISHED \<or> (ob_status m = OB_DEAD_LETTER \<and> ob_retryCount m = 5)) ?q"
    unfolding list_all_iff
  proof
    fix m assume m: "m \<in> set ?q"
    with none have "ob_status m \<noteq> OB_PENDING" by (auto simp: filter_empty_conv)
    moreover have "message_ok m" using ok m by (simp add: list_all_iff)
    ultimately show "ob_status m = OB_PUBLISHED \<or> (ob_status m = OB_DEAD_LETTER \<and> ob_retryCount m = 5)"
      by (cases "ob_status m") (auto simp: message_ok_def)
  qed
  moreover have "case flushOutbox now b ob w of (_, _, p, f) \<Rightarrow> p + f = min b (getPendingCount ob)"
  proof -
    obtain w' q p f where "flush_queue now (ox_subscribers ob) b (ox_queue ob) w = (w', q, p, f)" by (cases rule: prod_cases4)
    with flush_queue_ok [OF this assms(1)] show ?thesis by (simp add: flushOutbox_def getPendingCount_def)
  qed
  ultimately show ?thesis using ok none by (simp add: getPendingCount_def Let_def)
qed

text \<open>Two subscribers, the second failing on every call: the first runs five times for one event.\<close>

definition demo_event :: DomainEvent where
  "demo_event = \<lparr> ev_eventId = ''e'', ev_eventType = ''T'', ev_aggregateId = ''a'', ev_tenantId = ''t'',
     ev_schemaVersion = 1, ev_occurredAt = 0, ev_correlationId = ''c'', ev_causationId = None \<rparr>"

definition demo_outbox :: "nat outbox" where
  "demo_outbox = fst (queueEvent 1 ''x'' ''orders'' demo_event
     (ob_subscribe ''T'' (\<lambda>_ n. (n, Some [])) (ob_subscribe ''T'' (\<lambda>_ n. (Suc n, None)) outbox_new)))"

theorem outbox_settles_witness:
  "getPendingCount (fst (flush_times 50 [1, 2, 3, 4, 5] demo_outbox 0)) = 0 \<and>
   map ob_status (ox_queue (fst (flush_times 50 [1, 2, 3, 4, 5] demo_outbox 0))) = [OB_DEAD_LETTER] \<and>
   snd (flush_times 50 [1, 2, 3, 4, 5] demo_outbox 0) = 5"
proof -
  have "list_all message_ok (ox_queue demo_outbox)" by code_simp
  moreover have "5 * length (ox_queue demo_outbox) \<le> length [1, 2, 3, 4, 5 :: int]" by code_simp
  ultimately have "getPendingCount (fst (flush_times 50 [1, 2, 3, 4, 5] demo_outbox 0)) = 0"
    using outbox_settles [of demo_outbox 50 "[1, 2, 3, 4, 5]" 0 0] by (simp add: Let_def)
  moreover have "map ob_status (ox_queue (fst (flush_times 50 [1, 2, 3, 4, 5] demo_outbox 0))) = [OB_DEAD_LETTER] \<and>
    snd (flush_times 50 [1, 2, 3, 4, 5] demo_outbox 0) = 5" by code_simp
  ultimately show ?thesis by blast
qed

end
