(* ===== verification/Fulfillment.thy ===== *)
theory Fulfillment
  imports Common_Types
begin

text \<open>
  The order service's workflow orchestrator (services/order-service/src/orchestration) and its
  two-phase inventory reservation coordinator (allocation/). The awaits of \<open>advanceStep\<close> are on
  a method that never waits, so one call is one step.
\<close>

section \<open>Workflows\<close>

datatype WorkStatus = WS_PENDING | WS_IN_PROGRESS | WS_COMPLETED | WS_FAILED | WS_COMPENSATED

record IFulfillmentStep =
  fs_stepId :: string
  fs_stepName :: string
  fs_serviceTarget :: string
  fs_status :: WorkStatus
  fs_startTime :: "instant option"
  fs_completionTime :: "instant option"
  fs_retryCount :: nat
  fs_outputPayload :: "string option"
  fs_errorMessage :: "string option"

datatype OverallStatus = OV_INITIALIZED | OV_PROCESSING | OV_FULFILLED | OV_CANCELLED

record IOrderFulfillmentContext =
  fw_id :: string
  fw_orderId :: string
  fw_tenantId :: string
  fw_customerId :: string
  fw_destinationWarehouseId :: string
  fw_steps :: "IFulfillmentStep list"
  fw_overallStatus :: OverallStatus
  fw_createdAt :: instant
  fw_updatedAt :: instant

type_synonym workflows = "(string, IOrderFulfillmentContext) jsmap"

definition pending_step :: "string \<Rightarrow> string \<Rightarrow> string \<Rightarrow> IFulfillmentStep" where
  "pending_step i n t = \<lparr> fs_stepId = i, fs_stepName = n, fs_serviceTarget = t, fs_status = WS_PENDING,
     fs_startTime = None, fs_completionTime = None, fs_retryCount = 0, fs_outputPayload = None, fs_errorMessage = None \<rparr>"

definition workflow_steps :: "IFulfillmentStep list" where
  "workflow_steps =
     [pending_step ''step_1'' ''VALIDATE_ORDER_INTEGRITY'' ''order-service'',
      pending_step ''step_2'' ''RESERVE_INVENTORY_STOCK'' ''inventory-service'',
      pending_step ''step_3'' ''AUTHORIZE_CUSTOMER_PAYMENT'' ''billing-service'',
      pending_step ''step_4'' ''DISPATCH_CARRIER_SHIPMENT'' ''logistics-service'',
      pending_step ''step_5'' ''SEND_DISPATCH_NOTIFICATIONS'' ''notification-service'']"

text \<open>\<open>rnd\<close> is the number that \<open>Math.floor(1000 + Math.random() * 9000)\<close> draws.\<close>

definition initializeWorkflow ::
  "instant \<Rightarrow> nat \<Rightarrow> string \<Rightarrow> string \<Rightarrow> string \<Rightarrow> string \<Rightarrow> workflows \<Rightarrow> workflows \<times> IOrderFulfillmentContext" where
  "initializeWorkflow now rnd orderId tenantId customerId warehouseId m =
     (let wid = ''FWF-'' @ to_upper (base_string 36 (nat now)) @ ''-'' @ dec_string rnd;
          ctx = \<lparr> fw_id = wid, fw_orderId = orderId, fw_tenantId = tenantId, fw_customerId = customerId,
                  fw_destinationWarehouseId = warehouseId, fw_steps = workflow_steps,
                  fw_overallStatus = OV_INITIALIZED, fw_createdAt = now, fw_updatedAt = now \<rparr>
      in (jm_set wid ctx m, ctx))"

text \<open>The first step with the identifier, or the first pending one, changed in place.\<close>

fun update_first :: "('a \<Rightarrow> bool) \<Rightarrow> ('a \<Rightarrow> 'a) \<Rightarrow> 'a list \<Rightarrow> 'a list" where
  "update_first P f [] = []"
| "update_first P f (x # xs) = (if P x then f x # xs else x # update_first P f xs)"

definition triggerCompensation :: "IFulfillmentStep list \<Rightarrow> IFulfillmentStep list" where
  "triggerCompensation ss =
     map (\<lambda>s. if fs_status s = WS_COMPLETED then s\<lparr> fs_status := WS_COMPENSATED \<rparr> else s) ss"

definition advance ::
  "instant \<Rightarrow> string \<Rightarrow> bool \<Rightarrow> string option \<Rightarrow> string option \<Rightarrow> IOrderFulfillmentContext \<Rightarrow> IOrderFulfillmentContext" where
  "advance now stepId ok out err wk =
     (if ok
      then let ss = update_first (\<lambda>s. fs_stepId s = stepId)
                 (\<lambda>s. s\<lparr> fs_completionTime := Some now, fs_status := WS_COMPLETED, fs_outputPayload := out \<rparr>) (fw_steps wk)
           in if list_all (\<lambda>s. fs_status s = WS_COMPLETED) ss
              then wk\<lparr> fw_steps := ss, fw_overallStatus := OV_FULFILLED, fw_updatedAt := now \<rparr>
              else wk\<lparr> fw_steps := update_first (\<lambda>s. fs_status s = WS_PENDING)
                         (\<lambda>s. s\<lparr> fs_status := WS_IN_PROGRESS, fs_startTime := Some now \<rparr>) ss,
                       fw_overallStatus := OV_PROCESSING, fw_updatedAt := now \<rparr>
      else let ss = update_first (\<lambda>s. fs_stepId s = stepId)
                 (\<lambda>s. s\<lparr> fs_completionTime := Some now, fs_status := WS_FAILED, fs_errorMessage := err \<rparr>) (fw_steps wk)
           in wk\<lparr> fw_steps := triggerCompensation ss, fw_overallStatus := OV_CANCELLED \<rparr>)"

definition advanceStep ::
  "instant \<Rightarrow> string \<Rightarrow> string \<Rightarrow> bool \<Rightarrow> string option \<Rightarrow> string option \<Rightarrow> workflows
     \<Rightarrow> workflows \<times> IOrderFulfillmentContext outcome" where
  "advanceStep now wid stepId ok out err m =
     (case jm_get m wid of
        None \<Rightarrow> (m, Inl (PlainError (''Workflow '' @ wid @ '' not found'')))
      | Some wk \<Rightarrow>
          if find (\<lambda>s. fs_stepId s = stepId) (fw_steps wk) = None
          then (m, Inl (PlainError (''Step '' @ stepId @ '' not found in workflow'')))
          else let wk' = advance now stepId ok out err wk in (jm_set wid wk' m, Inr wk'))"

definition getWorkflowStatus :: "string \<Rightarrow> workflows \<Rightarrow> IOrderFulfillmentContext option" where
  "getWorkflowStatus wid m = jm_get m wid"

section \<open>Status and steps agree\<close>

definition all_completed :: "IOrderFulfillmentContext \<Rightarrow> bool" where
  "all_completed wk \<longleftrightarrow> list_all (\<lambda>s. fs_status s = WS_COMPLETED) (fw_steps wk)"

definition workflow_ok :: "IOrderFulfillmentContext \<Rightarrow> bool" where
  "workflow_ok wk \<longleftrightarrow> map fs_stepId (fw_steps wk) = map fs_stepId workflow_steps \<and>
     (fw_overallStatus wk = OV_FULFILLED \<longleftrightarrow> all_completed wk) \<and>
     (fw_overallStatus wk = OV_CANCELLED \<longrightarrow>
        (\<exists>s \<in> set (fw_steps wk). fs_status s = WS_FAILED) \<and>
        (\<forall>s \<in> set (fw_steps wk). fs_status s \<noteq> WS_COMPLETED)) \<and>
     (fw_overallStatus wk = OV_INITIALIZED \<longrightarrow> fw_steps wk = workflow_steps)"

lemma update_first_map:
  "(\<And>x. P x \<Longrightarrow> g (f x) = g x) \<Longrightarrow> map g (update_first P f xs) = map g xs"
  by (induction xs) auto

lemma update_first_mem: "x \<in> set (update_first P f xs) \<Longrightarrow> x \<in> set xs \<or> (\<exists>y \<in> set xs. P y \<and> x = f y)"
  by (induction xs) (auto split: if_splits)

lemma update_first_hit: "y \<in> set xs \<Longrightarrow> P y \<Longrightarrow> \<exists>z \<in> set xs. P z \<and> f z \<in> set (update_first P f xs)"
  by (induction xs) auto

lemma update_first_keeps: "x \<in> set xs \<Longrightarrow> \<not> P x \<Longrightarrow> x \<in> set (update_first P f xs)"
  by (induction xs) auto

lemma ids_nonempty: "map fs_stepId ss = map fs_stepId workflow_steps \<Longrightarrow> ss \<noteq> []"
  by (auto simp: workflow_steps_def)

lemma advance_ok:
  assumes "workflow_ok wk" and "find (\<lambda>s. fs_stepId s = i) (fw_steps wk) \<noteq> None"
  shows "workflow_ok (advance now i ok out err wk)"
proof (cases ok)
  case True
  define ss where "ss = update_first (\<lambda>s. fs_stepId s = i)
    (\<lambda>s. s\<lparr> fs_completionTime := Some now, fs_status := WS_COMPLETED, fs_outputPayload := out \<rparr>) (fw_steps wk)"
  have ids: "map fs_stepId ss = map fs_stepId workflow_steps"
    using assms(1) by (simp add: ss_def update_first_map workflow_ok_def)
  show ?thesis
  proof (cases "list_all (\<lambda>s. fs_status s = WS_COMPLETED) ss")
    case all: True
    with True ids show ?thesis by (simp add: advance_def ss_def [symmetric] workflow_ok_def all_completed_def)
  next
    case False
    then obtain s where s: "s \<in> set ss" "fs_status s \<noteq> WS_COMPLETED" by (auto simp: list_all_iff)
    define ss' where "ss' = update_first (\<lambda>s. fs_status s = WS_PENDING)
      (\<lambda>s. s\<lparr> fs_status := WS_IN_PROGRESS, fs_startTime := Some now \<rparr>) ss"
    have "\<exists>s \<in> set ss'. fs_status s \<noteq> WS_COMPLETED"
    proof (cases "fs_status s = WS_PENDING")
      case True
      from update_first_hit [OF s(1), where P = "\<lambda>s. fs_status s = WS_PENDING", OF this,
          where f = "\<lambda>s. s\<lparr> fs_status := WS_IN_PROGRESS, fs_startTime := Some now \<rparr>"]
      obtain z where "z\<lparr> fs_status := WS_IN_PROGRESS, fs_startTime := Some now \<rparr> \<in> set ss'" unfolding ss'_def by blast
      then show ?thesis by (rule bexI [rotated]) simp
    next
      case np: False
      have "s \<in> set ss'" unfolding ss'_def by (rule update_first_keeps) (use s(1) np in auto)
      then show ?thesis using s(2) by (rule bexI [rotated])
    qed
    moreover have "map fs_stepId ss' = map fs_stepId workflow_steps"
      using ids by (simp add: ss'_def update_first_map)
    ultimately show ?thesis
      using True False by (auto simp: advance_def ss_def [symmetric] ss'_def [symmetric] workflow_ok_def all_completed_def list_all_iff)
  qed
next
  case False
  define ss where "ss = update_first (\<lambda>s. fs_stepId s = i)
    (\<lambda>s. s\<lparr> fs_completionTime := Some now, fs_status := WS_FAILED, fs_errorMessage := err \<rparr>) (fw_steps wk)"
  from assms(2) obtain y where "y \<in> set (fw_steps wk)" "fs_stepId y = i" by (auto simp: find_None_iff)
  from update_first_hit [OF this(1), of "\<lambda>s. fs_stepId s = i"] this(2)
  obtain z where "z \<in> set ss" "fs_status z = WS_FAILED" unfolding ss_def by force
  then have "z \<in> set (triggerCompensation ss)" by (force simp: triggerCompensation_def)
  moreover have "\<forall>s \<in> set (triggerCompensation ss). fs_status s \<noteq> WS_COMPLETED" by (auto simp: triggerCompensation_def)
  moreover have "map fs_stepId (triggerCompensation ss) = map fs_stepId workflow_steps"
  proof -
    have "map fs_stepId (triggerCompensation ss) = map fs_stepId ss" by (simp add: triggerCompensation_def)
    then show ?thesis using assms(1) by (simp add: ss_def update_first_map workflow_ok_def)
  qed
  moreover have "\<not> list_all (\<lambda>s. fs_status s = WS_COMPLETED) (triggerCompensation ss)"
    using calculation(1,2) by (auto simp: list_all_iff)
  ultimately show ?thesis
    using False \<open>fs_status z = WS_FAILED\<close>
    by (auto simp: advance_def ss_def [symmetric] workflow_ok_def all_completed_def)
qed

text \<open>Every sequence of calls on one orchestrator.\<close>

datatype flow_call =
  Init instant nat string string string string
| Advance instant string string bool "string option" "string option"

fun flow_exec :: "flow_call \<Rightarrow> workflows \<Rightarrow> workflows" where
  "flow_exec (Init now rnd o' t c w) m = fst (initializeWorkflow now rnd o' t c w m)"
| "flow_exec (Advance now wid i ok out err) m = fst (advanceStep now wid i ok out err m)"

lemma init_workflow_ok: "workflow_ok (snd (initializeWorkflow now rnd o' t c w m))"
  by (simp add: initializeWorkflow_def Let_def workflow_ok_def all_completed_def workflow_steps_def pending_step_def)

lemma flow_exec_ok:
  assumes "\<forall>wk \<in> set (jm_values m). workflow_ok wk"
  shows "\<forall>wk \<in> set (jm_values (flow_exec c m)). workflow_ok wk"
proof (cases c)
  case (Init now rnd o' t c' w)
  have "flow_exec c m = jm_set (fw_id (snd (initializeWorkflow now rnd o' t c' w m))) (snd (initializeWorkflow now rnd o' t c' w m)) m"
    by (simp add: Init initializeWorkflow_def Let_def)
  then show ?thesis using assms init_workflow_ok by (auto dest!: jm_set_value)
next
  case (Advance now wid i ok out err)
  show ?thesis
  proof (cases "jm_get m wid")
    case (Some wk)
    then have wok: "workflow_ok wk" using assms jm_get_value by fast
    show ?thesis
    proof (cases "find (\<lambda>s. fs_stepId s = i) (fw_steps wk)")
      case None
      with Some assms Advance show ?thesis by (simp add: advanceStep_def)
    next
      case (Some s)
      then have "workflow_ok (advance now i ok' out err wk)" for ok' by (intro advance_ok [OF wok]) simp
      moreover have "flow_exec c m = jm_set wid (advance now i ok out err wk) m"
        using Some \<open>jm_get m wid = Some wk\<close> by (simp add: Advance advanceStep_def Let_def)
      ultimately show ?thesis using assms by (auto dest!: jm_set_value)
    qed
  qed (use assms Advance in \<open>simp add: advanceStep_def\<close>)
qed

lemma flow_run_ok:
  "\<forall>wk \<in> set (jm_values m). workflow_ok wk \<Longrightarrow> \<forall>wk \<in> set (jm_values (fold flow_exec cs m)). workflow_ok wk"
proof (induction cs arbitrary: m)
  case (Cons c cs)
  from Cons.IH [OF flow_exec_ok [OF Cons.prems]] show ?case by simp
qed simp

text \<open>The calls a driver makes that completes the five steps in turn.\<close>

definition happy_calls :: "string \<Rightarrow> flow_call list" where
  "happy_calls wid = map (\<lambda>i. Advance 0 wid i True None None) (map fs_stepId workflow_steps)"

definition complete_step :: "string \<Rightarrow> IFulfillmentStep list \<Rightarrow> IFulfillmentStep list" where
  "complete_step i ss =
     (let ss1 = update_first (\<lambda>s. fs_stepId s = i)
            (\<lambda>s. s\<lparr> fs_completionTime := Some 0, fs_status := WS_COMPLETED, fs_outputPayload := None \<rparr>) ss
      in if list_all (\<lambda>s. fs_status s = WS_COMPLETED) ss1 then ss1
         else update_first (\<lambda>s. fs_status s = WS_PENDING) (\<lambda>s. s\<lparr> fs_status := WS_IN_PROGRESS, fs_startTime := Some 0 \<rparr>) ss1)"

lemma advance_complete: "fw_steps (advance 0 i True None None wk) = complete_step i (fw_steps wk)"
  by (simp add: advance_def complete_step_def Let_def)

lemma happy_run:
  assumes "jm_get m wid = Some wk" and "workflow_ok wk" and "set is \<subseteq> set (map fs_stepId workflow_steps)"
  shows "\<exists>wk'. jm_get (fold flow_exec (map (\<lambda>i. Advance 0 wid i True None None) is) m) wid = Some wk' \<and>
    workflow_ok wk' \<and> fw_steps wk' = fold complete_step is (fw_steps wk)"
  using assms
proof (induction "is" arbitrary: m wk)
  case (Cons i js)
  have "i \<in> set (map fs_stepId (fw_steps wk))" using Cons.prems(2,3) by (simp add: workflow_ok_def)
  then have found: "find (\<lambda>s. fs_stepId s = i) (fw_steps wk) \<noteq> None" by (auto simp: find_None_iff)
  let ?wk = "advance 0 i True None None wk"
  have step: "flow_exec (Advance 0 wid i True None None) m = jm_set wid ?wk m"
    using Cons.prems(1) found by (auto simp: advanceStep_def Let_def)
  from Cons.IH [of "jm_set wid ?wk m" ?wk] advance_ok [OF Cons.prems(2) found] Cons.prems(3)
  show ?case by (simp del: flow_exec.simps add: step advance_complete)
qed simp

text \<open>The fulfillment workflow's status tells the truth about its steps. After any calls in any
  order, a workflow is FULFILLED exactly when all five steps are completed; a CANCELLED one has a
  failed step and no step left completed: every completed one was compensated. Completing the steps
  in their order does fulfil a fresh workflow.\<close>

theorem workflow_status_invariant:
  assumes "getWorkflowStatus wid (fold flow_exec cs []) = Some wk"
  shows "(fw_overallStatus wk = OV_FULFILLED) = list_all (\<lambda>s. fs_status s = WS_COMPLETED) (fw_steps wk) \<and>
    (fw_overallStatus wk = OV_CANCELLED \<longrightarrow>
       list_ex (\<lambda>s. fs_status s = WS_FAILED) (fw_steps wk) \<and>
       list_all (\<lambda>s. fs_status s \<noteq> WS_COMPLETED) (fw_steps wk)) \<and>
    (fw_overallStatus wk = OV_INITIALIZED \<longrightarrow>
       map_option fw_overallStatus (getWorkflowStatus wid (fold flow_exec (happy_calls wid) (fold flow_exec cs []))) = Some OV_FULFILLED)"
proof -
  have "wk \<in> set (jm_values (fold flow_exec cs []))" using assms jm_get_value by (auto simp: getWorkflowStatus_def)
  with flow_run_ok [of "[]" cs] have ok: "workflow_ok wk" by simp
  have dn: "list_all (\<lambda>s. fs_status s = WS_COMPLETED) (fold complete_step (map fs_stepId workflow_steps) workflow_steps)"
    by code_simp
  have happy: "map_option fw_overallStatus (getWorkflowStatus wid (fold flow_exec (happy_calls wid) m)) = Some OV_FULFILLED"
    if "jm_get m wid = Some wk" and "fw_steps wk = workflow_steps" for m
  proof -
    from happy_run [OF that(1) ok order_refl] that(2) obtain wk' where
      wk': "jm_get (fold flow_exec (happy_calls wid) m) wid = Some wk'" "workflow_ok wk'"
      "fw_steps wk' = fold complete_step (map fs_stepId workflow_steps) workflow_steps"
      by (auto simp: happy_calls_def)
    with dn have "fw_overallStatus wk' = OV_FULFILLED" by (simp only: workflow_ok_def all_completed_def)
    with wk'(1) show ?thesis by (simp add: getWorkflowStatus_def)
  qed
  have "fw_overallStatus wk = OV_INITIALIZED \<Longrightarrow> fw_steps wk = workflow_steps" using ok by (simp add: workflow_ok_def)
  with happy assms have "fw_overallStatus wk = OV_INITIALIZED \<longrightarrow>
       map_option fw_overallStatus (getWorkflowStatus wid (fold flow_exec (happy_calls wid) (fold flow_exec cs []))) = Some OV_FULFILLED"
    by (simp add: getWorkflowStatus_def)
  then show ?thesis using ok by (auto simp: workflow_ok_def all_completed_def list_all_iff list_ex_iff)
qed

definition demo_flow :: "flow_call list" where
  "demo_flow = [Init 0 1000 ''o'' ''t'' ''c'' ''w'', Advance 1 ''FWF-0-1000'' ''step_1'' True None None,
     Advance 2 ''FWF-0-1000'' ''step_2'' False None (Some ''out of stock'')]"

text \<open>A cancelled workflow is not protected: completing another step makes it PROCESSING again.\<close>

theorem workflow_status_invariant_witness:
  "map_option (\<lambda>wk. (fw_overallStatus wk, map fs_status (fw_steps wk))) (getWorkflowStatus ''FWF-0-1000'' (fold flow_exec demo_flow [])) =
     Some (OV_CANCELLED, [WS_COMPENSATED, WS_FAILED, WS_PENDING, WS_PENDING, WS_PENDING]) \<and>
   (case getWorkflowStatus ''FWF-0-1000'' (fold flow_exec demo_flow []) of None \<Rightarrow> False
    | Some wk \<Rightarrow> (fw_overallStatus wk = OV_FULFILLED) = list_all (\<lambda>s. fs_status s = WS_COMPLETED) (fw_steps wk)) \<and>
   map_option (\<lambda>wk. (fw_overallStatus wk, map fs_status (fw_steps wk)))
     (getWorkflowStatus ''FWF-0-1000'' (fold flow_exec (demo_flow @ [Advance 3 ''FWF-0-1000'' ''step_3'' True None None]) [])) =
     Some (OV_PROCESSING, [WS_COMPENSATED, WS_FAILED, WS_COMPLETED, WS_IN_PROGRESS, WS_PENDING])"
proof -
  have run: "map_option (\<lambda>wk. (fw_overallStatus wk, map fs_status (fw_steps wk))) (getWorkflowStatus ''FWF-0-1000'' (fold flow_exec demo_flow [])) =
     Some (OV_CANCELLED, [WS_COMPENSATED, WS_FAILED, WS_PENDING, WS_PENDING, WS_PENDING])" by code_simp
  then obtain wk where "getWorkflowStatus ''FWF-0-1000'' (fold flow_exec demo_flow []) = Some wk" by auto
  moreover note workflow_status_invariant [OF this]
  moreover have "map_option (\<lambda>wk. (fw_overallStatus wk, map fs_status (fw_steps wk)))
     (getWorkflowStatus ''FWF-0-1000'' (fold flow_exec (demo_flow @ [Advance 3 ''FWF-0-1000'' ''step_3'' True None None]) [])) =
     Some (OV_PROCESSING, [WS_COMPENSATED, WS_FAILED, WS_COMPLETED, WS_IN_PROGRESS, WS_PENDING])" by code_simp
  ultimately show ?thesis using run by simp
qed

section \<open>Two-phase reservations\<close>

datatype SagaReservationStatus = SR_RESERVED | SR_COMMITTED | SR_ROLLED_BACK

record saga_reservation =
  sr_status :: SagaReservationStatus
  sr_expiresAt :: instant

type_synonym saga_reservations = "(string, saga_reservation) jsmap"

definition initiateReservation :: "instant \<Rightarrow> string \<Rightarrow> string \<Rightarrow> int \<Rightarrow> saga_reservations \<Rightarrow> saga_reservations \<times> string \<times> bool \<times> string" where
  "initiateReservation now token sagaId timeoutMs m =
     (jm_set sagaId \<lparr> sr_status = SR_RESERVED, sr_expiresAt = now + timeoutMs \<rparr> m,
      sagaId, True, ''res_tok_'' @ base_string 36 (nat now) @ token)"

definition commitReservation :: "instant \<Rightarrow> string \<Rightarrow> saga_reservations \<Rightarrow> saga_reservations \<times> bool" where
  "commitReservation now sagaId m =
     (case jm_get m sagaId of
        None \<Rightarrow> (m, False)
      | Some r \<Rightarrow> if sr_status r \<noteq> SR_RESERVED \<or> sr_expiresAt r < now then (m, False)
                 else (jm_set sagaId (r\<lparr> sr_status := SR_COMMITTED \<rparr>) m, True))"

definition rollbackReservation :: "string \<Rightarrow> saga_reservations \<Rightarrow> saga_reservations \<times> bool" where
  "rollbackReservation sagaId m =
     (case jm_get m sagaId of
        None \<Rightarrow> (m, False)
      | Some r \<Rightarrow> (jm_set sagaId (r\<lparr> sr_status := SR_ROLLED_BACK \<rparr>) m, True))"

datatype saga_call = Reserve instant string string int | Commit instant string | Rollback string

fun saga_exec :: "saga_call \<Rightarrow> saga_reservations \<Rightarrow> saga_reservations \<times> bool" where
  "saga_exec (Reserve now tok s ms) m = (fst (initiateReservation now tok s ms m), True)"
| "saga_exec (Commit now s) m = commitReservation now s m"
| "saga_exec (Rollback s) m = rollbackReservation s m"

fun saga_calls :: "saga_call list \<Rightarrow> saga_reservations \<Rightarrow> (saga_call \<times> bool) list" where
  "saga_calls [] m = []"
| "saga_calls (c # cs) m = (case saga_exec c m of (m', r) \<Rightarrow> (c, r) # saga_calls cs m')"

fun reserves :: "string \<Rightarrow> saga_call \<Rightarrow> bool" where
  "reserves s (Reserve now tok s' ms) = (s' = s)"
| "reserves s _ = False"

fun commits :: "string \<Rightarrow> saga_call \<times> bool \<Rightarrow> bool" where
  "commits s (Commit now s', r) = (s' = s \<and> r)"
| "commits s _ = False"

lemma saga_exec_other:
  "\<not> reserves s c \<Longrightarrow> map_option sr_status (jm_get m s) \<noteq> Some SR_RESERVED \<Longrightarrow>
    map_option sr_status (jm_get (fst (saga_exec c m)) s) \<noteq> Some SR_RESERVED \<and> \<not> commits s (c, snd (saga_exec c m))"
  by (cases c) (auto simp: commitReservation_def rollbackReservation_def initiateReservation_def split: option.splits)

lemma no_more_commits:
  "\<forall>c \<in> set cs. \<not> reserves s c \<Longrightarrow> map_option sr_status (jm_get m s) \<noteq> Some SR_RESERVED \<Longrightarrow>
    filter (commits s) (saga_calls cs m) = []"
proof (induction cs arbitrary: m)
  case (Cons c cs)
  obtain m' r where step: "saga_exec c m = (m', r)" by force
  have "\<not> reserves s c" "\<forall>c \<in> set cs. \<not> reserves s c" using Cons.prems(1) by simp_all
  with saga_exec_other [OF this(1) Cons.prems(2)] Cons.IH [OF this(2), of m'] step show ?case by simp
qed simp

lemma filter_drop_Nil: "filter P xs = [] \<Longrightarrow> filter P (drop n xs) = []"
  by (auto simp: filter_empty_conv dest: in_set_dropD)

lemma reserved_calls:
  assumes "\<forall>c \<in> set cs. \<not> reserves s c" and "jm_get m s = Some \<lparr> sr_status = SR_RESERVED, sr_expiresAt = e \<rparr>"
  shows "length (filter (commits s) (saga_calls cs m)) \<le> 1 \<and>
    (\<forall>x \<in> set (filter (commits s) (saga_calls cs m)). \<exists>now \<le> e. x = (Commit now s, True)) \<and>
    (\<forall>as bs. cs = as @ Rollback s # bs \<longrightarrow> filter (commits s) (drop (length as) (saga_calls cs m)) = [])"
  using assms
proof (induction cs arbitrary: m)
  case (Cons c cs)
  obtain m' r where step: "saga_exec c m = (m', r)" by force
  have rest: "\<forall>c \<in> set cs. \<not> reserves s c" using Cons.prems(1) by simp
  have gone: "\<forall>as bs. c # cs = as @ Rollback s # bs \<longrightarrow> filter (commits s) (drop (length as) ((c, r) # saga_calls cs m')) = []"
    if "filter (commits s) (saga_calls cs m') = []"
  proof (intro allI impI)
    fix as bs assume eq: "c # cs = as @ Rollback s # bs"
    show "filter (commits s) (drop (length as) ((c, r) # saga_calls cs m')) = []"
    proof (cases as)
      case Nil
      with eq that show ?thesis by simp
    next
      case (Cons a as')
      with filter_drop_Nil [OF that] show ?thesis by simp
    qed
  qed
  consider (commit) now where "c = Commit now s" "now \<le> e" | (roll) "c = Rollback s"
    | (other) "jm_get m' s = jm_get m s" "\<not> commits s (c, r)" "c \<noteq> Rollback s"
  proof (cases c)
    case (Reserve now tok s' ms)
    then have "s' \<noteq> s" using Cons.prems(1) by simp
    with Reserve step show ?thesis by (intro other) (auto simp: initiateReservation_def)
  next
    case (Commit now s')
    show ?thesis
    proof (cases "s' = s \<and> now \<le> e")
      case True
      with Commit commit show ?thesis by blast
    next
      case False
      with Commit step Cons.prems(2) show ?thesis
        by (intro other) (auto simp: commitReservation_def split: option.splits if_splits)
    qed
  next
    case (Rollback s')
    show ?thesis
    proof (cases "s' = s")
      case False
      with Rollback step show ?thesis by (intro other) (auto simp: rollbackReservation_def split: option.splits)
    qed (use Rollback roll in blast)
  qed
  moreover have outs: "saga_calls (c # cs) m = (c, r) # saga_calls cs m'" by (simp add: step)
  ultimately show ?case
  proof cases
    case commit
    with step Cons.prems(2) have "map_option sr_status (jm_get m' s) \<noteq> Some SR_RESERVED" "r"
      by (auto simp: commitReservation_def)
    from no_more_commits [OF rest this(1)] gone commit \<open>r\<close> show ?thesis unfolding outs by (simp del: drop_append)
  next
    case roll
    with step Cons.prems(2) have "map_option sr_status (jm_get m' s) \<noteq> Some SR_RESERVED"
      by (auto simp: rollbackReservation_def)
    from no_more_commits [OF rest this] gone roll show ?thesis unfolding outs by (simp del: drop_append)
  next
    case other
    with Cons.prems(2) have "jm_get m' s = Some \<lparr> sr_status = SR_RESERVED, sr_expiresAt = e \<rparr>" by simp
    note IH = Cons.IH [OF rest this]
    have "filter (commits s) (drop (length as) ((c, r) # saga_calls cs m')) = []"
      if "c # cs = as @ Rollback s # bs" for as bs
      using that IH other(3) by (cases as) auto
    with IH other(2) show ?thesis unfolding outs by auto
  qed
qed simp

text \<open>A reservation commits at most once. Between two reservations under one saga id, whatever
  commits and rollbacks come in any order and for any sagas, at most one commit succeeds, it is not
  later than the expiry, and none succeeds after a rollback.\<close>

theorem reservation_commits_once:
  assumes "\<forall>c \<in> set cs. \<not> reserves s c"
  shows "let outs = saga_calls cs (fst (initiateReservation now tok s ms m)) in
    length (filter (commits s) outs) \<le> 1 \<and>
    (\<forall>x \<in> set (filter (commits s) outs). \<exists>t \<le> now + ms. x = (Commit t s, True)) \<and>
    (\<forall>as bs. cs = as @ Rollback s # bs \<longrightarrow> filter (commits s) (drop (length as) outs) = [])"
proof -
  have pre: "jm_get (fst (initiateReservation now tok s ms m)) s = Some \<lparr> sr_status = SR_RESERVED, sr_expiresAt = now + ms \<rparr>"
    by (simp add: initiateReservation_def)
  show ?thesis unfolding Let_def by (rule reserved_calls [OF assms pre])
qed

theorem reservation_commits_once_witness:
  "map snd (saga_calls [Commit 5 ''s'', Commit 6 ''s'', Rollback ''s'', Commit 7 ''s''] (fst (initiateReservation 0 ''x'' ''s'' 10 [])))
     = [True, False, True, False] \<and>
   length (filter (commits ''s'') (saga_calls [Commit 5 ''s'', Commit 6 ''s'', Rollback ''s'', Commit 7 ''s'']
     (fst (initiateReservation 0 ''x'' ''s'' 10 [])))) \<le> 1"
proof -
  have "\<forall>c \<in> set [Commit 5 ''s'', Commit 6 ''s'', Rollback ''s'', Commit 7 ''s'']. \<not> reserves ''s'' c" by simp
  note th = reservation_commits_once [OF this, of 0 "''x''" 10 "[]"]
  have "map snd (saga_calls [Commit 5 ''s'', Commit 6 ''s'', Rollback ''s'', Commit 7 ''s''] (fst (initiateReservation 0 ''x'' ''s'' 10 [])))
     = [True, False, True, False]" by code_simp
  then show ?thesis using th unfolding Let_def by blast
qed

end
