(* ===== verification/Domain_Template.thy ===== *)
theory Domain_Template
  imports Prelude
begin

text \<open>
  The domain layer that every service carries in numbered copies that differ only in names
  (services/*/src/domain): aggregate roots with uncommitted events, entities, the in-memory
  repository with its paged query, and the service on top of it. The copies numbered 01 of the
  order service are the ones mapped.

  Some of the copied code refers to the template variables \<open>svc\<close> and \<open>secPad\<close>, which nothing
  declares; reaching such an expression throws a ReferenceError, which is a branch here.
\<close>

datatype attr = AStr string | ANum int | ABool bool
datatype ref_error = ReferenceError string

section \<open>Aggregate roots\<close>

datatype AggStatus = AGG_ACTIVE | AGG_ARCHIVED | AGG_PENDING_APPROVAL | AGG_SUSPENDED

record AggregateState =
  ag_aggregateId :: string
  ag_tenantId :: string
  ag_version :: nat
  ag_isDeleted :: bool
  ag_status :: AggStatus
  ag_attributes :: "(string, attr) jsmap"
  ag_createdAt :: instant
  ag_updatedAt :: instant

datatype agg_event =
    AttributeUpdated string attr instant
  | StatusTransitioned AggStatus AggStatus instant

record AggregateRoot =
  ar_state :: AggregateState
  ar_events :: "agg_event list"

definition aggregate_new :: "instant \<Rightarrow> string \<Rightarrow> string \<Rightarrow> AggregateRoot" where
  "aggregate_new now i t =
     \<lparr> ar_state = \<lparr> ag_aggregateId = i, ag_tenantId = t, ag_version = 1, ag_isDeleted = False,
         ag_status = AGG_ACTIVE, ag_attributes = [], ag_createdAt = now, ag_updatedAt = now \<rparr>,
       ar_events = [] \<rparr>"

definition setAttribute :: "instant \<Rightarrow> string \<Rightarrow> attr \<Rightarrow> AggregateRoot \<Rightarrow> AggregateRoot" where
  "setAttribute now k v a =
     a\<lparr> ar_state := (ar_state a)\<lparr> ag_attributes := jm_set k v (ag_attributes (ar_state a)), ag_updatedAt := now \<rparr>,
       ar_events := ar_events a @ [AttributeUpdated k v now] \<rparr>"

definition getAttribute :: "string \<Rightarrow> AggregateRoot \<Rightarrow> attr option" where
  "getAttribute k a = jm_get (ag_attributes (ar_state a)) k"

definition transitionStatus :: "instant \<Rightarrow> AggStatus \<Rightarrow> AggregateRoot \<Rightarrow> AggregateRoot" where
  "transitionStatus now st a =
     a\<lparr> ar_state := (ar_state a)\<lparr> ag_status := st, ag_version := ag_version (ar_state a) + 1, ag_updatedAt := now \<rparr>,
       ar_events := ar_events a @ [StatusTransitioned (ag_status (ar_state a)) st now] \<rparr>"

definition pullUncommittedEvents :: "AggregateRoot \<Rightarrow> AggregateRoot \<times> agg_event list" where
  "pullUncommittedEvents a = (a\<lparr> ar_events := [] \<rparr>, ar_events a)"

text \<open>Replaying an aggregate's events, as an event store would.\<close>

fun apply_event :: "agg_event \<Rightarrow> AggregateState \<Rightarrow> AggregateState" where
  "apply_event (AttributeUpdated k v t) s = s\<lparr> ag_attributes := jm_set k v (ag_attributes s), ag_updatedAt := t \<rparr>"
| "apply_event (StatusTransitioned old st t) s = s\<lparr> ag_status := st, ag_version := ag_version s + 1, ag_updatedAt := t \<rparr>"

datatype agg_cmd = CmdSet instant string attr | CmdTransition instant AggStatus | CmdPull

fun agg_exec :: "agg_cmd \<Rightarrow> AggregateRoot \<times> agg_event list \<Rightarrow> AggregateRoot \<times> agg_event list" where
  "agg_exec (CmdSet now k v) (a, log) = (setAttribute now k v a, log)"
| "agg_exec (CmdTransition now st) (a, log) = (transitionStatus now st a, log)"
| "agg_exec CmdPull (a, log) = (let (a', es) = pullUncommittedEvents a in (a', log @ es))"

lemma agg_exec_replay:
  "fold apply_event (log @ ar_events a) s0 = ar_state a \<Longrightarrow>
    (case agg_exec c (a, log) of (a', log') \<Rightarrow> fold apply_event (log' @ ar_events a') s0 = ar_state a')"
  by (cases c) (auto simp: setAttribute_def transitionStatus_def pullUncommittedEvents_def)

lemma agg_run_replay:
  "fold apply_event (log @ ar_events a) s0 = ar_state a \<Longrightarrow>
    (case fold agg_exec cs (a, log) of (a', log') \<Rightarrow> fold apply_event (log' @ ar_events a') s0 = ar_state a')"
proof (induction cs arbitrary: a log)
  case (Cons c cs)
  obtain a' log' where step: "agg_exec c (a, log) = (a', log')" by force
  with agg_exec_replay [OF Cons.prems, of c] have "fold apply_event (log' @ ar_events a') s0 = ar_state a'" by simp
  from Cons.IH [OF this] step show ?case by simp
qed simp

section \<open>Entities\<close>

datatype EntStatus = ENT_ACTIVE | ENT_INACTIVE | ENT_ARCHIVED | ENT_PENDING_REVIEW

record DomainEntity =
  de_id :: string
  de_tenantId :: string
  de_code :: string
  de_displayName :: string
  de_status :: EntStatus
  de_priorityScore :: int
  de_tags :: "string list"
  de_attributes :: "(string, attr) jsmap"
  de_checksum :: string
  de_version :: nat
  de_createdAt :: instant
  de_updatedAt :: instant

text \<open>A \<open>Partial<IDomainEntity>\<close>: every field may be missing, and an empty string is falsy.\<close>

record PartialEntity =
  pe_id :: "string option"
  pe_tenantId :: "string option"
  pe_code :: "string option"
  pe_displayName :: "string option"
  pe_status :: "EntStatus option"
  pe_priorityScore :: "int option"
  pe_tags :: "string list option"
  pe_attributes :: "(string, attr) jsmap option"
  pe_checksum :: "string option"
  pe_version :: "nat option"
  pe_createdAt :: "instant option"
  pe_updatedAt :: "instant option"

definition or_str :: "string option \<Rightarrow> string \<Rightarrow> string" where
  "or_str x d = (case x of None \<Rightarrow> d | Some s \<Rightarrow> if s = [] then d else s)"

definition truthy_str :: "string option \<Rightarrow> bool" where
  "truthy_str x \<longleftrightarrow> x \<noteq> None \<and> x \<noteq> Some []"

text \<open>\<open>genId\<close> is the identifier \<open>'gen-' + Math.random()...\<close> would draw.\<close>

definition DomainEntity_new :: "instant \<Rightarrow> string \<Rightarrow> PartialEntity \<Rightarrow> ref_error + DomainEntity" where
  "DomainEntity_new now genId d =
     (if \<not> truthy_str (pe_code d) then Inl (ReferenceError ''secPad'')
      else if \<not> truthy_str (pe_displayName d) then Inl (ReferenceError ''secPad'')
      else case pe_tags d of
        None \<Rightarrow> Inl (ReferenceError ''svc'')
      | Some tags \<Rightarrow>
          Inr \<lparr> de_id = or_str (pe_id d) genId, de_tenantId = or_str (pe_tenantId d) ''global-tenant'',
                de_code = the (pe_code d), de_displayName = the (pe_displayName d),
                de_status = (case pe_status d of None \<Rightarrow> ENT_ACTIVE | Some s \<Rightarrow> s),
                de_priorityScore = (case pe_priorityScore d of None \<Rightarrow> 100 | Some p \<Rightarrow> p),
                de_tags = tags,
                de_attributes = (case pe_attributes d of None \<Rightarrow> [] | Some m \<Rightarrow> m),
                de_checksum = or_str (pe_checksum d) ''sha256-verified'',
                de_version = (case pe_version d of None \<Rightarrow> 1 | Some v \<Rightarrow> if v = 0 then 1 else v),
                de_createdAt = (case pe_createdAt d of None \<Rightarrow> now | Some t \<Rightarrow> t),
                de_updatedAt = (case pe_updatedAt d of None \<Rightarrow> now | Some t \<Rightarrow> t) \<rparr>)"

definition validateInvariants :: "DomainEntity \<Rightarrow> bool" where
  "validateInvariants e \<longleftrightarrow>
     \<not> (de_id e = [] \<or> de_tenantId e = [] \<or> de_code e = []) \<and>
     \<not> (de_priorityScore e < 0 \<or> de_priorityScore e > 1000)"

definition updateAttribute :: "instant \<Rightarrow> string \<Rightarrow> attr \<Rightarrow> DomainEntity \<Rightarrow> DomainEntity" where
  "updateAttribute now k v e =
     e\<lparr> de_attributes := jm_set k v (de_attributes e), de_version := de_version e + 1, de_updatedAt := now \<rparr>"

section \<open>Repository\<close>

record CreateDomainDTO =
  cd_tenantId :: string
  cd_code :: string
  cd_displayName :: string
  cd_priorityScore :: int
  cd_tags :: "string list"
  cd_attributes :: "(string, attr) jsmap"

record QueryFilter =
  qf_tenantId :: "string option"
  qf_status :: "EntStatus option"
  qf_minPriority :: "int option"
  qf_maxPriority :: "int option"
  qf_search :: "string option"
  qf_page :: int
  qf_limit :: int

text \<open>What CreateDomainSchema accepts.\<close>

definition create_dto_ok :: "CreateDomainDTO \<Rightarrow> bool" where
  "create_dto_ok d \<longleftrightarrow> cd_tenantId d \<noteq> [] \<and> 3 \<le> length (cd_code d) \<and> length (cd_code d) \<le> 50 \<and>
     2 \<le> length (cd_displayName d) \<and> length (cd_displayName d) \<le> 200 \<and>
     0 \<le> cd_priorityScore d \<and> cd_priorityScore d \<le> 1000"

type_synonym DomainRepo = "(string, DomainEntity) jsmap"

definition domain_create ::
  "instant \<Rightarrow> string \<Rightarrow> string \<Rightarrow> CreateDomainDTO \<Rightarrow> DomainRepo \<Rightarrow> DomainRepo \<times> (ref_error + DomainEntity)" where
  "domain_create now uid genId d m =
     (case DomainEntity_new now genId
             \<lparr> pe_id = Some uid, pe_tenantId = Some (cd_tenantId d), pe_code = Some (cd_code d),
               pe_displayName = Some (cd_displayName d), pe_status = Some ENT_ACTIVE,
               pe_priorityScore = Some (cd_priorityScore d), pe_tags = Some (cd_tags d),
               pe_attributes = Some (cd_attributes d), pe_checksum = None, pe_version = Some 1,
               pe_createdAt = Some now, pe_updatedAt = Some now \<rparr> of
        Inl err \<Rightarrow> (m, Inl err)
      | Inr e \<Rightarrow> (jm_set (de_id e) e m, Inr e))"

definition domain_findById :: "DomainRepo \<Rightarrow> string \<Rightarrow> DomainEntity option" where
  "domain_findById m i = jm_get m i"

definition domain_findByCode :: "string \<Rightarrow> string \<Rightarrow> DomainRepo \<Rightarrow> DomainEntity option" where
  "domain_findByCode code t m = find (\<lambda>e. de_code e = code \<and> de_tenantId e = t) (jm_values m)"

definition query_matches :: "QueryFilter \<Rightarrow> DomainEntity \<Rightarrow> bool" where
  "query_matches f e \<longleftrightarrow>
     (truthy_str (qf_tenantId f) \<longrightarrow> qf_tenantId f = Some (de_tenantId e)) \<and>
     (\<forall>s. qf_status f = Some s \<longrightarrow> de_status e = s) \<and>
     (\<forall>p. qf_minPriority f = Some p \<longrightarrow> p \<le> de_priorityScore e) \<and>
     (truthy_str (qf_search f) \<longrightarrow>
        (let q = to_lower (the (qf_search f))
         in str_includes (to_lower (de_displayName e)) q \<or> str_includes (to_lower (de_code e)) q))"

definition domain_query :: "QueryFilter \<Rightarrow> DomainRepo \<Rightarrow> DomainEntity list \<times> nat" where
  "domain_query f m =
     (let r0 = jm_values m;
          r1 = (if truthy_str (qf_tenantId f) then filter (\<lambda>e. qf_tenantId f = Some (de_tenantId e)) r0 else r0);
          r2 = (case qf_status f of None \<Rightarrow> r1 | Some s \<Rightarrow> filter (\<lambda>e. de_status e = s) r1);
          r3 = (case qf_minPriority f of None \<Rightarrow> r2 | Some p \<Rightarrow> filter (\<lambda>e. p \<le> de_priorityScore e) r2);
          r4 = (if truthy_str (qf_search f)
                then let q = to_lower (the (qf_search f))
                     in filter (\<lambda>e. str_includes (to_lower (de_displayName e)) q \<or>
                                     str_includes (to_lower (de_code e)) q) r3
                else r3);
          page = (if qf_page f = 0 then 1 else qf_page f);
          limit = (if qf_limit f = 0 then 20 else qf_limit f)
      in (js_slice ((page - 1) * limit) (page * limit) r4, length r4))"

definition domain_update ::
  "instant \<Rightarrow> string \<Rightarrow> (DomainEntity \<Rightarrow> DomainEntity) \<Rightarrow> DomainRepo \<Rightarrow> DomainRepo \<times> DomainEntity option" where
  "domain_update now = repo_update (\<lambda>e. e\<lparr> de_version := de_version e + 1, de_updatedAt := now \<rparr>)"

definition domain_delete :: "string \<Rightarrow> DomainRepo \<Rightarrow> DomainRepo \<times> bool" where
  "domain_delete i m = (jm_delete i m, jm_has m i)"

interpretation domain: entity_repository domain_findById jm_set "domain_update now"
    "\<lambda>e. e\<lparr> de_version := de_version e + 1, de_updatedAt := now \<rparr>" for now
  by unfold_locales (simp_all add: domain_findById_def domain_update_def)

section \<open>Service\<close>

text \<open>
  The field initialiser of DomainService interpolates \<open>svc.domain\<close> into the logger's name, so
  constructing the service fails before any method can be called.
\<close>

definition DomainService_new :: "DomainRepo \<Rightarrow> ref_error + DomainRepo" where
  "DomainService_new repo = Inl (ReferenceError ''svc'')"

section \<open>Lemmas\<close>

lemma if_filter: "(if c then filter P xs else xs) = filter (\<lambda>e. c \<longrightarrow> P e) xs"
  by simp

lemma case_filter:
  "(case x of None \<Rightarrow> xs | Some y \<Rightarrow> filter (P y) xs) = filter (\<lambda>e. \<forall>y. x = Some y \<longrightarrow> P y e) xs"
  by (cases x) simp_all

lemma domain_query_filter:
  "domain_query f m =
     (let r = filter (query_matches f) (jm_values m);
          page = (if qf_page f = 0 then 1 else qf_page f);
          limit = (if qf_limit f = 0 then 20 else qf_limit f)
      in (js_slice ((page - 1) * limit) (page * limit) r, length r))"
proof -
  have q: "filter (query_matches f) xs =
      filter (\<lambda>e. truthy_str (qf_search f) \<longrightarrow> str_includes (to_lower (de_displayName e)) (to_lower (the (qf_search f))) \<or>
                   str_includes (to_lower (de_code e)) (to_lower (the (qf_search f))))
        (filter (\<lambda>e. \<forall>p. qf_minPriority f = Some p \<longrightarrow> p \<le> de_priorityScore e)
          (filter (\<lambda>e. \<forall>s. qf_status f = Some s \<longrightarrow> de_status e = s)
            (filter (\<lambda>e. truthy_str (qf_tenantId f) \<longrightarrow> qf_tenantId f = Some (de_tenantId e)) xs)))" for xs
    unfolding filter_filter query_matches_def Let_def by (rule filter_cong) blast+
  show ?thesis
    unfolding domain_query_def Let_def q if_filter case_filter by (rule refl)
qed

lemma domain_create_ok:
  assumes "create_dto_ok d" and "uid \<noteq> []"
  shows "\<exists>e. domain_create now uid g d m = (jm_set uid e m, Inr e) \<and> validateInvariants e \<and>
    de_id e = uid \<and> de_tenantId e = cd_tenantId d \<and> de_code e = cd_code d \<and> de_version e = 1"
  using assms
  by (auto simp: domain_create_def DomainEntity_new_def truthy_str_def or_str_def create_dto_ok_def
      validateInvariants_def)

section \<open>Properties\<close>

text \<open>The domain repositories' paged query. The page that \<open>query\<close> returns is a slice of the
  entities that match the tenant, status, minimum priority and search filters, in insertion
  order; the total counts them all; with a positive limit every page has at most that many, and
  the pages 1 to n concatenated are exactly the first \<open>n * limit\<close> matches, so walking the pages
  visits every match once. With a tenant filter no entity of another tenant is ever returned.
  The maximum priority of the filter has no effect.\<close>

theorem domain_query_pages:
  assumes "0 < l" and "qf_limit f = int l"
  shows "snd (domain_query f m) = length (filter (query_matches f) (jm_values m)) \<and>
    concat (map (\<lambda>p. fst (domain_query (f\<lparr> qf_page := int (Suc p) \<rparr>) m)) [0..<n]) =
      take (n * l) (filter (query_matches f) (jm_values m)) \<and>
    length (fst (domain_query (f\<lparr> qf_page := int (Suc p) \<rparr>) m)) \<le> l \<and>
    (\<forall>t. t \<noteq> [] \<longrightarrow> qf_tenantId f = Some t \<longrightarrow>
       (\<forall>e \<in> set (fst (domain_query f m)). de_tenantId e = t \<and> e \<in> set (jm_values m))) \<and>
    domain_query (f\<lparr> qf_maxPriority := x \<rparr>) m = domain_query f m"
proof -
  let ?r = "filter (query_matches f) (jm_values m)"
  have "query_matches (f\<lparr> qf_page := x \<rparr>) = query_matches f" for x
    by (simp add: fun_eq_iff query_matches_def)
  then have pg: "fst (domain_query (f\<lparr> qf_page := int (Suc p) \<rparr>) m) =
      js_slice ((int (Suc p) - 1) * int l) (int (Suc p) * int l) ?r" for p
    using assms by (simp add: domain_query_filter Let_def)
  have tenant: "de_tenantId e = t \<and> e \<in> set (jm_values m)"
    if "t \<noteq> []" "qf_tenantId f = Some t" "e \<in> set (fst (domain_query f m))" for t e
    using that js_slice_subset by (fastforce simp: domain_query_filter Let_def query_matches_def truthy_str_def)
  show ?thesis
  proof (intro conjI)
    show "concat (map (\<lambda>p. fst (domain_query (f\<lparr> qf_page := int (Suc p) \<rparr>) m)) [0..<n]) = take (n * l) ?r"
      unfolding pg by (rule pages_concat)
    show "length (fst (domain_query (f\<lparr> qf_page := int (Suc p) \<rparr>) m)) \<le> l"
      unfolding pg page_slice by simp
    show "domain_query (f\<lparr> qf_maxPriority := x \<rparr>) m = domain_query f m"
    proof -
      have "query_matches (f\<lparr> qf_maxPriority := x \<rparr>) = query_matches f"
        by (simp add: fun_eq_iff query_matches_def)
      then show ?thesis by (simp add: domain_query_filter Let_def)
    qed
    show "snd (domain_query f m) = length ?r"
      by (simp add: domain_query_filter Let_def)
  qed (use tenant in blast)
qed

definition demo_filter :: QueryFilter where
  "demo_filter = \<lparr> qf_tenantId = Some ''t'', qf_status = None, qf_minPriority = None,
     qf_maxPriority = Some 5, qf_search = None, qf_page = 1, qf_limit = 2 \<rparr>"

theorem domain_query_pages_witness:
  "snd (domain_query demo_filter []) = 0 \<and>
   concat (map (\<lambda>p. fst (domain_query (demo_filter\<lparr> qf_page := int (Suc p) \<rparr>) [])) [0..<3]) = []"
  using domain_query_pages [of 2 demo_filter "[]" 3] by (simp add: demo_filter_def)

text \<open>An aggregate root can be rebuilt from its events. Whatever sequence of attribute writes,
  status transitions and \<open>pullUncommittedEvents\<close> calls runs, replaying the events pulled so far
  followed by the uncommitted ones from the initial state gives the aggregate's state, so no
  event is lost or emitted twice.\<close>

theorem aggregate_event_replay:
  "(case fold agg_exec cs (aggregate_new now i t, []) of
      (a, log) \<Rightarrow> fold apply_event (log @ ar_events a) (ar_state (aggregate_new now i t)) = ar_state a)"
  by (rule agg_run_replay) (simp add: aggregate_new_def)

end
