(* ===== verification/Tenant_Repository.thy ===== *)
theory Tenant_Repository
  imports Common_Types Double
begin

text \<open>
  The tenant-scoped aggregate repository that each service carries
  (services/*/src/repositories/*AggregateRepository.ts; the order service's copy is the one
  mapped): insert with duplicate detection, reads, updates and deletes that only see the
  caller's tenant, and a filtered, paged query. A filter compares fields for strict equality;
  \<open>field\<close> reads a field by name, the way \<open>(r as any)[key]\<close> does.
\<close>

datatype AggregateStatus = PENDING | VALIDATED | RESERVED | PAID | DISPATCHED | DELIVERED | CANCELLED

record IOrderAggregate =
  oa_orderId :: string
  oa_tenantId :: string
  oa_customerId :: string
  oa_status :: AggregateStatus
  oa_totalAmountUSD :: rat
  oa_taxAmountUSD :: rat
  oa_shippingAmountUSD :: rat
  oa_currency :: string
  oa_lineItemCount :: int
  oa_sagaCorrelationId :: string
  oa_createdAt :: instant
  oa_updatedAt :: instant

datatype field_value = VString string | VStatus AggregateStatus | VNumber rat | VDate instant

text \<open>Dates are objects: two of them are only identical when they are the same object, which a
  filter value never is. A field that does not exist reads as undefined.\<close>

fun field_matches :: "field_value \<Rightarrow> field_value option \<Rightarrow> bool" where
  "field_matches (VDate _) _ = False"
| "field_matches v w = (w = Some v)"

definition agg_field :: "IOrderAggregate \<Rightarrow> string \<Rightarrow> field_value option" where
  "agg_field r k =
     (if k = ''orderId'' then Some (VString (oa_orderId r))
      else if k = ''tenantId'' then Some (VString (oa_tenantId r))
      else if k = ''customerId'' then Some (VString (oa_customerId r))
      else if k = ''status'' then Some (VStatus (oa_status r))
      else if k = ''totalAmountUSD'' then Some (VNumber (oa_totalAmountUSD r))
      else if k = ''taxAmountUSD'' then Some (VNumber (oa_taxAmountUSD r))
      else if k = ''shippingAmountUSD'' then Some (VNumber (oa_shippingAmountUSD r))
      else if k = ''currency'' then Some (VString (oa_currency r))
      else if k = ''lineItemCount'' then Some (VNumber (of_int (oa_lineItemCount r)))
      else if k = ''sagaCorrelationId'' then Some (VString (oa_sagaCorrelationId r))
      else if k = ''createdAt'' then Some (VDate (oa_createdAt r))
      else if k = ''updatedAt'' then Some (VDate (oa_updatedAt r))
      else None)"

record IQueryOptions =
  q_page :: "int option"
  q_limit :: "int option"
  q_sortBy :: "string option"
  q_sortOrder :: "string option"
  q_filter :: "(string \<times> field_value option) list"

record QueryResult =
  qr_records :: "IOrderAggregate list"
  qr_totalCount :: nat
  qr_page :: int
  qr_limit :: int

type_synonym AggregateRepository = "(string, IOrderAggregate) jsmap"

definition agg_insert :: "IOrderAggregate \<Rightarrow> AggregateRepository \<Rightarrow> AggregateRepository \<times> IOrderAggregate outcome" where
  "agg_insert r m =
     (if jm_has m (oa_orderId r)
      then (m, Inl (PlainError (''Duplicate record identified with ID '' @ oa_orderId r)))
      else (jm_set (oa_orderId r) r m, Inr r))"

definition agg_findById :: "string \<Rightarrow> string \<Rightarrow> AggregateRepository \<Rightarrow> IOrderAggregate option" where
  "agg_findById i t m =
     (case jm_get m i of None \<Rightarrow> None | Some r \<Rightarrow> if oa_tenantId r \<noteq> t then None else Some r)"

definition agg_update ::
  "instant \<Rightarrow> string \<Rightarrow> string \<Rightarrow> (IOrderAggregate \<Rightarrow> IOrderAggregate) \<Rightarrow> AggregateRepository
     \<Rightarrow> AggregateRepository \<times> IOrderAggregate outcome" where
  "agg_update now i t f m =
     (case agg_findById i t m of
        None \<Rightarrow> (m, Inl (PlainError (''Record '' @ i @ '' not found in tenant scope'')))
      | Some r \<Rightarrow> let u = (f r)\<lparr> oa_updatedAt := now \<rparr> in (jm_set i u m, Inr u))"

definition agg_delete :: "string \<Rightarrow> string \<Rightarrow> AggregateRepository \<Rightarrow> AggregateRepository \<times> bool" where
  "agg_delete i t m =
     (case agg_findById i t m of None \<Rightarrow> (m, False) | Some r \<Rightarrow> (jm_delete i m, True))"

definition filter_keep :: "(string \<times> field_value option) list \<Rightarrow> IOrderAggregate \<Rightarrow> bool" where
  "filter_keep fs r \<longleftrightarrow> (\<forall>(k, w) \<in> set fs. case w of None \<Rightarrow> True | Some v \<Rightarrow> field_matches v (agg_field r k))"

fun apply_filters :: "(string \<times> field_value option) list \<Rightarrow> IOrderAggregate list \<Rightarrow> IOrderAggregate list" where
  "apply_filters [] rs = rs"
| "apply_filters ((k, None) # fs) rs = apply_filters fs rs"
| "apply_filters ((k, Some v) # fs) rs = apply_filters fs (filter (\<lambda>r. field_matches v (agg_field r k)) rs)"

definition agg_query :: "string \<Rightarrow> IQueryOptions \<Rightarrow> AggregateRepository \<Rightarrow> QueryResult" where
  "agg_query t opts m =
     (let page = (case q_page opts of None \<Rightarrow> 1 | Some p \<Rightarrow> p);
          limit = (case q_limit opts of None \<Rightarrow> 20 | Some l \<Rightarrow> l);
          everything = apply_filters (q_filter opts) (filter (\<lambda>r. oa_tenantId r = t) (jm_values m));
          start = (page - 1) * limit
      in \<lparr> qr_records = js_slice start (start + limit) everything,
           qr_totalCount = length everything, qr_page = page, qr_limit = limit \<rparr>)"

definition countByTenant :: "string \<Rightarrow> AggregateRepository \<Rightarrow> nat" where
  "countByTenant t m = length (filter (\<lambda>r. oa_tenantId r = t) (jm_values m))"

section \<open>Lemmas\<close>

lemma apply_filters_filter: "apply_filters fs rs = filter (filter_keep fs) rs"
  by (induction fs rs rule: apply_filters.induct)
    (auto simp: filter_keep_def fun_eq_iff intro!: filter_cong)

datatype agg_op =
    OpInsert IOrderAggregate
  | OpUpdate instant string string "IOrderAggregate \<Rightarrow> IOrderAggregate"
  | OpDelete string string

fun agg_step :: "agg_op \<Rightarrow> AggregateRepository \<Rightarrow> AggregateRepository" where
  "agg_step (OpInsert r) m = fst (agg_insert r m)"
| "agg_step (OpUpdate now i t f) m = fst (agg_update now i t f m)"
| "agg_step (OpDelete i t) m = fst (agg_delete i t m)"

fun op_tenant :: "agg_op \<Rightarrow> string" where
  "op_tenant (OpInsert r) = oa_tenantId r"
| "op_tenant (OpUpdate _ _ t _) = t"
| "op_tenant (OpDelete _ t) = t"

text \<open>
  The spread of a partial update may rewrite any field, the tenant and the identifier too, and \<open>update\<close> does not refuse
  it: this is how a record of the caller can be handed to another tenant.
\<close>

fun hands_over :: "string \<Rightarrow> string \<Rightarrow> agg_op \<Rightarrow> bool" where
  "hands_over t i (OpUpdate _ j u f) \<longleftrightarrow> j = i \<and> (\<exists>r. oa_tenantId r = u \<and> oa_tenantId (f r) = t)"
| "hands_over t i (OpInsert r) \<longleftrightarrow> False"
| "hands_over t i (OpDelete j u) \<longleftrightarrow> False"

lemma agg_step_kept:
  assumes "op_tenant e \<noteq> t" and "agg_findById i t m = Some r"
  shows "agg_findById i t (agg_step e m) = Some r"
proof (cases e)
  case (OpInsert r')
  with assms show ?thesis by (auto simp: agg_insert_def agg_findById_def split: option.splits if_splits)
next
  case (OpUpdate now j u f)
  with assms show ?thesis
    by (auto simp: agg_update_def Let_def agg_findById_def split: option.splits if_splits)
next
  case (OpDelete j u)
  with assms show ?thesis by (auto simp: agg_delete_def agg_findById_def split: option.splits if_splits)
qed

lemma agg_step_new:
  assumes "op_tenant e \<noteq> t" and "agg_findById i t m = None" and "\<not> hands_over t i e"
  shows "agg_findById i t (agg_step e m) = None"
proof (cases e)
  case (OpInsert r')
  with assms show ?thesis by (auto simp: agg_insert_def agg_findById_def split: option.splits if_splits)
next
  case (OpUpdate now j u f)
  with assms show ?thesis
    by (auto simp: agg_update_def Let_def agg_findById_def split: option.splits if_splits)
next
  case (OpDelete j u)
  with assms show ?thesis by (auto simp: agg_delete_def agg_findById_def split: option.splits if_splits)
qed

lemma agg_run_kept:
  "list_all (\<lambda>e. op_tenant e \<noteq> t) es \<Longrightarrow> agg_findById i t m = Some r \<Longrightarrow> agg_findById i t (fold agg_step es m) = Some r"
  by (induction es arbitrary: m) (simp_all add: agg_step_kept)

lemma agg_run_new:
  "list_all (\<lambda>e. op_tenant e \<noteq> t) es \<Longrightarrow> agg_findById i t m = None \<Longrightarrow> \<not> list_ex (hands_over t i) es \<Longrightarrow>
    agg_findById i t (fold agg_step es m) = None"
  by (induction es arbitrary: m) (simp_all add: agg_step_new)

section \<open>Properties\<close>

text \<open>C15: Tenants cannot see or touch each other's records, and can only give theirs away. Whatever operations other
  tenants call, with any partial updates, a record that a tenant can read by identifier stays exactly as it was. A
  record that is new to it was handed over: another tenant's update of a record of its own, stored under that identifier,
  rewrote the tenant field (the code does not refuse such updates). A tenant's
  own update and delete of a record that belongs to somebody else fail without changing the
  storage; and every record a query returns, on any page and under any filter, belongs to the
  tenant and satisfies the filter.\<close>

theorem tenant_isolation:
  assumes "\<forall>e \<in> set es. op_tenant e \<noteq> t"
  shows "(\<forall>i r. agg_findById i t m = Some r \<longrightarrow> agg_findById i t (fold agg_step es m) = Some r) \<and>
    (\<forall>i. agg_findById i t m = None \<longrightarrow> agg_findById i t (fold agg_step es m) = None \<or> (\<exists>e \<in> set es. hands_over t i e)) \<and>
    (\<forall>i r now f. jm_get m i = Some r \<longrightarrow> oa_tenantId r \<noteq> t \<longrightarrow>
       fst (agg_update now i t f m) = m \<and> isl (snd (agg_update now i t f m)) \<and> agg_delete i t m = (m, False)) \<and>
    (\<forall>opts r. r \<in> set (qr_records (agg_query t opts m)) \<longrightarrow>
       oa_tenantId r = t \<and> r \<in> set (jm_values m) \<and> filter_keep (q_filter opts) r) \<and>
    (\<forall>opts. qr_totalCount (agg_query t opts m) \<le> countByTenant t m)"
proof (intro conjI allI impI)
  have others: "list_all (\<lambda>e. op_tenant e \<noteq> t) es" using assms by (simp add: list_all_iff)
  fix i
  show "agg_findById i t (fold agg_step es m) = Some r" if "agg_findById i t m = Some r" for r
    by (rule agg_run_kept [OF others that])
  show "agg_findById i t (fold agg_step es m) = None \<or> (\<exists>e \<in> set es. hands_over t i e)" if "agg_findById i t m = None"
    using agg_run_new [OF others that] unfolding list_ex_iff by blast
next
  fix opts r assume "r \<in> set (qr_records (agg_query t opts m))"
  then have "r \<in> set (apply_filters (q_filter opts) (filter (\<lambda>r. oa_tenantId r = t) (jm_values m)))"
    using js_slice_subset by (fastforce simp: agg_query_def Let_def)
  then show "oa_tenantId r = t" "r \<in> set (jm_values m)" "filter_keep (q_filter opts) r"
    by (simp_all add: apply_filters_filter)
next
  fix opts show "qr_totalCount (agg_query t opts m) \<le> countByTenant t m"
    by (simp add: agg_query_def Let_def apply_filters_filter countByTenant_def del: filter_filter)
qed (auto simp: agg_update_def agg_delete_def agg_findById_def)

definition demo_aggregate :: "string \<Rightarrow> string \<Rightarrow> IOrderAggregate" where
  "demo_aggregate i t = \<lparr> oa_orderId = i, oa_tenantId = t, oa_customerId = ''c'', oa_status = PENDING,
     oa_totalAmountUSD = 10, oa_taxAmountUSD = 1, oa_shippingAmountUSD = 2, oa_currency = ''USD'',
     oa_lineItemCount = 1, oa_sagaCorrelationId = ''s'', oa_createdAt = 0, oa_updatedAt = 0 \<rparr>"

theorem tenant_isolation_witness:
  "agg_findById ''a'' ''t1'' (fold agg_step [OpDelete ''a'' ''t2'', OpInsert (demo_aggregate ''b'' ''t2'')]
     [(''a'', demo_aggregate ''a'' ''t1'')]) = Some (demo_aggregate ''a'' ''t1'')"
  using tenant_isolation [of "[OpDelete ''a'' ''t2'', OpInsert (demo_aggregate ''b'' ''t2'')]" "''t1''"
      "[(''a'', demo_aggregate ''a'' ''t1'')]"]
  by (simp add: demo_aggregate_def agg_findById_def)

end
