(* ===== verification/Inventory_Stock.thy ===== *)
theory Inventory_Stock
  imports Common_Types
begin

text \<open>
  The inventory service (services/inventory-service/src): its entities, the in-memory product,
  warehouse and stock repositories, and InventoryService. An async repository method runs
  atomically between two \<open>await\<close>s; the methods that await a lookup before they write are split
  there (\<open>upsert_finish\<close>, \<open>reserve_finish\<close>, \<open>release_start\<close>, \<open>release_finish\<close>), and the method is
  their composition; the theory Stock_Interleaving runs the parts of several requests in any order. The lookup hands back the stored object itself, so the second half works
  on its live content.
\<close>

section \<open>Entities\<close>

record ProductEntity =
  pd_id :: string
  pd_tenantId :: string
  pd_sku :: string
  pd_name :: string
  pd_unitCostCents :: int
  pd_retailPriceCents :: int
  pd_barcode :: string
  pd_reorderThreshold :: int
  pd_reorderQuantity :: int
  pd_isActive :: bool
  pd_createdAt :: instant
  pd_updatedAt :: instant

record WarehouseEntity =
  wh_id :: string
  wh_tenantId :: string
  wh_code :: string
  wh_name :: string
  wh_maxPalletCapacity :: int
  wh_isActive :: bool
  wh_createdAt :: instant

record BinLocationEntity =
  bn_id :: string
  bn_warehouseId :: string
  bn_tenantId :: string
  bn_zone :: WarehouseZoneType
  bn_aisle :: string
  bn_rack :: string
  bn_shelf :: string
  bn_binCode :: string
  bn_maxVolumeCm3 :: int
  bn_maxWeightKg :: int
  bn_isOccupied :: bool

record StockLevelEntity =
  sl_id :: string
  sl_tenantId :: string
  sl_warehouseId :: string
  sl_binLocationId :: string
  sl_sku :: string
  sl_quantityOnHand :: int
  sl_quantityReserved :: int
  sl_quantityAvailable :: int
  sl_updatedAt :: instant

datatype ReservationStatus = ACTIVE | FULFILLED | RELEASED | EXPIRED

record StockReservationEntity =
  rv_id :: string
  rv_tenantId :: string
  rv_orderId :: string
  rv_warehouseId :: string
  rv_sku :: string
  rv_reservedQty :: int
  rv_binLocationId :: string
  rv_status :: ReservationStatus
  rv_expiresAt :: instant
  rv_createdAt :: instant

record StockAuditMovementEntity =
  mv_id :: string
  mv_tenantId :: string
  mv_warehouseId :: string
  mv_sku :: string
  mv_movementType :: StockMovementType
  mv_quantityDelta :: int
  mv_referenceId :: "string option"
  mv_performedByUserId :: string
  mv_notes :: "string option"
  mv_createdAt :: instant

section \<open>Product and warehouse repositories\<close>

type_synonym ProductRepository = "(string, ProductEntity) jsmap"

definition product_create :: "instant \<Rightarrow> string \<Rightarrow> ProductEntity \<Rightarrow> ProductRepository \<Rightarrow> ProductRepository \<times> ProductEntity" where
  "product_create now uid draft m =
     (let e = draft\<lparr> pd_id := uid, pd_createdAt := now, pd_updatedAt := now \<rparr> in (jm_set uid e m, e))"

definition product_find :: "ProductRepository \<Rightarrow> string \<Rightarrow> ProductEntity option" where
  "product_find m i = jm_get m i"

definition product_findBySku :: "string \<Rightarrow> string \<Rightarrow> ProductRepository \<Rightarrow> ProductEntity option" where
  "product_findBySku sku t m = find (\<lambda>p. pd_sku p = sku \<and> pd_tenantId p = t) (jm_values m)"

definition product_listByTenant :: "string \<Rightarrow> ProductRepository \<Rightarrow> ProductEntity list" where
  "product_listByTenant t m = filter (\<lambda>p. pd_tenantId p = t) (jm_values m)"

record WarehouseRepository =
  wr_warehouses :: "(string, WarehouseEntity) jsmap"
  wr_bins :: "(string, BinLocationEntity) jsmap"

definition wh_createWarehouse ::
  "instant \<Rightarrow> string \<Rightarrow> WarehouseEntity \<Rightarrow> WarehouseRepository \<Rightarrow> WarehouseRepository \<times> WarehouseEntity" where
  "wh_createWarehouse now uid draft r =
     (let e = draft\<lparr> wh_id := uid, wh_createdAt := now \<rparr>
      in (r\<lparr> wr_warehouses := jm_set uid e (wr_warehouses r) \<rparr>, e))"

definition findWarehouseById :: "WarehouseRepository \<Rightarrow> string \<Rightarrow> WarehouseEntity option" where
  "findWarehouseById r i = jm_get (wr_warehouses r) i"

definition listWarehousesByTenant :: "string \<Rightarrow> WarehouseRepository \<Rightarrow> WarehouseEntity list" where
  "listWarehousesByTenant t r = filter (\<lambda>w. wh_tenantId w = t) (jm_values (wr_warehouses r))"

definition createBin :: "string \<Rightarrow> BinLocationEntity \<Rightarrow> WarehouseRepository \<Rightarrow> WarehouseRepository \<times> BinLocationEntity" where
  "createBin uid draft r =
     (let e = draft\<lparr> bn_id := uid \<rparr> in (r\<lparr> wr_bins := jm_set uid e (wr_bins r) \<rparr>, e))"

definition listBinsByWarehouse :: "string \<Rightarrow> WarehouseRepository \<Rightarrow> BinLocationEntity list" where
  "listBinsByWarehouse w r = filter (\<lambda>b. bn_warehouseId b = w) (jm_values (wr_bins r))"

section \<open>Stock repository\<close>

record StockRepo =
  sr_stock :: "(string, StockLevelEntity) jsmap"
  sr_reservations :: "(string, StockReservationEntity) jsmap"
  sr_movements :: "StockAuditMovementEntity list"

definition getStock :: "string \<Rightarrow> string \<Rightarrow> StockRepo \<Rightarrow> StockLevelEntity option" where
  "getStock wh sku r =
     find (\<lambda>s. sl_warehouseId s = wh \<and> sl_sku s = sku) (jm_values (sr_stock r))"

definition stock_ref :: "string \<Rightarrow> string \<Rightarrow> StockRepo \<Rightarrow> string option" where
  "stock_ref wh sku r = map_option sl_id (getStock wh sku r)"

definition live_stock :: "string option \<Rightarrow> StockRepo \<Rightarrow> StockLevelEntity option" where
  "live_stock ref r = Option.bind ref (jm_get (sr_stock r))"

definition put_stock :: "StockLevelEntity \<Rightarrow> StockRepo \<Rightarrow> StockRepo" where
  "put_stock s r = r\<lparr> sr_stock := jm_set (sl_id s) s (sr_stock r) \<rparr>"

definition upsert_finish ::
  "instant \<Rightarrow> string \<Rightarrow> StockLevelEntity \<Rightarrow> string option \<Rightarrow> StockRepo \<Rightarrow> StockRepo \<times> StockLevelEntity" where
  "upsert_finish now uid item ref r =
     (case live_stock ref r of
        Some e \<Rightarrow>
          let hand = sl_quantityOnHand e + sl_quantityOnHand item;
              e' = e\<lparr> sl_quantityOnHand := hand, sl_quantityAvailable := hand - sl_quantityReserved e,
                     sl_updatedAt := now \<rparr>
          in (put_stock e' r, e')
      | None \<Rightarrow>
          let e' = item\<lparr> sl_id := uid,
                        sl_quantityAvailable := sl_quantityOnHand item - sl_quantityReserved item,
                        sl_updatedAt := now \<rparr>
          in (put_stock e' r, e'))"

definition upsertStock ::
  "instant \<Rightarrow> string \<Rightarrow> StockLevelEntity \<Rightarrow> StockRepo \<Rightarrow> StockRepo \<times> StockLevelEntity" where
  "upsertStock now uid item r =
     upsert_finish now uid item (stock_ref (sl_warehouseId item) (sl_sku item) r) r"

definition reserve_finish ::
  "instant \<Rightarrow> string \<Rightarrow> string \<Rightarrow> string \<Rightarrow> string \<Rightarrow> int \<Rightarrow> string \<Rightarrow> string option \<Rightarrow> StockRepo
     \<Rightarrow> StockRepo \<times> StockReservationEntity outcome" where
  "reserve_finish now uid orderId wh sku qty tenant ref r =
     (case live_stock ref r of
        None \<Rightarrow> (r, Inl (PlainError (''Insufficient stock for SKU '' @ sku)))
      | Some s \<Rightarrow>
          if sl_quantityAvailable s < qty
          then (r, Inl (PlainError (''Insufficient stock for SKU '' @ sku)))
          else
            let res = sl_quantityReserved s + qty;
                s' = s\<lparr> sl_quantityReserved := res, sl_quantityAvailable := sl_quantityOnHand s - res,
                       sl_updatedAt := now \<rparr>;
                v = \<lparr> rv_id = uid, rv_tenantId = tenant, rv_orderId = orderId, rv_warehouseId = wh,
                      rv_sku = sku, rv_reservedQty = qty, rv_binLocationId = sl_binLocationId s,
                      rv_status = ACTIVE, rv_expiresAt = now + 1000 * 60 * 60, rv_createdAt = now \<rparr>;
                r' = put_stock s' r
            in (r'\<lparr> sr_reservations := jm_set uid v (sr_reservations r') \<rparr>, Inr v))"

definition reserveStock ::
  "instant \<Rightarrow> string \<Rightarrow> string \<Rightarrow> string \<Rightarrow> string \<Rightarrow> int \<Rightarrow> string \<Rightarrow> StockRepo
     \<Rightarrow> StockRepo \<times> StockReservationEntity outcome" where
  "reserveStock now uid orderId wh sku qty tenant r =
     reserve_finish now uid orderId wh sku qty tenant (stock_ref wh sku r) r"

text \<open>
  \<open>releaseReservation\<close>: the first half checks the status and starts the stock lookup, the
  second subtracts the quantity and marks the reservation, without looking at its status again.
\<close>

definition release_start :: "string \<Rightarrow> StockRepo \<Rightarrow> (string \<times> string option) option" where
  "release_start i r =
     (case jm_get (sr_reservations r) i of
        None \<Rightarrow> None
      | Some v \<Rightarrow> if rv_status v \<noteq> ACTIVE then None
                 else Some (i, stock_ref (rv_warehouseId v) (rv_sku v) r))"

definition release_finish :: "instant \<Rightarrow> string \<times> string option \<Rightarrow> StockRepo \<Rightarrow> StockRepo" where
  "release_finish now ir r =
     (case jm_get (sr_reservations r) (fst ir) of
        None \<Rightarrow> r
      | Some v \<Rightarrow>
          let r1 = (case live_stock (snd ir) r of
                      None \<Rightarrow> r
                    | Some s \<Rightarrow>
                        let res = max 0 (sl_quantityReserved s - rv_reservedQty v)
                        in put_stock (s\<lparr> sl_quantityReserved := res,
                                        sl_quantityAvailable := sl_quantityOnHand s - res,
                                        sl_updatedAt := now \<rparr>) r)
          in r1\<lparr> sr_reservations := jm_set (fst ir) (v\<lparr> rv_status := RELEASED \<rparr>) (sr_reservations r1) \<rparr>)"

definition releaseReservation :: "instant \<Rightarrow> string \<Rightarrow> StockRepo \<Rightarrow> StockRepo" where
  "releaseReservation now i r =
     (case release_start i r of None \<Rightarrow> r | Some ir \<Rightarrow> release_finish now ir r)"

definition recordMovement :: "instant \<Rightarrow> string \<Rightarrow> StockAuditMovementEntity \<Rightarrow> StockRepo \<Rightarrow> StockRepo" where
  "recordMovement now uid draft r =
     r\<lparr> sr_movements := sr_movements r @ [draft\<lparr> mv_id := uid, mv_createdAt := now \<rparr>] \<rparr>"

definition listStockByWarehouse :: "string \<Rightarrow> StockRepo \<Rightarrow> StockLevelEntity list" where
  "listStockByWarehouse wh r = filter (\<lambda>s. sl_warehouseId s = wh) (jm_values (sr_stock r))"

section \<open>Inventory service\<close>

definition createProduct ::
  "instant \<Rightarrow> string \<Rightarrow> ProductEntity \<Rightarrow> ProductRepository \<Rightarrow> ProductRepository \<times> ProductEntity outcome" where
  "createProduct now uid dto m =
     (case product_findBySku (pd_sku dto) (pd_tenantId dto) m of
        Some _ \<Rightarrow> (m, Inl (ConflictException
           (''Product with SKU '' @ quoted (pd_sku dto) @ '' already exists in this tenant.'')))
      | None \<Rightarrow> let (m', e) = product_create now uid (dto\<lparr> pd_isActive := True \<rparr>) m in (m', Inr e))"

definition createWarehouse ::
  "instant \<Rightarrow> string \<Rightarrow> string \<Rightarrow> WarehouseEntity \<Rightarrow> WarehouseRepository \<Rightarrow> WarehouseRepository \<times> WarehouseEntity" where
  "createWarehouse now uid uid' dto r =
     (let (r1, wh) = wh_createWarehouse now uid (dto\<lparr> wh_isActive := True \<rparr>) r;
          (r2, b) = createBin uid'
            \<lparr> bn_id = [], bn_warehouseId = wh_id wh, bn_tenantId = wh_tenantId dto,
              bn_zone = WarehouseZoneType.RECEIVING_DOCK, bn_aisle = ''A'', bn_rack = ''01'',
              bn_shelf = ''1'', bn_binCode = ''RCV-01-A'', bn_maxVolumeCm3 = 5000000,
              bn_maxWeightKg = 10000, bn_isOccupied = False \<rparr> r1
      in (r2, wh))"

fun check_items :: "string \<Rightarrow> (string \<times> int) list \<Rightarrow> StockRepo \<Rightarrow> app_error option" where
  "check_items wh [] r = None"
| "check_items wh ((sku, qty) # items) r =
     (case getStock wh sku r of
        None \<Rightarrow> Some (InsufficientInventoryException sku qty 0)
      | Some s \<Rightarrow> if sl_quantityAvailable s < qty
                 then Some (InsufficientInventoryException sku qty (sl_quantityAvailable s))
                 else check_items wh items r)"

fun reserve_items ::
  "instant \<Rightarrow> (nat \<Rightarrow> string) \<Rightarrow> nat \<Rightarrow> string \<Rightarrow> string \<Rightarrow> string \<Rightarrow> (string \<times> int) list \<Rightarrow> StockRepo
     \<Rightarrow> StockRepo \<times> StockReservationEntity list outcome" where
  "reserve_items now uids n orderId wh tenant [] r = (r, Inr [])"
| "reserve_items now uids n orderId wh tenant ((sku, qty) # items) r =
     (case reserveStock now (uids n) orderId wh sku qty tenant r of
        (r', Inl e) \<Rightarrow> (r', Inl e)
      | (r', Inr v) \<Rightarrow>
          (case reserve_items now uids (Suc n) orderId wh tenant items r' of
             (r'', Inl e) \<Rightarrow> (r'', Inl e)
           | (r'', Inr vs) \<Rightarrow> (r'', Inr (v # vs))))"

definition reserveItemsForOrder ::
  "instant \<Rightarrow> (nat \<Rightarrow> string) \<Rightarrow> string \<Rightarrow> string \<Rightarrow> string \<Rightarrow> (string \<times> int) list \<Rightarrow> StockRepo
     \<Rightarrow> StockRepo \<times> StockReservationEntity list outcome" where
  "reserveItemsForOrder now uids orderId wh tenant items r =
     (case check_items wh items r of
        Some e \<Rightarrow> (r, Inl e)
      | None \<Rightarrow> reserve_items now uids 0 orderId wh tenant items r)"

record AdjustStockDTO =
  as_tenantId :: string
  as_warehouseId :: string
  as_binLocationId :: string
  as_sku :: string
  as_movementType :: StockMovementType
  as_quantityDelta :: int
  as_referenceId :: "string option"
  as_userId :: string
  as_notes :: "string option"

definition adjust_item :: "AdjustStockDTO \<Rightarrow> StockLevelEntity" where
  "adjust_item dto =
     \<lparr> sl_id = [], sl_tenantId = as_tenantId dto, sl_warehouseId = as_warehouseId dto,
       sl_binLocationId = as_binLocationId dto, sl_sku = as_sku dto,
       sl_quantityOnHand = as_quantityDelta dto, sl_quantityReserved = 0,
       sl_quantityAvailable = 0, sl_updatedAt = 0 \<rparr>"

definition adjustStock ::
  "instant \<Rightarrow> string \<Rightarrow> string \<Rightarrow> AdjustStockDTO \<Rightarrow> StockRepo \<Rightarrow> StockRepo \<times> StockLevelEntity" where
  "adjustStock now uid uid' dto r =
     (let (r1, s) = upsertStock now uid (adjust_item dto) r
      in (recordMovement now uid'
            \<lparr> mv_id = [], mv_tenantId = as_tenantId dto, mv_warehouseId = as_warehouseId dto,
              mv_sku = as_sku dto, mv_movementType = as_movementType dto,
              mv_quantityDelta = as_quantityDelta dto, mv_referenceId = as_referenceId dto,
              mv_performedByUserId = as_userId dto, mv_notes = as_notes dto, mv_createdAt = 0 \<rparr> r1, s))"

definition getWarehouseStock :: "string \<Rightarrow> StockRepo \<Rightarrow> StockLevelEntity list" where
  "getWarehouseStock wh r = listStockByWarehouse wh r"

definition getProducts :: "string \<Rightarrow> ProductRepository \<Rightarrow> ProductEntity list" where
  "getProducts t m = product_listByTenant t m"

section \<open>The stock invariant\<close>

definition active_qty :: "(string, StockReservationEntity) jsmap \<Rightarrow> string \<Rightarrow> string \<Rightarrow> int" where
  "active_qty m wh sku =
     (\<Sum>v \<leftarrow> jm_values m. if rv_warehouseId v = wh \<and> rv_sku v = sku \<and> rv_status v = ACTIVE
                         then rv_reservedQty v else 0)"

definition slot :: "StockLevelEntity \<Rightarrow> string \<times> string" where
  "slot s = (sl_warehouseId s, sl_sku s)"

definition stock_ok ::
  "(string, StockLevelEntity) jsmap \<Rightarrow> (string, StockReservationEntity) jsmap \<Rightarrow> bool" where
  "stock_ok st rv \<longleftrightarrow>
     keyed sl_id st \<and> keyed rv_id rv \<and> inj_on slot (set (jm_values st)) \<and>
     (\<forall>s \<in> set (jm_values st).
        sl_quantityAvailable s = sl_quantityOnHand s - sl_quantityReserved s \<and>
        sl_quantityReserved s = active_qty rv (sl_warehouseId s) (sl_sku s)) \<and>
     (\<forall>v \<in> set (jm_values rv). 0 \<le> rv_reservedQty v \<and>
        (rv_status v = ACTIVE \<longrightarrow> (\<exists>s \<in> set (jm_values st). slot s = (rv_warehouseId v, rv_sku v))))"

abbreviation stock_inv :: "StockRepo \<Rightarrow> bool" where
  "stock_inv r \<equiv> stock_ok (sr_stock r) (sr_reservations r)"

lemma getStock_Some:
  "getStock wh sku r = Some s \<Longrightarrow> s \<in> set (jm_values (sr_stock r)) \<and> slot s = (wh, sku)"
  by (auto simp: getStock_def slot_def dest!: find_SomeD)

lemma getStock_None:
  "getStock wh sku r = None \<longleftrightarrow> (\<forall>s \<in> set (jm_values (sr_stock r)). slot s \<noteq> (wh, sku))"
  by (auto simp: getStock_def find_None_iff slot_def)

lemma live_ref:
  "keyed sl_id (sr_stock r) \<Longrightarrow> live_stock (stock_ref wh sku r) r = getStock wh sku r"
  by (cases "getStock wh sku r")
    (auto simp: live_stock_def stock_ref_def dest: keyed_value dest!: getStock_Some)

lemma getStock_unique:
  "inj_on slot (set (jm_values (sr_stock r))) \<Longrightarrow> s \<in> set (jm_values (sr_stock r)) \<Longrightarrow>
    getStock (sl_warehouseId s) (sl_sku s) r = Some s"
  using getStock_Some [of "sl_warehouseId s" "sl_sku s" r] getStock_None [of "sl_warehouseId s" "sl_sku s" r]
  by (cases "getStock (sl_warehouseId s) (sl_sku s) r") (auto simp: slot_def inj_on_def)

text \<open>Writing a stock entry back with a new reserved quantity, and reservations that match it.\<close>

lemma stock_ok_write:
  assumes ok: "stock_ok st rv" and s: "s \<in> set (jm_values st)"
    and s': "sl_id s' = sl_id s" "slot s' = slot s"
      "sl_quantityAvailable s' = sl_quantityOnHand s' - sl_quantityReserved s'"
    and rv': "keyed rv_id rv'"
      "\<And>v. v \<in> set (jm_values rv') \<Longrightarrow> 0 \<le> rv_reservedQty v \<and>
        (rv_status v = ACTIVE \<longrightarrow> (\<exists>s \<in> set (jm_values st). slot s = (rv_warehouseId v, rv_sku v)))"
      "\<And>wh sku. active_qty rv' wh sku = active_qty rv wh sku +
         (if (wh, sku) = slot s then sl_quantityReserved s' - sl_quantityReserved s else 0)"
  shows "stock_ok (jm_set (sl_id s) s' st) rv'"
proof -
  have k: "keyed sl_id st" using ok by (simp add: stock_ok_def)
  have vals: "set (jm_values (jm_set (sl_id s) s' st)) = insert s' {x \<in> set (jm_values st). sl_id x \<noteq> sl_id s}"
    using keyed_values_set [OF k s'(1)] .
  have others: "slot x \<noteq> slot s" if "x \<in> set (jm_values st)" "sl_id x \<noteq> sl_id s" for x
    using ok that s unfolding stock_ok_def inj_on_def by metis
  obtain A where A: "A = {x \<in> set (jm_values st). sl_id x \<noteq> sl_id s}" by blast
  have S: "set (jm_values st) = insert s A"
    using s keyed_inj [OF k] by (auto simp: inj_on_def A)
  have slots: "slot ` set (jm_values (jm_set (sl_id s) s' st)) = slot ` set (jm_values st)"
    unfolding S unfolding vals A [symmetric] using s'(2) by (simp only: image_insert)
  have inj: "inj_on slot (set (jm_values (jm_set (sl_id s) s' st)))"
  proof -
    let ?A = "{x \<in> set (jm_values st). sl_id x \<noteq> sl_id s}"
    have "inj_on slot ?A" using ok by (auto simp: stock_ok_def intro: inj_on_subset)
    moreover have "slot s' \<notin> slot ` (?A - {s'})"
    proof
      assume "slot s' \<in> slot ` (?A - {s'})"
      then obtain x where "slot s' = slot x" "x \<in> ?A - {s'}" by (rule imageE)
      with others [of x] s'(2) show False by simp
    qed
    ultimately show ?thesis unfolding vals by simp
  qed
  have amounts: "sl_quantityReserved x = active_qty rv' (sl_warehouseId x) (sl_sku x)"
    if "x \<in> set (jm_values (jm_set (sl_id s) s' st))" for x
  proof (cases "x = s'")
    case True
    have "sl_quantityReserved s = active_qty rv (sl_warehouseId s) (sl_sku s)"
      using ok s by (simp add: stock_ok_def)
    with True s'(2) rv'(3) [of "sl_warehouseId s" "sl_sku s"] show ?thesis by (simp add: slot_def)
  next
    case False
    with that vals have x: "x \<in> set (jm_values st)" "sl_id x \<noteq> sl_id s" by auto
    with others [OF x] ok rv'(3) [of "sl_warehouseId x" "sl_sku x"] show ?thesis
      by (auto simp: stock_ok_def slot_def)
  qed
  have "\<exists>y \<in> set (jm_values (jm_set (sl_id s) s' st)). slot y = z"
    if "\<exists>y \<in> set (jm_values st). slot y = z" for z
    using that slots by (metis (mono_tags, lifting) image_iff)
  then have holders: "\<forall>v \<in> set (jm_values rv'). 0 \<le> rv_reservedQty v \<and> (rv_status v = ACTIVE \<longrightarrow>
      (\<exists>y \<in> set (jm_values (jm_set (sl_id s) s' st)). slot y = (rv_warehouseId v, rv_sku v)))"
    using rv'(2) by blast
  have avail: "sl_quantityAvailable x = sl_quantityOnHand x - sl_quantityReserved x"
    if "x \<in> set (jm_values (jm_set (sl_id s) s' st))" for x
    using that ok s'(3) unfolding vals stock_ok_def by auto
  show ?thesis
    unfolding stock_ok_def
    using keyed_put [OF k s'(1)] rv'(1) inj amounts avail holders by blast
qed

lemma active_qty_add:
  assumes "jm_get rv k = None"
  shows "active_qty (jm_set k v rv) wh sku = active_qty rv wh sku +
    (if rv_warehouseId v = wh \<and> rv_sku v = sku \<and> rv_status v = ACTIVE then rv_reservedQty v else 0)"
  unfolding active_qty_def using assms by (rule sum_values_new)

lemma active_qty_change:
  assumes "jm_ok rv" and "jm_get rv k = Some v"
  shows "active_qty (jm_set k v' rv) wh sku = active_qty rv wh sku
    - (if rv_warehouseId v = wh \<and> rv_sku v = sku \<and> rv_status v = ACTIVE then rv_reservedQty v else 0)
    + (if rv_warehouseId v' = wh \<and> rv_sku v' = sku \<and> rv_status v' = ACTIVE then rv_reservedQty v' else 0)"
  unfolding active_qty_def using assms by (rule sum_values_set)

lemma active_qty_zero:
  assumes "\<forall>v \<in> set (jm_values rv). rv_status v = ACTIVE \<longrightarrow> (rv_warehouseId v, rv_sku v) \<noteq> (wh, sku)"
  shows "active_qty rv wh sku = 0"
proof -
  have "map (\<lambda>v. if rv_warehouseId v = wh \<and> rv_sku v = sku \<and> rv_status v = ACTIVE then rv_reservedQty v else 0)
      (jm_values rv) = map (\<lambda>_. 0) (jm_values rv)"
    using assms by (intro map_cong) auto
  then show ?thesis unfolding active_qty_def by (simp only: sum_list_0)
qed

lemma active_qty_ge:
  assumes "\<forall>v \<in> set (jm_values rv). 0 \<le> rv_reservedQty v" and "jm_ok rv" and "jm_get rv k = Some v"
    and "rv_status v = ACTIVE"
  shows "rv_reservedQty v \<le> active_qty rv (rv_warehouseId v) (rv_sku v)"
proof -
  let ?v = "v\<lparr> rv_status := RELEASED \<rparr>"
  have "0 \<le> active_qty (jm_set k ?v rv) (rv_warehouseId v) (rv_sku v)"
    unfolding active_qty_def
    using assms(1) jm_get_value [OF assms(3)] by (intro sum_list_nonneg) (auto dest!: jm_set_value)
  with active_qty_change [OF assms(2,3), of ?v "rv_warehouseId v" "rv_sku v"] assms(4) show ?thesis by simp
qed

section \<open>Every operation keeps it\<close>

lemma upsert_inv [keeps]:
  assumes inv: "stock_inv r" and item: "sl_quantityReserved item = 0"
    and fresh: "jm_get (sr_stock r) uid = None"
  shows "stock_inv (fst (upsertStock now uid item r))"
proof (cases "getStock (sl_warehouseId item) (sl_sku item) r")
  case (Some e)
  note e = getStock_Some [OF Some]
  have live: "live_stock (stock_ref (sl_warehouseId item) (sl_sku item) r) r = Some e"
    using inv Some by (simp add: live_ref stock_ok_def)
  show ?thesis
    using inv e by (auto simp: upsertStock_def upsert_finish_def live Let_def put_stock_def slot_def
        intro!: stock_ok_write [of _ _ e]) (auto simp: stock_ok_def slot_def)
next
  case None
  have live: "live_stock (stock_ref (sl_warehouseId item) (sl_sku item) r) r = None"
    using inv None by (simp add: live_ref stock_ok_def)
  define e where "e = item\<lparr> sl_id := uid,
    sl_quantityAvailable := sl_quantityOnHand item - sl_quantityReserved item, sl_updatedAt := now \<rparr>"
  have e: "sl_id e = uid" "slot e = slot item" "sl_quantityReserved e = 0"
    "sl_quantityAvailable e = sl_quantityOnHand e - sl_quantityReserved e"
    using item by (simp_all add: e_def slot_def)
  have new: "slot s \<noteq> slot e" if "s \<in> set (jm_values (sr_stock r))" for s
    using None that e(2) by (auto simp: getStock_None slot_def)
  have zero: "active_qty (sr_reservations r) (sl_warehouseId e) (sl_sku e) = 0"
    using inv new by (intro active_qty_zero) (fastforce simp: stock_ok_def slot_def)
  have vals: "set (jm_values (jm_set uid e (sr_stock r))) = insert e (set (jm_values (sr_stock r)))"
    using fresh by (simp add: jm_set_append jm_values_def)
  have "stock_ok (jm_set uid e (sr_stock r)) (sr_reservations r)"
    using inv new zero e unfolding stock_ok_def vals
    by (auto intro!: keyed_put simp: inj_on_def) metis+
  then show ?thesis
    by (simp add: upsertStock_def upsert_finish_def live Let_def put_stock_def e_def)
qed

lemma reserve_cases:
  assumes "stock_inv r"
  obtains (fail) "reserveStock now uid orderId wh sku qty tenant r =
        (r, Inl (PlainError (''Insufficient stock for SKU '' @ sku)))"
      and "case getStock wh sku r of None \<Rightarrow> True | Some s \<Rightarrow> sl_quantityAvailable s < qty"
  | (reserved) s s' v r' where "getStock wh sku r = Some s" and "qty \<le> sl_quantityAvailable s"
      and "reserveStock now uid orderId wh sku qty tenant r = (r', Inr v)"
      and "sr_stock r' = jm_set (sl_id s) s' (sr_stock r)"
      and "sr_reservations r' = jm_set uid v (sr_reservations r)" and "sr_movements r' = sr_movements r"
      and "sl_id s' = sl_id s" and "slot s' = slot s" and "sl_quantityOnHand s' = sl_quantityOnHand s"
      and "sl_quantityReserved s' = sl_quantityReserved s + qty"
      and "sl_quantityAvailable s' = sl_quantityOnHand s - (sl_quantityReserved s + qty)"
      and "rv_id v = uid" and "rv_warehouseId v = wh" and "rv_sku v = sku" and "rv_reservedQty v = qty"
      and "rv_status v = ACTIVE" and "rv_orderId v = orderId"
proof (cases "getStock wh sku r")
  case None
  with assms have "live_stock (stock_ref wh sku r) r = None" by (simp add: live_ref stock_ok_def)
  with None show thesis by (intro fail) (simp_all add: reserveStock_def reserve_finish_def)
next
  case (Some s)
  with assms have live: "live_stock (stock_ref wh sku r) r = Some s" by (simp add: live_ref stock_ok_def)
  show thesis
  proof (cases "sl_quantityAvailable s < qty")
    case True
    with live Some show thesis by (intro fail) (simp_all add: reserveStock_def reserve_finish_def)
  next
    case False
    define s' where "s' = s\<lparr> sl_quantityReserved := sl_quantityReserved s + qty,
      sl_quantityAvailable := sl_quantityOnHand s - (sl_quantityReserved s + qty), sl_updatedAt := now \<rparr>"
    define v where "v = \<lparr> rv_id = uid, rv_tenantId = tenant, rv_orderId = orderId, rv_warehouseId = wh,
      rv_sku = sku, rv_reservedQty = qty, rv_binLocationId = sl_binLocationId s, rv_status = ACTIVE,
      rv_expiresAt = now + 1000 * 60 * 60, rv_createdAt = now \<rparr>"
    define r' where "r' = r\<lparr> sr_stock := jm_set (sl_id s) s' (sr_stock r),
      sr_reservations := jm_set uid v (sr_reservations r) \<rparr>"
    have res: "reserveStock now uid orderId wh sku qty tenant r = (r', Inr v)"
      using False live by (simp add: reserveStock_def reserve_finish_def put_stock_def Let_def
          r'_def s'_def v_def)
    show thesis
      by (rule reserved [OF Some _ res, where s' = s']) (use False in \<open>simp_all add: r'_def s'_def v_def slot_def\<close>)
  qed
qed

lemma reserve_inv [keeps]:
  assumes inv: "stock_inv r" and "0 \<le> qty" and fresh: "jm_get (sr_reservations r) uid = None"
  shows "stock_inv (fst (reserveStock now uid orderId wh sku qty tenant r))"
  using inv
proof (cases rule: reserve_cases [where now = now and uid = uid and orderId = orderId and wh = wh
      and sku = sku and qty = qty and tenant = tenant])
  case (reserved s s' v r')
  note s = getStock_Some [OF reserved(1)]
  have "stock_ok (jm_set (sl_id s) s' (sr_stock r)) (jm_set uid v (sr_reservations r))"
    using inv s reserved assms(2)
    by (intro stock_ok_write [OF inv])
      (auto simp: active_qty_add [OF fresh] stock_ok_def slot_def dest!: jm_set_value intro!: keyed_put)
  with reserved show ?thesis by simp
qed (use inv in simp)

lemma release_cases:
  assumes "stock_inv r"
  obtains (nothing) "releaseReservation now i r = r"
      and "\<forall>v. jm_get (sr_reservations r) i = Some v \<longrightarrow> rv_status v \<noteq> ACTIVE"
  | (released) v s s' r' where "jm_get (sr_reservations r) i = Some v" and "rv_status v = ACTIVE"
      and "getStock (rv_warehouseId v) (rv_sku v) r = Some s" and "releaseReservation now i r = r'"
      and "sr_stock r' = jm_set (sl_id s) s' (sr_stock r)"
      and "sr_reservations r' = jm_set i (v\<lparr> rv_status := RELEASED \<rparr>) (sr_reservations r)"
      and "sl_id s' = sl_id s" and "slot s' = slot s" and "sl_quantityOnHand s' = sl_quantityOnHand s"
      and "sl_quantityReserved s' = sl_quantityReserved s - rv_reservedQty v"
      and "sl_quantityAvailable s' = sl_quantityOnHand s - sl_quantityReserved s'"
proof (cases "\<exists>v. jm_get (sr_reservations r) i = Some v \<and> rv_status v = ACTIVE")
  case False
  show thesis
    by (rule nothing) (use False in \<open>auto simp: releaseReservation_def release_start_def split: option.split\<close>)
next
  case True
  then obtain v where v: "jm_get (sr_reservations r) i = Some v" "rv_status v = ACTIVE" by blast
  have "getStock (rv_warehouseId v) (rv_sku v) r \<noteq> None"
    using assms v(2) jm_get_value [OF v(1)] unfolding getStock_None stock_ok_def by auto
  then obtain s where s: "getStock (rv_warehouseId v) (rv_sku v) r = Some s" by blast
  with assms have live: "live_stock (stock_ref (rv_warehouseId v) (rv_sku v) r) r = Some s"
    by (simp add: live_ref stock_ok_def)
  have "rv_reservedQty v \<le> sl_quantityReserved s"
    using assms getStock_Some [OF s] active_qty_ge [of "sr_reservations r" i v] v
    by (auto simp: stock_ok_def slot_def keyed_ok)
  then have clamp: "max 0 (sl_quantityReserved s - rv_reservedQty v) = sl_quantityReserved s - rv_reservedQty v"
    by simp
  define s' where "s' = s\<lparr> sl_quantityReserved := sl_quantityReserved s - rv_reservedQty v,
    sl_quantityAvailable := sl_quantityOnHand s - (sl_quantityReserved s - rv_reservedQty v), sl_updatedAt := now \<rparr>"
  define r' where "r' = r\<lparr> sr_stock := jm_set (sl_id s) s' (sr_stock r),
    sr_reservations := jm_set i (v\<lparr> rv_status := RELEASED \<rparr>) (sr_reservations r) \<rparr>"
  have "releaseReservation now i r = r'"
    using v live by (simp add: releaseReservation_def release_start_def release_finish_def
        put_stock_def Let_def clamp r'_def s'_def)
  show thesis
    by (rule released [OF v s \<open>releaseReservation now i r = r'\<close>, where s' = s']) (simp_all add: r'_def s'_def slot_def)
qed

lemma release_inv [keeps]:
  assumes inv: "stock_inv r"
  shows "stock_inv (releaseReservation now i r)"
  using inv
proof (cases rule: release_cases [where now = now and i = i])
  case (released v s s' r')
  note s = getStock_Some [OF released(3)]
  have ok: "jm_ok (sr_reservations r)" "rv_id v = i"
    using inv released(1) by (auto simp: stock_ok_def keyed_ok dest: keyed_get)
  have "stock_ok (jm_set (sl_id s) s' (sr_stock r)) (jm_set i (v\<lparr> rv_status := RELEASED \<rparr>) (sr_reservations r))"
    using inv s released ok jm_get_value [OF released(1)]
    by (intro stock_ok_write [OF inv])
      (auto simp: active_qty_change [OF ok(1) released(1)] stock_ok_def slot_def dest!: jm_set_value intro!: keyed_put)
  with released show ?thesis by simp
qed (use inv in simp)

section \<open>Orders of several items\<close>

lemma reserve_other_slot:
  assumes "stock_inv r" and "(wh', sku') \<noteq> (wh, sku)"
  shows "getStock wh' sku' (fst (reserveStock now uid orderId wh sku qty tenant r)) = getStock wh' sku' r"
  using assms(1)
proof (cases rule: reserve_cases [where now = now and uid = uid and orderId = orderId and wh = wh
      and sku = sku and qty = qty and tenant = tenant])
  case (reserved s s' v r')
  note s = getStock_Some [OF reserved(1)]
  have k: "keyed sl_id (sr_stock r)" using assms(1) by (simp add: stock_ok_def)
  have "jm_get (sr_stock r) (sl_id s) = Some s" using keyed_value [OF k] s by simp
  from jm_set_split [OF keyed_ok [OF k] this, of s'] obtain xs ys where
    "sr_stock r = xs @ (sl_id s, s) # ys" "sr_stock r' = xs @ (sl_id s, s') # ys"
    using reserved(4) by metis
  moreover have "\<not> (sl_warehouseId s = wh' \<and> sl_sku s = sku')" "\<not> (sl_warehouseId s' = wh' \<and> sl_sku s' = sku')"
    using s reserved(8) assms(2) by (auto simp: slot_def)
  ultimately show ?thesis
    using reserved(3) by (auto simp: getStock_def jm_values_def find_append split: option.split)
qed simp

text \<open>What an order asks of a stock entry, and what a warehouse has of it: on hand and available.\<close>

definition requested :: "string \<Rightarrow> (string \<times> int) list \<Rightarrow> string \<Rightarrow> string \<Rightarrow> int" where
  "requested wh items wh' sku' = (if wh' = wh then (\<Sum>it \<leftarrow> items. if fst it = sku' then snd it else 0) else 0)"

definition levels :: "StockRepo \<Rightarrow> string \<Rightarrow> string \<Rightarrow> (int \<times> int) option" where
  "levels r wh sku = map_option (\<lambda>s. (sl_quantityOnHand s, sl_quantityAvailable s)) (getStock wh sku r)"

definition take_from :: "int \<Rightarrow> (int \<times> int) option \<Rightarrow> (int \<times> int) option" where
  "take_from n l = map_option (\<lambda>(hand, free). (hand, free - n)) l"

lemma take_from_0 [simp]: "take_from 0 l = l"
  by (cases l) (auto simp: take_from_def)

lemma take_from_take_from [simp]: "take_from m (take_from n l) = take_from (n + m) l"
  by (cases l) (auto simp: take_from_def)

lemma reserve_levels:
  assumes "stock_inv r" and "0 \<le> qty" and "jm_get (sr_reservations r) uid = None"
    and "reserveStock now uid orderId wh sku qty tenant r = (r', Inr v)"
  shows "levels r' wh' sku' = take_from (if (wh', sku') = (wh, sku) then qty else 0) (levels r wh' sku')"
proof (cases "(wh', sku') = (wh, sku)")
  case True
  from assms(1) show ?thesis
  proof (cases rule: reserve_cases [where now = now and uid = uid and orderId = orderId and wh = wh
      and sku = sku and qty = qty and tenant = tenant])
    case fail
    with assms(4) show ?thesis by simp
  next
    case (reserved s s' v' r1)
    have r1: "r1 = r'" using reserved(3) assms(4) by simp
    note s = getStock_Some [OF reserved(1)]
    have inv: "stock_inv r'" using reserve_inv [OF assms(1-3), of now orderId wh sku tenant] assms(4) by simp
    have "s' \<in> set (jm_values (sr_stock r'))" using jm_get_value [of "sr_stock r'" "sl_id s" s'] reserved(4) r1 by simp
    from getStock_unique [OF _ this] inv s reserved(8) have "getStock wh sku r' = Some s'"
      by (simp add: stock_ok_def slot_def)
    moreover have "sl_quantityAvailable s = sl_quantityOnHand s - sl_quantityReserved s"
      using assms(1) s(1) by (simp add: stock_ok_def)
    ultimately show ?thesis using True reserved by (simp add: levels_def take_from_def)
  qed
next
  case False
  then have none: "(if (wh', sku') = (wh, sku) then qty else 0) = 0" by (rule if_not_P)
  show ?thesis
    unfolding none using reserve_other_slot [OF assms(1) False, of now uid orderId qty tenant] assms(4) by (simp add: levels_def)
qed

lemma reserve_items_ok:
  assumes "stock_inv r" and "check_items wh items r = None" and "distinct (map fst items)"
    and "\<forall>it \<in> set items. 0 \<le> snd it" and "inj uids"
    and "\<forall>i \<ge> n. jm_get (sr_reservations r) (uids i) = None"
  shows "\<exists>r' vs. reserve_items now uids n orderId wh tenant items r = (r', Inr vs) \<and> stock_inv r' \<and>
    map (\<lambda>v. (rv_sku v, rv_reservedQty v)) vs = items \<and>
    (\<forall>v \<in> set vs. rv_status v = ACTIVE \<and> rv_orderId v = orderId \<and> rv_warehouseId v = wh \<and>
       jm_get (sr_reservations r') (rv_id v) = Some v) \<and>
    (\<forall>i. (\<forall>k \<ge> n. i \<noteq> uids k) \<longrightarrow> jm_get (sr_reservations r') i = jm_get (sr_reservations r) i) \<and>
    (\<forall>wh' sku'. levels r' wh' sku' = take_from (requested wh items wh' sku') (levels r wh' sku'))"
  using assms
proof (induction items arbitrary: r n)
  case (Cons it items)
  obtain sku qty where it: "it = (sku, qty)" by force
  obtain s where s: "getStock wh sku r = Some s" "qty \<le> sl_quantityAvailable s"
    and rest: "check_items wh items r = None"
    using Cons.prems(2) by (auto simp: it split: option.splits if_splits)
  from Cons.prems(1) show ?case
  proof (cases rule: reserve_cases [where now = now and uid = "uids n" and orderId = orderId and wh = wh
      and sku = sku and qty = qty and tenant = tenant])
    case fail
    with s show ?thesis by simp
  next
    case (reserved s0 s' v r1)
    have r1: "r1 = fst (reserveStock now (uids n) orderId wh sku qty tenant r)" using reserved(3) by simp
    have inv: "stock_inv r1"
      unfolding r1 using Cons.prems(1,4,6) by (intro reserve_inv) (auto simp: it)
    have "0 \<le> qty" "jm_get (sr_reservations r) (uids n) = None" using Cons.prems(4,6) by (auto simp: it)
    note lev = reserve_levels [OF Cons.prems(1) this reserved(3)]
    have "check_items wh items' r1 = check_items wh items' r" if "sku \<notin> fst ` set items'" for items'
      using that reserve_other_slot [OF Cons.prems(1), of wh _ wh sku] unfolding r1
      by (induction items') (auto split: option.split)
    then have "check_items wh items r1 = None" using rest Cons.prems(3) by (auto simp: it)
    moreover have "\<forall>i \<ge> Suc n. jm_get (sr_reservations r1) (uids i) = None"
      using Cons.prems(6) reserved(5) by (auto simp: inj_eq [OF Cons.prems(5)])
    ultimately obtain r' vs where IH: "reserve_items now uids (Suc n) orderId wh tenant items r1 = (r', Inr vs)"
      "stock_inv r'" "map (\<lambda>v. (rv_sku v, rv_reservedQty v)) vs = items"
      "\<forall>v \<in> set vs. rv_status v = ACTIVE \<and> rv_orderId v = orderId \<and> rv_warehouseId v = wh \<and>
         jm_get (sr_reservations r') (rv_id v) = Some v"
      "\<forall>i. (\<forall>k \<ge> Suc n. i \<noteq> uids k) \<longrightarrow> jm_get (sr_reservations r') i = jm_get (sr_reservations r1) i"
      "\<forall>wh' sku'. levels r' wh' sku' = take_from (requested wh items wh' sku') (levels r1 wh' sku')"
      using Cons.IH [of r1 "Suc n"] inv Cons.prems(3-5) by auto
    have "jm_get (sr_reservations r') (uids n) = Some v"
      using IH(5) reserved(5) by (auto simp: inj_eq [OF Cons.prems(5)])
    moreover have "jm_get (sr_reservations r') i = jm_get (sr_reservations r) i" if "\<forall>k \<ge> n. i \<noteq> uids k" for i
      using IH(5) that reserved(5) by auto
    moreover have "levels r' wh' sku' = take_from (requested wh (it # items) wh' sku') (levels r wh' sku')" for wh' sku'
      using IH(6) lev [of wh' sku'] by (simp add: requested_def it)
    ultimately show ?thesis using IH reserved by (auto simp: it)
  qed
qed (simp add: requested_def)

text \<open>The check finds the first item that is not covered.\<close>

definition covered :: "string \<Rightarrow> StockRepo \<Rightarrow> string \<times> int \<Rightarrow> bool" where
  "covered wh r it = (case levels r wh (fst it) of None \<Rightarrow> False | Some (hand, free) \<Rightarrow> snd it \<le> free)"

definition shortage :: "string \<Rightarrow> StockRepo \<Rightarrow> string \<times> int \<Rightarrow> app_error" where
  "shortage wh r it =
     InsufficientInventoryException (fst it) (snd it) (case levels r wh (fst it) of None \<Rightarrow> 0 | Some (hand, free) \<Rightarrow> free)"

lemma check_items_first:
  "check_items wh items r = map_option (shortage wh r) (find (\<lambda>it. \<not> covered wh r it) items)"
proof (induction items)
  case (Cons it items)
  obtain sku qty where "it = (sku, qty)" by force
  with Cons show ?case
    by (cases "getStock wh sku r") (simp_all add: covered_def shortage_def levels_def)
qed simp

section \<open>Runs of the service\<close>

definition enough :: "StockRepo \<Rightarrow> bool" where
  "enough r \<longleftrightarrow> (\<forall>s \<in> set (jm_values (sr_stock r)). 0 \<le> sl_quantityAvailable s)"

definition stock_good :: "StockRepo \<Rightarrow> bool" where
  "stock_good r \<longleftrightarrow> stock_inv r \<and> enough r"

lemma reserve_good:
  assumes "stock_good r" and "0 \<le> qty" and "jm_get (sr_reservations r) uid = None"
  shows "stock_good (fst (reserveStock now uid orderId wh sku qty tenant r))"
proof -
  have inv: "stock_inv r" using assms(1) by (simp add: stock_good_def)
  then have "enough (fst (reserveStock now uid orderId wh sku qty tenant r))"
  proof (cases rule: reserve_cases [where now = now and uid = uid and orderId = orderId and wh = wh
      and sku = sku and qty = qty and tenant = tenant])
    case (reserved s s' v r')
    moreover have "sl_quantityAvailable s = sl_quantityOnHand s - sl_quantityReserved s"
      using inv getStock_Some [OF reserved(1)] by (simp add: stock_ok_def)
    ultimately show ?thesis
      using assms(1) by (auto simp: stock_good_def enough_def dest!: jm_set_value)
  qed (use assms(1) in \<open>simp add: stock_good_def\<close>)
  with reserve_inv [OF inv assms(2,3)] show ?thesis by (simp add: stock_good_def)
qed

lemma reserve_fresh:
  assumes "stock_inv r" and "jm_get (sr_reservations r) i = None" and "i \<noteq> uid"
  shows "jm_get (sr_reservations (fst (reserveStock now uid orderId wh sku qty tenant r))) i = None"
  using assms(1)
  by (cases rule: reserve_cases [where now = now and uid = uid and orderId = orderId and wh = wh
      and sku = sku and qty = qty and tenant = tenant]) (use assms(2,3) in auto)

lemma reserve_items_good:
  assumes "stock_good r" and "\<forall>it \<in> set items. 0 \<le> snd it" and "inj uids"
    and "\<forall>i \<ge> n. jm_get (sr_reservations r) (uids i) = None"
  shows "stock_good (fst (reserve_items now uids n orderId wh tenant items r))"
  using assms
proof (induction items arbitrary: r n)
  case (Cons it items)
  obtain sku qty where it: "it = (sku, qty)" by force
  let ?r = "fst (reserveStock now (uids n) orderId wh sku qty tenant r)"
  have "stock_good ?r" using Cons.prems it by (intro reserve_good) auto
  moreover have "\<forall>i \<ge> Suc n. jm_get (sr_reservations ?r) (uids i) = None"
    using Cons.prems by (auto intro!: reserve_fresh simp: stock_good_def inj_eq)
  ultimately have "stock_good (fst (reserve_items now uids (Suc n) orderId wh tenant items ?r))"
    using Cons.prems by (intro Cons.IH) auto
  with \<open>stock_good ?r\<close> show ?case
    by (auto simp: it split: prod.splits sum.splits)
qed simp

lemma release_good:
  assumes "stock_good r"
  shows "stock_good (releaseReservation now i r)"
proof -
  have inv: "stock_inv r" using assms by (simp add: stock_good_def)
  then have "enough (releaseReservation now i r)"
  proof (cases rule: release_cases [where now = now and i = i])
    case (released v s s' r')
    have "0 \<le> rv_reservedQty v" using inv jm_get_value [OF released(1)] by (simp add: stock_ok_def)
    moreover have "sl_quantityAvailable s = sl_quantityOnHand s - sl_quantityReserved s" "s \<in> set (jm_values (sr_stock r))"
      using inv getStock_Some [OF released(3)] by (simp_all add: stock_ok_def)
    ultimately show ?thesis
      using assms released by (force simp: stock_good_def enough_def dest!: jm_set_value)
  qed (use assms in \<open>simp add: stock_good_def\<close>)
  with release_inv [OF inv] show ?thesis by (simp add: stock_good_def)
qed

lemma upsert_good:
  assumes "stock_good r" and "0 \<le> as_quantityDelta dto" and "jm_get (sr_stock r) uid = None"
  shows "stock_good (fst (upsertStock now uid (adjust_item dto) r))"
proof -
  have inv: "stock_inv r" using assms(1) by (simp add: stock_good_def)
  have "stock_inv (fst (upsertStock now uid (adjust_item dto) r))"
    using inv assms(3) by (intro upsert_inv) (simp_all add: adjust_item_def)
  moreover have "enough (fst (upsertStock now uid (adjust_item dto) r))"
    using assms inv live_ref [of r] getStock_Some [of "as_warehouseId dto" "as_sku dto" r]
    by (fastforce simp: upsertStock_def upsert_finish_def put_stock_def Let_def adjust_item_def
        enough_def stock_good_def stock_ok_def split: option.split dest!: jm_set_value)
  ultimately show ?thesis by (simp add: stock_good_def)
qed

lemma adjust_good:
  assumes "stock_good r" and "0 \<le> as_quantityDelta dto" and "jm_get (sr_stock r) uid = None"
  shows "stock_good (fst (adjustStock now uid uid' dto r))"
  using upsert_good [OF assms, of now]
  by (cases "upsertStock now uid (adjust_item dto) r") (simp add: adjustStock_def recordMovement_def stock_good_def enough_def)

section \<open>Properties\<close>

definition stock_empty :: StockRepo where
  "stock_empty = \<lparr> sr_stock = [], sr_reservations = [], sr_movements = [] \<rparr>"

lemma stock_empty_good: "stock_good stock_empty"
  by (simp add: stock_empty_def stock_good_def enough_def stock_ok_def)

definition demo_receipt :: "string \<Rightarrow> int \<Rightarrow> AdjustStockDTO" where
  "demo_receipt sku n = \<lparr> as_tenantId = ''t'', as_warehouseId = ''w'', as_binLocationId = ''b'',
     as_sku = sku, as_movementType = StockMovementType.INBOUND_RECEIPT, as_quantityDelta = n,
     as_referenceId = None, as_userId = ''u'', as_notes = None \<rparr>"

definition demo_stock :: StockRepo where
  "demo_stock = fst (adjustStock 0 ''s1'' ''m1'' (demo_receipt ''A'' 5) stock_empty)"

definition demo_ids :: "nat \<Rightarrow> string" where
  "demo_ids n = replicate (Suc n) CHR ''r''"

lemma demo_ids_inj: "inj demo_ids"
  by (auto simp: inj_def demo_ids_def)

text \<open>C20: \<open>reserveItemsForOrder\<close>, run without interruption, is all or nothing when the SKUs of the request are distinct. It succeeds
  exactly if every item is covered by what is available. If it fails the error is the InsufficientInventory
  (status 422) of the first item that is not covered, with the quantity asked for and the quantity available, and nothing has
  changed. If it succeeds there is one ACTIVE reservation per item, in order, for the
  requested quantities, each stored, and older reservations are untouched; what is available of every article in every
  warehouse has gone down by exactly what was requested of it, and what is on hand has not changed.\<close>

theorem reserve_all_or_nothing:
  assumes "stock_inv r" and "distinct (map fst items)" and "\<forall>it \<in> set items. 0 \<le> snd it"
    and "inj uids" and "\<forall>i. jm_get (sr_reservations r) (uids i) = None"
  shows "(case reserveItemsForOrder now uids orderId wh tenant items r of
      (r', Inl e) \<Rightarrow> r' = r \<and> statusCode e = Some 422 \<and>
        (\<exists>it. find (\<lambda>it. \<not> covered wh r it) items = Some it \<and> e = shortage wh r it)
    | (r', Inr vs) \<Rightarrow> list_all (covered wh r) items \<and>
        stock_inv r' \<and> map (\<lambda>v. (rv_sku v, rv_reservedQty v)) vs = items \<and>
        (\<forall>v \<in> set vs. rv_status v = ACTIVE \<and> rv_orderId v = orderId \<and> rv_warehouseId v = wh \<and>
           jm_get (sr_reservations r') (rv_id v) = Some v) \<and>
        (\<forall>i v. jm_get (sr_reservations r) i = Some v \<longrightarrow> jm_get (sr_reservations r') i = Some v) \<and>
        (\<forall>wh' sku'. levels r' wh' sku' = take_from (requested wh items wh' sku') (levels r wh' sku')))"
proof (cases "find (\<lambda>it. \<not> covered wh r it) items")
  case None
  then have check: "check_items wh items r = None" by (simp add: check_items_first)
  from reserve_items_ok [OF assms(1) check assms(2-4), where n = 0 and now = now and orderId = orderId
      and tenant = tenant] assms(5)
  obtain r' vs where "reserve_items now uids 0 orderId wh tenant items r = (r', Inr vs)" "stock_inv r'"
    "map (\<lambda>v. (rv_sku v, rv_reservedQty v)) vs = items"
    "\<forall>v \<in> set vs. rv_status v = ACTIVE \<and> rv_orderId v = orderId \<and> rv_warehouseId v = wh \<and>
       jm_get (sr_reservations r') (rv_id v) = Some v"
    "\<forall>wh' sku'. levels r' wh' sku' = take_from (requested wh items wh' sku') (levels r wh' sku')"
    and old: "\<forall>i. (\<forall>k. i \<noteq> uids k) \<longrightarrow> jm_get (sr_reservations r') i = jm_get (sr_reservations r) i"
    by auto
  moreover have "jm_get (sr_reservations r') i = Some v" if "jm_get (sr_reservations r) i = Some v" for i v
  proof -
    have "\<forall>k. i \<noteq> uids k" using that assms(5) by force
    with old that show ?thesis by simp
  qed
  moreover have "list_all (covered wh r) items" using None by (auto simp: find_None_iff list_all_iff)
  ultimately show ?thesis using check by (simp add: reserveItemsForOrder_def)
next
  case (Some it)
  then show ?thesis by (simp add: reserveItemsForOrder_def check_items_first shortage_def)
qed

theorem reserve_all_or_nothing_witness:
  "\<exists>vs. snd (reserveItemsForOrder 1 demo_ids ''o'' ''w'' ''t'' [(''A'', 3)] demo_stock) = Inr vs \<and>
     map (\<lambda>v. (rv_sku v, rv_reservedQty v)) vs = [(''A'', 3)]"
proof -
  have inv: "stock_inv demo_stock"
    unfolding demo_stock_def using adjust_good [OF stock_empty_good, of "demo_receipt ''A'' 5" "''s1''" 0 "''m1''"]
    by (simp add: stock_good_def demo_receipt_def stock_empty_def)
  have "sr_reservations demo_stock = []" by code_simp
  then have "\<forall>i. jm_get (sr_reservations demo_stock) (demo_ids i) = None" by simp
  from reserve_all_or_nothing [OF inv _ _ demo_ids_inj this, where items = "[(''A'', 3)]" and now = 1
      and orderId = "''o''" and wh = "''w''" and tenant = "''t''"]
  have all: "case reserveItemsForOrder 1 demo_ids ''o'' ''w'' ''t'' [(''A'', 3)] demo_stock of
      (r', Inl e) \<Rightarrow> True | (r', Inr vs) \<Rightarrow> map (\<lambda>v. (rv_sku v, rv_reservedQty v)) vs = [(''A'', 3)]"
    by (auto split: prod.splits sum.splits)
  have "\<not> isl (snd (reserveItemsForOrder 1 demo_ids ''o'' ''w'' ''t'' [(''A'', 3)] demo_stock))" by code_simp
  with all show ?thesis by (auto split: prod.splits sum.splits)
qed

text \<open>Two defects of the reservation code, on concrete runs. A request that repeats a SKU can pass
  the availability check and then fail half way, leaving an ACTIVE reservation and reserved
  stock behind although the caller gets an error. And two overlapping \<open>releaseReservation\<close> calls
  for one reservation both pass the status check, so its quantity is subtracted twice: the other
  order's reservation is still ACTIVE, yet its stock counts as available again.\<close>

theorem reservation_defects:
  "(let r = fst (reserveItemsForOrder 1 demo_ids ''o'' ''w'' ''t'' [(''A'', 3), (''A'', 3)] demo_stock)
    in isl (snd (reserveItemsForOrder 1 demo_ids ''o'' ''w'' ''t'' [(''A'', 3), (''A'', 3)] demo_stock)) \<and>
       map rv_status (jm_values (sr_reservations r)) = [ACTIVE] \<and>
       map sl_quantityReserved (jm_values (sr_stock r)) = [3]) \<and>
   (let r = fst (reserveStock 2 ''v2'' ''o2'' ''w'' ''A'' 2 ''t''
              (fst (reserveStock 1 ''v1'' ''o1'' ''w'' ''A'' 2 ''t'' demo_stock)));
        first = release_start ''v1'' r; second = release_start ''v1'' r;
        r' = release_finish 4 (the second) (release_finish 3 (the first) r)
    in first \<noteq> None \<and> second \<noteq> None \<and>
       map (\<lambda>v. (rv_id v, rv_status v)) (jm_values (sr_reservations r')) = [(''v1'', RELEASED), (''v2'', ACTIVE)] \<and>
       map (\<lambda>s. (sl_quantityReserved s, sl_quantityAvailable s)) (jm_values (sr_stock r')) = [(0, 5)] \<and>
       releaseReservation 4 ''v1'' (releaseReservation 3 ''v1'' r) = releaseReservation 3 ''v1'' r)"
proof -
  have "isl (snd (reserveItemsForOrder 1 demo_ids ''o'' ''w'' ''t'' [(''A'', 3), (''A'', 3)] demo_stock))"
    by code_simp
  moreover have "map rv_status (jm_values (sr_reservations
      (fst (reserveItemsForOrder 1 demo_ids ''o'' ''w'' ''t'' [(''A'', 3), (''A'', 3)] demo_stock)))) = [ACTIVE]"
    by code_simp
  moreover have "map sl_quantityReserved (jm_values (sr_stock
      (fst (reserveItemsForOrder 1 demo_ids ''o'' ''w'' ''t'' [(''A'', 3), (''A'', 3)] demo_stock)))) = [3]"
    by code_simp
  moreover have "let r = fst (reserveStock 2 ''v2'' ''o2'' ''w'' ''A'' 2 ''t''
              (fst (reserveStock 1 ''v1'' ''o1'' ''w'' ''A'' 2 ''t'' demo_stock)));
        first = release_start ''v1'' r; second = release_start ''v1'' r;
        r' = release_finish 4 (the second) (release_finish 3 (the first) r)
    in first \<noteq> None \<and> second \<noteq> None \<and>
       map (\<lambda>v. (rv_id v, rv_status v)) (jm_values (sr_reservations r')) = [(''v1'', RELEASED), (''v2'', ACTIVE)] \<and>
       map (\<lambda>s. (sl_quantityReserved s, sl_quantityAvailable s)) (jm_values (sr_stock r')) = [(0, 5)] \<and>
       releaseReservation 4 ''v1'' (releaseReservation 3 ''v1'' r) = releaseReservation 3 ''v1'' r"
    by code_simp
  ultimately show ?thesis unfolding Let_def by blast
qed

end
