(* ===== verification/Stock_Interleaving.thy ===== *)
theory Stock_Interleaving
  imports Inventory_Stock
begin

text \<open>
  The requests of the inventory service interrupting each other: each awaited lookup of \<open>InventoryService\<close>
  (services/inventory-service/src/services/inventoryService.ts) and of the stock repository is a place where other requests
  run. The parts are those of \<open>Inventory_Stock\<close>; here is the set of waiting tasks, what each of them relies on, and the
  conservation of stock over all schedules.
\<close>

section \<open>Requests in any order\<close>

text \<open>
  A request of the service runs from one \<open>await\<close> to the next while the others wait; what it keeps is the object that its
  lookup found. An order first checks its items one by one, then reserves them one by one. The two halves of
  \<open>adjustStock\<close> and of the loop of \<open>reserveItemsForOrder\<close> are tasks of their own.
\<close>

record stock_order =
  so_orderId :: string
  so_warehouseId :: string
  so_tenantId :: string
  so_items :: "(string \<times> int) list"

datatype stock_task =
    Upserting AdjustStockDTO "string option"
  | Recording AdjustStockDTO
  | Checking stock_order "(string \<times> int) list" "string option"
  | Reserving stock_order "(string \<times> int) list" "string option"
  | Looping stock_order "(string \<times> int) list"
  | Releasing "string \<times> string option"

record stock_sys =
  ss_repo :: StockRepo
  ss_tasks :: "stock_task list"

definition begin_reserve :: "stock_order \<Rightarrow> (string \<times> int) list \<Rightarrow> StockRepo \<Rightarrow> stock_task option" where
  "begin_reserve o1 items r =
     (case items of [] \<Rightarrow> None
      | it # rest \<Rightarrow> Some (Reserving o1 items (stock_ref (so_warehouseId o1) (fst it) r)))"

definition begin_check :: "stock_order \<Rightarrow> (string \<times> int) list \<Rightarrow> StockRepo \<Rightarrow> stock_task option" where
  "begin_check o1 items r =
     (case items of [] \<Rightarrow> begin_reserve o1 (so_items o1) r
      | it # rest \<Rightarrow> Some (Checking o1 items (stock_ref (so_warehouseId o1) (fst it) r)))"

definition movement_of :: "AdjustStockDTO \<Rightarrow> StockAuditMovementEntity" where
  "movement_of dto =
     \<lparr> mv_id = [], mv_tenantId = as_tenantId dto, mv_warehouseId = as_warehouseId dto,
       mv_sku = as_sku dto, mv_movementType = as_movementType dto,
       mv_quantityDelta = as_quantityDelta dto, mv_referenceId = as_referenceId dto,
       mv_performedByUserId = as_userId dto, mv_notes = as_notes dto, mv_createdAt = 0 \<rparr>"

fun run_task :: "instant \<Rightarrow> string \<Rightarrow> stock_task \<Rightarrow> StockRepo \<Rightarrow> StockRepo \<times> stock_task option" where
  "run_task now uid (Upserting dto ref) r = (fst (upsert_finish now uid (adjust_item dto) ref r), Some (Recording dto))"
| "run_task now uid (Recording dto) r = (recordMovement now uid (movement_of dto) r, None)"
| "run_task now uid (Checking o1 [] ref) r = (r, None)"
| "run_task now uid (Checking o1 (it # rest) ref) r =
     (r, case live_stock ref r of None \<Rightarrow> None
         | Some s \<Rightarrow> if sl_quantityAvailable s < snd it then None else begin_check o1 rest r)"
| "run_task now uid (Reserving o1 [] ref) r = (r, None)"
| "run_task now uid (Reserving o1 (it # rest) ref) r =
     (case reserve_finish now uid (so_orderId o1) (so_warehouseId o1) (fst it) (snd it) (so_tenantId o1) ref r of
        (r', Inl e) \<Rightarrow> (r', None)
      | (r', Inr v) \<Rightarrow> (r', Some (Looping o1 rest)))"
| "run_task now uid (Looping o1 rest) r = (r, begin_reserve o1 rest r)"
| "run_task now uid (Releasing ir) r = (release_finish now ir r, None)"

datatype stock_event =
    StartAdjust AdjustStockDTO
  | StartOrder stock_order
  | StartRelease string
  | Resume nat instant string

definition start_task :: "stock_task option \<Rightarrow> stock_sys \<Rightarrow> stock_sys" where
  "start_task t s = (case t of None \<Rightarrow> s | Some task \<Rightarrow> s\<lparr> ss_tasks := ss_tasks s @ [task] \<rparr>)"

definition begin_adjust :: "AdjustStockDTO \<Rightarrow> StockRepo \<Rightarrow> stock_task" where
  "begin_adjust dto r = Upserting dto (stock_ref (as_warehouseId dto) (as_sku dto) r)"

fun stock_next :: "stock_event \<Rightarrow> stock_sys \<Rightarrow> stock_sys" where
  "stock_next (StartAdjust dto) s = start_task (Some (begin_adjust dto (ss_repo s))) s"
| "stock_next (StartOrder o1) s = start_task (begin_check o1 (so_items o1) (ss_repo s)) s"
| "stock_next (StartRelease i) s = start_task (map_option Releasing (release_start i (ss_repo s))) s"
| "stock_next (Resume n now uid) s =
     (if n < length (ss_tasks s)
      then (case run_task now uid (ss_tasks s ! n) (ss_repo s) of
              (r, t) \<Rightarrow> start_task t (s\<lparr> ss_repo := r, ss_tasks := take n (ss_tasks s) @ drop (Suc n) (ss_tasks s) \<rparr>))
      else s)"

text \<open>Alone, the parts are the methods.\<close>

lemma adjust_uninterrupted:
  "fold stock_next [StartAdjust dto, Resume 0 now uid, Resume 0 now uid'] \<lparr> ss_repo = r, ss_tasks = [] \<rparr> =
     \<lparr> ss_repo = fst (adjustStock now uid uid' dto r), ss_tasks = [] \<rparr>"
  by (simp add: start_task_def begin_adjust_def adjustStock_def upsertStock_def movement_of_def adjust_item_def split: prod.split)

lemma release_uninterrupted:
  "fold stock_next [StartRelease i, Resume 0 now uid] \<lparr> ss_repo = r, ss_tasks = [] \<rparr> =
     \<lparr> ss_repo = releaseReservation now i r, ss_tasks = [] \<rparr>"
  by (simp add: start_task_def releaseReservation_def split: option.split)

text \<open>What must not overlap: first receipts of the same article in the same warehouse, and releases of one reservation.\<close>

fun task_keys :: "stock_task \<Rightarrow> (string \<times> string + string) list" where
  "task_keys (Upserting dto None) = [Inl (as_warehouseId dto, as_sku dto)]"
| "task_keys (Releasing ir) = [Inr (fst ir)]"
| "task_keys _ = []"

definition held :: "stock_sys \<Rightarrow> (string \<times> string + string) list" where
  "held s = concat (map task_keys (ss_tasks s))"

text \<open>New identifiers are unused, quantities of orders are not negative (the schema asks for positive ones), and what must not
  overlap does not. Adjustments may be negative.\<close>

fun stock_event_ok :: "stock_event \<Rightarrow> stock_sys \<Rightarrow> bool" where
  "stock_event_ok (StartAdjust dto) s \<longleftrightarrow>
     (getStock (as_warehouseId dto) (as_sku dto) (ss_repo s) = None \<longrightarrow> Inl (as_warehouseId dto, as_sku dto) \<notin> set (held s))"
| "stock_event_ok (StartOrder o1) s \<longleftrightarrow> list_all (\<lambda>it. 0 \<le> snd it) (so_items o1)"
| "stock_event_ok (StartRelease i) s \<longleftrightarrow> Inr i \<notin> set (held s)"
| "stock_event_ok (Resume n now uid) s \<longleftrightarrow>
     jm_get (sr_stock (ss_repo s)) uid = None \<and> jm_get (sr_reservations (ss_repo s)) uid = None"

fun stock_events_ok :: "stock_event list \<Rightarrow> stock_sys \<Rightarrow> bool" where
  "stock_events_ok [] s \<longleftrightarrow> True"
| "stock_events_ok (e # es) s \<longleftrightarrow> stock_event_ok e s \<and> stock_events_ok es (stock_next e s)"

text \<open>What a waiting task relies on: the object it found is the entry of its article, and a reservation that is being
  released is still active.\<close>

definition slots :: "StockRepo \<Rightarrow> string \<Rightarrow> (string \<times> string) option" where
  "slots r i = map_option slot (jm_get (sr_stock r) i)"

fun task_ok :: "StockRepo \<Rightarrow> stock_task \<Rightarrow> bool" where
  "task_ok r (Upserting dto ref) \<longleftrightarrow> ref = stock_ref (as_warehouseId dto) (as_sku dto) r"
| "task_ok r (Recording dto) \<longleftrightarrow> True"
| "task_ok r (Checking o1 items ref) \<longleftrightarrow> list_all (\<lambda>it. 0 \<le> snd it) (so_items o1)"
| "task_ok r (Reserving o1 items ref) \<longleftrightarrow> list_all (\<lambda>it. 0 \<le> snd it) items \<and>
     (ref = None \<or> items = [] \<or> ref = stock_ref (so_warehouseId o1) (fst (hd items)) r)"
| "task_ok r (Looping o1 items) \<longleftrightarrow> list_all (\<lambda>it. 0 \<le> snd it) items"
| "task_ok r (Releasing ir) \<longleftrightarrow>
     (\<exists>v. jm_get (sr_reservations r) (fst ir) = Some v \<and> rv_status v = ACTIVE \<and>
        snd ir = stock_ref (rv_warehouseId v) (rv_sku v) r)"

definition sys_ok :: "stock_sys \<Rightarrow> bool" where
  "sys_ok s \<longleftrightarrow> stock_inv (ss_repo s) \<and> distinct (held s) \<and> list_all (task_ok (ss_repo s)) (ss_tasks s)"

text \<open>What one step may do to the ground the others stand on: no entry changes its article, new entries and ended
  reservations are among the keys \<open>K\<close> of the step.\<close>

definition grows :: "(string \<times> string + string) set \<Rightarrow> StockRepo \<Rightarrow> StockRepo \<Rightarrow> bool" where
  "grows K r r' \<longleftrightarrow>
     (\<forall>i x. slots r i = Some x \<longrightarrow> slots r' i = Some x) \<and>
     (\<forall>i x. slots r' i = Some x \<longrightarrow> slots r i = Some x \<or> Inl x \<in> K) \<and>
     (\<forall>i v. jm_get (sr_reservations r) i = Some v \<longrightarrow> rv_status v = ACTIVE \<longrightarrow>
        jm_get (sr_reservations r') i = Some v \<or> Inr i \<in> K)"

lemma grows_refl [simp]: "grows K r r"
  by (simp add: grows_def)

lemma stock_ref_iff:
  assumes "stock_inv r"
  shows "stock_ref wh sku r = Some i \<longleftrightarrow> slots r i = Some (wh, sku)"
proof
  assume "stock_ref wh sku r = Some i"
  then obtain s where s: "getStock wh sku r = Some s" "sl_id s = i" by (auto simp: stock_ref_def)
  with assms getStock_Some [OF s(1)] show "slots r i = Some (wh, sku)"
    by (auto simp: slots_def stock_ok_def dest: keyed_value)
next
  assume "slots r i = Some (wh, sku)"
  then obtain s where s: "jm_get (sr_stock r) i = Some s" "slot s = (wh, sku)" by (auto simp: slots_def)
  have "s \<in> set (jm_values (sr_stock r))" "sl_id s = i"
    using assms jm_get_value [OF s(1)] keyed_get [OF _ s(1)] by (auto simp: stock_ok_def)
  with assms s(2) getStock_unique [of r s] show "stock_ref wh sku r = Some i"
    by (simp add: stock_ref_def slot_def stock_ok_def)
qed

lemma grows_ref:
  assumes "stock_inv r" and "stock_inv r'" and "grows K r r'"
  shows "stock_ref wh sku r = Some i \<Longrightarrow> stock_ref wh sku r' = Some i"
    and "stock_ref wh sku r = None \<Longrightarrow> Inl (wh, sku) \<notin> K \<Longrightarrow> stock_ref wh sku r' = None"
proof -
  show "stock_ref wh sku r = Some i \<Longrightarrow> stock_ref wh sku r' = Some i"
    using assms(3) by (simp add: stock_ref_iff [OF assms(1)] stock_ref_iff [OF assms(2)] grows_def)
  assume none: "stock_ref wh sku r = None" and K: "Inl (wh, sku) \<notin> K"
  show "stock_ref wh sku r' = None"
  proof (cases "stock_ref wh sku r'")
    case (Some i)
    then have "slots r' i = Some (wh, sku)" by (simp add: stock_ref_iff [OF assms(2)])
    with assms(3) K have "slots r i = Some (wh, sku)" unfolding grows_def by blast
    with none show ?thesis by (simp add: stock_ref_iff [OF assms(1), symmetric])
  qed
qed

lemma task_ok_grows:
  assumes "stock_inv r" and "stock_inv r'" and "grows K r r'" and "set (task_keys t) \<inter> K = {}" and "task_ok r t"
  shows "task_ok r' t"
proof -
  note g = grows_ref [OF assms(1-3)]
  show ?thesis
  proof (cases t)
    case (Upserting dto ref)
    have ref: "ref = stock_ref (as_warehouseId dto) (as_sku dto) r" using assms(5) Upserting by simp
    show ?thesis
    proof (cases ref)
      case None
      then have "stock_ref (as_warehouseId dto) (as_sku dto) r' = None"
        using assms(4) Upserting ref by (intro g(2)) auto
      with Upserting None show ?thesis by simp
    next
      case (Some i)
      with g(1) [of "as_warehouseId dto" "as_sku dto" i] Upserting ref show ?thesis by simp
    qed
  next
    case (Reserving o1 items ref)
    show ?thesis
    proof (cases ref)
      case (Some i)
      with assms(5) Reserving g(1) [of "so_warehouseId o1" "fst (hd items)" i] show ?thesis by auto
    qed (use assms(5) Reserving in simp)
  next
    case (Releasing ir)
    then obtain v where v: "jm_get (sr_reservations r) (fst ir) = Some v" "rv_status v = ACTIVE"
      "snd ir = stock_ref (rv_warehouseId v) (rv_sku v) r" using assms(5) by auto
    then have "jm_get (sr_reservations r') (fst ir) = Some v" using assms(3,4) Releasing by (auto simp: grows_def)
    moreover have "getStock (rv_warehouseId v) (rv_sku v) r \<noteq> None"
      using assms(1) v(2) jm_get_value [OF v(1)] unfolding getStock_None stock_ok_def by auto
    then obtain i where "stock_ref (rv_warehouseId v) (rv_sku v) r = Some i" by (auto simp: stock_ref_def)
    ultimately show ?thesis using v g(1) Releasing by auto
  qed (use assms(5) in simp_all)
qed

lemma upsert_grows:
  assumes "stock_inv r" and "jm_get (sr_stock r) uid = None"
  shows "grows (set (task_keys (begin_adjust dto r))) r (fst (upsertStock now uid (adjust_item dto) r))"
proof (cases "getStock (as_warehouseId dto) (as_sku dto) r")
  case (Some e)
  note e = getStock_Some [OF Some]
  have live: "live_stock (stock_ref (as_warehouseId dto) (as_sku dto) r) r = Some e"
    using assms(1) Some by (simp add: live_ref stock_ok_def)
  have "jm_get (sr_stock r) (sl_id e) = Some e" using assms(1) e(1) by (auto simp: stock_ok_def dest: keyed_value)
  then show ?thesis
    using live by (simp add: grows_def upsertStock_def upsert_finish_def adjust_item_def Let_def put_stock_def slots_def slot_def)
next
  case None
  have live: "live_stock (stock_ref (as_warehouseId dto) (as_sku dto) r) r = None"
    using assms(1) None by (simp add: live_ref stock_ok_def)
  have ref: "stock_ref (as_warehouseId dto) (as_sku dto) r = None" using None by (simp add: stock_ref_def)
  show ?thesis
    using live assms(2) by (auto simp: begin_adjust_def ref grows_def upsertStock_def upsert_finish_def adjust_item_def Let_def
        put_stock_def slots_def slot_def)
qed

lemma reserve_grows:
  assumes "stock_inv r" and "jm_get (sr_reservations r) uid = None"
  shows "grows {} r (fst (reserveStock now uid orderId wh sku qty tenant r))"
  using assms(1)
proof (cases rule: reserve_cases [where now = now and uid = uid and orderId = orderId and wh = wh
      and sku = sku and qty = qty and tenant = tenant])
  case (reserved s s' v r')
  have "jm_get (sr_stock r) (sl_id s) = Some s"
    using assms(1) getStock_Some [OF reserved(1)] by (auto simp: stock_ok_def dest: keyed_value)
  with reserved assms(2) show ?thesis by (auto simp: grows_def slots_def)
qed simp

lemma release_grows:
  assumes "stock_inv r"
  shows "grows {Inr i} r (releaseReservation now i r)"
  using assms(1)
proof (cases rule: release_cases [where now = now and i = i])
  case (released v s s' r')
  have "jm_get (sr_stock r) (sl_id s) = Some s"
    using assms(1) getStock_Some [OF released(3)] by (auto simp: stock_ok_def dest: keyed_value)
  with released show ?thesis by (auto simp: grows_def slots_def)
qed simp

text \<open>A task that resumes does what the uninterrupted method does, and keeps the invariant.\<close>

lemma run_upserting:
  assumes "task_ok r (Upserting dto ref)"
  shows "run_task now uid (Upserting dto ref) r = (fst (upsertStock now uid (adjust_item dto) r), Some (Recording dto))"
  using assms by (simp add: upsertStock_def adjust_item_def)

lemma run_reserving:
  assumes "task_ok r (Reserving o1 (it # rest) ref)"
  shows "fst (run_task now uid (Reserving o1 (it # rest) ref) r) = r \<or>
    fst (run_task now uid (Reserving o1 (it # rest) ref) r) =
      fst (reserveStock now uid (so_orderId o1) (so_warehouseId o1) (fst it) (snd it) (so_tenantId o1) r)"
  using assms by (cases ref) (auto simp: reserveStock_def reserve_finish_def live_stock_def split: prod.split sum.split)

lemma run_releasing:
  assumes "task_ok r (Releasing ir)"
  shows "run_task now uid (Releasing ir) r = (releaseReservation now (fst ir) r, None)"
  using assms by (cases ir) (auto simp: releaseReservation_def release_start_def)

lemma run_task_step:
  assumes inv: "stock_inv r" and ok: "task_ok r t"
    and fresh: "jm_get (sr_stock r) uid = None" "jm_get (sr_reservations r) uid = None"
  shows "stock_inv (fst (run_task now uid t r)) \<and> grows (set (task_keys t)) r (fst (run_task now uid t r))"
proof (cases t)
  case (Upserting dto ref)
  then have "t = begin_adjust dto r" using ok by (simp add: begin_adjust_def)
  with upsert_inv [OF inv _ fresh(1), of "adjust_item dto" now] upsert_grows [OF inv fresh(1), of dto now]
    run_upserting [of r dto ref now uid] ok Upserting show ?thesis by (simp add: adjust_item_def)
next
  case (Checking o1 items ref)
  then show ?thesis using inv by (cases items) simp_all
next
  case (Reserving o1 items ref)
  show ?thesis
  proof (cases items)
    case (Cons it rest)
    have "0 \<le> snd it" using ok by (simp add: Reserving Cons)
    then have "stock_inv (fst (reserveStock now uid (so_orderId o1) (so_warehouseId o1) (fst it) (snd it) (so_tenantId o1) r))"
      "grows {} r (fst (reserveStock now uid (so_orderId o1) (so_warehouseId o1) (fst it) (snd it) (so_tenantId o1) r))"
      using inv fresh by (intro reserve_inv reserve_grows; simp)+
    with run_reserving [of r o1 it rest ref now uid] ok inv show ?thesis
      by (auto simp: Reserving Cons simp del: run_task.simps)
  qed (use inv Reserving in simp)
next
  case (Releasing ir)
  with run_releasing [of r ir now uid] ok release_inv [OF inv] release_grows [OF inv] show ?thesis by simp
qed (use inv in \<open>simp_all add: recordMovement_def grows_def slots_def\<close>)

text \<open>The task that follows relies on what is there now, and holds nothing.\<close>

lemma run_task_next:
  assumes "task_ok r t" and "run_task now uid t r = (r', Some t')"
  shows "task_ok r' t' \<and> task_keys t' = []"
proof (cases t)
  case (Checking o1 items ref)
  with assms show ?thesis
    by (cases items) (auto simp: begin_check_def begin_reserve_def split: option.splits if_splits list.splits)
next
  case (Reserving o1 items ref)
  with assms show ?thesis by (cases items) (auto split: prod.splits sum.splits)
next
  case (Looping o1 items)
  with assms show ?thesis by (auto simp: begin_reserve_def split: list.splits)
qed (use assms in auto)

lemma held_split:
  assumes "n < length (ss_tasks s)"
  shows "held s = concat (map task_keys (take n (ss_tasks s))) @ task_keys (ss_tasks s ! n) @
    concat (map task_keys (drop (Suc n) (ss_tasks s)))"
  unfolding held_def by (subst id_take_nth_drop [OF assms]) simp

lemma sys_ok_start:
  assumes "sys_ok s" and "task_ok (ss_repo s) t" and "set (task_keys t) \<inter> set (held s) = {}" and "distinct (task_keys t)"
  shows "sys_ok (start_task (Some t) s)"
  using assms by (auto simp: sys_ok_def start_task_def held_def)

lemma resume_ok:
  assumes "sys_ok s" and "n < length (ss_tasks s)" and "stock_event_ok (Resume n now uid) s"
  shows "sys_ok (stock_next (Resume n now uid) s)"
proof -
  let ?t = "ss_tasks s ! n" and ?r = "ss_repo s"
  define rest where "rest = take n (ss_tasks s) @ drop (Suc n) (ss_tasks s)"
  obtain r' t' where run: "run_task now uid ?t ?r = (r', t')" by force
  have inv: "stock_inv ?r" and ok: "task_ok ?r ?t" and all: "list_all (task_ok ?r) (ss_tasks s)"
    using assms(1,2) by (simp_all add: sys_ok_def list_all_length)
  have st: "stock_inv r' \<and> grows (set (task_keys ?t)) ?r r'"
    using run_task_step [OF inv ok, of uid now] assms(3) run by simp
  have held: "distinct (concat (map task_keys rest))" "set (task_keys ?t) \<inter> set (concat (map task_keys rest)) = {}"
    using assms(1) unfolding sys_ok_def held_split [OF assms(2)] rest_def by auto
  have "task_ok r' t" if "t \<in> set rest" for t
  proof (rule task_ok_grows [OF inv conjunct1 [OF st] conjunct2 [OF st]])
    have "t \<in> set (ss_tasks s)" using that unfolding rest_def by (auto dest: in_set_takeD in_set_dropD)
    then show "task_ok ?r t" using all by (simp add: list_all_iff)
    show "set (task_keys t) \<inter> set (task_keys ?t) = {}" using that held(2) by auto
  qed
  then have sys: "sys_ok (s\<lparr> ss_repo := r', ss_tasks := rest \<rparr>)"
    using st held(1) by (simp add: sys_ok_def held_def list_all_iff)
  have "sys_ok (start_task t' (s\<lparr> ss_repo := r', ss_tasks := rest \<rparr>))"
  proof (cases t')
    case (Some u)
    with run_task_next [OF ok, of now uid r' u] run show ?thesis by (simp add: sys_ok_start [OF sys])
  qed (simp add: start_task_def sys)
  then show ?thesis using assms(2) run by (simp add: rest_def)
qed

lemma stock_next_ok:
  assumes "sys_ok s" and "stock_event_ok e s"
  shows "sys_ok (stock_next e s)"
proof (cases e)
  case (StartAdjust dto)
  with assms show ?thesis
    by (cases "getStock (as_warehouseId dto) (as_sku dto) (ss_repo s)")
      (auto simp: begin_adjust_def stock_ref_def intro!: sys_ok_start)
next
  case (StartOrder o1)
  with assms show ?thesis
    by (cases "so_items o1")
      (auto simp: begin_check_def begin_reserve_def start_task_def [of None] intro!: sys_ok_start)
next
  case (StartRelease i)
  with assms show ?thesis
    by (auto simp: release_start_def start_task_def [of None] split: option.split intro!: sys_ok_start)
next
  case (Resume n now uid)
  with assms resume_ok show ?thesis by (cases "n < length (ss_tasks s)") auto
qed

definition stock_start :: stock_sys where
  "stock_start = \<lparr> ss_repo = stock_empty, ss_tasks = [] \<rparr>"

lemma stock_run_ok: "sys_ok s \<Longrightarrow> stock_events_ok es s \<Longrightarrow> sys_ok (fold stock_next es s)"
  by (induction es arbitrary: s) (simp_all add: stock_next_ok)

lemma stock_start_ok: "sys_ok stock_start"
  using stock_empty_good by (simp add: sys_ok_def stock_start_def held_def stock_good_def)

text \<open>While adjustments only add, nothing is oversold.\<close>

definition adds :: "stock_task \<Rightarrow> bool" where
  "adds t = (case t of Upserting dto ref \<Rightarrow> 0 \<le> as_quantityDelta dto | _ \<Rightarrow> True)"

definition event_adds :: "stock_event \<Rightarrow> bool" where
  "event_adds e = (case e of StartAdjust dto \<Rightarrow> 0 \<le> as_quantityDelta dto | _ \<Rightarrow> True)"

definition plenty :: "stock_sys \<Rightarrow> bool" where
  "plenty s \<longleftrightarrow> enough (ss_repo s) \<and> list_all adds (ss_tasks s)"

lemma run_task_adds: "run_task now uid t r = (r', Some t') \<Longrightarrow> adds t'"
  by (cases "(now, uid, t, r)" rule: run_task.cases)
    (auto simp: adds_def begin_check_def begin_reserve_def split: option.splits if_splits list.splits prod.splits sum.splits)

lemma run_task_enough:
  assumes "stock_good r" and ok: "task_ok r t" and "adds t"
    and fresh: "jm_get (sr_stock r) uid = None" "jm_get (sr_reservations r) uid = None"
  shows "enough (fst (run_task now uid t r))"
proof (cases t)
  case (Upserting dto ref)
  then have "fst (run_task now uid t r) = fst (upsertStock now uid (adjust_item dto) r)"
    using run_upserting [of r dto ref now uid] ok by simp
  with upsert_good [OF assms(1) _ fresh(1)] assms(3) Upserting show ?thesis by (simp add: adds_def stock_good_def)
next
  case (Checking o1 items ref)
  then show ?thesis using assms(1) by (cases items) (simp_all add: stock_good_def)
next
  case (Reserving o1 items ref)
  show ?thesis
  proof (cases items)
    case (Cons it rest)
    have "0 \<le> snd it" using ok by (simp add: Reserving Cons)
    from reserve_good [OF assms(1) this fresh(2)] run_reserving [of r o1 it rest ref now uid] ok assms(1) show ?thesis
      unfolding Reserving Cons stock_good_def by metis
  qed (use assms(1) Reserving in \<open>simp add: stock_good_def\<close>)
next
  case (Releasing ir)
  with run_releasing [of r ir now uid] ok release_good [OF assms(1)] show ?thesis by (simp add: stock_good_def)
qed (use assms(1) in \<open>simp_all add: recordMovement_def stock_good_def enough_def\<close>)

lemma start_adds: "adds t \<Longrightarrow> plenty s \<Longrightarrow> plenty (start_task (Some t) s)"
  by (simp add: plenty_def start_task_def)

lemma stock_next_plenty:
  assumes "sys_ok s" and "stock_event_ok e s" and "plenty s" and "event_adds e"
  shows "plenty (stock_next e s)"
proof (cases e)
  case (Resume n now uid)
  show ?thesis
  proof (cases "n < length (ss_tasks s)")
    case True
    let ?t = "ss_tasks s ! n"
    obtain r' t' where run: "run_task now uid ?t (ss_repo s) = (r', t')" by force
    have t: "task_ok (ss_repo s) ?t" "adds ?t" "stock_good (ss_repo s)"
      using assms(1,3) True by (simp_all add: sys_ok_def plenty_def stock_good_def list_all_length)
    have "enough r'" using run_task_enough [OF t(3,1,2), of uid now] assms(2) run by (simp add: Resume)
    moreover have "list_all adds (take n (ss_tasks s) @ drop (Suc n) (ss_tasks s))"
      using assms(3) by (auto simp: plenty_def list_all_iff dest: in_set_takeD in_set_dropD)
    ultimately have rest: "plenty (s\<lparr> ss_repo := r', ss_tasks := take n (ss_tasks s) @ drop (Suc n) (ss_tasks s) \<rparr>)"
      by (simp add: plenty_def)
    show ?thesis
    proof (cases t')
      case None
      with rest show ?thesis using True run by (simp add: Resume start_task_def)
    next
      case (Some u)
      with start_adds [OF run_task_adds rest, of now uid ?t "ss_repo s" r' u] show ?thesis using True run by (simp add: Resume)
    qed
  qed (use assms(3) Resume in simp)
next
  case (StartAdjust dto)
  with assms(3,4) show ?thesis by (auto simp: begin_adjust_def adds_def event_adds_def intro!: start_adds)
next
  case (StartOrder o1)
  with assms(3) show ?thesis
    by (cases "so_items o1") (auto simp: begin_check_def begin_reserve_def start_task_def [of None] adds_def intro!: start_adds)
next
  case (StartRelease i)
  with assms(3) show ?thesis
    by (auto simp: release_start_def start_task_def [of None] adds_def split: option.split intro!: start_adds)
qed

lemma stock_run_plenty:
  "sys_ok s \<Longrightarrow> stock_events_ok es s \<Longrightarrow> plenty s \<Longrightarrow> list_all event_adds es \<Longrightarrow> plenty (fold stock_next es s)"
  by (induction es arbitrary: s) (simp_all add: stock_next_ok stock_next_plenty)

section \<open>Properties\<close>

text \<open>C17: Stock is conserved. Take any adjustments, orders of several items and releases of reservations, started in any order and
  interrupted by each other at every await; only, a release of a reservation is not started while another
  one of the same reservation waits, nor a first receipt of an article in a warehouse while another one waits (the
  code does not see to that, and theorem \<open>reservation_defects\<close> shows what overlapping releases do). Then there is one stock entry
  per warehouse and SKU, its available quantity is on hand minus reserved, and its reserved quantity is exactly the
  sum of its ACTIVE reservations. If no adjustment is negative, no entry is ever oversold; the schema admits negative ones.\<close>

theorem stock_conservation:
  assumes "stock_events_ok es stock_start" and "r = ss_repo (fold stock_next es stock_start)" and "s \<in> set (jm_values (sr_stock r))"
  shows "sl_quantityAvailable s = sl_quantityOnHand s - sl_quantityReserved s \<and>
    sl_quantityReserved s =
      (\<Sum>v \<leftarrow> jm_values (sr_reservations r).
         if rv_warehouseId v = sl_warehouseId s \<and> rv_sku v = sl_sku s \<and> rv_status v = ACTIVE
         then rv_reservedQty v else 0) \<and>
    getStock (sl_warehouseId s) (sl_sku s) r = Some s \<and>
    (list_all event_adds es \<longrightarrow> 0 \<le> sl_quantityAvailable s)"
proof -
  have inv: "stock_inv r" using stock_run_ok [OF stock_start_ok assms(1)] assms(2) by (simp add: sys_ok_def)
  have start: "plenty stock_start" using stock_empty_good by (simp add: plenty_def stock_start_def stock_good_def)
  have "0 \<le> sl_quantityAvailable s" if "list_all event_adds es"
    using stock_run_plenty [OF stock_start_ok assms(1) start that] assms(2,3) by (simp add: plenty_def enough_def)
  with inv assms(3) getStock_unique [of r s] show ?thesis by (simp add: stock_ok_def active_qty_def)
qed

text \<open>Two orders check the same five pieces before either reserves: the second one fails when it comes to reserve.\<close>

definition demo_schedule :: "stock_event list" where
  "demo_schedule =
     [StartAdjust (demo_receipt ''A'' 5), Resume 0 0 ''s1'', Resume 0 0 ''m1'',
      StartOrder \<lparr> so_orderId = ''o1'', so_warehouseId = ''w'', so_tenantId = ''t'', so_items = [(''A'', 3)] \<rparr>,
      StartOrder \<lparr> so_orderId = ''o2'', so_warehouseId = ''w'', so_tenantId = ''t'', so_items = [(''A'', 4)] \<rparr>,
      Resume 0 1 ''x1'', Resume 0 1 ''x2'', Resume 0 2 ''v1'', Resume 0 3 ''v2'', Resume 0 4 ''x3'']"

theorem stock_conservation_witness:
  "map sl_quantityAvailable (jm_values (sr_stock (ss_repo (fold stock_next demo_schedule stock_start)))) = [2] \<and>
   list_all (\<lambda>s. sl_quantityAvailable s = sl_quantityOnHand s - sl_quantityReserved s \<and> 0 \<le> sl_quantityAvailable s)
     (jm_values (sr_stock (ss_repo (fold stock_next demo_schedule stock_start))))"
proof
  show "map sl_quantityAvailable (jm_values (sr_stock (ss_repo (fold stock_next demo_schedule stock_start)))) = [2]"
    by code_simp
  have ok: "stock_events_ok demo_schedule stock_start" by code_simp
  have adds: "list_all event_adds demo_schedule" by (simp add: demo_schedule_def event_adds_def demo_receipt_def)
  show "list_all (\<lambda>s. sl_quantityAvailable s = sl_quantityOnHand s - sl_quantityReserved s \<and> 0 \<le> sl_quantityAvailable s)
     (jm_values (sr_stock (ss_repo (fold stock_next demo_schedule stock_start))))"
    using stock_conservation [OF ok refl] adds unfolding list_all_iff by blast
qed

end
