(* ===== verification/Auth.thy ===== *)
theory Auth
  imports Common_Types
begin

text \<open>
  The auth service (services/auth-service/src): users, tenants and audit logs in memory,
  password hashing, token issuing and AuthService. The key derivation function \<open>kdf\<close>
  (crypto.pbkdf2 with the class's iteration count, key length and digest) and the JWT library's
  \<open>sign\<close> are parameters. Hashing leaves the event loop, so other requests run between the
  lookup of a method and its write: those methods are split at the hash, and the method alone
  is the composition of its parts.
\<close>

section \<open>Entities and repositories\<close>

record UserEntity =
  us_id :: string
  us_tenantId :: string
  us_email :: string
  us_passwordHash :: string
  us_firstName :: string
  us_lastName :: string
  us_roles :: "UserRole list"
  us_permissions :: "string list"
  us_isActive :: bool
  us_isEmailVerified :: bool
  us_failedLoginAttempts :: int
  us_lockedUntil :: "instant option"
  us_lastLoginAt :: "instant option"
  us_createdAt :: instant
  us_updatedAt :: instant

record TenantEntity =
  tn_id :: string
  tn_name :: string
  tn_slug :: string
  tn_tier :: TenantTier
  tn_maxUsers :: int
  tn_maxWarehouses :: int
  tn_isActive :: bool
  tn_allowSelfRegistration :: bool
  tn_requireMfa :: bool
  tn_sessionTimeoutMinutes :: int
  tn_createdAt :: instant
  tn_updatedAt :: instant

record AuditLogEntity =
  al_id :: string
  al_tenantId :: string
  al_userId :: "string option"
  al_action :: string
  al_resource :: string
  al_resourceId :: "string option"
  al_ipAddress :: "string option"
  al_createdAt :: instant

type_synonym UserRepository = "(string, UserEntity) jsmap"
type_synonym TenantRepository = "(string, TenantEntity) jsmap"

definition user_find :: "UserRepository \<Rightarrow> string \<Rightarrow> UserEntity option" where
  "user_find m i = jm_get m i"

definition findByEmailAndTenant :: "string \<Rightarrow> string \<Rightarrow> UserRepository \<Rightarrow> UserEntity option" where
  "findByEmailAndTenant email t m =
     find (\<lambda>u. to_lower (us_email u) = to_lower email \<and> us_tenantId u = t) (jm_values m)"

definition user_create :: "instant \<Rightarrow> string \<Rightarrow> UserEntity \<Rightarrow> UserRepository \<Rightarrow> UserRepository \<times> UserEntity" where
  "user_create now uid draft m =
     (let e = draft\<lparr> us_id := uid, us_createdAt := now, us_updatedAt := now \<rparr> in (jm_set uid e m, e))"

definition user_update ::
  "instant \<Rightarrow> string \<Rightarrow> (UserEntity \<Rightarrow> UserEntity) \<Rightarrow> UserRepository \<Rightarrow> UserRepository \<times> UserEntity option" where
  "user_update now = repo_update (\<lambda>e. e\<lparr> us_updatedAt := now \<rparr>)"

definition user_listByTenant :: "string \<Rightarrow> UserRepository \<Rightarrow> UserEntity list" where
  "user_listByTenant t m = filter (\<lambda>u. us_tenantId u = t) (jm_values m)"

definition tenant_find :: "TenantRepository \<Rightarrow> string \<Rightarrow> TenantEntity option" where
  "tenant_find m i = jm_get m i"

definition findBySlug :: "string \<Rightarrow> TenantRepository \<Rightarrow> TenantEntity option" where
  "findBySlug slug m = find (\<lambda>t. tn_slug t = slug) (jm_values m)"

definition tenant_create :: "instant \<Rightarrow> string \<Rightarrow> TenantEntity \<Rightarrow> TenantRepository \<Rightarrow> TenantRepository \<times> TenantEntity" where
  "tenant_create now uid draft m =
     (let e = draft\<lparr> tn_id := uid, tn_createdAt := now, tn_updatedAt := now \<rparr> in (jm_set uid e m, e))"

definition tenant_listAll :: "TenantRepository \<Rightarrow> TenantEntity list" where
  "tenant_listAll m = jm_values m"

definition audit_record :: "instant \<Rightarrow> string \<Rightarrow> AuditLogEntity \<Rightarrow> AuditLogEntity list \<Rightarrow> AuditLogEntity list" where
  "audit_record now uid draft logs = logs @ [draft\<lparr> al_id := uid, al_createdAt := now \<rparr>]"

definition audit_listByTenant :: "string \<Rightarrow> nat \<Rightarrow> AuditLogEntity list \<Rightarrow> AuditLogEntity list" where
  "audit_listByTenant t limit logs = js_last limit (filter (\<lambda>l. al_tenantId l = t) logs)"

interpretation users: entity_repository user_find jm_set "user_update now"
    "\<lambda>e. e\<lparr> us_updatedAt := now \<rparr>" for now
  by unfold_locales (simp_all add: user_find_def user_update_def)

section \<open>Password hashing\<close>

fun hex_encode :: "nat list \<Rightarrow> string" where
  "hex_encode [] = []"
| "hex_encode (b # bs) = digit_char (b div 16) # digit_char (b mod 16) # hex_encode bs"

definition hex_digit :: "char \<Rightarrow> nat option" where
  "hex_digit c =
     (let n = (of_char c :: nat)
      in if 48 \<le> n \<and> n \<le> 57 then Some (n - 48)
         else if 97 \<le> n \<and> n \<le> 102 then Some (n - 87)
         else if 65 \<le> n \<and> n \<le> 70 then Some (n - 55) else None)"

text \<open>\<open>Buffer.from(s, 'hex')\<close> stops at the first pair that is not two hex digits.\<close>

fun hex_decode :: "string \<Rightarrow> nat list" where
  "hex_decode (a # b # s) =
     (case (hex_digit a, hex_digit b) of
        (Some x, Some y) \<Rightarrow> (16 * x + y) # hex_decode s
      | _ \<Rightarrow> [])"
| "hex_decode _ = []"

definition hasher_hash :: "(string \<Rightarrow> string \<Rightarrow> nat list) \<Rightarrow> string \<Rightarrow> string \<Rightarrow> string" where
  "hasher_hash kdf salt password = salt @ CHR '':'' # hex_encode (kdf password salt)"

definition hasher_verify :: "(string \<Rightarrow> string \<Rightarrow> nat list) \<Rightarrow> string \<Rightarrow> string \<Rightarrow> bool" where
  "hasher_verify kdf password combined =
     (case js_split CHR '':'' combined of
        salt # key # _ \<Rightarrow>
          if salt = [] \<or> key = [] then False
          else let keyBuffer = hex_decode key; derived = kdf password salt
               in if length keyBuffer \<noteq> length derived then False else keyBuffer = derived
      | _ \<Rightarrow> False)"

section \<open>Tokens\<close>

record AuthTokens =
  at_accessToken :: string
  at_refreshToken :: string
  at_expiresIn :: nat

record token_lib =
  signAccess :: "AuthenticatedUser \<Rightarrow> string \<Rightarrow> string"
  signRefresh :: "string \<Rightarrow> string \<Rightarrow> string"

definition token_payload :: "UserEntity \<Rightarrow> AuthenticatedUser" where
  "token_payload u =
     \<lparr> au_userId = us_id u, au_tenantId = us_tenantId u, au_email = us_email u,
       au_roles = us_roles u, au_permissions = us_permissions u, au_sessionId = None \<rparr>"

definition generateAuthTokens :: "token_lib \<Rightarrow> UserEntity \<Rightarrow> AuthTokens" where
  "generateAuthTokens lib u =
     \<lparr> at_accessToken = signAccess lib (token_payload u) (us_id u),
       at_refreshToken = signRefresh lib (us_id u) (us_tenantId u), at_expiresIn = 900 \<rparr>"

section \<open>The service\<close>

record auth_sys =
  au_users :: UserRepository
  au_tenants :: TenantRepository
  au_logs :: "AuditLogEntity list"

record RegisterUserDTO =
  rg_tenantId :: string
  rg_email :: string
  rg_password :: string
  rg_firstName :: string
  rg_lastName :: string
  rg_roles :: "UserRole list"

record CreateTenantDTO =
  ct_name :: string
  ct_slug :: string
  ct_tier :: TenantTier
  ct_adminEmail :: string
  ct_adminPassword :: string
  ct_adminFirstName :: string
  ct_adminLastName :: string

text \<open>What a caller gets to see of a user.\<close>

record public_user =
  pu_id :: string
  pu_tenantId :: string
  pu_email :: string
  pu_firstName :: string
  pu_lastName :: string
  pu_roles :: "UserRole list"

definition public_view :: "UserEntity \<Rightarrow> public_user" where
  "public_view u =
     \<lparr> pu_id = us_id u, pu_tenantId = us_tenantId u, pu_email = us_email u, pu_firstName = us_firstName u,
       pu_lastName = us_lastName u, pu_roles = us_roles u \<rparr>"

record auth_result =
  ar_user :: public_user
  ar_tokens :: AuthTokens

text \<open>\<open>registerUser\<close> up to the hash, and after it.\<close>

definition register_check :: "RegisterUserDTO \<Rightarrow> auth_sys \<Rightarrow> unit outcome" where
  "register_check dto s =
     (case tenant_find (au_tenants s) (rg_tenantId dto) of
        None \<Rightarrow> Inl (NotFoundException ''Tenant'' (Some (rg_tenantId dto)))
      | Some t \<Rightarrow>
          if \<not> tn_isActive t
          then Inl (ForbiddenException ''The requested tenant organization is currently inactive.'')
          else (case findByEmailAndTenant (rg_email dto) (rg_tenantId dto) (au_users s) of
                  Some _ \<Rightarrow> Inl (ConflictException
                    (''A user with email '' @ quoted (rg_email dto) @ '' already exists in this tenant.''))
                | None \<Rightarrow> Inr ()))"

definition register_finish ::
  "token_lib \<Rightarrow> instant \<Rightarrow> string \<Rightarrow> string \<Rightarrow> string option \<Rightarrow> string \<Rightarrow> RegisterUserDTO \<Rightarrow> auth_sys
     \<Rightarrow> auth_sys \<times> auth_result" where
  "register_finish lib now uid logId ip pwHash dto s =
     (let (m, u) = user_create now uid
            \<lparr> us_id = [], us_tenantId = rg_tenantId dto, us_email = rg_email dto, us_passwordHash = pwHash,
              us_firstName = rg_firstName dto, us_lastName = rg_lastName dto, us_roles = rg_roles dto,
              us_permissions = [''orders:read'', ''orders:create'', ''inventory:read''],
              us_isActive = True, us_isEmailVerified = False, us_failedLoginAttempts = 0,
              us_lockedUntil = None, us_lastLoginAt = None, us_createdAt = 0, us_updatedAt = 0 \<rparr> (au_users s)
      in (s\<lparr> au_users := m,
             au_logs := audit_record now logId
               \<lparr> al_id = [], al_tenantId = rg_tenantId dto, al_userId = Some (us_id u),
                 al_action = ''USER_REGISTERED'', al_resource = ''User'', al_resourceId = Some (us_id u),
                 al_ipAddress = ip, al_createdAt = 0 \<rparr> (au_logs s) \<rparr>,
          \<lparr> ar_user = public_view u, ar_tokens = generateAuthTokens lib u \<rparr>))"

definition registerUser ::
  "token_lib \<Rightarrow> (string \<Rightarrow> string \<Rightarrow> nat list) \<Rightarrow> instant \<Rightarrow> string \<Rightarrow> string \<Rightarrow> string option \<Rightarrow> string
     \<Rightarrow> RegisterUserDTO \<Rightarrow> auth_sys \<Rightarrow> auth_sys \<times> auth_result outcome" where
  "registerUser lib kdf now uid logId ip salt dto s =
     (case register_check dto s of
        Inl e \<Rightarrow> (s, Inl e)
      | Inr _ \<Rightarrow> let (s', r) = register_finish lib now uid logId ip (hasher_hash kdf salt (rg_password dto)) dto s
                in (s', Inr r))"

definition InvalidCredentials :: app_error where
  "InvalidCredentials = UnauthorizedException ''Invalid email, tenant or password credentials.''"

text \<open>\<open>login\<close> up to the verification, and after it: the second part works on the user it read. It reads the clock for each
  date it writes: \<open>clock n\<close> is the reading number \<open>n\<close> of a call.\<close>

definition login_find :: "string \<Rightarrow> string \<Rightarrow> auth_sys \<Rightarrow> UserEntity outcome" where
  "login_find email t s =
     (case findByEmailAndTenant email t (au_users s) of
        None \<Rightarrow> Inl InvalidCredentials
      | Some u \<Rightarrow> if \<not> us_isActive u then Inl InvalidCredentials else Inr u)"

definition login_entry :: "instant \<Rightarrow> string \<Rightarrow> string option \<Rightarrow> UserEntity \<Rightarrow> AuditLogEntity" where
  "login_entry now logId ip u =
     \<lparr> al_id = logId, al_tenantId = us_tenantId u, al_userId = Some (us_id u),
       al_action = ''USER_LOGGED_IN'', al_resource = ''Auth'', al_resourceId = Some (us_id u),
       al_ipAddress = ip, al_createdAt = now \<rparr>"

definition login_finish ::
  "token_lib \<Rightarrow> (nat \<Rightarrow> instant) \<Rightarrow> string \<Rightarrow> string option \<Rightarrow> bool \<Rightarrow> UserEntity \<Rightarrow> auth_sys
     \<Rightarrow> auth_sys \<times> auth_result outcome" where
  "login_finish lib clock logId ip valid u s =
     (if \<not> valid
      then (s\<lparr> au_users := fst (user_update (clock 0) (us_id u)
                  (\<lambda>e. e\<lparr> us_failedLoginAttempts := us_failedLoginAttempts u + 1 \<rparr>) (au_users s)) \<rparr>,
            Inl InvalidCredentials)
      else (s\<lparr> au_users := fst (user_update (clock 1) (us_id u)
                  (\<lambda>e. e\<lparr> us_failedLoginAttempts := 0, us_lastLoginAt := Some (clock 0) \<rparr>) (au_users s)),
               au_logs := audit_record (clock 2) logId (login_entry 0 [] ip u) (au_logs s) \<rparr>,
            Inr \<lparr> ar_user = public_view u, ar_tokens = generateAuthTokens lib u \<rparr>))"

definition login ::
  "token_lib \<Rightarrow> (string \<Rightarrow> string \<Rightarrow> nat list) \<Rightarrow> (nat \<Rightarrow> instant) \<Rightarrow> string \<Rightarrow> string option \<Rightarrow> string \<Rightarrow> string \<Rightarrow> string
     \<Rightarrow> auth_sys \<Rightarrow> auth_sys \<times> auth_result outcome" where
  "login lib kdf clock logId ip email t password s =
     (case login_find email t s of
        Inl e \<Rightarrow> (s, Inl e)
      | Inr u \<Rightarrow> login_finish lib clock logId ip (hasher_verify kdf password (us_passwordHash u)) u s)"

text \<open>\<open>provisionTenant\<close>: the tenant is stored before the hash, the administrator after it.\<close>

definition provision_tenant ::
  "instant \<Rightarrow> string \<Rightarrow> CreateTenantDTO \<Rightarrow> auth_sys \<Rightarrow> auth_sys \<times> TenantEntity outcome" where
  "provision_tenant now tid dto s =
     (case findBySlug (ct_slug dto) (au_tenants s) of
        Some _ \<Rightarrow> (s, Inl (ConflictException (''Tenant slug '' @ quoted (ct_slug dto) @ '' is already taken.'')))
      | None \<Rightarrow>
          let (m, t) = tenant_create now tid
                \<lparr> tn_id = [], tn_name = ct_name dto, tn_slug = ct_slug dto, tn_tier = ct_tier dto,
                  tn_maxUsers = (if ct_tier dto = TenantTier.ENTERPRISE then 5000 else 50),
                  tn_maxWarehouses = (if ct_tier dto = TenantTier.ENTERPRISE then 100 else 5),
                  tn_isActive = True, tn_allowSelfRegistration = False,
                  tn_requireMfa = (ct_tier dto = TenantTier.ENTERPRISE), tn_sessionTimeoutMinutes = 60,
                  tn_createdAt = 0, tn_updatedAt = 0 \<rparr> (au_tenants s)
          in (s\<lparr> au_tenants := m \<rparr>, Inr t))"

definition provision_admin ::
  "instant \<Rightarrow> string \<Rightarrow> string \<Rightarrow> CreateTenantDTO \<Rightarrow> TenantEntity \<Rightarrow> auth_sys \<Rightarrow> auth_sys \<times> UserEntity" where
  "provision_admin now uid pwHash dto t s =
     (let (m, u) = user_create now uid
            \<lparr> us_id = [], us_tenantId = tn_id t, us_email = ct_adminEmail dto, us_passwordHash = pwHash,
              us_firstName = ct_adminFirstName dto, us_lastName = ct_adminLastName dto,
              us_roles = [UserRole.TENANT_ADMIN, UserRole.OPERATIONS_MANAGER], us_permissions = [''*''],
              us_isActive = True, us_isEmailVerified = True, us_failedLoginAttempts = 0,
              us_lockedUntil = None, us_lastLoginAt = None, us_createdAt = 0, us_updatedAt = 0 \<rparr> (au_users s)
      in (s\<lparr> au_users := m \<rparr>, u))"

definition provisionTenant ::
  "(string \<Rightarrow> string \<Rightarrow> nat list) \<Rightarrow> instant \<Rightarrow> string \<Rightarrow> string \<Rightarrow> string \<Rightarrow> CreateTenantDTO \<Rightarrow> auth_sys
     \<Rightarrow> auth_sys \<times> (TenantEntity \<times> UserEntity) outcome" where
  "provisionTenant kdf now tid uid salt dto s =
     (case provision_tenant now tid dto s of
        (s1, Inl e) \<Rightarrow> (s1, Inl e)
      | (s1, Inr t) \<Rightarrow>
          let (s2, u) = provision_admin now uid (hasher_hash kdf salt (ct_adminPassword dto)) dto t s1
          in (s2, Inr (t, u)))"

section \<open>Hashing round trip\<close>

lemma of_char_digit: "d < 16 \<Longrightarrow> (of_char (digit_char d) :: nat) = (if d < 10 then 48 + d else 87 + d)"
  by (auto simp: digit_char_def)

lemma hex_digit_char: "d < 16 \<Longrightarrow> hex_digit (digit_char d) = Some d"
  by (auto simp: hex_digit_def of_char_digit Let_def)

lemma hex_round_trip: "\<forall>b \<in> set bs. b < 256 \<Longrightarrow> hex_decode (hex_encode bs) = bs"
  by (induction bs) (auto simp: hex_digit_char)

lemma digit_not_colon: "d < 16 \<Longrightarrow> digit_char d \<noteq> CHR '':''"
proof
  assume "d < 16" "digit_char d = CHR '':''"
  then have "(of_char (digit_char d) :: nat) = 58" by simp
  with of_char_digit [OF \<open>d < 16\<close>] show False using \<open>d < 16\<close> by (auto split: if_splits)
qed

lemma hex_no_colon: "\<forall>b \<in> set bs. b < 256 \<Longrightarrow> CHR '':'' \<notin> set (hex_encode bs)"
  using digit_not_colon by (induction bs) (auto dest: sym)

lemma js_split_absent: "c \<notin> set xs \<Longrightarrow> js_split c xs = [xs]"
  by (induction xs) auto

lemma js_split_first: "c \<notin> set xs \<Longrightarrow> js_split c (xs @ c # ys) = xs # js_split c ys"
  by (induction xs) auto

lemma hex_encode_length: "length (hex_encode bs) = 2 * length bs"
  by (induction bs) auto

lemma verify_hash:
  assumes "salt \<noteq> []" and "CHR '':'' \<notin> set salt"
    and "\<And>p s. length (kdf p s) = 64" and "\<And>p s. \<forall>b \<in> set (kdf p s). b < 256"
  shows "hasher_verify kdf p' (hasher_hash kdf salt p) \<longleftrightarrow> kdf p' salt = kdf p salt"
proof -
  have "js_split CHR '':'' (hasher_hash kdf salt p) = [salt, hex_encode (kdf p salt)]"
    using assms(2) hex_no_colon [OF assms(4)]
    by (simp add: hasher_hash_def js_split_first js_split_absent)
  moreover have "hex_encode (kdf p salt) \<noteq> []"
    using assms(3) [of p salt] hex_encode_length [of "kdf p salt"] by auto
  ultimately show ?thesis
    using assms(1,3) hex_round_trip [OF assms(4)] by (auto simp: hasher_verify_def Let_def)
qed

section \<open>Accounts are unique\<close>

definition account :: "UserEntity \<Rightarrow> string \<times> string" where
  "account u = (to_lower (us_email u), us_tenantId u)"

definition auth_ok :: "auth_sys \<Rightarrow> bool" where
  "auth_ok s \<longleftrightarrow> keyed us_id (au_users s) \<and> keyed tn_id (au_tenants s) \<and>
     inj_on account (set (jm_values (au_users s))) \<and>
     inj_on tn_slug (set (jm_values (au_tenants s))) \<and>
     (\<forall>u \<in> set (jm_values (au_users s)). jm_get (au_tenants s) (us_tenantId u) \<noteq> None)"

lemma auth_ok_logs [simp]: "auth_ok (s\<lparr> au_logs := l \<rparr>) = auth_ok s"
  by (simp add: auth_ok_def)

lemma findByEmail_Some:
  "findByEmailAndTenant e t m = Some u \<Longrightarrow> u \<in> set (jm_values m) \<and> account u = (to_lower e, t)"
  by (auto simp: findByEmailAndTenant_def account_def dest!: find_SomeD)

lemma findByEmail_None:
  "findByEmailAndTenant e t m = None \<longleftrightarrow> (\<forall>u \<in> set (jm_values m). account u \<noteq> (to_lower e, t))"
  by (auto simp: findByEmailAndTenant_def find_None_iff account_def)

lemma findByEmail_unique:
  assumes "inj_on account (set (jm_values m))" and "u \<in> set (jm_values m)" and "account u = (to_lower e, t)"
  shows "findByEmailAndTenant e t m = Some u"
  using assms findByEmail_Some [of e t m] findByEmail_None [of e t m]
  by (cases "findByEmailAndTenant e t m") (auto simp: inj_on_def)

lemma add_user_ok:
  assumes "auth_ok s" and "jm_get (au_users s) uid = None" and "us_id u = uid"
    and "\<forall>v \<in> set (jm_values (au_users s)). account v \<noteq> account u"
    and "jm_get (au_tenants s) (us_tenantId u) \<noteq> None"
  shows "auth_ok (s\<lparr> au_users := jm_set uid u (au_users s) \<rparr>)"
proof -
  have vals: "set (jm_values (jm_set uid u (au_users s))) = insert u (set (jm_values (au_users s)))"
    using assms(2) by (simp add: jm_set_append jm_values_def)
  show ?thesis
    using assms unfolding auth_ok_def by (auto simp: vals inj_on_def intro!: keyed_put)
qed

lemma update_user_ok:
  assumes "auth_ok s" and "\<And>e. us_id (f e) = us_id e \<and> account (f e) = account e"
  shows "auth_ok (s\<lparr> au_users := fst (user_update now uid f (au_users s)) \<rparr>)"
proof (cases "jm_get (au_users s) uid")
  case None
  then show ?thesis using assms(1) by (simp add: user_update_def repo_update_def auth_ok_def)
next
  case (Some e)
  let ?e = "(f e)\<lparr> us_updatedAt := now \<rparr>"
  have k: "keyed us_id (au_users s)" using assms(1) by (simp add: auth_ok_def)
  have e: "us_id ?e = uid" "account ?e = account e" "us_tenantId ?e = us_tenantId e" "us_id e = uid"
    using assms(2) [of e] keyed_get [OF k Some] by (auto simp: account_def)
  have vals: "set (jm_values (jm_set uid ?e (au_users s))) = insert ?e {x \<in> set (jm_values (au_users s)). us_id x \<noteq> uid}"
    by (rule keyed_values_set [OF k e(1)])
  have mem: "e \<in> set (jm_values (au_users s))" by (rule jm_get_value [OF Some])
  have "inj_on account (insert ?e {x \<in> set (jm_values (au_users s)). us_id x \<noteq> uid})"
  proof -
    let ?A = "{x \<in> set (jm_values (au_users s)). us_id x \<noteq> uid}"
    have inj: "inj_on account (set (jm_values (au_users s)))" using assms(1) by (simp add: auth_ok_def)
    then have "inj_on account ?A" by (auto intro: inj_on_subset)
    moreover have "account ?e \<notin> account ` (?A - {?e})"
    proof
      assume "account ?e \<in> account ` (?A - {?e})"
      then obtain x where "account ?e = account x" "x \<in> ?A - {?e}" by (rule imageE)
      with inj mem e(2,4) show False by (auto dest: inj_onD)
    qed
    ultimately show ?thesis by simp
  qed
  moreover have "fst (user_update now uid f (au_users s)) = jm_set uid ?e (au_users s)"
    using Some by (simp add: user_update_def repo_update_def Let_def)
  ultimately show ?thesis
    using assms(1) e mem k unfolding auth_ok_def by (auto simp: vals intro!: keyed_put)
qed

section \<open>Requests that wait at their hash\<close>

text \<open>A request that waits for its password hash, and what it read before.\<close>

datatype auth_task =
    Registering RegisterUserDTO
  | LoggingIn UserEntity string
  | AddingAdmin CreateTenantDTO TenantEntity

record auth_world =
  aw_sys :: auth_sys
  aw_pending :: "auth_task list"

datatype auth_event =
    BeginRegister RegisterUserDTO
  | BeginLogin string string string
  | BeginProvision instant string CreateTenantDTO
  | Finish nat "nat \<Rightarrow> instant" string string "string option" string

fun finish_task ::
  "token_lib \<Rightarrow> (string \<Rightarrow> string \<Rightarrow> nat list) \<Rightarrow> (nat \<Rightarrow> instant) \<Rightarrow> string \<Rightarrow> string \<Rightarrow> string option \<Rightarrow> string \<Rightarrow> auth_task
     \<Rightarrow> auth_sys \<Rightarrow> auth_sys" where
  "finish_task lib kdf clock uid logId ip salt (Registering dto) s =
     fst (register_finish lib (clock 0) uid logId ip (hasher_hash kdf salt (rg_password dto)) dto s)"
| "finish_task lib kdf clock uid logId ip salt (LoggingIn u password) s =
     fst (login_finish lib clock logId ip (hasher_verify kdf password (us_passwordHash u)) u s)"
| "finish_task lib kdf clock uid logId ip salt (AddingAdmin dto t) s =
     fst (provision_admin (clock 0) uid (hasher_hash kdf salt (ct_adminPassword dto)) dto t s)"

definition wait_for :: "auth_task \<Rightarrow> auth_world \<Rightarrow> auth_world" where
  "wait_for task w = w\<lparr> aw_pending := aw_pending w @ [task] \<rparr>"

fun auth_next :: "token_lib \<Rightarrow> (string \<Rightarrow> string \<Rightarrow> nat list) \<Rightarrow> auth_event \<Rightarrow> auth_world \<Rightarrow> auth_world" where
  "auth_next lib kdf (BeginRegister dto) w =
     (case register_check dto (aw_sys w) of Inl e \<Rightarrow> w | Inr _ \<Rightarrow> wait_for (Registering dto) w)"
| "auth_next lib kdf (BeginLogin email t password) w =
     (case login_find email t (aw_sys w) of Inl e \<Rightarrow> w | Inr u \<Rightarrow> wait_for (LoggingIn u password) w)"
| "auth_next lib kdf (BeginProvision now tid dto) w =
     (case provision_tenant now tid dto (aw_sys w) of
        (s, Inl e) \<Rightarrow> w
      | (s, Inr t) \<Rightarrow> wait_for (AddingAdmin dto t) (w\<lparr> aw_sys := s \<rparr>))"
| "auth_next lib kdf (Finish n clock uid logId ip salt) w =
     (if n < length (aw_pending w)
      then w\<lparr> aw_sys := finish_task lib kdf clock uid logId ip salt (aw_pending w ! n) (aw_sys w),
              aw_pending := take n (aw_pending w) @ drop (Suc n) (aw_pending w) \<rparr>
      else w)"

text \<open>Without interruption the parts are the methods.\<close>

lemma register_uninterrupted:
  "auth_next lib kdf (Finish 0 (\<lambda>_. now) uid logId ip salt) (auth_next lib kdf (BeginRegister dto) \<lparr> aw_sys = s, aw_pending = [] \<rparr>) =
     \<lparr> aw_sys = fst (registerUser lib kdf now uid logId ip salt dto s), aw_pending = [] \<rparr>"
  by (simp add: registerUser_def wait_for_def split: sum.split prod.split)

lemma login_uninterrupted:
  "auth_next lib kdf (Finish 0 clock uid logId ip salt) (auth_next lib kdf (BeginLogin email t password) \<lparr> aw_sys = s, aw_pending = [] \<rparr>) =
     \<lparr> aw_sys = fst (login lib kdf clock logId ip email t password s), aw_pending = [] \<rparr>"
  by (simp add: login_def wait_for_def split: sum.split)

text \<open>The accounts that waiting requests are about to create.\<close>

primrec task_accounts :: "auth_task \<Rightarrow> (string \<times> string) list" where
  "task_accounts (Registering dto) = [(to_lower (rg_email dto), rg_tenantId dto)]"
| "task_accounts (LoggingIn u password) = []"
| "task_accounts (AddingAdmin dto t) = [(to_lower (ct_adminEmail dto), tn_id t)]"

definition reserved :: "auth_world \<Rightarrow> (string \<times> string) list" where
  "reserved w = concat (map task_accounts (aw_pending w))"

text \<open>New identifiers are unused, and registrations of one account do not overlap.\<close>

fun auth_event_ok :: "auth_event \<Rightarrow> auth_world \<Rightarrow> bool" where
  "auth_event_ok (BeginRegister dto) w \<longleftrightarrow> (to_lower (rg_email dto), rg_tenantId dto) \<notin> set (reserved w)"
| "auth_event_ok (BeginLogin email t password) w \<longleftrightarrow> True"
| "auth_event_ok (BeginProvision now tid dto) w \<longleftrightarrow> jm_get (au_tenants (aw_sys w)) tid = None"
| "auth_event_ok (Finish n clock uid logId ip salt) w \<longleftrightarrow> jm_get (au_users (aw_sys w)) uid = None"

fun auth_events_ok :: "token_lib \<Rightarrow> (string \<Rightarrow> string \<Rightarrow> nat list) \<Rightarrow> auth_event list \<Rightarrow> auth_world \<Rightarrow> bool" where
  "auth_events_ok lib kdf [] w \<longleftrightarrow> True"
| "auth_events_ok lib kdf (e # es) w \<longleftrightarrow> auth_event_ok e w \<and> auth_events_ok lib kdf es (auth_next lib kdf e w)"

definition world_ok :: "auth_world \<Rightarrow> bool" where
  "world_ok w \<longleftrightarrow> auth_ok (aw_sys w) \<and> distinct (reserved w) \<and>
     (\<forall>a \<in> set (reserved w). a \<notin> account ` set (jm_values (au_users (aw_sys w))) \<and> jm_get (au_tenants (aw_sys w)) (snd a) \<noteq> None)"

lemma reserved_wait [simp]: "reserved (wait_for task w) = reserved w @ task_accounts task"
  by (simp add: reserved_def wait_for_def)

lemma aw_sys_wait [simp]: "aw_sys (wait_for task w) = aw_sys w"
  by (simp add: wait_for_def)

lemma reserved_split:
  assumes "n < length (aw_pending w)"
  shows "reserved w = concat (map task_accounts (take n (aw_pending w))) @ task_accounts (aw_pending w ! n) @
    concat (map task_accounts (drop (Suc n) (aw_pending w)))"
  unfolding reserved_def by (subst id_take_nth_drop [OF assms]) simp

lemma update_accounts:
  assumes "\<And>e. account (f e) = account e"
  shows "account ` set (jm_values (fst (user_update now uid f m))) \<subseteq> account ` set (jm_values m)"
proof (cases "jm_get m uid")
  case (Some e)
  have "account ((f e)\<lparr> us_updatedAt := now \<rparr>) = account e" using assms [of e] by (simp add: account_def)
  with jm_get_value [OF Some] show ?thesis
    by (auto simp: user_update_def repo_update_def Some Let_def dest!: jm_set_value)
qed (simp add: user_update_def repo_update_def)

lemma added_user:
  assumes "auth_ok s" and "jm_get (au_users s) (us_id u) = None"
    and "account u \<notin> account ` set (jm_values (au_users s))" and "jm_get (au_tenants s) (us_tenantId u) \<noteq> None"
  shows "auth_ok (s\<lparr> au_users := jm_set (us_id u) u (au_users s) \<rparr>) \<and>
    account ` set (jm_values (jm_set (us_id u) u (au_users s))) \<subseteq> account ` set (jm_values (au_users s)) \<union> {account u}"
proof
  have "\<forall>v \<in> set (jm_values (au_users s)). account v \<noteq> account u" using assms(3) by (metis image_eqI)
  from add_user_ok [OF assms(1,2) refl this assms(4)] show "auth_ok (s\<lparr> au_users := jm_set (us_id u) u (au_users s) \<rparr>)" .
  show "account ` set (jm_values (jm_set (us_id u) u (au_users s))) \<subseteq> account ` set (jm_values (au_users s)) \<union> {account u}"
    by (auto dest!: jm_set_value)
qed

text \<open>What a finished request leaves: a good state, and no accounts but the old ones and those it had announced.\<close>

lemma finish_task_ok:
  assumes "auth_ok s" and "jm_get (au_users s) uid = None"
    and "\<forall>a \<in> set (task_accounts task). a \<notin> account ` set (jm_values (au_users s)) \<and> jm_get (au_tenants s) (snd a) \<noteq> None"
  shows "auth_ok (finish_task lib kdf clock uid logId ip salt task s) \<and>
    au_tenants (finish_task lib kdf clock uid logId ip salt task s) = au_tenants s \<and>
    account ` set (jm_values (au_users (finish_task lib kdf clock uid logId ip salt task s)))
      \<subseteq> account ` set (jm_values (au_users s)) \<union> set (task_accounts task)"
proof (cases task)
  case (Registering dto)
  define u where "u = snd (user_create (clock 0) uid
    \<lparr> us_id = [], us_tenantId = rg_tenantId dto, us_email = rg_email dto, us_passwordHash = hasher_hash kdf salt (rg_password dto),
      us_firstName = rg_firstName dto, us_lastName = rg_lastName dto, us_roles = rg_roles dto,
      us_permissions = [''orders:read'', ''orders:create'', ''inventory:read''],
      us_isActive = True, us_isEmailVerified = False, us_failedLoginAttempts = 0,
      us_lockedUntil = None, us_lastLoginAt = None, us_createdAt = 0, us_updatedAt = 0 \<rparr> (au_users s))"
  have u: "us_id u = uid" "account u = (to_lower (rg_email dto), rg_tenantId dto)" "us_tenantId u = rg_tenantId dto"
    by (simp_all add: u_def user_create_def Let_def account_def)
  have "\<exists>l. finish_task lib kdf clock uid logId ip salt task s = s\<lparr> au_users := jm_set uid u (au_users s), au_logs := l \<rparr>"
    by (auto simp: Registering register_finish_def u_def user_create_def Let_def)
  then obtain l where l: "finish_task lib kdf clock uid logId ip salt task s = s\<lparr> au_users := jm_set uid u (au_users s), au_logs := l \<rparr>" ..
  have "auth_ok (s\<lparr> au_users := jm_set uid u (au_users s) \<rparr>) \<and>
      account ` set (jm_values (jm_set uid u (au_users s))) \<subseteq> account ` set (jm_values (au_users s)) \<union> {account u}"
    using added_user [of s u] assms u by (simp add: Registering)
  then show ?thesis unfolding l using u(2) auth_ok_logs [where s = "s\<lparr> au_users := jm_set uid u (au_users s) \<rparr>" and l = l]
    by (simp add: Registering)
next
  case (LoggingIn u password)
  have acc: "account (e\<lparr> us_failedLoginAttempts := n \<rparr>) = account e"
    "account (e\<lparr> us_failedLoginAttempts := n, us_lastLoginAt := l \<rparr>) = account e" for e n l by (simp_all add: account_def)
  show ?thesis
    using update_user_ok [OF assms(1)] update_accounts unfolding LoggingIn
    by (simp add: login_finish_def acc)
next
  case (AddingAdmin dto t)
  define u where "u = snd (provision_admin (clock 0) uid (hasher_hash kdf salt (ct_adminPassword dto)) dto t s)"
  have u: "us_id u = uid" "account u = (to_lower (ct_adminEmail dto), tn_id t)" "us_tenantId u = tn_id t"
    by (simp_all add: u_def provision_admin_def user_create_def Let_def account_def)
  have l: "finish_task lib kdf clock uid logId ip salt task s = s\<lparr> au_users := jm_set uid u (au_users s) \<rparr>"
    by (simp add: AddingAdmin u_def provision_admin_def user_create_def Let_def)
  show ?thesis unfolding l using added_user [of s u] assms u by (simp add: AddingAdmin)
qed

lemma provision_tenant_ok:
  assumes "auth_ok s" and "jm_get (au_tenants s) tid = None" and "provision_tenant now tid dto s = (s1, Inr t)"
  shows "auth_ok s1 \<and> tn_id t = tid \<and> s1 = s\<lparr> au_tenants := jm_set tid t (au_tenants s) \<rparr>"
proof -
  have none: "findBySlug (ct_slug dto) (au_tenants s) = None"
    using assms(3) by (auto simp: provision_tenant_def split: option.splits)
  with assms(3) have s1: "s1 = s\<lparr> au_tenants := jm_set tid t (au_tenants s) \<rparr>" "tn_id t = tid" "tn_slug t = ct_slug dto"
    by (auto simp: provision_tenant_def Let_def tenant_create_def)
  have vals: "set (jm_values (jm_set tid t (au_tenants s))) = insert t (set (jm_values (au_tenants s)))"
    using assms(2) by (simp add: jm_set_append jm_values_def)
  have slug: "tn_slug t' \<noteq> ct_slug dto" if "t' \<in> set (jm_values (au_tenants s))" for t'
    using none that by (auto simp: findBySlug_def find_None_iff)
  have "tn_slug t \<notin> tn_slug ` (set (jm_values (au_tenants s)) - {t})" using slug s1(3) by force
  then have "inj_on tn_slug (insert t (set (jm_values (au_tenants s))))" using assms(1) by (simp add: auth_ok_def)
  then have "auth_ok s1"
    using assms(1,2) s1(2,3) unfolding s1(1) auth_ok_def by (auto simp: vals intro!: keyed_put simp del: inj_on_insert)
  with s1 show ?thesis by blast
qed

lemma provision_ok:
  assumes "auth_ok s" and "jm_get (au_users s) uid = None" and "jm_get (au_tenants s) tid = None"
  shows "auth_ok (fst (provisionTenant kdf now tid uid salt dto s))"
proof -
  obtain s1 res where p: "provision_tenant now tid dto s = (s1, res)" by force
  show ?thesis
  proof (cases res)
    case (Inr t)
    note p1 = provision_tenant_ok [OF assms(1,3) p [unfolded Inr]]
    define u where "u = snd (provision_admin now uid (hasher_hash kdf salt (ct_adminPassword dto)) dto t s1)"
    have u: "us_id u = uid" "account u = (to_lower (ct_adminEmail dto), tn_id t)" "us_tenantId u = tn_id t"
      by (simp_all add: u_def provision_admin_def user_create_def Let_def account_def)
    have "account u \<notin> account ` set (jm_values (au_users s1))"
      using assms(1,3) p1 u(2) by (auto simp: auth_ok_def account_def)
    then have "auth_ok (s1\<lparr> au_users := jm_set uid u (au_users s1) \<rparr>)"
      using added_user [OF conjunct1 [OF p1], of u] p1 assms(2) u by auto
    then show ?thesis
      using p Inr by (simp add: provisionTenant_def u_def provision_admin_def user_create_def Let_def)
  next
    case (Inl e)
    with p assms(1) show ?thesis by (auto simp: provisionTenant_def provision_tenant_def Let_def split: option.splits prod.splits)
  qed
qed

lemma auth_event_keeps:
  assumes "world_ok w" and "auth_event_ok e w"
  shows "world_ok (auth_next lib kdf e w)"
proof (cases e)
  case (BeginRegister dto)
  show ?thesis
  proof (cases "register_check dto (aw_sys w)")
    case (Inr x)
    then have "findByEmailAndTenant (rg_email dto) (rg_tenantId dto) (au_users (aw_sys w)) = None"
      "jm_get (au_tenants (aw_sys w)) (rg_tenantId dto) \<noteq> None"
      by (auto simp: register_check_def tenant_find_def split: option.splits if_splits)
    with assms Inr BeginRegister show ?thesis by (auto simp: world_ok_def findByEmail_None)
  qed (use assms BeginRegister in simp)
next
  case (BeginLogin email t password)
  with assms show ?thesis by (cases "login_find email t (aw_sys w)") (simp_all add: world_ok_def)
next
  case (BeginProvision now tid dto)
  obtain s1 res where p: "provision_tenant now tid dto (aw_sys w) = (s1, res)" by force
  show ?thesis
  proof (cases res)
    case (Inr t)
    have fresh: "jm_get (au_tenants (aw_sys w)) tid = None" using assms(2) BeginProvision by simp
    have ok: "auth_ok (aw_sys w)" using assms(1) by (simp add: world_ok_def)
    note p1 = provision_tenant_ok [OF ok fresh p [unfolded Inr]]
    have users: "(to_lower (ct_adminEmail dto), tid) \<notin> account ` set (jm_values (au_users (aw_sys w)))"
      using ok fresh by (auto simp: auth_ok_def account_def)
    have pending: "(to_lower (ct_adminEmail dto), tid) \<notin> set (reserved w)" using assms(1) fresh by (auto simp: world_ok_def)
    have "reserved (w\<lparr> aw_sys := s1 \<rparr>) = reserved w" by (simp add: reserved_def)
    with assms(1) p1 users pending show ?thesis by (auto simp: BeginProvision p Inr world_ok_def)
  qed (use assms BeginProvision p in simp)
next
  case (Finish n clock uid logId ip salt)
  show ?thesis
  proof (cases "n < length (aw_pending w)")
    case True
    note sp = reserved_split [OF True]
    define rest where "rest = concat (map task_accounts (take n (aw_pending w))) @ concat (map task_accounts (drop (Suc n) (aw_pending w)))"
    let ?task = "aw_pending w ! n"
    let ?s = "finish_task lib kdf clock uid logId ip salt ?task (aw_sys w)"
    have mine: "set (task_accounts ?task) \<subseteq> set (reserved w)" "set rest \<subseteq> set (reserved w)"
      "distinct rest" "set rest \<inter> set (task_accounts ?task) = {}"
      using assms(1) unfolding world_ok_def sp rest_def by auto
    have fin: "auth_ok ?s \<and> au_tenants ?s = au_tenants (aw_sys w) \<and>
        account ` set (jm_values (au_users ?s)) \<subseteq> account ` set (jm_values (au_users (aw_sys w))) \<union> set (task_accounts ?task)"
      using assms mine(1) by (intro finish_task_ok) (auto simp: world_ok_def Finish)
    have "reserved (auth_next lib kdf e w) = rest" "aw_sys (auth_next lib kdf e w) = ?s"
      using True by (simp_all add: Finish reserved_def rest_def)
    moreover have "a \<notin> account ` set (jm_values (au_users ?s)) \<and> jm_get (au_tenants ?s) (snd a) \<noteq> None" if "a \<in> set rest" for a
    proof -
      have "a \<in> set (reserved w)" "a \<notin> set (task_accounts ?task)" using that mine(2,4) by auto
      moreover from this(1) assms(1) have old: "a \<notin> account ` set (jm_values (au_users (aw_sys w)))"
        "jm_get (au_tenants (aw_sys w)) (snd a) \<noteq> None" unfolding world_ok_def by metis+
      ultimately have "a \<notin> account ` set (jm_values (au_users (aw_sys w))) \<union> set (task_accounts ?task)" by (simp only: Un_iff) simp
      from contra_subsetD [OF fin [THEN conjunct2, THEN conjunct2] this] old(2) fin [THEN conjunct2, THEN conjunct1]
      show ?thesis by (simp only: simp_thms)
    qed
    ultimately show ?thesis using fin mine(3) unfolding world_ok_def by simp
  qed (use assms Finish in simp)
qed

lemma auth_run_ok:
  "world_ok w \<Longrightarrow> auth_events_ok lib kdf es w \<Longrightarrow> world_ok (fold (auth_next lib kdf) es w)"
  by (induction es arbitrary: w) (simp_all add: auth_event_keeps)

definition auth_empty :: auth_sys where
  "auth_empty = \<lparr> au_users = [], au_tenants = [], au_logs = [] \<rparr>"

lemma auth_empty_ok: "auth_ok auth_empty"
  by (simp add: auth_ok_def auth_empty_def)

definition auth_start :: auth_world where
  "auth_start = \<lparr> aw_sys = auth_empty, aw_pending = [] \<rparr>"

lemma auth_start_ok: "world_ok auth_start"
  by (simp add: world_ok_def auth_start_def auth_empty_ok reserved_def)

section \<open>Properties\<close>

definition demo_kdf :: "string \<Rightarrow> string \<Rightarrow> nat list" where
  "demo_kdf p s = replicate 64 (length p mod 256)"

definition demo_lib :: token_lib where
  "demo_lib = \<lparr> signAccess = (\<lambda>u s. au_userId u @ s), signRefresh = (\<lambda>i t. i @ t) \<rparr>"

definition demo_tenant_dto :: CreateTenantDTO where
  "demo_tenant_dto = \<lparr> ct_name = ''Acme'', ct_slug = ''acme'', ct_tier = TenantTier.STARTER,
     ct_adminEmail = ''root@acme.io'', ct_adminPassword = ''secret'', ct_adminFirstName = ''R'',
     ct_adminLastName = ''T'' \<rparr>"

definition demo_register_dto :: RegisterUserDTO where
  "demo_register_dto = \<lparr> rg_tenantId = ''t1'', rg_email = ''Ann@acme.io'', rg_password = ''passw0rd'',
     rg_firstName = ''Ann'', rg_lastName = ''A'', rg_roles = [UserRole.DRIVER] \<rparr>"

definition demo_tenant :: auth_sys where
  "demo_tenant = fst (provisionTenant demo_kdf 0 ''t1'' ''u0'' ''00'' demo_tenant_dto auth_empty)"

text \<open>C22: Accounts are unique as long as the registrations of one account do not overlap. Take any requests to provision tenants,
  register users and log in, started and completed in any order, each waiting at its hash while others run; only, no
  registration is checked while another one for the same e-mail (up to case) and tenant is waiting
  at its hash. Then no two users have the same tenant and the same e-mail address up to
  case, no two tenants share a slug, every user belongs to an existing tenant, and looking a user
  up by tenant and e-mail in any spelling finds exactly that user. The code itself does not keep registrations of one account apart
  (theorem \<open>registration_race\<close>).\<close>

theorem accounts_unique:
  assumes "auth_events_ok lib kdf es auth_start" and "s = aw_sys (fold (auth_next lib kdf) es auth_start)"
    and "u \<in> set (jm_values (au_users s))"
  shows "(\<forall>v \<in> set (jm_values (au_users s)). to_lower (us_email v) = to_lower (us_email u) \<longrightarrow>
       us_tenantId v = us_tenantId u \<longrightarrow> v = u) \<and>
    (\<forall>e. to_lower e = to_lower (us_email u) \<longrightarrow>
       findByEmailAndTenant e (us_tenantId u) (au_users s) = Some u) \<and>
    user_find (au_users s) (us_id u) = Some u \<and>
    tenant_find (au_tenants s) (us_tenantId u) \<noteq> None \<and> inj_on tn_slug (set (tenant_listAll (au_tenants s)))"
proof -
  have ok: "auth_ok s" using auth_run_ok [OF auth_start_ok assms(1)] assms(2) by (simp add: world_ok_def)
  then have "findByEmailAndTenant e (us_tenantId u) (au_users s) = Some u" if "to_lower e = to_lower (us_email u)" for e
    using that assms(3) by (intro findByEmail_unique) (auto simp: auth_ok_def account_def)
  with ok assms(3) show ?thesis
    by (auto simp: auth_ok_def inj_on_def account_def user_find_def tenant_find_def tenant_listAll_def
        dest: keyed_value)
qed

text \<open>A registration is checked and waits; a second tenant is provisioned meanwhile, and its administrator is stored first.\<close>

definition demo_events :: "auth_event list" where
  "demo_events =
     [BeginProvision 0 ''t1'' demo_tenant_dto, Finish 0 (\<lambda>_. 1) ''u0'' ''l0'' None ''00'',
      BeginRegister demo_register_dto, BeginProvision 2 ''t2'' (demo_tenant_dto\<lparr> ct_slug := ''other'' \<rparr>),
      Finish 1 (\<lambda>_. 3) ''u2'' ''l2'' None ''22'', Finish 0 (\<lambda>_. 4) ''u1'' ''l1'' None ''11'']"

theorem accounts_unique_witness:
  "findByEmailAndTenant ''ANN@ACME.IO'' ''t1''
     (au_users (aw_sys (fold (auth_next demo_lib demo_kdf) demo_events auth_start))) \<noteq> None"
proof -
  define s where "s = aw_sys (fold (auth_next demo_lib demo_kdf) demo_events auth_start)"
  have ok: "auth_events_ok demo_lib demo_kdf demo_events auth_start" by code_simp
  have eq: "map (\<lambda>u. (us_email u, us_tenantId u)) (jm_values (au_users s)) =
      [(''root@acme.io'', ''t1''), (''root@acme.io'', ''t2''), (''Ann@acme.io'', ''t1'')]"
    unfolding s_def by code_simp
  have "(''Ann@acme.io'', ''t1'') \<in> set (map (\<lambda>u. (us_email u, us_tenantId u)) (jm_values (au_users s)))"
    unfolding eq by (simp only: list.set insert_iff simp_thms)
  then obtain u where u: "u \<in> set (jm_values (au_users s))" "us_email u = ''Ann@acme.io''" "us_tenantId u = ''t1''"
    by auto
  have "to_lower ''ANN@ACME.IO'' = to_lower ''Ann@acme.io''" by code_simp
  with accounts_unique [OF ok s_def u(1)] u(2,3) show ?thesis unfolding s_def by auto
qed

text \<open>C26: What \<open>login\<close> decides. When no active user has the e-mail (in any case) and the tenant, unknown and inactive users alike,
  it is a 401 that changes nothing. For an active user it
  succeeds exactly when the key derived from the given password equals the stored one: then the
  failure counter is reset, the login dated, one audit entry with that user and address is appended and the tokens are issued for
  that user. Otherwise it is the same 401, which adds one to the user's failure counter. Nothing else changes in either case.
  Neither the counter nor \<open>lockedUntil\<close> is ever consulted, so there is no lockout.\<close>

theorem login_decides:
  assumes "auth_ok s" and "\<And>p s. length (kdf p s) = 64" and "\<And>p s. \<forall>b \<in> set (kdf p s). b < 256"
  shows "((\<forall>u \<in> set (jm_values (au_users s)). account u = (to_lower email, t) \<longrightarrow> \<not> us_isActive u) \<longrightarrow>
      login lib kdf clock logId ip email t p' s = (s, Inl InvalidCredentials)) \<and>
    (\<forall>u \<in> set (jm_values (au_users s)). \<forall>salt p.
      account u = (to_lower email, t) \<and> us_isActive u \<and> us_passwordHash u = hasher_hash kdf salt p \<and>
        salt \<noteq> [] \<and> CHR '':'' \<notin> set salt \<longrightarrow>
      (if kdf p' salt = kdf p salt
       then \<exists>s'. login lib kdf clock logId ip email t p' s =
              (s', Inr \<lparr> ar_user = public_view u, ar_tokens = generateAuthTokens lib u \<rparr>) \<and>
            user_find (au_users s') (us_id u) =
              Some (u\<lparr> us_failedLoginAttempts := 0, us_lastLoginAt := Some (clock 0), us_updatedAt := clock 1 \<rparr>) \<and>
            au_logs s' = au_logs s @ [login_entry (clock 2) logId ip u] \<and> au_tenants s' = au_tenants s \<and>
            (\<forall>i. i \<noteq> us_id u \<longrightarrow> user_find (au_users s') i = user_find (au_users s) i)
       else \<exists>s'. login lib kdf clock logId ip email t p' s = (s', Inl InvalidCredentials) \<and>
            user_find (au_users s') (us_id u) =
              Some (u\<lparr> us_failedLoginAttempts := us_failedLoginAttempts u + 1, us_updatedAt := clock 0 \<rparr>) \<and>
            au_logs s' = au_logs s \<and> au_tenants s' = au_tenants s \<and>
            (\<forall>i. i \<noteq> us_id u \<longrightarrow> user_find (au_users s') i = user_find (au_users s) i)))"
proof (intro conjI impI ballI allI; (elim conjE)?)
  assume none: "\<forall>u \<in> set (jm_values (au_users s)). account u = (to_lower email, t) \<longrightarrow> \<not> us_isActive u"
  have "\<not> us_isActive u" if "findByEmailAndTenant email t (au_users s) = Some u" for u
    using none findByEmail_Some [OF that] by blast
  then show "login lib kdf clock logId ip email t p' s = (s, Inl InvalidCredentials)"
    by (simp add: login_def login_find_def split: option.split)
next
  fix u salt p
  assume u: "u \<in> set (jm_values (au_users s))" "account u = (to_lower email, t)" "us_isActive u"
    and pw: "us_passwordHash u = hasher_hash kdf salt p" "salt \<noteq> []" "CHR '':'' \<notin> set salt"
  have "findByEmailAndTenant email t (au_users s) = Some u"
    using assms(1) u by (intro findByEmail_unique) (auto simp: auth_ok_def)
  then have find: "login_find email t s = Inr u" using u(3) by (simp add: login_find_def)
  have ver: "hasher_verify kdf p' (us_passwordHash u) \<longleftrightarrow> kdf p' salt = kdf p salt"
    unfolding pw(1) by (rule verify_hash [OF pw(2,3) assms(2,3)])
  have stored: "user_find (au_users s) (us_id u) = Some u"
    using assms(1) u(1) by (auto simp: auth_ok_def user_find_def dest: keyed_value)
  show "if kdf p' salt = kdf p salt
      then \<exists>s'. login lib kdf clock logId ip email t p' s =
             (s', Inr \<lparr> ar_user = public_view u, ar_tokens = generateAuthTokens lib u \<rparr>) \<and>
           user_find (au_users s') (us_id u) =
             Some (u\<lparr> us_failedLoginAttempts := 0, us_lastLoginAt := Some (clock 0), us_updatedAt := clock 1 \<rparr>) \<and>
           au_logs s' = au_logs s @ [login_entry (clock 2) logId ip u] \<and> au_tenants s' = au_tenants s \<and>
           (\<forall>i. i \<noteq> us_id u \<longrightarrow> user_find (au_users s') i = user_find (au_users s) i)
      else \<exists>s'. login lib kdf clock logId ip email t p' s = (s', Inl InvalidCredentials) \<and>
           user_find (au_users s') (us_id u) =
             Some (u\<lparr> us_failedLoginAttempts := us_failedLoginAttempts u + 1, us_updatedAt := clock 0 \<rparr>) \<and>
           au_logs s' = au_logs s \<and> au_tenants s' = au_tenants s \<and>
           (\<forall>i. i \<noteq> us_id u \<longrightarrow> user_find (au_users s') i = user_find (au_users s) i)"
    using stored by (simp add: login_def find ver login_finish_def users.find_updated audit_record_def login_entry_def)
qed

theorem login_decides_witness:
  "isl (snd (login demo_lib demo_kdf (\<lambda>_. 5) ''l'' None ''ROOT@acme.io'' ''t1'' ''bad'' demo_tenant)) \<and>
   \<not> isl (snd (login demo_lib demo_kdf (\<lambda>_. 5) ''l'' None ''ROOT@acme.io'' ''t1'' ''secret'' demo_tenant)) \<and>
   login demo_lib demo_kdf (\<lambda>_. 5) ''l'' None ''ann@acme.io'' ''t1'' ''secret'' demo_tenant = (demo_tenant, Inl InvalidCredentials)"
proof -
  have ok: "auth_ok demo_tenant"
    unfolding demo_tenant_def by (rule provision_ok [OF auth_empty_ok]) (simp_all add: auth_empty_def)
  define u where "u = hd (jm_values (au_users demo_tenant))"
  have one: "jm_values (au_users demo_tenant) = [u]" unfolding u_def by code_simp
  then have u: "u \<in> set (jm_values (au_users demo_tenant))" by simp
  have em: "account u = (to_lower ''ROOT@acme.io'', ''t1'')" unfolding u_def by code_simp
  have other: "(to_lower ''ROOT@acme.io'', ''t1'') \<noteq> (to_lower ''ann@acme.io'', ''t1'')" by code_simp
  have act: "us_isActive u" unfolding u_def by code_simp
  have pw: "us_passwordHash u = hasher_hash demo_kdf ''00'' ''secret''" unfolding u_def by code_simp
  have l: "length (demo_kdf p s) = 64" "\<forall>b \<in> set (demo_kdf p s). b < 256" for p s
    by (simp_all add: demo_kdf_def)
  have ne: "demo_kdf ''bad'' ''00'' \<noteq> demo_kdf ''secret'' ''00''"
    by (simp add: demo_kdf_def replicate_eq_replicate)
  note d = login_decides [OF ok l, where lib = demo_lib and clock = "\<lambda>_. 5" and logId = "''l''" and ip = None]
  have hash: "account u = (to_lower ''ROOT@acme.io'', ''t1'') \<and> us_isActive u \<and> us_passwordHash u = hasher_hash demo_kdf ''00'' ''secret'' \<and>
      ''00'' \<noteq> [] \<and> CHR '':'' \<notin> set ''00''" using em act pw by simp
  note root = d [where email = "''ROOT@acme.io''" and t = "''t1''"]
  note bad = root [where p' = "''bad''", THEN conjunct2, THEN bspec, OF u, THEN spec, THEN spec, THEN mp, OF hash]
    and good = root [where p' = "''secret''", THEN conjunct2, THEN bspec, OF u, THEN spec, THEN spec, THEN mp, OF hash]
  have "\<forall>v \<in> set (jm_values (au_users demo_tenant)). account v = (to_lower ''ann@acme.io'', ''t1'') \<longrightarrow> \<not> us_isActive v"
    using one em other by simp
  from d [where email = "''ann@acme.io''" and t = "''t1''" and p' = "''secret''", THEN conjunct1, THEN mp, OF this] have
    "login demo_lib demo_kdf (\<lambda>_. 5) ''l'' None ''ann@acme.io'' ''t1'' ''secret'' demo_tenant = (demo_tenant, Inl InvalidCredentials)" .
  moreover have "isl (snd (login demo_lib demo_kdf (\<lambda>_. 5) ''l'' None ''ROOT@acme.io'' ''t1'' ''bad'' demo_tenant))"
    using bad ne by auto
  moreover have "\<not> isl (snd (login demo_lib demo_kdf (\<lambda>_. 5) ''l'' None ''ROOT@acme.io'' ''t1'' ''secret'' demo_tenant))"
    using good by auto
  ultimately show ?thesis by blast
qed

text \<open>Registrations race. The uniqueness check and the insertion of \<open>registerUser\<close> are separated by
  the password hash, and nothing is checked again: two overlapping registrations of one e-mail
  address both pass the check and both succeed, leaving two users with the same account, of
  which the lookup that \<open>login\<close> uses only ever finds the first. Two overlapping failed logins
  raise the failure counter by one instead of two.\<close>

theorem registration_race:
  "(let h = hasher_hash demo_kdf ''11'' ''passw0rd'';
        s1 = fst (register_finish demo_lib 1 ''u1'' ''l1'' None h demo_register_dto demo_tenant);
        s2 = fst (register_finish demo_lib 2 ''u2'' ''l2'' None h demo_register_dto s1)
    in register_check demo_register_dto demo_tenant = Inr () \<and>
       map account (drop 1 (jm_values (au_users s2))) = [(''ann@acme.io'', ''t1''), (''ann@acme.io'', ''t1'')] \<and>
       map_option us_id (findByEmailAndTenant ''ann@acme.io'' ''t1'' (au_users s2)) = Some ''u1'' \<and>
       isl (register_check demo_register_dto s1)) \<and>
   (let u = hd (jm_values (au_users demo_tenant));
        s1 = fst (login_finish demo_lib (\<lambda>_. 1) ''l1'' None False u demo_tenant);
        s2 = fst (login_finish demo_lib (\<lambda>_. 2) ''l2'' None False u s1)
    in login_find ''root@acme.io'' ''t1'' demo_tenant = Inr u \<and>
       map us_failedLoginAttempts (jm_values (au_users s2)) = [1])"
  by code_simp

end
