(* ===== verification/Billing.thy ===== *)
theory Billing
  imports Common_Types
begin

text \<open>
  The billing service (services/billing-service/src): chart of accounts, invoices, payments and
  journals in memory, the double-entry ledger service and BillingService. All \<open>await\<close>s of its
  methods are on promises that are already settled, so a request runs as one step. The locale
  \<open>balanced_ledger\<close> is what the billing service relies on when it posts: a post adds one
  balanced journal or none.
\<close>

section \<open>Entities\<close>

record ChartOfAccountEntity =
  ac_id :: string
  ac_tenantId :: string
  ac_accountNumber :: string
  ac_name :: string
  ac_type :: AccountType
  ac_currency :: string
  ac_balanceCents :: int
  ac_isActive :: bool
  ac_createdAt :: instant

record JournalEntryLine =
  jl_id :: string
  jl_accountId :: string
  jl_accountName :: string
  jl_debitCents :: int
  jl_creditCents :: int
  jl_description :: string

datatype ReferenceType = REF_ORDER | REF_INVOICE | REF_PAYMENT | REF_ADJUSTMENT

record JournalTransactionEntity =
  jt_id :: string
  jt_tenantId :: string
  jt_transactionNumber :: string
  jt_referenceType :: ReferenceType
  jt_referenceId :: string
  jt_description :: string
  jt_totalAmountCents :: int
  jt_lines :: "JournalEntryLine list"
  jt_postedAt :: instant

record InvoiceLineItemEntity =
  il_id :: string
  il_description :: string
  il_quantity :: int
  il_unitPriceCents :: int
  il_totalCents :: int

record InvoiceEntity =
  iv_id :: string
  iv_tenantId :: string
  iv_invoiceNumber :: string
  iv_orderId :: string
  iv_customerId :: string
  iv_status :: InvoiceStatus
  iv_lines :: "InvoiceLineItemEntity list"
  iv_subtotalCents :: int
  iv_taxCents :: int
  iv_totalCents :: int
  iv_amountPaidCents :: int
  iv_amountDueCents :: int
  iv_dueDate :: instant
  iv_paidAt :: "instant option"
  iv_createdAt :: instant

record PaymentTransactionEntity =
  pm_id :: string
  pm_tenantId :: string
  pm_invoiceId :: string
  pm_orderId :: string
  pm_amount :: Money
  pm_paymentMethod :: PaymentMethodType
  pm_status :: PaymentStatus
  pm_gatewayTransactionRef :: string
  pm_createdAt :: instant

section \<open>Repository\<close>

record BillingRepository =
  br_accounts :: "(string, ChartOfAccountEntity) jsmap"
  br_journals :: "JournalTransactionEntity list"
  br_invoices :: "(string, InvoiceEntity) jsmap"
  br_payments :: "(string, PaymentTransactionEntity) jsmap"

definition default_accounts :: "(string \<times> string \<times> AccountType) list" where
  "default_accounts =
     [(''1010'', ''Cash and Cash Equivalents'', AccountType.ASSET_CASH),
      (''1200'', ''Accounts Receivable'', AccountType.ASSET_RECEIVABLES),
      (''1300'', ''Inventory Asset'', AccountType.ASSET_INVENTORY),
      (''2010'', ''Accounts Payable'', AccountType.LIABILITY_PAYABLES),
      (''4010'', ''Supply Chain Fulfillment Revenue'', AccountType.REVENUE_FULFILLMENT),
      (''5010'', ''Cost of Goods Sold (COGS)'', AccountType.EXPENSE_COGS)]"

definition seedDefaultAccounts ::
  "instant \<Rightarrow> (nat \<Rightarrow> string) \<Rightarrow> string \<Rightarrow> BillingRepository \<Rightarrow> BillingRepository" where
  "seedDefaultAccounts now uids t r =
     r\<lparr> br_accounts := fold (\<lambda>(i, num, name, ty).
          jm_set (uids i) \<lparr> ac_id = uids i, ac_tenantId = t, ac_accountNumber = num, ac_name = name,
            ac_type = ty, ac_currency = ''USD'', ac_balanceCents = 0, ac_isActive = True,
            ac_createdAt = now \<rparr>) (enumerate 0 default_accounts) (br_accounts r) \<rparr>"

definition billing_init :: "instant \<Rightarrow> (nat \<Rightarrow> string) \<Rightarrow> BillingRepository" where
  "billing_init now uids = seedDefaultAccounts now uids ''global-tenant''
     \<lparr> br_accounts = [], br_journals = [], br_invoices = [], br_payments = [] \<rparr>"

definition listAccounts :: "string \<Rightarrow> BillingRepository \<Rightarrow> ChartOfAccountEntity list" where
  "listAccounts t r =
     filter (\<lambda>a. ac_tenantId a = t \<or> ac_tenantId a = ''global-tenant'') (jm_values (br_accounts r))"

definition recordJournalTransaction ::
  "string \<Rightarrow> JournalTransactionEntity \<Rightarrow> BillingRepository \<Rightarrow> BillingRepository \<times> JournalTransactionEntity" where
  "recordJournalTransaction uid tx r =
     (let e = tx\<lparr> jt_id := uid \<rparr> in (r\<lparr> br_journals := br_journals r @ [e] \<rparr>, e))"

definition listJournals :: "string \<Rightarrow> BillingRepository \<Rightarrow> JournalTransactionEntity list" where
  "listJournals t r = filter (\<lambda>j. jt_tenantId j = t) (br_journals r)"

definition repo_createInvoice ::
  "instant \<Rightarrow> string \<Rightarrow> InvoiceEntity \<Rightarrow> BillingRepository \<Rightarrow> BillingRepository \<times> InvoiceEntity" where
  "repo_createInvoice now uid ivc r =
     (let e = ivc\<lparr> iv_id := uid, iv_createdAt := now \<rparr>
      in (r\<lparr> br_invoices := jm_set uid e (br_invoices r) \<rparr>, e))"

definition findInvoiceById :: "string \<Rightarrow> BillingRepository \<Rightarrow> InvoiceEntity option" where
  "findInvoiceById i r = jm_get (br_invoices r) i"

definition repo_listInvoices :: "string \<Rightarrow> BillingRepository \<Rightarrow> InvoiceEntity list" where
  "repo_listInvoices t r = filter (\<lambda>i. iv_tenantId i = t) (jm_values (br_invoices r))"

definition recordPayment ::
  "instant \<Rightarrow> string \<Rightarrow> PaymentTransactionEntity \<Rightarrow> BillingRepository \<Rightarrow> BillingRepository \<times> PaymentTransactionEntity" where
  "recordPayment now uid pay r =
     (let e = pay\<lparr> pm_id := uid, pm_createdAt := now \<rparr>
      in (r\<lparr> br_payments := jm_set uid e (br_payments r) \<rparr>, e))"

section \<open>The ledger service\<close>

record PostLine =
  pl_accountId :: string
  pl_accountName :: string
  pl_debitCents :: int
  pl_creditCents :: int
  pl_description :: string

definition format_line :: "string \<Rightarrow> PostLine \<Rightarrow> JournalEntryLine" where
  "format_line uid l =
     \<lparr> jl_id = uid, jl_accountId = pl_accountId l, jl_accountName = pl_accountName l,
       jl_debitCents = pl_debitCents l, jl_creditCents = pl_creditCents l,
       jl_description = pl_description l \<rparr>"

definition tx_number :: "instant \<Rightarrow> string \<Rightarrow> string" where
  "tx_number now token = ''TXN-'' @ to_upper (base_string 36 (nat now)) @ ''-'' @ to_upper token"

definition postJournalEntry ::
  "instant \<Rightarrow> (nat \<Rightarrow> string) \<Rightarrow> string \<Rightarrow> string \<Rightarrow> ReferenceType \<Rightarrow> string \<Rightarrow> string \<Rightarrow> PostLine list
     \<Rightarrow> BillingRepository \<Rightarrow> BillingRepository \<times> JournalTransactionEntity outcome" where
  "postJournalEntry now uids token t refType refId descr ls r =
     (let totalDebits = foldl (\<lambda>acc l. acc + pl_debitCents l) 0 ls;
          totalCredits = foldl (\<lambda>acc l. acc + pl_creditCents l) 0 ls;
          formatted = map (\<lambda>(i, l). format_line (uids i) l) (enumerate 0 ls)
      in if totalDebits \<noteq> totalCredits
         then (r, Inl (UnbalancedLedgerException totalDebits totalCredits))
         else let (r', j) = recordJournalTransaction (uids (length ls))
                    \<lparr> jt_id = [], jt_tenantId = t, jt_transactionNumber = tx_number now token,
                      jt_referenceType = refType, jt_referenceId = refId, jt_description = descr,
                      jt_totalAmountCents = totalDebits, jt_lines = formatted, jt_postedAt = now \<rparr> r
              in (r', Inr j))"

section \<open>The billing service\<close>

record InvoiceItemDTO =
  ii_description :: string
  ii_quantity :: int
  ii_unitPriceCents :: int

record CreateInvoiceDTO =
  ci_tenantId :: string
  ci_orderId :: string
  ci_customerId :: string
  ci_items :: "InvoiceItemDTO list"
  ci_subtotalCents :: int
  ci_taxCents :: int
  ci_dueDateDays :: int

record ProcessPaymentDTO =
  pp_tenantId :: string
  pp_invoiceId :: string
  pp_orderId :: string
  pp_amountCents :: int
  pp_currency :: string
  pp_paymentMethod :: PaymentMethodType

text \<open>\<open>accounts.find(a => a.accountNumber === n) || accounts[k]\<close>; undefined past the end.\<close>

definition pick_account :: "string \<Rightarrow> nat \<Rightarrow> ChartOfAccountEntity list \<Rightarrow> ChartOfAccountEntity option" where
  "pick_account n k as =
     (case find (\<lambda>a. ac_accountNumber a = n) as of
        Some a \<Rightarrow> Some a
      | None \<Rightarrow> if k < length as then Some (as ! k) else None)"

definition post_pair ::
  "instant \<Rightarrow> (nat \<Rightarrow> string) \<Rightarrow> string \<Rightarrow> string \<Rightarrow> ReferenceType \<Rightarrow> string \<Rightarrow> string \<Rightarrow> int
     \<Rightarrow> ChartOfAccountEntity option \<Rightarrow> string \<Rightarrow> ChartOfAccountEntity option \<Rightarrow> string
     \<Rightarrow> BillingRepository \<Rightarrow> BillingRepository \<times> JournalTransactionEntity outcome" where
  "post_pair now uids token t refType refId descr amount debit dtext credit ctext r =
     (case (debit, credit) of
        (Some d, Some c) \<Rightarrow> postJournalEntry now uids token t refType refId descr
          [\<lparr> pl_accountId = ac_id d, pl_accountName = ac_name d, pl_debitCents = amount,
             pl_creditCents = 0, pl_description = dtext \<rparr>,
           \<lparr> pl_accountId = ac_id c, pl_accountName = ac_name c, pl_debitCents = 0,
             pl_creditCents = amount, pl_description = ctext \<rparr>] r
      | _ \<Rightarrow> (r, Inl (TypeError ''Cannot read properties of undefined'')))"

definition invoice_lines :: "(nat \<Rightarrow> string) \<Rightarrow> InvoiceItemDTO list \<Rightarrow> InvoiceLineItemEntity list" where
  "invoice_lines uids items =
     map (\<lambda>(i, it). \<lparr> il_id = uids i, il_description = ii_description it,
       il_quantity = ii_quantity it, il_unitPriceCents = ii_unitPriceCents it,
       il_totalCents = ii_quantity it * ii_unitPriceCents it \<rparr>) (enumerate 0 items)"

definition issued_invoice :: "instant \<Rightarrow> (nat \<Rightarrow> string) \<Rightarrow> string \<Rightarrow> CreateInvoiceDTO \<Rightarrow> InvoiceEntity" where
  "issued_invoice now uids invoiceNumber dto =
     \<lparr> iv_id = [], iv_tenantId = ci_tenantId dto, iv_invoiceNumber = invoiceNumber,
       iv_orderId = ci_orderId dto, iv_customerId = ci_customerId dto,
       iv_status = InvoiceStatus.ISSUED, iv_lines = invoice_lines uids (ci_items dto),
       iv_subtotalCents = ci_subtotalCents dto, iv_taxCents = ci_taxCents dto,
       iv_totalCents = ci_subtotalCents dto + ci_taxCents dto, iv_amountPaidCents = 0,
       iv_amountDueCents = ci_subtotalCents dto + ci_taxCents dto,
       iv_dueDate = now + ci_dueDateDays dto * 24 * 60 * 60 * 1000,
       iv_paidAt = None, iv_createdAt = 0 \<rparr>"

definition createInvoice ::
  "instant \<Rightarrow> (nat \<Rightarrow> string) \<Rightarrow> string \<Rightarrow> (nat \<Rightarrow> string) \<Rightarrow> string \<Rightarrow> CreateInvoiceDTO
     \<Rightarrow> BillingRepository \<Rightarrow> BillingRepository \<times> InvoiceEntity outcome" where
  "createInvoice now uids invoiceNumber juids token dto r =
     (let (r1, ivc) = repo_createInvoice now (uids (length (ci_items dto)))
            (issued_invoice now uids invoiceNumber dto) r;
          accounts = listAccounts (ci_tenantId dto) r1
      in case post_pair now juids token (ci_tenantId dto) REF_INVOICE (iv_id ivc)
                (''Invoice '' @ invoiceNumber @ '' issued for Order '' @ ci_orderId dto)
                (ci_subtotalCents dto + ci_taxCents dto)
                (pick_account ''1200'' 0 accounts) ''Accounts Receivable Debit''
                (pick_account ''4010'' 1 accounts) ''Fulfillment Revenue Credit'' r1 of
           (r2, Inl e) \<Rightarrow> (r2, Inl e)
         | (r2, Inr _) \<Rightarrow> (r2, Inr ivc))"

definition apply_payment :: "instant \<Rightarrow> int \<Rightarrow> InvoiceEntity \<Rightarrow> InvoiceEntity" where
  "apply_payment now amount ivc =
     (let paid = iv_amountPaidCents ivc + amount;
          due = max 0 (iv_totalCents ivc - paid);
          ivc' = ivc\<lparr> iv_amountPaidCents := paid, iv_amountDueCents := due \<rparr>
      in if due = 0 then ivc'\<lparr> iv_status := InvoiceStatus.PAID, iv_paidAt := Some now \<rparr>
         else ivc'\<lparr> iv_status := InvoiceStatus.PARTIALLY_PAID \<rparr>)"

definition processPayment ::
  "instant \<Rightarrow> string \<Rightarrow> string \<Rightarrow> (nat \<Rightarrow> string) \<Rightarrow> string \<Rightarrow> ProcessPaymentDTO \<Rightarrow> BillingRepository
     \<Rightarrow> BillingRepository \<times> (PaymentTransactionEntity \<times> InvoiceEntity) outcome" where
  "processPayment now uid payToken juids token dto r =
     (case findInvoiceById (pp_invoiceId dto) r of
        None \<Rightarrow> (r, Inl (NotFoundException ''Invoice'' (Some (pp_invoiceId dto))))
      | Some ivc \<Rightarrow>
          let ref = ''PAY-'' @ to_upper (base_string 36 (nat now)) @ ''-'' @ to_upper payToken;
              (r1, pay) = recordPayment now uid
                \<lparr> pm_id = [], pm_tenantId = pp_tenantId dto, pm_invoiceId = pp_invoiceId dto,
                  pm_orderId = pp_orderId dto,
                  pm_amount = \<lparr> m_amount = pp_amountCents dto, m_currency = pp_currency dto \<rparr>,
                  pm_paymentMethod = pp_paymentMethod dto, pm_status = PaymentStatus.CAPTURED,
                  pm_gatewayTransactionRef = ref, pm_createdAt = 0 \<rparr> r;
              ivc' = apply_payment now (pp_amountCents dto) ivc;
              r2 = r1\<lparr> br_invoices := jm_set (pp_invoiceId dto) ivc' (br_invoices r1) \<rparr>;
              accounts = listAccounts (pp_tenantId dto) r2
          in case post_pair now juids token (pp_tenantId dto) REF_PAYMENT (pm_id pay)
                    (''Payment captured for Invoice '' @ iv_invoiceNumber ivc') (pp_amountCents dto)
                    (pick_account ''1010'' 0 accounts) ''Cash Inflow Debit''
                    (pick_account ''1200'' 1 accounts) ''Accounts Receivable Credit'' r2 of
               (r3, Inl e) \<Rightarrow> (r3, Inl e)
             | (r3, Inr _) \<Rightarrow> (r3, Inr (pay, ivc')))"

definition listInvoices :: "string \<Rightarrow> BillingRepository \<Rightarrow> InvoiceEntity list" where
  "listInvoices t r = repo_listInvoices t r"

definition listLedger :: "string \<Rightarrow> BillingRepository \<Rightarrow> JournalTransactionEntity list" where
  "listLedger t r = listJournals t r"

section \<open>The ledger contract\<close>

definition balanced :: "JournalTransactionEntity \<Rightarrow> bool" where
  "balanced j \<longleftrightarrow> (\<Sum>l \<leftarrow> jt_lines j. jl_debitCents l) = (\<Sum>l \<leftarrow> jt_lines j. jl_creditCents l) \<and>
     jt_totalAmountCents j = (\<Sum>l \<leftarrow> jt_lines j. jl_debitCents l)"

definition account_balance :: "string \<Rightarrow> JournalTransactionEntity list \<Rightarrow> int" where
  "account_balance a js =
     (\<Sum>j \<leftarrow> js. \<Sum>l \<leftarrow> jt_lines j. if jl_accountId l = a then jl_debitCents l - jl_creditCents l else 0)"

locale balanced_ledger =
  fixes journals :: "'s \<Rightarrow> JournalTransactionEntity list" and post :: "'p \<Rightarrow> 's \<Rightarrow> 's"
  assumes post_balanced:
    "journals (post p s) = journals s \<or> (\<exists>j. journals (post p s) = journals s @ [j] \<and> balanced j)"
begin

lemma posts_balanced:
  "\<forall>j \<in> set (journals s). balanced j \<Longrightarrow> \<forall>j \<in> set (journals (fold post ps s)). balanced j"
proof (induction ps arbitrary: s)
  case (Cons p ps)
  have "\<forall>j \<in> set (journals (post p s)). balanced j"
    using Cons.prems post_balanced [of p s] by auto
  from Cons.IH [OF this] show ?case by simp
qed simp

lemma posts_append: "\<exists>js. journals (fold post ps s) = journals s @ js"
proof (induction ps arbitrary: s)
  case (Cons p ps)
  obtain js where "journals (fold post ps (post p s)) = journals (post p s) @ js" using Cons.IH by blast
  then show ?case using post_balanced [of p s] by auto
qed simp

end

lemma foldl_sum: "foldl (\<lambda>acc l. acc + f l) a ls = a + (\<Sum>l \<leftarrow> ls. f l)" for f :: "'a \<Rightarrow> int"
  by (induction ls arbitrary: a) auto

lemma formatted_sums:
  "(\<Sum>l \<leftarrow> map (\<lambda>(i, l). format_line (uids i) l) (enumerate n ls). jl_debitCents l) = (\<Sum>l \<leftarrow> ls. pl_debitCents l)"
  "(\<Sum>l \<leftarrow> map (\<lambda>(i, l). format_line (uids i) l) (enumerate n ls). jl_creditCents l) = (\<Sum>l \<leftarrow> ls. pl_creditCents l)"
  by (induction ls arbitrary: n) (auto simp: format_line_def)

lemma post_cases:
  "postJournalEntry now uids token t rt ri d ls r =
     (if (\<Sum>l \<leftarrow> ls. pl_debitCents l) \<noteq> (\<Sum>l \<leftarrow> ls. pl_creditCents l)
      then (r, Inl (UnbalancedLedgerException (\<Sum>l \<leftarrow> ls. pl_debitCents l) (\<Sum>l \<leftarrow> ls. pl_creditCents l)))
      else let j = \<lparr> jt_id = uids (length ls), jt_tenantId = t, jt_transactionNumber = tx_number now token,
                 jt_referenceType = rt, jt_referenceId = ri, jt_description = d,
                 jt_totalAmountCents = (\<Sum>l \<leftarrow> ls. pl_debitCents l),
                 jt_lines = map (\<lambda>(i, l). format_line (uids i) l) (enumerate 0 ls), jt_postedAt = now \<rparr>
           in (r\<lparr> br_journals := br_journals r @ [j] \<rparr>, Inr j))"
  by (simp add: postJournalEntry_def foldl_sum recordJournalTransaction_def Let_def)

datatype post_request =
  PostRequest instant "nat \<Rightarrow> string" string string ReferenceType string string "PostLine list"

fun post_exec :: "post_request \<Rightarrow> BillingRepository \<Rightarrow> BillingRepository" where
  "post_exec (PostRequest now uids token t rt ri d ls) r = fst (postJournalEntry now uids token t rt ri d ls r)"

lemma balanced_posted:
  "(\<Sum>l \<leftarrow> ls. pl_debitCents l) = (\<Sum>l \<leftarrow> ls. pl_creditCents l) \<Longrightarrow> x' = (\<Sum>l \<leftarrow> ls. pl_creditCents l) \<Longrightarrow>
    balanced \<lparr> jt_id = i, jt_tenantId = t, jt_transactionNumber = x, jt_referenceType = rt, jt_referenceId = ri,
      jt_description = d, jt_totalAmountCents = x',
      jt_lines = map (\<lambda>(i, l). format_line (uids i) l) (enumerate n ls), jt_postedAt = now \<rparr>"
  using formatted_sums [of uids n ls] by (simp add: balanced_def)

interpretation ledger: balanced_ledger br_journals post_exec
proof
  fix p s
  show "br_journals (post_exec p s) = br_journals s \<or>
      (\<exists>j. br_journals (post_exec p s) = br_journals s @ [j] \<and> balanced j)"
    by (cases p) (auto simp: post_cases Let_def balanced_posted)
qed

section \<open>Receivables\<close>

text \<open>
  The accounts never change after construction, and the global ones come first in every
  tenant's list, so the same three accounts take all postings.
\<close>

definition has_accounts :: "string \<Rightarrow> string \<Rightarrow> string \<Rightarrow> BillingRepository \<Rightarrow> bool" where
  "has_accounts cash ar rvn r \<longleftrightarrow>
     (\<forall>t. map_option ac_id (pick_account ''1010'' 0 (listAccounts t r)) = Some cash \<and>
          map_option ac_id (pick_account ''1200'' 0 (listAccounts t r)) = Some ar \<and>
          map_option ac_id (pick_account ''1200'' 1 (listAccounts t r)) = Some ar \<and>
          map_option ac_id (pick_account ''4010'' 1 (listAccounts t r)) = Some rvn)"

lemma has_accounts_frame: "br_accounts r' = br_accounts r \<Longrightarrow> has_accounts c a v r' = has_accounts c a v r"
  by (simp add: has_accounts_def listAccounts_def)

lemma has_accountsE:
  assumes "has_accounts cash ar rvn r"
  obtains c a a' v where
    "pick_account ''1010'' 0 (listAccounts t r) = Some c" "ac_id c = cash"
    "pick_account ''1200'' 0 (listAccounts t r) = Some a" "ac_id a = ar"
    "pick_account ''1200'' 1 (listAccounts t r) = Some a'" "ac_id a' = ar"
    "pick_account ''4010'' 1 (listAccounts t r) = Some v" "ac_id v = rvn"
  using spec [OF assms [unfolded has_accounts_def], of t] by (auto simp: map_option_eq_Some)

lemma has_accounts_append [simp]:
  "has_accounts c a v (r\<lparr> br_journals := js \<rparr>) = has_accounts c a v r"
  by (rule has_accounts_frame) simp

lemma init_accounts:
  assumes "inj uids"
  shows "has_accounts (uids 0) (uids 1) (uids 4) (billing_init now uids)"
proof -
  let ?a = "\<lambda>i num name ty. \<lparr> ac_id = uids i, ac_tenantId = ''global-tenant'', ac_accountNumber = num,
    ac_name = name, ac_type = ty, ac_currency = ''USD'', ac_balanceCents = 0, ac_isActive = True, ac_createdAt = now \<rparr>"
  have "jm_values (br_accounts (billing_init now uids)) =
      map (\<lambda>(i, num, name, ty). ?a i num name ty) (enumerate 0 default_accounts)"
    using inj_eq [OF assms] by (simp add: billing_init_def seedDefaultAccounts_def default_accounts_def jm_values_def)
  then show ?thesis
    by (simp add: has_accounts_def listAccounts_def default_accounts_def pick_account_def eval_nat_numeral)
qed

definition invoice_ok :: "InvoiceEntity \<Rightarrow> bool" where
  "invoice_ok i \<longleftrightarrow> iv_totalCents i = iv_subtotalCents i + iv_taxCents i \<and> 0 < iv_totalCents i \<and>
     0 \<le> iv_amountPaidCents i \<and> iv_amountDueCents i = max 0 (iv_totalCents i - iv_amountPaidCents i) \<and>
     iv_status i = (if iv_amountPaidCents i = 0 then InvoiceStatus.ISSUED
                    else if iv_amountDueCents i = 0 then InvoiceStatus.PAID
                    else InvoiceStatus.PARTIALLY_PAID)"

definition paid_for :: "string \<Rightarrow> (string, PaymentTransactionEntity) jsmap \<Rightarrow> int" where
  "paid_for i m = (\<Sum>p \<leftarrow> jm_values m. if pm_invoiceId p = i then m_amount (pm_amount p) else 0)"

definition open_receivables :: "BillingRepository \<Rightarrow> int" where
  "open_receivables r = (\<Sum>i \<leftarrow> jm_values (br_invoices r). iv_totalCents i - iv_amountPaidCents i)"

definition billing_ok :: "string \<Rightarrow> string \<Rightarrow> string \<Rightarrow> BillingRepository \<Rightarrow> bool" where
  "billing_ok cash ar rvn r \<longleftrightarrow>
     has_accounts cash ar rvn r \<and> cash \<noteq> ar \<and> ar \<noteq> rvn \<and> keyed iv_id (br_invoices r) \<and>
     (\<forall>j \<in> set (br_journals r). balanced j) \<and>
     (\<forall>i \<in> set (jm_values (br_invoices r)). invoice_ok i \<and> iv_amountPaidCents i = paid_for (iv_id i) (br_payments r)) \<and>
     (\<forall>p \<in> set (jm_values (br_payments r)). jm_get (br_invoices r) (pm_invoiceId p) \<noteq> None) \<and>
     account_balance ar (br_journals r) = open_receivables r"

lemma post_pair_ok:
  assumes "debit = Some d" and "credit = Some c"
  shows "\<exists>j. post_pair now uids token t rt ri de amount debit dt credit ct r =
      (r\<lparr> br_journals := br_journals r @ [j] \<rparr>, Inr j) \<and> balanced j \<and>
    account_balance a [j] = (if ac_id d = a then amount else 0) - (if ac_id c = a then amount else 0)"
  using assms
  by (auto simp: post_pair_def post_cases Let_def account_balance_def format_line_def balanced_def)

lemma account_balance_append: "account_balance a (js @ ks) = account_balance a js + account_balance a ks"
  by (simp add: account_balance_def)

lemma apply_payment_ok:
  assumes "invoice_ok i" and "0 < a"
  shows "invoice_ok (apply_payment now a i) \<and> iv_id (apply_payment now a i) = iv_id i \<and>
    iv_totalCents (apply_payment now a i) = iv_totalCents i \<and>
    iv_amountPaidCents (apply_payment now a i) = iv_amountPaidCents i + a"
  using assms by (auto simp: invoice_ok_def apply_payment_def Let_def)

lemma createInvoice_ok:
  assumes ok: "billing_ok cash ar rvn r" and fresh: "jm_get (br_invoices r) (uids (length (ci_items dto))) = None"
    and pos: "0 < ci_subtotalCents dto" "0 \<le> ci_taxCents dto"
  shows "\<exists>r' i. createInvoice now uids num juids token dto r = (r', Inr i) \<and> billing_ok cash ar rvn r' \<and>
    iv_status i = InvoiceStatus.ISSUED \<and> iv_totalCents i = ci_subtotalCents dto + ci_taxCents dto \<and>
    findInvoiceById (iv_id i) r' = Some i"
proof -
  define u where "u = uids (length (ci_items dto))"
  define i where "i = (issued_invoice now uids num dto)\<lparr> iv_id := u, iv_createdAt := now \<rparr>"
  define r1 where "r1 = r\<lparr> br_invoices := jm_set u i (br_invoices r) \<rparr>"
  have r1: "repo_createInvoice now u (issued_invoice now uids num dto) r = (r1, i)"
    by (simp add: repo_createInvoice_def i_def r1_def Let_def)
  have i: "r1 = r\<lparr> br_invoices := jm_set u i (br_invoices r) \<rparr>" "iv_id i = u" "iv_status i = InvoiceStatus.ISSUED"
    "iv_totalCents i = ci_subtotalCents dto + ci_taxCents dto" "iv_amountPaidCents i = 0" "invoice_ok i"
    using pos by (simp_all add: i_def r1_def issued_invoice_def invoice_ok_def)
  have acc: "has_accounts cash ar rvn r1" 
    using ok has_accounts_frame [of r1 r] i(1) by (simp add: billing_ok_def)
  then obtain d c where dc: "pick_account ''1200'' 0 (listAccounts (ci_tenantId dto) r1) = Some d" "ac_id d = ar"
    "pick_account ''4010'' 1 (listAccounts (ci_tenantId dto) r1) = Some c" "ac_id c = rvn"
    by (rule has_accountsE)
  obtain j where j: "post_pair now juids token (ci_tenantId dto) REF_INVOICE (iv_id i)
        (''Invoice '' @ num @ '' issued for Order '' @ ci_orderId dto) (ci_subtotalCents dto + ci_taxCents dto)
        (Some d) ''Accounts Receivable Debit'' (Some c) ''Fulfillment Revenue Credit'' r1 =
      (r1\<lparr> br_journals := br_journals r1 @ [j] \<rparr>, Inr j)" "balanced j"
    "account_balance ar [j] = ci_subtotalCents dto + ci_taxCents dto - 0"
  proof -
    have "ar \<noteq> rvn" using ok by (simp add: billing_ok_def)
    with post_pair_ok [OF refl [of "Some d"] refl [of "Some c"], where a = ar] dc(2,4) that show ?thesis
      by fastforce
  qed
  let ?r' = "r1\<lparr> br_journals := br_journals r1 @ [j] \<rparr>"
  have res: "createInvoice now uids num juids token dto r = (?r', Inr i)"
    unfolding createInvoice_def Let_def using r1 j(1) dc by (simp add: u_def)
  have new: "set (jm_values (jm_set u i (br_invoices r))) = insert i (set (jm_values (br_invoices r)))"
    using fresh by (simp add: u_def jm_set_append jm_values_def)
  have none: "paid_for u (br_payments r) = 0"
  proof -
    have "pm_invoiceId p \<noteq> u" if "p \<in> set (jm_values (br_payments r))" for p
      using ok fresh that by (auto simp: billing_ok_def u_def)
    then have "map (\<lambda>p. if pm_invoiceId p = u then m_amount (pm_amount p) else 0) (jm_values (br_payments r)) =
        map (\<lambda>_. 0) (jm_values (br_payments r))" by (intro map_cong) auto
    then show ?thesis unfolding paid_for_def by (simp only: sum_list_0)
  qed
  have "open_receivables ?r' = open_receivables r + (ci_subtotalCents dto + ci_taxCents dto)"
    unfolding open_receivables_def i(1)
    using sum_values_new [OF fresh, where f = "\<lambda>i. iv_totalCents i - iv_amountPaidCents i"] i(4,5)
    by (simp add: u_def)
  moreover have "jm_get (br_invoices r) u = None" using fresh by (simp add: u_def)
  ultimately have "billing_ok cash ar rvn ?r'"
    using ok i acc j(2,3) none unfolding billing_ok_def
    by (auto simp: new account_balance_append intro!: keyed_put)
  with res i show ?thesis by (auto simp: findInvoiceById_def)
qed

lemma paid_for_new:
  "jm_get m u = None \<Longrightarrow> paid_for i (jm_set u p m) =
     paid_for i m + (if pm_invoiceId p = i then m_amount (pm_amount p) else 0)"
  unfolding paid_for_def by (rule sum_values_new)

lemma processPayment_ok:
  assumes ok: "billing_ok cash ar rvn r" and inv: "findInvoiceById (pp_invoiceId dto) r = Some ivc"
    and fresh: "jm_get (br_payments r) uid = None" and pos: "0 < pp_amountCents dto"
  shows "\<exists>r' p. processPayment now uid ptok juids token dto r = (r', Inr (p, apply_payment now (pp_amountCents dto) ivc)) \<and>
    billing_ok cash ar rvn r' \<and> pm_status p = PaymentStatus.CAPTURED \<and> jm_get (br_payments r') uid = Some p \<and>
    findInvoiceById (pp_invoiceId dto) r' = Some (apply_payment now (pp_amountCents dto) ivc)"
proof -
  let ?i = "pp_invoiceId dto" and ?a = "pp_amountCents dto"
  define p where "p = \<lparr> pm_id = uid, pm_tenantId = pp_tenantId dto, pm_invoiceId = ?i, pm_orderId = pp_orderId dto,
      pm_amount = \<lparr> m_amount = ?a, m_currency = pp_currency dto \<rparr>, pm_paymentMethod = pp_paymentMethod dto,
      pm_status = PaymentStatus.CAPTURED,
      pm_gatewayTransactionRef = ''PAY-'' @ to_upper (base_string 36 (nat now)) @ ''-'' @ to_upper ptok,
      pm_createdAt = now \<rparr>"
  define ivd where "ivd = apply_payment now ?a ivc"
  define r2 where "r2 = r\<lparr> br_payments := jm_set uid p (br_payments r), br_invoices := jm_set ?i ivd (br_invoices r) \<rparr>"
  have got: "jm_get (br_invoices r) ?i = Some ivc" using inv by (simp add: findInvoiceById_def)
  have keyed: "keyed iv_id (br_invoices r)" using ok by (simp add: billing_ok_def)
  have old: "invoice_ok ivc" "iv_amountPaidCents ivc = paid_for ?i (br_payments r)" "iv_id ivc = ?i"
    using ok jm_get_value [OF got] keyed_get [OF keyed got] by (auto simp: billing_ok_def)
  note d = apply_payment_ok [OF old(1) pos, of now, folded ivd_def]
  have acc: "has_accounts cash ar rvn r2" using ok has_accounts_frame [of r2 r] by (simp add: billing_ok_def r2_def)
  then obtain c a where ca: "pick_account ''1010'' 0 (listAccounts (pp_tenantId dto) r2) = Some c" "ac_id c = cash"
    "pick_account ''1200'' 1 (listAccounts (pp_tenantId dto) r2) = Some a" "ac_id a = ar"
    by (rule has_accountsE)
  obtain j where j: "post_pair now juids token (pp_tenantId dto) REF_PAYMENT uid
        (''Payment captured for Invoice '' @ iv_invoiceNumber ivd) ?a
        (Some c) ''Cash Inflow Debit'' (Some a) ''Accounts Receivable Credit'' r2 =
      (r2\<lparr> br_journals := br_journals r2 @ [j] \<rparr>, Inr j)" "balanced j" "account_balance ar [j] = 0 - ?a"
  proof -
    have "cash \<noteq> ar" using ok by (simp add: billing_ok_def)
    with post_pair_ok [OF refl [of "Some c"] refl [of "Some a"], where a = ar] ca(2,4) that show ?thesis
      by fastforce
  qed
  let ?r' = "r2\<lparr> br_journals := br_journals r2 @ [j] \<rparr>"
  have res: "processPayment now uid ptok juids token dto r = (?r', Inr (p, ivd))"
    unfolding processPayment_def Let_def inv using j(1) ca(1,3)
    by (simp add: recordPayment_def p_def r2_def ivd_def Let_def)
  have inv': "keyed iv_id (br_invoices r2)" using keyed d old(3) by (auto simp: r2_def)
  have "open_receivables ?r' = open_receivables r - ?a"
    using sum_values_set [OF keyed_ok [OF keyed] got, where f = "\<lambda>i. iv_totalCents i - iv_amountPaidCents i"] d
    by (simp add: open_receivables_def r2_def)
  moreover have "\<forall>x \<in> set (jm_values (br_invoices r2)).
      invoice_ok x \<and> iv_amountPaidCents x = paid_for (iv_id x) (br_payments r2)"
    using ok d old keyed_values_set [OF keyed, of ivd ?i]
    by (auto simp: r2_def billing_ok_def paid_for_new [OF fresh] p_def)
  moreover have "\<forall>x \<in> set (jm_values (br_payments r2)). jm_get (br_invoices r2) (pm_invoiceId x) \<noteq> None"
    using ok by (auto simp: r2_def billing_ok_def p_def dest!: jm_set_value)
  ultimately have "billing_ok cash ar rvn ?r'"
    using ok acc inv' j(2,3) unfolding billing_ok_def
    by (auto simp: account_balance_append r2_def)
  with res show ?thesis by (auto simp: findInvoiceById_def r2_def p_def ivd_def)
qed

section \<open>Every sequence of requests\<close>

datatype billing_request =
  NewInvoice instant "nat \<Rightarrow> string" string "nat \<Rightarrow> string" string CreateInvoiceDTO
| Payment instant string string "nat \<Rightarrow> string" string ProcessPaymentDTO

fun billing_exec :: "billing_request \<Rightarrow> BillingRepository \<Rightarrow> BillingRepository" where
  "billing_exec (NewInvoice now uids num juids token dto) r = fst (createInvoice now uids num juids token dto r)"
| "billing_exec (Payment now uid ptok juids token dto) r = fst (processPayment now uid ptok juids token dto r)"

text \<open>
  What the request schemas check (positive amounts, tax not negative), and that the uuid of a
  new entity is not in use.
\<close>

fun request_ok :: "billing_request \<Rightarrow> BillingRepository \<Rightarrow> bool" where
  "request_ok (NewInvoice now uids num juids token dto) r \<longleftrightarrow>
     0 < ci_subtotalCents dto \<and> 0 \<le> ci_taxCents dto \<and>
     jm_get (br_invoices r) (uids (length (ci_items dto))) = None"
| "request_ok (Payment now uid ptok juids token dto) r \<longleftrightarrow>
     0 < pp_amountCents dto \<and> jm_get (br_payments r) uid = None"

fun billing_run :: "billing_request list \<Rightarrow> BillingRepository \<Rightarrow> BillingRepository" where
  "billing_run [] r = r"
| "billing_run (q # qs) r = billing_run qs (billing_exec q r)"

fun requests_ok :: "billing_request list \<Rightarrow> BillingRepository \<Rightarrow> bool" where
  "requests_ok [] r \<longleftrightarrow> True"
| "requests_ok (q # qs) r \<longleftrightarrow> request_ok q r \<and> requests_ok qs (billing_exec q r)"

lemma billing_exec_ok: "billing_ok c a v r \<Longrightarrow> request_ok q r \<Longrightarrow> billing_ok c a v (billing_exec q r)"
proof (cases q)
  case (NewInvoice now uids num juids token dto)
  assume "billing_ok c a v r" "request_ok q r"
  with NewInvoice createInvoice_ok [of c a v r uids dto now num juids token] show ?thesis by auto
next
  case (Payment now uid ptok juids token dto)
  assume ok: "billing_ok c a v r" "request_ok q r"
  show ?thesis
  proof (cases "findInvoiceById (pp_invoiceId dto) r")
    case None
    with ok(1) Payment show ?thesis by (simp add: processPayment_def)
  next
    case (Some ivc)
    from processPayment_ok [OF ok(1) Some, of uid now ptok juids token] ok(2) Payment show ?thesis by auto
  qed
qed

lemma billing_run_ok: "billing_ok c a v r \<Longrightarrow> requests_ok qs r \<Longrightarrow> billing_ok c a v (billing_run qs r)"
  by (induction qs arbitrary: r) (auto intro: billing_exec_ok)

lemma init_ok: "inj uids \<Longrightarrow> billing_ok (uids 0) (uids 1) (uids 4) (billing_init now uids)"
  using init_accounts [of uids now]
  by (simp add: billing_ok_def inj_eq billing_init_def seedDefaultAccounts_def open_receivables_def account_balance_def)

text \<open>C6: Whatever invoices are issued and payments taken, in any order, from the seeded chart of
  accounts: every journal is balanced; the balance of account 1200 (Accounts Receivable) in the
  ledger is the sum over the invoices of what is billed and not yet paid; every invoice has paid
  exactly the sum of its recorded payments, its amount due is the rest cut off at zero, and its
  status is ISSUED before the first payment, PAID when nothing is due, PARTIALLY_PAID otherwise.\<close>

theorem receivables_match_ledger:
  assumes "inj uids" and "requests_ok qs (billing_init now uids)"
  shows "let r = billing_run qs (billing_init now uids) in
    (\<forall>j \<in> set (br_journals r). balanced j) \<and>
    account_balance (uids 1) (br_journals r) =
      (\<Sum>i \<leftarrow> jm_values (br_invoices r). iv_totalCents i - iv_amountPaidCents i) \<and>
    (\<forall>i \<in> set (jm_values (br_invoices r)).
       iv_amountPaidCents i = paid_for (iv_id i) (br_payments r) \<and>
       iv_amountDueCents i = max 0 (iv_totalCents i - iv_amountPaidCents i) \<and>
       iv_status i = (if iv_amountPaidCents i = 0 then InvoiceStatus.ISSUED
                      else if iv_amountDueCents i = 0 then InvoiceStatus.PAID
                      else InvoiceStatus.PARTIALLY_PAID))"
  using billing_run_ok [OF init_ok [OF assms(1)] assms(2)]
  by (simp add: Let_def billing_ok_def invoice_ok_def open_receivables_def)

definition demo_invoice :: CreateInvoiceDTO where
  "demo_invoice = \<lparr> ci_tenantId = ''t1'', ci_orderId = ''o1'', ci_customerId = ''c1'',
     ci_items = [\<lparr> ii_description = ''freight'', ii_quantity = 2, ii_unitPriceCents = 500 \<rparr>],
     ci_subtotalCents = 1000, ci_taxCents = 80, ci_dueDateDays = 30 \<rparr>"

definition demo_payment :: "int \<Rightarrow> ProcessPaymentDTO" where
  "demo_payment a = \<lparr> pp_tenantId = ''t1'', pp_invoiceId = ''u9'', pp_orderId = ''o1'', pp_amountCents = a,
     pp_currency = ''USD'', pp_paymentMethod = PaymentMethodType.CREDIT_CARD \<rparr>"

definition demo_ids :: "nat \<Rightarrow> string" where
  "demo_ids n = CHR ''u'' # dec_string n"

lemma inj_demo_ids: "inj demo_ids"
  by (rule injI) (simp add: demo_ids_def)

definition demo_requests :: "billing_request list" where
  "demo_requests =
     [NewInvoice 1000 (\<lambda>i. demo_ids (8 + i)) ''INV-1'' demo_ids ''ab'' demo_invoice,
      Payment 2000 ''p1'' ''aa'' demo_ids ''cd'' (demo_payment 1000),
      Payment 3000 ''p2'' ''aa'' demo_ids ''ef'' (demo_payment 200)]"

text \<open>The second payment overpays: it is accepted and the receivables account goes to -120 cents.\<close>

lemma receivables_match_ledger_witness:
  "requests_ok demo_requests (billing_init 0 demo_ids) \<and>
   account_balance (demo_ids 1) (br_journals (billing_run demo_requests (billing_init 0 demo_ids))) = - 120 \<and>
   list_all balanced (br_journals (billing_run demo_requests (billing_init 0 demo_ids)))"
proof -
  have ok: "requests_ok demo_requests (billing_init 0 demo_ids)" by code_simp
  have "account_balance (demo_ids 1) (br_journals (billing_run demo_requests (billing_init 0 demo_ids))) = - 120"
    by code_simp
  with ok receivables_match_ledger [OF inj_demo_ids ok] show ?thesis by (simp add: Let_def list_all_iff)
qed

text \<open>C29: A journal entry is posted exactly when its debits and credits agree. Otherwise the request
  ends with the unbalanced-ledger error, status 422, that names both totals, and the ledger is as
  before; a posted entry is appended last, is balanced, and carries the lines in order. However
  many entries are posted, the ledger only grows at its end and stays balanced.\<close>

theorem postJournalEntry_balances:
  "(let D = (\<Sum>l \<leftarrow> ls. pl_debitCents l); K = (\<Sum>l \<leftarrow> ls. pl_creditCents l);
        (r', res) = postJournalEntry now uids token t rt ri d ls r in
    (if D \<noteq> K then r' = r \<and> res = Inl (UnbalancedLedgerException D K) \<and>
         statusCode (UnbalancedLedgerException D K) = Some 422
     else \<exists>j. res = Inr j \<and> r' = r\<lparr> br_journals := br_journals r @ [j] \<rparr> \<and> balanced j \<and>
         jt_totalAmountCents j = D \<and>
         map (\<lambda>l. (jl_accountId l, jl_debitCents l, jl_creditCents l)) (jt_lines j) =
           map (\<lambda>l. (pl_accountId l, pl_debitCents l, pl_creditCents l)) ls)) \<and>
   (\<exists>js. br_journals (fold post_exec ps r) = br_journals r @ js) \<and>
   ((\<forall>j \<in> set (br_journals r). balanced j) \<longrightarrow> (\<forall>j \<in> set (br_journals (fold post_exec ps r)). balanced j))"
proof -
  have lines: "map (\<lambda>l. (jl_accountId l, jl_debitCents l, jl_creditCents l))
      (map (\<lambda>(i, l). format_line (uids i) l) (enumerate n ls)) =
    map (\<lambda>l. (pl_accountId l, pl_debitCents l, pl_creditCents l)) ls" for n
    by (induction ls arbitrary: n) (simp_all add: format_line_def)
  show ?thesis
    using ledger.posts_balanced [of r ps] ledger.posts_append [of ps r] lines [of 0]
    by (auto simp: post_cases Let_def balanced_posted)
qed

lemma postJournalEntry_balances_witness:
  "snd (postJournalEntry 0 demo_ids ''x'' ''t1'' REF_ADJUSTMENT ''r'' ''d''
     [\<lparr> pl_accountId = ''a'', pl_accountName = ''A'', pl_debitCents = 5, pl_creditCents = 0, pl_description = [] \<rparr>]
     (billing_init 0 demo_ids)) = Inl (UnbalancedLedgerException 5 0) \<and>
   list_all balanced (br_journals (fold post_exec [] (billing_init 0 demo_ids)))"
proof -
  have "br_journals (billing_init 0 demo_ids) = []" by (simp add: billing_init_def seedDefaultAccounts_def)
  with postJournalEntry_balances
    [of "[\<lparr> pl_accountId = ''a'', pl_accountName = ''A'', pl_debitCents = 5, pl_creditCents = 0, pl_description = [] \<rparr>]"
        0 demo_ids "''x''" "''t1''" REF_ADJUSTMENT "''r''" "''d''" "billing_init 0 demo_ids" "[]"]
  show ?thesis by (auto simp: Let_def split: prod.splits)
qed

end
