(* ===== verification/Smpp.thy ===== *)
theory Smpp
  imports Prelude "HOL-Library.Word"
begin

text \<open>
  The SMPP PDU codec of the notification service (services/notification-service/src/smpp): a
  16-byte big-endian header before the body. Buffers are byte lists; \<open>writeUInt32BE\<close> throws on
  a number that does not fit into 32 bits.
\<close>

type_synonym buffer = "8 word list"

record ISmppPdu =
  pdu_commandLength :: nat
  pdu_commandId :: nat
  pdu_commandStatus :: nat
  pdu_sequenceNumber :: nat
  pdu_body :: buffer

datatype smpp_error = RangeError nat

definition SUBMIT_SM :: nat where "SUBMIT_SM = 0x00000004"
definition SUBMIT_SM_RESP :: nat where "SUBMIT_SM_RESP = 0x80000004"
definition DELIVER_SM :: nat where "DELIVER_SM = 0x00000005"
definition ENQUIRE_LINK :: nat where "ENQUIRE_LINK = 0x00000015"

definition writeUInt32BE :: "nat \<Rightarrow> smpp_error + buffer" where
  "writeUInt32BE n =
     (if n < 2 ^ 32
      then let w = (of_nat n :: 32 word)
           in Inr [ucast (drop_bit 24 w), ucast (drop_bit 16 w), ucast (drop_bit 8 w), ucast w]
      else Inl (RangeError n))"

definition readUInt32BE :: "buffer \<Rightarrow> nat \<Rightarrow> nat" where
  "readUInt32BE buf i =
     unat (buf ! i) * 2 ^ 24 + unat (buf ! (i + 1)) * 2 ^ 16 + unat (buf ! (i + 2)) * 2 ^ 8 + unat (buf ! (i + 3))"

definition encodePdu :: "nat \<Rightarrow> nat \<Rightarrow> buffer \<Rightarrow> smpp_error + buffer" where
  "encodePdu commandId sequenceNumber body =
     (case writeUInt32BE (16 + length body) of
        Inl e \<Rightarrow> Inl e
      | Inr b0 \<Rightarrow> (case writeUInt32BE commandId of
           Inl e \<Rightarrow> Inl e
         | Inr b4 \<Rightarrow> (case writeUInt32BE 0 of
              Inl e \<Rightarrow> Inl e
            | Inr b8 \<Rightarrow> (case writeUInt32BE sequenceNumber of
                 Inl e \<Rightarrow> Inl e
               | Inr b12 \<Rightarrow> Inr (b0 @ b4 @ b8 @ b12 @ body)))))"

text \<open>\<open>buf.subarray(16, end)\<close> clamps to the buffer and is empty when \<open>end\<close> is before 16.\<close>

definition decodePdu :: "buffer \<Rightarrow> ISmppPdu option" where
  "decodePdu buf =
     (if length buf < 16 then None
      else let len = readUInt32BE buf 0
           in Some \<lparr> pdu_commandLength = len, pdu_commandId = readUInt32BE buf 4,
                pdu_commandStatus = readUInt32BE buf 8, pdu_sequenceNumber = readUInt32BE buf 12,
                pdu_body = js_slice 16 (int len) buf \<rparr>)"

section \<open>Round trip\<close>

lemma base256:
  fixes n :: nat
  assumes "n < 2 ^ 32"
  shows "(n div 2 ^ 24) mod 2 ^ 8 * 2 ^ 24 + (n div 2 ^ 16) mod 2 ^ 8 * 2 ^ 16 + (n div 2 ^ 8) mod 2 ^ 8 * 2 ^ 8 + n mod 2 ^ 8 = n"
proof -
  have top: "n div 2 ^ 24 mod 2 ^ 8 = n div 2 ^ 24" using assms by (simp add: less_mult_imp_div_less)
  have c: "n div 2 ^ 24 = n div 2 ^ 16 div 2 ^ 8" "n div 2 ^ 16 = n div 2 ^ 8 div 2 ^ 8"
    by (simp_all add: div_mult2_eq [symmetric])
  have "n div 2 ^ 16 = n div 2 ^ 24 * 2 ^ 8 + n div 2 ^ 16 mod 2 ^ 8"
    unfolding c(1) by (rule div_mult_mod_eq [symmetric])
  moreover have "n div 2 ^ 8 = n div 2 ^ 16 * 2 ^ 8 + n div 2 ^ 8 mod 2 ^ 8"
    unfolding c(2) by (rule div_mult_mod_eq [symmetric])
  moreover have "n = n div 2 ^ 8 * 2 ^ 8 + n mod 2 ^ 8" by (rule div_mult_mod_eq [symmetric])
  moreover have "x = h * 2 ^ 8 + b \<Longrightarrow> y = x * 2 ^ 8 + c \<Longrightarrow> z = y * 2 ^ 8 + d \<Longrightarrow>
      h * 2 ^ 24 + b * 2 ^ 16 + c * 2 ^ 8 + d = z" for h b c d x y z :: nat by simp
  ultimately show ?thesis unfolding top by blast
qed

lemma write_read:
  assumes "writeUInt32BE n = Inr b" and "length xs = i"
  shows "readUInt32BE (xs @ b @ ys) i = n" and "length b = 4"
proof -
  from assms(1) have n: "n < 2 ^ 32" by (auto simp: writeUInt32BE_def split: if_splits)
  define w where "w = (of_nat n :: 32 word)"
  have unat: "unat w = n" using n by (simp add: w_def unsigned_of_nat take_bit_nat_eq_self)
  have b: "b = [ucast (drop_bit 24 w), ucast (drop_bit 16 w), ucast (drop_bit 8 w), ucast w]"
    using assms(1) n by (simp add: writeUInt32BE_def w_def Let_def)
  have byte: "unat (ucast (drop_bit k w) :: 8 word) = n div 2 ^ k mod 2 ^ 8" for k
  proof -
    have "unat (ucast v :: 8 word) = take_bit 8 (unat v)" for v :: "32 word"
      by (simp add: unsigned_ucast_eq)
    moreover have "unat (drop_bit k w) = n div 2 ^ k"
      using n by (simp only: unat_drop_bit_eq unat) (simp add: drop_bit_eq_div)
    ultimately show ?thesis by (simp only: take_bit_eq_mod)
  qed
  have "readUInt32BE (xs @ b @ ys) i = unat (b ! 0) * 2 ^ 24 + unat (b ! 1) * 2 ^ 16 + unat (b ! 2) * 2 ^ 8 + unat (b ! 3)"
    using assms(2) b by (simp add: readUInt32BE_def nth_append)
  also have "\<dots> = n"
  proof -
    have "b ! 0 = ucast (drop_bit 24 w)" "b ! 1 = ucast (drop_bit 16 w)"
      "b ! 2 = ucast (drop_bit 8 w)" "b ! 3 = ucast (drop_bit 0 w)" by (simp_all add: b)
    then show ?thesis using base256 [OF n] by (simp only: byte power_0 div_by_1)
  qed
  finally show "readUInt32BE (xs @ b @ ys) i = n" .
  show "length b = 4" by (simp add: b)
qed

lemma encodePdu_Inr:
  assumes "encodePdu c q body = Inr buf"
  obtains b0 b4 b8 b12 where "writeUInt32BE (16 + length body) = Inr b0" "writeUInt32BE c = Inr b4"
    "writeUInt32BE 0 = Inr b8" "writeUInt32BE q = Inr b12" "buf = b0 @ b4 @ b8 @ b12 @ body"
  using assms by (auto simp: encodePdu_def split: sum.splits)

lemma encodePdu_total:
  "16 + length body < 2 ^ 32 \<Longrightarrow> c < 2 ^ 32 \<Longrightarrow> q < 2 ^ 32 \<Longrightarrow> \<exists>buf. encodePdu c q body = Inr buf"
  by (simp add: encodePdu_def writeUInt32BE_def Let_def)

text \<open>PDUs survive the wire. A command id and a sequence number below \<open>2 ^ 32\<close> and a body that
  leaves the length field below \<open>2 ^ 32\<close> encode without an error, to 16 bytes more than the body;
  decoding the result gives the same command, sequence number and body back, with status 0, even
  with more bytes of the stream behind it. Out-of-range numbers raise the range error. Fewer than
  16 bytes decode to null, but a frame cut short after its header still decodes: to a PDU whose
  body is shorter than its length field says.\<close>

theorem smpp_roundtrip:
  assumes "16 + length body < 2 ^ 32" and "c < 2 ^ 32" and "q < 2 ^ 32"
  shows "\<exists>buf. encodePdu c q body = Inr buf \<and> length buf = 16 + length body \<and>
    (\<forall>rest. decodePdu (buf @ rest) = Some \<lparr> pdu_commandLength = 16 + length body, pdu_commandId = c,
       pdu_commandStatus = 0, pdu_sequenceNumber = q, pdu_body = body \<rparr>) \<and>
    (\<forall>n < 16. decodePdu (take n buf) = None) \<and>
    (\<forall>n < length body. map_option pdu_body (decodePdu (take (16 + n) buf)) = Some (take n body)) \<and>
    (\<forall>c' \<ge> 2 ^ 32. encodePdu c' q body = Inl (RangeError c'))"
proof -
  obtain buf where buf: "encodePdu c q body = Inr buf" using encodePdu_total [OF assms] by blast
  then obtain b0 b4 b8 b12 where w: "writeUInt32BE (16 + length body) = Inr b0" "writeUInt32BE c = Inr b4"
    "writeUInt32BE 0 = Inr b8" "writeUInt32BE q = Inr b12" and eq: "buf = b0 @ b4 @ b8 @ b12 @ body"
    by (rule encodePdu_Inr)
  note len = write_read(2) [OF w(1) refl] write_read(2) [OF w(2) refl] write_read(2) [OF w(3) refl] write_read(2) [OF w(4) refl]
  have rd: "readUInt32BE (b0 @ b4 @ b8 @ b12 @ ys) 0 = 16 + length body" "readUInt32BE (b0 @ b4 @ b8 @ b12 @ ys) 4 = c"
    "readUInt32BE (b0 @ b4 @ b8 @ b12 @ ys) 8 = 0" "readUInt32BE (b0 @ b4 @ b8 @ b12 @ ys) 12 = q" for ys
    using write_read(1) [OF w(1), of "[]" 0 "b4 @ b8 @ b12 @ ys"] write_read(1) [OF w(2), of b0 4 "b8 @ b12 @ ys"]
      write_read(1) [OF w(3), of "b0 @ b4" 8 "b12 @ ys"] write_read(1) [OF w(4), of "b0 @ b4 @ b8" 12 ys] len
    by simp_all
  have body: "js_slice 16 (int (16 + length body)) (b0 @ b4 @ b8 @ b12 @ ys) = take (length body) ys" for ys
    by (subst js_slice_nonneg) (simp_all add: len)
  have dec: "decodePdu (b0 @ b4 @ b8 @ b12 @ ys) = Some \<lparr> pdu_commandLength = 16 + length body, pdu_commandId = c,
       pdu_commandStatus = 0, pdu_sequenceNumber = q, pdu_body = take (length body) ys \<rparr>" for ys
    using rd [of ys] body [of ys] len by (simp add: decodePdu_def Let_def)
  show ?thesis
  proof (intro exI conjI allI impI)
    show "encodePdu c q body = Inr buf" by (rule buf)
    show "length buf = 16 + length body" using len by (simp add: eq)
    show "decodePdu (buf @ rest) = Some \<lparr> pdu_commandLength = 16 + length body, pdu_commandId = c,
       pdu_commandStatus = 0, pdu_sequenceNumber = q, pdu_body = body \<rparr>" for rest
      using dec [of "body @ rest"] by (simp add: eq)
    show "decodePdu (take n buf) = None" if "n < 16" for n
      using that by (simp add: decodePdu_def min_less_iff_disj)
    show "map_option pdu_body (decodePdu (take (16 + n) buf)) = Some (take n body)" if "n < length body" for n
    proof -
      have "take (16 + n) buf = b0 @ b4 @ b8 @ b12 @ take n body" using len by (simp add: eq)
      then show ?thesis using dec [of "take n body"] that by simp
    qed
    show "encodePdu c' q body = Inl (RangeError c')" if "2 ^ 32 \<le> c'" for c'
      using that assms(1) by (simp add: encodePdu_def writeUInt32BE_def Let_def)
  qed
qed

theorem smpp_roundtrip_witness:
  "\<exists>buf. encodePdu SUBMIT_SM_RESP 7 [1, 2, 3] = Inr buf \<and> length buf = 19 \<and>
    decodePdu buf = Some \<lparr> pdu_commandLength = 19, pdu_commandId = SUBMIT_SM_RESP,
       pdu_commandStatus = 0, pdu_sequenceNumber = 7, pdu_body = [1, 2, 3] \<rparr>"
proof -
  have "16 + length [1, 2, 3 :: 8 word] < 2 ^ 32" "SUBMIT_SM_RESP < 2 ^ 32" "(7 :: nat) < 2 ^ 32"
    by (simp_all add: SUBMIT_SM_RESP_def)
  from smpp_roundtrip [OF this] obtain buf where buf: "encodePdu SUBMIT_SM_RESP 7 [1, 2, 3] = Inr buf"
    "length buf = 16 + length [1, 2, 3 :: 8 word]"
    "\<forall>rest. decodePdu (buf @ rest) = Some \<lparr> pdu_commandLength = 16 + length [1, 2, 3 :: 8 word], pdu_commandId = SUBMIT_SM_RESP,
       pdu_commandStatus = 0, pdu_sequenceNumber = 7, pdu_body = [1, 2, 3] \<rparr>" by blast
  from buf(1,2) buf(3) [THEN spec, of "[]"] show ?thesis by (intro exI [of _ buf]) simp
qed

end
