(* ===== verification/Optimization.thy ===== *)
theory Optimization
  imports Prelude Double
begin

text \<open>
  The optimisation heuristics of packages/common/src/utils/mathOptimization.ts: the great-circle
  distance and bearing, the 2-opt route improvement, the first-fit-decreasing bin packing and the
  demand forecast. Trigonometry and square roots are a
  record \<open>js_math\<close> of functions, since ECMAScript leaves their results to the implementation; a
  distance that is not a number (a square root of a negative one) is \<open>None\<close>.
\<close>

section \<open>Numbers that may be NaN\<close>

type_synonym number = "rat option"

definition nadd :: "number \<Rightarrow> number \<Rightarrow> number" where
  "nadd a b = (case (a, b) of (Some x, Some y) \<Rightarrow> Some (dadd x y) | _ \<Rightarrow> None)"

definition nsub :: "number \<Rightarrow> number \<Rightarrow> number" where
  "nsub a b = (case (a, b) of (Some x, Some y) \<Rightarrow> Some (dsub x y) | _ \<Rightarrow> None)"

definition nless :: "number \<Rightarrow> number \<Rightarrow> bool" where
  "nless a b = (case (a, b) of (Some x, Some y) \<Rightarrow> x < y | _ \<Rightarrow> False)"

section \<open>Distances\<close>

record GeoCoordinate =
  geo_latitude :: rat
  geo_longitude :: rat

record js_math =
  m_sin :: "rat \<Rightarrow> rat"
  m_cos :: "rat \<Rightarrow> rat"
  m_atan2 :: "rat \<Rightarrow> rat \<Rightarrow> rat"
  m_sqrt :: "rat \<Rightarrow> rat"
  m_PI :: rat

definition toRadians :: "js_math \<Rightarrow> rat \<Rightarrow> rat" where
  "toRadians math degrees = ddiv (dmul degrees (m_PI math)) 180"

definition haversineDistanceKm :: "js_math \<Rightarrow> GeoCoordinate \<Rightarrow> GeoCoordinate \<Rightarrow> number" where
  "haversineDistanceKm math coord1 coord2 =
     (let dLat = toRadians math (dsub (geo_latitude coord2) (geo_latitude coord1));
          dLon = toRadians math (dsub (geo_longitude coord2) (geo_longitude coord1));
          lat1 = toRadians math (geo_latitude coord1);
          lat2 = toRadians math (geo_latitude coord2);
          a = dadd (dmul (m_sin math (ddiv dLat 2)) (m_sin math (ddiv dLat 2)))
                (dmul (dmul (dmul (m_sin math (ddiv dLon 2)) (m_sin math (ddiv dLon 2))) (m_cos math lat1)) (m_cos math lat2))
      in if a < 0 \<or> dsub 1 a < 0 then None
         else let c = dmul 2 (m_atan2 math (m_sqrt math a) (m_sqrt math (dsub 1 a)))
              in Some (dmul (fl (63710088 / 10000)) c))"

definition computeTotalRouteDistanceKm :: "js_math \<Rightarrow> GeoCoordinate list \<Rightarrow> number" where
  "computeTotalRouteDistanceKm math route =
     fold (\<lambda>i total_km. nadd total_km (haversineDistanceKm math (route ! i) (route ! (i + 1))))
       [0..<length route - 1] (Some 0)"

definition toDegrees :: "js_math \<Rightarrow> rat \<Rightarrow> rat" where
  "toDegrees math radians = ddiv (dmul radians 180) (m_PI math)"

text \<open>The remainder \<open>x % y\<close> of doubles is exact and has the sign of \<open>x\<close>.\<close>

definition js_rem :: "rat \<Rightarrow> rat \<Rightarrow> rat" where
  "js_rem x y = (if x < 0 then - (- x - y * of_int \<lfloor>- x / y\<rfloor>) else x - y * of_int \<lfloor>x / y\<rfloor>)"

definition computeBearingDegrees :: "js_math \<Rightarrow> GeoCoordinate \<Rightarrow> GeoCoordinate \<Rightarrow> rat" where
  "computeBearingDegrees math from to =
     (let lat1 = toRadians math (geo_latitude from);
          lat2 = toRadians math (geo_latitude to);
          dLon = toRadians math (dsub (geo_longitude to) (geo_longitude from));
          y = dmul (m_sin math dLon) (m_cos math lat2);
          x = dsub (dmul (m_cos math lat1) (m_sin math lat2))
                (dmul (dmul (m_sin math lat1) (m_cos math lat2)) (m_cos math dLon));
          initialBearing = m_atan2 math y x
      in js_rem (dadd (toDegrees math initialBearing) 360) 360)"

lemma js_rem_range: "0 < y \<Longrightarrow> 0 \<le> x \<Longrightarrow> 0 \<le> js_rem x y \<and> js_rem x y < y"
  using floor_divide_lower [of y x] floor_divide_upper [of y x] by (simp add: js_rem_def algebra_simps)

section \<open>2-opt\<close>

definition twoOptSwap :: "'a list \<Rightarrow> nat \<Rightarrow> nat \<Rightarrow> 'a list" where
  "twoOptSwap route i k =
     map (\<lambda>c. route ! c) [0..<i] @ map (\<lambda>c. route ! c) (List.rev [i..<Suc k])
       @ map (\<lambda>c. route ! c) [Suc k..<length route]"

text \<open>The pairs \<open>(i, j)\<close> in the order the two inner loops visit them; the loops stop at the first
  that shortens the route by more than a metre.\<close>

definition swap_pairs :: "nat \<Rightarrow> (nat \<times> nat) list" where
  "swap_pairs n = concat (map (\<lambda>i. map (Pair i) [i + 1..<n - 1]) [1..<n - 2])"

definition shortens :: "js_math \<Rightarrow> GeoCoordinate list \<Rightarrow> number \<Rightarrow> nat \<times> nat \<Rightarrow> bool" where
  "shortens math route best p =
     nless (computeTotalRouteDistanceKm math (twoOptSwap route (fst p) (snd p))) (nsub best (Some (fl (1 / 1000))))"

definition improve :: "js_math \<Rightarrow> GeoCoordinate list \<times> number \<Rightarrow> (GeoCoordinate list \<times> number) option" where
  "improve math s =
     (case find (shortens math (fst s) (snd s)) (swap_pairs (length (fst s))) of
        None \<Rightarrow> None
      | Some (i, j) \<Rightarrow> (let newRoute = twoOptSwap (fst s) i j
                       in Some (newRoute, computeTotalRouteDistanceKm math newRoute)))"

fun two_opt_loop :: "js_math \<Rightarrow> nat \<Rightarrow> GeoCoordinate list \<times> number \<Rightarrow> GeoCoordinate list \<times> number" where
  "two_opt_loop math 0 s = s"
| "two_opt_loop math (Suc left) s =
     (case improve math s of None \<Rightarrow> s | Some s' \<Rightarrow> two_opt_loop math left s')"

definition twoOptOptimization :: "js_math \<Rightarrow> GeoCoordinate list \<Rightarrow> nat \<Rightarrow> GeoCoordinate list \<times> number" where
  "twoOptOptimization math route maxIterations =
     (if length route \<le> 3 then (route, computeTotalRouteDistanceKm math route)
      else two_opt_loop math maxIterations (route, computeTotalRouteDistanceKm math route))"

section \<open>Bin packing\<close>

record pack_item =
  pi_id :: string
  pi_lengthCm :: rat
  pi_widthCm :: rat
  pi_heightCm :: rat
  pi_weightKg :: rat

record bin_spec =
  bs_lengthCm :: rat
  bs_widthCm :: rat
  bs_heightCm :: rat
  bs_maxWeightKg :: rat

record pack_bin =
  bin_index :: nat
  bin_items :: "pack_item list"
  bin_usedVolumeCm3 :: rat
  bin_totalWeightKg :: rat

definition item_volume :: "pack_item \<Rightarrow> rat" where
  "item_volume i = dmul (dmul (pi_lengthCm i) (pi_widthCm i)) (pi_heightCm i)"

definition bin_volume :: "bin_spec \<Rightarrow> rat" where
  "bin_volume s = dmul (dmul (bs_lengthCm s) (bs_widthCm s)) (bs_heightCm s)"

definition fits :: "bin_spec \<Rightarrow> pack_item \<Rightarrow> pack_bin \<Rightarrow> bool" where
  "fits s i b \<longleftrightarrow>
     dadd (bin_usedVolumeCm3 b) (item_volume i) \<le> dmul (bin_volume s) (fl (85 / 100)) \<and>
     dadd (bin_totalWeightKg b) (pi_weightKg i) \<le> bs_maxWeightKg s"

definition add_item :: "pack_item \<Rightarrow> pack_bin \<Rightarrow> pack_bin" where
  "add_item i b = b\<lparr> bin_items := bin_items b @ [i],
     bin_usedVolumeCm3 := dadd (bin_usedVolumeCm3 b) (item_volume i),
     bin_totalWeightKg := dadd (bin_totalWeightKg b) (pi_weightKg i) \<rparr>"

fun place_first :: "bin_spec \<Rightarrow> pack_item \<Rightarrow> pack_bin list \<Rightarrow> pack_bin list option" where
  "place_first s i [] = None"
| "place_first s i (b # bins) =
     (if fits s i b then Some (add_item i b # bins)
      else map_option (\<lambda>bs. b # bs) (place_first s i bins))"

definition place_item :: "bin_spec \<Rightarrow> pack_item \<Rightarrow> pack_bin list \<Rightarrow> pack_bin list" where
  "place_item s i bins =
     (case place_first s i bins of
        Some bins' \<Rightarrow> bins'
      | None \<Rightarrow> bins @ [\<lparr> bin_index = length bins + 1, bin_items = [i],
          bin_usedVolumeCm3 = item_volume i, bin_totalWeightKg = pi_weightKg i \<rparr>])"

definition pack3DBins :: "pack_item list \<Rightarrow> bin_spec \<Rightarrow> pack_bin list" where
  "pack3DBins items s = fold (place_item s) (sort_key (\<lambda>i. - item_volume i) items) []"

section \<open>Demand forecasts\<close>

definition smooth :: "rat \<Rightarrow> rat \<Rightarrow> rat \<Rightarrow> rat \<times> rat \<Rightarrow> rat \<times> rat" where
  "smooth alpha beta value s =
     (let prevLevel = fst s;
          level = dadd (dmul alpha value) (dmul (dsub 1 alpha) (dadd prevLevel (snd s)));
          trend = dadd (dmul beta (dsub level prevLevel)) (dmul (dsub 1 beta) (snd s))
      in (level, trend))"

definition forecastDemand :: "rat list \<Rightarrow> nat \<Rightarrow> rat \<Rightarrow> rat \<Rightarrow> rat list" where
  "forecastDemand historicalSales forecastPeriods alpha beta =
     (if length historicalSales = 0 then replicate forecastPeriods 0
      else if length historicalSales = 1 then replicate forecastPeriods (historicalSales ! 0)
      else let (level, trend) = fold (smooth alpha beta) (drop 1 historicalSales)
                 (historicalSales ! 0, dsub (historicalSales ! 1) (historicalSales ! 0))
        in map (\<lambda>m. of_int (max 0 (Math_round (dadd level (dmul (of_nat m) trend))))) [1..<Suc forecastPeriods])"

lemma forecastDemand_counts:
  "length (forecastDemand h n alpha beta) = n"
  "length h \<noteq> 1 \<Longrightarrow> list_all (\<lambda>x. \<exists>k. x = of_nat k) (forecastDemand h n alpha beta)"
proof -
  show "length (forecastDemand h n alpha beta) = n" by (simp add: forecastDemand_def split_def Let_def)
  have "\<exists>j. of_int (max 0 k) = (of_nat j :: rat)" for k :: int
    by (intro exI [of _ "nat k"]) (auto simp: max_def)
  moreover have "\<exists>j. (0 :: rat) = of_nat j" by (intro exI [of _ 0]) simp
  ultimately show "length h \<noteq> 1 \<Longrightarrow> list_all (\<lambda>x. \<exists>k. x = of_nat k) (forecastDemand h n alpha beta)"
    by (auto simp: forecastDemand_def split_def Let_def list_all_iff)
qed

section \<open>Properties of 2-opt\<close>

lemma nless_trans: "nless a b \<Longrightarrow> nless b c \<Longrightarrow> nless a c"
  by (auto simp: nless_def split: option.splits)

lemma total_step: "\<exists>x. computeTotalRouteDistanceKm math route = map_option fl x"
proof (cases "length route - 1")
  case 0
  then show ?thesis by (intro exI [of _ "Some 0"]) (simp add: computeTotalRouteDistanceKm_def)
next
  case (Suc n)
  have "\<exists>x y. computeTotalRouteDistanceKm math route = nadd x y"
    unfolding computeTotalRouteDistanceKm_def Suc by (simp del: One_nat_def) blast
  then obtain x y where "computeTotalRouteDistanceKm math route = nadd x y" by blast
  then show ?thesis by (cases x; cases y) (auto simp: nadd_def dadd_def intro: exI [of _ "Some _"] exI [of _ None])
qed

lemma below_margin: "nless a (nsub (computeTotalRouteDistanceKm math route) (Some (fl (1 / 1000)))) \<Longrightarrow>
    nless a (computeTotalRouteDistanceKm math route)"
proof -
  assume less: "nless a (nsub (computeTotalRouteDistanceKm math route) (Some (fl (1 / 1000))))"
  obtain x where x: "computeTotalRouteDistanceKm math route = map_option fl x" using total_step by blast
  have "fl (fl y - fl (1 / 1000)) \<le> fl y" for y
  proof -
    have "fl y - fl (1 / 1000) \<le> fl y" by (simp add: fl_nonneg)
    from fl_mono [OF this] show ?thesis by simp
  qed
  with less x show ?thesis by (cases x) (auto simp: nless_def nsub_def dsub_def split: option.splits intro: order_less_le_trans)
qed

lemma map_nth_range: "j \<le> length xs \<Longrightarrow> map (\<lambda>c. xs ! c) [i..<j] = drop i (take j xs)"
  by (rule nth_equalityI) auto

lemma twoOptSwap_eq:
  assumes "i \<le> k" and "k < length route"
  shows "twoOptSwap route i k = take i route @ List.rev (drop i (take (Suc k) route)) @ drop (Suc k) route"
  using assms map_nth_range [of i route 0] map_nth_range [of "Suc k" route i]
    map_nth_range [of "length route" route "Suc k"]
  by (simp add: twoOptSwap_def rev_map [symmetric] del: upt_Suc)

lemma twoOptSwap_mset:
  assumes "i \<le> k" and "k < length route"
  shows "mset (twoOptSwap route i k) = mset route"
proof -
  have "route = take i route @ drop i (take (Suc k) route) @ drop (Suc k) route"
    using assms append_take_drop_id [of i "take (Suc k) route"] by (simp add: min_absorb1 flip: append_assoc)
  then have "mset route = mset (take i route) + mset (drop i (take (Suc k) route)) + mset (drop (Suc k) route)"
    by (metis mset_append append_assoc)
  then show ?thesis unfolding twoOptSwap_eq [OF assms] by simp
qed

lemma twoOptSwap_ends:
  assumes "0 < i" and "i \<le> k" and "Suc k < length route"
  shows "twoOptSwap route i k ! 0 = route ! 0" and "last (twoOptSwap route i k) = last route"
proof -
  have "take i route \<noteq> []" "drop (Suc k) route \<noteq> []" using assms by auto
  then show "twoOptSwap route i k ! 0 = route ! 0" "last (twoOptSwap route i k) = last route"
    unfolding twoOptSwap_eq [OF assms(2) Suc_lessD [OF assms(3)]] using assms by (simp_all add: nth_append)
qed

lemma swap_pairs_iff: "(i, j) \<in> set (swap_pairs n) \<longleftrightarrow> 0 < i \<and> i < j \<and> j < n - 1 \<and> i < n - 2"
proof
  assume "0 < i \<and> i < j \<and> j < n - 1 \<and> i < n - 2"
  then have "(i, j) \<in> Pair i ` set [i + 1..<n - 1]" "i \<in> set [1..<n - 2]" by auto
  then show "(i, j) \<in> set (swap_pairs n)" by (force simp: swap_pairs_def)
qed (auto simp: swap_pairs_def)

text \<open>What holds of every state of the search, relative to the route it started from.\<close>

definition search_ok :: "js_math \<Rightarrow> GeoCoordinate list \<Rightarrow> GeoCoordinate list \<times> number \<Rightarrow> bool" where
  "search_ok math route s \<longleftrightarrow>
     snd s = computeTotalRouteDistanceKm math (fst s) \<and> mset (fst s) = mset route \<and>
     fst s ! 0 = route ! 0 \<and> last (fst s) = last route \<and>
     (fst s = route \<or> nless (snd s) (nsub (computeTotalRouteDistanceKm math route) (Some (fl (1 / 1000)))))"

lemma improve_Some:
  assumes "improve math s = Some s'"
  obtains i j where "0 < i" "i < j" "Suc j < length (fst s)" "fst s' = twoOptSwap (fst s) i j"
    "snd s' = computeTotalRouteDistanceKm math (fst s')" "nless (snd s') (nsub (snd s) (Some (fl (1 / 1000))))"
proof -
  from assms obtain i j where f: "find (shortens math (fst s) (snd s)) (swap_pairs (length (fst s))) = Some (i, j)"
    and s': "s' = (twoOptSwap (fst s) i j, computeTotalRouteDistanceKm math (twoOptSwap (fst s) i j))"
    by (auto simp: improve_def Let_def split: option.splits)
  from find_SomeD [OF f] swap_pairs_iff [of i j] have "0 < i" "i < j" "Suc j < length (fst s)"
    and "shortens math (fst s) (snd s) (i, j)" by auto
  with s' that show ?thesis by (simp add: shortens_def)
qed

lemma improve_ok:
  assumes "search_ok math route s" and "improve math s = Some s'"
  shows "search_ok math route s'"
proof -
  from assms(2) obtain i j where ij: "0 < i" "i < j" "Suc j < length (fst s)" and fs: "fst s' = twoOptSwap (fst s) i j"
    and d: "snd s' = computeTotalRouteDistanceKm math (fst s')" and less: "nless (snd s') (nsub (snd s) (Some (fl (1 / 1000))))"
    by (rule improve_Some)
  have m: "mset (fst s') = mset (fst s)" "fst s' ! 0 = fst s ! 0" "last (fst s') = last (fst s)"
    unfolding fs using ij by (simp_all add: twoOptSwap_mset twoOptSwap_ends)
  have "nless (snd s') (snd s)" using below_margin [of "snd s'" math "fst s"] less assms(1) by (simp add: search_ok_def)
  then have "nless (snd s') (nsub (computeTotalRouteDistanceKm math route) (Some (fl (1 / 1000))))"
    using assms(1) less nless_trans unfolding search_ok_def by metis
  with assms(1) m d show ?thesis by (simp add: search_ok_def)
qed

lemma loop_ok: "search_ok math route s \<Longrightarrow> search_ok math route (two_opt_loop math n s)"
  by (induction math n s rule: two_opt_loop.induct) (auto split: option.splits intro: improve_ok)

lemma loop_more: "two_opt_loop math (Suc n) s =
    (case improve math (two_opt_loop math n s) of None \<Rightarrow> two_opt_loop math n s | Some s' \<Rightarrow> s')"
proof (induction n arbitrary: s)
  case 0
  then show ?case by (simp split: option.split)
next
  case (Suc n)
  show ?case
  proof (cases "improve math s")
    case None
    then show ?thesis by simp
  next
    case (Some s')
    then have "two_opt_loop math (Suc (Suc n)) s = two_opt_loop math (Suc n) s'" by simp
    also note Suc.IH [of s']
    finally show ?thesis using Some by (simp only: two_opt_loop.simps option.case)
  qed
qed

definition local_optimum :: "js_math \<Rightarrow> GeoCoordinate list \<times> number \<Rightarrow> bool" where
  "local_optimum math s \<longleftrightarrow> list_all (\<lambda>p. \<not> shortens math (fst s) (snd s) p) (swap_pairs (length (fst s)))"

lemma improve_None: "improve math s = None \<longleftrightarrow> local_optimum math s"
proof -
  have "find P xs = None \<longleftrightarrow> list_all (\<lambda>p. \<not> P p) xs" for P and xs :: "(nat \<times> nat) list"
    by (auto simp: find_None_iff list_all_iff)
  moreover have "improve math s = None \<longleftrightarrow> find (shortens math (fst s) (snd s)) (swap_pairs (length (fst s))) = None"
    by (simp add: improve_def Let_def split: option.split prod.split)
  ultimately show ?thesis by (simp only: local_optimum_def)
qed

text \<open>2-opt only ever improves a route. Whatever the distances are, the optimised route visits the
  same stops the same number of times, from the same first to the same last one; the distance it
  returns is the length of that route; either it is the given route, or it is more than a metre
  shorter. It returns after at most \<open>maxIterations\<close> rounds, and with one round more it returns
  the same if and only if no reversal of a stretch shortens the route by a metre: otherwise the
  extra round gives a route shorter again.\<close>

theorem two_opt_improves:
  "let (r, d) = twoOptOptimization math route n in
    d = computeTotalRouteDistanceKm math r \<and> mset r = mset route \<and> length r = length route \<and>
    r ! 0 = route ! 0 \<and> last r = last route \<and>
    (r = route \<or> nless d (nsub (computeTotalRouteDistanceKm math route) (Some (fl (1 / 1000))))) \<and>
    (if local_optimum math (r, d) then twoOptOptimization math route (n + 1) = (r, d)
     else nless (snd (twoOptOptimization math route (n + 1))) (nsub d (Some (fl (1 / 1000)))))"
proof -
  let ?s0 = "(route, computeTotalRouteDistanceKm math route)"
  define s where "s = twoOptOptimization math route n"
  have "search_ok math route ?s0" by (simp add: search_ok_def)
  then have ok: "search_ok math route s" unfolding s_def twoOptOptimization_def by (simp add: loop_ok)
  have more: "if local_optimum math s then twoOptOptimization math route (n + 1) = s
     else nless (snd (twoOptOptimization math route (n + 1))) (nsub (snd s) (Some (fl (1 / 1000))))"
  proof (cases "length route \<le> 3")
    case True
    then have "local_optimum math s"
      by (auto simp: s_def twoOptOptimization_def local_optimum_def list_all_iff swap_pairs_iff)
    with True show ?thesis by (simp add: s_def twoOptOptimization_def)
  next
    case False
    then have s: "s = two_opt_loop math n ?s0" "twoOptOptimization math route (n + 1) = two_opt_loop math (Suc n) ?s0"
      by (simp_all add: s_def twoOptOptimization_def)
    show ?thesis unfolding s(2) loop_more s(1) [symmetric]
      by (auto simp flip: improve_None split: option.split elim: improve_Some)
  qed
  from ok have "length (fst s) = length route" unfolding search_ok_def by (metis size_mset)
  moreover obtain r d where "s = (r, d)" by (cases s)
  ultimately show ?thesis using ok more unfolding s_def [symmetric] by (auto simp: search_ok_def simp del: One_nat_def add_Suc_right split: if_splits)
qed

section \<open>Properties of the packing\<close>

text \<open>What the bins record about their items, and that a bin only got a second item if it fitted.\<close>

definition bin_wf :: "bin_spec \<Rightarrow> pack_bin \<Rightarrow> bool" where
  "bin_wf s b \<longleftrightarrow>
     (case bin_items b of
        [] \<Rightarrow> False
      | i # is \<Rightarrow>
          bin_usedVolumeCm3 b = fold (\<lambda>j v. dadd v (item_volume j)) is (item_volume i) \<and>
          bin_totalWeightKg b = fold (\<lambda>j w. dadd w (pi_weightKg j)) is (pi_weightKg i) \<and>
          (is = [] \<or> bin_usedVolumeCm3 b \<le> dmul (bin_volume s) (fl (85 / 100)) \<and> bin_totalWeightKg b \<le> bs_maxWeightKg s))"

definition bins_wf :: "bin_spec \<Rightarrow> pack_bin list \<Rightarrow> bool" where
  "bins_wf s bins \<longleftrightarrow> list_all (bin_wf s) bins \<and> map bin_index bins = [1..<Suc (length bins)]"

lemma add_item_wf: "bin_wf s b \<Longrightarrow> fits s i b \<Longrightarrow> bin_wf s (add_item i b)"
  by (auto simp: bin_wf_def fits_def add_item_def split: list.splits)

lemma place_first_Some:
  assumes "place_first s i bins = Some bins'"
  obtains xs b ys where "bins = xs @ b # ys" "bins' = xs @ add_item i b # ys" "fits s i b" "list_all (\<lambda>x. \<not> fits s i x) xs"
  using assms
proof (induction s i bins arbitrary: bins' thesis rule: place_first.induct)
  case (2 s i b bins)
  show ?case
  proof (cases "fits s i b")
    case True
    with 2(2) [of "[]" b bins] 2(3) show ?thesis by simp
  next
    case False
    with 2(3) obtain bs where bs: "place_first s i bins = Some bs" "bins' = b # bs" by auto
    from 2(1) [OF False _ bs(1)] obtain xs c ys where
      "bins = xs @ c # ys" "bs = xs @ add_item i c # ys" "fits s i c" "list_all (\<lambda>x. \<not> fits s i x) xs" by blast
    with 2(2) [of "b # xs" c ys] bs(2) False show ?thesis by simp
  qed
qed simp

lemma place_first_None: "place_first s i bins = None \<longleftrightarrow> list_all (\<lambda>b. \<not> fits s i b) bins"
  by (induction bins) auto

lemma place_item_cases:
  obtains (old) xs b ys where "bins = xs @ b # ys" "place_item s i bins = xs @ add_item i b # ys" "fits s i b"
  | (fresh) "list_all (\<lambda>b. \<not> fits s i b) bins" "place_item s i bins = bins @ [\<lparr> bin_index = length bins + 1, bin_items = [i],
          bin_usedVolumeCm3 = item_volume i, bin_totalWeightKg = pi_weightKg i \<rparr>]"
proof (cases "place_first s i bins")
  case None
  with fresh show ?thesis by (simp add: place_item_def place_first_None)
next
  case (Some bins')
  then obtain xs b ys where "bins = xs @ b # ys" "bins' = xs @ add_item i b # ys" "fits s i b" by (rule place_first_Some)
  with old Some show ?thesis by (simp add: place_item_def)
qed

definition packed :: "pack_bin list \<Rightarrow> pack_item multiset" where
  "packed bins = mset (concat (map bin_items bins))"

lemma place_item_packed: "packed (place_item s i bins) = add_mset i (packed bins)"
  by (rule place_item_cases [of bins s i]) (simp_all add: packed_def add_item_def)

lemma place_item_wf: "bins_wf s bins \<Longrightarrow> bins_wf s (place_item s i bins)"
proof (rule place_item_cases [of bins s i])
  fix xs b ys
  assume "bins_wf s bins" "bins = xs @ b # ys" "place_item s i bins = xs @ add_item i b # ys" "fits s i b"
  moreover have "bin_index (add_item i b) = bin_index b" by (simp add: add_item_def)
  ultimately show ?thesis by (simp add: bins_wf_def add_item_wf)
qed (simp_all add: bins_wf_def bin_wf_def)

text \<open>First fit: the item that opened a bin fits in none of the bins before it, not even once they
  hold everything they are going to hold.\<close>

definition first_fit :: "bin_spec \<Rightarrow> pack_bin list \<Rightarrow> bool" where
  "first_fit s bins \<longleftrightarrow> sorted_wrt (\<lambda>a b. \<not> fits s (hd (bin_items b)) a) bins"

definition item_ok :: "pack_item \<Rightarrow> bool" where
  "item_ok i \<longleftrightarrow> 0 \<le> pi_lengthCm i \<and> 0 \<le> pi_widthCm i \<and> 0 \<le> pi_heightCm i \<and> 0 \<le> pi_weightKg i \<and>
     fl (pi_weightKg i) = pi_weightKg i"

lemma dadd_mono: "a \<le> b \<Longrightarrow> dadd a c \<le> dadd b c"
  unfolding dadd_def by (rule fl_mono) simp

lemma dadd_grows:
  assumes "0 \<le> c" and "fl a = a"
  shows "a \<le> dadd a c"
  using fl_mono [of a "a + c"] assms by (simp add: dadd_def)

definition bin_doubles :: "pack_bin \<Rightarrow> bool" where
  "bin_doubles b \<longleftrightarrow> fl (bin_usedVolumeCm3 b) = bin_usedVolumeCm3 b \<and> fl (bin_totalWeightKg b) = bin_totalWeightKg b"

lemma item_volume_nonneg: "item_ok i \<Longrightarrow> 0 \<le> item_volume i"
  by (simp add: item_ok_def item_volume_def dmul_def fl_nonneg)

lemma fits_add_item:
  assumes "item_ok i" and "bin_doubles b" and "\<not> fits s j b"
  shows "\<not> fits s j (add_item i b)"
proof
  assume f: "fits s j (add_item i b)"
  have "bin_usedVolumeCm3 b \<le> dadd (bin_usedVolumeCm3 b) (item_volume i)"
    "bin_totalWeightKg b \<le> dadd (bin_totalWeightKg b) (pi_weightKg i)"
    using assms item_volume_nonneg by (auto simp: bin_doubles_def item_ok_def intro!: dadd_grows)
  from this [THEN dadd_mono] f have "fits s j b"
    unfolding fits_def add_item_def by simp (metis order_trans)
  with assms(3) show False ..
qed

definition pack_inv :: "bin_spec \<Rightarrow> pack_bin list \<Rightarrow> bool" where
  "pack_inv s bins \<longleftrightarrow> bins_wf s bins \<and> first_fit s bins \<and> list_all bin_doubles bins"

lemma place_item_inv:
  assumes "item_ok i" and "pack_inv s bins"
  shows "pack_inv s (place_item s i bins)"
proof (rule place_item_cases [of bins s i])
  fix xs b ys
  assume bins: "bins = xs @ b # ys" and new: "place_item s i bins = xs @ add_item i b # ys" and "fits s i b"
  from assms(2) bins have b: "bin_wf s b" "bin_doubles b" by (simp_all add: pack_inv_def bins_wf_def)
  then have "hd (bin_items (add_item i b)) = hd (bin_items b)"
    by (simp add: add_item_def bin_wf_def split: list.splits)
  moreover have "\<forall>c \<in> set ys. \<not> fits s (hd (bin_items c)) (add_item i b)"
    using assms bins b fits_add_item by (auto simp: pack_inv_def first_fit_def sorted_wrt_append)
  ultimately have "first_fit s (place_item s i bins)"
    unfolding new using assms(2) bins by (simp add: pack_inv_def first_fit_def sorted_wrt_append)
  moreover have "bin_doubles (add_item i b)" by (simp add: bin_doubles_def add_item_def dadd_def)
  moreover have "bins_wf s (place_item s i bins)" using assms(2) by (simp add: pack_inv_def place_item_wf)
  ultimately show ?thesis unfolding new using assms(2) bins by (simp add: pack_inv_def)
next
  assume none: "list_all (\<lambda>b. \<not> fits s i b) bins" and new: "place_item s i bins = bins @ [\<lparr> bin_index = length bins + 1, bin_items = [i],
          bin_usedVolumeCm3 = item_volume i, bin_totalWeightKg = pi_weightKg i \<rparr>]"
  have "first_fit s (place_item s i bins)" using none assms(2)
    by (simp add: new pack_inv_def first_fit_def sorted_wrt_append list_all_iff)
  with assms place_item_wf [of s bins i] show ?thesis
    by (simp add: pack_inv_def new bin_doubles_def item_ok_def item_volume_def dmul_def)
qed

lemma fold_place:
  "list_all item_ok items \<Longrightarrow> pack_inv s bins \<Longrightarrow>
    pack_inv s (fold (place_item s) items bins) \<and> packed (fold (place_item s) items bins) = packed bins + mset items"
  by (induction items arbitrary: bins) (simp_all add: place_item_inv place_item_packed)

text \<open>Packing into bins. Every item goes into exactly one bin; bins are numbered from 1 in order and
  none is empty; the volume and weight a bin records are the sums over its items in the order they
  were put in; a bin with two items or more keeps to 85% of the bin's volume and to its maximal
  weight; and the item that opened a bin would not fit into any earlier bin, even as they are at the
  end. An item that exceeds the limits on its own is not refused: it gets a bin to itself.\<close>

theorem pack_first_fit:
  assumes "list_all item_ok items"
  shows "mset (concat (map bin_items (pack3DBins items s))) = mset items \<and>
    map bin_index (pack3DBins items s) = [1..<Suc (length (pack3DBins items s))] \<and>
    list_all (bin_wf s) (pack3DBins items s) \<and>
    sorted_wrt (\<lambda>a b. \<not> fits s (hd (bin_items b)) a) (pack3DBins items s)"
proof -
  have "list_all item_ok (sort_key (\<lambda>i. - item_volume i) items)" using assms by (simp add: list_all_iff)
  moreover have "pack_inv s []" by (simp add: pack_inv_def bins_wf_def first_fit_def)
  ultimately have "pack_inv s (pack3DBins items s) \<and> packed (pack3DBins items s) = mset items"
    using fold_place [of "sort_key (\<lambda>i. - item_volume i) items" s "[]"] by (simp add: pack3DBins_def packed_def)
  then show ?thesis by (simp add: pack_inv_def packed_def bins_wf_def first_fit_def)
qed

definition sample_items :: "pack_item list" where
  "sample_items =
     [\<lparr> pi_id = ''small'', pi_lengthCm = 10, pi_widthCm = 10, pi_heightCm = 10, pi_weightKg = 1 \<rparr>,
      \<lparr> pi_id = ''huge'', pi_lengthCm = 300, pi_widthCm = 10, pi_heightCm = 10, pi_weightKg = 900 \<rparr>]"

definition sample_bin :: bin_spec where
  "sample_bin = \<lparr> bs_lengthCm = 100, bs_widthCm = 10, bs_heightCm = 10, bs_maxWeightKg = 20 \<rparr>"

theorem pack_first_fit_witness:
  "mset (concat (map bin_items (pack3DBins sample_items sample_bin))) = mset sample_items \<and>
    list_all (bin_wf sample_bin) (pack3DBins sample_items sample_bin) \<and>
    map (map pi_id \<circ> bin_items) (pack3DBins sample_items sample_bin) = [[''huge''], [''small'']]"
proof -
  have "list_all item_ok sample_items" by code_simp
  moreover have "map (map pi_id \<circ> bin_items) (pack3DBins sample_items sample_bin) = [[''huge''], [''small'']]"
    by code_simp
  ultimately show ?thesis using pack_first_fit [of sample_items sample_bin] by blast
qed

end
