(* ===== verification/Tax_Engine.thy ===== *)
theory Tax_Engine
  imports Prelude Double
begin

text \<open>
  The tax calculation of packages/common/src/billing/taxEngine.ts: the rule table, the matching
  of a rule by country and region, and the rounding of the tax in binary64 arithmetic.
\<close>

record TaxJurisdictionRule =
  tj_countryCode :: string
  tj_stateOrRegion :: "string option"
  tj_standardRatePercent :: rat
  tj_isOriginBased :: bool
  tj_taxLabel :: string

definition tax_rule :: "string \<Rightarrow> string option \<Rightarrow> rat \<Rightarrow> bool \<Rightarrow> string \<Rightarrow> TaxJurisdictionRule" where
  "tax_rule country region rate origin label =
     \<lparr> tj_countryCode = country, tj_stateOrRegion = region, tj_standardRatePercent = rate,
       tj_isOriginBased = origin, tj_taxLabel = label \<rparr>"

text \<open>Every rate of the table is a double (a multiple of an eighth).\<close>

definition tax_rules :: "TaxJurisdictionRule list" where
  "tax_rules =
     [tax_rule ''US'' (Some ''CA'') (725 / 100) False ''CA State Sales Tax'',
      tax_rule ''US'' (Some ''NY'') (8875 / 1000) False ''NY State & City Tax'',
      tax_rule ''US'' (Some ''TX'') (825 / 100) False ''TX Sales Tax'',
      tax_rule ''US'' (Some ''WA'') (65 / 10) False ''WA State Tax'',
      tax_rule ''GB'' None 20 True ''UK Standard VAT'',
      tax_rule ''DE'' None 19 True ''German MwSt'',
      tax_rule ''FR'' None 20 True ''French TVA'',
      tax_rule ''SG'' None 9 True ''Singapore GST'',
      tax_rule ''IN'' None 18 True ''India GST'']"

text \<open>Empty strings are falsy: a missing and an empty region are the same.\<close>

definition present :: "string option \<Rightarrow> string option" where
  "present s = (if s = Some [] then None else s)"

definition tax_rule_matches :: "string \<Rightarrow> string option \<Rightarrow> TaxJurisdictionRule \<Rightarrow> bool" where
  "tax_rule_matches countryCode stateOrRegion r =
     (if tj_countryCode r \<noteq> to_upper countryCode then False
      else case (present (tj_stateOrRegion r), present stateOrRegion) of
        (Some a, Some b) \<Rightarrow> to_upper a = to_upper b
      | _ \<Rightarrow> True)"

definition matched_rule :: "string \<Rightarrow> string option \<Rightarrow> TaxJurisdictionRule" where
  "matched_rule countryCode stateOrRegion =
     (case find (tax_rule_matches countryCode stateOrRegion) tax_rules of
        Some r \<Rightarrow> r
      | None \<Rightarrow> tax_rule countryCode None 5 False ''Standard Default Tax'')"

record tax_result =
  tr_taxCents :: int
  tr_ratePercent :: rat
  tr_taxLabel :: string

definition calculateTax :: "int \<Rightarrow> string \<Rightarrow> string option \<Rightarrow> tax_result" where
  "calculateTax subtotalCents countryCode stateOrRegion =
     (let matchedRule = matched_rule countryCode stateOrRegion;
          taxCents = Math_round (dmul (of_int subtotalCents) (ddiv (tj_standardRatePercent matchedRule) 100))
      in \<lparr> tr_taxCents = taxCents, tr_ratePercent = tj_standardRatePercent matchedRule,
           tr_taxLabel = tj_taxLabel matchedRule \<rparr>)"

section \<open>Properties\<close>

lemma matched_rate: "5 \<le> tj_standardRatePercent (matched_rule c r) \<and> tj_standardRatePercent (matched_rule c r) \<le> 20"
proof (cases "find (tax_rule_matches c r) tax_rules")
  case None
  then show ?thesis by (simp add: matched_rule_def tax_rule_def)
next
  case (Some x)
  from find_SomeD [OF Some] have "x \<in> set tax_rules" ..
  then show ?thesis by (auto simp: matched_rule_def Some tax_rules_def tax_rule_def)
qed

lemma Math_round_error: "\<bar>of_int (Math_round x) - x\<bar> \<le> 1 / 2"
  unfolding Math_round_def using floor_correct [of "x + 1 / 2"] by linarith

lemma Math_round_small: "0 \<le> Math_round x" if "0 \<le> x"
  using that by (simp add: Math_round_def)

text \<open>The tax is the rate's share of the amount, rounded. For an amount from 0 to \<open>10 ^ 12\<close> cents the
  tax is within half a cent, and a thousandth for the binary arithmetic, of the exact share; it is not
  negative, and no more on a smaller amount of the same place. The rate lies between 5% and 20%, a
  country code may be in either case, and a country the table does not name pays 5%.\<close>

theorem tax_is_rounded_share:
  assumes "0 \<le> c" and "c \<le> 10 ^ 12"
  shows "\<bar>of_int (tr_taxCents (calculateTax c country region)) - of_int c * tr_ratePercent (calculateTax c country region) / 100\<bar>
      \<le> 1 / 2 + 1 / 1000 \<and>
    0 \<le> tr_taxCents (calculateTax c country region) \<and>
    (\<forall>c' \<le> c. tr_taxCents (calculateTax c' country region) \<le> tr_taxCents (calculateTax c country region)) \<and>
    5 \<le> tr_ratePercent (calculateTax c country region) \<and> tr_ratePercent (calculateTax c country region) \<le> 20 \<and>
    tr_ratePercent (calculateTax c (to_upper country) region) = tr_ratePercent (calculateTax c country region) \<and>
    (to_upper country \<notin> tj_countryCode ` set tax_rules \<longrightarrow> tr_ratePercent (calculateTax c country region) = 5)"
proof -
  define q where "q = tj_standardRatePercent (matched_rule country region) / 100"
  have q: "0 \<le> q" "q \<le> 1 / 5" using matched_rate [of country region] by (simp_all add: q_def)
  have rate: "tr_ratePercent (calculateTax k country region) = tj_standardRatePercent (matched_rule country region)" for k
    by (simp add: calculateTax_def Let_def)
  have tax: "tr_taxCents (calculateTax k country region) = Math_round (dmul (of_int k) (fl q))" for k
    by (simp add: calculateTax_def Let_def q_def ddiv_def)
  have c: "0 \<le> (of_int c :: rat)" "(of_int c :: rat) \<le> 10 ^ 12"
    using assms by (simp, metis of_int_le_iff of_int_numeral of_int_power)
  have cq: "of_int c * q \<le> 10 ^ 12 * (1 / 5)" using c q by (intro mult_mono) auto
  then have "3 * (of_int c * q) / 2 ^ 53 \<le> 1 / 1000" by (simp add: mult.commute [of q])
  with fl_product_error [OF q(1) c(1)] have "\<bar>dmul (of_int c) (fl q) - of_int c * q\<bar> \<le> 1 / 1000" by linarith
  with Math_round_error [of "dmul (of_int c) (fl q)"]
  have near: "\<bar>of_int (Math_round (dmul (of_int c) (fl q))) - of_int c * q\<bar> \<le> 1 / 2 + 1 / 1000" by linarith
  have fq: "0 \<le> fl q" using q(1) by (rule fl_nonneg)
  have nonneg: "0 \<le> Math_round (dmul (of_int c) (fl q))"
    using c fq by (intro Math_round_small) (simp add: dmul_def fl_nonneg)
  have mono: "Math_round (dmul (of_int k) (fl q)) \<le> Math_round (dmul (of_int c) (fl q))" if "k \<le> c" for k
    using that fq unfolding dmul_def by (intro Math_round_mono fl_mono mult_right_mono) simp_all
  have upper: "tax_rule_matches (to_upper country) region = tax_rule_matches country region"
    by (rule ext) (simp add: tax_rule_matches_def)
  have default: "to_upper country \<notin> tj_countryCode ` set tax_rules \<Longrightarrow> find (tax_rule_matches country region) tax_rules = None"
    unfolding find_None_iff tax_rule_matches_def by (metis imageI)
  show ?thesis
  proof (intro conjI allI impI)
    show "\<bar>of_int (tr_taxCents (calculateTax c country region)) - of_int c * tr_ratePercent (calculateTax c country region) / 100\<bar>
      \<le> 1 / 2 + 1 / 1000" using near by (simp add: tax rate q_def)
    show "0 \<le> tr_taxCents (calculateTax c country region)" using nonneg by (simp add: tax)
    show "tr_taxCents (calculateTax k country region) \<le> tr_taxCents (calculateTax c country region)" if "k \<le> c" for k
      using mono [OF that] by (simp add: tax)
    show "5 \<le> tr_ratePercent (calculateTax c country region)" "tr_ratePercent (calculateTax c country region) \<le> 20"
      using matched_rate [of country region] by (simp_all add: rate)
    show "tr_ratePercent (calculateTax c (to_upper country) region) = tr_ratePercent (calculateTax c country region)"
      by (simp add: calculateTax_def Let_def matched_rule_def upper tax_rule_def split: option.split)
    show "tr_ratePercent (calculateTax c country region) = 5" if "to_upper country \<notin> tj_countryCode ` set tax_rules"
      using default [OF that] by (simp add: rate matched_rule_def tax_rule_def)
  qed
qed

text \<open>200 cents at 7.25% are 14.5 cents exactly; the code computes 14, not 15.\<close>

theorem tax_is_rounded_share_witness:
  "tr_taxCents (calculateTax 200 ''us'' (Some ''ca'')) = 14 \<and>
    (\<bar>14 - 200 * tr_ratePercent (calculateTax 200 ''us'' (Some ''ca'')) / 100\<bar> \<le> 1 / 2 + 1 / 1000) \<and>
    tr_taxCents (calculateTax 200 ''NL'' None) = 10"
proof -
  have t: "tr_taxCents (calculateTax 200 ''us'' (Some ''ca'')) = 14" by code_simp
  moreover have "tr_taxCents (calculateTax 200 ''NL'' None) = 10" by code_simp
  ultimately show ?thesis
    using tax_is_rounded_share [of 200 "''us''" "Some ''ca''", unfolded t, THEN conjunct1] by simp
qed

end
