(* ===== verification/Logistics.thy ===== *)
theory Logistics
  imports Prelude Common_Types Complex_Main
begin

text \<open>
  The logistics service (services/logistics-service): the vehicle, shipment and telemetry
  repository, the service operations over it and the tracking numbers of
  packages/common/src/utils/crypto.ts. Coordinates and speeds are numbers no operation computes
  with; \<open>toISOString\<close> timestamps are kept as the instant they render.
\<close>

section \<open>Entities\<close>

record GeoLocation =
  gl_latitude :: rat
  gl_longitude :: rat
  gl_altitude :: "rat option"
  gl_heading :: "rat option"
  gl_speedKmh :: "rat option"
  gl_timestamp :: instant

record VehicleEntity =
  ve_id :: string
  ve_tenantId :: string
  ve_vehicleNumber :: string
  ve_vin :: string
  ve_type :: VehicleType
  ve_status :: VehicleStatus
  ve_make :: string
  ve_model :: string
  ve_year :: int
  ve_maxPayloadKg :: rat
  ve_currentLatitude :: "rat option"
  ve_currentLongitude :: "rat option"
  ve_lastTelemetryAt :: "instant option"
  ve_createdAt :: instant

record DriverEntity =
  dr_id :: string
  dr_tenantId :: string
  dr_userId :: string
  dr_driverLicenseNumber :: string
  dr_firstName :: string
  dr_lastName :: string
  dr_phone :: string
  dr_isAvailable :: bool
  dr_assignedVehicleId :: "string option"
  dr_createdAt :: instant

datatype WaypointStatus = PENDING | ARRIVED | DEPARTED

record RouteWaypointEntity =
  wp_id :: string
  wp_shipmentId :: string
  wp_sequenceOrder :: nat
  wp_locationName :: string
  wp_latitude :: rat
  wp_longitude :: rat
  wp_status :: WaypointStatus
  wp_estimatedArrival :: "instant option"
  wp_actualArrival :: "instant option"

record ProofOfDelivery =
  pod_signatureUrl :: "string option"
  pod_photoUrl :: "string option"
  pod_recipientName :: string
  pod_signedAt :: instant
  pod_notes :: "string option"

record ShipmentEntity =
  sh_id :: string
  sh_tenantId :: string
  sh_orderId :: string
  sh_trackingNumber :: string
  sh_status :: ShipmentStatus
  sh_originWarehouseId :: string
  sh_destinationAddress :: Address
  sh_assignedVehicleId :: "string option"
  sh_assignedDriverId :: "string option"
  sh_waypoints :: "RouteWaypointEntity list"
  sh_dispatchedAt :: "instant option"
  sh_deliveredAt :: "instant option"
  sh_proofOfDelivery :: "ProofOfDelivery option"
  sh_createdAt :: instant
  sh_updatedAt :: instant

record TelemetryLogEntity =
  tl_id :: string
  tl_vehicleId :: string
  tl_shipmentId :: "string option"
  tl_location :: GeoLocation
  tl_engineTemperatureC :: "rat option"
  tl_fuelLevelPercent :: "rat option"
  tl_createdAt :: instant

section \<open>Request bodies\<close>

record CreateVehicleDTO =
  cv_tenantId :: string
  cv_vehicleNumber :: string
  cv_vin :: string
  cv_type :: VehicleType
  cv_make :: string
  cv_model :: string
  cv_year :: int
  cv_maxPayloadKg :: rat

record CreateShipmentDTO =
  cs_tenantId :: string
  cs_orderId :: string
  cs_originWarehouseId :: string
  cs_destinationAddress :: Address
  cs_assignedVehicleId :: "string option"
  cs_assignedDriverId :: "string option"

record RecordTelemetryDTO =
  rt_vehicleId :: string
  rt_shipmentId :: "string option"
  rt_latitude :: rat
  rt_longitude :: rat
  rt_speedKmh :: "rat option"
  rt_heading :: "rat option"

record SubmitPODDTO =
  sp_recipientName :: string
  sp_signatureUrl :: "string option"
  sp_photoUrl :: "string option"
  sp_notes :: "string option"

section \<open>The repository\<close>

record LogisticsRepository =
  lr_vehicles :: "(string, VehicleEntity) jsmap"
  lr_drivers :: "(string, DriverEntity) jsmap"
  lr_shipments :: "(string, ShipmentEntity) jsmap"
  lr_telemetry :: "TelemetryLogEntity list"

definition logistics_empty :: LogisticsRepository where
  "logistics_empty = \<lparr> lr_vehicles = [], lr_drivers = [], lr_shipments = [], lr_telemetry = [] \<rparr>"

definition lr_createVehicle :: "string \<Rightarrow> instant \<Rightarrow> VehicleEntity \<Rightarrow> LogisticsRepository \<Rightarrow> LogisticsRepository \<times> VehicleEntity" where
  "lr_createVehicle eid now veh s =
     (let entity = veh\<lparr> ve_id := eid, ve_createdAt := now \<rparr>
      in (s\<lparr> lr_vehicles := jm_set eid entity (lr_vehicles s) \<rparr>, entity))"

definition lr_listVehicles :: "string \<Rightarrow> LogisticsRepository \<Rightarrow> VehicleEntity list" where
  "lr_listVehicles tenantId s = filter (\<lambda>v. ve_tenantId v = tenantId) (jm_values (lr_vehicles s))"

definition findVehicleById :: "LogisticsRepository \<Rightarrow> string \<Rightarrow> VehicleEntity option" where
  "findVehicleById s eid = jm_get (lr_vehicles s) eid"

definition updateVehicleTelemetry :: "instant \<Rightarrow> string \<Rightarrow> rat \<Rightarrow> rat \<Rightarrow> LogisticsRepository \<Rightarrow> LogisticsRepository" where
  "updateVehicleTelemetry now eid lat lon s =
     (case jm_get (lr_vehicles s) eid of
        None \<Rightarrow> s
      | Some v \<Rightarrow> s\<lparr> lr_vehicles := jm_set eid (v\<lparr> ve_currentLatitude := Some lat, ve_currentLongitude := Some lon,
            ve_lastTelemetryAt := Some now, ve_status := VehicleStatus.EN_ROUTE \<rparr>) (lr_vehicles s) \<rparr>)"

definition lr_createShipment :: "string \<Rightarrow> instant \<Rightarrow> ShipmentEntity \<Rightarrow> LogisticsRepository \<Rightarrow> LogisticsRepository \<times> ShipmentEntity" where
  "lr_createShipment eid now shipment s =
     (let entity = shipment\<lparr> sh_id := eid, sh_createdAt := now, sh_updatedAt := now \<rparr>
      in (s\<lparr> lr_shipments := jm_set eid entity (lr_shipments s) \<rparr>, entity))"

definition findShipmentById :: "LogisticsRepository \<Rightarrow> string \<Rightarrow> ShipmentEntity option" where
  "findShipmentById s eid = jm_get (lr_shipments s) eid"

definition findShipmentByTracking :: "LogisticsRepository \<Rightarrow> string \<Rightarrow> ShipmentEntity option" where
  "findShipmentByTracking s trackingNumber =
     find (\<lambda>sh. sh_trackingNumber sh = trackingNumber) (jm_values (lr_shipments s))"

definition lr_listShipments :: "string \<Rightarrow> LogisticsRepository \<Rightarrow> ShipmentEntity list" where
  "lr_listShipments tenantId s = filter (\<lambda>sh. sh_tenantId sh = tenantId) (jm_values (lr_shipments s))"

definition updateShipment ::
  "instant \<Rightarrow> string \<Rightarrow> (ShipmentEntity \<Rightarrow> ShipmentEntity) \<Rightarrow> LogisticsRepository \<Rightarrow> LogisticsRepository \<times> ShipmentEntity option" where
  "updateShipment now eid updates s =
     (case jm_get (lr_shipments s) eid of
        None \<Rightarrow> (s, None)
      | Some existing \<Rightarrow>
          (let updated = (updates existing)\<lparr> sh_updatedAt := now \<rparr>
           in (s\<lparr> lr_shipments := jm_set eid updated (lr_shipments s) \<rparr>, Some updated)))"

definition lr_recordTelemetry :: "string \<Rightarrow> instant \<Rightarrow> TelemetryLogEntity \<Rightarrow> LogisticsRepository \<Rightarrow> LogisticsRepository \<times> TelemetryLogEntity" where
  "lr_recordTelemetry eid now entry s =
     (let entity = entry\<lparr> tl_id := eid, tl_createdAt := now \<rparr>
      in (s\<lparr> lr_telemetry := lr_telemetry s @ [entity] \<rparr>, entity))"

interpretation shipments: entity_repository findShipmentById
    "\<lambda>eid e s. s\<lparr> lr_shipments := jm_set eid e (lr_shipments s) \<rparr>" "updateShipment now"
    "\<lambda>e. e\<lparr> sh_updatedAt := now \<rparr>" for now
  by unfold_locales (simp_all add: findShipmentById_def updateShipment_def Let_def split: option.split)

section \<open>The service\<close>

text \<open>\<open>LOGIX-<base 36 milliseconds>-<six hex digits>\<close>; the three random bytes are rendered by the caller.\<close>

definition generateTrackingNumber :: "string \<Rightarrow> instant \<Rightarrow> string \<Rightarrow> string" where
  "generateTrackingNumber prefix now suffix_hex =
     prefix @ ''-'' @ to_upper (base_string 36 (nat now)) @ ''-'' @ to_upper suffix_hex"

definition createVehicle :: "string \<Rightarrow> instant \<Rightarrow> CreateVehicleDTO \<Rightarrow> LogisticsRepository \<Rightarrow> LogisticsRepository \<times> VehicleEntity" where
  "createVehicle eid now dto s =
     lr_createVehicle eid now
       \<lparr> ve_id = [], ve_tenantId = cv_tenantId dto, ve_vehicleNumber = cv_vehicleNumber dto, ve_vin = cv_vin dto,
         ve_type = cv_type dto, ve_status = VehicleStatus.AVAILABLE, ve_make = cv_make dto, ve_model = cv_model dto,
         ve_year = cv_year dto, ve_maxPayloadKg = cv_maxPayloadKg dto, ve_currentLatitude = None,
         ve_currentLongitude = None, ve_lastTelemetryAt = None, ve_createdAt = 0 \<rparr> s"

text \<open>The identifiers \<open>createShipment\<close> draws: two waypoints, the shipment, and the random suffix.\<close>

record shipment_ids =
  si_origin :: string
  si_destination :: string
  si_shipment :: string
  si_suffix :: string

definition shipment_waypoints :: "shipment_ids \<Rightarrow> instant \<Rightarrow> CreateShipmentDTO \<Rightarrow> RouteWaypointEntity list" where
  "shipment_waypoints ids now dto =
     [\<lparr> wp_id = si_origin ids, wp_shipmentId = [], wp_sequenceOrder = 1, wp_locationName = ''Origin Logistics Hub'',
        wp_latitude = 377749 / 10000, wp_longitude = - 1224194 / 10000, wp_status = DEPARTED,
        wp_estimatedArrival = None, wp_actualArrival = Some now \<rparr>,
      \<lparr> wp_id = si_destination ids, wp_shipmentId = [], wp_sequenceOrder = 2,
        wp_locationName = ''Destination: '' @ ad_city (cs_destinationAddress dto),
        wp_latitude = 373382 / 10000, wp_longitude = - 1218863 / 10000, wp_status = PENDING,
        wp_estimatedArrival = Some (now + 4 * 60 * 60 * 1000), wp_actualArrival = None \<rparr>]"

definition createShipment ::
  "shipment_ids \<Rightarrow> instant \<Rightarrow> CreateShipmentDTO \<Rightarrow> LogisticsRepository \<Rightarrow> LogisticsRepository \<times> ShipmentEntity" where
  "createShipment ids now dto s =
     lr_createShipment (si_shipment ids) now
       \<lparr> sh_id = [], sh_tenantId = cs_tenantId dto, sh_orderId = cs_orderId dto,
         sh_trackingNumber = generateTrackingNumber ''LOGIX'' now (si_suffix ids),
         sh_status = ShipmentStatus.DISPATCHED, sh_originWarehouseId = cs_originWarehouseId dto,
         sh_destinationAddress = cs_destinationAddress dto, sh_assignedVehicleId = cs_assignedVehicleId dto,
         sh_assignedDriverId = cs_assignedDriverId dto, sh_waypoints = shipment_waypoints ids now dto,
         sh_dispatchedAt = Some now, sh_deliveredAt = None, sh_proofOfDelivery = None,
         sh_createdAt = 0, sh_updatedAt = 0 \<rparr> s"

text \<open>\<open>dto.speedKmh || 65\<close>: a missing number and the number 0 give the default.\<close>

definition or_number :: "rat option \<Rightarrow> rat \<Rightarrow> rat" where
  "or_number n d = (case n of None \<Rightarrow> d | Some x \<Rightarrow> if x = 0 then d else x)"

definition recordTelemetry :: "string \<Rightarrow> instant \<Rightarrow> RecordTelemetryDTO \<Rightarrow> LogisticsRepository \<Rightarrow> LogisticsRepository \<times> TelemetryLogEntity" where
  "recordTelemetry eid now dto s =
     (let s1 = updateVehicleTelemetry now (rt_vehicleId dto) (rt_latitude dto) (rt_longitude dto) s
      in lr_recordTelemetry eid now
           \<lparr> tl_id = [], tl_vehicleId = rt_vehicleId dto, tl_shipmentId = rt_shipmentId dto,
             tl_location = \<lparr> gl_latitude = rt_latitude dto, gl_longitude = rt_longitude dto, gl_altitude = None,
               gl_heading = Some (or_number (rt_heading dto) 180), gl_speedKmh = Some (or_number (rt_speedKmh dto) 65),
               gl_timestamp = now \<rparr>,
             tl_engineTemperatureC = None, tl_fuelLevelPercent = None, tl_createdAt = 0 \<rparr> s1)"

definition pod_of :: "instant \<Rightarrow> SubmitPODDTO \<Rightarrow> ProofOfDelivery" where
  "pod_of now dto = \<lparr> pod_signatureUrl = sp_signatureUrl dto, pod_photoUrl = sp_photoUrl dto,
     pod_recipientName = sp_recipientName dto, pod_signedAt = now, pod_notes = sp_notes dto \<rparr>"

text \<open>The delivery, the signature and the update each read the clock: \<open>clock 0\<close>, \<open>clock 1\<close> and \<open>clock 2\<close>.\<close>

definition mark_delivered :: "(nat \<Rightarrow> instant) \<Rightarrow> SubmitPODDTO \<Rightarrow> ShipmentEntity \<Rightarrow> ShipmentEntity" where
  "mark_delivered clock dto sh = sh\<lparr> sh_status := ShipmentStatus.DELIVERED, sh_deliveredAt := Some (clock 0),
     sh_proofOfDelivery := Some (pod_of (clock 1) dto) \<rparr>"

definition submitProofOfDelivery ::
  "string \<Rightarrow> (nat \<Rightarrow> instant) \<Rightarrow> SubmitPODDTO \<Rightarrow> LogisticsRepository \<Rightarrow> LogisticsRepository \<times> ShipmentEntity option outcome" where
  "submitProofOfDelivery shipmentId clock dto s =
     (case findShipmentById s shipmentId of
        None \<Rightarrow> (s, Inl (NotFoundException ''Shipment'' (Some shipmentId)))
      | Some _ \<Rightarrow> (let (s', r) = updateShipment (clock 2) shipmentId (mark_delivered clock dto) s in (s', Inr r)))"

definition getShipment :: "string \<Rightarrow> LogisticsRepository \<Rightarrow> ShipmentEntity outcome" where
  "getShipment eid s =
     (case findShipmentById s eid of
        None \<Rightarrow> Inl (NotFoundException ''Shipment'' (Some eid))
      | Some sh \<Rightarrow> Inr sh)"

definition trackShipment :: "string \<Rightarrow> LogisticsRepository \<Rightarrow> ShipmentEntity outcome" where
  "trackShipment trackingNumber s =
     (case findShipmentByTracking s trackingNumber of
        None \<Rightarrow> Inl (NotFoundException ''Shipment with tracking number'' (Some trackingNumber))
      | Some sh \<Rightarrow> Inr sh)"

definition listShipments :: "string \<Rightarrow> LogisticsRepository \<Rightarrow> ShipmentEntity list" where
  "listShipments tenantId s = lr_listShipments tenantId s"

definition listVehicles :: "string \<Rightarrow> LogisticsRepository \<Rightarrow> VehicleEntity list" where
  "listVehicles tenantId s = lr_listVehicles tenantId s"

section \<open>Histories and what they promise\<close>

datatype logistics_call =
    CreateVehicle string instant CreateVehicleDTO
  | CreateShipment shipment_ids instant CreateShipmentDTO
  | RecordTelemetry string instant RecordTelemetryDTO
  | SubmitPOD string "nat \<Rightarrow> instant" SubmitPODDTO

fun logistics_step :: "logistics_call \<Rightarrow> LogisticsRepository \<Rightarrow> LogisticsRepository" where
  "logistics_step (CreateVehicle eid now dto) s = fst (createVehicle eid now dto s)"
| "logistics_step (CreateShipment ids now dto) s = fst (createShipment ids now dto s)"
| "logistics_step (RecordTelemetry eid now dto) s = fst (recordTelemetry eid now dto s)"
| "logistics_step (SubmitPOD eid clock dto) s = fst (submitProofOfDelivery eid clock dto s)"

text \<open>The abstract service: a shipment is the request that created it, its tracking number, and the
  proof of delivery submitted last with the time of that delivery, if any.\<close>

record shipment_spec =
  ss_request :: CreateShipmentDTO
  ss_tracking :: string
  ss_delivery :: "(instant \<times> ProofOfDelivery) option"

fun spec_step :: "logistics_call \<Rightarrow> (string \<Rightarrow> shipment_spec option) \<Rightarrow> (string \<Rightarrow> shipment_spec option)" where
  "spec_step (CreateShipment ids now dto) m =
     m(si_shipment ids \<mapsto> \<lparr> ss_request = dto, ss_tracking = generateTrackingNumber ''LOGIX'' now (si_suffix ids), ss_delivery = None \<rparr>)"
| "spec_step (SubmitPOD eid clock dto) m =
     m(eid := map_option (\<lambda>a. a\<lparr> ss_delivery := Some (clock 0, pod_of (clock 1) dto) \<rparr>) (m eid))"
| "spec_step _ m = m"

definition shipment_abs :: "ShipmentEntity \<Rightarrow> shipment_spec" where
  "shipment_abs sh =
     \<lparr> ss_request = \<lparr> cs_tenantId = sh_tenantId sh, cs_orderId = sh_orderId sh,
         cs_originWarehouseId = sh_originWarehouseId sh, cs_destinationAddress = sh_destinationAddress sh,
         cs_assignedVehicleId = sh_assignedVehicleId sh, cs_assignedDriverId = sh_assignedDriverId sh \<rparr>,
       ss_tracking = sh_trackingNumber sh, 
       ss_delivery = (case (sh_deliveredAt sh, sh_proofOfDelivery sh) of (Some d, Some p) \<Rightarrow> Some (d, p) | _ \<Rightarrow> None) \<rparr>"

definition logistics_abs :: "LogisticsRepository \<Rightarrow> string \<Rightarrow> shipment_spec option" where
  "logistics_abs s eid = map_option shipment_abs (findShipmentById s eid)"

definition shipment_ok :: "ShipmentEntity \<Rightarrow> bool" where
  "shipment_ok sh \<longleftrightarrow>
     sh_status sh = (if sh_proofOfDelivery sh = None then ShipmentStatus.DISPATCHED else ShipmentStatus.DELIVERED) \<and>
     (sh_deliveredAt sh = None) = (sh_proofOfDelivery sh = None) \<and>
     length (sh_waypoints sh) = 2"

definition logistics_inv :: "LogisticsRepository \<Rightarrow> bool" where
  "logistics_inv s \<longleftrightarrow> keyed sh_id (lr_shipments s) \<and> keyed ve_id (lr_vehicles s) \<and>
     (\<forall>sh \<in> set (jm_values (lr_shipments s)). shipment_ok sh) \<and>
     (\<forall>v \<in> set (jm_values (lr_vehicles s)).
        ve_status v = (if ve_lastTelemetryAt v = None then VehicleStatus.AVAILABLE else VehicleStatus.EN_ROUTE))"

lemmas logistics_defs = createVehicle_def lr_createVehicle_def createShipment_def lr_createShipment_def
  recordTelemetry_def lr_recordTelemetry_def updateVehicleTelemetry_def submitProofOfDelivery_def
  updateShipment_def findShipmentById_def Let_def

lemma step_abs: "logistics_abs (logistics_step c s) = spec_step c (logistics_abs s)"
proof (cases c)
  case (CreateShipment ids now dto)
  show ?thesis unfolding CreateShipment
    by (rule ext) (simp add: logistics_abs_def logistics_defs shipment_abs_def)
next
  case (SubmitPOD eid clock dto)
  show ?thesis unfolding SubmitPOD
    by (rule ext) (simp add: logistics_abs_def logistics_defs shipment_abs_def mark_delivered_def split: option.split)
qed (auto simp: logistics_abs_def logistics_defs fun_eq_iff split: option.split)

lemma step_inv: "logistics_inv s \<Longrightarrow> logistics_inv (logistics_step c s)"
proof (cases c)
  case (SubmitPOD eid clock dto)
  assume inv: "logistics_inv s"
  show ?thesis
  proof (cases "jm_get (lr_shipments s) eid")
    case None
    with inv SubmitPOD show ?thesis by (simp add: logistics_defs)
  next
    case (Some sh)
    then have "sh \<in> set (jm_values (lr_shipments s))" "sh_id sh = eid"
      using inv jm_get_value keyed_get by (fastforce simp: logistics_inv_def)+
    with inv Some SubmitPOD show ?thesis
      by (auto simp: logistics_inv_def logistics_defs mark_delivered_def pod_of_def shipment_ok_def dest!: jm_set_value)
  qed
next
  case (RecordTelemetry eid now dto)
  assume inv: "logistics_inv s"
  show ?thesis
  proof (cases "jm_get (lr_vehicles s) (rt_vehicleId dto)")
    case None
    with inv RecordTelemetry show ?thesis by (simp add: logistics_inv_def logistics_defs)
  next
    case (Some v)
    then have "ve_id v = rt_vehicleId dto" using inv keyed_get by (fastforce simp: logistics_inv_def)
    with inv Some RecordTelemetry show ?thesis
      by (auto simp: logistics_inv_def logistics_defs dest!: jm_set_value)
  qed
qed (auto simp: logistics_inv_def logistics_defs shipment_ok_def shipment_waypoints_def dest!: jm_set_value)

interpretation logistics_machine: invariant_machine logistics_step logistics_inv
  by unfold_locales (rule step_inv)

lemma run_abs: "logistics_abs (fold logistics_step cs s) = fold spec_step cs (logistics_abs s)"
  by (induction cs arbitrary: s) (simp_all add: step_abs)

lemma logistics_start: "logistics_inv logistics_empty" "logistics_abs logistics_empty = Map.empty"
  by (simp_all add: logistics_inv_def logistics_empty_def logistics_abs_def findShipmentById_def fun_eq_iff)

text \<open>C27: shipments follow the abstract service. After any sequence of calls, from the empty repository, a
  shipment is found exactly if it was created, with the fields of the request and the tracking number
  it was created with, the proof of delivery submitted last and the time of that delivery; it is DELIVERED, with
  a time of delivery, if there is a proof, and DISPATCHED without one if there is none. A tracking number finds a shipment that
  carries it exactly if there is one. A vehicle is EN_ROUTE as soon as it has reported once, and
  AVAILABLE until then.\<close>

theorem logistics_refines:
  "let s = fold logistics_step cs logistics_empty in
    logistics_abs s = fold spec_step cs Map.empty \<and>
    list_all (\<lambda>(eid, sh). sh_id sh = eid \<and>
      sh_status sh = (if sh_proofOfDelivery sh = None then ShipmentStatus.DISPATCHED else ShipmentStatus.DELIVERED) \<and>
      (sh_deliveredAt sh = None) = (sh_proofOfDelivery sh = None)) (lr_shipments s) \<and>
    (case trackShipment tn s of
       Inl e \<Rightarrow> tn \<notin> sh_trackingNumber ` set (jm_values (lr_shipments s))
     | Inr sh \<Rightarrow> sh_trackingNumber sh = tn \<and> getShipment (sh_id sh) s = Inr sh) \<and>
    list_all (\<lambda>v. ve_status v = (if ve_lastTelemetryAt v = None then VehicleStatus.AVAILABLE else VehicleStatus.EN_ROUTE))
      (jm_values (lr_vehicles s))"
proof -
  define s where "s = fold logistics_step cs logistics_empty"
  have inv: "logistics_inv s" unfolding s_def by (rule logistics_machine.run_keeps) (rule logistics_start)
  have abs: "logistics_abs s = fold spec_step cs Map.empty" unfolding s_def by (simp add: run_abs logistics_start)
  have track: "case trackShipment tn s of
       Inl e \<Rightarrow> tn \<notin> sh_trackingNumber ` set (jm_values (lr_shipments s))
     | Inr sh \<Rightarrow> sh_trackingNumber sh = tn \<and> getShipment (sh_id sh) s = Inr sh"
  proof (cases "findShipmentByTracking s tn")
    case None
    then have "tn \<notin> sh_trackingNumber ` set (jm_values (lr_shipments s))"
      by (auto simp: findShipmentByTracking_def find_None_iff)
    then show ?thesis by (simp add: trackShipment_def None)
  next
    case (Some sh)
    then have "sh \<in> set (jm_values (lr_shipments s))" "sh_trackingNumber sh = tn"
      using find_SomeD unfolding findShipmentByTracking_def by fast+
    moreover from this(1) have "jm_get (lr_shipments s) (sh_id sh) = Some sh"
      using inv keyed_value unfolding logistics_inv_def by fast
    ultimately show ?thesis by (simp add: trackShipment_def Some getShipment_def findShipmentById_def)
  qed
  have rows: "list_all (\<lambda>(eid, sh). sh_id sh = eid \<and>
      sh_status sh = (if sh_proofOfDelivery sh = None then ShipmentStatus.DISPATCHED else ShipmentStatus.DELIVERED) \<and>
      (sh_deliveredAt sh = None) = (sh_proofOfDelivery sh = None)) (lr_shipments s)"
    using inv unfolding logistics_inv_def keyed_def list_all_iff jm_values_def by (fastforce simp: shipment_ok_def)
  from inv have "list_all (\<lambda>v. ve_status v = (if ve_lastTelemetryAt v = None then VehicleStatus.AVAILABLE else VehicleStatus.EN_ROUTE))
      (jm_values (lr_vehicles s))" by (simp add: logistics_inv_def list_all_iff)
  with abs track rows show ?thesis unfolding s_def [symmetric] Let_def by (intro conjI)
qed

end
