(* ===== verification/Access_Control.thy ===== *)
theory Access_Control
  imports Prelude Common_Types
begin

text \<open>
  The access-control engines of the auth service: the hierarchical role evaluator
  (policies/HierarchicalRolePermissionEvaluator.ts), the OAuth2 authorization codes
  (security/OAuth2AuthorizationServer.ts), the token revocation list
  (security/SessionTokenRevocationList.ts) and the hash-chained audit log
  (audit/SecurityAuditEventLogger.ts).
\<close>

section \<open>Hierarchical roles\<close>

datatype TenantScope = GLOBAL | TENANT_SPECIFIC

record IRoleDefinition =
  rd_roleId :: string
  rd_roleName :: string
  rd_inheritsFrom :: "string list"
  rd_permissions :: "string list"
  rd_tenantScope :: TenantScope

text \<open>A missing \<open>inheritsFrom\<close> is the empty list, a missing \<open>isOwner\<close> is false; the environment
  attributes of a request are read by nothing and left out.\<close>

record IAccessEvaluationContext =
  ac_userId :: string
  ac_userRoles :: "string list"
  ac_tenantId :: string
  ac_targetResource :: string
  ac_targetAction :: string
  ac_resourceTenantId :: string
  ac_isOwner :: bool

type_synonym role_map = "(string, IRoleDefinition) jsmap"

definition registerRole :: "IRoleDefinition \<Rightarrow> role_map \<Rightarrow> role_map" where
  "registerRole role roles = jm_set (rd_roleId role) role roles"

definition standard_roles :: "IRoleDefinition list" where
  "standard_roles =
     [\<lparr> rd_roleId = ''SUPER_ADMIN'', rd_roleName = ''Platform Super Administrator'', rd_inheritsFrom = [],
        rd_permissions = [''*''], rd_tenantScope = GLOBAL \<rparr>,
      \<lparr> rd_roleId = ''OPERATIONS_MANAGER'', rd_roleName = ''Operations Center Manager'',
        rd_inheritsFrom = [''DISPATCHER'', ''INVENTORY_MANAGER''],
        rd_permissions = [''order:create'', ''order:read'', ''order:update'', ''order:cancel'',
          ''inventory:read'', ''inventory:adjust'', ''inventory:reserve'',
          ''logistics:dispatch'', ''logistics:track'', ''logistics:assign_carrier'',
          ''reports:view'', ''reports:export''], rd_tenantScope = TENANT_SPECIFIC \<rparr>,
      \<lparr> rd_roleId = ''DISPATCHER'', rd_roleName = ''Fleet Dispatch Officer'', rd_inheritsFrom = [],
        rd_permissions = [''logistics:dispatch'', ''logistics:track'', ''logistics:update_waypoint'', ''logistics:pod_sign''],
        rd_tenantScope = TENANT_SPECIFIC \<rparr>,
      \<lparr> rd_roleId = ''INVENTORY_MANAGER'', rd_roleName = ''Warehouse & Inventory Manager'', rd_inheritsFrom = [],
        rd_permissions = [''inventory:read'', ''inventory:adjust'', ''inventory:bin_allocate'', ''inventory:cycle_count''],
        rd_tenantScope = TENANT_SPECIFIC \<rparr>,
      \<lparr> rd_roleId = ''FINANCE_OFFICER'', rd_roleName = ''Billing & General Ledger Officer'', rd_inheritsFrom = [],
        rd_permissions = [''billing:invoice_create'', ''billing:ledger_post'', ''billing:reconcile'', ''reports:financial_export''],
        rd_tenantScope = TENANT_SPECIFIC \<rparr>,
      \<lparr> rd_roleId = ''DRIVER'', rd_roleName = ''Fleet Vehicle Driver'', rd_inheritsFrom = [],
        rd_permissions = [''logistics:read_assigned'', ''logistics:telemetry_ping'', ''logistics:pod_upload''],
        rd_tenantScope = TENANT_SPECIFIC \<rparr>]"

definition initializeStandardRoles :: role_map where
  "initializeStandardRoles = fold registerRole standard_roles []"

text \<open>\<open>traverseRole\<close> over a list of pending roles: the recursive calls on the parents come before the
  rest of the list, and both sets are shared by all calls. Roles may inherit from each other in
  cycles; a visited role is not entered again.\<close>

function traverseRole :: "role_map \<Rightarrow> string list \<Rightarrow> string list \<times> string list \<Rightarrow> string list \<times> string list" where
  "traverseRole roles [] st = st"
| "traverseRole roles (r # pending) (visited, permissions) =
     (if r \<in> set visited then traverseRole roles pending (visited, permissions)
      else case jm_get roles r of
        None \<Rightarrow> traverseRole roles pending (r # visited, permissions)
      | Some role \<Rightarrow>
          traverseRole roles (rd_inheritsFrom role @ pending) (r # visited, permissions @ rd_permissions role))"
  by pat_completeness auto
termination
proof (relation "measures [\<lambda>(roles, pending, st). card (fst ` set roles - set (fst st)), \<lambda>(roles, pending, st). length pending]", goal_cases)
  case (4 roles r pending visited permissions role)
  then have "r \<in> fst ` set roles" by (force dest: map_of_SomeD)
  with 4 have "fst ` set roles - set (r # visited) \<subset> fst ` set roles - set visited" by auto
  then have "card (fst ` set roles - set (r # visited)) < card (fst ` set roles - set visited)"
    by (intro psubset_card_mono) auto
  then show ?case by simp
next
  case (3 roles r pending visited permissions)
  have "card (fst ` set roles - set (r # visited)) \<le> card (fst ` set roles - set visited)"
    by (intro card_mono) auto
  then show ?case by (auto simp: le_less)
qed auto

definition getEffectivePermissions :: "role_map \<Rightarrow> string list \<Rightarrow> string list" where
  "getEffectivePermissions roles roleIds = snd (traverseRole roles roleIds ([], []))"

definition evaluateAccess :: "role_map \<Rightarrow> IAccessEvaluationContext \<Rightarrow> bool" where
  "evaluateAccess roles ctx =
     (if ac_tenantId ctx \<noteq> ac_resourceTenantId ctx \<and> ''SUPER_ADMIN'' \<notin> set (ac_userRoles ctx) then False
      else let effective = set (getEffectivePermissions roles (ac_userRoles ctx))
        in if ''*'' \<in> effective then True
           else if ac_targetResource ctx @ '':'' @ ac_targetAction ctx \<in> effective \<or> ac_targetResource ctx @ '':*'' \<in> effective then True
           else if ac_isOwner ctx \<and> (ac_targetAction ctx = ''read'' \<or> ac_targetAction ctx = ''update'') then True
           else False)"

subsection \<open>The closure the traversal computes\<close>

definition inherits :: "role_map \<Rightarrow> string rel" where
  "inherits roles = {(a, b). \<exists>role. jm_get roles a = Some role \<and> b \<in> set (rd_inheritsFrom role)}"

definition role_grants :: "role_map \<Rightarrow> string \<Rightarrow> string set" where
  "role_grants roles r = (case jm_get roles r of None \<Rightarrow> {} | Some role \<Rightarrow> set (rd_permissions role))"

text \<open>The permissions of every role that is inherited, directly or not, by one of the given ones.\<close>

definition granted :: "role_map \<Rightarrow> string list \<Rightarrow> string set" where
  "granted roles roots = (\<Union>r \<in> (inherits roles)\<^sup>* `` set roots. role_grants roles r)"

definition frontier :: "role_map \<Rightarrow> string list \<Rightarrow> string list \<Rightarrow> string list \<times> string list \<Rightarrow> bool" where
  "frontier roles roots pending st \<longleftrightarrow>
     set roots \<subseteq> set (fst st) \<union> set pending \<and>
     set (fst st) \<union> set pending \<subseteq> (inherits roles)\<^sup>* `` set roots \<and>
     inherits roles `` set (fst st) \<subseteq> set (fst st) \<union> set pending \<and>
     set (snd st) = (\<Union>r \<in> set (fst st). role_grants roles r)"

lemma traverse_frontier:
  "frontier roles roots pending st \<Longrightarrow> frontier roles roots [] (traverseRole roles pending st)"
proof (induction roles pending st rule: traverseRole.induct)
  case (2 roles r pending visited permissions)
  show ?case
  proof (cases "r \<in> set visited")
    case True
    with 2(4) have "frontier roles roots pending (visited, permissions)"
      by (simp add: frontier_def insert_absorb)
    from 2(1) [OF True this] True show ?thesis by simp
  next
    case False
    have r: "r \<in> (inherits roles)\<^sup>* `` set roots" using 2(4) by (auto simp: frontier_def)
    show ?thesis
    proof (cases "jm_get roles r")
      case None
      then have "inherits roles `` {r} = {}" "role_grants roles r = {}" by (auto simp: inherits_def role_grants_def)
      with 2(4) have "frontier roles roots pending (r # visited, permissions)" by (auto simp: frontier_def)
      with 2(2) [OF False None] False None show ?thesis by simp
    next
      case (Some role)
      then have succ: "inherits roles `` {r} = set (rd_inheritsFrom role)" "role_grants roles r = set (rd_permissions role)"
        by (auto simp: inherits_def role_grants_def)
      have "set (rd_inheritsFrom role) \<subseteq> (inherits roles)\<^sup>* `` set roots"
        using r unfolding succ(1) [symmetric] by (auto intro: rtrancl_into_rtrancl)
      with succ 2(4) have "frontier roles roots (rd_inheritsFrom role @ pending) (r # visited, permissions @ rd_permissions role)"
        by (auto simp: frontier_def)
      with 2(3) [OF False Some] False Some show ?thesis by simp
    qed
  qed
qed simp

lemma effective_granted: "set (getEffectivePermissions roles roots) = granted roles roots"
proof -
  define st where "st = traverseRole roles roots ([], [])"
  have "frontier roles roots roots ([], [])" by (auto simp: frontier_def)
  then have f: "frontier roles roots [] st" unfolding st_def by (rule traverse_frontier)
  have "(inherits roles)\<^sup>* `` set roots \<subseteq> set (fst st)"
  proof
    fix b
    assume "b \<in> (inherits roles)\<^sup>* `` set roots"
    then obtain a where "a \<in> set roots" "(a, b) \<in> (inherits roles)\<^sup>*" by blast
    from this(2,1) show "b \<in> set (fst st)" by induction (use f in \<open>auto simp: frontier_def\<close>)
  qed
  with f have "set (fst st) = (inherits roles)\<^sup>* `` set roots" by (auto simp: frontier_def)
  with f show ?thesis by (simp add: getEffectivePermissions_def granted_def frontier_def st_def)
qed

text \<open>C11: access is granted by the closure of the roles. Access is refused across tenants to anyone without
  the role SUPER_ADMIN; within the tenant it is granted exactly if a role of the user, or one inherited
  from it through any number of steps, cyclic or not, carries \<open>*\<close>, the required permission or the
  resource's wildcard, or if an owner reads or updates. The search for the permissions always ends.
  More roles never take a permission away.\<close>

theorem access_is_role_closure:
  "(evaluateAccess roles ctx \<longleftrightarrow>
     (ac_tenantId ctx = ac_resourceTenantId ctx \<or> ''SUPER_ADMIN'' \<in> set (ac_userRoles ctx)) \<and>
     ((\<exists>p \<in> granted roles (ac_userRoles ctx).
        p \<in> {''*'', ac_targetResource ctx @ '':'' @ ac_targetAction ctx, ac_targetResource ctx @ '':*''}) \<or>
      ac_isOwner ctx \<and> ac_targetAction ctx \<in> {''read'', ''update''})) \<and>
    granted roles (ac_userRoles ctx) \<subseteq> granted roles (ac_userRoles ctx @ extra)"
proof -
  have "granted roles (ac_userRoles ctx) \<subseteq> granted roles (ac_userRoles ctx @ extra)" by (auto simp: granted_def)
  then show ?thesis by (auto simp: evaluateAccess_def effective_granted Let_def)
qed

section \<open>OAuth2 authorization codes\<close>

datatype grant_type = authorization_code | client_credentials | refresh_token
datatype challenge_method = S256 | plain

record IOAuthClient =
  oc_clientId :: string
  oc_clientSecretHash :: string
  oc_redirectUris :: "string list"
  oc_allowedGrants :: "grant_type list"
  oc_allowedScopes :: "string list"
  oc_tenantId :: string
  oc_isTrusted :: bool

record IAuthorizationCode =
  oa_code :: string
  oa_clientId :: string
  oa_userId :: string
  oa_tenantId :: string
  oa_redirectUri :: string
  oa_scope :: string
  oa_codeChallenge :: "string option"
  oa_codeChallengeMethod :: "challenge_method option"
  oa_expiresAt :: instant
  oa_isUsed :: bool

record oauth_server =
  os_clients :: "(string, IOAuthClient) jsmap"
  os_authCodes :: "(string, IAuthorizationCode) jsmap"
  os_tokenBlacklist :: "string list"

definition oauth_empty :: oauth_server where
  "oauth_empty = \<lparr> os_clients = [], os_authCodes = [], os_tokenBlacklist = [] \<rparr>"

definition registerClient :: "IOAuthClient \<Rightarrow> oauth_server \<Rightarrow> oauth_server \<times> unit outcome" where
  "registerClient client s =
     (if oc_clientId client = [] \<or> oc_redirectUris client = []
      then (s, Inl (PlainError ''Invalid OAuth2 client configuration''))
      else (s\<lparr> os_clients := jm_set (oc_clientId client) client (os_clients s) \<rparr>, Inr ()))"

text \<open>What a caller asks for; \<open>cr_random\<close> are the base-36 digits drawn by \<open>Math.random\<close>.\<close>

record code_request =
  cr_clientId :: string
  cr_userId :: string
  cr_tenantId :: string
  cr_redirectUri :: string
  cr_scope :: string
  cr_codeChallenge :: "string option"
  cr_codeChallengeMethod :: "challenge_method option"
  cr_random :: string

definition code_string :: "instant \<Rightarrow> code_request \<Rightarrow> string" where
  "code_string now q = ''auth_code_'' @ cr_random q @ base_string 36 (nat now)"

definition issueAuthorizationCode :: "instant \<Rightarrow> code_request \<Rightarrow> oauth_server \<Rightarrow> oauth_server \<times> string outcome" where
  "issueAuthorizationCode now q s =
     (case jm_get (os_clients s) (cr_clientId q) of
        None \<Rightarrow> (s, Inl (PlainError ''Unauthorized client''))
      | Some client \<Rightarrow>
          if cr_redirectUri q \<notin> set (oc_redirectUris client) then (s, Inl (PlainError ''Redirect URI mismatch''))
          else let code = code_string now q
            in (s\<lparr> os_authCodes := jm_set code
                  \<lparr> oa_code = code, oa_clientId = cr_clientId q, oa_userId = cr_userId q, oa_tenantId = cr_tenantId q,
                    oa_redirectUri = cr_redirectUri q, oa_scope = cr_scope q, oa_codeChallenge = cr_codeChallenge q,
                    oa_codeChallengeMethod = cr_codeChallengeMethod q, oa_expiresAt = now + 10 * 60 * 1000,
                    oa_isUsed = False \<rparr> (os_authCodes s) \<rparr>, Inr code))"

text \<open>The claims the two token strings encode: base64 of their JSON, unsigned.\<close>

record token_grant =
  tg_access_sub :: string
  tg_access_tenant :: string
  tg_access_exp :: instant
  tg_refresh_sub :: string
  tg_refresh_exp :: instant
  tg_expiresIn :: nat

definition exchangeCodeForTokens ::
  "instant \<Rightarrow> string \<Rightarrow> string \<Rightarrow> string \<Rightarrow> string option \<Rightarrow> oauth_server \<Rightarrow> oauth_server \<times> token_grant outcome" where
  "exchangeCodeForTokens now code clientId redirectUri codeVerifier s =
     (case jm_get (os_authCodes s) code of
        None \<Rightarrow> (s, Inl (PlainError ''Invalid authorization code''))
      | Some authCode \<Rightarrow>
          if oa_isUsed authCode \<or> oa_expiresAt authCode < now
          then (s\<lparr> os_authCodes := jm_delete code (os_authCodes s) \<rparr>,
                Inl (PlainError ''Authorization code expired or previously used''))
          else if oa_clientId authCode \<noteq> clientId \<or> oa_redirectUri authCode \<noteq> redirectUri
          then (s, Inl (PlainError ''Client or redirect URI mismatch during exchange''))
          else if or_else (oa_codeChallenge authCode) None \<noteq> None \<and> or_else codeVerifier None = None
          then (s, Inl (PlainError ''Code verifier required for PKCE''))
          else (s\<lparr> os_authCodes := jm_set code (authCode\<lparr> oa_isUsed := True \<rparr>) (os_authCodes s) \<rparr>,
                Inr \<lparr> tg_access_sub = oa_userId authCode, tg_access_tenant = oa_tenantId authCode,
                  tg_access_exp = now + 3600000, tg_refresh_sub = oa_userId authCode,
                  tg_refresh_exp = now + 86400000 * 30, tg_expiresIn = 3600 \<rparr>))"

definition oauth_revokeToken :: "string \<Rightarrow> oauth_server \<Rightarrow> oauth_server" where
  "oauth_revokeToken token s = s\<lparr> os_tokenBlacklist := List.insert token (os_tokenBlacklist s) \<rparr>"

definition oauth_isTokenRevoked :: "string \<Rightarrow> oauth_server \<Rightarrow> bool" where
  "oauth_isTokenRevoked token s \<longleftrightarrow> token \<in> set (os_tokenBlacklist s)"

datatype oauth_call =
    RegisterClient IOAuthClient
  | IssueCode instant code_request
  | ExchangeCode instant string string string "string option"
  | RevokeToken string

fun oauth_step :: "oauth_call \<Rightarrow> oauth_server \<Rightarrow> oauth_server" where
  "oauth_step (RegisterClient client) s = fst (registerClient client s)"
| "oauth_step (IssueCode now q) s = fst (issueAuthorizationCode now q s)"
| "oauth_step (ExchangeCode now code client redirect verifier) s =
     fst (exchangeCodeForTokens now code client redirect verifier s)"
| "oauth_step (RevokeToken token) s = oauth_revokeToken token s"

fun issues :: "oauth_call \<Rightarrow> string option" where
  "issues (IssueCode now q) = Some (code_string now q)"
| "issues _ = None"

definition code_from :: "oauth_call list \<Rightarrow> IAuthorizationCode \<Rightarrow> bool" where
  "code_from cs a \<longleftrightarrow> (\<exists>now q. IssueCode now q \<in> set cs \<and> oa_code a = code_string now q \<and>
     oa_clientId a = cr_clientId q \<and> oa_redirectUri a = cr_redirectUri q \<and> oa_userId a = cr_userId q \<and>
     oa_tenantId a = cr_tenantId q \<and> oa_expiresAt a = now + 600000)"

lemma code_from_more: "code_from cs a \<Longrightarrow> code_from (cs @ ds) a"
  by (fastforce simp: code_from_def)

lemma oauth_step_codes:
  assumes "jm_get (os_authCodes (oauth_step c s)) code = Some a"
  shows "(\<exists>b. jm_get (os_authCodes s) code = Some b \<and> (a = b \<or> a = b\<lparr> oa_isUsed := True \<rparr>)) \<or> (oa_code a = code \<and> code_from [c] a)"
proof (cases c)
  case (RegisterClient x)
  with assms show ?thesis by (auto simp: registerClient_def split: if_splits)
next
  case (IssueCode now q)
  with assms show ?thesis
    by (auto simp: issueAuthorizationCode_def Let_def code_from_def split: option.splits if_splits)
next
  case (ExchangeCode now d client redirect v)
  with assms show ?thesis by (auto simp: exchangeCodeForTokens_def split: option.splits if_splits)
next
  case (RevokeToken t)
  with assms show ?thesis by (simp add: oauth_revokeToken_def)
qed

lemma run_codes:
  "jm_get (os_authCodes (fold oauth_step cs oauth_empty)) code = Some a \<Longrightarrow> oa_code a = code \<and> code_from cs a"
proof (induction cs arbitrary: a rule: rev_induct)
  case Nil
  then show ?case by (simp add: oauth_empty_def)
next
  case (snoc c cs)
  have "jm_get (os_authCodes (oauth_step c (fold oauth_step cs oauth_empty))) code = Some a" using snoc.prems by simp
  from oauth_step_codes [OF this] show ?case
  proof (elim disjE exE conjE)
    fix b
    assume "jm_get (os_authCodes (fold oauth_step cs oauth_empty)) code = Some b"
    from snoc.IH [OF this] have "oa_code b = code" "code_from (cs @ [c]) b" by (simp_all add: code_from_more)
    then show "a = b \<Longrightarrow> ?case" "a = b\<lparr> oa_isUsed := True \<rparr> \<Longrightarrow> ?case" by (simp_all add: code_from_def)
  next
    assume "oa_code a = code" "code_from [c] a"
    then show ?case by (fastforce simp: code_from_def)
  qed
qed

definition spent :: "string \<Rightarrow> oauth_server \<Rightarrow> bool" where
  "spent code s \<longleftrightarrow> (case jm_get (os_authCodes s) code of None \<Rightarrow> True | Some a \<Rightarrow> oa_isUsed a)"

lemma spent_step: "spent code s \<Longrightarrow> issues c \<noteq> Some code \<Longrightarrow> spent code (oauth_step c s)"
proof (cases c)
  case (ExchangeCode now d client redirect v)
  assume "spent code s"
  with ExchangeCode show ?thesis
    by (auto simp: spent_def exchangeCodeForTokens_def split: option.splits if_splits)
qed (auto simp: spent_def registerClient_def issueAuthorizationCode_def oauth_revokeToken_def Let_def split: option.splits)

lemma spent_run: "spent code s \<Longrightarrow> list_all (\<lambda>c. issues c \<noteq> Some code) cs \<Longrightarrow> spent code (fold oauth_step cs s)"
  by (induction cs arbitrary: s) (simp_all add: spent_step)

lemma spent_exchange: "spent code s \<Longrightarrow> isl (snd (exchangeCodeForTokens now code client redirect v s))"
  by (auto simp: spent_def exchangeCodeForTokens_def split: option.splits)

text \<open>C24: an authorization code is good for one exchange. If an exchange succeeds, the code was issued for
  that very client and redirect URI not more than ten minutes before, the tokens are for the user and
  tenant it was issued for, and no later exchange of the code succeeds, whatever calls come in between,
  unless the same code is issued anew. But the PKCE challenge is not checked against the verifier: any
  other non-empty verifier would have given the same tokens and the same state.\<close>

theorem oauth_code_once:
  assumes "exchangeCodeForTokens now code client redirect v (fold oauth_step cs oauth_empty) = (s', Inr tokens)"
  shows "(\<exists>t q. IssueCode t q \<in> set cs \<and> code = code_string t q \<and> now \<le> t + 600000 \<and> client = cr_clientId q \<and>
      redirect = cr_redirectUri q \<and> tg_access_sub tokens = cr_userId q \<and> tg_access_tenant tokens = cr_tenantId q) \<and>
    (\<forall>ds now' client' redirect' v'. list_all (\<lambda>c. issues c \<noteq> Some code) ds \<longrightarrow>
      isl (snd (exchangeCodeForTokens now' code client' redirect' v' (fold oauth_step ds s')))) \<and>
    (\<forall>w. w \<noteq> [] \<longrightarrow>
      exchangeCodeForTokens now code client redirect (Some w) (fold oauth_step cs oauth_empty) = (s', Inr tokens))"
proof -
  define s where "s = fold oauth_step cs oauth_empty"
  from assms obtain a where a: "jm_get (os_authCodes s) code = Some a" "\<not> oa_isUsed a" "now \<le> oa_expiresAt a"
      "oa_clientId a = client" "oa_redirectUri a = redirect"
    and s': "s' = s\<lparr> os_authCodes := jm_set code (a\<lparr> oa_isUsed := True \<rparr>) (os_authCodes s) \<rparr>"
    and tokens: "tg_access_sub tokens = oa_userId a" "tg_access_tenant tokens = oa_tenantId a"
    by (auto simp: exchangeCodeForTokens_def s_def split: option.splits if_splits)
  have origin: "\<exists>t q. IssueCode t q \<in> set cs \<and> code = code_string t q \<and> now \<le> t + 600000 \<and> client = cr_clientId q \<and>
      redirect = cr_redirectUri q \<and> tg_access_sub tokens = cr_userId q \<and> tg_access_tenant tokens = cr_tenantId q"
    using run_codes [OF a(1) [unfolded s_def]] a tokens unfolding code_from_def by metis
  have "spent code s'" by (simp add: s' spent_def)
  then have once: "isl (snd (exchangeCodeForTokens now' code client' redirect' v' (fold oauth_step ds s')))"
    if "list_all (\<lambda>c. issues c \<noteq> Some code) ds" for ds now' client' redirect' v'
    using spent_run [OF _ that] spent_exchange by blast
  have "exchangeCodeForTokens now code client redirect (Some w) s = (s', Inr tokens)" if "w \<noteq> []" for w
    using assms a that by (auto simp: exchangeCodeForTokens_def s_def [symmetric] or_else_def split: if_splits)
  with origin once show ?thesis unfolding s_def by blast
qed

definition sample_oauth :: "oauth_call list" where
  "sample_oauth =
     [RegisterClient \<lparr> oc_clientId = ''web'', oc_clientSecretHash = [], oc_redirectUris = [''https://a''],
        oc_allowedGrants = [authorization_code], oc_allowedScopes = [], oc_tenantId = ''t'', oc_isTrusted = True \<rparr>,
      IssueCode 1000 \<lparr> cr_clientId = ''web'', cr_userId = ''u'', cr_tenantId = ''t'', cr_redirectUri = ''https://a'',
        cr_scope = ''openid'', cr_codeChallenge = Some ''E9Melhoa'', cr_codeChallengeMethod = Some S256, cr_random = ''x7'' \<rparr>]"

theorem oauth_code_once_witness:
  "\<exists>s' tokens. exchangeCodeForTokens 2000 ''auth_code_x7rs'' ''web'' ''https://a'' (Some ''dBjftJ'') (fold oauth_step sample_oauth oauth_empty)
      = (s', Inr tokens) \<and>
    exchangeCodeForTokens 2000 ''auth_code_x7rs'' ''web'' ''https://a'' (Some ''anything'') (fold oauth_step sample_oauth oauth_empty)
      = (s', Inr tokens) \<and>
    isl (snd (exchangeCodeForTokens 2001 ''auth_code_x7rs'' ''web'' ''https://a'' (Some ''dBjftJ'') s'))"
proof -
  have "\<not> isl (snd (exchangeCodeForTokens 2000 ''auth_code_x7rs'' ''web'' ''https://a'' (Some ''dBjftJ'') (fold oauth_step sample_oauth oauth_empty)))"
    by code_simp
  then obtain s' tokens where ex: "exchangeCodeForTokens 2000 ''auth_code_x7rs'' ''web'' ''https://a'' (Some ''dBjftJ'')
      (fold oauth_step sample_oauth oauth_empty) = (s', Inr tokens)"
    by (metis isl_def prod.collapse sum.collapse(2))
  note once = oauth_code_once [OF ex]
  have "list_all (\<lambda>c. issues c \<noteq> Some ''auth_code_x7rs'') []" by simp
  with once have "isl (snd (exchangeCodeForTokens 2001 ''auth_code_x7rs'' ''web'' ''https://a'' (Some ''dBjftJ'') (fold oauth_step [] s')))"
    by blast
  with ex once show ?thesis by (metis fold_simps(1) list.distinct(1))
qed

section \<open>The revocation list\<close>

datatype RevocationReason = LOGOUT | SECURITY_INCIDENT | PASSWORD_RESET | ADMIN_FORCE

record IRevokedTokenRecord =
  rv_jti :: string
  rv_userId :: string
  rv_tenantId :: string
  rv_reason :: RevocationReason
  rv_revokedAt :: instant
  rv_expiresAt :: instant

type_synonym blacklist = "(string, IRevokedTokenRecord) jsmap"

definition revokeToken :: "instant \<Rightarrow> string \<Rightarrow> string \<Rightarrow> string \<Rightarrow> RevocationReason \<Rightarrow> int \<Rightarrow> blacklist \<Rightarrow> blacklist" where
  "revokeToken now jti userId tenantId reason ttlSeconds m =
     jm_set jti \<lparr> rv_jti = jti, rv_userId = userId, rv_tenantId = tenantId, rv_reason = reason,
       rv_revokedAt = now, rv_expiresAt = now + ttlSeconds * 1000 \<rparr> m"

definition isRevoked :: "instant \<Rightarrow> string \<Rightarrow> blacklist \<Rightarrow> blacklist \<times> bool" where
  "isRevoked now jti m =
     (case jm_get m jti of
        None \<Rightarrow> (m, False)
      | Some r \<Rightarrow> if rv_expiresAt r < now then (jm_delete jti m, False) else (m, True))"

text \<open>Deleting the entry that is being visited does not disturb the walk over the others.\<close>

definition purgeExpired :: "instant \<Rightarrow> blacklist \<Rightarrow> blacklist \<times> nat" where
  "purgeExpired now m =
     fold (\<lambda>(jti, r) (m', purged). if rv_expiresAt r < now then (jm_delete jti m', purged + 1) else (m', purged)) m (m, 0)"

lemma purge_fold:
  "jm_ok es \<Longrightarrow>
    fold (\<lambda>(jti, r) (m', purged). if rv_expiresAt r < now then (jm_delete jti m', purged + 1) else (m', purged)) es (m, n) =
      (filter (\<lambda>(k, v). k \<notin> fst ` set (filter (\<lambda>(jti, r). rv_expiresAt r < now) es)) m,
       n + length (filter (\<lambda>(jti, r). rv_expiresAt r < now) es))"
  by (induction es arbitrary: m n) (auto simp: AList.delete_eq split_def intro!: filter_cong)

lemma purgeExpired_filter:
  assumes "jm_ok m"
  shows "fst (purgeExpired now m) = filter (\<lambda>(k, r). now \<le> rv_expiresAt r) m"
proof -
  have "k \<notin> fst ` set (filter (\<lambda>(jti, r). rv_expiresAt r < now) m) \<longleftrightarrow> now \<le> rv_expiresAt r" if "(k, r) \<in> set m" for k r
    using that assms by (force simp: not_less dest: eq_key_imp_eq_value)
  then show ?thesis using assms unfolding purgeExpired_def
    by (auto simp: purge_fold intro!: filter_cong)
qed

text \<open>Purging is invisible: before and after it the same tokens are revoked at any later time.\<close>

lemma purge_invisible:
  assumes "jm_ok m" and "now \<le> later"
  shows "snd (isRevoked later jti (fst (purgeExpired now m))) = snd (isRevoked later jti m)"
proof -
  have "jm_get (filter (\<lambda>(k, r). now \<le> rv_expiresAt r) m) jti =
      (case jm_get m jti of None \<Rightarrow> None | Some r \<Rightarrow> if now \<le> rv_expiresAt r then Some r else None)"
    using assms(1) by (induction m) (auto split: option.splits simp: image_iff dest: map_of_SomeD)
  with assms show ?thesis by (simp add: purgeExpired_filter isRevoked_def split: option.split)
qed

section \<open>The audit log\<close>

datatype AuditAction = LOGIN_SUCCESS | LOGIN_FAILURE | PASSWORD_RESET | ROLE_ASSIGNMENT | API_KEY_CREATED | SESSION_TERMINATED

fun AuditAction_name :: "AuditAction \<Rightarrow> string" where
  "AuditAction_name LOGIN_SUCCESS = ''LOGIN_SUCCESS''"
| "AuditAction_name LOGIN_FAILURE = ''LOGIN_FAILURE''"
| "AuditAction_name AuditAction.PASSWORD_RESET = ''PASSWORD_RESET''"
| "AuditAction_name ROLE_ASSIGNMENT = ''ROLE_ASSIGNMENT''"
| "AuditAction_name API_KEY_CREATED = ''API_KEY_CREATED''"
| "AuditAction_name SESSION_TERMINATED = ''SESSION_TERMINATED''"

record ISecurityAuditEvent =
  se_eventId :: string
  se_tenantId :: string
  se_actorUserId :: string
  se_actorIp :: string
  se_action :: AuditAction
  se_targetResource :: string
  se_timestamp :: instant
  se_previousHash :: string
  se_currentHash :: string

record audit_logger =
  lg_lastHash :: string
  lg_events :: "ISecurityAuditEvent list"

definition zero_hash :: string where
  "zero_hash = replicate 64 (CHR ''0'')"

definition logger_new :: audit_logger where
  "logger_new = \<lparr> lg_lastHash = zero_hash, lg_events = [] \<rparr>"

definition to_hex :: "string \<Rightarrow> string" where
  "to_hex s = concat (map (\<lambda>c. [digit_char (of_char c div 16), digit_char (of_char c mod 16)]) s)"

definition pad_end :: "nat \<Rightarrow> char \<Rightarrow> string \<Rightarrow> string" where
  "pad_end n c s = s @ replicate (n - length s) c"

text \<open>The arguments of \<open>logEvent\<close>, the clock and the four random digits; \<open>toISO\<close> renders an instant.\<close>

record audit_request =
  aq_now :: instant
  aq_random :: string
  aq_tenantId :: string
  aq_actorUserId :: string
  aq_actorIp :: string
  aq_action :: AuditAction
  aq_targetResource :: string

definition logEvent :: "(instant \<Rightarrow> string) \<Rightarrow> audit_request \<Rightarrow> audit_logger \<Rightarrow> audit_logger" where
  "logEvent toISO q s =
     (let eventId = ''audit_'' @ base_string 36 (nat (aq_now q)) @ aq_random q;
          payload = lg_lastHash s @ ''|'' @ eventId @ ''|'' @ aq_tenantId q @ ''|'' @ aq_actorUserId q @ ''|''
            @ AuditAction_name (aq_action q) @ ''|'' @ toISO (aq_now q);
          currentHash = take 64 (pad_end 64 (CHR ''a'') (to_hex payload))
      in \<lparr> lg_lastHash = currentHash,
           lg_events = lg_events s @ [\<lparr> se_eventId = eventId, se_tenantId = aq_tenantId q, se_actorUserId = aq_actorUserId q,
             se_actorIp = aq_actorIp q, se_action = aq_action q, se_targetResource = aq_targetResource q,
             se_timestamp = aq_now q, se_previousHash = lg_lastHash s, se_currentHash = currentHash \<rparr>] \<rparr>)"

fun verify_from :: "string \<Rightarrow> ISecurityAuditEvent list \<Rightarrow> bool" where
  "verify_from prev [] = True"
| "verify_from prev (e # es) = (if se_previousHash e \<noteq> prev then False else verify_from (se_currentHash e) es)"

definition verifyChainIntegrity :: "ISecurityAuditEvent list \<Rightarrow> bool" where
  "verifyChainIntegrity events = verify_from zero_hash events"

subsection \<open>The chain does not depend on the events\<close>

text \<open>The first 64 hex digits are the first 32 bytes of the payload, all of them from the last hash.\<close>

definition next_hash :: "string \<Rightarrow> string" where
  "next_hash h = to_hex (take 32 h)"

fun chain_hash :: "nat \<Rightarrow> string" where
  "chain_hash 0 = zero_hash"
| "chain_hash (Suc n) = next_hash (chain_hash n)"

lemma to_hex_length [simp]: "length (to_hex s) = 2 * length s"
  by (induction s) (simp_all add: to_hex_def)

lemma take_to_hex: "take (2 * n) (to_hex s) = to_hex (take n s)"
proof (induction n arbitrary: s)
  case (Suc n)
  then show ?case by (cases s) (simp_all add: to_hex_def)
qed (simp add: to_hex_def)

lemma chain_hash_length [simp]: "length (chain_hash n) = 64"
  by (induction n) (simp_all add: zero_hash_def next_hash_def)

lemma truncated_hash:
  assumes "length h = 64"
  shows "take 64 (pad_end 64 c (to_hex (h @ rest))) = next_hash h"
proof -
  have "take 64 (pad_end 64 c (to_hex (h @ rest))) = take (2 * 32) (to_hex (h @ rest))"
    using assms by (simp add: pad_end_def)
  also have "\<dots> = to_hex (take 32 (h @ rest))" by (rule take_to_hex)
  finally show ?thesis using assms by (simp add: next_hash_def)
qed

definition hashes :: "ISecurityAuditEvent list \<Rightarrow> (string \<times> string) list" where
  "hashes es = map (\<lambda>e. (se_previousHash e, se_currentHash e)) es"

definition chain_links :: "nat \<Rightarrow> (string \<times> string) list" where
  "chain_links n = map (\<lambda>i. (chain_hash i, chain_hash (Suc i))) [0..<n]"

lemma log_hashes:
  "lg_lastHash (fold (logEvent toISO) qs logger_new) = chain_hash (length qs) \<and>
   hashes (lg_events (fold (logEvent toISO) qs logger_new)) = chain_links (length qs)"
proof (induction qs rule: rev_induct)
  case Nil
  then show ?case by (simp add: logger_new_def hashes_def chain_links_def)
next
  case (snoc q qs)
  then show ?case by (simp add: logEvent_def Let_def hashes_def chain_links_def truncated_hash)
qed

lemma verify_links: "hashes es = map (\<lambda>i. (chain_hash i, chain_hash (Suc i))) [m..<n] \<Longrightarrow> verify_from (chain_hash m) es"
proof (induction es arbitrary: m)
  case (Cons e es)
  then have "m < n" by (cases "m < n") (auto simp: hashes_def)
  with Cons.prems have "se_previousHash e = chain_hash m" "se_currentHash e = chain_hash (Suc m)"
    "hashes es = map (\<lambda>i. (chain_hash i, chain_hash (Suc i))) [Suc m..<n]"
    by (simp_all add: upt_rec [of m n] hashes_def)
  with Cons.IH [of "Suc m"] show ?case by simp
qed simp

lemma verify_chain: "hashes es = chain_links n \<Longrightarrow> verifyChainIntegrity es"
  using verify_links [of es 0 n] by (simp add: verifyChainIntegrity_def chain_links_def)

text \<open>C18: the audit chain proves nothing about the events. A log always passes its integrity check, but the
  hashes in it depend on the position alone, not on what was logged: so a log cut off anywhere still
  passes, and so does any beginning of one log continued by the rest of another.\<close>

theorem audit_chain_is_blind:
  "let evs = lg_events (fold (logEvent toISO) qs logger_new); other = lg_events (fold (logEvent toISO') qs' logger_new);
       kept = take n evs
   in verifyChainIntegrity evs \<and>
      hashes evs = map (\<lambda>i. (chain_hash i, chain_hash (Suc i))) [0..<length qs] \<and>
      verifyChainIntegrity kept \<and> verifyChainIntegrity (kept @ drop (length kept) other)"
proof -
  define evs other kept where "evs = lg_events (fold (logEvent toISO) qs logger_new)"
    and "other = lg_events (fold (logEvent toISO') qs' logger_new)" and "kept = take n evs"
  have evs: "hashes evs = chain_links (length qs)" and other: "hashes other = chain_links (length qs')"
    using log_hashes by (simp_all add: evs_def other_def)
  have kept: "hashes kept = chain_links (min n (length qs))"
    using arg_cong [OF evs, of "take n"] by (simp add: kept_def hashes_def chain_links_def take_map min_def)
  then have len: "length kept = min n (length qs)" by (metis chain_links_def hashes_def length_map length_upt minus_nat.diff_0)
  have "hashes (kept @ drop (length kept) other) = chain_links (max (length kept) (length qs'))"
  proof -
    let ?link = "\<lambda>i. (chain_hash i, chain_hash (Suc i))"
    have "hashes (drop (length kept) other) = map ?link [length kept..<length qs']"
      using arg_cong [OF other, of "drop (length kept)"] by (simp add: hashes_def chain_links_def drop_map)
    moreover have "hashes kept = map ?link [0..<length kept]" using kept by (simp only: len chain_links_def)
    ultimately have "hashes (kept @ drop (length kept) other) = map ?link ([0..<length kept] @ [length kept..<length qs'])"
      by (simp add: hashes_def)
    also have "[0..<length kept] @ [length kept..<length qs'] = [0..<max (length kept) (length qs')]"
      by (cases "length kept \<le> length qs'") (simp_all add: max_def, metis add_0 le_add_diff_inverse upt_add_eq_append zero_le)
    finally show ?thesis by (simp only: chain_links_def)
  qed
  then show ?thesis using evs kept verify_chain unfolding evs_def [symmetric] other_def [symmetric] Let_def kept_def [symmetric]
    by (auto simp: chain_links_def)
qed

end
