(* ===== verification/Promotions.thy ===== *)
theory Promotions
  imports Prelude Double
begin

text \<open>
  The promotion engines of the order service: the coupon engine with its stacking rules
  (promotions/CouponEngineWithCartStackingRules.ts) and the manufacturer rebates
  (promotions/MultiTierRebateAndPromoCalculator.ts). Amounts in dollars are doubles.
\<close>

section \<open>Coupons\<close>

datatype DiscountType = PERCENTAGE | FIXED_AMOUNT | FREE_SHIPPING

record IPromotionRule =
  pr_promoCode :: string
  pr_discountType :: DiscountType
  pr_discountValue :: rat
  pr_minimumCartSpendUSD :: rat
  pr_maximumDiscountCapUSD :: rat
  pr_isStackable :: bool
  pr_applicableCategoryIds :: "string list"
  pr_excludedSkuList :: "string list"
  pr_expiresAt :: instant

record cart_item =
  ct_sku :: string
  ct_categoryId :: string
  ct_priceUSD :: rat
  ct_quantity :: int

record ICartEvaluationContext =
  ca_cartSubtotalUSD :: rat
  ca_shippingFeeUSD :: rat
  ca_items :: "cart_item list"
  ca_appliedPromoCodes :: "string list"

type_synonym promo_registry = "(string, IPromotionRule) jsmap"

definition promo_registerRule :: "IPromotionRule \<Rightarrow> promo_registry \<Rightarrow> promo_registry" where
  "promo_registerRule rule reg = jm_set (to_upper (pr_promoCode rule)) rule reg"

definition standard_promos :: "instant \<Rightarrow> promo_registry" where
  "standard_promos now =
     promo_registerRule
       \<lparr> pr_promoCode = ''FREESHIP100'', pr_discountType = FREE_SHIPPING, pr_discountValue = 100,
         pr_minimumCartSpendUSD = 500, pr_maximumDiscountCapUSD = 250, pr_isStackable = True,
         pr_applicableCategoryIds = [], pr_excludedSkuList = [], pr_expiresAt = now + 365 * 86400000 \<rparr>
       (promo_registerRule
         \<lparr> pr_promoCode = ''SUPPLYCHAIN2026'', pr_discountType = PERCENTAGE, pr_discountValue = 15,
           pr_minimumCartSpendUSD = 1000, pr_maximumDiscountCapUSD = 500, pr_isStackable = False,
           pr_applicableCategoryIds = [''HEAVY_FREIGHT'', ''PALLETS''], pr_excludedSkuList = [''HAZMAT-EXP-99''],
           pr_expiresAt = now + 365 * 86400000 \<rparr> [])"

definition promo_rule :: "promo_registry \<Rightarrow> string \<Rightarrow> IPromotionRule option" where
  "promo_rule reg c = jm_get reg (to_upper c)"

definition nonStackableFound :: "promo_registry \<Rightarrow> string list \<Rightarrow> bool" where
  "nonStackableFound reg codes \<longleftrightarrow>
     list_ex (\<lambda>c. case promo_rule reg c of None \<Rightarrow> False | Some r \<Rightarrow> \<not> pr_isStackable r) codes"

record cart_state =
  cst_totalDiscount :: rat
  cst_shipping :: rat
  cst_accepted :: "string list"
  cst_rejected :: "string list"

definition percentage_discount :: "rat \<Rightarrow> IPromotionRule \<Rightarrow> rat" where
  "percentage_discount subtotal r =
     min (pr_maximumDiscountCapUSD r) (toFixed 2 (dmul subtotal (ddiv (pr_discountValue r) 100)))"

definition apply_promo :: "IPromotionRule \<Rightarrow> string \<Rightarrow> rat \<Rightarrow> cart_state \<Rightarrow> cart_state" where
  "apply_promo rule code subtotal s =
     (case pr_discountType rule of
        PERCENTAGE \<Rightarrow> s\<lparr> cst_totalDiscount := dadd (cst_totalDiscount s) (percentage_discount subtotal rule),
          cst_accepted := cst_accepted s @ [code] \<rparr>
      | FIXED_AMOUNT \<Rightarrow> s\<lparr> cst_totalDiscount := dadd (cst_totalDiscount s) (min (pr_maximumDiscountCapUSD rule) (pr_discountValue rule)),
          cst_accepted := cst_accepted s @ [code] \<rparr>
      | FREE_SHIPPING \<Rightarrow> s\<lparr> cst_shipping := 0, cst_accepted := cst_accepted s @ [code] \<rparr>)"

definition reject_code :: "string \<Rightarrow> cart_state \<Rightarrow> cart_state" where
  "reject_code code s = s\<lparr> cst_rejected := cst_rejected s @ [code] \<rparr>"

definition consider_code :: "promo_registry \<Rightarrow> instant \<Rightarrow> bool \<Rightarrow> rat \<Rightarrow> string \<Rightarrow> cart_state \<Rightarrow> cart_state" where
  "consider_code reg now nonStackable subtotal code s =
     (case promo_rule reg code of
        None \<Rightarrow> reject_code code s
      | Some rule \<Rightarrow>
          if pr_expiresAt rule < now \<or> subtotal < pr_minimumCartSpendUSD rule then reject_code code s
          else if nonStackable \<and> cst_accepted s \<noteq> [] \<and> \<not> pr_isStackable rule then reject_code code s
          else apply_promo rule code subtotal s)"

definition evaluateCartDiscounts :: "promo_registry \<Rightarrow> instant \<Rightarrow> ICartEvaluationContext \<Rightarrow> cart_state" where
  "evaluateCartDiscounts reg now ctx =
     (let s = fold (consider_code reg now (nonStackableFound reg (ca_appliedPromoCodes ctx)) (ca_cartSubtotalUSD ctx))
                (ca_appliedPromoCodes ctx)
                \<lparr> cst_totalDiscount = 0, cst_shipping = ca_shippingFeeUSD ctx, cst_accepted = [], cst_rejected = [] \<rparr>
      in s\<lparr> cst_totalDiscount := toFixed 2 (cst_totalDiscount s), cst_shipping := toFixed 2 (cst_shipping s) \<rparr>)"

subsection \<open>What the loop keeps\<close>

definition usable :: "promo_registry \<Rightarrow> instant \<Rightarrow> rat \<Rightarrow> string \<Rightarrow> bool" where
  "usable reg now subtotal c \<longleftrightarrow>
     (case promo_rule reg c of None \<Rightarrow> False | Some r \<Rightarrow> now \<le> pr_expiresAt r \<and> pr_minimumCartSpendUSD r \<le> subtotal)"

definition stackable :: "promo_registry \<Rightarrow> string \<Rightarrow> bool" where
  "stackable reg c \<longleftrightarrow> (case promo_rule reg c of None \<Rightarrow> False | Some r \<Rightarrow> pr_isStackable r)"

text \<open>The discount a code brings, at most its cap; nothing for free shipping.\<close>

definition discount_of :: "promo_registry \<Rightarrow> rat \<Rightarrow> string \<Rightarrow> rat list" where
  "discount_of reg subtotal c =
     (case promo_rule reg c of
        None \<Rightarrow> []
      | Some r \<Rightarrow> (case pr_discountType r of
          PERCENTAGE \<Rightarrow> [percentage_discount subtotal r]
        | FIXED_AMOUNT \<Rightarrow> [min (pr_maximumDiscountCapUSD r) (pr_discountValue r)]
        | FREE_SHIPPING \<Rightarrow> []))"

definition ships_free :: "promo_registry \<Rightarrow> string \<Rightarrow> bool" where
  "ships_free reg c \<longleftrightarrow> (case promo_rule reg c of None \<Rightarrow> False | Some r \<Rightarrow> pr_discountType r = FREE_SHIPPING)"

text \<open>The reference: a code is accepted if it can be used and is stackable or the first to be accepted.\<close>

definition accepts :: "promo_registry \<Rightarrow> instant \<Rightarrow> rat \<Rightarrow> string list \<Rightarrow> string \<Rightarrow> bool" where
  "accepts reg now subtotal acc c \<longleftrightarrow> usable reg now subtotal c \<and> (acc = [] \<or> stackable reg c)"

fun accepted_codes :: "promo_registry \<Rightarrow> instant \<Rightarrow> rat \<Rightarrow> string list \<Rightarrow> string list \<Rightarrow> string list" where
  "accepted_codes reg now subtotal acc [] = acc"
| "accepted_codes reg now subtotal acc (c # cs) =
     accepted_codes reg now subtotal (if accepts reg now subtotal acc c then acc @ [c] else acc) cs"

definition cart_ok :: "promo_registry \<Rightarrow> instant \<Rightarrow> rat \<Rightarrow> rat \<Rightarrow> string list \<Rightarrow> cart_state \<Rightarrow> bool" where
  "cart_ok reg now subtotal fee seen s \<longleftrightarrow>
     mset (cst_accepted s) + mset (cst_rejected s) = mset seen \<and>
     list_all (usable reg now subtotal) (cst_accepted s) \<and>
     list_all (stackable reg) (tl (cst_accepted s)) \<and>
     cst_totalDiscount s = foldl dadd 0 (concat (map (discount_of reg subtotal) (cst_accepted s))) \<and>
     cst_shipping s = (if list_ex (ships_free reg) (cst_accepted s) then 0 else fee)"

lemma considered:
  assumes "\<And>r. promo_rule reg c = Some r \<Longrightarrow> \<not> pr_isStackable r \<Longrightarrow> nonStackableFound reg codes"
  shows "consider_code reg now (nonStackableFound reg codes) subtotal c s =
    (if accepts reg now subtotal (cst_accepted s) c
     then apply_promo (the (promo_rule reg c)) c subtotal s else reject_code c s)"
  using assms by (auto simp: consider_code_def accepts_def usable_def stackable_def split: option.splits)

text \<open>What accepting a code does, whatever its kind.\<close>

definition take_code :: "promo_registry \<Rightarrow> rat \<Rightarrow> string \<Rightarrow> cart_state \<Rightarrow> cart_state" where
  "take_code reg subtotal c s =
     \<lparr> cst_totalDiscount = foldl dadd (cst_totalDiscount s) (discount_of reg subtotal c),
       cst_shipping = (if ships_free reg c then 0 else cst_shipping s),
       cst_accepted = cst_accepted s @ [c], cst_rejected = cst_rejected s \<rparr>"

lemma apply_take: "promo_rule reg c = Some r \<Longrightarrow> apply_promo r c subtotal s = take_code reg subtotal c s"
  by (cases s) (simp add: apply_promo_def take_code_def discount_of_def ships_free_def split: DiscountType.split)

lemma take_ok:
  assumes "cart_ok reg now subtotal fee seen s" and "usable reg now subtotal c"
    and "list_all (stackable reg) (tl (cst_accepted s @ [c]))"
  shows "cart_ok reg now subtotal fee (seen @ [c]) (take_code reg subtotal c s)"
  using assms unfolding cart_ok_def take_code_def by (intro conjI) simp_all

lemma apply_ok:
  assumes "cart_ok reg now subtotal fee seen s" and "accepts reg now subtotal (cst_accepted s) c"
  shows "cart_ok reg now subtotal fee (seen @ [c]) (apply_promo (the (promo_rule reg c)) c subtotal s)"
proof -
  obtain r where r: "promo_rule reg c = Some r" using assms(2) by (auto simp: accepts_def usable_def split: option.splits)
  have "usable reg now subtotal c" using assms(2) by (simp add: accepts_def)
  moreover have "list_all (stackable reg) (tl (cst_accepted s @ [c]))"
    using assms by (cases "cst_accepted s") (simp_all add: cart_ok_def accepts_def)
  ultimately show ?thesis using take_ok [OF assms(1)] unfolding r option.sel apply_take [OF r] by blast
qed

lemma reject_ok: "cart_ok reg now subtotal fee seen s \<Longrightarrow> cart_ok reg now subtotal fee (seen @ [c]) (reject_code c s)"
  by (simp add: cart_ok_def reject_code_def)

lemma consider_all:
  assumes "cart_ok reg now subtotal fee seen s" and "set cs \<subseteq> set codes"
  shows "cart_ok reg now subtotal fee (seen @ cs) (fold (consider_code reg now (nonStackableFound reg codes) subtotal) cs s) \<and>
    cst_accepted (fold (consider_code reg now (nonStackableFound reg codes) subtotal) cs s) =
      accepted_codes reg now subtotal (cst_accepted s) cs"
  using assms
proof (induction cs arbitrary: seen s)
  case (Cons c cs)
  let ?s' = "consider_code reg now (nonStackableFound reg codes) subtotal c s"
  have ns: "nonStackableFound reg codes" if "promo_rule reg c = Some r" "\<not> pr_isStackable r" for r
    using that Cons.prems(2) unfolding nonStackableFound_def list_ex_iff by (intro bexI [of _ c]) simp_all
  have step: "?s' = (if accepts reg now subtotal (cst_accepted s) c
     then apply_promo (the (promo_rule reg c)) c subtotal s else reject_code c s)"
    by (rule considered) (rule ns)
  have ok: "cart_ok reg now subtotal fee (seen @ [c]) ?s'"
    using Cons.prems(1) unfolding step by (simp add: apply_ok reject_ok)
  have "cst_accepted ?s' = (if accepts reg now subtotal (cst_accepted s) c then cst_accepted s @ [c] else cst_accepted s)"
    unfolding step by (simp add: apply_promo_def reject_code_def split: DiscountType.split)
  with Cons.IH [OF ok] Cons.prems(2) show ?case by simp
qed simp

text \<open>Coupons are taken by the rules. Each code of the cart is accepted or rejected, once per time it is
  applied; accepted are the registered, unexpired ones whose minimum spend is reached, except that a
  code that does not stack is taken only as the first. The discount is the rounded sum of what the
  accepted codes bring, each at most its cap, and shipping is free exactly if an accepted code says so.
  So at most one code that does not stack is accepted, but stackable codes after it are accepted too.\<close>

theorem coupon_stacking:
  "let res = evaluateCartDiscounts reg now ctx; subtotal = ca_cartSubtotalUSD ctx in
    mset (cst_accepted res) + mset (cst_rejected res) = mset (ca_appliedPromoCodes ctx) \<and>
    cst_accepted res = accepted_codes reg now subtotal [] (ca_appliedPromoCodes ctx) \<and>
    list_all (usable reg now subtotal) (cst_accepted res) \<and>
    list_all (stackable reg) (tl (cst_accepted res)) \<and>
    cst_totalDiscount res = toFixed 2 (foldl dadd 0 (concat (map (discount_of reg subtotal) (cst_accepted res)))) \<and>
    cst_shipping res = toFixed 2 (if list_ex (ships_free reg) (cst_accepted res) then 0 else ca_shippingFeeUSD ctx)"
proof -
  let ?s0 = "\<lparr> cst_totalDiscount = 0, cst_shipping = ca_shippingFeeUSD ctx, cst_accepted = [], cst_rejected = [] \<rparr>"
  have "cart_ok reg now (ca_cartSubtotalUSD ctx) (ca_shippingFeeUSD ctx) [] ?s0" by (simp add: cart_ok_def)
  define s where "s = fold (consider_code reg now (nonStackableFound reg (ca_appliedPromoCodes ctx)) (ca_cartSubtotalUSD ctx))
    (ca_appliedPromoCodes ctx) ?s0"
  from consider_all [where cs = "ca_appliedPromoCodes ctx" and codes = "ca_appliedPromoCodes ctx", OF \<open>cart_ok _ _ _ _ [] ?s0\<close> order_refl]
  have s: "cart_ok reg now (ca_cartSubtotalUSD ctx) (ca_shippingFeeUSD ctx) (ca_appliedPromoCodes ctx) s"
    "cst_accepted s = accepted_codes reg now (ca_cartSubtotalUSD ctx) [] (ca_appliedPromoCodes ctx)"
    by (simp_all add: s_def)
  have res: "evaluateCartDiscounts reg now ctx =
      s\<lparr> cst_totalDiscount := toFixed 2 (cst_totalDiscount s), cst_shipping := toFixed 2 (cst_shipping s) \<rparr>"
    by (simp add: evaluateCartDiscounts_def s_def Let_def)
  show ?thesis using s(1) unfolding res Let_def cart_ok_def by (simp add: s(2))
qed

lemma discounts_capped:
  "promo_rule reg c = Some r \<Longrightarrow> list_all (\<lambda>d. d \<le> pr_maximumDiscountCapUSD r) (discount_of reg subtotal c)"
  by (simp add: discount_of_def percentage_discount_def split: DiscountType.split)

text \<open>A code that does not stack, followed by a stackable one applied twice: all three are accepted.\<close>

lemma non_stackable_stacks:
  "cst_accepted (evaluateCartDiscounts (standard_promos 0) 1 \<lparr> ca_cartSubtotalUSD = 2000, ca_shippingFeeUSD = 80, ca_items = [],
     ca_appliedPromoCodes = [''SupplyChain2026'', ''FREESHIP100'', ''freeship100''] \<rparr>) =
   [''SupplyChain2026'', ''FREESHIP100'', ''freeship100'']"
  by code_simp

section \<open>Rebates\<close>

record IRebateTierRule =
  rb_rebateId :: string
  rb_manufacturerCode :: string
  rb_eligibleCategory :: string
  rb_minGrossSpendUSD :: rat
  rb_rebatePercentage :: rat
  rb_instantDeductionAllowed :: bool
  rb_effectiveFrom :: instant
  rb_effectiveUntil :: instant

type_synonym rebate_rules = "(string, IRebateTierRule list) jsmap"

definition rebate_registerRule :: "IRebateTierRule \<Rightarrow> rebate_rules \<Rightarrow> rebate_rules" where
  "rebate_registerRule rule m =
     (let xs = (case jm_get m (rb_manufacturerCode rule) of None \<Rightarrow> [] | Some xs \<Rightarrow> xs)
      in jm_set (rb_manufacturerCode rule) (xs @ [rule]) m)"

definition rebate_eligible :: "instant \<Rightarrow> string \<Rightarrow> rat \<Rightarrow> IRebateTierRule \<Rightarrow> bool" where
  "rebate_eligible now category spend r \<longleftrightarrow>
     rb_eligibleCategory r = category \<and> rb_minGrossSpendUSD r \<le> spend \<and> rb_effectiveFrom r \<le> now \<and> now \<le> rb_effectiveUntil r"

record rebate_result =
  rr_rebateAmountUSD :: rat
  rr_appliedRatePct :: rat
  rr_isInstantDeduction :: bool

definition calculateRebate :: "instant \<Rightarrow> string \<Rightarrow> string \<Rightarrow> rat \<Rightarrow> rebate_rules \<Rightarrow> rebate_result" where
  "calculateRebate now manufacturerCode category spend m =
     (let rules = (case jm_get m manufacturerCode of None \<Rightarrow> [] | Some xs \<Rightarrow> xs)
      in case sort_key (\<lambda>r. - rb_rebatePercentage r) (filter (rebate_eligible now category spend) rules) of
           [] \<Rightarrow> \<lparr> rr_rebateAmountUSD = 0, rr_appliedRatePct = 0, rr_isInstantDeduction = False \<rparr>
         | r # _ \<Rightarrow> \<lparr> rr_rebateAmountUSD = toFixed 2 (dmul spend (ddiv (rb_rebatePercentage r) 100)),
             rr_appliedRatePct = rb_rebatePercentage r, rr_isInstantDeduction = rb_instantDeductionAllowed r \<rparr>)"

lemma rebate_is_best:
  assumes "jm_get m code = Some rules" and "r \<in> set rules" and "rebate_eligible now category spend r"
  shows "rb_rebatePercentage r \<le> rr_appliedRatePct (calculateRebate now code category spend m)"
proof -
  let ?rs = "sort_key (\<lambda>r. - rb_rebatePercentage r) (filter (rebate_eligible now category spend) rules)"
  have r: "r \<in> set ?rs" using assms by simp
  obtain x xs where rs: "?rs = x # xs" using r by (cases ?rs) auto
  have "sorted (map (\<lambda>r. - rb_rebatePercentage r) ?rs)" by simp
  with rs r have "rb_rebatePercentage r \<le> rb_rebatePercentage x" by auto
  with rs assms(1) show ?thesis by (simp add: calculateRebate_def)
qed

end
