(* ===== verification/Fiscal_Periods.thy ===== *)
theory Fiscal_Periods
  imports Prelude Common_Types
begin

text \<open>
  The closing of accounting periods (services/billing-service/src/ledger/
  GeneralLedgerClosingPeriodManager.ts): creating a fiscal year, closing a period and the test
  whether a date may be posted to. The instants that the local-time \<open>Date\<close> constructor gives are a
  function argument; a posting date is its local year and its zero-based month.
\<close>

record IFiscalPeriod =
  fp_periodId :: string
  fp_fiscalYear :: int
  fp_fiscalMonth :: nat
  fp_startDate :: instant
  fp_endDate :: instant
  fp_isClosed :: bool
  fp_closedByUserId :: "string option"
  fp_closingJournalEntryId :: "string option"

type_synonym periods = "(string, IFiscalPeriod) jsmap"

text \<open>\<open>new Date(year, month, day, hours, minutes, seconds)\<close> in local time.\<close>

type_synonym date_ctor = "int \<Rightarrow> int \<Rightarrow> int \<Rightarrow> int \<Rightarrow> int \<Rightarrow> int \<Rightarrow> instant"

definition period_id :: "int \<Rightarrow> nat \<Rightarrow> string" where
  "period_id y m = ''FY'' @ int_string y @ ''-M'' @ pad_start 2 (CHR ''0'') (dec_string m)"

definition fiscal_period :: "date_ctor \<Rightarrow> int \<Rightarrow> nat \<Rightarrow> IFiscalPeriod" where
  "fiscal_period date year m =
     \<lparr> fp_periodId = period_id year m, fp_fiscalYear = year, fp_fiscalMonth = m,
       fp_startDate = date year (int m - 1) 1 0 0 0, fp_endDate = date year (int m) 0 23 59 59,
       fp_isClosed = False, fp_closedByUserId = None, fp_closingJournalEntryId = None \<rparr>"

definition createFiscalYear :: "date_ctor \<Rightarrow> int \<Rightarrow> periods \<Rightarrow> periods \<times> IFiscalPeriod list" where
  "createFiscalYear date year ps =
     fold (\<lambda>m (ps', created). let period = fiscal_period date year m
                             in (jm_set (fp_periodId period) period ps', created @ [period]))
       [1..<13] (ps, [])"

definition closePeriod :: "string \<Rightarrow> string \<Rightarrow> string \<Rightarrow> periods \<Rightarrow> periods \<times> IFiscalPeriod outcome" where
  "closePeriod periodId actorUserId closingEntryId ps =
     (case jm_get ps periodId of
        None \<Rightarrow> (ps, Inl (PlainError (''Fiscal period '' @ periodId @ '' does not exist'')))
      | Some period \<Rightarrow>
          if fp_isClosed period
          then (ps, Inl (PlainError (''Fiscal period '' @ periodId @ '' is already locked and closed'')))
          else let p = period\<lparr> fp_isClosed := True, fp_closedByUserId := Some actorUserId,
                 fp_closingJournalEntryId := Some closingEntryId \<rparr>
            in (jm_set periodId p ps, Inr p))"

definition isDatePostingAllowed :: "int \<Rightarrow> nat \<Rightarrow> periods \<Rightarrow> bool" where
  "isDatePostingAllowed fullYear month0 ps =
     (case jm_get ps (period_id fullYear (month0 + 1)) of None \<Rightarrow> True | Some p \<Rightarrow> \<not> fp_isClosed p)"

section \<open>Period identifiers\<close>

lemma digit_char_minus: "d < 10 \<Longrightarrow> digit_char d \<noteq> CHR ''-''"
proof -
  have "list_all (\<lambda>d. digit_char d \<noteq> CHR ''-'') [0..<10]" by code_simp
  then show "d < 10 \<Longrightarrow> digit_char d \<noteq> CHR ''-''" by (simp add: list_all_iff)
qed

lemma dec_string_minus: "CHR ''-'' \<notin> set (dec_string n)"
proof -
  have "b = 10 \<Longrightarrow> CHR ''-'' \<notin> set (base_string b n)" for b
  proof (induction b n rule: base_string.induct)
    case (1 b n)
    then show ?case using digit_char_minus [of n] digit_char_minus [of "n mod 10"]
      by (subst base_string.simps) auto
  qed
  then show ?thesis by (simp add: dec_string_def)
qed

lemma int_string_inject: "int_string i = int_string j \<longleftrightarrow> i = j"
proof -
  have "dec_string n \<noteq> CHR ''-'' # s" for n s using dec_string_minus [of n] by auto
  then have "CHR ''-'' # s \<noteq> dec_string n" for n s by metis
  with \<open>\<And>n s. dec_string n \<noteq> CHR ''-'' # s\<close> show ?thesis by (auto simp: int_string_def)
qed

lemma pad_month: "k \<le> 12 \<Longrightarrow> length (pad_start 2 (CHR ''0'') (dec_string k)) = 2"
  and pad_month_inject: "k \<le> 12 \<Longrightarrow> l \<le> 12 \<Longrightarrow>
    pad_start 2 (CHR ''0'') (dec_string k) = pad_start 2 (CHR ''0'') (dec_string l) \<longleftrightarrow> k = l"
proof -
  have "list_all (\<lambda>k. length (pad_start 2 (CHR ''0'') (dec_string k)) = 2) [0..<13]" by code_simp
  then show "k \<le> 12 \<Longrightarrow> length (pad_start 2 (CHR ''0'') (dec_string k)) = 2" by (auto simp: list_all_iff)
  have "distinct (map (\<lambda>k. pad_start 2 (CHR ''0'') (dec_string k)) [0..<13])" by code_simp
  then have "inj_on (\<lambda>k. pad_start 2 (CHR ''0'') (dec_string k)) {0..<13}" by (simp add: distinct_map)
  then show "k \<le> 12 \<Longrightarrow> l \<le> 12 \<Longrightarrow>
    pad_start 2 (CHR ''0'') (dec_string k) = pad_start 2 (CHR ''0'') (dec_string l) \<longleftrightarrow> k = l"
    by (auto simp: inj_on_def)
qed

lemma period_id_inject:
  assumes "k \<le> 12" and "l \<le> 12"
  shows "period_id y k = period_id z l \<longleftrightarrow> y = z \<and> k = l"
  using assms pad_month [of k] pad_month [of l] pad_month_inject [of k l]
  by (auto simp: period_id_def int_string_inject)

section \<open>What the calls promise\<close>

datatype period_call =
    CreateYear date_ctor int
  | ClosePeriod string string string

fun period_step :: "period_call \<Rightarrow> periods \<Rightarrow> periods" where
  "period_step (CreateYear date y) ps = fst (createFiscalYear date y ps)"
| "period_step (ClosePeriod i user entry) ps = fst (closePeriod i user entry ps)"

text \<open>The abstract calendar: for a month of a year, nothing, open, or who closed it with which entry.\<close>

type_synonym calendar = "int \<Rightarrow> nat \<Rightarrow> (string \<times> string) option option"

fun calendar_step :: "period_call \<Rightarrow> calendar \<Rightarrow> calendar" where
  "calendar_step (CreateYear date y) c = c(y := (\<lambda>m. if m \<in> {1..12} then Some None else c y m))"
| "calendar_step (ClosePeriod i user entry) c =
     (\<lambda>y m. if m \<le> 12 \<and> i = period_id y m \<and> c y m = Some None then Some (Some (user, entry)) else c y m)"

definition closer :: "IFiscalPeriod \<Rightarrow> (string \<times> string) option" where
  "closer p = (if fp_isClosed p then Some (the (fp_closedByUserId p), the (fp_closingJournalEntryId p)) else None)"

definition calendar_of :: "periods \<Rightarrow> calendar" where
  "calendar_of ps y m = (if m \<le> 12 then map_option closer (jm_get ps (period_id y m)) else None)"

lemma fold_periods:
  "jm_get (fst (fold (\<lambda>m (ps', created). let period = fiscal_period date year m
                             in (jm_set (fp_periodId period) period ps', created @ [period])) ms (ps, cr))) i =
    (case find (\<lambda>m. period_id year m = i) (List.rev ms) of None \<Rightarrow> jm_get ps i | Some m \<Rightarrow> Some (fiscal_period date year m))"
  by (induction ms arbitrary: ps cr) (auto simp: fiscal_period_def Let_def find_append split: option.split)

lemma created_get:
  "jm_get (fst (createFiscalYear date year ps)) i =
    (case find (\<lambda>m. period_id year m = i) (List.rev [1..<13]) of None \<Rightarrow> jm_get ps i | Some m \<Rightarrow> Some (fiscal_period date year m))"
  unfolding createFiscalYear_def by (rule fold_periods)

lemma fresh_open: "closer (fiscal_period date year m) = None"
  by (simp add: closer_def fiscal_period_def)

lemma calendar_create: "calendar_of (fst (createFiscalYear date year ps)) = calendar_step (CreateYear date year) (calendar_of ps)"
proof (intro ext)
  fix y m
  show "calendar_of (fst (createFiscalYear date year ps)) y m = calendar_step (CreateYear date year) (calendar_of ps) y m"
  proof (cases "m \<le> 12")
    case True
    have "find (\<lambda>k. period_id year k = period_id y m) (List.rev [1..<13]) = (if y = year \<and> m \<in> {1..12} then Some m else None)"
    proof (cases "y = year \<and> m \<in> {1..12}")
      case True
      then have "m \<in> set (List.rev [1..<13])" by auto
      then obtain k where k: "find (\<lambda>k. period_id year k = period_id y m) (List.rev [1..<13]) = Some k"
        using True by (cases "find (\<lambda>k. period_id year k = period_id y m) (List.rev [1..<13])") (auto simp: find_None_iff)
      from find_SomeD [OF k] have "k \<le> 12" "period_id year k = period_id y m" by auto
      with period_id_inject [of k m year y] \<open>m \<le> 12\<close> k True show ?thesis by simp
    next
      case False
      have "period_id year k \<noteq> period_id y m" if "k \<in> set (List.rev [1..<13])" for k
        using that False period_id_inject [of k m year y] \<open>m \<le> 12\<close> by auto
      with False show ?thesis by (auto simp: find_None_iff)
    qed
    with True show ?thesis by (auto simp: calendar_of_def created_get fresh_open)
  qed (auto simp: calendar_of_def)
qed

lemma calendar_close: "calendar_of (fst (closePeriod i user entry ps)) = calendar_step (ClosePeriod i user entry) (calendar_of ps)"
proof (intro ext)
  fix y m
  show "calendar_of (fst (closePeriod i user entry ps)) y m = calendar_step (ClosePeriod i user entry) (calendar_of ps) y m"
    by (cases "jm_get ps i") (auto simp: calendar_of_def closePeriod_def closer_def Let_def)
qed

lemma calendar_run: "calendar_of (fold period_step cs ps) = fold calendar_step cs (calendar_of ps)"
proof (induction cs arbitrary: ps)
  case (Cons c cs)
  have "calendar_of (period_step c ps) = calendar_step c (calendar_of ps)"
    by (cases c) (simp_all add: calendar_create calendar_close)
  with Cons show ?case by simp
qed simp

lemma closed_kept:
  "c y m = Some (Some w) \<Longrightarrow> list_all (\<lambda>k. case k of CreateYear date z \<Rightarrow> z \<noteq> y | ClosePeriod i u e \<Rightarrow> True) cs \<Longrightarrow>
    fold calendar_step cs c y m = Some (Some w)"
  by (induction cs arbitrary: c) (auto split: period_call.splits)

text \<open>C30: closing locks a period until its year is created again. After any calls a date may be posted to
  exactly unless its month is closed in the abstract calendar: created by the year, closed by the first
  successful close, and kept closed, with the user and the entry that closed it, by every call but one:
  creating the same year again opens all twelve months and forgets who closed them. Closing a closed
  period is refused.\<close>

theorem closing_locks_postings:
  assumes "month0 < 12"
  shows "let ps = fold period_step cs []; cal = fold calendar_step cs (\<lambda>_ _. None) in
    isDatePostingAllowed year month0 ps = (case cal year (month0 + 1) of Some (Some w) \<Rightarrow> False | _ \<Rightarrow> True) \<and>
    (\<not> isDatePostingAllowed year month0 ps \<longrightarrow>
      snd (closePeriod (period_id year (month0 + 1)) u e ps) =
        Inl (PlainError (''Fiscal period '' @ period_id year (month0 + 1) @ '' is already locked and closed'')) \<and>
      (\<forall>ds. list_all (\<lambda>k. case k of CreateYear date z \<Rightarrow> z \<noteq> year | ClosePeriod i u e \<Rightarrow> True) ds \<longrightarrow>
        \<not> isDatePostingAllowed year month0 (fold period_step ds ps))) \<and>
    isDatePostingAllowed year month0 (fst (createFiscalYear date year ps))"
proof -
  define ps cal where "ps = fold period_step cs []" and "cal = fold calendar_step cs (\<lambda>_ _. None)"
  have empty: "calendar_of [] = (\<lambda>_ _. None)" by (simp add: calendar_of_def fun_eq_iff)
  have cal: "calendar_of ps = cal" by (simp add: ps_def cal_def calendar_run empty)
  have allowed: "isDatePostingAllowed year month0 qs = (case calendar_of qs year (month0 + 1) of Some (Some w) \<Rightarrow> False | _ \<Rightarrow> True)" for qs
    using assms by (simp add: isDatePostingAllowed_def calendar_of_def closer_def split: option.split)
  have refused: "snd (closePeriod (period_id year (month0 + 1)) u e ps) =
        Inl (PlainError (''Fiscal period '' @ period_id year (month0 + 1) @ '' is already locked and closed''))"
    if "\<not> isDatePostingAllowed year month0 ps"
    using that by (auto simp: isDatePostingAllowed_def closePeriod_def split: option.splits)
  have kept: "\<not> isDatePostingAllowed year month0 (fold period_step ds ps)"
    if n: "\<not> isDatePostingAllowed year month0 ps"
      and "list_all (\<lambda>k. case k of CreateYear date z \<Rightarrow> z \<noteq> year | ClosePeriod i u e \<Rightarrow> True) ds" for ds
  proof -
    from n obtain w where "calendar_of ps year (month0 + 1) = Some (Some w)"
      unfolding allowed by (auto split: option.splits)
    from closed_kept [where c = "calendar_of ps", OF this that(2)] show ?thesis by (simp add: allowed calendar_run)
  qed
  have "isDatePostingAllowed year month0 (fst (createFiscalYear date year ps))"
    using assms unfolding allowed by (simp add: calendar_create)
  with allowed [of ps] refused kept show ?thesis unfolding ps_def [symmetric] cal_def [symmetric] Let_def cal by blast
qed

theorem closing_locks_postings_witness:
  "\<not> isDatePostingAllowed 2026 0 (fold period_step [CreateYear (\<lambda>_ _ _ _ _ _. 0) 2026, ClosePeriod ''FY2026-M01'' ''cfo'' ''je-1''] []) \<and>
   isDatePostingAllowed 2026 1 (fold period_step [CreateYear (\<lambda>_ _ _ _ _ _. 0) 2026, ClosePeriod ''FY2026-M01'' ''cfo'' ''je-1''] []) \<and>
   isDatePostingAllowed 2026 0 (fst (createFiscalYear (\<lambda>_ _ _ _ _ _. 0) 2026
     (fold period_step [CreateYear (\<lambda>_ _ _ _ _ _. 0) 2026, ClosePeriod ''FY2026-M01'' ''cfo'' ''je-1''] [])))"
proof -
  have "(0 :: nat) < 12" by simp
  from closing_locks_postings [OF this, of "[CreateYear (\<lambda>_ _ _ _ _ _. 0) 2026, ClosePeriod ''FY2026-M01'' ''cfo'' ''je-1'']"
      2026 "''x''" "''y''" "\<lambda>_ _ _ _ _ _. 0"]
  have "isDatePostingAllowed 2026 0 (fst (createFiscalYear (\<lambda>_ _ _ _ _ _. 0) 2026
     (fold period_step [CreateYear (\<lambda>_ _ _ _ _ _. 0) 2026, ClosePeriod ''FY2026-M01'' ''cfo'' ''je-1''] [])))"
    unfolding Let_def by blast
  moreover have "\<not> isDatePostingAllowed 2026 0 (fold period_step [CreateYear (\<lambda>_ _ _ _ _ _. 0) 2026, ClosePeriod ''FY2026-M01'' ''cfo'' ''je-1''] [])"
    by code_simp
  moreover have "isDatePostingAllowed 2026 1 (fold period_step [CreateYear (\<lambda>_ _ _ _ _ _. 0) 2026, ClosePeriod ''FY2026-M01'' ''cfo'' ''je-1''] [])"
    by code_simp
  ultimately show ?thesis by blast
qed

end
