(* ===== verification/Route_Planning.thy ===== *)
theory Route_Planning
  imports Optimization "HOL-Library.Product_Lexorder"
begin

text \<open>
  Tours through stops and shelves: the nearest-neighbour tour of the logistics service
  (services/logistics-service/src/routing/DijkstraVrpRouteOptimizer.ts) and the serpentine pick
  path of the inventory service (services/inventory-service/src/pathfinding/
  WarehousePickListOptimizer.ts).
\<close>

section \<open>Nearest-neighbour tours\<close>

record IRouteWaypoint =
  rw_waypointId :: string
  rw_latitude :: rat
  rw_longitude :: rat
  rw_deliveryWindowStart :: int
  rw_deliveryWindowEnd :: int
  rw_demandVolumeM3 :: rat
  rw_serviceTimeMinutes :: rat

record IOptimizedRoute =
  or_vehicleId :: string
  or_totalDistanceKm :: number
  or_estimatedDurationHours :: number
  or_orderedWaypoints :: "IRouteWaypoint list"
  or_fuelEstimateLiters :: number

definition calculateDistance :: "js_math \<Rightarrow> rat \<times> rat \<Rightarrow> rat \<times> rat \<Rightarrow> number" where
  "calculateDistance math p1 p2 =
     (let dLat = ddiv (dmul (dsub (fst p2) (fst p1)) (m_PI math)) 180;
          dLon = ddiv (dmul (dsub (snd p2) (snd p1)) (m_PI math)) 180;
          a = dadd (dmul (m_sin math (ddiv dLat 2)) (m_sin math (ddiv dLat 2)))
                (dmul (dmul (dmul (m_cos math (ddiv (dmul (fst p1) (m_PI math)) 180))
                                  (m_cos math (ddiv (dmul (fst p2) (m_PI math)) 180)))
                            (m_sin math (ddiv dLon 2))) (m_sin math (ddiv dLon 2)))
      in if a < 0 \<or> dsub 1 a < 0 then None
         else Some (toFixed 2 (dmul 6371 (dmul 2 (m_atan2 math (m_sqrt math a) (m_sqrt math (dsub 1 a)))))))"

definition stop_distance :: "js_math \<Rightarrow> IRouteWaypoint \<Rightarrow> IRouteWaypoint \<Rightarrow> number" where
  "stop_distance math p q = calculateDistance math (rw_latitude p, rw_longitude p) (rw_latitude q, rw_longitude q)"

text \<open>The inner loop: \<open>minDistance\<close> starts at infinity (here \<open>None\<close> of the outer option), and a
  distance that is not a number is below nothing.\<close>

definition below :: "number \<Rightarrow> rat option \<Rightarrow> bool" where
  "below d m = (case d of None \<Rightarrow> False | Some x \<Rightarrow> (case m of None \<Rightarrow> True | Some y \<Rightarrow> x < y))"

fun nearest_from :: "(IRouteWaypoint \<Rightarrow> number) \<Rightarrow> nat \<Rightarrow> nat \<times> rat option \<Rightarrow> IRouteWaypoint list \<Rightarrow> nat" where
  "nearest_from d i best [] = fst best"
| "nearest_from d i best (s # ss) =
     nearest_from d (Suc i) (if below (d s) (snd best) then (i, d s) else best) ss"

definition nearestIdx :: "js_math \<Rightarrow> IRouteWaypoint \<Rightarrow> IRouteWaypoint list \<Rightarrow> nat" where
  "nearestIdx math current unvisited = nearest_from (stop_distance math current) 0 (0, None) unvisited"

lemma nearest_from_bound: "nearest_from d i best ss < i + length ss \<or> nearest_from d i best ss = fst best"
proof (induction d i best ss rule: nearest_from.induct)
  case (2 d i best s ss)
  then show ?case by (auto split: if_splits)
qed simp

lemma nearestIdx_bound: "us \<noteq> [] \<Longrightarrow> nearestIdx math c us < length us"
  using nearest_from_bound [of "stop_distance math c" 0 "(0, None)" us] by (auto simp: nearestIdx_def)

function greedy_tour :: "js_math \<Rightarrow> IRouteWaypoint \<Rightarrow> IRouteWaypoint list \<Rightarrow> IRouteWaypoint list" where
  "greedy_tour math current unvisited =
     (if unvisited = [] then []
      else let i = nearestIdx math current unvisited
        in unvisited ! i # greedy_tour math (unvisited ! i) (take i unvisited @ drop (Suc i) unvisited))"
  by pat_completeness auto
termination
proof (relation "measure (\<lambda>(math, current, unvisited). length unvisited)", goal_cases)
  case (2 math current unvisited i)
  then have "i < length unvisited" using nearestIdx_bound by simp
  then show ?case by (simp add: min_def)
qed simp

declare greedy_tour.simps [simp del]

definition tour_length :: "js_math \<Rightarrow> IRouteWaypoint list \<Rightarrow> number" where
  "tour_length math ordered =
     fold (\<lambda>i d. nadd d (stop_distance math (ordered ! i) (ordered ! (i + 1)))) [0..<length ordered - 1] (Some 0)"

definition optimizeTrajectory :: "js_math \<Rightarrow> string \<Rightarrow> IRouteWaypoint \<Rightarrow> IRouteWaypoint list \<Rightarrow> IOptimizedRoute" where
  "optimizeTrajectory math vehicleId depot stops =
     (if stops = [] then \<lparr> or_vehicleId = vehicleId, or_totalDistanceKm = Some 0, or_estimatedDurationHours = Some 0,
        or_orderedWaypoints = [depot], or_fuelEstimateLiters = Some 0 \<rparr>
      else let ordered = depot # greedy_tour math depot stops @ [depot]; totalDist = tour_length math ordered
        in \<lparr> or_vehicleId = vehicleId, or_totalDistanceKm = totalDist,
             or_estimatedDurationHours = map_option (\<lambda>d. toFixed 2 (ddiv d 65)) totalDist,
             or_orderedWaypoints = ordered,
             or_fuelEstimateLiters = map_option (\<lambda>d. toFixed 2 (dmul d (fl (28 / 100)))) totalDist \<rparr>)"

text \<open>In a nearest-neighbour tour no stop that is still to come is nearer than the next one.\<close>

fun nearest_chain :: "js_math \<Rightarrow> IRouteWaypoint \<Rightarrow> IRouteWaypoint list \<Rightarrow> bool" where
  "nearest_chain math c [] = True"
| "nearest_chain math c (s # ss) =
     (list_all (\<lambda>x. \<not> nless (stop_distance math c x) (stop_distance math c s)) ss \<and> nearest_chain math s ss)"

lemma nearest_from_min:
  assumes "\<forall>x \<in> set pre. \<not> below (d x) (snd best)" and "fst best < length pre \<or> (fst best = 0 \<and> snd best = None)"
    and "snd best \<noteq> None \<longrightarrow> d (pre ! fst best) = snd best" and "i = length pre"
  shows "\<forall>x \<in> set (pre @ ss). \<not> nless (d x) (d ((pre @ ss) ! nearest_from d i best ss))"
  using assms
proof (induction ss arbitrary: pre i best)
  case Nil
  show ?case
  proof (cases "snd best")
    case None
    then have "\<forall>x \<in> set pre. d x = None" using Nil(1) by (auto simp: below_def split: option.splits)
    then show ?thesis by (simp add: nless_def)
  next
    case (Some m)
    with Nil have "d (pre ! fst best) = Some m" by simp
    with Some Nil(1) show ?thesis by (auto simp: nless_def below_def split: option.splits)
  qed
next
  case (Cons s ss)
  let ?b = "if below (d s) (snd best) then (i, d s) else best"
  have "\<forall>x \<in> set (pre @ [s]). \<not> below (d x) (snd ?b)"
    using Cons.prems(1) by (auto simp: below_def split: option.splits)
  moreover have "fst ?b < length (pre @ [s]) \<or> (fst ?b = 0 \<and> snd ?b = None)" using Cons.prems(2,4) by auto
  moreover have "snd ?b \<noteq> None \<longrightarrow> d ((pre @ [s]) ! fst ?b) = snd ?b"
    using Cons.prems(2,3,4) by (auto simp: nth_append)
  moreover have "Suc i = length (pre @ [s])" using Cons.prems(4) by simp
  ultimately have "\<forall>x \<in> set ((pre @ [s]) @ ss). \<not> nless (d x) (d (((pre @ [s]) @ ss) ! nearest_from d (Suc i) ?b ss))"
    by (rule Cons.IH)
  then show ?case by (simp only: nearest_from.simps append_assoc append_Cons append_Nil)
qed

lemma nearestIdx_min: "x \<in> set us \<Longrightarrow> \<not> nless (stop_distance math c x) (stop_distance math c (us ! nearestIdx math c us))"
  using nearest_from_min [of "[]" "stop_distance math c" "(0, None)" 0 us] by (simp add: nearestIdx_def)

lemma greedy_tour_ok: "mset (greedy_tour math c us) = mset us \<and> nearest_chain math c (greedy_tour math c us)"
proof (induction math c us rule: greedy_tour.induct)
  case (1 math c us)
  show ?case
  proof (cases "us = []")
    case True
    then show ?thesis by (simp add: greedy_tour.simps)
  next
    case False
    define i where "i = nearestIdx math c us"
    define rest where "rest = take i us @ drop (Suc i) us"
    have i: "i < length us" using nearestIdx_bound [OF False] by (simp add: i_def)
    have us: "us = take i us @ us ! i # drop (Suc i) us" using i by (rule id_take_nth_drop)
    have m: "mset us = add_mset (us ! i) (mset rest)"
      by (subst us) (simp add: rest_def)
    have IH: "mset (greedy_tour math (us ! i) rest) = mset rest" "nearest_chain math (us ! i) (greedy_tour math (us ! i) rest)"
      using 1 [OF False i_def] by (simp_all add: rest_def)
    have tour: "greedy_tour math c us = us ! i # greedy_tour math (us ! i) rest"
      using False by (subst greedy_tour.simps) (simp add: i_def rest_def Let_def)
    have "set (greedy_tour math (us ! i) rest) \<subseteq> set us" using IH(1) m by (metis mset_subset_eqD set_mset_mset subset_insertI set_mset_add_mset_insert)
    then have "list_all (\<lambda>x. \<not> nless (stop_distance math c x) (stop_distance math c (us ! i))) (greedy_tour math (us ! i) rest)"
      using nearestIdx_min [of _ us math c] by (auto simp: list_all_iff i_def)
    with IH m show ?thesis by (simp add: tour)
  qed
qed

text \<open>The tour starts and ends at the depot, visits every stop exactly once, and always goes to a
  nearest stop that is left. Its length is the sum of its legs, as the code adds them.\<close>

theorem nearest_neighbour_tour:
  "let r = optimizeTrajectory math v depot stops in
    (if stops = [] then or_orderedWaypoints r = [depot]
     else \<exists>tour. or_orderedWaypoints r = depot # tour @ [depot] \<and> mset tour = mset stops \<and> nearest_chain math depot tour \<and>
       or_totalDistanceKm r = tour_length math (depot # tour @ [depot]))"
  using greedy_tour_ok [of math depot stops]
  by (auto simp: optimizeTrajectory_def Let_def)

section \<open>Pick paths\<close>

record IPickItemLocation =
  pk_sku :: string
  pk_quantity :: int
  pk_aisle :: int
  pk_bay :: int
  pk_shelfTier :: int
  pk_weightKg :: rat

definition group_item :: "IPickItemLocation \<Rightarrow> (int, IPickItemLocation list) jsmap \<Rightarrow> (int, IPickItemLocation list) jsmap" where
  "group_item item m =
     (let m1 = (if jm_has m (pk_aisle item) then m else jm_set (pk_aisle item) [] m)
      in jm_set (pk_aisle item) (the (jm_get m1 (pk_aisle item)) @ [item]) m1)"

definition aisleMap :: "IPickItemLocation list \<Rightarrow> (int, IPickItemLocation list) jsmap" where
  "aisleMap items = fold group_item items []"

definition aisle_order :: "nat \<Rightarrow> IPickItemLocation list \<Rightarrow> IPickItemLocation list" where
  "aisle_order idx items =
     (if idx mod 2 = 0 then sort_key (\<lambda>i. (pk_bay i, pk_shelfTier i)) items
      else sort_key (\<lambda>i. (- pk_bay i, pk_shelfTier i)) items)"

definition optimizePickPath :: "IPickItemLocation list \<Rightarrow> IPickItemLocation list" where
  "optimizePickPath items =
     (let m = aisleMap items; sortedAisles = sort (map fst m)
      in concat (map (\<lambda>(idx, aisle). aisle_order idx (the (jm_get m aisle))) (enumerate 0 sortedAisles)))"

lemma aisleMap_get:
  "jm_get (aisleMap items) a = (let xs = filter (\<lambda>i. pk_aisle i = a) items in if xs = [] then None else Some xs)"
proof (induction items rule: rev_induct)
  case (snoc x xs)
  then show ?case by (auto simp: aisleMap_def group_item_def Let_def split: if_splits)
qed (simp add: aisleMap_def)

lemma aisleMap_ok: "jm_ok (aisleMap items)"
  by (induction items rule: rev_induct) (auto simp: aisleMap_def group_item_def Let_def)

text \<open>The path in closed form: aisle by aisle, upwards, every second aisle backwards.\<close>

lemma optimizePickPath_eq:
  "optimizePickPath items =
     concat (map (\<lambda>(idx, a). aisle_order idx (filter (\<lambda>i. pk_aisle i = a) items))
       (enumerate 0 (sorted_list_of_set (pk_aisle ` set items))))"
proof -
  have keys: "set (map fst (aisleMap items)) = pk_aisle ` set items"
  proof -
    have "a \<in> fst ` set (aisleMap items) \<longleftrightarrow> a \<in> pk_aisle ` set items" for a
    proof -
      have "a \<in> fst ` set (aisleMap items) \<longleftrightarrow> jm_get (aisleMap items) a \<noteq> None" by (simp add: map_of_eq_None_iff)
      also have "\<dots> \<longleftrightarrow> a \<in> pk_aisle ` set items" unfolding aisleMap_get Let_def by (auto simp: filter_empty_conv)
      finally show ?thesis .
    qed
    then show ?thesis by auto
  qed
  have "sort (map fst (aisleMap items)) = sorted_list_of_set (pk_aisle ` set items)"
    using aisleMap_ok [of items] keys by (metis sorted_list_of_set_sort_remdups distinct_remdups_id)
  moreover have "the (jm_get (aisleMap items) a) = filter (\<lambda>i. pk_aisle i = a) items" if "a \<in> pk_aisle ` set items" for a
    using that by (auto simp: aisleMap_get Let_def filter_empty_conv)
  moreover have "a \<in> pk_aisle ` set items"
    if "(idx, a) \<in> set (enumerate 0 (sorted_list_of_set (pk_aisle ` set items)))" for idx a
    using that by (auto simp: enumerate_eq_zip dest!: set_zip_rightD)
  ultimately show ?thesis unfolding optimizePickPath_def Let_def
    by (intro arg_cong [where f = concat] map_cong) auto
qed

lemma aisle_order_mset [simp]: "mset (aisle_order idx xs) = mset xs"
  by (simp add: aisle_order_def)

lemma mset_by_aisle:
  assumes "distinct as"
  shows "mset (concat (map (\<lambda>(idx, a). aisle_order idx (filter (\<lambda>i. pk_aisle i = a) items)) (enumerate n as))) =
    filter_mset (\<lambda>i. pk_aisle i \<in> set as) (mset items)"
  using assms
proof (induction as arbitrary: n)
  case (Cons a as)
  have "filter_mset (\<lambda>i. pk_aisle i = a \<or> pk_aisle i \<in> set as) (mset items) =
      filter_mset (\<lambda>i. pk_aisle i = a) (mset items) + filter_mset (\<lambda>i. pk_aisle i \<in> set as) (mset items)"
    using Cons.prems by (intro multiset_eqI) auto
  with Cons show ?case by simp
qed simp

text \<open>Every item is picked exactly once.\<close>

lemma pick_path_complete: "mset (optimizePickPath items) = mset items"
proof -
  have "mset (optimizePickPath items) = filter_mset (\<lambda>i. pk_aisle i \<in> pk_aisle ` set items) (mset items)"
    unfolding optimizePickPath_eq by (subst mset_by_aisle) simp_all
  also have "\<dots> = mset items" by (simp add: filter_mset_eq_conv)
  finally show ?thesis .
qed

end
