(* ===== verification/Notifications.thy ===== *)
theory Notifications
  imports Prelude Common_Types
begin

text \<open>
  The notification service (services/notification-service): notifications kept in the order they
  were sent, the webhook subscriptions and the service operations. Metadata is opaque.
\<close>

record NotificationTemplateEntity =
  nt_id :: string
  nt_templateCode :: string
  nt_name :: string
  nt_channel :: NotificationChannel
  nt_subjectTemplate :: string
  nt_bodyTemplate :: string
  nt_isActive :: bool
  nt_createdAt :: instant

record 'm NotificationEntity =
  no_id :: string
  no_tenantId :: string
  no_recipientId :: string
  no_recipientEmail :: "string option"
  no_recipientPhone :: "string option"
  no_channel :: NotificationChannel
  no_priority :: NotificationPriority
  no_subject :: string
  no_body :: string
  no_isRead :: bool
  no_deliveredAt :: "instant option"
  no_metadata :: "'m option"
  no_createdAt :: instant

record WebhookSubscriptionEntity =
  wh_id :: string
  wh_tenantId :: string
  wh_targetUrl :: string
  wh_secretKey :: string
  wh_subscribedEvents :: "string list"
  wh_isActive :: bool
  wh_createdAt :: instant

record 'm SendNotificationDTO =
  sn_tenantId :: string
  sn_recipientId :: string
  sn_recipientEmail :: "string option"
  sn_recipientPhone :: "string option"
  sn_channel :: NotificationChannel
  sn_priority :: NotificationPriority
  sn_subject :: string
  sn_body :: string
  sn_metadata :: "'m option"

record CreateWebhookDTO =
  cw_tenantId :: string
  cw_targetUrl :: string
  cw_subscribedEvents :: "string list"

record 'm NotificationRepository =
  nr_notifications :: "'m NotificationEntity list"
  nr_templates :: "(string, NotificationTemplateEntity) jsmap"
  nr_webhooks :: "(string, WebhookSubscriptionEntity) jsmap"

definition notifications_empty :: "'m NotificationRepository" where
  "notifications_empty = \<lparr> nr_notifications = [], nr_templates = [], nr_webhooks = [] \<rparr>"

definition createNotification ::
  "string \<Rightarrow> instant \<Rightarrow> 'm NotificationEntity \<Rightarrow> 'm NotificationRepository \<Rightarrow> 'm NotificationRepository \<times> 'm NotificationEntity" where
  "createNotification uid now notif s =
     (let entity = notif\<lparr> no_id := uid, no_createdAt := now \<rparr>
      in (s\<lparr> nr_notifications := nr_notifications s @ [entity] \<rparr>, entity))"

definition listByUser :: "string \<Rightarrow> nat \<Rightarrow> 'm NotificationRepository \<Rightarrow> 'm NotificationEntity list" where
  "listByUser userId limit s = js_last limit (filter (\<lambda>n. no_recipientId n = userId) (nr_notifications s))"

text \<open>\<open>find\<close> the first with the identifier and mark that object.\<close>

fun mark_first :: "string \<Rightarrow> 'm NotificationEntity list \<Rightarrow> 'm NotificationEntity list" where
  "mark_first uid [] = []"
| "mark_first uid (n # ns) = (if no_id n = uid then n\<lparr> no_isRead := True \<rparr> # ns else n # mark_first uid ns)"

definition repo_markAsRead :: "string \<Rightarrow> 'm NotificationRepository \<Rightarrow> 'm NotificationRepository \<times> bool" where
  "repo_markAsRead uid s =
     (case find (\<lambda>n. no_id n = uid) (nr_notifications s) of
        None \<Rightarrow> (s, False)
      | Some _ \<Rightarrow> (s\<lparr> nr_notifications := mark_first uid (nr_notifications s) \<rparr>, True))"

definition repo_createWebhook ::
  "string \<Rightarrow> instant \<Rightarrow> WebhookSubscriptionEntity \<Rightarrow> 'm NotificationRepository \<Rightarrow> 'm NotificationRepository \<times> WebhookSubscriptionEntity" where
  "repo_createWebhook uid now hook s =
     (let entity = hook\<lparr> wh_id := uid, wh_createdAt := now \<rparr>
      in (s\<lparr> nr_webhooks := jm_set uid entity (nr_webhooks s) \<rparr>, entity))"

definition repo_listWebhooks :: "string \<Rightarrow> 'm NotificationRepository \<Rightarrow> WebhookSubscriptionEntity list" where
  "repo_listWebhooks tenantId s = filter (\<lambda>w. wh_tenantId w = tenantId) (jm_values (nr_webhooks s))"

section \<open>The service\<close>

definition sendNotification ::
  "string \<Rightarrow> instant \<Rightarrow> 'm SendNotificationDTO \<Rightarrow> 'm NotificationRepository \<Rightarrow> 'm NotificationRepository \<times> 'm NotificationEntity" where
  "sendNotification uid now dto s =
     createNotification uid now
       \<lparr> no_id = [], no_tenantId = sn_tenantId dto, no_recipientId = sn_recipientId dto,
         no_recipientEmail = sn_recipientEmail dto, no_recipientPhone = sn_recipientPhone dto,
         no_channel = sn_channel dto, no_priority = sn_priority dto, no_subject = sn_subject dto,
         no_body = sn_body dto, no_isRead = False, no_deliveredAt = Some now,
         no_metadata = sn_metadata dto, no_createdAt = 0 \<rparr> s"

definition createWebhook ::
  "string \<Rightarrow> string \<Rightarrow> instant \<Rightarrow> CreateWebhookDTO \<Rightarrow> 'm NotificationRepository \<Rightarrow> 'm NotificationRepository \<times> WebhookSubscriptionEntity" where
  "createWebhook uid secretKey now dto s =
     repo_createWebhook uid now
       \<lparr> wh_id = [], wh_tenantId = cw_tenantId dto, wh_targetUrl = cw_targetUrl dto, wh_secretKey = secretKey,
         wh_subscribedEvents = cw_subscribedEvents dto, wh_isActive = True, wh_createdAt = 0 \<rparr> s"

definition listUserNotifications :: "string \<Rightarrow> 'm NotificationRepository \<Rightarrow> 'm NotificationEntity list" where
  "listUserNotifications userId s = listByUser userId 50 s"

definition markAsRead :: "string \<Rightarrow> 'm NotificationRepository \<Rightarrow> 'm NotificationRepository \<times> bool" where
  "markAsRead notificationId s = repo_markAsRead notificationId s"

definition listWebhooks :: "string \<Rightarrow> 'm NotificationRepository \<Rightarrow> WebhookSubscriptionEntity list" where
  "listWebhooks tenantId s = repo_listWebhooks tenantId s"

section \<open>Inboxes\<close>

text \<open>With distinct identifiers, marking one notification changes that one and nothing else.\<close>

lemma mark_first_map:
  "distinct (map no_id ns) \<Longrightarrow> mark_first uid ns = map (\<lambda>n. if no_id n = uid then n\<lparr> no_isRead := True \<rparr> else n) ns"
proof (induction ns)
  case (Cons n ns)
  then show ?case by (cases "no_id n = uid") (auto simp: image_iff intro!: map_idI [symmetric])
qed simp

lemma markAsRead_map:
  assumes "distinct (map no_id (nr_notifications s))"
  shows "nr_notifications (fst (markAsRead uid s)) =
      map (\<lambda>n. if no_id n = uid then n\<lparr> no_isRead := True \<rparr> else n) (nr_notifications s)"
    and "snd (markAsRead uid s) \<longleftrightarrow> uid \<in> no_id ` set (nr_notifications s)"
proof -
  show "nr_notifications (fst (markAsRead uid s)) =
      map (\<lambda>n. if no_id n = uid then n\<lparr> no_isRead := True \<rparr> else n) (nr_notifications s)"
    using mark_first_map [OF assms, of uid]
    by (auto simp: markAsRead_def repo_markAsRead_def find_None_iff split: option.split intro!: map_idI [symmetric])
  show "snd (markAsRead uid s) \<longleftrightarrow> uid \<in> no_id ` set (nr_notifications s)"
    by (force simp: markAsRead_def repo_markAsRead_def find_None_iff find_Some_iff split: option.split dest: nth_mem)
qed

datatype 'm inbox_call =
    Send string instant "'m SendNotificationDTO"
  | MarkRead string

fun inbox_step :: "'m inbox_call \<Rightarrow> 'm NotificationRepository \<Rightarrow> 'm NotificationRepository" where
  "inbox_step (Send uid now dto) s = fst (sendNotification uid now dto s)"
| "inbox_step (MarkRead uid) s = fst (markAsRead uid s)"

fun sent :: "'m inbox_call \<Rightarrow> (string \<times> string) list" where
  "sent (Send uid now dto) = [(uid, sn_recipientId dto)]"
| "sent (MarkRead uid) = []"

lemma inbox_sent:
  assumes "distinct (map no_id (nr_notifications s) @ map fst (concat (map sent cs)))"
  shows "map (\<lambda>n. (no_id n, no_recipientId n)) (nr_notifications (fold inbox_step cs s)) =
    map (\<lambda>n. (no_id n, no_recipientId n)) (nr_notifications s) @ concat (map sent cs)"
  using assms
proof (induction cs arbitrary: s)
  case (Cons c cs)
  show ?case
  proof (cases c)
    case (Send uid now dto)
    have "map (\<lambda>n. (no_id n, no_recipientId n)) (nr_notifications (inbox_step c s)) =
        map (\<lambda>n. (no_id n, no_recipientId n)) (nr_notifications s) @ [(uid, sn_recipientId dto)]"
      and "map no_id (nr_notifications (inbox_step c s)) = map no_id (nr_notifications s) @ [uid]"
      by (simp_all add: Send sendNotification_def createNotification_def Let_def)
    note step = this
    have "distinct (map no_id (nr_notifications (inbox_step c s)) @ map fst (concat (map sent cs)))"
      unfolding step(2) using Cons.prems by (simp add: Send)
    from Cons.IH [OF this] show ?thesis by (simp add: step(1)) (simp add: Send)
  next
    case (MarkRead uid)
    from Cons.prems have "distinct (map no_id (nr_notifications s))" by simp
    from markAsRead_map(1) [OF this, of uid]
    have "map (\<lambda>n. (no_id n, no_recipientId n)) (nr_notifications (inbox_step c s)) =
        map (\<lambda>n. (no_id n, no_recipientId n)) (nr_notifications s)"
      and "map no_id (nr_notifications (inbox_step c s)) = map no_id (nr_notifications s)"
      by (simp_all add: MarkRead)
    note step = this
    have "distinct (map no_id (nr_notifications (inbox_step c s)) @ map fst (concat (map sent cs)))"
      unfolding step(2) using Cons.prems by (simp add: MarkRead)
    from Cons.IH [OF this] show ?thesis by (simp add: step(1)) (simp add: MarkRead)
  qed
qed simp

text \<open>An inbox shows the last fifty notifications sent to the user, oldest first, whoever marks what as read.\<close>

lemma inbox_shows_last_fifty:
  assumes "distinct (map fst (concat (map sent cs)))"
  shows "map no_id (listUserNotifications user (fold inbox_step cs notifications_empty)) =
    js_last 50 (map fst (filter (\<lambda>p. snd p = user) (concat (map sent cs))))"
proof -
  let ?ns = "nr_notifications (fold inbox_step cs notifications_empty)"
  have "map (\<lambda>n. (no_id n, no_recipientId n)) ?ns = concat (map sent cs)"
    using inbox_sent [of notifications_empty cs] assms by (simp add: notifications_empty_def)
  then have "map fst (filter (\<lambda>p. snd p = user) (concat (map sent cs))) =
      map no_id (filter (\<lambda>n. no_recipientId n = user) ?ns)"
    by (simp flip: \<open>_ = concat (map sent cs)\<close> add: filter_map comp_def)
  then show ?thesis by (simp add: listUserNotifications_def listByUser_def js_last_pos drop_map)
qed

end
