(* ===== verification/Spot_Auction.thy ===== *)
theory Spot_Auction
  imports Prelude Complex_Main
begin

text \<open>
  The spot freight auctions of the logistics service (dispatch/AutonomousCarrierBiddingEngine.ts):
  auctions opened with a ceiling and a closing time, bids kept sorted by price with the carrier's
  safety score as the tie-breaker, and the award to the first of them. Prices and scores are
  compared and never computed with, so they are rationals.
\<close>

section \<open>The order of bids\<close>

text \<open>\<open>a.bidAmountUSD - b.bidAmountUSD || b.carrierSafetyScore - a.carrierSafetyScore\<close>: a lower
  price ranks first, among equal prices the higher score.\<close>

datatype bid_rank = Bid_Rank (rank_amount: rat) (rank_safety: rat)

instantiation bid_rank :: linorder
begin

definition less_eq_bid_rank :: "bid_rank \<Rightarrow> bid_rank \<Rightarrow> bool" where
  "x \<le> y \<longleftrightarrow> rank_amount x < rank_amount y \<or>
     (rank_amount x = rank_amount y \<and> rank_safety y \<le> rank_safety x)"

definition less_bid_rank :: "bid_rank \<Rightarrow> bid_rank \<Rightarrow> bool" where
  "x < y \<longleftrightarrow> rank_amount x < rank_amount y \<or>
     (rank_amount x = rank_amount y \<and> rank_safety y < rank_safety x)"

instance
  by standard (auto simp: less_eq_bid_rank_def less_bid_rank_def bid_rank.expand)

end

section \<open>Auctions\<close>

datatype equipment = DRY_VAN_53 | REEFER_53 | FLATBED | STEP_DECK
datatype auction_status = OPEN | AWARDED | EXPIRED | CANCELLED

record spot_bid =
  sb_bidId :: string
  sb_carrierId :: string
  sb_bidAmountUSD :: rat
  sb_estimatedPickupAt :: instant
  sb_carrierSafetyScore :: rat
  sb_submittedAt :: instant

record ISpotAuction =
  sa_auctionId :: string
  sa_shipmentId :: string
  sa_originPostalCode :: string
  sa_destinationPostalCode :: string
  sa_equipmentType :: equipment
  sa_maxCeilingRateUSD :: rat
  sa_auctionOpensAt :: instant
  sa_auctionClosesAt :: instant
  sa_status :: auction_status
  sa_bids :: "spot_bid list"
  sa_winningBidId :: "string option"

type_synonym auctions = "(string, ISpotAuction) jsmap"

definition bid_order :: "spot_bid \<Rightarrow> bid_rank" where
  "bid_order b = Bid_Rank (sb_bidAmountUSD b) (sb_carrierSafetyScore b)"

definition auction_id :: "instant \<Rightarrow> string" where
  "auction_id now = ''AUC-'' @ to_upper (base_string 36 (nat now))"

definition createSpotAuction ::
  "instant \<Rightarrow> string \<Rightarrow> string \<Rightarrow> string \<Rightarrow> equipment \<Rightarrow> rat \<Rightarrow> int \<Rightarrow> auctions \<Rightarrow> auctions \<times> ISpotAuction" where
  "createSpotAuction now shipmentId origin destination eq ceilingRate durationMinutes s =
     (let a = \<lparr> sa_auctionId = auction_id now, sa_shipmentId = shipmentId, sa_originPostalCode = origin,
                sa_destinationPostalCode = destination, sa_equipmentType = eq,
                sa_maxCeilingRateUSD = ceilingRate, sa_auctionOpensAt = now,
                sa_auctionClosesAt = now + durationMinutes * 60000, sa_status = OPEN, sa_bids = [],
                sa_winningBidId = None \<rparr>
      in (jm_set (auction_id now) a s, a))"

record bid_result =
  bres_isAccepted :: bool
  bres_rank :: nat
  bres_message :: string

definition bid_refused :: "string \<Rightarrow> bid_result" where
  "bid_refused m = \<lparr> bres_isAccepted = False, bres_rank = 0, bres_message = m \<rparr>"

text \<open>\<open>bids.findIndex(b => b.bidId === bidId) + 1\<close>; \<open>findIndex\<close> is \<open>-1\<close> when nothing is found.\<close>

fun bid_position :: "string \<Rightarrow> spot_bid list \<Rightarrow> nat" where
  "bid_position i [] = 0"
| "bid_position i (b # bs) =
     (if sb_bidId b = i then 1 else case bid_position i bs of 0 \<Rightarrow> 0 | Suc n \<Rightarrow> Suc (Suc n))"

definition submitBid ::
  "instant \<Rightarrow> string \<Rightarrow> string \<Rightarrow> string \<Rightarrow> rat \<Rightarrow> instant \<Rightarrow> rat \<Rightarrow> auctions \<Rightarrow> auctions \<times> bid_result" where
  "submitBid now bidId auctionId carrierId amount pickup safety s =
     (case jm_get s auctionId of
        None \<Rightarrow> (s, bid_refused ''Auction does not exist'')
      | Some a \<Rightarrow>
          if sa_status a \<noteq> OPEN \<or> sa_auctionClosesAt a < now then (s, bid_refused ''Auction is closed'')
          else if sa_maxCeilingRateUSD a < amount then (s, bid_refused ''Bid exceeds maximum ceiling price'')
          else let b = \<lparr> sb_bidId = bidId, sb_carrierId = carrierId, sb_bidAmountUSD = amount,
                         sb_estimatedPickupAt = pickup, sb_carrierSafetyScore = safety, sb_submittedAt = now \<rparr>;
                   bids = sort_key bid_order (sa_bids a @ [b])
               in (jm_set auctionId (a\<lparr> sa_bids := bids \<rparr>) s,
                   \<lparr> bres_isAccepted = True, bres_rank = bid_position bidId bids,
                     bres_message = ''Bid successfully placed'' \<rparr>))"

record award_result =
  aw_winningBidId :: string
  aw_winningCarrierId :: string
  aw_agreedRateUSD :: rat

text \<open>\<open>Inl\<close> is the thrown error's message.\<close>

definition awardAuction :: "string \<Rightarrow> auctions \<Rightarrow> auctions \<times> (string + award_result)" where
  "awardAuction auctionId s =
     (case jm_get s auctionId of
        None \<Rightarrow> (s, Inl ''Cannot award auction: No valid bids received'')
      | Some a \<Rightarrow> (case sa_bids a of
          [] \<Rightarrow> (s, Inl ''Cannot award auction: No valid bids received'')
        | winner # _ \<Rightarrow>
            (jm_set auctionId (a\<lparr> sa_status := AWARDED, sa_winningBidId := Some (sb_bidId winner) \<rparr>) s,
             Inr \<lparr> aw_winningBidId = sb_bidId winner, aw_winningCarrierId = sb_carrierId winner,
                   aw_agreedRateUSD = sb_bidAmountUSD winner \<rparr>)))"

section \<open>The auction house as a machine\<close>

datatype auction_call =
    CreateAuction instant string string string equipment rat int
  | SubmitBid instant string string string rat instant rat
  | AwardAuction string

primrec auction_step :: "auction_call \<Rightarrow> auctions \<Rightarrow> auctions" where
  "auction_step (CreateAuction now sh from dest eq ceil mins) s = fst (createSpotAuction now sh from dest eq ceil mins s)"
| "auction_step (SubmitBid now bid aid car amt pick saf) s = fst (submitBid now bid aid car amt pick saf s)"
| "auction_step (AwardAuction aid) s = fst (awardAuction aid s)"

text \<open>What holds of every auction: bids in order, made in time and under the ceiling; the award names
  the first of them.\<close>

definition bid_valid :: "ISpotAuction \<Rightarrow> spot_bid \<Rightarrow> bool" where
  "bid_valid a b \<longleftrightarrow> sb_bidAmountUSD b \<le> sa_maxCeilingRateUSD a \<and> sb_submittedAt b \<le> sa_auctionClosesAt a"

definition auction_ok :: "ISpotAuction \<Rightarrow> bool" where
  "auction_ok a \<longleftrightarrow>
     sorted (map bid_order (sa_bids a)) \<and> list_all (bid_valid a) (sa_bids a) \<and>
     (case sa_status a of
        OPEN \<Rightarrow> sa_winningBidId a = None
      | AWARDED \<Rightarrow> sa_bids a \<noteq> [] \<and> sa_winningBidId a = Some (sb_bidId (hd (sa_bids a)))
      | _ \<Rightarrow> False)"

definition auctions_ok :: "auctions \<Rightarrow> bool" where
  "auctions_ok s \<longleftrightarrow> keyed sa_auctionId s \<and> list_all auction_ok (jm_values s)"

lemma auctions_ok_get: "auctions_ok s \<Longrightarrow> jm_get s i = Some a \<Longrightarrow> auction_ok a \<and> sa_auctionId a = i"
  using jm_get_value [of s i a] keyed_get [of sa_auctionId s i a]
  by (simp add: auctions_ok_def list_all_iff)

lemma auctions_ok_put:
  "auctions_ok s \<Longrightarrow> auction_ok a \<Longrightarrow> sa_auctionId a = i \<Longrightarrow> auctions_ok (jm_set i a s)"
  by (auto simp: auctions_ok_def list_all_iff dest!: jm_set_value)

lemma create_ok: "auctions_ok s \<Longrightarrow> auctions_ok (fst (createSpotAuction now sh from dest eq ceil mins s))"
  by (simp add: createSpotAuction_def Let_def auctions_ok_put auction_ok_def)

lemma submit_ok:
  assumes "auctions_ok s"
  shows "auctions_ok (fst (submitBid now bid aid car amt pick saf s))"
proof (cases "jm_get s aid")
  case (Some a)
  note a = auctions_ok_get [OF assms Some]
  show ?thesis
  proof (cases "sa_status a \<noteq> OPEN \<or> sa_auctionClosesAt a < now \<or> sa_maxCeilingRateUSD a < amt")
    case False
    define b where "b = \<lparr> sb_bidId = bid, sb_carrierId = car, sb_bidAmountUSD = amt,
      sb_estimatedPickupAt = pick, sb_carrierSafetyScore = saf, sb_submittedAt = now \<rparr>"
    have "auction_ok (a\<lparr> sa_bids := sort_key bid_order (sa_bids a @ [b]) \<rparr>)"
      using a False by (simp add: auction_ok_def bid_valid_def [abs_def] list_all_iff b_def)
    with False a show ?thesis
      by (simp add: submitBid_def Some Let_def b_def auctions_ok_put [OF assms])
  qed (use assms in \<open>auto simp: submitBid_def Some\<close>)
qed (use assms in \<open>simp add: submitBid_def\<close>)

lemma award_ok:
  assumes "auctions_ok s"
  shows "auctions_ok (fst (awardAuction aid s))"
proof (cases "jm_get s aid")
  case (Some a)
  note a = auctions_ok_get [OF assms Some]
  show ?thesis
  proof (cases "sa_bids a")
    case (Cons w bs)
    have "auction_ok (a\<lparr> sa_status := AWARDED, sa_winningBidId := Some (sb_bidId w) \<rparr>)"
      using a by (simp add: auction_ok_def bid_valid_def [abs_def] Cons)
    with a show ?thesis by (simp add: awardAuction_def Some Cons auctions_ok_put [OF assms])
  qed (use assms in \<open>simp add: awardAuction_def Some\<close>)
qed (use assms in \<open>simp add: awardAuction_def\<close>)

interpretation auction_house: invariant_machine auction_step auctions_ok
  by unfold_locales (rename_tac s e, case_tac e; simp add: create_ok submit_ok award_ok)

lemma auctions_ok_run: "auctions_ok (fold auction_step calls [])"
  by (rule auction_house.run_keeps) (simp add: auctions_ok_def)

text \<open>No call but another creation under the same identifier touches an awarded auction.\<close>

definition creates :: "string \<Rightarrow> auction_call \<Rightarrow> bool" where
  "creates aid c \<longleftrightarrow> (case c of CreateAuction now _ _ _ _ _ _ \<Rightarrow> auction_id now = aid | _ \<Rightarrow> False)"

lemma award_final:
  assumes "auctions_ok s" and "jm_get s aid = Some a" and "sa_status a = AWARDED" and "\<not> creates aid c"
  shows "jm_get (auction_step c s) aid = Some a"
proof (cases c)
  case (CreateAuction now)
  with assms(4) show ?thesis by (simp add: createSpotAuction_def Let_def creates_def assms(2))
next
  case (SubmitBid now bid i)
  with assms show ?thesis
    by (cases "i = aid") (auto simp: submitBid_def Let_def split: option.split)
next
  case (AwardAuction i)
  from auctions_ok_get [OF assms(1,2)] assms(3) obtain w bs
    where w: "sa_bids a = w # bs" "sa_winningBidId a = Some (sb_bidId w)"
    by (cases "sa_bids a") (simp_all add: auction_ok_def)
  have same: "a\<lparr> sa_status := AWARDED, sa_winningBidId := Some (sb_bidId w) \<rparr> = a"
    using assms(3) w(2) by (cases a) simp
  show ?thesis
  proof (cases "i = aid")
    case True
    then show ?thesis using AwardAuction same by (simp add: awardAuction_def assms(2) w(1))
  next
    case False
    then have "jm_get (fst (awardAuction i s)) aid = jm_get s aid"
      by (simp add: awardAuction_def split: option.split list.split)
    with AwardAuction assms(2) show ?thesis by simp
  qed
qed

lemma award_stays:
  "auctions_ok s \<Longrightarrow> jm_get s aid = Some a \<Longrightarrow> sa_status a = AWARDED \<Longrightarrow> \<not> list_ex (creates aid) cs
    \<Longrightarrow> jm_get (fold auction_step cs s) aid = Some a"
  by (induction cs arbitrary: s) (simp_all add: award_final auction_house.step_keeps)

lemma first_bid_best:
  assumes "auction_ok a" and "sa_bids a = w # bs"
  shows "list_all (\<lambda>b. sb_bidAmountUSD w < sb_bidAmountUSD b \<or>
    (sb_bidAmountUSD w = sb_bidAmountUSD b \<and> sb_carrierSafetyScore b \<le> sb_carrierSafetyScore w)) bs"
  using assms by (auto simp: auction_ok_def list_all_iff bid_order_def less_eq_bid_rank_def)

section \<open>The rank a bid is told\<close>

lemma bid_position_found:
  "sb_bidId b = i \<Longrightarrow> list_all (\<lambda>x. sb_bidId x \<noteq> i) xs \<Longrightarrow> bid_position i (xs @ b # ys) = Suc (length xs)"
  by (induction xs) simp_all

lemma sort_key_snoc:
  "sorted (map f xs) \<Longrightarrow>
    sort_key f (xs @ [b]) = filter (\<lambda>x. f x \<le> f b) xs @ b # filter (\<lambda>x. f b < f x) xs"
proof (induction xs)
  case (Cons x xs)
  then have le: "f x \<le> f y" if "y \<in> set xs" for y using that by simp
  show ?case
  proof (cases "f x \<le> f b")
    case True
    then have "insort_key f x (sort_key f (xs @ [b])) = x # sort_key f (xs @ [b])"
      by (intro insort_is_Cons) (auto simp: le)
    with True Cons show ?thesis by simp
  next
    case False
    then have above: "f b < f y" if "y \<in> set xs" for y using le [OF that] by simp
    have "filter (\<lambda>x. f x \<le> f b) xs = []" "filter (\<lambda>x. f b < f x) xs = xs"
      using above by (auto simp: filter_empty_conv filter_id_conv not_le)
    moreover have "insort_key f x xs = x # xs" by (intro insort_is_Cons) (simp add: le)
    ultimately show ?thesis using False Cons by simp
  qed
qed simp

text \<open>The rank is one more than the number of earlier bids that are as good, when the identifier drawn for
  the bid is new to the auction.\<close>

lemma bid_rank_counts:
  assumes "auctions_ok s" and "jm_get s aid = Some a" and "list_all (\<lambda>x. sb_bidId x \<noteq> bid) (sa_bids a)"
    and "bres_isAccepted (snd (submitBid now bid aid car amt pick saf s))"
  shows "bres_rank (snd (submitBid now bid aid car amt pick saf s)) =
    Suc (length (filter (\<lambda>x. bid_order x \<le> Bid_Rank amt saf) (sa_bids a)))"
proof -
  have "sorted (map bid_order (sa_bids a))" using auctions_ok_get [OF assms(1,2)] by (simp add: auction_ok_def)
  note split = sort_key_snoc [OF this]
  define b where "b = \<lparr> sb_bidId = bid, sb_carrierId = car, sb_bidAmountUSD = amt,
    sb_estimatedPickupAt = pick, sb_carrierSafetyScore = saf, sb_submittedAt = now \<rparr>"
  have b: "bid_order b = Bid_Rank amt saf" "sb_bidId b = bid" by (simp_all add: b_def bid_order_def)
  have new: "list_all (\<lambda>x. sb_bidId x \<noteq> bid) (filter (\<lambda>x. bid_order x \<le> Bid_Rank amt saf) (sa_bids a))"
    using assms(3) by (simp add: list_all_iff)
  have "bres_rank (snd (submitBid now bid aid car amt pick saf s)) =
      bid_position bid (sort_key bid_order (sa_bids a @ [b]))"
    using assms(2,4) by (simp add: submitBid_def Let_def b_def bid_refused_def split: if_splits)
  with new show ?thesis by (simp add: split b bid_position_found)
qed

text \<open>C36: the lowest bid wins, and the award stands. After any calls of the auction engine the bids of an
  auction are sorted by price, were made before it closed and do not exceed its ceiling. If it has been
  awarded, the winner is a bid that no other bid undercuts, with the highest safety score at its price;
  and whatever is called afterwards, short of creating an auction in the same millisecond as this one
  was, the auction stays as awarded.\<close>

theorem lowest_bid_wins:
  assumes "jm_get (fold auction_step calls []) aid = Some a"
  shows "sorted (map sb_bidAmountUSD (sa_bids a)) \<and>
    list_all (\<lambda>b. sb_bidAmountUSD b \<le> sa_maxCeilingRateUSD a \<and> sb_submittedAt b \<le> sa_auctionClosesAt a) (sa_bids a) \<and>
    (sa_status a = AWARDED \<longrightarrow>
      (\<exists>w others. sa_bids a = w # others \<and> sa_winningBidId a = Some (sb_bidId w) \<and>
        list_all (\<lambda>b. sb_bidAmountUSD w < sb_bidAmountUSD b \<or>
          (sb_bidAmountUSD w = sb_bidAmountUSD b \<and> sb_carrierSafetyScore b \<le> sb_carrierSafetyScore w)) others) \<and>
      (\<forall>later. \<not> list_ex (creates aid) later \<longrightarrow>
        jm_get (fold auction_step later (fold auction_step calls [])) aid = Some a))"
proof -
  let ?s = "fold auction_step calls []"
  note ok = auctions_ok_get [OF auctions_ok_run assms, THEN conjunct1]
  have "sorted (map sb_bidAmountUSD (sa_bids a))"
  proof -
    have "sorted_wrt (\<lambda>x y. bid_order x \<le> bid_order y) (sa_bids a)" using ok by (simp add: auction_ok_def sorted_map)
    then show ?thesis unfolding sorted_map
      by (rule sorted_wrt_mono_rel [rotated]) (auto simp: bid_order_def less_eq_bid_rank_def)
  qed
  moreover have "list_all (\<lambda>b. sb_bidAmountUSD b \<le> sa_maxCeilingRateUSD a \<and> sb_submittedAt b \<le> sa_auctionClosesAt a) (sa_bids a)"
    using ok by (simp add: auction_ok_def bid_valid_def [abs_def])
  moreover have "\<exists>w others. sa_bids a = w # others \<and> sa_winningBidId a = Some (sb_bidId w) \<and>
      list_all (\<lambda>b. sb_bidAmountUSD w < sb_bidAmountUSD b \<or>
        (sb_bidAmountUSD w = sb_bidAmountUSD b \<and> sb_carrierSafetyScore b \<le> sb_carrierSafetyScore w)) others"
    if "sa_status a = AWARDED"
  proof -
    from ok that obtain w others where w: "sa_bids a = w # others" "sa_winningBidId a = Some (sb_bidId w)"
      by (cases "sa_bids a") (simp_all add: auction_ok_def)
    with first_bid_best [OF ok w(1)] show ?thesis by blast
  qed
  moreover have "jm_get (fold auction_step later ?s) aid = Some a"
    if "sa_status a = AWARDED" and "\<not> list_ex (creates aid) later" for later
    by (rule award_stays [OF auctions_ok_run assms that])
  ultimately show ?thesis by blast
qed

definition auction_demo :: "auction_call list" where
  "auction_demo =
     [CreateAuction 36 ''SHP-1'' ''10001'' ''60601'' REEFER_53 1000 30,
      SubmitBid 40 ''B1'' ''AUC-10'' ''C1'' 900 100 80, SubmitBid 41 ''B2'' ''AUC-10'' ''C2'' 850 100 70,
      SubmitBid 42 ''B3'' ''AUC-10'' ''C3'' 850 100 95, SubmitBid 43 ''B4'' ''AUC-10'' ''C4'' 1001 100 99,
      AwardAuction ''AUC-10'', SubmitBid 44 ''B5'' ''AUC-10'' ''C5'' 1 100 99]"

text \<open>Four bids in ten milliseconds, one over the ceiling; the award half an hour early, the last bid late.\<close>

theorem lowest_bid_wins_witness:
  "case jm_get (fold auction_step auction_demo []) ''AUC-10'' of
     None \<Rightarrow> False
   | Some a \<Rightarrow> map sb_bidId (sa_bids a) = [''B3'', ''B2'', ''B1''] \<and> sa_winningBidId a = Some ''B3'' \<and>
       sorted (map sb_bidAmountUSD (sa_bids a))"
proof -
  have "map_option (\<lambda>a. (map sb_bidId (sa_bids a), sa_winningBidId a)) (jm_get (fold auction_step auction_demo []) ''AUC-10'') =
    Some ([''B3'', ''B2'', ''B1''], Some ''B3'')"
    by code_simp
  then obtain a where a: "jm_get (fold auction_step auction_demo []) ''AUC-10'' = Some a"
    "map sb_bidId (sa_bids a) = [''B3'', ''B2'', ''B1'']" "sa_winningBidId a = Some ''B3''"
    by auto
  with lowest_bid_wins [OF a(1)] show ?thesis by simp
qed

end
