(* ===== verification/Warehouse_Floor.thy ===== *)
theory Warehouse_Floor
  imports Prelude Double
begin

text \<open>
  The warehouse floor of the inventory service: the slotting bays with their capacities
  (slotting/DynamicWarehouseSlottingMatrix.ts), the velocity classes of the aisles
  (warehouse/AisleSlottingOptimizationEngine.ts), the compatibility of hazardous goods in a bay
  (hazmat/HazardousChemicalSafetyRuleValidator.ts) and the debounced stream of tag scans
  (rfid/RfidAntennaStreamProcessor.ts). Weights and volumes are doubles.
\<close>

section \<open>Bays\<close>

datatype bay_zone = MEZZANINE | BULK_RACK | COLD_STORAGE | HAZMAT_VAULT | HIGH_BAY

primrec zone_name :: "bay_zone \<Rightarrow> string" where
  "zone_name MEZZANINE = ''MEZZANINE''"
| "zone_name BULK_RACK = ''BULK_RACK''"
| "zone_name COLD_STORAGE = ''COLD_STORAGE''"
| "zone_name HAZMAT_VAULT = ''HAZMAT_VAULT''"
| "zone_name HIGH_BAY = ''HIGH_BAY''"

record ISlottingBayDefinition =
  bay_bayId :: string
  bay_warehouseCode :: string
  bay_zoneType :: bay_zone
  bay_maxWeightCapacityKg :: rat
  bay_maxCubicVolumeM3 :: rat
  bay_currentWeightKg :: rat
  bay_currentVolumeM3 :: rat
  bay_assignedSkuList :: "string list"
  bay_pickWalkSequenceIndex :: nat
  bay_isAccessibleByForklift :: bool

type_synonym bays = "(string, ISlottingBayDefinition) jsmap"

definition bay_id :: "string \<Rightarrow> bay_zone \<Rightarrow> nat \<Rightarrow> nat \<Rightarrow> string" where
  "bay_id wh zn aisle bay =
     wh @ ''_'' @ zone_name zn @ ''_A'' @ dec_string aisle @ ''_B'' @ dec_string bay"

definition seed_bay :: "string \<Rightarrow> bay_zone \<Rightarrow> nat \<Rightarrow> nat \<Rightarrow> ISlottingBayDefinition" where
  "seed_bay wh zn aisle bay =
     \<lparr> bay_bayId = bay_id wh zn aisle bay, bay_warehouseCode = wh, bay_zoneType = zn,
       bay_maxWeightCapacityKg = (if zn = HIGH_BAY then 5000 else 2500),
       bay_maxCubicVolumeM3 = (if zn = BULK_RACK then 45 else 20),
       bay_currentWeightKg = 0, bay_currentVolumeM3 = 0, bay_assignedSkuList = [],
       bay_pickWalkSequenceIndex = aisle * 10 + bay, bay_isAccessibleByForklift = (zn \<noteq> MEZZANINE) \<rparr>"

text \<open>The four nested loops, in their order.\<close>

definition seedSlottingBays :: bays where
  "seedSlottingBays =
     fold (\<lambda>b. jm_set (bay_bayId b) b)
       [seed_bay wh zn aisle bay.
          wh \<leftarrow> [''WH-NORTH-01'', ''WH-SOUTH-02'', ''WH-EAST-03'', ''WH-WEST-04''],
          zn \<leftarrow> [MEZZANINE, BULK_RACK, COLD_STORAGE, HAZMAT_VAULT, HIGH_BAY],
          aisle \<leftarrow> [1..<6], bay \<leftarrow> [1..<7]] []"

definition bay_fits :: "rat \<Rightarrow> rat \<Rightarrow> ISlottingBayDefinition \<Rightarrow> bool" where
  "bay_fits weightKg volumeM3 b \<longleftrightarrow>
     dadd (bay_currentWeightKg b) weightKg \<le> bay_maxWeightCapacityKg b \<and>
     dadd (bay_currentVolumeM3 b) volumeM3 \<le> bay_maxCubicVolumeM3 b"

definition bay_candidates :: "string \<Rightarrow> bay_zone \<Rightarrow> rat \<Rightarrow> rat \<Rightarrow> bays \<Rightarrow> ISlottingBayDefinition list" where
  "bay_candidates warehouse zone weightKg volumeM3 m =
     filter (\<lambda>b. bay_warehouseCode b = warehouse \<and> bay_zoneType b = zone \<and> bay_fits weightKg volumeM3 b) (jm_values m)"

definition findBestBay :: "string \<Rightarrow> bay_zone \<Rightarrow> rat \<Rightarrow> rat \<Rightarrow> bays \<Rightarrow> ISlottingBayDefinition option" where
  "findBestBay warehouse zone weightKg volumeM3 m =
     (case sort_key bay_pickWalkSequenceIndex (bay_candidates warehouse zone weightKg volumeM3 m) of
        [] \<Rightarrow> None
      | b # _ \<Rightarrow> Some b)"

definition allocateItemToBay :: "string \<Rightarrow> string \<Rightarrow> rat \<Rightarrow> rat \<Rightarrow> bays \<Rightarrow> bays \<times> bool" where
  "allocateItemToBay bayId sku weightKg volumeM3 m =
     (case jm_get m bayId of
        None \<Rightarrow> (m, False)
      | Some b \<Rightarrow>
          if bay_maxWeightCapacityKg b < dadd (bay_currentWeightKg b) weightKg \<or>
             bay_maxCubicVolumeM3 b < dadd (bay_currentVolumeM3 b) volumeM3 then (m, False)
          else (jm_set bayId
                  (b\<lparr> bay_currentWeightKg := dadd (bay_currentWeightKg b) weightKg,
                      bay_currentVolumeM3 := dadd (bay_currentVolumeM3 b) volumeM3,
                      bay_assignedSkuList := bay_assignedSkuList b @ [sku] \<rparr>) m, True))"

subsection \<open>What allocations keep\<close>

definition bay_ok :: "ISlottingBayDefinition \<Rightarrow> bool" where
  "bay_ok b \<longleftrightarrow> bay_currentWeightKg b \<le> bay_maxWeightCapacityKg b \<and> bay_currentVolumeM3 b \<le> bay_maxCubicVolumeM3 b"

definition bays_ok :: "bays \<Rightarrow> bool" where
  "bays_ok m \<longleftrightarrow> keyed bay_bayId m \<and> list_all bay_ok (jm_values m)"

record bay_item =
  bi_bayId :: string
  bi_sku :: string
  bi_weightKg :: rat
  bi_volumeM3 :: rat

definition allocate_step :: "bay_item \<Rightarrow> bays \<Rightarrow> bays" where
  "allocate_step i m = fst (allocateItemToBay (bi_bayId i) (bi_sku i) (bi_weightKg i) (bi_volumeM3 i) m)"

lemma keyed_fold_set: "keyed key m \<Longrightarrow> keyed key (fold (\<lambda>b. jm_set (key b) b) bs m)"
  by (induction bs arbitrary: m) (simp_all add: keyed_put)

lemma values_fold_set:
  "x \<in> set (jm_values (fold (\<lambda>b. jm_set (key b) b) bs m)) \<Longrightarrow> x \<in> set bs \<or> x \<in> set (jm_values m)"
  by (induction bs arbitrary: m) (auto dest: jm_set_value)

lemma seed_bay_ok: "bay_ok (seed_bay wh zn aisle bay)"
  by (simp add: seed_bay_def bay_ok_def)

lemma seed_ok: "bays_ok seedSlottingBays"
proof -
  have "keyed bay_bayId seedSlottingBays" unfolding seedSlottingBays_def by (rule keyed_fold_set) simp
  moreover have "bay_ok x" if "x \<in> set (jm_values seedSlottingBays)" for x
    using values_fold_set [OF that [unfolded seedSlottingBays_def]] by (auto simp: seed_bay_ok)
  ultimately show ?thesis by (simp add: bays_ok_def list_all_iff)
qed

lemma bays_ok_put: "bays_ok m \<Longrightarrow> bay_ok b \<Longrightarrow> bay_bayId b = i \<Longrightarrow> bays_ok (jm_set i b m)"
  by (auto simp: bays_ok_def list_all_iff dest!: jm_set_value)

lemma allocate_outcome:
  "snd (allocateItemToBay i sku w v m) \<longleftrightarrow> (case jm_get m i of None \<Rightarrow> False | Some b \<Rightarrow> bay_fits w v b)"
  by (auto simp: allocateItemToBay_def bay_fits_def split: option.split)

lemma allocate_refused: "\<not> snd (allocateItemToBay i sku w v m) \<Longrightarrow> fst (allocateItemToBay i sku w v m) = m"
  by (auto simp: allocateItemToBay_def split: option.split)

lemma allocate_ok:
  assumes "bays_ok m"
  shows "bays_ok (allocate_step x m)"
proof (cases "jm_get m (bi_bayId x)")
  case (Some b)
  have "bay_bayId b = bi_bayId x" using assms Some by (auto simp: bays_ok_def dest: keyed_get)
  with assms Some show ?thesis
    by (auto simp: allocate_step_def allocateItemToBay_def bay_ok_def intro!: bays_ok_put)
qed (use assms in \<open>simp add: allocate_step_def allocateItemToBay_def\<close>)

interpretation slotting: invariant_machine allocate_step bays_ok
  by unfold_locales (rule allocate_ok)

lemma sort_hd_least: "sort_key f xs = x # ys \<Longrightarrow> x \<in> set xs \<and> (\<forall>y \<in> set xs. f x \<le> f y)"
proof -
  assume s: "sort_key f xs = x # ys"
  have "sorted (map f (sort_key f xs))" by simp
  moreover have "set (sort_key f xs) = set xs" by simp
  ultimately show ?thesis unfolding s by auto
qed

lemma bay_candidates_iff:
  "b \<in> set (bay_candidates wh zn w v m) \<longleftrightarrow>
    b \<in> set (jm_values m) \<and> bay_warehouseCode b = wh \<and> bay_zoneType b = zn \<and> bay_fits w v b"
  by (auto simp: bay_candidates_def)

lemma best_bay_Some:
  "findBestBay wh zn w v m = Some b \<Longrightarrow>
    b \<in> set (bay_candidates wh zn w v m) \<and>
    (\<forall>b' \<in> set (bay_candidates wh zn w v m). bay_pickWalkSequenceIndex b \<le> bay_pickWalkSequenceIndex b')"
  by (cases "sort_key bay_pickWalkSequenceIndex (bay_candidates wh zn w v m)")
    (simp_all add: findBestBay_def sort_hd_least)

lemma best_bay_None: "findBestBay wh zn w v m = None \<longleftrightarrow> bay_candidates wh zn w v m = []"
proof -
  have "sort_key bay_pickWalkSequenceIndex (bay_candidates wh zn w v m) = [] \<longleftrightarrow> bay_candidates wh zn w v m = []"
    by (metis length_0_conv length_sort)
  then show ?thesis
    by (cases "sort_key bay_pickWalkSequenceIndex (bay_candidates wh zn w v m)") (simp_all add: findBestBay_def)
qed

text \<open>The search and the allocation agree on what fits.\<close>

lemma candidates_admitted:
  assumes "bays_ok m"
  shows "bay_candidates wh zn w v m =
    filter (\<lambda>b. bay_warehouseCode b = wh \<and> bay_zoneType b = zn \<and> snd (allocateItemToBay (bay_bayId b) sku w v m)) (jm_values m)"
  unfolding bay_candidates_def
proof (rule filter_cong [OF refl])
  fix b assume "b \<in> set (jm_values m)"
  with assms have "jm_get m (bay_bayId b) = Some b" by (auto simp: bays_ok_def intro: keyed_value)
  then show "(bay_warehouseCode b = wh \<and> bay_zoneType b = zn \<and> bay_fits w v b) \<longleftrightarrow>
      (bay_warehouseCode b = wh \<and> bay_zoneType b = zn \<and> snd (allocateItemToBay (bay_bayId b) sku w v m))"
    by (simp add: allocate_outcome)
qed

text \<open>Bays are never overfilled, and the recommended bay takes the item. After any allocations, accepted
  or refused, no bay of the matrix holds more than its weight or volume limit. For any item, the search
  recommends a bay of the warehouse and zone that would accept it, first on the pick walk among all that
  would; it recommends none exactly if every bay there would refuse it.\<close>

theorem slotting_sound:
  "let m = fold allocate_step items seedSlottingBays;
       admitting = filter (\<lambda>b. bay_warehouseCode b = wh \<and> bay_zoneType b = zn \<and>
         snd (allocateItemToBay (bay_bayId b) sku w v m)) (jm_values m)
   in list_all (\<lambda>b. bay_currentWeightKg b \<le> bay_maxWeightCapacityKg b \<and>
        bay_currentVolumeM3 b \<le> bay_maxCubicVolumeM3 b) (jm_values m) \<and>
      (case findBestBay wh zn w v m of
         None \<Rightarrow> admitting = []
       | Some b \<Rightarrow> b \<in> set admitting \<and>
           list_all (\<lambda>b'. bay_pickWalkSequenceIndex b \<le> bay_pickWalkSequenceIndex b') admitting)"
proof -
  define m where "m = fold allocate_step items seedSlottingBays"
  have ok: "bays_ok m" unfolding m_def by (rule slotting.run_keeps [OF seed_ok])
  have "list_all (\<lambda>b. bay_currentWeightKg b \<le> bay_maxWeightCapacityKg b \<and>
      bay_currentVolumeM3 b \<le> bay_maxCubicVolumeM3 b) (jm_values m)"
    using ok by (simp add: bays_ok_def bay_ok_def [abs_def])
  moreover have "case findBestBay wh zn w v m of
      None \<Rightarrow> bay_candidates wh zn w v m = []
    | Some b \<Rightarrow> b \<in> set (bay_candidates wh zn w v m) \<and>
        list_all (\<lambda>b'. bay_pickWalkSequenceIndex b \<le> bay_pickWalkSequenceIndex b') (bay_candidates wh zn w v m)"
    using best_bay_Some [of wh zn w v m] best_bay_None [of wh zn w v m] by (simp add: list_all_iff split: option.split)
  ultimately show ?thesis
    unfolding Let_def m_def [symmetric] candidates_admitted [OF ok, where sku = sku] by blast
qed

section \<open>Hazardous goods in one bay\<close>

datatype HazmatClass = CLASS_1_EXPLOSIVES | CLASS_2_GASES | CLASS_3_FLAMMABLE_LIQUIDS | CLASS_4_FLAMMABLE_SOLIDS
  | CLASS_5_OXIDIZERS | CLASS_6_POISONS | CLASS_7_RADIOACTIVE | CLASS_8_CORROSIVES | CLASS_9_MISC

datatype fire_suppression = WATER_SPRINKLER | FOAM | DRY_CHEMICAL | CO2

record IHazmatStorageRule =
  hz_classA :: HazmatClass
  hz_classB :: HazmatClass
  hz_isAllowedInSameBay :: bool
  hz_requiredSeparationDistanceMeters :: rat
  hz_fireSuppressionType :: fire_suppression

definition hazmat_rules :: "IHazmatStorageRule list" where
  "hazmat_rules =
     [\<lparr> hz_classA = CLASS_3_FLAMMABLE_LIQUIDS, hz_classB = CLASS_5_OXIDIZERS, hz_isAllowedInSameBay = False,
        hz_requiredSeparationDistanceMeters = 15, hz_fireSuppressionType = FOAM \<rparr>,
      \<lparr> hz_classA = CLASS_8_CORROSIVES, hz_classB = CLASS_3_FLAMMABLE_LIQUIDS, hz_isAllowedInSameBay = False,
        hz_requiredSeparationDistanceMeters = 8, hz_fireSuppressionType = DRY_CHEMICAL \<rparr>,
      \<lparr> hz_classA = CLASS_4_FLAMMABLE_SOLIDS, hz_classB = CLASS_5_OXIDIZERS, hz_isAllowedInSameBay = False,
        hz_requiredSeparationDistanceMeters = 12, hz_fireSuppressionType = FOAM \<rparr>]"

definition hazmat_conflict :: "HazmatClass \<Rightarrow> HazmatClass \<Rightarrow> IHazmatStorageRule option" where
  "hazmat_conflict c existing =
     find (\<lambda>r. (hz_classA r = c \<and> hz_classB r = existing) \<or> (hz_classA r = existing \<and> hz_classB r = c)) hazmat_rules"

primrec class_name :: "HazmatClass \<Rightarrow> string" where
  "class_name CLASS_1_EXPLOSIVES = ''CLASS_1_EXPLOSIVES''"
| "class_name CLASS_2_GASES = ''CLASS_2_GASES''"
| "class_name CLASS_3_FLAMMABLE_LIQUIDS = ''CLASS_3_FLAMMABLE_LIQUIDS''"
| "class_name CLASS_4_FLAMMABLE_SOLIDS = ''CLASS_4_FLAMMABLE_SOLIDS''"
| "class_name CLASS_5_OXIDIZERS = ''CLASS_5_OXIDIZERS''"
| "class_name CLASS_6_POISONS = ''CLASS_6_POISONS''"
| "class_name CLASS_7_RADIOACTIVE = ''CLASS_7_RADIOACTIVE''"
| "class_name CLASS_8_CORROSIVES = ''CLASS_8_CORROSIVES''"
| "class_name CLASS_9_MISC = ''CLASS_9_MISC''"

definition violation_message :: "HazmatClass \<Rightarrow> HazmatClass \<Rightarrow> string" where
  "violation_message c existing =
     ''Incompatible storage: '' @ class_name c @ '' cannot be stored with '' @ class_name existing"

record bay_placement =
  bp_isCompliant :: bool
  bp_violations :: "string list"
  bp_requiredSeparationMeters :: rat

definition check_existing :: "HazmatClass \<Rightarrow> HazmatClass \<Rightarrow> string list \<times> rat \<Rightarrow> string list \<times> rat" where
  "check_existing c existing acc =
     (case hazmat_conflict c existing of
        Some r \<Rightarrow> if \<not> hz_isAllowedInSameBay r
          then (fst acc @ [violation_message c existing], max (snd acc) (hz_requiredSeparationDistanceMeters r)) else acc
      | None \<Rightarrow> acc)"

definition validateBayPlacement :: "HazmatClass \<Rightarrow> HazmatClass list \<Rightarrow> bay_placement" where
  "validateBayPlacement c existing =
     (let (violations, maxSeparation) = fold (check_existing c) existing ([], 0)
      in \<lparr> bp_isCompliant = (violations = []), bp_violations = violations, bp_requiredSeparationMeters = maxSeparation \<rparr>)"

text \<open>The matrix the rules stand for.\<close>

definition incompatible :: "HazmatClass \<Rightarrow> HazmatClass \<Rightarrow> bool" where
  "incompatible a b \<longleftrightarrow> {a, b} \<in> {{CLASS_3_FLAMMABLE_LIQUIDS, CLASS_5_OXIDIZERS},
     {CLASS_8_CORROSIVES, CLASS_3_FLAMMABLE_LIQUIDS}, {CLASS_4_FLAMMABLE_SOLIDS, CLASS_5_OXIDIZERS}}"

lemma conflict_iff:
  "(case hazmat_conflict a b of None \<Rightarrow> False | Some r \<Rightarrow> \<not> hz_isAllowedInSameBay r) \<longleftrightarrow> incompatible a b"
  by (cases a; cases b) (simp_all add: hazmat_conflict_def hazmat_rules_def incompatible_def doubleton_eq_iff)

lemma incompatible_sym: "incompatible a b \<longleftrightarrow> incompatible b a"
  by (simp add: incompatible_def insert_commute)

lemma check_existing_violations:
  "fst (fold (check_existing c) bs acc) = fst acc @ map (violation_message c) (filter (incompatible c) bs)"
proof (induction bs arbitrary: acc)
  case (Cons b bs)
  have "fst (check_existing c b acc) = fst acc @ (if incompatible c b then [violation_message c b] else [])"
    unfolding conflict_iff [of c b, symmetric] by (simp add: check_existing_def split: option.split)
  with Cons show ?case by simp
qed simp

lemma compliant_iff: "bp_isCompliant (validateBayPlacement c bs) \<longleftrightarrow> list_all (\<lambda>b. \<not> incompatible c b) bs"
  using check_existing_violations [of c bs "([], 0)"]
  by (auto simp: validateBayPlacement_def Let_def split_def list_all_iff filter_empty_conv)

text \<open>A bay filled with what the validator admits, one class after another, holds no incompatible pair.\<close>

definition place_if_compliant :: "HazmatClass \<Rightarrow> HazmatClass list \<Rightarrow> HazmatClass list" where
  "place_if_compliant c bay = (if bp_isCompliant (validateBayPlacement c bay) then bay @ [c] else bay)"

lemma bay_stays_compatible:
  "list_all (\<lambda>a. list_all (\<lambda>b. \<not> incompatible a b) (fold place_if_compliant cs [])) (fold place_if_compliant cs [])"
proof -
  have self: "\<not> incompatible c c" for c by (cases c) (simp_all add: incompatible_def doubleton_eq_iff)
  have main: "\<forall>a \<in> set bay. \<forall>b \<in> set bay. \<not> incompatible a b \<Longrightarrow>
      \<forall>a \<in> set (fold place_if_compliant cs bay). \<forall>b \<in> set (fold place_if_compliant cs bay). \<not> incompatible a b" for bay
  proof (induction cs arbitrary: bay)
    case (Cons c cs)
    have "\<forall>a \<in> set (place_if_compliant c bay). \<forall>b \<in> set (place_if_compliant c bay). \<not> incompatible a b"
      using Cons.prems self incompatible_sym [of c] by (auto simp: place_if_compliant_def compliant_iff list_all_iff)
    from Cons.IH [OF this] show ?case by simp
  qed simp
  from main [of "[]"] show ?thesis by (simp add: list_all_iff)
qed

section \<open>Tag scans\<close>

datatype portal_zone = INBOUND_DOCK | PICK_FACE | PACK_STATION | OUTBOUND_STAGING

record IRfidTagRead =
  rf_epcCode :: string
  rf_antennaId :: string
  rf_warehouseId :: string
  rf_portalZone :: portal_zone
  rf_rssiSignalDbm :: rat
  rf_readTimestamp :: instant

record rfid_state =
  rf_lastSeenTags :: "(string, instant) jsmap"
  rf_locationIndex :: "(string, portal_zone) jsmap"

record scan_result =
  scan_isAccepted :: bool
  scan_previousZone :: "portal_zone option"
  scan_newZone :: portal_zone

definition rfid_empty :: rfid_state where
  "rfid_empty = \<lparr> rf_lastSeenTags = [], rf_locationIndex = [] \<rparr>"

definition processTagScan :: "IRfidTagRead \<Rightarrow> rfid_state \<Rightarrow> rfid_state \<times> scan_result" where
  "processTagScan r s =
     (let debounced = (case jm_get (rf_lastSeenTags s) (rf_epcCode r) of
            None \<Rightarrow> False | Some lastSeen \<Rightarrow> rf_readTimestamp r - lastSeen < 2500)
      in if debounced
         then (s, \<lparr> scan_isAccepted = False, scan_previousZone = None, scan_newZone = rf_portalZone r \<rparr>)
         else (\<lparr> rf_lastSeenTags = jm_set (rf_epcCode r) (rf_readTimestamp r) (rf_lastSeenTags s),
                 rf_locationIndex = jm_set (rf_epcCode r) (rf_portalZone r) (rf_locationIndex s) \<rparr>,
               \<lparr> scan_isAccepted = True, scan_previousZone = jm_get (rf_locationIndex s) (rf_epcCode r),
                 scan_newZone = rf_portalZone r \<rparr>))"

definition getTagLocation :: "string \<Rightarrow> rfid_state \<Rightarrow> portal_zone option" where
  "getTagLocation epc s = jm_get (rf_locationIndex s) epc"

text \<open>A stream of scans: the state after it, and the accepted scans of one tag in order.\<close>

definition scan_all :: "IRfidTagRead list \<Rightarrow> rfid_state" where
  "scan_all rs = fold (\<lambda>r s. fst (processTagScan r s)) rs rfid_empty"

fun accepted_scans :: "string \<Rightarrow> IRfidTagRead list \<Rightarrow> rfid_state \<Rightarrow> IRfidTagRead list" where
  "accepted_scans epc [] s = []"
| "accepted_scans epc (r # rs) s =
     (if rf_epcCode r = epc \<and> scan_isAccepted (snd (processTagScan r s)) then [r] else [])
     @ accepted_scans epc rs (fst (processTagScan r s))"

definition spaced :: "IRfidTagRead list \<Rightarrow> bool" where
  "spaced rs \<longleftrightarrow> successively (\<lambda>a b. rf_readTimestamp a + 2500 \<le> rf_readTimestamp b) rs"

lemma accepted_scans_snoc:
  "accepted_scans epc (rs @ [r]) s =
    accepted_scans epc rs s @
    (if rf_epcCode r = epc \<and> scan_isAccepted (snd (processTagScan r (fold (\<lambda>r s. fst (processTagScan r s)) rs s))) then [r] else [])"
  by (induction rs arbitrary: s) simp_all

lemma scan_all_snoc: "scan_all (rs @ [r]) = fst (processTagScan r (scan_all rs))"
  by (simp add: scan_all_def)

text \<open>The two maps remember the last accepted scan of each tag.\<close>

lemma scans_remembered:
  "let acc = accepted_scans epc rs rfid_empty; s = scan_all rs in
    jm_get (rf_lastSeenTags s) epc = (if acc = [] then None else Some (rf_readTimestamp (last acc))) \<and>
    getTagLocation epc s = (if acc = [] then None else Some (rf_portalZone (last acc)))"
proof (induction rs rule: rev_induct)
  case Nil
  then show ?case by (simp add: scan_all_def rfid_empty_def getTagLocation_def)
next
  case (snoc r rs)
  then show ?case
    unfolding scan_all_snoc Let_def accepted_scans_snoc scan_all_def [symmetric]
    by (auto simp: processTagScan_def Let_def getTagLocation_def split: if_splits)
qed

text \<open>Tag scans are debounced. In any stream of scans, whatever the order of their timestamps, the accepted
  scans of a tag lie at least 2.5 seconds apart, each after the one before; a tag is located where its last
  accepted scan saw it, and nowhere before its first scan, which is always accepted. The next scan is
  accepted exactly if it is that long after the last accepted one, and reports the zone the tag came from.\<close>

theorem rfid_debounce:
  "let acc = accepted_scans (rf_epcCode r) rs rfid_empty; s = scan_all rs; res = snd (processTagScan r s) in
    spaced acc \<and>
    getTagLocation (rf_epcCode r) s = (if acc = [] then None else Some (rf_portalZone (last acc))) \<and>
    scan_isAccepted res = (if acc = [] then True else rf_readTimestamp (last acc) + 2500 \<le> rf_readTimestamp r) \<and>
    scan_previousZone res = (if scan_isAccepted res then getTagLocation (rf_epcCode r) s else None)"
proof -
  have next_scan: "scan_isAccepted (snd (processTagScan r (scan_all rs))) =
      (if accepted_scans (rf_epcCode r) rs rfid_empty = [] then True
       else rf_readTimestamp (last (accepted_scans (rf_epcCode r) rs rfid_empty)) + 2500 \<le> rf_readTimestamp r)" for r rs
    using scans_remembered [of "rf_epcCode r" rs] by (auto simp: processTagScan_def Let_def)
  have "spaced (accepted_scans epc rs rfid_empty)" for epc
  proof (induction rs rule: rev_induct)
    case (snoc r rs)
    then show ?case
      unfolding accepted_scans_snoc scan_all_def [symmetric]
      using next_scan [of r rs] by (auto simp: spaced_def successively_append_iff)
  qed (simp add: spaced_def)
  moreover have "scan_previousZone (snd (processTagScan r (scan_all rs))) =
      (if scan_isAccepted (snd (processTagScan r (scan_all rs))) then getTagLocation (rf_epcCode r) (scan_all rs) else None)"
    by (simp add: processTagScan_def Let_def getTagLocation_def)
  ultimately show ?thesis
    using next_scan [of r rs] scans_remembered [of "rf_epcCode r" rs] unfolding Let_def by blast
qed

section \<open>Velocity classes of the aisles\<close>

datatype velocity_class = CLASS_A_GOLDEN_ZONE | CLASS_B_MID_AISLE | CLASS_C_SLOW_STORAGE

record ISkuVelocityMetrics =
  vm_sku :: string
  vm_dailyPickFrequency :: rat
  vm_averagePickQuantity :: rat
  vm_cubeVolumeM3 :: rat
  vm_weightKg :: rat
  vm_currentBinAisle :: nat
  vm_currentBinBay :: nat

record ISlottingRecommendation =
  rec_sku :: string
  rec_velocityCategory :: velocity_class
  rec_targetAisle :: nat
  rec_targetBay :: nat
  rec_travelTimeReductionPct :: rat

definition class_cutoffs :: "nat \<Rightarrow> nat \<times> nat" where
  "class_cutoffs totalItems =
     (nat (Math_floor (dmul (of_nat totalItems) (fl (20 / 100)))), nat (Math_floor (dmul (of_nat totalItems) (1 / 2))))"

definition slot_of :: "nat \<Rightarrow> nat \<Rightarrow> nat \<Rightarrow> ISkuVelocityMetrics \<Rightarrow> ISlottingRecommendation" where
  "slot_of classA classB i m =
     (if i < classA then \<lparr> rec_sku = vm_sku m, rec_velocityCategory = CLASS_A_GOLDEN_ZONE, rec_targetAisle = 1,
        rec_targetBay = i + 1, rec_travelTimeReductionPct = 345 / 10 \<rparr>
      else if i < classB then \<lparr> rec_sku = vm_sku m, rec_velocityCategory = CLASS_B_MID_AISLE, rec_targetAisle = 2,
        rec_targetBay = i - classA + 1, rec_travelTimeReductionPct = fl (182 / 10) \<rparr>
      else \<lparr> rec_sku = vm_sku m, rec_velocityCategory = CLASS_C_SLOW_STORAGE, rec_targetAisle = 3,
        rec_targetBay = i - classB + 1, rec_travelTimeReductionPct = 4 \<rparr>)"

definition generateSlottingPlan :: "ISkuVelocityMetrics list \<Rightarrow> ISlottingRecommendation list" where
  "generateSlottingPlan metrics =
     (let sorted = sort_key (\<lambda>m. - vm_dailyPickFrequency m) metrics;
          (classA, classB) = class_cutoffs (length sorted)
      in map (\<lambda>(i, m). slot_of classA classB i m) (List.enumerate 0 sorted))"

text \<open>The cutoffs are the exact fifth and half, rounded down, although \<open>0.2\<close> is no double.\<close>

lemma floor_share:
  assumes "n \<le> 10 ^ 12" and "1 / of_nat k \<le> fl (1 / of_nat k)" and "2 \<le> k" and "k \<le> 100"
  shows "Math_floor (dmul (of_nat n) (fl (1 / of_nat k))) = int (n div k)"
proof -
  let ?p = "dmul (of_nat n) (fl (1 / of_nat k))"
  have k: "(2 :: rat) \<le> of_nat k" "(of_nat k :: rat) \<le> 100"
    using assms(3,4) by (metis of_nat_le_iff of_nat_numeral)+
  have n: "(of_nat n :: rat) \<le> 10 ^ 12" using assms(1) by (metis of_nat_le_iff of_nat_numeral of_nat_power)
  have "of_nat n * (1 / of_nat k) \<le> (10 ^ 12 * (1 / 2) :: rat)"
    using n k by (intro mult_mono) (simp_all add: field_simps)
  then have small: "3 * (of_nat n * (1 / of_nat k)) / 2 ^ 53 < (1 / 200 :: rat)" by simp
  have err: "\<bar>?p - of_nat n / of_nat k\<bar> < 1 / 200"
    using fl_product_error [of "1 / of_nat k" "of_nat n"] small by simp
  have "k * (n div k) \<le> n" "n + 1 \<le> k * (n div k) + k"
    using assms(3) dividend_less_times_div [of k n] by simp_all
  then have "(of_nat (k * (n div k)) :: rat) \<le> of_nat n" "(of_nat (n + 1) :: rat) \<le> of_nat (k * (n div k) + k)"
    by (simp_all only: of_nat_le_iff)
  then have q: "(of_nat (n div k) :: rat) \<le> of_nat n / of_nat k" "(of_nat n + 1) / of_nat k \<le> of_nat (n div k) + (1 :: rat)"
    using k(1) by (simp_all add: field_simps)
  have "(1 / 100 :: rat) \<le> 1 / of_nat k" using k by (intro divide_left_mono) auto
  with q(2) have upper: "of_nat n / of_nat k + 1 / 100 \<le> of_nat (n div k) + (1 :: rat)"
    by (simp add: add_divide_distrib)
  have "n div k \<le> 2 ^ 53" using order_trans [OF div_le_dividend assms(1)] by (rule order_trans) simp
  then have exact: "fl (of_nat (n div k)) = of_nat (n div k)" by (rule fl_nat)
  have "of_nat n * (1 / of_nat k) \<le> (of_nat n * fl (1 / of_nat k) :: rat)"
    using assms(2) by (intro mult_left_mono) simp_all
  with q(1) have "of_nat (n div k) \<le> of_nat n * fl (1 / of_nat k)" by simp
  then have "of_nat (n div k) \<le> ?p" unfolding dmul_def by (subst exact [symmetric]) (rule fl_mono)
  moreover have "?p < of_nat (n div k) + 1" using err upper by linarith
  ultimately show ?thesis unfolding Math_floor_def by (intro floor_unique) simp_all
qed

lemma class_cutoffs_exact:
  assumes "n \<le> 10 ^ 12"
  shows "class_cutoffs n = (n div 5, n div 2)"
proof -
  have c: "(1 / of_nat 5 :: rat) \<le> fl (1 / of_nat 5)" "fl (1 / of_nat 2) = 1 / 2" "(20 / 100 :: rat) = 1 / of_nat 5"
    by code_simp+
  have "Math_floor (dmul (of_nat n) (fl (20 / 100))) = int (n div 5)"
    unfolding c(3) by (rule floor_share) (use assms c in simp_all)
  moreover have "Math_floor (dmul (of_nat n) (1 / 2)) = int (n div 2)"
    using floor_share [of n 2, unfolded c(2)] assms by simp
  ultimately show ?thesis by (simp add: class_cutoffs_def)
qed

text \<open>A plan lists the SKUs by falling pick frequency, the first fifth in the golden zone, and gives no bay
  to two of them.\<close>

lemma slotting_plan:
  assumes "length metrics \<le> 10 ^ 12"
  shows "map rec_sku (generateSlottingPlan metrics) = map vm_sku (sort_key (\<lambda>m. - vm_dailyPickFrequency m) metrics) \<and>
    map rec_velocityCategory (generateSlottingPlan metrics) =
      map (\<lambda>i. if i < length metrics div 5 then CLASS_A_GOLDEN_ZONE
               else if i < length metrics div 2 then CLASS_B_MID_AISLE else CLASS_C_SLOW_STORAGE) [0..<length metrics] \<and>
    distinct (map (\<lambda>r. (rec_targetAisle r, rec_targetBay r)) (generateSlottingPlan metrics))"
proof -
  define n where "n = length metrics"
  define ms where "ms = sort_key (\<lambda>m. - vm_dailyPickFrequency m) metrics"
  have len: "length ms = n" by (simp add: ms_def n_def)
  have "generateSlottingPlan metrics = map (\<lambda>(i, m). slot_of (n div 5) (n div 2) i m) (List.enumerate 0 ms)"
    using class_cutoffs_exact [OF assms] by (simp add: generateSlottingPlan_def ms_def [symmetric] len n_def)
  also have "\<dots> = map (\<lambda>i. slot_of (n div 5) (n div 2) i (ms ! i)) [0..<n]"
    by (rule nth_equalityI) (simp_all add: len nth_enumerate_eq)
  finally have plan: "generateSlottingPlan metrics = map (\<lambda>i. slot_of (n div 5) (n div 2) i (ms ! i)) [0..<n]" .
  have inj: "inj_on (\<lambda>i. (rec_targetAisle (slot_of (n div 5) (n div 2) i (ms ! i)),
      rec_targetBay (slot_of (n div 5) (n div 2) i (ms ! i)))) {0..<n}"
    by (rule inj_onI) (auto simp: slot_of_def split: if_splits)
  have "map rec_sku (generateSlottingPlan metrics) = map vm_sku ms"
    unfolding plan by (rule nth_equalityI) (simp_all add: len slot_of_def)
  moreover have "map rec_velocityCategory (generateSlottingPlan metrics) =
      map (\<lambda>i. if i < n div 5 then CLASS_A_GOLDEN_ZONE
               else if i < n div 2 then CLASS_B_MID_AISLE else CLASS_C_SLOW_STORAGE) [0..<n]"
    by (simp add: plan slot_of_def)
  moreover have "distinct (map (\<lambda>r. (rec_targetAisle r, rec_targetBay r)) (generateSlottingPlan metrics))"
    using inj by (simp add: plan distinct_map comp_def)
  ultimately show ?thesis by (simp add: ms_def n_def)
qed

end
