(* ===== verification/Chart_Of_Accounts.thy ===== *)
theory Chart_Of_Accounts
  imports Prelude Double
begin

text \<open>
  The general ledger's chart of accounts of the billing service
  (ledger/GeneralLedgerChartOfAccountsMatrix.ts): eighteen seeded accounts, postings between two of
  them, and the trial balance. Balances in dollars are doubles. \<open>postJournalEntry\<close> changes two objects
  of the map one after the other; when both accounts are the same the second change sees the first.
\<close>

datatype account_category = ASSET | LIABILITY | EQUITY | REVENUE | EXPENSE
datatype normal_balance = DEBIT | CREDIT

record IAccountDefinition =
  acc_accountNumber :: string
  acc_accountName :: string
  acc_accountCategory :: account_category
  acc_normalBalance :: normal_balance
  acc_currencyCode :: string
  acc_currentBalanceUSD :: rat
  acc_isSubLedgerEnabled :: bool
  acc_taxReportingCode :: string

type_synonym chart = "(string, IAccountDefinition) jsmap"

definition gl_account ::
  "string \<Rightarrow> string \<Rightarrow> account_category \<Rightarrow> normal_balance \<Rightarrow> rat \<Rightarrow> bool \<Rightarrow> string \<Rightarrow> IAccountDefinition" where
  "gl_account number name category normal balance sub tax =
     \<lparr> acc_accountNumber = number, acc_accountName = name, acc_accountCategory = category,
       acc_normalBalance = normal, acc_currencyCode = ''USD'', acc_currentBalanceUSD = balance,
       acc_isSubLedgerEnabled = sub, acc_taxReportingCode = tax \<rparr>"

definition standardAccounts :: "IAccountDefinition list" where
  "standardAccounts =
     [gl_account ''1010'' ''Operating Cash in Bank'' ASSET DEBIT 1450000 True ''CASH_EQ'',
      gl_account ''1100'' ''Trade Accounts Receivable'' ASSET DEBIT 850000 True ''AR_TRADE'',
      gl_account ''1200'' ''Merchandise Inventory Stock'' ASSET DEBIT 3200000 True ''INV_FINISHED'',
      gl_account ''1300'' ''Prepaid Expenses & Insurance'' ASSET DEBIT 120000 False ''PREPAID'',
      gl_account ''1500'' ''Warehouse Machinery & Fleet Equipment'' ASSET DEBIT 4500000 True ''PPE_FLEET'',
      gl_account ''1600'' ''Accumulated Depreciation - Fleet'' ASSET CREDIT (- 850000) True ''ACC_DEPR'',
      gl_account ''2010'' ''Accounts Payable - Vendors'' LIABILITY CREDIT 620000 True ''AP_TRADE'',
      gl_account ''2100'' ''Accrued Payroll & Driver Benefits'' LIABILITY CREDIT 180000 False ''PAYROLL_LIAB'',
      gl_account ''2200'' ''Sales Tax Payable to Jurisdictions'' LIABILITY CREDIT 95000 True ''TAX_PAYABLE'',
      gl_account ''2500'' ''Commercial Equipment Term Loan'' LIABILITY CREDIT 2100000 False ''LT_DEBT'',
      gl_account ''3010'' ''Common Share Capital'' EQUITY CREDIT 3000000 False ''EQUITY_CAP'',
      gl_account ''3100'' ''Retained Earnings Cumulative'' EQUITY CREDIT 3425000 False ''RET_EARN'',
      gl_account ''4010'' ''Gross Freight Logistics Revenue'' REVENUE CREDIT 5800000 True ''REV_FREIGHT'',
      gl_account ''4020'' ''Warehouse Storage & Handling Revenue'' REVENUE CREDIT 2100000 True ''REV_STORAGE'',
      gl_account ''5010'' ''Cost of Goods Sold - Fuel & Tolls'' EXPENSE DEBIT 1450000 True ''COGS_FUEL'',
      gl_account ''5020'' ''Cost of Goods Sold - Direct Labor'' EXPENSE DEBIT 1850000 True ''COGS_LABOR'',
      gl_account ''6010'' ''Software Cloud Infrastructure Expenses'' EXPENSE DEBIT 240000 False ''OPEX_CLOUD'',
      gl_account ''6020'' ''General Facility Administrative Overhead'' EXPENSE DEBIT 310000 False ''OPEX_GNA'']"

definition seedChartOfAccounts :: chart where
  "seedChartOfAccounts = fold (\<lambda>acc. jm_set (acc_accountNumber acc) acc) standardAccounts []"

text \<open>One side of a posting: the balance grows on the account's normal side and shrinks on the other.\<close>

definition post_side :: "normal_balance \<Rightarrow> rat \<Rightarrow> IAccountDefinition \<Rightarrow> IAccountDefinition" where
  "post_side side amountUSD acc =
     (if acc_normalBalance acc = side
      then acc\<lparr> acc_currentBalanceUSD := dadd (acc_currentBalanceUSD acc) amountUSD \<rparr>
      else acc\<lparr> acc_currentBalanceUSD := dsub (acc_currentBalanceUSD acc) amountUSD \<rparr>)"

definition post_account :: "string \<Rightarrow> normal_balance \<Rightarrow> rat \<Rightarrow> chart \<Rightarrow> chart" where
  "post_account number side amountUSD m =
     (case jm_get m number of None \<Rightarrow> m | Some acc \<Rightarrow> jm_set number (post_side side amountUSD acc) m)"

definition chart_postJournalEntry :: "string \<Rightarrow> string \<Rightarrow> rat \<Rightarrow> chart \<Rightarrow> chart \<times> bool" where
  "chart_postJournalEntry debitAccount creditAccount amountUSD m =
     (if jm_get m debitAccount = None \<or> jm_get m creditAccount = None then (m, False)
      else (post_account creditAccount CREDIT amountUSD (post_account debitAccount DEBIT amountUSD m), True))"

record trial_balance =
  tb_isBalanced :: bool
  tb_totalDebitsUSD :: rat
  tb_totalCreditsUSD :: rat
  tb_differenceUSD :: rat

definition add_account :: "IAccountDefinition \<Rightarrow> rat \<times> rat \<Rightarrow> rat \<times> rat" where
  "add_account acc t =
     (if acc_normalBalance acc = DEBIT then (dadd (fst t) (acc_currentBalanceUSD acc), snd t)
      else (fst t, dadd (snd t) (acc_currentBalanceUSD acc)))"

definition verifyTrialBalance :: "chart \<Rightarrow> trial_balance" where
  "verifyTrialBalance m =
     (let (debits, credits) = fold add_account (jm_values m) (0, 0);
          diff = \<bar>dsub debits credits\<bar>
      in \<lparr> tb_isBalanced = (diff < fl (1 / 100)), tb_totalDebitsUSD = toFixed 2 debits,
           tb_totalCreditsUSD = toFixed 2 credits, tb_differenceUSD = toFixed 2 diff \<rparr>)"

section \<open>Postings\<close>

record posting =
  ps_debit :: string
  ps_credit :: string
  ps_amount :: rat

definition post_step :: "posting \<Rightarrow> chart \<Rightarrow> chart" where
  "post_step p m = fst (chart_postJournalEntry (ps_debit p) (ps_credit p) (ps_amount p) m)"

text \<open>Postings of whole dollars.\<close>

definition dollars :: "posting \<Rightarrow> int" where
  "dollars p = \<lfloor>ps_amount p\<rfloor>"

definition whole_posting :: "posting \<Rightarrow> bool" where
  "whole_posting p \<longleftrightarrow> ps_amount p = of_int (dollars p)"

section \<open>Whole dollars are exact\<close>

text \<open>An account whose balance is a whole number of dollars of at most \<open>b\<close>, and its signed balance.\<close>

definition whole :: "int \<Rightarrow> IAccountDefinition \<Rightarrow> bool" where
  "whole b acc \<longleftrightarrow> acc_currentBalanceUSD acc = of_int \<lfloor>acc_currentBalanceUSD acc\<rfloor> \<and> \<bar>\<lfloor>acc_currentBalanceUSD acc\<rfloor>\<bar> \<le> b"

definition signed :: "IAccountDefinition \<Rightarrow> int" where
  "signed acc = (if acc_normalBalance acc = DEBIT then \<lfloor>acc_currentBalanceUSD acc\<rfloor> else - \<lfloor>acc_currentBalanceUSD acc\<rfloor>)"

definition chart_net :: "chart \<Rightarrow> int" where
  "chart_net m = (\<Sum>acc \<leftarrow> jm_values m. signed acc)"

definition chart_ok :: "int \<Rightarrow> chart \<Rightarrow> bool" where
  "chart_ok b m \<longleftrightarrow> jm_ok m \<and> length m = 18 \<and> list_all (whole b) (jm_values m)"

lemma post_side_whole:
  assumes "whole b acc" and "b + \<bar>n\<bar> \<le> 2 ^ 53"
  shows "whole (b + \<bar>n\<bar>) (post_side side (of_int n) acc)"
    and "signed (post_side side (of_int n) acc) = signed acc + (if side = DEBIT then n else - n)"
proof -
  obtain k where k: "acc_currentBalanceUSD acc = of_int k" "\<bar>k\<bar> \<le> b" using assms(1) by (auto simp: whole_def)
  have add: "dadd (of_int k) (of_int n) = of_int (k + n)" "dsub (of_int k) (of_int n) = of_int (k - n)"
    unfolding dadd_def dsub_def of_int_add [symmetric] of_int_diff [symmetric]
    using k(2) assms(2) by (intro fl_int; simp)+
  show "whole (b + \<bar>n\<bar>) (post_side side (of_int n) acc)" using k(2) by (auto simp: whole_def post_side_def k(1) add)
  show "signed (post_side side (of_int n) acc) = signed acc + (if side = DEBIT then n else - n)"
    by (cases side; cases "acc_normalBalance acc") (simp_all add: signed_def post_side_def k(1) add)
qed

lemma whole_mono: "whole b acc \<Longrightarrow> b \<le> c \<Longrightarrow> whole c acc"
  by (auto simp: whole_def)

lemma post_account_ok:
  assumes "chart_ok b m" and "jm_get m i \<noteq> None" and "b + \<bar>n\<bar> \<le> 2 ^ 53"
  shows "chart_ok (b + \<bar>n\<bar>) (post_account i side (of_int n) m)"
    and "chart_net (post_account i side (of_int n) m) = chart_net m + (if side = DEBIT then n else - n)"
proof -
  obtain acc where acc: "jm_get m i = Some acc" using assms(2) by auto
  have w: "whole b acc" using assms(1) jm_get_value [OF acc] by (simp add: chart_ok_def list_all_iff)
  note p = post_side_whole [OF w assms(3), where side = side]
  have "whole (b + \<bar>n\<bar>) x" if "x \<in> set (jm_values (post_account i side (of_int n) m))" for x
    using jm_set_value [of x i _ m] that p(1) assms(1) whole_mono [of b x "b + \<bar>n\<bar>"]
    by (auto simp: post_account_def acc chart_ok_def list_all_iff)
  with assms(1) show "chart_ok (b + \<bar>n\<bar>) (post_account i side (of_int n) m)"
    by (simp add: chart_ok_def list_all_iff) (simp add: post_account_def acc jm_length_set)
  show "chart_net (post_account i side (of_int n) m) = chart_net m + (if side = DEBIT then n else - n)"
    using sum_values_set [of m i acc signed] assms(1) p(2) by (simp add: chart_net_def post_account_def acc chart_ok_def)
qed

lemma post_account_known: "jm_get (post_account i side n m) j = None \<longleftrightarrow> jm_get m j = None"
  by (simp add: post_account_def split: option.split)

text \<open>A posting adds to both sides of the trial balance or to neither, also between an account and itself.\<close>

lemma post_step_ok:
  assumes "chart_ok b m" and "b + 2 * \<bar>dollars p\<bar> \<le> 2 ^ 53" and "whole_posting p"
  shows "chart_ok (b + 2 * \<bar>dollars p\<bar>) (post_step p m)" and "chart_net (post_step p m) = chart_net m"
proof -
  let ?n = "dollars p" and ?m = "post_account (ps_debit p) DEBIT (of_int (dollars p)) m"
  have "chart_ok (b + 2 * \<bar>?n\<bar>) (post_step p m) \<and> chart_net (post_step p m) = chart_net m"
  proof (cases "jm_get m (ps_debit p) = None \<or> jm_get m (ps_credit p) = None")
    case True
    have "chart_ok (b + 2 * \<bar>?n\<bar>) m" using assms(1) by (auto simp: chart_ok_def list_all_iff intro: whole_mono)
    with True show ?thesis by (auto simp: post_step_def chart_postJournalEntry_def)
  next
    case False
    then have known: "jm_get m (ps_debit p) \<noteq> None" "jm_get ?m (ps_credit p) \<noteq> None" by (simp_all add: post_account_known)
    have "b + \<bar>?n\<bar> \<le> 2 ^ 53" "(b + \<bar>?n\<bar>) + \<bar>?n\<bar> \<le> 2 ^ 53" using assms(2) by simp_all
    note d = post_account_ok [OF assms(1) known(1) this(1), where side = DEBIT]
    note c = post_account_ok [OF d(1) known(2) \<open>(b + \<bar>?n\<bar>) + \<bar>?n\<bar> \<le> 2 ^ 53\<close>, where side = CREDIT]
    have "post_step p m = post_account (ps_credit p) CREDIT (of_int ?n) ?m"
      using False assms(3) by (auto simp: post_step_def chart_postJournalEntry_def whole_posting_def)
    with c d(2) show ?thesis by (simp add: algebra_simps)
  qed
  then show "chart_ok (b + 2 * \<bar>dollars p\<bar>) (post_step p m)" "chart_net (post_step p m) = chart_net m" by auto
qed

lemma postings_ok:
  "chart_ok b m \<Longrightarrow> list_all whole_posting ps \<Longrightarrow> b + 2 * (\<Sum>p \<leftarrow> ps. \<bar>dollars p\<bar>) \<le> 2 ^ 53 \<Longrightarrow>
    chart_ok (b + 2 * (\<Sum>p \<leftarrow> ps. \<bar>dollars p\<bar>)) (fold post_step ps m) \<and> chart_net (fold post_step ps m) = chart_net m"
proof (induction ps arbitrary: b m)
  case (Cons p ps)
  have nonneg: "0 \<le> (\<Sum>p \<leftarrow> ps. \<bar>dollars p\<bar>)" by (rule sum_list_nonneg) auto
  then have "b + 2 * \<bar>dollars p\<bar> \<le> 2 ^ 53" using Cons.prems(3) by simp
  note p = post_step_ok [OF Cons.prems(1) this]
  from Cons.IH [OF p(1)] Cons.prems(2,3) p(2) show ?case by (simp add: algebra_simps)
qed simp

text \<open>The totals of the trial balance are exact on such charts.\<close>

lemma add_accounts_exact:
  assumes "list_all (whole b) accs" and "0 \<le> b" and "\<bar>d\<bar> + \<bar>c\<bar> + b * int (length accs) \<le> 2 ^ 53"
  shows "\<exists>d' c'. fold add_account accs (of_int d, of_int c) = (of_int d', of_int c') \<and>
    d' - c' = d - c + (\<Sum>a \<leftarrow> accs. signed a) \<and> \<bar>d'\<bar> + \<bar>c'\<bar> \<le> \<bar>d\<bar> + \<bar>c\<bar> + b * int (length accs)"
  using assms
proof (induction accs arbitrary: d c)
  case (Cons a accs)
  obtain k where k: "acc_currentBalanceUSD a = of_int k" "\<bar>k\<bar> \<le> b" using Cons.prems(1) by (auto simp: whole_def)
  have len: "b * int (length (a # accs)) = b + b * int (length accs)" by (simp add: algebra_simps)
  have nonneg: "0 \<le> b * int (length accs)" using Cons.prems(2) by simp
  define d1 where "d1 = (if acc_normalBalance a = DEBIT then d + k else d)"
  define c1 where "c1 = (if acc_normalBalance a = DEBIT then c else c + k)"
  have bound: "\<bar>d1\<bar> + \<bar>c1\<bar> \<le> \<bar>d\<bar> + \<bar>c\<bar> + b" using k(2) by (auto simp: d1_def c1_def)
  have "dadd (of_int x) (of_int k) = of_int (x + k)" if "\<bar>x\<bar> \<le> \<bar>d\<bar> + \<bar>c\<bar>" for x
    unfolding dadd_def of_int_add [symmetric] using that k(2) Cons.prems(3) nonneg len by (intro fl_int) linarith
  then have step: "add_account a (of_int d, of_int c) = (of_int d1, of_int c1)"
    by (simp add: add_account_def k(1) d1_def c1_def)
  have "\<bar>d1\<bar> + \<bar>c1\<bar> + b * int (length accs) \<le> 2 ^ 53" using bound Cons.prems(3) len by linarith
  from Cons.IH [OF _ Cons.prems(2) this] Cons.prems(1) obtain d' c' where
    "fold add_account accs (of_int d1, of_int c1) = (of_int d', of_int c')"
    "d' - c' = d1 - c1 + (\<Sum>a \<leftarrow> accs. signed a)" "\<bar>d'\<bar> + \<bar>c'\<bar> \<le> \<bar>d1\<bar> + \<bar>c1\<bar> + b * int (length accs)" by auto
  moreover have "d1 - c1 = d - c + signed a" by (simp add: d1_def c1_def signed_def k(1))
  ultimately show ?case using step bound len by (intro exI [of _ d'] exI [of _ c']) simp
qed simp

lemma seed_chart: "jm_values seedChartOfAccounts = standardAccounts \<and> jm_ok seedChartOfAccounts"
  by (simp add: seedChartOfAccounts_def standardAccounts_def jm_values_def gl_account_def)

lemma seed_chart_ok: "chart_ok 5800000 seedChartOfAccounts" "chart_net seedChartOfAccounts = - 2500000"
proof -
  have "length seedChartOfAccounts = length (jm_values seedChartOfAccounts)" by (simp add: jm_values_def)
  then show "chart_ok 5800000 seedChartOfAccounts"
    using seed_chart by (simp add: chart_ok_def standardAccounts_def whole_def gl_account_def)
  show "chart_net seedChartOfAccounts = - 2500000"
    using seed_chart by (simp add: chart_net_def standardAccounts_def signed_def gl_account_def)
qed

lemma toFixed_int:
  assumes "\<bar>n\<bar> \<le> 2 ^ 53"
  shows "toFixed 2 (of_int n) = of_int n"
proof -
  have r: "Math_round (of_int k * 100) = k * 100" for k
    using Math_round_int [of "k * 100"] by simp
  have r': "Math_round (- (of_int k * 100)) = - k * 100" for k
    using Math_round_int [of "- k * 100"] by simp
  have f: "fl (- of_int n) = - of_int n" by (simp add: fl_minus fl_int [OF assms])
  show ?thesis using assms f by (simp add: toFixed_def r r')
qed

lemma whole_dollars_exact:
  assumes "list_all whole_posting ps" and "(\<Sum>p \<leftarrow> ps. \<bar>dollars p\<bar>) \<le> 10 ^ 14"
  shows "let tb = verifyTrialBalance (fold post_step ps seedChartOfAccounts) in
    \<not> tb_isBalanced tb \<and> tb_totalDebitsUSD tb - tb_totalCreditsUSD tb = - 2500000 \<and> tb_differenceUSD tb = 2500000"
proof -
  define m where "m = fold post_step ps seedChartOfAccounts"
  define b where "b = 5800000 + 2 * (\<Sum>p \<leftarrow> ps. \<bar>dollars p\<bar>)"
  have pos: "0 \<le> (\<Sum>p \<leftarrow> ps. \<bar>dollars p\<bar>)" by (rule sum_list_nonneg) auto
  then have b: "0 \<le> b" "b * 18 \<le> 2 ^ 52" using assms(2) by (simp_all add: b_def)
  have "chart_ok b m" "chart_net m = - 2500000"
    using postings_ok [OF seed_chart_ok(1) assms(1)] assms(2) seed_chart_ok(2) by (simp_all add: m_def b_def)
  then have m: "list_all (whole b) (jm_values m)" "length (jm_values m) = 18" "(\<Sum>a \<leftarrow> jm_values m. signed a) = - 2500000"
    by (simp_all add: chart_ok_def chart_net_def jm_values_def)
  have "\<bar>0\<bar> + \<bar>0\<bar> + b * int (length (jm_values m)) \<le> 2 ^ 53" using b m(2) by simp
  from add_accounts_exact [OF m(1) b(1) this] obtain d c where
    dc: "fold add_account (jm_values m) (0, 0) = (of_int d, of_int c)" "d - c = - 2500000" "\<bar>d\<bar> + \<bar>c\<bar> \<le> b * 18"
    using m(2,3) by auto
  have "dsub (of_int d) (of_int c) = (of_int (d - c) :: rat)"
    unfolding dsub_def of_int_diff [symmetric] by (rule fl_int) (simp add: dc(2))
  then have diff: "\<bar>dsub (of_int d) (of_int c)\<bar> = 2500000" by (simp add: dc(2))
  have fixed: "toFixed 2 (of_int d) = of_int d" "toFixed 2 (of_int c) = of_int c" "toFixed 2 2500000 = 2500000"
    using dc(3) b toFixed_int [of d] toFixed_int [of c] toFixed_int [of 2500000] by simp_all
  have cent: "fl (1 / 100) < (2500000 :: rat)" by code_simp
  have net: "(of_int d :: rat) - of_int c = - 2500000" using dc(2) by (metis of_int_diff of_int_minus of_int_numeral)
  show ?thesis
    using cent by (simp add: m_def [symmetric] verifyTrialBalance_def dc(1) diff fixed net Let_def)
qed

section \<open>Cents drift by rounding\<close>

text \<open>Balances of at most \<open>b\<close>, and their signed sum as it is in the doubles.\<close>

definition bounded :: "rat \<Rightarrow> IAccountDefinition \<Rightarrow> bool" where
  "bounded b acc \<longleftrightarrow> \<bar>acc_currentBalanceUSD acc\<bar> \<le> b"

definition side_balance :: "IAccountDefinition \<Rightarrow> rat" where
  "side_balance acc = (if acc_normalBalance acc = DEBIT then acc_currentBalanceUSD acc else - acc_currentBalanceUSD acc)"

definition chart_sum :: "chart \<Rightarrow> rat" where
  "chart_sum m = (\<Sum>acc \<leftarrow> jm_values m. side_balance acc)"

definition chart_near :: "rat \<Rightarrow> chart \<Rightarrow> bool" where
  "chart_near b m \<longleftrightarrow> jm_ok m \<and> length m = 18 \<and> list_all (bounded b) (jm_values m)"

lemma fl_drift: "\<bar>x\<bar> \<le> 2 ^ 48 \<Longrightarrow> \<bar>fl x - x\<bar> \<le> 1 / 32"
  using fl_error [of x] by simp

lemma post_side_near:
  assumes "bounded b acc" and "b + \<bar>n\<bar> \<le> 2 ^ 48"
  shows "bounded (b + \<bar>n\<bar> + 1 / 32) (post_side side n acc)"
    and "\<bar>side_balance (post_side side n acc) - (side_balance acc + (if side = DEBIT then n else - n))\<bar> \<le> 1 / 32"
proof -
  let ?x = "acc_currentBalanceUSD acc"
  have x: "\<bar>?x\<bar> \<le> b" using assms(1) by (simp add: bounded_def)
  then have s: "\<bar>?x + n\<bar> \<le> b + \<bar>n\<bar>" "\<bar>?x - n\<bar> \<le> b + \<bar>n\<bar>" by linarith+
  then have e: "\<bar>dadd ?x n - (?x + n)\<bar> \<le> 1 / 32" "\<bar>dsub ?x n - (?x - n)\<bar> \<le> 1 / 32"
    unfolding dadd_def dsub_def using assms(2) by (intro fl_drift; linarith)+
  have "\<bar>dadd ?x n\<bar> \<le> b + \<bar>n\<bar> + 1 / 32" "\<bar>dsub ?x n\<bar> \<le> b + \<bar>n\<bar> + 1 / 32" using e s by linarith+
  then show "bounded (b + \<bar>n\<bar> + 1 / 32) (post_side side n acc)" by (simp add: bounded_def post_side_def)
  show "\<bar>side_balance (post_side side n acc) - (side_balance acc + (if side = DEBIT then n else - n))\<bar> \<le> 1 / 32"
    using e by (cases side; cases "acc_normalBalance acc") (simp_all add: side_balance_def post_side_def abs_if split: if_splits)
qed

lemma bounded_mono: "bounded b acc \<Longrightarrow> b \<le> c \<Longrightarrow> bounded c acc"
  by (simp add: bounded_def)

lemma post_account_near:
  assumes "chart_near b m" and "jm_get m i \<noteq> None" and "b + \<bar>n\<bar> \<le> 2 ^ 48"
  shows "chart_near (b + \<bar>n\<bar> + 1 / 32) (post_account i side n m)"
    and "\<bar>chart_sum (post_account i side n m) - (chart_sum m + (if side = DEBIT then n else - n))\<bar> \<le> 1 / 32"
proof -
  obtain acc where acc: "jm_get m i = Some acc" using assms(2) by auto
  have w: "bounded b acc" using assms(1) jm_get_value [OF acc] by (simp add: chart_near_def list_all_iff)
  note p = post_side_near [OF w assms(3), where side = side]
  have "bounded (b + \<bar>n\<bar> + 1 / 32) x" if "x \<in> set (jm_values (post_account i side n m))" for x
    using jm_set_value [of x i _ m] that p(1) assms(1) bounded_mono [of b x "b + \<bar>n\<bar> + 1 / 32"]
    by (auto simp: post_account_def acc chart_near_def list_all_iff)
  with assms(1) show "chart_near (b + \<bar>n\<bar> + 1 / 32) (post_account i side n m)"
    by (simp add: chart_near_def list_all_iff) (simp add: post_account_def acc jm_length_set)
  show "\<bar>chart_sum (post_account i side n m) - (chart_sum m + (if side = DEBIT then n else - n))\<bar> \<le> 1 / 32"
  proof -
    have "chart_sum (post_account i side n m) = chart_sum m - side_balance acc + side_balance (post_side side n acc)"
      using sum_values_set [OF _ acc, where w = "post_side side n acc" and f = side_balance] assms(1)
      by (simp add: chart_sum_def post_account_def acc chart_near_def)
    then show ?thesis using p(2) by linarith
  qed
qed

lemma post_step_near:
  assumes "chart_near b m" and "b + 2 * \<bar>ps_amount p\<bar> + 1 / 32 \<le> 2 ^ 48"
  shows "chart_near (b + 2 * \<bar>ps_amount p\<bar> + 1 / 16) (post_step p m) \<and> \<bar>chart_sum (post_step p m) - chart_sum m\<bar> \<le> 1 / 16"
proof (cases "jm_get m (ps_debit p) = None \<or> jm_get m (ps_credit p) = None")
  case True
  have "chart_near (b + 2 * \<bar>ps_amount p\<bar> + 1 / 16) m"
    using assms(1) by (auto simp: chart_near_def list_all_iff intro: bounded_mono)
  with True show ?thesis by (auto simp: post_step_def chart_postJournalEntry_def)
next
  case False
  let ?n = "ps_amount p" and ?m = "post_account (ps_debit p) DEBIT (ps_amount p) m"
  have known: "jm_get m (ps_debit p) \<noteq> None" "jm_get ?m (ps_credit p) \<noteq> None" using False by (simp_all add: post_account_known)
  have d: "b + \<bar>?n\<bar> \<le> 2 ^ 48" "(b + \<bar>?n\<bar> + 1 / 32) + \<bar>?n\<bar> \<le> 2 ^ 48" using assms(2) by linarith+
  note fst = post_account_near [OF assms(1) known(1) d(1), where side = DEBIT]
  note snd = post_account_near [OF fst(1) known(2) d(2), where side = CREDIT]
  have e: "post_step p m = post_account (ps_credit p) CREDIT ?n ?m"
    using False by (auto simp: post_step_def chart_postJournalEntry_def)
  have "b + \<bar>?n\<bar> + 1 / 32 + \<bar>?n\<bar> + 1 / 32 = b + 2 * \<bar>?n\<bar> + 1 / 16" by simp
  moreover have "\<bar>chart_sum ?m - (chart_sum m + ?n)\<bar> \<le> 1 / 32" "\<bar>chart_sum (post_step p m) - (chart_sum ?m + - ?n)\<bar> \<le> 1 / 32"
    using fst(2) snd(2) unfolding e by (simp_all only: normal_balance.distinct if_True if_False simp_thms)
  then have "\<bar>chart_sum (post_step p m) - chart_sum m\<bar> \<le> 1 / 16" by linarith
  ultimately show ?thesis using snd(1) unfolding e by metis
qed

lemma postings_near:
  assumes "chart_near b m" and "b + 2 * (\<Sum>p \<leftarrow> ps. \<bar>ps_amount p\<bar>) + of_nat (length ps) / 16 \<le> 2 ^ 48"
  shows "chart_near (b + 2 * (\<Sum>p \<leftarrow> ps. \<bar>ps_amount p\<bar>) + of_nat (length ps) / 16) (fold post_step ps m) \<and>
    \<bar>chart_sum (fold post_step ps m) - chart_sum m\<bar> \<le> of_nat (length ps) / 16"
  using assms
proof (induction ps arbitrary: b m)
  case (Cons p ps)
  define rest where "rest = (\<Sum>p \<leftarrow> ps. \<bar>ps_amount p\<bar>)"
  define a where "a = \<bar>ps_amount p\<bar>"
  define l :: rat where "l = of_nat (length ps) / 16"
  have nonneg: "0 \<le> rest" unfolding rest_def by (rule sum_list_nonneg) auto
  have len: "of_nat (length (p # ps)) / 16 = l + 1 / 16" by (simp add: l_def field_simps)
  have l0: "0 \<le> l" by (simp add: l_def)
  have sum: "(\<Sum>p \<leftarrow> p # ps. \<bar>ps_amount p\<bar>) = a + rest" by (simp add: a_def rest_def)
  have bound: "b + 2 * a + 2 * rest + (l + 1 / 16) \<le> 2 ^ 48"
    using Cons.prems(2) unfolding len sum by (simp add: algebra_simps)
  then have "b + 2 * a + 1 / 32 \<le> 2 ^ 48" using nonneg l0 by linarith
  note p = post_step_near [OF Cons.prems(1) this [unfolded a_def], folded a_def]
  have "(b + 2 * a + 1 / 16) + 2 * rest + l \<le> 2 ^ 48" using bound by linarith
  note IH = Cons.IH [OF conjunct1 [OF p] this [unfolded rest_def l_def], folded rest_def l_def]
  have "b + 2 * a + 1 / 16 + 2 * rest + l =
      b + 2 * (a + rest) + (l + 1 / 16)" by (simp add: algebra_simps)
  moreover have "\<bar>chart_sum (fold post_step (p # ps) m) - chart_sum m\<bar> \<le> l + 1 / 16"
    using conjunct2 [OF IH] conjunct2 [OF p] unfolding fold_simps by linarith
  ultimately show ?case using conjunct1 [OF IH] unfolding len sum fold_simps by metis
qed simp

lemma add_accounts_near:
  assumes "list_all (bounded b) accs" and "0 \<le> b" and "\<bar>d\<bar> + \<bar>c\<bar> + (b + 1) * of_nat (length accs) \<le> 2 ^ 53"
  shows "case fold add_account accs (d, c) of (d', c') \<Rightarrow>
    \<bar>(d' - c') - (d - c + (\<Sum>a \<leftarrow> accs. side_balance a))\<bar> \<le> of_nat (length accs)"
  using assms
proof (induction accs arbitrary: d c)
  case (Cons a accs)
  let ?x = "acc_currentBalanceUSD a"
  have x: "\<bar>?x\<bar> \<le> b" using Cons.prems(1) by (simp add: bounded_def)
  have len: "(b + 1) * of_nat (length (a # accs)) = (b + 1) + (b + 1) * of_nat (length accs)" by (simp add: algebra_simps)
  have l0: "0 \<le> (b + 1) * of_nat (length accs)" using Cons.prems(2) by simp
  obtain d1 c1 where dc: "add_account a (d, c) = (d1, c1)" by force
  have room: "\<bar>d\<bar> + \<bar>c\<bar> + b \<le> 2 ^ 53" using Cons.prems(3) l0 len by linarith
  have e: "\<bar>dadd y ?x - (y + ?x)\<bar> \<le> 1" if "\<bar>y\<bar> \<le> \<bar>d\<bar> + \<bar>c\<bar>" for y
  proof -
    have "\<bar>y + ?x\<bar> \<le> 2 ^ 53" using that x room by linarith
    then show ?thesis using fl_error [of "y + ?x"] by (simp add: dadd_def)
  qed
  have ed: "\<bar>dadd d ?x - (d + ?x)\<bar> \<le> 1" and ec: "\<bar>dadd c ?x - (c + ?x)\<bar> \<le> 1" by (rule e, simp)+
  have one: "\<bar>(d1 - c1) - (d - c + side_balance a)\<bar> \<le> 1 \<and> \<bar>d1\<bar> + \<bar>c1\<bar> \<le> \<bar>d\<bar> + \<bar>c\<bar> + (b + 1)"
  proof (cases "acc_normalBalance a = DEBIT")
    case True
    then have "d1 = dadd d ?x" "c1 = c" using dc by (simp_all add: add_account_def)
    with True ed x show ?thesis by (simp add: side_balance_def) linarith
  next
    case False
    then have "d1 = d" "c1 = dadd c ?x" using dc by (simp_all add: add_account_def)
    with False ec x show ?thesis by (simp add: side_balance_def) linarith
  qed
  have "\<bar>d1\<bar> + \<bar>c1\<bar> + (b + 1) * of_nat (length accs) \<le> 2 ^ 53" using one Cons.prems(3) len by linarith
  with Cons.IH [of d1 c1] Cons.prems(1,2) one show ?case by (auto simp: dc split: prod.splits)
qed simp

lemma seed_chart_near: "chart_near 5800000 seedChartOfAccounts" "chart_sum seedChartOfAccounts = - 2500000"
proof -
  have "length seedChartOfAccounts = length (jm_values seedChartOfAccounts)" by (simp add: jm_values_def)
  then show "chart_near 5800000 seedChartOfAccounts"
    using seed_chart by (simp add: chart_near_def standardAccounts_def bounded_def gl_account_def)
  show "chart_sum seedChartOfAccounts = - 2500000"
    using seed_chart by (simp add: chart_sum_def standardAccounts_def side_balance_def gl_account_def)
qed

lemma cents_drift:
  assumes "(\<Sum>p \<leftarrow> ps. \<bar>ps_amount p\<bar>) \<le> 10 ^ 14" and "length ps \<le> 10 ^ 6"
  shows "let tb = verifyTrialBalance (fold post_step ps seedChartOfAccounts) in
    \<not> tb_isBalanced tb \<and> \<bar>tb_differenceUSD tb - 2500000\<bar> \<le> of_nat (length ps) / 16 + 19"
proof -
  define m where "m = fold post_step ps seedChartOfAccounts"
  define n :: rat where "n = of_nat (length ps) / 16"
  define b where "b = 5800000 + 2 * (\<Sum>p \<leftarrow> ps. \<bar>ps_amount p\<bar>) + n"
  have "(of_nat (length ps) :: rat) \<le> of_nat (10 ^ 6)" using assms(2) by (simp only: of_nat_le_iff)
  then have n: "0 \<le> n" "n \<le> 62500" by (simp_all add: n_def)
  have pos: "0 \<le> (\<Sum>p \<leftarrow> ps. \<bar>ps_amount p\<bar>)" by (rule sum_list_nonneg) auto
  have b: "0 \<le> b" "b \<le> 2 ^ 48" using assms(1) n pos by (simp_all add: b_def)
  note near = postings_near [OF seed_chart_near(1), of ps, folded n_def, folded b_def, OF b(2), folded m_def]
  have m: "list_all (bounded b) (jm_values m)" "length (jm_values m) = 18" "\<bar>(\<Sum>a \<leftarrow> jm_values m. side_balance a) + 2500000\<bar> \<le> n"
    using near seed_chart_near(2) by (simp_all add: chart_near_def chart_sum_def jm_values_def)
  obtain d c where dc: "fold add_account (jm_values m) (0, 0) = (d, c)" by force
  have "\<bar>0\<bar> + \<bar>0\<bar> + (b + 1) * of_nat (length (jm_values m)) \<le> 2 ^ 53" using b m(2) by simp
  from add_accounts_near [OF m(1) b(1) this] have net: "\<bar>(d - c) + 2500000\<bar> \<le> n + 18"
    using m(2,3) by (simp add: dc)
  have "\<bar>d - c\<bar> \<le> 10 ^ 7" using net n by (simp add: abs_le_iff)
  then have rnd: "\<bar>dsub d c - (d - c)\<bar> \<le> 1 / 100000" using fl_abs_le [of "d - c"] by (simp add: dsub_def)
  define diff where "diff = \<bar>dsub d c\<bar>"
  have diff: "\<bar>diff - 2500000\<bar> \<le> n + 18 + 1 / 100000" using net rnd n unfolding diff_def by linarith
  then have "\<bar>diff\<bar> \<le> 10 ^ 10" "1 < diff" using n by (simp_all add: abs_le_iff)
  note fixed = toFixed_error [OF this(1)]
  have cent: "fl (1 / 100) < (1 :: rat)" by code_simp
  have "\<bar>toFixed 2 diff - 2500000\<bar> \<le> n + 19" using fixed diff by linarith
  then show ?thesis
    using cent \<open>1 < diff\<close> by (simp add: m_def [symmetric] verifyTrialBalance_def dc Let_def diff_def [symmetric] n_def [symmetric])
qed

text \<open>C7: the seeded ledger is out of balance, and no postings of realistic size can mend it. While the amounts posted stay under
  \<open>10 ^ 14\<close> dollars in all, between any accounts, known or not, two things hold. Up to a million postings of any
  amounts, cents included, leave the trial balance unbalanced, with a difference that is two and a half million dollars but for
  the rounding of the sums, at most a sixteenth of a dollar per posting and nineteen dollars more. And any number of
  postings of whole dollars leave it unbalanced with credits exceeding debits by exactly two and a half million: a posting
  changes both totals alike, and the sums are exact in binary64.\<close>

theorem trial_balance_never_balances:
  assumes "(\<Sum>p \<leftarrow> ps. \<bar>ps_amount p\<bar>) \<le> 10 ^ 14"
  shows "let tb = verifyTrialBalance (fold post_step ps seedChartOfAccounts) in
    (length ps \<le> 10 ^ 6 \<longrightarrow> \<not> tb_isBalanced tb \<and> \<bar>tb_differenceUSD tb - 2500000\<bar> \<le> of_nat (length ps) / 16 + 19) \<and>
    (list_all whole_posting ps \<longrightarrow> \<not> tb_isBalanced tb \<and>
       tb_totalDebitsUSD tb - tb_totalCreditsUSD tb = - 2500000 \<and> tb_differenceUSD tb = 2500000)"
proof -
  have "(\<Sum>p \<leftarrow> ps. \<bar>dollars p\<bar>) \<le> 10 ^ 14" if "list_all whole_posting ps"
  proof -
    have "(of_int (\<Sum>p \<leftarrow> ps. \<bar>dollars p\<bar>) :: rat) = (\<Sum>p \<leftarrow> ps. \<bar>ps_amount p\<bar>)"
      using that by (induction ps) (auto simp: whole_posting_def)
    with assms have "(of_int (\<Sum>p \<leftarrow> ps. \<bar>dollars p\<bar>) :: rat) \<le> of_int (10 ^ 14)" by simp
    then show ?thesis by (simp only: of_int_le_iff)
  qed
  with cents_drift [OF assms] whole_dollars_exact [of ps] show ?thesis unfolding Let_def by blast
qed

text \<open>A customer pays with cents, rent is booked to the wrong side, an account is posted against itself, one is unknown.\<close>

theorem trial_balance_never_balances_witness:
  "let ps = [\<lparr> ps_debit = ''1010'', ps_credit = ''1100'', ps_amount = fl (500099 / 100) \<rparr>,
             \<lparr> ps_debit = ''4010'', ps_credit = ''6020'', ps_amount = 700 \<rparr>,
             \<lparr> ps_debit = ''1600'', ps_credit = ''1600'', ps_amount = 42 \<rparr>,
             \<lparr> ps_debit = ''1010'', ps_credit = ''9999'', ps_amount = 2500000 \<rparr>];
       tb = verifyTrialBalance (fold post_step ps seedChartOfAccounts)
   in \<not> tb_isBalanced tb \<and> \<bar>tb_differenceUSD tb - 2500000\<bar> \<le> of_nat (length ps) / 16 + 19"
proof -
  let ?ps = "[\<lparr> ps_debit = ''1010'', ps_credit = ''1100'', ps_amount = fl (500099 / 100) \<rparr>,
             \<lparr> ps_debit = ''4010'', ps_credit = ''6020'', ps_amount = 700 \<rparr>,
             \<lparr> ps_debit = ''1600'', ps_credit = ''1600'', ps_amount = 42 \<rparr>,
             \<lparr> ps_debit = ''1010'', ps_credit = ''9999'', ps_amount = 2500000 \<rparr>]"
  have "\<bar>fl (500099 / 100)\<bar> \<le> (10 ^ 6 :: rat)" by code_simp
  then have "(\<Sum>p \<leftarrow> ?ps. \<bar>ps_amount p\<bar>) \<le> 10 ^ 14" by simp
  from trial_balance_never_balances [OF this] show ?thesis unfolding Let_def by simp
qed

end
