(* ===== verification/Receivables.thy ===== *)
theory Receivables
  imports Prelude Double
begin

text \<open>
  The receivable engines of the billing service: straight-line amortization of deferred revenue
  (recognition/DeferredRevenueAmortizationScheduleEngine.ts), reconciliation of bank statements
  (reconciliation/MultiBankStatementReconciliationEngine.ts), the dunning workflow
  (dunning/AutomatedDunningRecoveryService.ts) and credit underwriting
  (credit/CustomerCreditLimitUnderwritingEngine.ts). Amounts in dollars are doubles.
\<close>

section \<open>Deferred revenue\<close>

record ISubscriptionAmortizationEntry =
  am_periodMonthYear :: string
  am_beginningDeferredBalanceUSD :: rat
  am_recognizedRevenueUSD :: rat
  am_endingDeferredBalanceUSD :: rat

text \<open>The calendar month \<open>m\<close> months after the start; \<open>x % 12\<close> takes the sign of \<open>x\<close>.\<close>

definition js_mod12 :: "int \<Rightarrow> int" where
  "js_mod12 x = (if x < 0 then - ((- x) mod 12) else x mod 12)"

definition period_key :: "int \<Rightarrow> int \<Rightarrow> nat \<Rightarrow> string" where
  "period_key startYear startMonth m =
     (let actualYear = startYear + (startMonth - 1 + int m) div 12;
          actualMonth = js_mod12 (startMonth - 1 + int m) + 1
      in int_string actualYear @ ''-'' @ pad_start 2 (CHR ''0'') (int_string actualMonth))"

text \<open>The loop from month \<open>m\<close> on, with the balance still deferred; \<open>left\<close> months remain.\<close>

primrec amortize :: "int \<Rightarrow> int \<Rightarrow> rat \<Rightarrow> nat \<Rightarrow> nat \<Rightarrow> rat \<Rightarrow> ISubscriptionAmortizationEntry list" where
  "amortize startYear startMonth monthlyRate m 0 currentDeferred = []"
| "amortize startYear startMonth monthlyRate m (Suc left) currentDeferred =
     (let recognized = (if left = 0 then currentDeferred else min currentDeferred monthlyRate);
          endBalance = toFixed 2 (dsub currentDeferred recognized)
      in \<lparr> am_periodMonthYear = period_key startYear startMonth m,
           am_beginningDeferredBalanceUSD = toFixed 2 currentDeferred,
           am_recognizedRevenueUSD = toFixed 2 recognized,
           am_endingDeferredBalanceUSD = max 0 endBalance \<rparr>
         # amortize startYear startMonth monthlyRate (Suc m) left endBalance)"

definition generateStraightLineSchedule ::
  "rat \<Rightarrow> int \<Rightarrow> int \<Rightarrow> nat \<Rightarrow> ISubscriptionAmortizationEntry list" where
  "generateStraightLineSchedule contractTotalUSD startYear startMonth durationMonths =
     (let monthlyRate = toFixed 2 (ddiv contractTotalUSD (of_nat durationMonths))
      in amortize startYear startMonth monthlyRate 0 durationMonths contractTotalUSD)"

subsection \<open>The schedule in cents\<close>

text \<open>What is recognized each month of a balance of \<open>c\<close> cents at \<open>r\<close> cents a month.\<close>

primrec cents_schedule :: "int \<Rightarrow> nat \<Rightarrow> int \<Rightarrow> int list" where
  "cents_schedule r 0 c = []"
| "cents_schedule r (Suc left) c = (let k = (if left = 0 then c else min c r) in k # cents_schedule r left (c - k))"

lemma cents_schedule_length [simp]: "length (cents_schedule r n c) = n"
  by (induction n arbitrary: c) (simp_all add: Let_def)

lemma cents_schedule_sum: "0 < n \<Longrightarrow> sum_list (cents_schedule r n c) = c"
proof (induction n arbitrary: c)
  case (Suc n)
  then show ?case by (cases n) (simp_all add: Let_def)
qed simp

lemma cents_schedule_nonneg: "0 \<le> c \<Longrightarrow> 0 \<le> r \<Longrightarrow> list_all (\<lambda>k. 0 \<le> k) (cents_schedule r n c)"
  by (induction n arbitrary: c) (simp_all add: Let_def)

lemma min_cents: "min (cents c) (cents r) = cents (min c r)"
  using cents_mono [of c r] cents_mono [of r c] by (auto simp: min_def)

text \<open>The binary64 loop runs through the doubles nearest to the amounts of the cents schedule.\<close>

lemma amortize_cents:
  assumes "0 \<le> c" and "c \<le> 10 ^ 12" and "0 \<le> r" and "r \<le> 10 ^ 12"
  shows "map am_recognizedRevenueUSD (amortize y sm (cents r) m n (cents c)) = map cents (cents_schedule r n c) \<and>
    map am_beginningDeferredBalanceUSD (amortize y sm (cents r) m n (cents c)) =
      map (\<lambda>i. cents (c - sum_list (take i (cents_schedule r n c)))) [0..<n] \<and>
    map am_endingDeferredBalanceUSD (amortize y sm (cents r) m n (cents c)) =
      map (\<lambda>i. cents (c - sum_list (take (Suc i) (cents_schedule r n c)))) [0..<n] \<and>
    map am_periodMonthYear (amortize y sm (cents r) m n (cents c)) = map (\<lambda>i. period_key y sm (m + i)) [0..<n]"
  using assms
proof (induction n arbitrary: c m)
  case (Suc n)
  define k where "k = (if n = 0 then c else min c r)"
  have k: "0 \<le> k" "k \<le> c" using Suc.prems by (auto simp: k_def)
  have rec: "(if n = 0 then cents c else min (cents c) (cents r)) = cents k" by (simp add: k_def min_cents)
  have next_balance: "toFixed 2 (dsub (cents c) (cents k)) = cents (c - k)"
    using k Suc.prems by (intro toFixed_dsub_cents) simp_all
  have fixed: "toFixed 2 (cents c) = cents c" "toFixed 2 (cents k) = cents k" "max 0 (cents (c - k)) = cents (c - k)"
    using k Suc.prems by (auto intro!: toFixed_cents max_absorb2 cents_nonneg)
  have step: "amortize y sm (cents r) m (Suc n) (cents c) =
      \<lparr> am_periodMonthYear = period_key y sm m, am_beginningDeferredBalanceUSD = cents c,
        am_recognizedRevenueUSD = cents k, am_endingDeferredBalanceUSD = cents (c - k) \<rparr>
      # amortize y sm (cents r) (Suc m) n (cents (c - k))"
    by (simp only: amortize.simps Let_def rec next_balance fixed)
  have "0 \<le> c - k" "c - k \<le> 10 ^ 12" using k Suc.prems by simp_all
  note IH = Suc.IH [OF this Suc.prems(3,4), where m = "Suc m"]
  have sched: "cents_schedule r (Suc n) c = k # cents_schedule r n (c - k)" by (simp add: k_def Let_def)
  have upt: "[0..<Suc n] = 0 # map Suc [0..<n]" by (simp only: upt_conv_Cons map_Suc_upt)
  show ?case unfolding step sched upt using IH by (simp add: comp_def algebra_simps)
qed simp

text \<open>C16: deferred revenue is recognized to the cent. For a contract of a whole number of cents, not negative and up to
  ten billion dollars, over at least one month, the schedule has one entry per month, labelled with the
  consecutive calendar months from the start; the amounts recognized are the doubles of whole numbers of
  cents, none negative, that add up to exactly the contract, although the monthly rate is rounded; each
  entry starts with what is left of the contract after the entries before it and ends with what is left
  after its own amount, the last one with nothing.\<close>

theorem amortization_exact:
  assumes "0 \<le> c" and "c \<le> 10 ^ 12" and "0 < n"
  shows "\<exists>ks. let s = generateStraightLineSchedule (cents c) y sm n in
    length s = n \<and>
    map am_periodMonthYear s = map (period_key y sm) [0..<n] \<and>
    map am_recognizedRevenueUSD s = map cents ks \<and> list_all (\<lambda>k. 0 \<le> k) ks \<and> sum_list ks = c \<and>
    map am_beginningDeferredBalanceUSD s = map (\<lambda>i. cents (c - sum_list (take i ks))) [0..<n] \<and>
    map am_endingDeferredBalanceUSD s = map (\<lambda>i. cents (c - sum_list (take (Suc i) ks))) [0..<n] \<and>
    am_endingDeferredBalanceUSD (last s) = 0"
proof -
  define r where "r = Math_round (ddiv (cents c) (of_nat n) * 10 ^ 2)"
  have q: "0 \<le> cents c / of_nat n" "cents c / of_nat n \<le> cents c"
    using cents_nonneg [OF assms(1)] assms(3) by (simp_all add: divide_le_eq mult_le_cancel_left1)
  have "ddiv (cents c) (of_nat n) \<le> cents c"
    using fl_mono [OF q(2)] by (simp add: ddiv_def cents_def)
  then have "r \<le> Math_round (cents c * 10 ^ 2)" unfolding r_def by (intro Math_round_mono mult_right_mono) simp_all
  also have "\<bar>cents c - of_int c / 100\<bar> * 10 ^ 5 \<le> 1" using cents_error [of c] assms by simp
  then have "cents c * 10 ^ 2 + 1 / 2 < of_int c + 1" by (auto simp: abs_if split: if_splits)
  then have "Math_round (cents c * 10 ^ 2) \<le> c" unfolding Math_round_def floor_le_iff .
  finally have r: "0 \<le> r" "r \<le> c"
    using fl_nonneg [OF q(1)] by (simp_all add: r_def Math_round_def ddiv_def)
  have "\<not> ddiv (cents c) (of_nat n) < 0" using fl_nonneg [OF q(1)] by (simp add: ddiv_def)
  then have rate: "toFixed 2 (ddiv (cents c) (of_nat n)) = cents r"
    by (simp add: toFixed_def r_def cents_def)
  have s: "generateStraightLineSchedule (cents c) y sm n = amortize y sm (cents r) 0 n (cents c)"
    by (simp add: generateStraightLineSchedule_def rate)
  define ks where "ks = cents_schedule r n c"
  have "r \<le> 10 ^ 12" using r(2) assms(2) by simp
  note main = amortize_cents [OF assms(1,2) r(1) this, of y sm 0 n, folded ks_def]
  have len: "length (amortize y sm (cents r) 0 n (cents c)) = n"
    using main map_eq_imp_length_eq [of am_periodMonthYear "amortize y sm (cents r) 0 n (cents c)"] by fastforce
  have ks: "sum_list ks = c" "list_all (\<lambda>k. 0 \<le> k) ks" "length ks = n"
    using cents_schedule_sum [OF assms(3)] cents_schedule_nonneg [OF assms(1) r(1)] by (simp_all add: ks_def)
  have "am_endingDeferredBalanceUSD (last (amortize y sm (cents r) 0 n (cents c))) =
      last (map am_endingDeferredBalanceUSD (amortize y sm (cents r) 0 n (cents c)))"
    using len assms(3) by (subst last_map) auto
  also have "\<dots> = cents (c - sum_list (take (Suc (n - 1)) ks))"
    using main assms(3) by (cases n) simp_all
  finally have "am_endingDeferredBalanceUSD (last (amortize y sm (cents r) 0 n (cents c))) = 0"
    using assms(3) ks by simp
  with main len ks show ?thesis unfolding s Let_def by (intro exI [of _ ks]) simp
qed

text \<open>Ten dollars over three months from November: two thirds are rounded down, the last month takes the rest.\<close>

theorem amortization_exact_witness:
  "(\<exists>ks. map am_recognizedRevenueUSD (generateStraightLineSchedule (cents 1000) 2026 11 3) = map cents ks \<and> sum_list ks = 1000) \<and>
    map am_periodMonthYear (generateStraightLineSchedule (cents 1000) 2026 11 3) = [''2026-11'', ''2026-12'', ''2027-01''] \<and>
    map am_recognizedRevenueUSD (generateStraightLineSchedule (cents 1000) 2026 11 3) = [cents 333, cents 333, cents 334]"
proof (intro conjI)
  show "\<exists>ks. map am_recognizedRevenueUSD (generateStraightLineSchedule (cents 1000) 2026 11 3) = map cents ks \<and> sum_list ks = 1000"
    using amortization_exact [of 1000 3 2026 11] by (auto simp: Let_def)
  have rate: "toFixed 2 (ddiv (cents 1000) (of_nat 3)) = cents 333" by code_simp
  have sched: "generateStraightLineSchedule (cents 1000) 2026 11 3 = amortize 2026 11 (cents 333) 0 3 (cents 1000)"
    unfolding generateStraightLineSchedule_def Let_def rate ..
  have keys: "map (period_key 2026 11) [0, Suc 0, Suc (Suc 0)] = [''2026-11'', ''2026-12'', ''2027-01'']"
    by (simp add: period_key_def js_mod12_def int_string_def dec_string_def base_string.simps digit_char_def
        pad_start_def Let_def char_of_def bit_0)
  show "map am_periodMonthYear (generateStraightLineSchedule (cents 1000) 2026 11 3) = [''2026-11'', ''2026-12'', ''2027-01'']"
    using amortization_exact [of 1000 3 2026 11] keys by (auto simp: Let_def upt_rec)
  show "map am_recognizedRevenueUSD (generateStraightLineSchedule (cents 1000) 2026 11 3) = [cents 333, cents 333, cents 334]"
    using amortize_cents [of 1000 333 2026 11 0 3] unfolding sched by (simp add: numeral_3_eq_3)
qed

section \<open>Bank statements\<close>

record IBankStatementLine =
  bs_statementLineId :: string
  bs_bankAccountNumber :: string
  bs_bookingDate :: instant
  bs_amountUSD :: rat
  bs_narrativeText :: string
  bs_referenceNumber :: string

record IUnsettledInvoice =
  ui_invoiceId :: string
  ui_customerName :: string
  ui_outstandingBalanceUSD :: rat
  ui_dueDate :: instant

record matched_pair =
  mp_statementId :: string
  mp_invoiceId :: string
  mp_amount :: rat

definition line_matches :: "IBankStatementLine \<Rightarrow> IUnsettledInvoice \<Rightarrow> bool" where
  "line_matches l iv \<longleftrightarrow> ui_outstandingBalanceUSD iv = bs_amountUSD l \<or>
     str_includes (bs_narrativeText l) (ui_invoiceId iv) \<or> bs_referenceNumber l = ui_invoiceId iv"

definition reconcile_line ::
  "IUnsettledInvoice list \<Rightarrow> IBankStatementLine \<Rightarrow> matched_pair list \<times> IBankStatementLine list \<Rightarrow>
    matched_pair list \<times> IBankStatementLine list" where
  "reconcile_line openInvoices l acc =
     (case find (line_matches l) openInvoices of
        Some iv \<Rightarrow> (fst acc @ [\<lparr> mp_statementId = bs_statementLineId l, mp_invoiceId = ui_invoiceId iv,
                                  mp_amount = bs_amountUSD l \<rparr>], snd acc)
      | None \<Rightarrow> (fst acc, snd acc @ [l]))"

definition reconcileStatements ::
  "IBankStatementLine list \<Rightarrow> IUnsettledInvoice list \<Rightarrow> matched_pair list \<times> IBankStatementLine list" where
  "reconcileStatements statementLines openInvoices = fold (reconcile_line openInvoices) statementLines ([], [])"

text \<open>Every line is matched with the first invoice it fits, or reported; the order of the lines is kept.\<close>

definition matched_invoice :: "IUnsettledInvoice list \<Rightarrow> IBankStatementLine \<Rightarrow> matched_pair option" where
  "matched_invoice invs l = map_option (\<lambda>iv. \<lparr> mp_statementId = bs_statementLineId l,
     mp_invoiceId = ui_invoiceId iv, mp_amount = bs_amountUSD l \<rparr>) (find (line_matches l) invs)"

lemma reconcile_closed_form:
  "reconcileStatements ls invs = (List.map_filter (matched_invoice invs) ls, filter (\<lambda>l. \<not> list_ex (line_matches l) invs) ls)"
proof -
  have none: "find (line_matches l) invs = None \<longleftrightarrow> \<not> list_ex (line_matches l) invs" for l
    by (auto simp: find_None_iff list_ex_iff)
  have step: "reconcile_line invs l acc = (fst acc @ List.map_filter (matched_invoice invs) [l],
      snd acc @ filter (\<lambda>l. \<not> list_ex (line_matches l) invs) [l])" for l acc
    using none [of l] by (cases "find (line_matches l) invs")
      (simp_all add: reconcile_line_def matched_invoice_def map_filter_simps)
  have "fold (reconcile_line invs) ls acc =
      (fst acc @ List.map_filter (matched_invoice invs) ls, snd acc @ filter (\<lambda>l. \<not> list_ex (line_matches l) invs) ls)" for acc
  proof (induction ls arbitrary: acc)
    case (Cons l ls)
    have "fold (reconcile_line invs) (l # ls) acc = fold (reconcile_line invs) ls (reconcile_line invs l acc)" by simp
    also note Cons.IH [of "reconcile_line invs l acc"]
    finally show ?case by (rule trans) (simp add: step [of l acc] map_filter_simps split: option.split)
  qed (simp add: map_filter_simps)
  then show ?thesis by (simp add: reconcileStatements_def)
qed

text \<open>An invoice stays open after a match: a second payment of the same amount settles it again, and not the
  other invoice over that amount.\<close>

lemma invoice_matched_twice:
  "let line = (\<lambda>i. \<lparr> bs_statementLineId = i, bs_bankAccountNumber = [], bs_bookingDate = 0, bs_amountUSD = 250,
                     bs_narrativeText = ''transfer'', bs_referenceNumber = [] \<rparr>);
       iv = (\<lambda>i. \<lparr> ui_invoiceId = i, ui_customerName = [], ui_outstandingBalanceUSD = 250, ui_dueDate = 0 \<rparr>)
   in map mp_invoiceId (fst (reconcileStatements [line ''L1'', line ''L2''] [iv ''INV-1'', iv ''INV-2''])) = [''INV-1'', ''INV-1'']"
  by (simp add: reconcile_closed_form matched_invoice_def line_matches_def map_filter_simps)

section \<open>Dunning\<close>

datatype dunning_status = CURRENT | SOFT_DUNNING | HARD_DUNNING | DEFAULTED | RECOVERED

record IDunningWorkflowState =
  dn_invoiceId :: string
  dn_customerId :: string
  dn_daysOverdue :: int
  dn_retryAttemptCount :: nat
  dn_nextRetryDate :: "instant option"
  dn_status :: dunning_status

type_synonym dunning_workflows = "(string, IDunningWorkflowState) jsmap"

definition processOverdueInvoice ::
  "instant \<Rightarrow> string \<Rightarrow> string \<Rightarrow> int \<Rightarrow> dunning_workflows \<Rightarrow> dunning_workflows \<times> IDunningWorkflowState" where
  "processOverdueInvoice now invoiceId customerId daysOverdue m =
     (let found = (case jm_get m invoiceId of
            Some s \<Rightarrow> s
          | None \<Rightarrow> \<lparr> dn_invoiceId = invoiceId, dn_customerId = customerId, dn_daysOverdue = daysOverdue,
                      dn_retryAttemptCount = 0, dn_nextRetryDate = None, dn_status = CURRENT \<rparr>);
          s = found\<lparr> dn_daysOverdue := daysOverdue \<rparr>;
          s' = (if 60 < daysOverdue then s\<lparr> dn_status := DEFAULTED \<rparr>
                else if 30 < daysOverdue then s\<lparr> dn_status := HARD_DUNNING,
                  dn_retryAttemptCount := Suc (dn_retryAttemptCount s), dn_nextRetryDate := Some (now + 3 * 86400000) \<rparr>
                else if 7 < daysOverdue then s\<lparr> dn_status := SOFT_DUNNING,
                  dn_retryAttemptCount := Suc (dn_retryAttemptCount s), dn_nextRetryDate := Some (now + 5 * 86400000) \<rparr>
                else s)
      in (jm_set invoiceId s' m, s'))"

text \<open>After any calls for one invoice the status is that of the last call more than a week overdue, and the
  retries are counted.\<close>

definition dunning_run :: "string \<Rightarrow> string \<Rightarrow> (instant \<times> int) list \<Rightarrow> dunning_workflows" where
  "dunning_run i c calls = fold (\<lambda>(now, days) m. fst (processOverdueInvoice now i c days m)) calls []"

definition stage :: "int \<Rightarrow> dunning_status" where
  "stage days = (if 60 < days then DEFAULTED else if 30 < days then HARD_DUNNING else SOFT_DUNNING)"

definition dunning_stage :: "int list \<Rightarrow> dunning_status" where
  "dunning_stage days = (if days = [] then CURRENT else stage (last days))"

lemma dunning_tracks:
  assumes "calls \<noteq> []"
  shows "\<exists>s. jm_get (dunning_run i c calls) i = Some s \<and> dn_daysOverdue s = snd (last calls) \<and>
    dn_status s = dunning_stage (filter (\<lambda>d. 7 < d) (map snd calls)) \<and>
    dn_retryAttemptCount s = length (filter (\<lambda>d. 7 < d \<and> d \<le> 60) (map snd calls))"
  using assms
proof (induction calls rule: rev_induct)
  case (snoc call calls)
  obtain now d where call: "call = (now, d)" by (cases call)
  have run: "dunning_run i c (calls @ [call]) = fst (processOverdueInvoice now i c d (dunning_run i c calls))"
    by (simp add: dunning_run_def call)
  show ?case
  proof (cases "calls = []")
    case True
    then show ?thesis unfolding run by (simp add: call dunning_run_def processOverdueInvoice_def Let_def stage_def dunning_stage_def)
  next
    case False
    from snoc.IH [OF this] obtain s where s: "jm_get (dunning_run i c calls) i = Some s"
      "dn_status s = dunning_stage (filter (\<lambda>d. 7 < d) (map snd calls))"
      "dn_retryAttemptCount s = length (filter (\<lambda>d. 7 < d \<and> d \<le> 60) (map snd calls))" by auto
    show ?thesis unfolding run
      by (simp add: call processOverdueInvoice_def Let_def s stage_def dunning_stage_def)
  qed
qed simp

section \<open>Credit underwriting\<close>

record ICustomerCreditProfile =
  cr_customerId :: string
  cr_companyLegalName :: string
  cr_paydexScore :: rat
  cr_annualRevenueUSD :: rat
  cr_yearsInBusiness :: rat
  cr_pastDueInvoiceCount :: rat
  cr_averageDaysToPay :: rat
  cr_existingCreditLimitUSD :: rat
  cr_currentOutstandingBalanceUSD :: rat

datatype credit_grade = AAA | AA | A | BBB | HIGH_RISK

record credit_decision =
  cd_recommendedCreditLimitUSD :: rat
  cd_creditRiskGrade :: credit_grade
  cd_approved :: bool

definition credit_score :: "ICustomerCreditProfile \<Rightarrow> rat" where
  "credit_score p =
     dadd (dadd (dadd (dmul (cr_paydexScore p) (fl (40 / 100)))
       (min 25 (dmul (cr_yearsInBusiness p) (5 / 2))))
       (if cr_pastDueInvoiceCount p = 0 then 20 else max 0 (dsub 20 (dmul (cr_pastDueInvoiceCount p) 5))))
       (if cr_averageDaysToPay p \<le> 30 then 15 else max 0 (dsub 15 (dsub (cr_averageDaysToPay p) 30)))"

definition grade_of_score :: "rat \<Rightarrow> credit_grade \<times> rat" where
  "grade_of_score score =
     (if 85 \<le> score then (AAA, fl (8 / 100))
      else if 70 \<le> score then (AA, fl (5 / 100))
      else if 55 \<le> score then (A, fl (3 / 100))
      else if 40 \<le> score then (BBB, fl (15 / 1000))
      else (HIGH_RISK, fl (2 / 100)))"

definition evaluateCreditLimit :: "ICustomerCreditProfile \<Rightarrow> credit_decision" where
  "evaluateCreditLimit p =
     (let (riskGrade, multiplier) = grade_of_score (credit_score p);
          calculatedLimit = toFixed 0 (dmul (cr_annualRevenueUSD p) multiplier)
      in \<lparr> cd_recommendedCreditLimitUSD = min 1000000 (max 10000 calculatedLimit),
           cd_creditRiskGrade = riskGrade, cd_approved = (riskGrade \<noteq> HIGH_RISK) \<rparr>)"

text \<open>The recommendation lies between ten thousand and a million dollars, also for a customer who is not
  approved; approval is a score of forty.\<close>

lemma credit_limit_range:
  "10000 \<le> cd_recommendedCreditLimitUSD (evaluateCreditLimit p) \<and>
    cd_recommendedCreditLimitUSD (evaluateCreditLimit p) \<le> 1000000 \<and>
    (cd_approved (evaluateCreditLimit p) \<longleftrightarrow> 40 \<le> credit_score p)"
  by (simp add: evaluateCreditLimit_def grade_of_score_def Let_def)

text \<open>The share of the revenue for the rejected grade is above the one for the lowest approved grade, so of
  two customers of the same revenue the rejected one gets the limit at least as high.\<close>

lemma rejected_above_approved:
  assumes "cr_annualRevenueUSD p = cr_annualRevenueUSD q" and "0 \<le> cr_annualRevenueUSD p"
    and "cd_creditRiskGrade (evaluateCreditLimit p) = HIGH_RISK" and "cd_creditRiskGrade (evaluateCreditLimit q) = BBB"
  shows "cd_recommendedCreditLimitUSD (evaluateCreditLimit q) \<le> cd_recommendedCreditLimitUSD (evaluateCreditLimit p)"
proof -
  have m: "snd (grade_of_score (credit_score p)) = fl (2 / 100)" "snd (grade_of_score (credit_score q)) = fl (15 / 1000)"
    using assms(3,4) by (auto simp: evaluateCreditLimit_def grade_of_score_def Let_def split: if_splits)
  let ?r = "cr_annualRevenueUSD q"
  have less: "0 \<le> fl (15 / 1000)" "fl (15 / 1000) \<le> fl (2 / 100)" by (simp_all add: fl_nonneg fl_mono)
  then have "dmul ?r (fl (15 / 1000)) \<le> dmul ?r (fl (2 / 100))"
    using assms(1,2) unfolding dmul_def by (intro fl_mono mult_left_mono) simp_all
  moreover have "0 \<le> dmul ?r (fl (15 / 1000))" using assms(1,2) less by (simp add: dmul_def fl_nonneg)
  ultimately have "toFixed 0 (dmul ?r (fl (15 / 1000))) \<le> toFixed 0 (dmul ?r (fl (2 / 100)))" by (rule toFixed_mono [rotated])
  then show ?thesis using m assms(1) by (simp add: evaluateCreditLimit_def Let_def split_def min_def max_def)
qed

end
