(* ===== verification/Carrier_Selection.thy ===== *)
theory Carrier_Selection
  imports Prelude Double
begin

text \<open>
  The dispatch engines of the logistics service: the choice of a carrier by a score of cost and
  reliability (dispatch/DynamicCarrierSelectionEngine.ts), the consolidation of small shipments into
  trailers (dispatch/DynamicFreightConsolidationMatrix.ts), the road and rail alternatives of a lane
  (routing/MultiModalRailAndTruckIntermodalRoutePlanner.ts) and the tolls of a route
  (toll/InterstateHighwayTollCostEstimator.ts). Rates, distances and weights are doubles.
\<close>

section \<open>Carriers\<close>

record ICarrierContract =
  cc_carrierCode :: string
  cc_carrierName :: string
  cc_baseRatePerMileUSD :: rat
  cc_minimumFreightChargeUSD :: rat
  cc_fuelSurchargeIndexPct :: rat
  cc_historicalOnTimeDeliveryPct :: rat
  cc_supportsColdChain :: bool
  cc_supportsHazmat :: bool

type_synonym carriers = "(string, ICarrierContract) jsmap"

definition registerCarrier :: "ICarrierContract \<Rightarrow> carriers \<Rightarrow> carriers" where
  "registerCarrier c m = jm_set (cc_carrierCode c) c m"

definition standard_carriers :: carriers where
  "standard_carriers = fold registerCarrier
     [\<lparr> cc_carrierCode = ''FEDEX_FREIGHT'', cc_carrierName = ''FedEx Freight Priority'',
        cc_baseRatePerMileUSD = fl (320 / 100), cc_minimumFreightChargeUSD = 150,
        cc_fuelSurchargeIndexPct = 145 / 10, cc_historicalOnTimeDeliveryPct = fl (974 / 10),
        cc_supportsColdChain = True, cc_supportsHazmat = True \<rparr>,
      \<lparr> cc_carrierCode = ''OLD_DOMINION'', cc_carrierName = ''Old Dominion Freight Line'',
        cc_baseRatePerMileUSD = fl (285 / 100), cc_minimumFreightChargeUSD = 125,
        cc_fuelSurchargeIndexPct = 13, cc_historicalOnTimeDeliveryPct = fl (988 / 10),
        cc_supportsColdChain = False, cc_supportsHazmat = True \<rparr>,
      \<lparr> cc_carrierCode = ''ESTES_EXPRESS'', cc_carrierName = ''Estes Express Lines'',
        cc_baseRatePerMileUSD = fl (265 / 100), cc_minimumFreightChargeUSD = 110,
        cc_fuelSurchargeIndexPct = 125 / 10, cc_historicalOnTimeDeliveryPct = fl (942 / 10),
        cc_supportsColdChain = False, cc_supportsHazmat = False \<rparr>] []"

definition carrier_eligible :: "bool \<Rightarrow> bool \<Rightarrow> ICarrierContract \<Rightarrow> bool" where
  "carrier_eligible requiresColdChain requiresHazmat c \<longleftrightarrow>
     \<not> (requiresColdChain \<and> \<not> cc_supportsColdChain c) \<and> \<not> (requiresHazmat \<and> \<not> cc_supportsHazmat c)"

definition carrier_cost :: "rat \<Rightarrow> ICarrierContract \<Rightarrow> rat" where
  "carrier_cost distanceMiles c =
     (let rawFreight = max (cc_minimumFreightChargeUSD c) (dmul distanceMiles (cc_baseRatePerMileUSD c));
          fuelFee = dmul rawFreight (ddiv (cc_fuelSurchargeIndexPct c) 100)
      in toFixed 2 (dadd rawFreight fuelFee))"

definition carrier_score :: "rat \<Rightarrow> bool \<Rightarrow> ICarrierContract \<Rightarrow> rat" where
  "carrier_score distanceMiles prioritizeSpeedOverCost c =
     (let score = dsub (dmul (cc_historicalOnTimeDeliveryPct c) 2) (ddiv (carrier_cost distanceMiles c) 20)
      in if prioritizeSpeedOverCost then dadd score (dmul (cc_historicalOnTimeDeliveryPct c) (3 / 2)) else score)"

text \<open>The loop's variables; \<open>None\<close> is the initial score of \<open>-Infinity\<close>.\<close>

record best_carrier =
  best_contract :: ICarrierContract
  best_score :: "rat option"
  best_cost :: rat

definition consider_carrier :: "rat \<Rightarrow> bool \<Rightarrow> ICarrierContract \<Rightarrow> best_carrier \<Rightarrow> best_carrier" where
  "consider_carrier distanceMiles speed c b =
     (let score = carrier_score distanceMiles speed c
      in if (case best_score b of None \<Rightarrow> True | Some s \<Rightarrow> s < score)
         then \<lparr> best_contract = c, best_score = Some score, best_cost = carrier_cost distanceMiles c \<rparr> else b)"

record carrier_choice =
  ch_selectedCarrier :: ICarrierContract
  ch_totalEstimatedCostUSD :: rat
  ch_score :: rat

definition selectOptimalCarrier :: "rat \<Rightarrow> bool \<Rightarrow> bool \<Rightarrow> bool \<Rightarrow> carriers \<Rightarrow> string + carrier_choice" where
  "selectOptimalCarrier distanceMiles requiresColdChain requiresHazmat speed m =
     (case filter (carrier_eligible requiresColdChain requiresHazmat) (jm_values m) of
        [] \<Rightarrow> Inl ''No eligible carriers match the requested freight constraints''
      | c # cs \<Rightarrow>
          let b = fold (consider_carrier distanceMiles speed) (c # cs)
                    \<lparr> best_contract = c, best_score = None, best_cost = 0 \<rparr>
          in Inr \<lparr> ch_selectedCarrier = best_contract b, ch_totalEstimatedCostUSD = best_cost b,
                   ch_score = toFixed 2 (case best_score b of None \<Rightarrow> 0 | Some s \<Rightarrow> s) \<rparr>)"

text \<open>The loop keeps the first of the best scores.\<close>

definition first_best :: "('a \<Rightarrow> 'b :: linorder) \<Rightarrow> 'a list \<Rightarrow> 'a \<Rightarrow> bool" where
  "first_best f xs x \<longleftrightarrow> (\<exists>us vs. xs = us @ x # vs \<and> list_all (\<lambda>u. f u < f x) us \<and> list_all (\<lambda>v. f v \<le> f x) vs)"

lemma consider_carriers:
  assumes "first_best (carrier_score d speed) seen (best_contract b)"
    and "best_score b = Some (carrier_score d speed (best_contract b))" and "best_cost b = carrier_cost d (best_contract b)"
  shows "let r = fold (consider_carrier d speed) cs b in
    first_best (carrier_score d speed) (seen @ cs) (best_contract r) \<and>
    best_score r = Some (carrier_score d speed (best_contract r)) \<and> best_cost r = carrier_cost d (best_contract r)"
  using assms
proof (induction cs arbitrary: seen b)
  case (Cons c cs)
  let ?b = "consider_carrier d speed c b"
  obtain us vs where u: "seen = us @ best_contract b # vs"
    "list_all (\<lambda>u. carrier_score d speed u < carrier_score d speed (best_contract b)) us"
    "list_all (\<lambda>v. carrier_score d speed v \<le> carrier_score d speed (best_contract b)) vs"
    using Cons.prems(1) unfolding first_best_def by blast
  have "first_best (carrier_score d speed) (seen @ [c]) (best_contract ?b) \<and>
    best_score ?b = Some (carrier_score d speed (best_contract ?b)) \<and> best_cost ?b = carrier_cost d (best_contract ?b)"
  proof (cases "carrier_score d speed (best_contract b) < carrier_score d speed c")
    case True
    with u have "list_all (\<lambda>u. carrier_score d speed u < carrier_score d speed c) seen"
      by (auto simp: list_all_iff)
    then have "first_best (carrier_score d speed) (seen @ [c]) c" unfolding first_best_def by (intro exI [of _ seen] exI [of _ "[]"]) simp
    with True Cons.prems(2) show ?thesis by (simp add: consider_carrier_def Let_def)
  next
    case False
    with u have "first_best (carrier_score d speed) (seen @ [c]) (best_contract b)"
      unfolding first_best_def by (intro exI [of _ us] exI [of _ "vs @ [c]"]) simp
    with False Cons.prems show ?thesis by (simp add: consider_carrier_def Let_def)
  qed
  then show ?case using Cons.IH [of "seen @ [c]" ?b] by simp
qed simp

text \<open>The best carrier is selected. A request no contract can serve is refused; otherwise the selected
  carrier serves it, no other eligible carrier has a higher score and every eligible one registered before
  it a lower one; the quoted cost is that of the selected carrier, and the score its score rounded.\<close>

theorem carrier_selection_optimal:
  "let eligible = filter (carrier_eligible cold hazmat) (jm_values m) in
    case selectOptimalCarrier d cold hazmat speed m of
      Inl _ \<Rightarrow> eligible = []
    | Inr r \<Rightarrow> first_best (carrier_score d speed) eligible (ch_selectedCarrier r) \<and>
        ch_totalEstimatedCostUSD r = carrier_cost d (ch_selectedCarrier r) \<and>
        ch_score r = toFixed 2 (carrier_score d speed (ch_selectedCarrier r))"
proof (cases "filter (carrier_eligible cold hazmat) (jm_values m)")
  case Nil
  then show ?thesis by (simp add: selectOptimalCarrier_def)
next
  case (Cons c cs)
  let ?b = "\<lparr> best_contract = c, best_score = Some (carrier_score d speed c), best_cost = carrier_cost d c \<rparr>"
  have "first_best (carrier_score d speed) [c] (best_contract ?b)" by (simp add: first_best_def) (rule exI [of _ "[]"], simp)
  from consider_carriers [OF this, of cs] show ?thesis
    by (simp add: Cons selectOptimalCarrier_def Let_def consider_carrier_def [of d speed c "\<lparr> best_contract = c, best_score = None, best_cost = 0 \<rparr>"])
qed

section \<open>Consolidation into trailers\<close>

record ILtlConsolidationCandidate =
  lt_shipmentId :: string
  lt_originZip :: string
  lt_destinationZip :: string
  lt_palletCount :: int
  lt_weightLbs :: rat
  lt_maxDeliveryDate :: instant

record consolidated_truck =
  ct_consolidatedTruckId :: string
  ct_shipmentIds :: "string list"
  ct_totalPallets :: int
  ct_totalWeightLbs :: rat

definition new_truck :: "nat \<Rightarrow> ILtlConsolidationCandidate \<Rightarrow> consolidated_truck" where
  "new_truck n cand =
     \<lparr> ct_consolidatedTruckId = ''FTL-'' @ pad_start 3 (CHR ''0'') (dec_string (n + 1)),
       ct_shipmentIds = [lt_shipmentId cand], ct_totalPallets = lt_palletCount cand,
       ct_totalWeightLbs = lt_weightLbs cand \<rparr>"

definition load_truck :: "ILtlConsolidationCandidate \<Rightarrow> consolidated_truck \<Rightarrow> consolidated_truck" where
  "load_truck cand t =
     t\<lparr> ct_shipmentIds := ct_shipmentIds t @ [lt_shipmentId cand],
        ct_totalPallets := ct_totalPallets t + lt_palletCount cand,
        ct_totalWeightLbs := dadd (ct_totalWeightLbs t) (lt_weightLbs cand) \<rparr>"

definition truck_full :: "ILtlConsolidationCandidate \<Rightarrow> consolidated_truck \<Rightarrow> bool" where
  "truck_full cand t \<longleftrightarrow> 26 < ct_totalPallets t + lt_palletCount cand \<or>
     45000 < dadd (ct_totalWeightLbs t) (lt_weightLbs cand)"

text \<open>\<open>currentTruck\<close> is the last truck of \<open>consolidated\<close>, the same object.\<close>

definition consolidate :: "ILtlConsolidationCandidate \<Rightarrow> consolidated_truck list \<Rightarrow> consolidated_truck list" where
  "consolidate cand trucks =
     (if trucks = [] \<or> truck_full cand (last trucks) then trucks @ [new_truck (length trucks) cand]
      else butlast trucks @ [load_truck cand (last trucks)])"

definition consolidateLtlShipments :: "ILtlConsolidationCandidate list \<Rightarrow> consolidated_truck list" where
  "consolidateLtlShipments candidates = fold consolidate candidates []"

text \<open>The load of a trailer as the run of shipments it carries.\<close>

definition load_pallets :: "ILtlConsolidationCandidate list \<Rightarrow> int" where
  "load_pallets g = (\<Sum>c \<leftarrow> g. lt_palletCount c)"

definition load_weight :: "ILtlConsolidationCandidate list \<Rightarrow> rat" where
  "load_weight g = foldl dadd (lt_weightLbs (hd g)) (map lt_weightLbs (tl g))"

definition fits_trailer :: "ILtlConsolidationCandidate list \<Rightarrow> bool" where
  "fits_trailer g \<longleftrightarrow> load_pallets g \<le> 26 \<and> load_weight g \<le> 45000"

definition truck_of :: "nat \<Rightarrow> ILtlConsolidationCandidate list \<Rightarrow> consolidated_truck" where
  "truck_of n g = \<lparr> ct_consolidatedTruckId = ''FTL-'' @ pad_start 3 (CHR ''0'') (dec_string (n + 1)),
     ct_shipmentIds = map lt_shipmentId g, ct_totalPallets = load_pallets g, ct_totalWeightLbs = load_weight g \<rparr>"

definition trailer_plan :: "ILtlConsolidationCandidate list list \<Rightarrow> bool" where
  "trailer_plan gs \<longleftrightarrow> list_all (\<lambda>g. length g = 1 \<or> (g \<noteq> [] \<and> fits_trailer g)) gs \<and>
     successively (\<lambda>g h. \<not> fits_trailer (g @ [hd h])) gs"

lemma load_snoc:
  "g \<noteq> [] \<Longrightarrow> load_pallets (g @ [c]) = load_pallets g + lt_palletCount c \<and>
    load_weight (g @ [c]) = dadd (load_weight g) (lt_weightLbs c)"
  by (cases g) (simp_all add: load_pallets_def load_weight_def)

lemma truck_of_new: "new_truck n c = truck_of n [c]"
  by (simp add: new_truck_def truck_of_def load_pallets_def load_weight_def)

lemma truck_of_load: "g \<noteq> [] \<Longrightarrow> load_truck c (truck_of n g) = truck_of n (g @ [c])"
  by (simp add: load_truck_def truck_of_def load_snoc)

lemma truck_full_iff: "g \<noteq> [] \<Longrightarrow> truck_full c (truck_of n g) \<longleftrightarrow> \<not> fits_trailer (g @ [c])"
  by (auto simp: truck_full_def truck_of_def fits_trailer_def load_snoc)

text \<open>Shipments are consolidated greedily within the limits. The trucks are the runs of a division of the
  shipments, in their order: each truck carries one run, with its pallets and the binary64 sum of its
  weights; a truck of two or more shipments stays within 26 pallets and 45,000 pounds; and no truck was
  opened for a shipment that still fitted the truck before. A single shipment beyond the limits gets a
  truck all the same, and the lanes of the shipments are not looked at.\<close>

theorem consolidation_next_fit:
  "\<exists>gs. concat gs = candidates \<and> trailer_plan gs \<and>
    consolidateLtlShipments candidates = map (\<lambda>i. truck_of i (gs ! i)) [0..<length gs]"
proof (induction candidates rule: rev_induct)
  case Nil
  then show ?case by (intro exI [of _ "[]"]) (simp add: consolidateLtlShipments_def trailer_plan_def)
next
  case (snoc c cs)
  then obtain gs where gs: "concat gs = cs" "trailer_plan gs"
    "consolidateLtlShipments cs = map (\<lambda>i. truck_of i (gs ! i)) [0..<length gs]" by blast
  have step: "consolidateLtlShipments (cs @ [c]) = consolidate c (map (\<lambda>i. truck_of i (gs ! i)) [0..<length gs])"
    using gs(3) by (simp add: consolidateLtlShipments_def)
  show ?case
  proof (cases gs rule: rev_cases)
    case Nil
    with gs step show ?thesis
      by (intro exI [of _ "[[c]]"]) (simp add: consolidate_def truck_of_new trailer_plan_def)
  next
    case (snoc hs g)
    have g: "g \<noteq> []" using gs(2) by (auto simp: trailer_plan_def snoc)
    have trucks: "map (\<lambda>i. truck_of i (gs ! i)) [0..<length gs] =
        map (\<lambda>i. truck_of i (hs ! i)) [0..<length hs] @ [truck_of (length hs) g]"
      by (simp add: snoc nth_append)
    show ?thesis
    proof (cases "fits_trailer (g @ [c])")
      case True
      have hd_g: "hd (g @ [c]) = hd g" using g by simp
      have "trailer_plan (hs @ [g @ [c]])"
        using gs(2) True g unfolding snoc trailer_plan_def successively_append_iff
        by (auto simp: hd_g simp del: hd_append2 split: if_splits)
      moreover have "consolidateLtlShipments (cs @ [c]) =
          map (\<lambda>i. truck_of i ((hs @ [g @ [c]]) ! i)) [0..<length (hs @ [g @ [c]])]"
        using True by (simp add: step trucks consolidate_def truck_full_iff [OF g] truck_of_load [OF g] nth_append)
      ultimately show ?thesis using gs(1) by (intro exI [of _ "hs @ [g @ [c]]"]) (simp add: snoc)
    next
      case False
      have "trailer_plan (gs @ [[c]])"
        using gs(2) False unfolding trailer_plan_def successively_append_iff by (simp add: snoc)
      moreover have "consolidateLtlShipments (cs @ [c]) =
          map (\<lambda>i. truck_of i ((gs @ [[c]]) ! i)) [0..<length (gs @ [[c]])]"
        using False by (simp add: step trucks consolidate_def truck_full_iff [OF g] truck_of_new nth_append)
          (simp add: snoc nth_append)
      ultimately show ?thesis using gs(1) by (intro exI [of _ "gs @ [[c]]"]) simp
    qed
  qed
qed

section \<open>Road and rail\<close>

datatype haul_mode = TRUCK_ALL_HIGHWAY | INTERMODAL_RAIL_AND_DRAYAGE

record IIntermodalOption =
  im_mode :: haul_mode
  im_originDrayageMiles :: rat
  im_railHaulMiles :: rat
  im_destinationDrayageMiles :: rat
  im_totalTransitHours :: rat
  im_totalFreightCostUSD :: rat
  im_co2EmissionsKg :: rat
  im_railRampOriginCode :: "string option"
  im_railRampDestCode :: "string option"

definition highwayOption :: "rat \<Rightarrow> IIntermodalOption" where
  "highwayOption miles =
     \<lparr> im_mode = TRUCK_ALL_HIGHWAY, im_originDrayageMiles = 0, im_railHaulMiles = 0, im_destinationDrayageMiles = 0,
       im_totalTransitHours = toFixed 1 (dmul (ddiv miles 55) (fl (13 / 10))),
       im_totalFreightCostUSD = toFixed 2 (max 350 (dmul miles (11 / 4))),
       im_co2EmissionsKg = toFixed 1 (dmul miles (fl (162 / 100))),
       im_railRampOriginCode = None, im_railRampDestCode = None \<rparr>"

definition railOption :: "rat \<Rightarrow> IIntermodalOption" where
  "railOption miles =
     (let originDray = 45; destDray = 60;
          railMiles = max 0 (dsub (dsub miles originDray) destDray);
          drayMiles = dadd originDray destDray
      in \<lparr> im_mode = INTERMODAL_RAIL_AND_DRAYAGE, im_originDrayageMiles = originDray, im_railHaulMiles = railMiles,
           im_destinationDrayageMiles = destDray,
           im_totalTransitHours = toFixed 1 (dadd (ddiv railMiles 30) 24),
           im_totalFreightCostUSD =
             toFixed 2 (dadd (dadd (dmul railMiles (fl (135 / 100))) (dmul drayMiles (7 / 2))) 180),
           im_co2EmissionsKg = toFixed 1 (dadd (dmul railMiles (fl (42 / 100))) (dmul drayMiles (fl (162 / 100)))),
           im_railRampOriginCode = Some ''CHI_CORWITH_RAMP'', im_railRampDestCode = Some ''LAX_HOBART_YARD'' \<rparr>)"

definition planRoute :: "rat \<Rightarrow> rat \<Rightarrow> IIntermodalOption \<times> IIntermodalOption \<times> haul_mode" where
  "planRoute totalDistanceMiles cargoWeightLbs =
     (highwayOption totalDistanceMiles, railOption totalDistanceMiles,
      if 750 \<le> totalDistanceMiles then INTERMODAL_RAIL_AND_DRAYAGE else TRUCK_ALL_HIGHWAY)"

text \<open>The costs of the options do not decide: at 500 miles rail is cheaper, and the road is recommended.\<close>

lemma recommendation_ignores_cost:
  "let (road, rail, recommended) = planRoute 500 40000 in
    im_totalFreightCostUSD rail < im_totalFreightCostUSD road \<and> recommended = TRUCK_ALL_HIGHWAY"
proof -
  have exact: "fl 455 = 455" "fl 395 = 395" "fl 105 = 105" "fl (735 / 2) = 735 / 2" "fl 1375 = 1375" by code_simp+
  have rail: "toFixed 2 (dadd (dadd (dmul 395 (fl (135 / 100))) (735 / 2)) 180) = 108075 / 100" by code_simp
  have road: "toFixed 2 1375 = 1375" by code_simp
  have "im_totalFreightCostUSD (railOption 500) = 108075 / 100"
    unfolding rail [symmetric] by (simp add: railOption_def Let_def dsub_def dadd_def dmul_def exact)
  moreover have "im_totalFreightCostUSD (highwayOption 500) = 1375"
    by (simp add: highwayOption_def dmul_def exact road)
  ultimately show ?thesis by (simp add: planRoute_def)
qed

section \<open>Tolls\<close>

record ITollPlaza =
  tp_plazaId :: string
  tp_highwayName :: string
  tp_latitude :: rat
  tp_longitude :: rat
  tp_class5AxlesRateUSD :: rat
  tp_transponderDiscountPct :: rat

definition toll_plazas :: "(string, ITollPlaza) jsmap" where
  "toll_plazas =
     [(''NJ_TPK_EX14'', \<lparr> tp_plazaId = ''NJ_TPK_EX14'', tp_highwayName = ''New Jersey Turnpike'',
         tp_latitude = fl (406922 / 10000), tp_longitude = fl (- 741755 / 10000),
         tp_class5AxlesRateUSD = 425 / 10, tp_transponderDiscountPct = 15 \<rparr>),
      (''PA_TPK_VALLEY_FORGE'', \<lparr> tp_plazaId = ''PA_TPK_VALLEY_FORGE'', tp_highwayName = ''Pennsylvania Turnpike'',
         tp_latitude = fl (400885 / 10000), tp_longitude = fl (- 754055 / 10000),
         tp_class5AxlesRateUSD = fl (362 / 10), tp_transponderDiscountPct = 10 \<rparr>),
      (''OH_TPK_GATE5'', \<lparr> tp_plazaId = ''OH_TPK_GATE5'', tp_highwayName = ''Ohio Turnpike'',
         tp_latitude = fl (413412 / 10000), tp_longitude = fl (- 821764 / 10000),
         tp_class5AxlesRateUSD = 2875 / 100, tp_transponderDiscountPct = 125 / 10 \<rparr>)]"

record toll_fee =
  tf_highway :: string
  tf_feeUSD :: rat

definition plaza_fee :: "bool \<Rightarrow> ITollPlaza \<Rightarrow> rat" where
  "plaza_fee hasElectronicTransponder p =
     (if hasElectronicTransponder
      then toFixed 2 (dmul (tp_class5AxlesRateUSD p) (dsub 1 (ddiv (tp_transponderDiscountPct p) 100)))
      else tp_class5AxlesRateUSD p)"

definition add_toll :: "bool \<Rightarrow> string \<Rightarrow> rat \<times> toll_fee list \<Rightarrow> rat \<times> toll_fee list" where
  "add_toll transponder i acc =
     (case jm_get toll_plazas i of
        None \<Rightarrow> acc
      | Some p \<Rightarrow> (dadd (fst acc) (plaza_fee transponder p),
                   snd acc @ [\<lparr> tf_highway = tp_highwayName p, tf_feeUSD = plaza_fee transponder p \<rparr>]))"

definition calculateRouteTolls :: "string list \<Rightarrow> bool \<Rightarrow> rat \<times> toll_fee list" where
  "calculateRouteTolls encounteredPlazaIds transponder =
     (let (totalTolls, breakdown) = fold (add_toll transponder) encounteredPlazaIds (0, [])
      in (toFixed 2 totalTolls, breakdown))"

text \<open>The breakdown lists the known plazas in order, and the total is the rounded sum of its fees.\<close>

lemma tolls_itemized:
  "calculateRouteTolls ids transponder =
    (let fees = List.map_filter (\<lambda>i. map_option (\<lambda>p. \<lparr> tf_highway = tp_highwayName p, tf_feeUSD = plaza_fee transponder p \<rparr>)
       (jm_get toll_plazas i)) ids
     in (toFixed 2 (foldl dadd 0 (map tf_feeUSD fees)), fees))"
proof -
  have "fold (add_toll transponder) ids (t, fs) =
      (let fees = List.map_filter (\<lambda>i. map_option (\<lambda>p. \<lparr> tf_highway = tp_highwayName p, tf_feeUSD = plaza_fee transponder p \<rparr>)
         (jm_get toll_plazas i)) ids in (foldl dadd t (map tf_feeUSD fees), fs @ fees))" for t fs
    by (induction ids arbitrary: t fs) (simp_all add: Let_def map_filter_simps add_toll_def split: option.split)
  from this [of 0 "[]"] show ?thesis by (simp add: calculateRouteTolls_def Let_def)
qed

end
