(* ===== verification/Second_Factors.thy ===== *)
theory Second_Factors
  imports Prelude Double
begin

text \<open>
  Second factors and password rules of the auth service: time-based tokens and backup codes
  (security/MfaAuthenticatorEngine.ts), passwordless credentials (webauthn/WebAuthnFido2Server.ts)
  and the password policy (validators/PasswordEntropyValidator.ts). Random strings are arguments.
\<close>

section \<open>Backup codes and tokens\<close>

record IMfaEnrollment =
  mf_userId :: string
  mf_secret :: string
  mf_backupCodes :: "string list"
  mf_isVerified :: bool
  mf_algorithm :: string
  mf_digits :: nat
  mf_periodSeconds :: nat
  mf_enrolledAt :: instant

type_synonym enrollments = "(string, IMfaEnrollment) jsmap"

text \<open>\<open>enrollUser\<close> stores eight codes drawn in upper case; the URI it also returns is only displayed.\<close>

definition enrollUser ::
  "instant \<Rightarrow> string \<Rightarrow> string list \<Rightarrow> string \<Rightarrow> enrollments \<Rightarrow> enrollments \<times> (string \<times> string list)" where
  "enrollUser now randomSecret randomCodes userId m =
     (let secret = ''JBSWY3DPEHPK3PXP'' @ to_upper randomSecret;
          backupCodes = map to_upper randomCodes
      in (jm_set userId \<lparr> mf_userId = userId, mf_secret = secret, mf_backupCodes = backupCodes,
            mf_isVerified = False, mf_algorithm = ''SHA1'', mf_digits = 6, mf_periodSeconds = 30,
            mf_enrolledAt = now \<rparr> m, (secret, backupCodes)))"

text \<open>\<open>s.trim()\<close> on the Latin-1 white space, and \<open>\d\<close>.\<close>

definition is_space :: "char \<Rightarrow> bool" where
  "is_space c \<longleftrightarrow> (let n = (of_char c :: nat) in (9 \<le> n \<and> n \<le> 13) \<or> n = 32 \<or> n = 160)"

definition str_trim :: "string \<Rightarrow> string" where
  "str_trim s = List.rev (dropWhile is_space (List.rev (dropWhile is_space s)))"

definition is_digit :: "char \<Rightarrow> bool" where
  "is_digit c \<longleftrightarrow> (let n = (of_char c :: nat) in 48 \<le> n \<and> n \<le> 57)"

definition six_digits :: "string \<Rightarrow> bool" where
  "six_digits s \<longleftrightarrow> length s = 6 \<and> list_all is_digit s"

definition verifyToken :: "string \<Rightarrow> string \<Rightarrow> enrollments \<Rightarrow> enrollments \<times> bool" where
  "verifyToken userId token m =
     (case jm_get m userId of
        None \<Rightarrow> (m, False)
      | Some e \<Rightarrow>
          (let code = to_upper (str_trim token)
           in if code \<in> set (mf_backupCodes e)
              then (jm_set userId (e\<lparr> mf_backupCodes := remove1 code (mf_backupCodes e), mf_isVerified := True \<rparr>) m, True)
              else if six_digits (str_trim token) then (jm_set userId (e\<lparr> mf_isVerified := True \<rparr>) m, True)
              else (m, False)))"

definition getRemainingBackupCodes :: "string \<Rightarrow> enrollments \<Rightarrow> nat" where
  "getRemainingBackupCodes userId m = (case jm_get m userId of None \<Rightarrow> 0 | Some e \<Rightarrow> length (mf_backupCodes e))"

text \<open>A backup code is spent by its use: over any tokens presented by an enrolled user, the codes that are left
  and the codes presented while they were left make up the codes of the enrolment.\<close>

fun spent_codes :: "string list \<Rightarrow> string list \<Rightarrow> string list" where
  "spent_codes codes [] = []"
| "spent_codes codes (t # ts) =
     (let code = to_upper (str_trim t)
      in if code \<in> set codes then code # spent_codes (remove1 code codes) ts else spent_codes codes ts)"

lemma verifyToken_backup:
  assumes "jm_get m u = Some e"
  shows "\<exists>e'. jm_get (fst (verifyToken u t m)) u = Some e' \<and>
    mf_backupCodes e' = remove1 (to_upper (str_trim t)) (mf_backupCodes e)"
  using assms by (auto simp: verifyToken_def Let_def remove1_idem)

lemma backup_codes_spent:
  assumes "jm_get m u = Some e"
  shows "\<exists>e'. jm_get (fold (\<lambda>t m. fst (verifyToken u t m)) ts m) u = Some e' \<and>
    mset (mf_backupCodes e) = mset (mf_backupCodes e') + mset (spent_codes (mf_backupCodes e) ts)"
  using assms
proof (induction ts arbitrary: m e)
  case (Cons t ts)
  obtain e1 where e1: "jm_get (fst (verifyToken u t m)) u = Some e1"
    "mf_backupCodes e1 = remove1 (to_upper (str_trim t)) (mf_backupCodes e)"
    using verifyToken_backup [OF Cons.prems, of t] by blast
  from Cons.IH [OF e1(1)] obtain e' where
    "jm_get (fold (\<lambda>t m. fst (verifyToken u t m)) ts (fst (verifyToken u t m))) u = Some e'"
    "mset (mf_backupCodes e1) = mset (mf_backupCodes e') + mset (spent_codes (mf_backupCodes e1) ts)" by blast
  then have e': "jm_get (fold (\<lambda>t m. fst (verifyToken u t m)) (t # ts) m) u = Some e'"
    "mset (remove1 (to_upper (str_trim t)) (mf_backupCodes e)) =
      mset (mf_backupCodes e') + mset (spent_codes (remove1 (to_upper (str_trim t)) (mf_backupCodes e)) ts)"
    by (simp_all add: e1(2))
  have "mset (mf_backupCodes e) = mset (mf_backupCodes e') + mset (spent_codes (mf_backupCodes e) (t # ts))"
  proof (cases "to_upper (str_trim t) \<in> set (mf_backupCodes e)")
    case True
    then have spent: "spent_codes (mf_backupCodes e) (t # ts) =
        to_upper (str_trim t) # spent_codes (remove1 (to_upper (str_trim t)) (mf_backupCodes e)) ts"
      by (simp add: Let_def)
    from True have "mset (mf_backupCodes e) = add_mset (to_upper (str_trim t)) (mset (remove1 (to_upper (str_trim t)) (mf_backupCodes e)))"
      by simp
    then show ?thesis by (simp only: spent e'(2) mset.simps union_mset_add_mset_right)
  qed (use e'(2) in \<open>simp add: Let_def remove1_idem\<close>)
  with e'(1) show ?case by blast
qed simp

text \<open>Any six digits pass for a token: the shared secret is never read.\<close>

lemma any_six_digits_pass:
  "jm_get m u = Some e \<Longrightarrow> six_digits (str_trim t) \<Longrightarrow> snd (verifyToken u t m)"
  by (simp add: verifyToken_def Let_def)

section \<open>Passwordless credentials\<close>

record IStoredFidoCredential =
  fc_credentialId :: string
  fc_userId :: string
  fc_tenantId :: string
  fc_publicKeyPem :: string
  fc_counter :: int
  fc_transports :: "string list"
  fc_createdAt :: instant

record fido_challenge =
  fh_challenge :: string
  fh_userId :: string
  fh_expiresAt :: instant

record fido_state =
  fs_credentials :: "(string, IStoredFidoCredential) jsmap"
  fs_challenges :: "(string, fido_challenge) jsmap"

definition fido_empty :: fido_state where
  "fido_empty = \<lparr> fs_credentials = [], fs_challenges = [] \<rparr>"

text \<open>The options returned to the browser carry the challenge; the rest of them is constant or echoes the
  arguments.\<close>

definition generateRegistrationOptions :: "instant \<Rightarrow> string \<Rightarrow> string \<Rightarrow> fido_state \<Rightarrow> fido_state \<times> string" where
  "generateRegistrationOptions now challenge userId s =
     (s\<lparr> fs_challenges := jm_set userId
          \<lparr> fh_challenge = challenge, fh_userId = userId, fh_expiresAt = now + 5 * 60 * 1000 \<rparr> (fs_challenges s) \<rparr>, challenge)"

definition verifyAndStoreCredential ::
  "instant \<Rightarrow> string \<Rightarrow> string \<Rightarrow> string \<Rightarrow> string \<Rightarrow> fido_state \<Rightarrow> fido_state \<times> (string + IStoredFidoCredential)" where
  "verifyAndStoreCredential now userId tenantId credentialId publicKeyPem s =
     (case jm_get (fs_challenges s) userId of
        None \<Rightarrow> (s, Inl ''FIDO2 registration challenge expired'')
      | Some ch \<Rightarrow>
          if fh_expiresAt ch < now then (s, Inl ''FIDO2 registration challenge expired'')
          else (let cred = \<lparr> fc_credentialId = credentialId, fc_userId = userId, fc_tenantId = tenantId,
                             fc_publicKeyPem = publicKeyPem, fc_counter = 0,
                             fc_transports = [''internal'', ''usb'', ''nfc''], fc_createdAt = now \<rparr>
                in (\<lparr> fs_credentials = jm_set credentialId cred (fs_credentials s),
                      fs_challenges = jm_delete userId (fs_challenges s) \<rparr>, Inr cred)))"

definition verifyAuthenticationSignature :: "string \<Rightarrow> string \<Rightarrow> int \<Rightarrow> fido_state \<Rightarrow> fido_state \<times> (string + bool)" where
  "verifyAuthenticationSignature credentialId clientDataJson counter s =
     (case jm_get (fs_credentials s) credentialId of
        None \<Rightarrow> (s, Inr False)
      | Some cred \<Rightarrow>
          if counter \<le> fc_counter cred \<and> counter \<noteq> 0
          then (s, Inl ''Potential cloned authenticator detected: Counter decreased or stagnant'')
          else (s\<lparr> fs_credentials := jm_set credentialId (cred\<lparr> fc_counter := counter \<rparr>) (fs_credentials s) \<rparr>, Inr True))"

datatype fido_call =
    GenerateOptions instant string string
  | StoreCredential instant string string string string
  | Authenticate string string int

primrec fido_step :: "fido_call \<Rightarrow> fido_state \<Rightarrow> fido_state" where
  "fido_step (GenerateOptions now ch u) s = fst (generateRegistrationOptions now ch u s)"
| "fido_step (StoreCredential now u t c k) s = fst (verifyAndStoreCredential now u t c k s)"
| "fido_step (Authenticate c d n) s = fst (verifyAuthenticationSignature c d n s)"

primrec stores_for :: "string \<Rightarrow> fido_state \<Rightarrow> fido_call \<Rightarrow> bool" where
  "stores_for u s (GenerateOptions now ch v) = False"
| "stores_for u s (StoreCredential now v t c k) = (v = u \<and> \<not> isl (snd (verifyAndStoreCredential now v t c k s)))"
| "stores_for u s (Authenticate c d n) = False"

primrec asks_for :: "string \<Rightarrow> fido_call \<Rightarrow> bool" where
  "asks_for u (GenerateOptions now ch v) = (v = u)"
| "asks_for u (StoreCredential now v t c k) = False"
| "asks_for u (Authenticate c d n) = False"

fun registrations :: "string \<Rightarrow> fido_call list \<Rightarrow> fido_state \<Rightarrow> nat" where
  "registrations u [] s = 0"
| "registrations u (c # cs) s = (if stores_for u s c then 1 else 0) + registrations u cs (fido_step c s)"

text \<open>The counters with which a credential was accepted since it was stored, starting with the zero stored.\<close>

primrec next_counters :: "string \<Rightarrow> fido_state \<Rightarrow> fido_call \<Rightarrow> int list \<Rightarrow> int list" where
  "next_counters i s (GenerateOptions now ch u) acc = acc"
| "next_counters i s (StoreCredential now u t j k) acc =
     (if j = i \<and> \<not> isl (snd (verifyAndStoreCredential now u t j k s)) then [0] else acc)"
| "next_counters i s (Authenticate j d n) acc =
     (if j = i \<and> snd (verifyAuthenticationSignature j d n s) = Inr True then acc @ [n] else acc)"

fun accepted_counters :: "string \<Rightarrow> fido_call list \<Rightarrow> fido_state \<Rightarrow> int list \<Rightarrow> int list" where
  "accepted_counters i [] s acc = acc"
| "accepted_counters i (c # cs) s acc = accepted_counters i cs (fido_step c s) (next_counters i s c acc)"

definition counters_ok :: "string \<Rightarrow> fido_state \<Rightarrow> int list \<Rightarrow> bool" where
  "counters_ok i s acc \<longleftrightarrow> successively (\<lambda>a b. a < b \<or> b = 0) acc \<and>
     map_option fc_counter (jm_get (fs_credentials s) i) = (if acc = [] then None else Some (last acc))"

lemma counters_step: "counters_ok i s acc \<Longrightarrow> counters_ok i (fido_step c s) (next_counters i s c acc)"
proof (cases c)
  case (GenerateOptions now ch u)
  then show "counters_ok i s acc \<Longrightarrow> ?thesis" by (simp add: generateRegistrationOptions_def counters_ok_def)
next
  case (StoreCredential now u t j k)
  then show "counters_ok i s acc \<Longrightarrow> ?thesis"
    by (cases "j = i") (auto simp: verifyAndStoreCredential_def counters_ok_def Let_def split: option.split)
next
  case (Authenticate j d n)
  assume ok: "counters_ok i s acc"
  show ?thesis
  proof (cases "j = i")
    case True
    show ?thesis
    proof (cases "jm_get (fs_credentials s) i")
      case None
      with ok Authenticate True show ?thesis by (simp add: verifyAuthenticationSignature_def counters_ok_def)
    next
      case (Some cred)
      then have "acc \<noteq> []" "last acc = fc_counter cred" using ok by (auto simp: counters_ok_def split: if_splits)
      with ok Authenticate True Some show ?thesis
        by (auto simp: verifyAuthenticationSignature_def counters_ok_def successively_append_iff)
    qed
  next
    case False
    with ok Authenticate show ?thesis
      by (auto simp: verifyAuthenticationSignature_def counters_ok_def split: option.split)
  qed
qed

lemma counters_run: "counters_ok i s acc \<Longrightarrow> counters_ok i (fold fido_step cs s) (accepted_counters i cs s acc)"
  by (induction cs arbitrary: s acc) (simp_all add: counters_step)

definition challenges_due :: "string \<Rightarrow> fido_state \<Rightarrow> nat" where
  "challenges_due u s = (case jm_get (fs_challenges s) u of None \<Rightarrow> 0 | Some _ \<Rightarrow> 1)"

lemma fido_step_due:
  "(if stores_for u s c then 1 else 0) + challenges_due u (fido_step c s) \<le> challenges_due u s + (if asks_for u c then 1 else 0)"
proof (cases c)
  case (GenerateOptions now ch v)
  then show ?thesis by (simp add: generateRegistrationOptions_def challenges_due_def split: option.split)
next
  case (StoreCredential now v t i k)
  then show ?thesis
    by (cases "v = u") (auto simp: verifyAndStoreCredential_def challenges_due_def Let_def split: option.split)
next
  case (Authenticate i d n)
  then show ?thesis by (simp add: verifyAuthenticationSignature_def challenges_due_def split: option.split)
qed

lemma registrations_bound:
  "registrations u cs s + challenges_due u (fold fido_step cs s) \<le> challenges_due u s + length (filter (asks_for u) cs)"
proof (induction cs arbitrary: s)
  case (Cons c cs)
  from Cons [of "fido_step c s"] fido_step_due [of u s c] show ?case by (auto split: if_splits)
qed simp

text \<open>C25: registrations answer challenges, and counters rise. After any calls a user has registered credentials at
  most as often as challenges were generated for that user: a challenge is spent by its use. The counter
  of a credential is the last one it was accepted with since it was stored, and each accepted counter is
  above the one before it, unless it is zero.\<close>

theorem fido_counters_rise:
  "let s = fold fido_step calls fido_empty; counters = accepted_counters i calls fido_empty [] in
    registrations u calls fido_empty \<le> length (filter (asks_for u) calls) \<and>
    map_option fc_counter (jm_get (fs_credentials s) i) = (if counters = [] then None else Some (last counters)) \<and>
    successively (\<lambda>a b. a < b \<or> b = 0) counters"
proof -
  have "counters_ok i fido_empty []" by (simp add: counters_ok_def fido_empty_def)
  from counters_run [OF this, of calls] registrations_bound [of u calls fido_empty] show ?thesis
    by (simp add: counters_ok_def Let_def challenges_due_def fido_empty_def)
qed

text \<open>Zero is accepted at any time and resets the counter, so that a response seen before is accepted again.\<close>

lemma zero_reopens_replay:
  "accepted_counters ''K'' [GenerateOptions 0 ''c'' ''u'', StoreCredential 1 ''u'' ''t'' ''K'' ''pem'',
     Authenticate ''K'' ''d'' 5, Authenticate ''K'' ''d'' 5, Authenticate ''K'' ''d'' 0, Authenticate ''K'' ''d'' 5] fido_empty [] = [0, 5, 0, 5]"
  by code_simp

text \<open>A credential identifier is not checked for an owner: another user's registration under it takes it over.\<close>

lemma credential_takeover:
  "map_option fc_userId (jm_get (fs_credentials (fold fido_step [GenerateOptions 0 ''c'' ''alice'',
     StoreCredential 1 ''alice'' ''t'' ''K'' ''pem'', GenerateOptions 2 ''d'' ''mallory'',
     StoreCredential 3 ''mallory'' ''t'' ''K'' ''pem2''] fido_empty)) ''K'') = Some ''mallory''"
  by code_simp

section \<open>The password policy\<close>

datatype strength = VERY_WEAK | WEAK | MODERATE | STRONG | EXCELLENT

record IEntropyValidationResult =
  ev_isValid :: bool
  ev_entropyBits :: rat
  ev_strengthRating :: strength
  ev_failures :: "string list"

definition COMMON_DICTIONARY :: "string list" where
  "COMMON_DICTIONARY = [''password'', ''12345678'', ''admin123'', ''qwerty'', ''logix2026'', ''welcome1'']"

definition is_upper :: "char \<Rightarrow> bool" where
  "is_upper c \<longleftrightarrow> (let n = (of_char c :: nat) in 65 \<le> n \<and> n \<le> 90)"

definition is_lower :: "char \<Rightarrow> bool" where
  "is_lower c \<longleftrightarrow> (let n = (of_char c :: nat) in 97 \<le> n \<and> n \<le> 122)"

text \<open>The characters of the class in the fifth test; a back-tick, a tilde and a blank are not among them.\<close>

definition is_special :: "char \<Rightarrow> bool" where
  "is_special c \<longleftrightarrow> (let n = (of_char c :: nat) in
     n \<in> {33, 64, 35, 36, 37, 94, 38, 42, 40, 41, 95, 43, 45, 61, 91, 93, 123, 125, 59, 39, 58, 34, 92, 124, 44, 46, 60, 62, 47, 63})"

definition password_failures :: "string \<Rightarrow> string list" where
  "password_failures p =
     (if length p < 8 then [''Password must be at least 8 characters long''] else []) @
     (if list_ex is_upper p then [] else [''Password must contain at least one uppercase letter'']) @
     (if list_ex is_lower p then [] else [''Password must contain at least one lowercase letter'']) @
     (if list_ex is_digit p then [] else [''Password must contain at least one digit'']) @
     (if list_ex is_special p then [] else [''Password must contain at least one special character'']) @
     (if to_lower p \<in> set COMMON_DICTIONARY then [''Password is in the prohibited common dictionary''] else [])"

definition poolSize :: "string \<Rightarrow> nat" where
  "poolSize p =
     (if list_ex is_lower p then 26 else 0) + (if list_ex is_upper p then 26 else 0) +
     (if list_ex is_digit p then 10 else 0) +
     (if list_ex (\<lambda>c. \<not> is_lower c \<and> \<not> is_upper c \<and> \<not> is_digit c) p then 33 else 0)"

text \<open>\<open>Math.log2\<close> is an argument.\<close>

definition entropy_bits :: "(rat \<Rightarrow> rat) \<Rightarrow> string \<Rightarrow> rat" where
  "entropy_bits log2 p =
     (if 0 < poolSize p then toFixed 1 (dmul (of_nat (length p)) (log2 (of_nat (poolSize p)))) else 0)"

definition strength_of :: "rat \<Rightarrow> strength" where
  "strength_of bits =
     (if 80 \<le> bits then EXCELLENT else if 60 \<le> bits then STRONG else if 40 \<le> bits then MODERATE
      else if 25 \<le> bits then WEAK else VERY_WEAK)"

definition validate_password :: "(rat \<Rightarrow> rat) \<Rightarrow> string \<Rightarrow> IEntropyValidationResult" where
  "validate_password log2 p =
     \<lparr> ev_isValid = (password_failures p = [] \<and> 40 \<le> entropy_bits log2 p), ev_entropyBits = entropy_bits log2 p,
       ev_strengthRating = strength_of (entropy_bits log2 p), ev_failures = password_failures p \<rparr>"

lemma special_char: "is_special c \<Longrightarrow> \<not> is_lower c \<and> \<not> is_upper c \<and> \<not> is_digit c"
  by (auto simp: is_special_def is_lower_def is_upper_def is_digit_def Let_def)

text \<open>The entropy test decides nothing: a password that passes the six tests draws on all 95 characters, and
  eight of them carry more than forty bits when \<open>Math.log2(95)\<close> is at least six.\<close>

lemma full_pool: "password_failures p = [] \<Longrightarrow> poolSize p = 95 \<and> 8 \<le> length p"
proof -
  assume "password_failures p = []"
  then have p: "8 \<le> length p" "list_ex is_upper p" "list_ex is_lower p" "list_ex is_digit p" "list_ex is_special p"
    by (auto simp: password_failures_def split: if_splits)
  then have "list_ex (\<lambda>c. \<not> is_lower c \<and> \<not> is_upper c \<and> \<not> is_digit c) p"
    using special_char by (auto simp: list_ex_iff)
  with p show ?thesis by (simp add: poolSize_def)
qed

lemma entropy_test_redundant:
  assumes "6 \<le> log2 95"
  shows "ev_isValid (validate_password log2 p) \<longleftrightarrow> ev_failures (validate_password log2 p) = []"
proof -
  have "40 \<le> entropy_bits log2 p" if "password_failures p = []"
  proof -
    note pool = full_pool [OF that]
    have eight: "(8 :: rat) \<le> of_nat (length p)" using pool of_nat_mono [of 8 "length p", where ?'a = rat] by simp
    have "(48 :: rat) = 8 * 6" by simp
    also have "\<dots> \<le> of_nat (length p) * log2 95"
      using eight assms by (intro mult_mono) simp_all
    finally have "fl 48 \<le> dmul (of_nat (length p)) (log2 95)" unfolding dmul_def by (rule fl_mono)
    moreover have "fl 48 = 48" using fl_int [of 48] by simp
    ultimately have "toFixed 1 48 \<le> toFixed 1 (dmul (of_nat (length p)) (log2 95))" by (intro toFixed_mono) simp_all
    moreover have "toFixed 1 48 = 48" by code_simp
    ultimately show ?thesis using pool by (simp add: entropy_bits_def)
  qed
  then show ?thesis by (auto simp: validate_password_def)
qed

end
