(* ===== verification/Identity_Provisioning.thy ===== *)
theory Identity_Provisioning
  imports Prelude Complex_Main
begin

text \<open>
  User provisioning of the auth service (scim/ScimUserProvisioningProtocolEngine.ts). The values of a
  patch are \<open>any\<close> in the source: they are JSON values here, and \<open>roles\<close> holds what a patch puts there.
  A partial update may name any field, and an explicit \<open>undefined\<close> passes the compiler: for the identifier and the roles, which
  the lemmas are about, the record says whether the update names them and with what (the inner \<open>None\<close> is \<open>undefined\<close>);
  the other fields are a function on the resource. The code puts the stored \<open>meta\<close> back over all of it.
\<close>

section \<open>JSON values\<close>

datatype json = JNull | JBool bool | JNum rat | JStr string | JArr "json list" | JObj "(string \<times> json) list"

text \<open>\<open>Boolean(v)\<close>; objects and arrays are truthy, empty ones too.\<close>

primrec truthy :: "json \<Rightarrow> bool" where
  "truthy JNull = False"
| "truthy (JBool b) = b"
| "truthy (JNum x) = (x \<noteq> 0)"
| "truthy (JStr s) = (s \<noteq> [])"
| "truthy (JArr vs) = True"
| "truthy (JObj fs) = True"

text \<open>\<open>Array.isArray(v) ? v : [v]\<close>.\<close>

definition as_array :: "json \<Rightarrow> json list" where
  "as_array v = (case v of JArr vs \<Rightarrow> vs | _ \<Rightarrow> [v])"

section \<open>User resources\<close>

record scim_name =
  sn_formatted :: string
  sn_familyName :: string
  sn_givenName :: string
  sn_middleName :: "string option"

record scim_email =
  se_value :: string
  se_type :: string
  se_primary :: bool

record scim_phone =
  sp_value :: string
  sp_type :: string

record scim_meta =
  sm_resourceType :: string
  sm_created :: instant
  sm_lastModified :: instant
  sm_location :: string
  sm_version :: string

record IScimUserResource =
  su_schemas :: "string list"
  su_id :: "string option"
  su_externalId :: "string option"
  su_userName :: string
  su_name :: scim_name
  su_emails :: "scim_email list"
  su_phoneNumbers :: "scim_phone list option"
  su_roles :: "json list option"
  su_active :: bool
  su_meta :: scim_meta

type_synonym user_db = "(string, IScimUserResource) jsmap"

definition scim_id :: "instant \<Rightarrow> string \<Rightarrow> string" where
  "scim_id now random = ''scim_usr_'' @ base_string 36 (nat now) @ random"

definition scim_version :: "instant \<Rightarrow> string" where
  "scim_version now = ''W/'' @ [CHR 0x22] @ dec_string (nat now) @ [CHR 0x22]"

definition createUser :: "instant \<Rightarrow> string \<Rightarrow> string \<Rightarrow> IScimUserResource \<Rightarrow> user_db \<Rightarrow> user_db \<times> IScimUserResource" where
  "createUser now random tenantId payload db =
     (let i = scim_id now random;
          user = payload\<lparr> su_id := Some i,
            su_meta := \<lparr> sm_resourceType = ''User'', sm_created = now, sm_lastModified = now,
              sm_location = ''/scim/v2/Users/'' @ i, sm_version = scim_version now \<rparr> \<rparr>
      in (jm_set i user db, user))"

definition not_found :: "string \<Rightarrow> string" where
  "not_found i = ''SCIM User '' @ i @ '' not found''"

definition touch_meta :: "instant \<Rightarrow> scim_meta \<Rightarrow> scim_meta" where
  "touch_meta now m = m\<lparr> sm_lastModified := now, sm_version := scim_version now \<rparr>"

record scim_updates =
  up_id :: "string option option"
  up_roles :: "json list option option"
  up_rest :: "IScimUserResource \<Rightarrow> IScimUserResource"

definition apply_updates :: "scim_updates \<Rightarrow> IScimUserResource \<Rightarrow> IScimUserResource" where
  "apply_updates up u =
     (up_rest up u)\<lparr> su_id := (case up_id up of None \<Rightarrow> su_id u | Some i \<Rightarrow> i),
                      su_roles := (case up_roles up of None \<Rightarrow> su_roles u | Some rs \<Rightarrow> rs) \<rparr>"

definition updateUser ::
  "instant \<Rightarrow> string \<Rightarrow> scim_updates \<Rightarrow> user_db \<Rightarrow> user_db \<times> (string + IScimUserResource)" where
  "updateUser now i updates db =
     (case jm_get db i of
        None \<Rightarrow> (db, Inl (not_found i))
      | Some existing \<Rightarrow>
          let updated = (apply_updates updates existing)\<lparr> su_meta := touch_meta now (su_meta existing) \<rparr>
          in (jm_set i updated db, Inr updated))"

datatype patch_op = Op_add | Op_remove | Op_replace

record scim_patch =
  po_op :: patch_op
  po_path :: "string option"
  po_value :: json

definition apply_patch :: "scim_patch \<Rightarrow> IScimUserResource \<Rightarrow> IScimUserResource" where
  "apply_patch op u =
     (if po_op op = Op_replace \<and> po_path op = Some ''active'' then u\<lparr> su_active := truthy (po_value op) \<rparr>
      else if po_op op = Op_replace \<and> po_path op = Some ''roles'' then u\<lparr> su_roles := Some (as_array (po_value op)) \<rparr>
      else u)"

definition patchUser ::
  "instant \<Rightarrow> string \<Rightarrow> scim_patch list \<Rightarrow> user_db \<Rightarrow> user_db \<times> (string + IScimUserResource)" where
  "patchUser now i operations db =
     (case jm_get db i of
        None \<Rightarrow> (db, Inl (not_found i))
      | Some existing \<Rightarrow>
          let patched = fold apply_patch operations existing;
              u = patched\<lparr> su_meta := touch_meta now (su_meta patched) \<rparr>
          in (jm_set i u db, Inr u))"

record IScimFilterQuery =
  sq_filter :: "string option"
  sq_startIndex :: "int option"
  sq_count :: "int option"

record scim_page =
  sc_totalResults :: nat
  sc_startIndex :: int
  sc_itemsPerPage :: nat
  sc_Resources :: "IScimUserResource list"

text \<open>\<open>n || d\<close>: a missing number and zero give the default.\<close>

definition or_default :: "int option \<Rightarrow> int \<Rightarrow> int" where
  "or_default n d = (case n of None \<Rightarrow> d | Some k \<Rightarrow> if k = 0 then d else k)"

definition scim_filter :: "string option \<Rightarrow> IScimUserResource list \<Rightarrow> IScimUserResource list" where
  "scim_filter f users =
     (case f of
        None \<Rightarrow> users
      | Some q \<Rightarrow>
          if str_includes q ''userName eq''
          then (let target = (case js_split (CHR 0x22) q of _ # t # _ \<Rightarrow> t | _ \<Rightarrow> [])
                in filter (\<lambda>u. to_lower (su_userName u) = to_lower target) users)
          else users)"

definition queryUsers :: "IScimFilterQuery \<Rightarrow> user_db \<Rightarrow> scim_page" where
  "queryUsers q db =
     (let startIndex = or_default (sq_startIndex q) 1;
          count = or_default (sq_count q) 50;
          users = scim_filter (sq_filter q) (jm_values db);
          paginated = js_slice (startIndex - 1) (startIndex - 1 + count) users
      in \<lparr> sc_totalResults = length users, sc_startIndex = startIndex, sc_itemsPerPage = length paginated,
           sc_Resources = paginated \<rparr>)"

definition deleteUser :: "string \<Rightarrow> user_db \<Rightarrow> user_db \<times> bool" where
  "deleteUser i db = (jm_delete i db, jm_has db i)"

section \<open>Types of the stored resources\<close>

text \<open>What the interface declares of a role: an object with a string \<open>value\<close>, and a string \<open>display\<close> and a
  boolean \<open>primary\<close> when they are present.\<close>

definition field_typed :: "(json \<Rightarrow> bool) \<Rightarrow> bool \<Rightarrow> string \<Rightarrow> (string \<times> json) list \<Rightarrow> bool" where
  "field_typed ty required k fs = (case map_of fs k of None \<Rightarrow> \<not> required | Some v \<Rightarrow> ty v)"

primrec is_str :: "json \<Rightarrow> bool" where
  "is_str JNull = False" | "is_str (JBool b) = False" | "is_str (JNum x) = False" | "is_str (JStr s) = True"
| "is_str (JArr vs) = False" | "is_str (JObj fs) = False"

primrec is_bool :: "json \<Rightarrow> bool" where
  "is_bool JNull = False" | "is_bool (JBool b) = True" | "is_bool (JNum x) = False" | "is_bool (JStr s) = False"
| "is_bool (JArr vs) = False" | "is_bool (JObj fs) = False"

primrec role_typed :: "json \<Rightarrow> bool" where
  "role_typed JNull = False" | "role_typed (JBool b) = False" | "role_typed (JNum x) = False"
| "role_typed (JStr s) = False" | "role_typed (JArr vs) = False"
| "role_typed (JObj fs) = (field_typed is_str True ''value'' fs \<and> field_typed is_str False ''display'' fs \<and>
     field_typed is_bool False ''primary'' fs)"

definition roles_typed :: "json list option \<Rightarrow> bool" where
  "roles_typed rs = (case rs of None \<Rightarrow> False | Some vs \<Rightarrow> list_all role_typed vs)"

datatype scim_call =
    Create instant string string IScimUserResource
  | Update instant string scim_updates
  | Patch instant string "scim_patch list"
  | Delete string

primrec scim_step :: "scim_call \<Rightarrow> user_db \<Rightarrow> user_db" where
  "scim_step (Create now r t p) db = fst (createUser now r t p db)"
| "scim_step (Update now i up) db = fst (updateUser now i up db)"
| "scim_step (Patch now i ops) db = fst (patchUser now i ops db)"
| "scim_step (Delete i) db = fst (deleteUser i db)"

text \<open>What the compiler checks of a call: the roles of a payload and the roles an update gives. It accepts \<open>undefined\<close>
  in an update, and does not look at the values of a patch.\<close>

primrec checked :: "scim_call \<Rightarrow> bool" where
  "checked (Create now r t p) = roles_typed (su_roles p)"
| "checked (Update now i up) = (case up_roles up of Some (Some vs) \<Rightarrow> list_all role_typed vs | _ \<Rightarrow> True)"
| "checked (Patch now i ops) = True"
| "checked (Delete i) = True"

section \<open>The last writer decides\<close>

text \<open>The roles and the identifiers that a history of calls writes to the resource stored under \<open>i\<close>.\<close>

definition roles_ops :: "scim_patch list \<Rightarrow> scim_patch list" where
  "roles_ops ops = filter (\<lambda>op. po_op op = Op_replace \<and> po_path op = Some ''roles'') ops"

primrec role_write :: "string \<Rightarrow> scim_call \<Rightarrow> json list option list" where
  "role_write i (Create now r t p) = (if scim_id now r = i then [su_roles p] else [])"
| "role_write i (Update now j up) = (if j = i then (case up_roles up of None \<Rightarrow> [] | Some rs \<Rightarrow> [rs]) else [])"
| "role_write i (Patch now j ops) = (if j = i then map (\<lambda>op. Some (as_array (po_value op))) (roles_ops ops) else [])"
| "role_write i (Delete j) = []"

primrec id_write :: "string \<Rightarrow> scim_call \<Rightarrow> string option list" where
  "id_write i (Create now r t p) = (if scim_id now r = i then [Some i] else [])"
| "id_write i (Update now j up) = (if j = i then (case up_id up of None \<Rightarrow> [] | Some x \<Rightarrow> [x]) else [])"
| "id_write i (Patch now j ops) = []"
| "id_write i (Delete j) = []"

definition role_writes :: "string \<Rightarrow> scim_call list \<Rightarrow> json list option list" where
  "role_writes i calls = concat (map (role_write i) calls)"

definition id_writes :: "string \<Rightarrow> scim_call list \<Rightarrow> string option list" where
  "id_writes i calls = concat (map (id_write i) calls)"

lemma patched_roles:
  "su_roles (fold apply_patch ops u) =
    (if roles_ops ops = [] then su_roles u else Some (as_array (po_value (last (roles_ops ops)))))"
proof (induction ops rule: rev_induct)
  case (snoc op ops)
  then show ?case by (simp add: apply_patch_def roles_ops_def)
qed (simp add: roles_ops_def)

lemma patched_id: "su_id (fold apply_patch ops u) = su_id u"
  by (induction ops arbitrary: u) (simp_all add: apply_patch_def)

text \<open>One call: the resource under \<open>i\<close> afterwards has what the call wrote last, or what it had before.\<close>

lemma scim_step_writes:
  assumes "jm_get (scim_step c db) i = Some u"
  shows "(role_write i c = [] \<or> id_write i c = [] \<longrightarrow> (\<exists>u0. jm_get db i = Some u0)) \<and>
    su_roles u = (if role_write i c = [] then su_roles (the (jm_get db i)) else last (role_write i c)) \<and>
    su_id u = (if id_write i c = [] then su_id (the (jm_get db i)) else last (id_write i c))"
proof (cases c)
  case (Create now r t p)
  with assms show ?thesis by (auto simp: createUser_def Let_def split: if_splits)
next
  case (Update now j up)
  with assms show ?thesis
    by (cases "j = i") (auto simp: updateUser_def apply_updates_def Let_def split: option.splits)
next
  case (Patch now j ops)
  with assms show ?thesis
    by (cases "j = i") (auto simp: patchUser_def Let_def patched_roles patched_id last_map split: option.splits)
next
  case (Delete j)
  with assms show ?thesis by (cases "j = i") (simp_all add: deleteUser_def)
qed

lemma scim_run_writes:
  assumes "jm_get (fold scim_step calls []) i = Some u"
  shows "role_writes i calls \<noteq> [] \<and> id_writes i calls \<noteq> [] \<and>
    su_roles u = last (role_writes i calls) \<and> su_id u = last (id_writes i calls)"
  using assms
proof (induction calls arbitrary: u rule: rev_induct)
  case (snoc c calls)
  let ?db = "fold scim_step calls []"
  have w: "role_writes i (calls @ [c]) = role_writes i calls @ role_write i c"
    "id_writes i (calls @ [c]) = id_writes i calls @ id_write i c" by (simp_all add: role_writes_def id_writes_def)
  note step = scim_step_writes [of c ?db i u]
  show ?case
  proof (cases "role_write i c = [] \<or> id_write i c = []")
    case True
    then obtain u0 where "jm_get ?db i = Some u0" using step snoc.prems by auto
    with snoc.IH [OF this] step snoc.prems show ?thesis unfolding w by auto
  next
    case False
    with step snoc.prems show ?thesis unfolding w by auto
  qed
qed simp

text \<open>C12: The types of provisioned users are as good as the last value written. After any calls that the compiler accepts, the
  roles of a stored user are the value written last to it: by its creation, by an update that names them, or by a patch; and
  so is its identifier. The roles are role objects unless an update named them as \<open>undefined\<close>, or a patch, whose values
  nothing checks, replaced them by the value they now have; the identifier is the one the user is stored under unless an
  update named the identifier. And a patch leaves well-typed roles exactly if it replaces none and they were well typed, or if the last
  value it replaces them with is.\<close>

theorem provisioned_users_typed:
  assumes "list_all checked calls" and "jm_get (fold scim_step calls []) i = Some u"
  shows "su_roles u = last (role_writes i calls) \<and> su_id u = last (id_writes i calls) \<and>
    (roles_typed (su_roles u) \<or>
       (\<exists>now up. Update now i up \<in> set calls \<and> up_roles up = Some None \<and> su_roles u = None) \<or>
       (\<exists>now ops op. Patch now i ops \<in> set calls \<and> op \<in> set (roles_ops ops) \<and> su_roles u = Some (as_array (po_value op)))) \<and>
    (su_id u = Some i \<or> (\<exists>now up. Update now i up \<in> set calls \<and> up_id up = Some (su_id u))) \<and>
    (case snd (patchUser now' i ops' (fold scim_step calls [])) of
       Inl _ \<Rightarrow> False
     | Inr v \<Rightarrow> roles_typed (su_roles v) =
         (if roles_ops ops' = [] then roles_typed (su_roles u) else list_all role_typed (as_array (po_value (last (roles_ops ops'))))))"
proof -
  note w = scim_run_writes [OF assms(2)]
  then have "su_roles u \<in> set (role_writes i calls)" "su_id u \<in> set (id_writes i calls)" by simp_all
  then obtain c d where c: "c \<in> set calls" "su_roles u \<in> set (role_write i c)"
      and d: "d \<in> set calls" "su_id u \<in> set (id_write i d)"
    unfolding role_writes_def id_writes_def set_concat set_map by blast
  have "checked c" using assms(1) c(1) by (simp add: list_all_iff)
  then have roles: "roles_typed (su_roles u) \<or>
       (\<exists>now up. Update now i up \<in> set calls \<and> up_roles up = Some None \<and> su_roles u = None) \<or>
       (\<exists>now ops op. Patch now i ops \<in> set calls \<and> op \<in> set (roles_ops ops) \<and> su_roles u = Some (as_array (po_value op)))"
  proof (cases c)
    case (Create now r t p)
    with c \<open>checked c\<close> show ?thesis by (simp split: if_splits)
  next
    case (Update now j up)
    then have w: "j = i" "up_roles up = Some (su_roles u)"
      using c(2) by (cases "j = i"; cases "up_roles up"; simp)+
    show ?thesis
    proof (cases "su_roles u")
      case None
      with w Update c(1) show ?thesis by metis
    next
      case (Some vs)
      with w(2) \<open>checked c\<close> Update show ?thesis by (simp add: roles_typed_def)
    qed
  next
    case (Patch now j ops)
    then obtain op where "j = i" "op \<in> set (roles_ops ops)" "su_roles u = Some (as_array (po_value op))"
      using c(2) by (auto split: if_splits)
    with Patch c(1) show ?thesis by metis
  qed (use c in simp)
  have ids: "su_id u = Some i \<or> (\<exists>now up. Update now i up \<in> set calls \<and> up_id up = Some (su_id u))"
  proof (cases d)
    case (Update now j up)
    then have "j = i" "up_id up = Some (su_id u)"
      using d(2) by (cases "j = i"; cases "up_id up"; simp)+
    with Update d(1) show ?thesis by metis
  qed (use d in \<open>simp_all split: if_splits\<close>)
  show ?thesis using w roles ids by (simp add: patchUser_def assms(2) Let_def patched_roles roles_typed_def)
qed

definition scim_demo :: IScimUserResource where
  "scim_demo = \<lparr> su_schemas = [], su_id = None, su_externalId = None, su_userName = ''Ada'',
     su_name = \<lparr> sn_formatted = ''Ada L'', sn_familyName = ''L'', sn_givenName = ''Ada'', sn_middleName = None \<rparr>,
     su_emails = [], su_phoneNumbers = None, su_roles = Some [JObj [(''value'', JStr ''admin'')]], su_active = True,
     su_meta = \<lparr> sm_resourceType = [], sm_created = 0, sm_lastModified = 0, sm_location = [], sm_version = [] \<rparr> \<rparr>"

text \<open>A patch with a bare string leaves a role that is no object.\<close>

theorem provisioned_users_typed_witness:
  "let db = fold scim_step [Create 1 ''x'' ''t'' scim_demo] []; i = ''scim_usr_1x'' in
    (case jm_get db i of None \<Rightarrow> False | Some u \<Rightarrow> roles_typed (su_roles u)) \<and>
    (case snd (patchUser 2 i [\<lparr> po_op = Op_replace, po_path = Some ''roles'', po_value = JStr ''root'' \<rparr>] db) of
       Inl _ \<Rightarrow> False | Inr v \<Rightarrow> roles_typed (su_roles v) = False)"
proof -
  let ?db = "fold scim_step [Create 1 ''x'' ''t'' scim_demo] []"
  let ?ops = "[\<lparr> po_op = Op_replace, po_path = Some ''roles'', po_value = JStr ''root'' \<rparr>]"
  have typed: "list_all checked [Create 1 ''x'' ''t'' scim_demo]"
    by (simp add: roles_typed_def scim_demo_def field_typed_def)
  have "map_option su_id (jm_get ?db ''scim_usr_1x'') = Some (Some ''scim_usr_1x'')" by code_simp
  then obtain u where u: "jm_get ?db ''scim_usr_1x'' = Some u" by auto
  have ops: "roles_ops ?ops = ?ops" by (simp add: roles_ops_def)
  show ?thesis
    using provisioned_users_typed [OF typed u, where now' = 2 and ops' = ?ops] u unfolding Let_def ops
    by (auto simp: as_array_def split: sum.splits)
qed

section \<open>Queries\<close>

lemma query_page:
  assumes "sq_startIndex q = Some (int s)" and "sq_count q = Some (int n)" and "0 < s" and "0 < n"
  shows "sc_Resources (queryUsers q db) = take n (drop (s - 1) (scim_filter (sq_filter q) (jm_values db))) \<and>
    sc_totalResults (queryUsers q db) = length (scim_filter (sq_filter q) (jm_values db))"
  using assms by (simp add: queryUsers_def or_default_def Let_def js_slice_nonneg nat_diff_distrib)

text \<open>A start index below one counts from the end of the list, where the protocol reads it as one.\<close>

lemma negative_start_index:
  "map su_id (sc_Resources (queryUsers \<lparr> sq_filter = None, sq_startIndex = Some (- 1), sq_count = None \<rparr>
     [(''a'', scim_demo\<lparr> su_id := Some ''a'' \<rparr>), (''b'', scim_demo\<lparr> su_id := Some ''b'' \<rparr>), (''c'', scim_demo\<lparr> su_id := Some ''c'' \<rparr>)])) = [Some ''b'', Some ''c'']"
  by code_simp

end
