(* ===== verification/Telemetry.thy ===== *)
theory Telemetry
  imports Prelude Double "HOL-Library.While_Combinator"
begin

text \<open>
  The sliding window of request latencies (analytics-service/src/metrics/RealtimeThroughputStreamAggregator.ts).
  The eviction loop is a \<open>while\<close> over the buffer; \<open>None\<close> would be a loop that never ends. Durations are
  doubles.
\<close>

record ILatencyTelemetryPoint =
  lp_timestampMs :: int
  lp_serviceId :: string
  lp_durationMs :: rat
  lp_isError :: bool

text \<open>\<open>while (buffer.length > 0 && buffer[0].timestampMs < cutoff) buffer.shift()\<close>.\<close>

definition evict :: "int \<Rightarrow> ILatencyTelemetryPoint list \<Rightarrow> ILatencyTelemetryPoint list option" where
  "evict cutoff = while_option (\<lambda>b. 0 < length b \<and> lp_timestampMs (b ! 0) < cutoff) tl"

definition ingestSample :: "instant \<Rightarrow> ILatencyTelemetryPoint \<Rightarrow> ILatencyTelemetryPoint list \<Rightarrow> ILatencyTelemetryPoint list option" where
  "ingestSample now sample buffer = evict (now - 300000) (buffer @ [sample])"

record window_stats =
  ws_count :: nat
  ws_p50Ms :: rat
  ws_p90Ms :: rat
  ws_p99Ms :: rat
  ws_errorRatePct :: rat

definition percentile_index :: "rat \<Rightarrow> nat \<Rightarrow> nat" where
  "percentile_index p n = nat (Math_floor (dmul (of_nat n) (fl p)))"

text \<open>A missing or empty service identifier selects all samples.\<close>

definition window_samples :: "string option \<Rightarrow> ILatencyTelemetryPoint list \<Rightarrow> ILatencyTelemetryPoint list" where
  "window_samples serviceId buffer =
     (case serviceId of
        None \<Rightarrow> buffer
      | Some i \<Rightarrow> if i = [] then buffer else filter (\<lambda>s. lp_serviceId s = i) buffer)"

definition computeWindowStats :: "string option \<Rightarrow> ILatencyTelemetryPoint list \<Rightarrow> window_stats" where
  "computeWindowStats serviceId buffer =
     (let samples = window_samples serviceId buffer; n = length samples
      in if samples = [] then \<lparr> ws_count = 0, ws_p50Ms = 0, ws_p90Ms = 0, ws_p99Ms = 0, ws_errorRatePct = 0 \<rparr>
         else let sortedDurations = sort (map lp_durationMs samples);
                  errorCount = length (filter lp_isError samples)
              in \<lparr> ws_count = n,
                   ws_p50Ms = toFixed 2 (sortedDurations ! percentile_index (50 / 100) n),
                   ws_p90Ms = toFixed 2 (sortedDurations ! percentile_index (90 / 100) n),
                   ws_p99Ms = toFixed 2 (sortedDurations ! percentile_index (99 / 100) n),
                   ws_errorRatePct = toFixed 2 (dmul (ddiv (of_nat errorCount) (of_nat n)) 100) \<rparr>)"

section \<open>The eviction loop ends\<close>

text \<open>Each round removes a sample, so the length of the buffer bounds the rounds; what is left is the buffer
  without its outdated prefix.\<close>

lemma evict_dropWhile: "evict cutoff b = Some (dropWhile (\<lambda>s. lp_timestampMs s < cutoff) b)"
proof (induction b)
  case Nil
  show ?case by (simp add: evict_def while_option_unfold)
next
  case (Cons s b)
  then show ?case unfolding evict_def by (subst while_option_unfold) simp
qed

lemma sorted_filter_dropWhile:
  "sorted (map f xs) \<Longrightarrow> dropWhile (\<lambda>x. f x < (c :: int)) xs = filter (\<lambda>x. c \<le> f x) xs"
proof (induction xs)
  case (Cons x xs)
  then have "list_all (\<lambda>y. f x \<le> f y) xs" by (simp add: list_all_iff)
  then have "c \<le> f x \<Longrightarrow> filter (\<lambda>y. c \<le> f y) xs = xs" by (auto simp: filter_id_conv list_all_iff)
  with Cons show ?case by auto
qed simp

text \<open>A stream of samples with the clock at each ingestion.\<close>

primrec ingest_all :: "(instant \<times> ILatencyTelemetryPoint) list \<Rightarrow> ILatencyTelemetryPoint list \<Rightarrow> ILatencyTelemetryPoint list option" where
  "ingest_all [] b = Some b"
| "ingest_all (c # cs) b = Option.bind (ingestSample (fst c) (snd c) b) (ingest_all cs)"

lemma ingest_all_snoc: "ingest_all (cs @ [c]) b = Option.bind (ingest_all cs b) (ingestSample (fst c) (snd c))"
  by (induction cs arbitrary: b) (simp_all split: bind_splits)

lemma ingest_all_total: "\<exists>b'. ingest_all cs b = Some b'"
  by (induction cs arbitrary: b) (simp_all add: ingestSample_def evict_dropWhile)

lemma ingest_window:
  assumes "sorted (map (\<lambda>c. lp_timestampMs (snd c)) cs)" and "sorted (map fst cs)" and "cs \<noteq> []"
  shows "ingest_all cs [] = Some (filter (\<lambda>s. fst (last cs) - 300000 \<le> lp_timestampMs s) (map snd cs))"
  using assms
proof (induction cs rule: rev_induct)
  case (snoc c cs)
  have sorted: "sorted (map lp_timestampMs (map snd cs @ [snd c]))"
    using snoc.prems(1) by (simp add: comp_def)
  let ?keep = "\<lambda>n. filter (\<lambda>s. n - 300000 \<le> lp_timestampMs s)"
  have before: "\<exists>b. ingest_all cs [] = Some b \<and> ?keep (fst c) b = ?keep (fst c) (map snd cs) \<and> sorted (map lp_timestampMs (b @ [snd c]))"
  proof (cases "cs = []")
    case False
    then have "fst (last cs) \<le> fst c" using snoc.prems(2) by (simp add: sorted_append)
    then have "?keep (fst c) (?keep (fst (last cs)) (map snd cs)) = ?keep (fst c) (map snd cs)"
      unfolding filter_filter by (intro filter_cong) auto
    moreover have "sorted (map lp_timestampMs (?keep (fst (last cs)) (map snd cs) @ [snd c]))"
      using sorted by (auto simp: sorted_append sorted_filter)
    ultimately show ?thesis using snoc.IH snoc.prems False by (simp add: sorted_append)
  qed simp
  then obtain b where b: "ingest_all cs [] = Some b" "?keep (fst c) b = ?keep (fst c) (map snd cs)"
    "sorted (map lp_timestampMs (b @ [snd c]))" by blast
  have "ingest_all (cs @ [c]) [] = Some (?keep (fst c) (b @ [snd c]))"
    using sorted_filter_dropWhile [OF b(3), of "fst c - 300000"]
    by (simp add: ingest_all_snoc b(1) ingestSample_def evict_dropWhile)
  then show ?case using b(2) by simp
qed simp

section \<open>Percentiles\<close>

lemma percentile_index_less:
  assumes "0 < n" and "n \<le> 10 ^ 12" and "p \<in> {50 / 100, 90 / 100, 99 / 100}"
  shows "percentile_index p n < n"
proof -
  have n: "(1 :: rat) \<le> of_nat n" "(of_nat n :: rat) \<le> 10 ^ 12"
    using assms(1,2) of_nat_mono [of 1 n, where ?'a = rat] of_nat_mono [of n "10 ^ 12", where ?'a = rat] by simp_all
  have p: "0 \<le> p" "p \<le> 99 / 100" using assms(3) by auto
  have "of_nat n * p \<le> of_nat n * (99 / 100)" using p by (intro mult_left_mono) simp_all
  then have np: "of_nat n * p \<le> 99 / 100 * of_nat n" by simp
  have "3 * x / 2 ^ 53 \<le> y / 1000" if "x \<le> 99 / 100 * y" and "0 \<le> y" for x y :: rat using that by simp
  from this [OF np] have "3 * (of_nat n * p) / 2 ^ 53 \<le> of_nat n / 1000" by simp
  moreover have "\<bar>dmul (of_nat n) (fl p) - of_nat n * p\<bar> \<le> 3 * (of_nat n * p) / 2 ^ 53"
    by (rule fl_product_error [OF p(1)]) simp
  ultimately have "dmul (of_nat n) (fl p) \<le> of_nat n * p + of_nat n / 1000" by linarith
  with np n(1) have "dmul (of_nat n) (fl p) < of_nat n" by linarith
  then have "Math_floor (dmul (of_nat n) (fl p)) < int n" unfolding Math_floor_def by (simp add: floor_less_iff)
  then show ?thesis using assms(1) by (simp add: percentile_index_def)
qed

lemma percentile_index_mono: "p \<le> q \<Longrightarrow> percentile_index p n \<le> percentile_index q n"
  unfolding percentile_index_def Math_floor_def dmul_def
  by (intro nat_mono floor_mono fl_mono mult_left_mono) simp_all

lemma nth_sorted_mono:
  fixes xs :: "rat list"
  shows "i \<le> j \<Longrightarrow> j < length xs \<Longrightarrow> sort xs ! i \<le> sort xs ! j"
  by (rule sorted_nth_mono) simp_all

lemma window_samples_length: "length (window_samples service b) \<le> length b"
  by (simp add: window_samples_def split: option.split)

lemma window_samples_subset: "set (window_samples service b) \<subseteq> set b"
  by (auto simp: window_samples_def split: option.splits if_splits)

text \<open>C38: the window loop ends, and it holds the last five minutes. Whatever the buffer, the clock and the sample,
  ingestion returns, with the buffer and the new sample less its outdated prefix; so any stream is
  ingested. When neither the clock nor the timestamps run backwards, the buffer after a stream is
  exactly its samples of the last five minutes, in order; and over durations that are not negative, of
  all services or of one, the three percentiles are in order.\<close>

theorem window_loop_terminates:
  assumes "sorted (map (\<lambda>c. lp_timestampMs (snd c)) stream)" and "sorted (map fst stream)" and "stream \<noteq> []"
    and "list_all (\<lambda>c. 0 \<le> lp_durationMs (snd c)) stream" and "length stream \<le> 10 ^ 12"
  shows "ingestSample now sample buffer =
      Some (dropWhile (\<lambda>s. lp_timestampMs s < now - 300000) (buffer @ [sample])) \<and>
    (\<exists>b. ingest_all stream [] = Some b \<and>
      b = filter (\<lambda>s. fst (last stream) - 300000 \<le> lp_timestampMs s) (map snd stream) \<and>
      ws_p50Ms (computeWindowStats service b) \<le> ws_p90Ms (computeWindowStats service b) \<and>
      ws_p90Ms (computeWindowStats service b) \<le> ws_p99Ms (computeWindowStats service b))"
proof -
  define b where "b = filter (\<lambda>s. fst (last stream) - 300000 \<le> lp_timestampMs s) (map snd stream)"
  define ws where "ws = window_samples service b"
  have "length b \<le> length stream" unfolding b_def by (rule order_trans [OF length_filter_le]) simp
  with window_samples_length [of service b] assms(5) have len: "length ws \<le> 10 ^ 12" unfolding ws_def by linarith
  have nonneg: "0 \<le> lp_durationMs s" if "s \<in> set ws" for s
    using that window_samples_subset [of service b] assms(4) by (auto simp: ws_def b_def list_all_iff)
  have "ws_p50Ms (computeWindowStats service b) \<le> ws_p90Ms (computeWindowStats service b) \<and>
    ws_p90Ms (computeWindowStats service b) \<le> ws_p99Ms (computeWindowStats service b)"
  proof (cases "ws = []")
    case False
    let ?d = "sort (map lp_durationMs ws)" and ?i = "\<lambda>p. percentile_index p (length ws)"
    have idx: "?i (50 / 100) < length ws" "?i (90 / 100) < length ws" "?i (99 / 100) < length ws"
      using False len by (intro percentile_index_less; simp)+
    have pos: "0 \<le> ?d ! k" if "k < length ws" for k
      using nth_mem [of k ?d] that nonneg by auto
    have "?d ! ?i (50 / 100) \<le> ?d ! ?i (90 / 100)" "?d ! ?i (90 / 100) \<le> ?d ! ?i (99 / 100)"
      using idx by (intro nth_sorted_mono percentile_index_mono; simp)+
    with pos [OF idx(1)] pos [OF idx(2)] False show ?thesis
      by (simp add: computeWindowStats_def ws_def [symmetric] Let_def toFixed_mono)
  qed (simp add: computeWindowStats_def ws_def [symmetric])
  then show ?thesis
    using ingest_window [OF assms(1-3)] by (simp add: ingestSample_def evict_dropWhile b_def [symmetric])
qed

text \<open>Two samples, six minutes apart: the first is evicted.\<close>

theorem window_loop_terminates_witness:
  "let p = (\<lambda>t d. \<lparr> lp_timestampMs = t, lp_serviceId = ''api'', lp_durationMs = d, lp_isError = False \<rparr>) in
    map_option (map lp_timestampMs) (ingest_all [(1000, p 1000 5), (361000, p 361000 7)] []) = Some [361000]"
proof -
  let ?p = "\<lambda>t d. \<lparr> lp_timestampMs = t, lp_serviceId = ''api'', lp_durationMs = d, lp_isError = False \<rparr>"
  have "\<exists>b. ingest_all [(1000, ?p 1000 5), (361000, ?p 361000 7)] [] = Some b \<and> b = [?p 361000 7]"
    using window_loop_terminates [of "[(1000, ?p 1000 5), (361000, ?p 361000 7)]" 0 "?p 0 0" "[]" None] by auto
  then show ?thesis by (auto simp: Let_def)
qed

text \<open>The loop stops at the first fresh sample: a late one behind it stays, however old.\<close>

lemma late_sample_stays:
  "map_option (map lp_timestampMs) (ingestSample 1000000
     \<lparr> lp_timestampMs = 1, lp_serviceId = [], lp_durationMs = 0, lp_isError = False \<rparr>
     [\<lparr> lp_timestampMs = 999999, lp_serviceId = [], lp_durationMs = 0, lp_isError = False \<rparr>]) = Some [999999, 1]"
  by (simp add: ingestSample_def evict_dropWhile)

end
