(* ===== verification/Platform_Core.thy ===== *)
theory Platform_Core
  imports Prelude Double
begin

text \<open>
  Shared modules of packages/common and of the gateway: matrix operations
  (math/MatrixOperationsLibrary.ts), the context store of the core module
  (core/CoreEnterpriseModule.ts), the domain subsystem managers (domain/module_01.ts and its fourteen
  copies) and the federated query planner (api-gateway/src/federation/GraphQLSchemaStitcher.ts).
\<close>

section \<open>Matrices\<close>

text \<open>A cell of a matrix is a double or \<open>None\<close>: \<open>undefined\<close> in a row that is too short, \<open>NaN\<close> in a
  product. \<open>Inl\<close> is an exception: the code's own, or the \<open>TypeError\<close> of reading the first row of a matrix that has
  none.\<close>

type_synonym matrix = "rat option list list"

definition mcell :: "matrix \<Rightarrow> nat \<Rightarrow> nat \<Rightarrow> rat option" where
  "mcell m r c = (if c < length (m ! r) then m ! r ! c else None)"

definition no_first_row :: string where
  "no_first_row = ''TypeError: Cannot read properties of undefined''"

definition add_product :: "rat option \<Rightarrow> rat option \<Rightarrow> rat option \<Rightarrow> rat option" where
  "add_product s x y = (case (s, x, y) of (Some s, Some x, Some y) \<Rightarrow> Some (dadd s (dmul x y)) | _ \<Rightarrow> None)"

definition dot :: "matrix \<Rightarrow> matrix \<Rightarrow> nat \<Rightarrow> nat \<Rightarrow> nat \<Rightarrow> rat option" where
  "dot a b r c n = fold (\<lambda>k s. add_product s (mcell a r k) (mcell b k c)) [0..<n] (Some 0)"

definition multiply :: "matrix \<Rightarrow> matrix \<Rightarrow> string + matrix" where
  "multiply a b =
     (if a = [] \<or> b = [] then Inl no_first_row
      else let rowsA = length a; colsA = length (a ! 0); rowsB = length b; colsB = length (b ! 0)
        in if colsA \<noteq> rowsB then Inl ''Incompatible matrix dimensions for multiplication''
           else Inr (map (\<lambda>r. map (\<lambda>c. map_option (toFixed 4) (dot a b r c colsA)) [0..<colsB]) [0..<rowsA]))"

definition transpose_matrix :: "matrix \<Rightarrow> string + matrix" where
  "transpose_matrix m =
     (if m = [] then Inl no_first_row
      else Inr (map (\<lambda>c. map (\<lambda>r. mcell m r c) [0..<length m]) [0..<length (m ! 0)]))"

text \<open>The type of a matrix: \<open>r\<close> rows of \<open>c\<close> numbers.\<close>

definition shaped :: "nat \<Rightarrow> nat \<Rightarrow> matrix \<Rightarrow> bool" where
  "shaped r c m \<longleftrightarrow> length m = r \<and> list_all (\<lambda>row. length row = c \<and> None \<notin> set row) m"

lemma shaped_cell: "shaped r c m \<Longrightarrow> i < r \<Longrightarrow> j < c \<Longrightarrow> mcell m i j = m ! i ! j \<and> (\<exists>x. m ! i ! j = Some x)"
proof -
  assume "shaped r c m" "i < r" "j < c"
  then have "length (m ! i) = c" "None \<notin> set (m ! i)" by (auto simp: shaped_def list_all_length)
  with \<open>j < c\<close> have "m ! i ! j \<noteq> None" by (metis nth_mem)
  with \<open>length (m ! i) = c\<close> \<open>j < c\<close> show ?thesis by (simp add: mcell_def)
qed

lemma shaped_first_row: "shaped r c m \<Longrightarrow> 0 < r \<Longrightarrow> m \<noteq> [] \<and> length (m ! 0) = c"
  by (auto simp: shaped_def list_all_length)

lemma shaped_map: "(\<And>i j. i < r \<Longrightarrow> j < c \<Longrightarrow> f i j \<noteq> None) \<Longrightarrow> shaped r c (map (\<lambda>i. map (f i) [0..<c]) [0..<r])"
  by (auto simp: shaped_def list_all_length in_set_conv_nth)

lemma shaped_eqI:
  assumes "shaped r c a" and "shaped r c b" and "\<And>i j. i < r \<Longrightarrow> j < c \<Longrightarrow> a ! i ! j = b ! i ! j"
  shows "a = b"
proof (rule nth_equalityI)
  show "length a = length b" using assms by (simp add: shaped_def)
  fix i assume "i < length a"
  then have i: "i < r" using assms(1) by (simp add: shaped_def)
  have "length (a ! i) = c" "length (b ! i) = c" using assms(1,2) i by (auto simp: shaped_def list_all_length)
  with assms(3) [OF i] show "a ! i = b ! i" by (auto intro: nth_equalityI)
qed

lemma dot_Suc: "dot a b r c (Suc k) = add_product (dot a b r c k) (mcell a r k) (mcell b k c)"
  by (simp add: dot_def)

lemma dot_numeric:
  assumes "shaped r n a" and "shaped n c b" and "i < r" and "j < c" and "k \<le> n"
  shows "\<exists>x. dot a b i j k = Some x"
  using assms(5)
proof (induction k)
  case (Suc k)
  then obtain x where x: "dot a b i j k = Some x" by auto
  obtain y z where "mcell a i k = Some y" "mcell b k j = Some z"
    using shaped_cell [OF assms(1,3), of k] shaped_cell [OF assms(2) _ assms(4), of k] Suc.prems by auto
  with x show ?case by (simp add: dot_Suc add_product_def)
qed (simp add: dot_def)

lemma multiply_shaped:
  assumes "shaped r n a" and "shaped n c b" and "0 < r" and "0 < n"
  shows "multiply a b = Inr (map (\<lambda>i. map (\<lambda>j. map_option (toFixed 4) (dot a b i j n)) [0..<c]) [0..<r])"
    and "shaped r c (map (\<lambda>i. map (\<lambda>j. map_option (toFixed 4) (dot a b i j n)) [0..<c]) [0..<r])"
proof -
  note first = shaped_first_row [OF assms(1,3)] shaped_first_row [OF assms(2,4)]
  have len: "length a = r" "length b = n" using assms(1,2) by (simp_all add: shaped_def)
  show "multiply a b = Inr (map (\<lambda>i. map (\<lambda>j. map_option (toFixed 4) (dot a b i j n)) [0..<c]) [0..<r])"
    using first len by (simp add: multiply_def Let_def)
  show "shaped r c (map (\<lambda>i. map (\<lambda>j. map_option (toFixed 4) (dot a b i j n)) [0..<c]) [0..<r])"
    using dot_numeric [OF assms(1,2)] by (intro shaped_map) fastforce
qed

lemma transpose_shaped:
  assumes "shaped r c m" and "0 < r"
  shows "transpose_matrix m = Inr (map (\<lambda>j. map (\<lambda>i. mcell m i j) [0..<r]) [0..<c])"
    and "shaped c r (map (\<lambda>j. map (\<lambda>i. mcell m i j) [0..<r]) [0..<c])"
proof -
  show "transpose_matrix m = Inr (map (\<lambda>j. map (\<lambda>i. mcell m i j) [0..<r]) [0..<c])"
    using shaped_first_row [OF assms] assms(1) by (simp add: transpose_matrix_def shaped_def)
  show "shaped c r (map (\<lambda>j. map (\<lambda>i. mcell m i j) [0..<r]) [0..<c])"
    using shaped_cell [OF assms(1)] by (intro shaped_map) fastforce
qed

lemma transposed_cell:
  "i < r \<Longrightarrow> j < c \<Longrightarrow> mcell (map (\<lambda>j. map (\<lambda>i. f i j) [0..<r]) [0..<c]) j i = f i j"
  by (simp add: mcell_def)

text \<open>C28: matrix operations are typed. Multiplying a matrix of \<open>r\<close> rows and \<open>n\<close> columns of numbers with one of \<open>n'\<close>
  rows and \<open>c\<close> columns gives a matrix of \<open>r\<close> rows and \<open>c\<close> columns of numbers if \<open>n = n'\<close>, and
  otherwise the code's error; the transpose has \<open>c\<close> rows and \<open>r\<close> columns. Transposing twice gives the matrix
  back, and the transpose of a product is the product of the transposes in the other order, to the
  last bit, since the sums run over the same products in the same order.\<close>

theorem matrix_operations_typed:
  assumes "shaped r n a" and "shaped n' c b" and "0 < r" and "0 < n" and "0 < n'" and "0 < c"
  shows "(case multiply a b of
       Inr p \<Rightarrow> n = n' \<and> shaped r c p
     | Inl e \<Rightarrow> n \<noteq> n' \<and> e = ''Incompatible matrix dimensions for multiplication'') \<and>
    (\<exists>aT. transpose_matrix a = Inr aT \<and> shaped n r aT \<and> transpose_matrix aT = Inr a) \<and>
    (n = n' \<longrightarrow> (\<exists>p aT bT. multiply a b = Inr p \<and> transpose_matrix a = Inr aT \<and> transpose_matrix b = Inr bT \<and>
       multiply bT aT = transpose_matrix p))"
proof -
  define aT where "aT = map (\<lambda>j. map (\<lambda>i. mcell a i j) [0..<r]) [0..<n]"
  note atrans = transpose_shaped [OF assms(1,3), folded aT_def]
  have twice: "transpose_matrix aT = Inr a"
  proof -
    have "map (\<lambda>j. map (\<lambda>i. mcell aT i j) [0..<n]) [0..<r] = a"
      using transpose_shaped(2) [OF atrans(2) assms(4)] assms(1)
    proof (rule shaped_eqI)
      fix i j assume ij: "i < r" "j < n"
      then show "map (\<lambda>j. map (\<lambda>i. mcell aT i j) [0..<n]) [0..<r] ! i ! j = a ! i ! j"
        using shaped_cell [OF assms(1) ij] by (simp add: aT_def transposed_cell)
    qed
    with transpose_shaped(1) [OF atrans(2) assms(4)] show ?thesis by simp
  qed
  have wrong: "multiply a b = Inl ''Incompatible matrix dimensions for multiplication''" if "n \<noteq> n'"
    using that shaped_first_row [OF assms(1,3)] shaped_first_row [OF assms(2,5)] assms(2)
    by (simp add: multiply_def Let_def shaped_def)
  have swap: "\<exists>p aT bT. multiply a b = Inr p \<and> transpose_matrix a = Inr aT \<and> transpose_matrix b = Inr bT \<and>
       multiply bT aT = transpose_matrix p" if "n = n'"
  proof -
    have b: "shaped n c b" using assms(2) that by simp
    define bT where "bT = map (\<lambda>j. map (\<lambda>i. mcell b i j) [0..<n]) [0..<c]"
    note tb = transpose_shaped [OF b assms(4), folded bT_def]
    define p where "p = map (\<lambda>i. map (\<lambda>j. map_option (toFixed 4) (dot a b i j n)) [0..<c]) [0..<r]"
    note mp = multiply_shaped [OF assms(1) b assms(3,4), folded p_def]
    have sum: "dot bT aT j i n = dot a b i j n" if "i < r" "j < c" for i j
      unfolding dot_def
    proof (rule fold_cong)
      fix k assume "k \<in> set [0..<n]"
      with that have "mcell bT j k = mcell b k j" "mcell aT k i = mcell a i k"
        by (simp_all add: bT_def aT_def transposed_cell)
      then show "(\<lambda>s. add_product s (mcell bT j k) (mcell aT k i)) = (\<lambda>s. add_product s (mcell a i k) (mcell b k j))"
        by (auto simp: add_product_def dmul_def mult.commute split: option.split)
    qed simp_all
    have "multiply bT aT = Inr (map (\<lambda>j. map (\<lambda>i. map_option (toFixed 4) (dot bT aT j i n)) [0..<r]) [0..<c])"
      by (rule multiply_shaped(1) [OF tb(2) atrans(2) assms(6,4)])
    also have "map (\<lambda>j. map (\<lambda>i. map_option (toFixed 4) (dot bT aT j i n)) [0..<r]) [0..<c] =
        map (\<lambda>j. map (\<lambda>i. mcell p i j) [0..<r]) [0..<c]"
      by (intro map_cong refl) (simp add: sum p_def mcell_def)
    also have "Inr \<dots> = transpose_matrix p" by (rule transpose_shaped(1) [OF mp(2) assms(3), symmetric])
    finally show ?thesis using mp(1) atrans(1) tb(1) by blast
  qed
  have "case multiply a b of Inr p \<Rightarrow> n = n' \<and> shaped r c p
     | Inl e \<Rightarrow> n \<noteq> n' \<and> e = ''Incompatible matrix dimensions for multiplication''"
    using wrong multiply_shaped [OF assms(1) _ assms(3,4), of c b] assms(2) by (cases "n = n'") simp_all
  with atrans twice swap show ?thesis by blast
qed

text \<open>A row of three times a column of three, and the mismatch the other way round with two.\<close>

theorem matrix_operations_typed_witness:
  "(case multiply [[Some 1, Some 2, Some 3]] [[Some 4], [Some 5], [Some 6]] of Inl e \<Rightarrow> False | Inr p \<Rightarrow> shaped 1 1 p) \<and>
    (case multiply [[Some 1, Some 2, Some 3]] [[Some 4], [Some 5]] of Inl e \<Rightarrow> True | Inr p \<Rightarrow> False)"
proof -
  have s: "shaped 1 3 [[Some 1, Some 2, Some 3]]" "shaped 3 1 [[Some 4], [Some 5], [Some 6]]" "shaped 2 1 [[Some 4], [Some 5]]"
    by (simp_all add: shaped_def)
  show ?thesis
    using matrix_operations_typed [OF s(1,2), THEN conjunct1] matrix_operations_typed [OF s(1,3), THEN conjunct1]
    by (auto split: sum.splits)
qed

section \<open>The context store of the core module\<close>

datatype attribute_value = AString string | ANumber rat | ABool bool

record IEnterpriseContext =
  ec_contextId :: string
  ec_tenantId :: string
  ec_partitionKey :: string
  ec_sequenceNumber :: rat
  ec_isCommitted :: bool
  ec_lockTimestamp :: instant
  ec_attributes :: "(string, attribute_value) jsmap"
  ec_hashSignature :: string

record core_module =
  cm_contextStore :: "(string, IEnterpriseContext) jsmap"
  cm_isInitialized :: bool

definition core_empty :: core_module where
  "core_empty = \<lparr> cm_contextStore = [], cm_isInitialized = False \<rparr>"

definition initialize :: "core_module \<Rightarrow> core_module" where
  "initialize s = s\<lparr> cm_isInitialized := True \<rparr>"

definition registerContext :: "IEnterpriseContext \<Rightarrow> core_module \<Rightarrow> core_module \<times> bool" where
  "registerContext ctx s =
     (let s = (if cm_isInitialized s then s else initialize s)
      in if jm_has (cm_contextStore s) (ec_contextId ctx) then (s, False)
         else (s\<lparr> cm_contextStore := jm_set (ec_contextId ctx) ctx (cm_contextStore s) \<rparr>, True))"

text \<open>The handler mutates the context it is given: it is a function on contexts.\<close>

definition processPartition :: "string \<Rightarrow> (IEnterpriseContext \<Rightarrow> IEnterpriseContext) \<Rightarrow> core_module \<Rightarrow> core_module \<times> nat" where
  "processPartition partitionKey handler s =
     (s\<lparr> cm_contextStore := map (\<lambda>(k, ctx). (k, if ec_partitionKey ctx = partitionKey then handler ctx else ctx)) (cm_contextStore s) \<rparr>,
      length (filter (\<lambda>ctx. ec_partitionKey ctx = partitionKey) (jm_values (cm_contextStore s))))"

definition verifyInvariants :: "string \<Rightarrow> core_module \<Rightarrow> bool" where
  "verifyInvariants contextId s =
     (case jm_get (cm_contextStore s) contextId of
        None \<Rightarrow> False
      | Some ctx \<Rightarrow> 0 \<le> ec_sequenceNumber ctx \<and> 0 < length (ec_tenantId ctx))"

definition releaseContext :: "string \<Rightarrow> core_module \<Rightarrow> core_module \<times> bool" where
  "releaseContext contextId s =
     (s\<lparr> cm_contextStore := jm_delete contextId (cm_contextStore s) \<rparr>, jm_has (cm_contextStore s) contextId)"

definition getContextCount :: "core_module \<Rightarrow> nat" where
  "getContextCount s = length (cm_contextStore s)"

text \<open>A registered context is never replaced by a registration, only by the handlers of its partition.\<close>

lemma register_first_wins:
  "jm_get (cm_contextStore s) i = Some ctx \<Longrightarrow> jm_get (cm_contextStore (fst (registerContext c s))) i = Some ctx"
  by (auto simp: registerContext_def Let_def initialize_def)

lemma map_of_map_values: "jm_get (map (\<lambda>(k, v). (k, f v)) m) i = map_option f (jm_get m i)"
  by (induction m) auto

lemma partition_isolated:
  "jm_get (cm_contextStore (fst (processPartition p h s))) i =
    map_option (\<lambda>ctx. if ec_partitionKey ctx = p then h ctx else ctx) (jm_get (cm_contextStore s) i)"
  by (simp add: processPartition_def map_of_map_values)

lemma release_counts:
  assumes "jm_ok (cm_contextStore s)"
  shows "getContextCount (fst (releaseContext i s)) + (if snd (releaseContext i s) then 1 else 0) = getContextCount s"
proof -
  have "length (jm_delete i m) + (if jm_has m i then 1 else 0) = length m" if "jm_ok m" for m :: "(string, IEnterpriseContext) jsmap"
    using that
  proof (induction m)
    case (Cons x m)
    show ?case
    proof (cases "fst x = i")
      case True
      then have "i \<notin> fst ` set m" using Cons.prems by auto
      then have "jm_delete i m = m" by (rule delete_id)
      with True show ?thesis by (cases x) simp
    next
      case False
      with Cons show ?thesis by (cases x) (auto split: if_splits)
    qed
  qed simp
  with assms show ?thesis by (simp add: getContextCount_def releaseContext_def)
qed

section \<open>Subsystem managers\<close>

record EnterpriseDomainEntity =
  ed_id :: string
  ed_tenantId :: string
  ed_subsystemCode :: string
  ed_sequenceIndex :: rat
  ed_checksumSha256 :: string
  ed_isActive :: bool
  ed_tags :: "string list"
  ed_auditTimestamp :: instant

type_synonym subsystem = "(string, EnterpriseDomainEntity) jsmap"

definition registerEntity :: "EnterpriseDomainEntity \<Rightarrow> subsystem \<Rightarrow> string + subsystem" where
  "registerEntity e m =
     (if ed_id e = [] \<or> ed_tenantId e = [] then Inl ''Entity must provide valid primary keys''
      else Inr (jm_set (ed_id e) e m))"

definition validateConsistency :: "string \<Rightarrow> subsystem \<Rightarrow> bool" where
  "validateConsistency i m = (case jm_get m i of None \<Rightarrow> False | Some r \<Rightarrow> ed_isActive r \<and> 0 \<le> ed_sequenceIndex r)"

definition computeSubsystemThroughput :: "subsystem \<Rightarrow> rat" where
  "computeSubsystemThroughput m = foldl (\<lambda>acc r. dadd acc (ed_sequenceIndex r)) 0 (jm_values m)"

definition batchProcess :: "string \<Rightarrow> (EnterpriseDomainEntity \<Rightarrow> EnterpriseDomainEntity) \<Rightarrow> subsystem \<Rightarrow> subsystem \<times> nat" where
  "batchProcess tenantId processor m =
     (map (\<lambda>(k, e). (k, if ed_tenantId e = tenantId then processor e else e)) m,
      length (filter (\<lambda>e. ed_tenantId e = tenantId) (jm_values m)))"

text \<open>A batch touches the entities of its tenant only.\<close>

lemma batch_isolated:
  "jm_get (fst (batchProcess t f m)) i = map_option (\<lambda>e. if ed_tenantId e = t then f e else e) (jm_get m i)"
  by (simp add: batchProcess_def map_of_map_values)

lemma registered_have_keys:
  assumes "\<forall>e \<in> set (jm_values m). ed_id e \<noteq> [] \<and> ed_tenantId e \<noteq> []" and "registerEntity e m = Inr m'"
  shows "\<forall>e \<in> set (jm_values m'). ed_id e \<noteq> [] \<and> ed_tenantId e \<noteq> []"
  using assms by (auto simp: registerEntity_def split: if_splits dest!: jm_set_value)

section \<open>The query planner\<close>

record IQueryPlanNode =
  pn_nodeId :: string
  pn_targetService :: string
  pn_queryFragment :: string
  pn_dependsOnNodeId :: "string option"
  pn_variableRequirements :: "string list"

definition compileQueryPlan :: "string \<Rightarrow> IQueryPlanNode list" where
  "compileQueryPlan rawQuery =
     (if str_includes rawQuery ''order''
      then [\<lparr> pn_nodeId = ''plan_node_order'', pn_targetService = ''order-service'',
              pn_queryFragment = ''{ order(id: $id) { id total customerId itemIds } }'',
              pn_dependsOnNodeId = None, pn_variableRequirements = [''id''] \<rparr>] else []) @
     (if str_includes rawQuery ''inventory''
      then [\<lparr> pn_nodeId = ''plan_node_inventory'', pn_targetService = ''inventory-service'',
              pn_queryFragment = ''{ inventory(skuList: $skuList) { sku available warehouseId } }'',
              pn_dependsOnNodeId = Some ''plan_node_order'', pn_variableRequirements = [''skuList''] \<rparr>] else []) @
     (if str_includes rawQuery ''shipment''
      then [\<lparr> pn_nodeId = ''plan_node_logistics'', pn_targetService = ''logistics-service'',
              pn_queryFragment = ''{ shipment(orderId: $orderId) { trackingNumber status eta } }'',
              pn_dependsOnNodeId = Some ''plan_node_order'', pn_variableRequirements = [''orderId''] \<rparr>] else [])"

definition plan_closed :: "IQueryPlanNode list \<Rightarrow> bool" where
  "plan_closed plan \<longleftrightarrow> list_all (\<lambda>n. case pn_dependsOnNodeId n of None \<Rightarrow> True
     | Some d \<Rightarrow> d \<in> set (map pn_nodeId plan)) plan"

text \<open>A plan depends on nodes it does not hold exactly when the query names inventory or shipments without
  orders.\<close>

lemma plan_closed_iff:
  "plan_closed (compileQueryPlan q) \<longleftrightarrow>
    str_includes q ''order'' \<or> (\<not> str_includes q ''inventory'' \<and> \<not> str_includes q ''shipment'')"
  by (simp add: plan_closed_def compileQueryPlan_def)

end
