(* ===== verification/Order_Engines.thy ===== *)
theory Order_Engines
  imports Prelude Double
begin

text \<open>
  Engines of the order service around an order: returns
  (returns/RmaReturnMerchandiseAuthorizationService.ts), the checkout pipeline
  (checkout/MultiTenantCheckoutPipeline.ts) and the fraud score
  (fraud/OrderRiskFraudEvaluationEngine.ts). Amounts in dollars are doubles.
\<close>

section \<open>Returns\<close>

datatype rma_reason = DAMAGED_IN_TRANSIT | WRONG_ITEM_RECEIVED | DEFECTIVE_PRODUCT | BUYER_REMORSE
datatype return_condition = UNOPENED | OPENED | DAMAGED
datatype rma_status = PENDING_APPROVAL | APPROVED | IN_TRANSIT | INSPECTED | REFUND_PROCESSED | REJECTED

record return_item =
  ri_sku :: string
  ri_quantity :: int
  ri_returnCondition :: return_condition

record IRmaRequest =
  rma_rmaNumber :: string
  rma_originalOrderId :: string
  rma_tenantId :: string
  rma_customerReason :: rma_reason
  rma_returnItems :: "return_item list"
  rma_trackingNumber :: "string option"
  rma_status :: rma_status
  rma_refundAmountUSD :: rat
  rma_restockingFeeUSD :: rat
  rma_createdAt :: instant

type_synonym rma_store = "(string, IRmaRequest) jsmap"

text \<open>\<open>itemPriceMap.get(sku) || 50.0\<close>: a price of zero counts as missing.\<close>

definition rma_unit_price :: "(string, rat) jsmap \<Rightarrow> string \<Rightarrow> rat" where
  "rma_unit_price prices sku = (case jm_get prices sku of None \<Rightarrow> 50 | Some p \<Rightarrow> if p = 0 then 50 else p)"

definition grossRefund :: "(string, rat) jsmap \<Rightarrow> return_item list \<Rightarrow> rat" where
  "grossRefund prices items =
     foldl (\<lambda>acc i. dadd acc (dmul (rma_unit_price prices (ri_sku i)) (of_int (ri_quantity i)))) 0 items"

definition restockingFee :: "rma_reason \<Rightarrow> rat \<Rightarrow> rat" where
  "restockingFee reason gross = (if reason = BUYER_REMORSE then toFixed 2 (dmul gross (fl (15 / 100))) else 0)"

definition createRmaRequest ::
  "instant \<Rightarrow> nat \<Rightarrow> string \<Rightarrow> string \<Rightarrow> rma_reason \<Rightarrow> return_item list \<Rightarrow> (string, rat) jsmap \<Rightarrow> rma_store
     \<Rightarrow> rma_store \<times> IRmaRequest" where
  "createRmaRequest now random orderId tenantId reason items prices m =
     (let rmaNumber = ''RMA-'' @ to_upper (base_string 36 (nat now)) @ ''-'' @ dec_string random;
          gross = grossRefund prices items;
          fee = restockingFee reason gross;
          rma = \<lparr> rma_rmaNumber = rmaNumber, rma_originalOrderId = orderId, rma_tenantId = tenantId,
                  rma_customerReason = reason, rma_returnItems = items, rma_trackingNumber = None,
                  rma_status = PENDING_APPROVAL, rma_refundAmountUSD = toFixed 2 (dsub gross fee),
                  rma_restockingFeeUSD = fee, rma_createdAt = now \<rparr>
      in (jm_set rmaNumber rma m, rma))"

definition approveRma :: "string \<Rightarrow> string \<Rightarrow> rma_store \<Rightarrow> rma_store \<times> (string + IRmaRequest)" where
  "approveRma rmaNumber tracking m =
     (case jm_get m rmaNumber of
        None \<Rightarrow> (m, Inl ''RMA record not found'')
      | Some rma \<Rightarrow>
          let rma = rma\<lparr> rma_status := APPROVED, rma_trackingNumber := Some tracking \<rparr>
          in (jm_set rmaNumber rma m, Inr rma))"

definition processReturnInspection :: "string \<Rightarrow> bool \<Rightarrow> rma_store \<Rightarrow> rma_store \<times> (string + IRmaRequest)" where
  "processReturnInspection rmaNumber inspectionPassed m =
     (case jm_get m rmaNumber of
        None \<Rightarrow> (m, Inl ''RMA record not found'')
      | Some rma \<Rightarrow>
          let rma = rma\<lparr> rma_status := (if inspectionPassed then REFUND_PROCESSED else REJECTED) \<rparr>
          in (jm_set rmaNumber rma m, Inr rma))"

text \<open>The fee is taken from the gross refund and neither amount is negative, for prices and quantities that are
  not.\<close>

lemma grossRefund_nonneg:
  assumes "list_all (\<lambda>i. 0 \<le> ri_quantity i) items" and "list_all (\<lambda>p. 0 \<le> p) (jm_values prices)"
  shows "0 \<le> grossRefund prices items"
proof -
  have price: "0 \<le> rma_unit_price prices sku" for sku
    using assms(2) jm_get_value [of prices sku] by (auto simp: rma_unit_price_def list_all_iff split: option.split)
  have "0 \<le> foldl (\<lambda>acc i. dadd acc (dmul (rma_unit_price prices (ri_sku i)) (of_int (ri_quantity i)))) a items" if "0 \<le> a" for a
    using assms(1) that price by (induction items arbitrary: a) (simp_all add: dadd_def dmul_def fl_nonneg)
  then show ?thesis by (simp add: grossRefund_def)
qed

text \<open>No step of a return looks at its status: one that was rejected, or refunded before, is refunded again.\<close>

lemma inspection_ignores_status:
  "jm_get m i = Some r \<Longrightarrow>
    jm_get (fst (processReturnInspection i True m)) i = Some (r\<lparr> rma_status := REFUND_PROCESSED \<rparr>)"
  by (simp add: processReturnInspection_def Let_def)

section \<open>Checkout\<close>

record checkout_item =
  co_sku :: string
  co_quantity :: rat
  co_unitPriceUSD :: rat

record shipping_address =
  sh_street :: string
  sh_city :: string
  sh_state :: string
  sh_postalCode :: string
  sh_country :: string

record ICheckoutContext =
  cx_checkoutSessionId :: string
  cx_tenantId :: string
  cx_customerId :: string
  cx_items :: "checkout_item list"
  cx_shippingAddress :: shipping_address
  cx_paymentMethodToken :: string
  cx_appliedPromoCode :: "string option"

record stage_result =
  st_stageName :: string
  st_isPassed :: bool

record ICheckoutResult =
  cx_orderId :: string
  cx_isSuccessful :: bool
  cx_totalAmountUSD :: rat
  cx_taxAmountUSD :: rat
  cx_shippingAmountUSD :: rat
  cx_stageResults :: "stage_result list"
  cx_failureReason :: "string option"

text \<open>The execution times of the stages, always measured and never read, are left out.\<close>

definition inventoryPassed :: "checkout_item list \<Rightarrow> bool" where
  "inventoryPassed items \<longleftrightarrow> list_all (\<lambda>i. 0 < co_quantity i \<and> co_quantity i \<le> 500) items"

definition itemsSubtotal :: "checkout_item list \<Rightarrow> rat" where
  "itemsSubtotal items = foldl (\<lambda>acc i. dadd acc (dmul (co_unitPriceUSD i) (co_quantity i))) 0 items"

definition executePipeline :: "instant \<Rightarrow> ICheckoutContext \<Rightarrow> ICheckoutResult" where
  "executePipeline now ctx =
     (let orderId = ''ORD-'' @ to_upper (base_string 36 (nat now));
          inventory = \<lparr> st_stageName = ''INVENTORY_RESERVATION'', st_isPassed = inventoryPassed (cx_items ctx) \<rparr>
      in if \<not> inventoryPassed (cx_items ctx)
         then \<lparr> cx_orderId = orderId, cx_isSuccessful = False, cx_totalAmountUSD = 0, cx_taxAmountUSD = 0,
                cx_shippingAmountUSD = 0, cx_stageResults = [inventory],
                cx_failureReason = Some ''Insufficient inventory'' \<rparr>
         else
           let addressValid = (sh_postalCode (cx_shippingAddress ctx) \<noteq> [] \<and> sh_country (cx_shippingAddress ctx) \<noteq> []);
               subtotal = itemsSubtotal (cx_items ctx);
               taxAmount = toFixed 2 (dmul subtotal (fl (825 / 10000)));
               shippingAmount = (if 100 < subtotal then 0 else 15);
               totalAmount = toFixed 2 (dadd (dadd subtotal taxAmount) shippingAmount);
               paymentPassed = (cx_paymentMethodToken ctx \<noteq> [] \<and> 5 < length (cx_paymentMethodToken ctx))
           in \<lparr> cx_orderId = orderId, cx_isSuccessful = paymentPassed, cx_totalAmountUSD = totalAmount,
                cx_taxAmountUSD = taxAmount, cx_shippingAmountUSD = shippingAmount,
                cx_stageResults = [inventory,
                  \<lparr> st_stageName = ''ADDRESS_STANDARDIZATION'', st_isPassed = addressValid \<rparr>,
                  \<lparr> st_stageName = ''PRICING_AND_TAX_NEXUS'', st_isPassed = True \<rparr>,
                  \<lparr> st_stageName = ''PAYMENT_AUTHORIZATION'', st_isPassed = paymentPassed \<rparr>],
                cx_failureReason = (if paymentPassed then None else Some ''Payment token rejected'') \<rparr>)"

text \<open>A checkout succeeds exactly when every quantity is in range and the token is long enough; a missing
  address fails its stage and nothing else.\<close>

lemma checkout_decides:
  "cx_isSuccessful (executePipeline now ctx) \<longleftrightarrow>
    inventoryPassed (cx_items ctx) \<and> 5 < length (cx_paymentMethodToken ctx)"
  by (auto simp: executePipeline_def Let_def)

lemma checkout_without_address:
  assumes "inventoryPassed (cx_items ctx)" and "5 < length (cx_paymentMethodToken ctx)" and "sh_country (cx_shippingAddress ctx) = []"
  shows "cx_isSuccessful (executePipeline now ctx) \<and> cx_failureReason (executePipeline now ctx) = None \<and>
    \<not> list_all st_isPassed (cx_stageResults (executePipeline now ctx))"
  using assms by (auto simp: executePipeline_def Let_def)

section \<open>Fraud\<close>

record IFraudAssessmentContext =
  fa_orderId :: string
  fa_tenantId :: string
  fa_customerIpAddress :: string
  fa_billingZip :: string
  fa_shippingZip :: string
  fa_orderTotalUSD :: rat
  fa_orderItemCount :: int
  fa_paymentCardBin :: string
  fa_cardIssuerCountry :: string
  fa_deviceFingerprint :: string
  fa_ordersInLastHour :: int
  fa_isFirstTimeBuyer :: bool

datatype fraud_decision = APPROVE | MANUAL_REVIEW | AUTO_REJECT

record IFraudScoreResult =
  fr_orderId :: string
  fr_riskScore :: int
  fr_decision :: fraud_decision
  fr_triggeredRules :: "string list"

text \<open>The rules in order, each with what it adds to the score.\<close>

definition triggered :: "IFraudAssessmentContext \<Rightarrow> (string \<times> int) list" where
  "triggered ctx =
     (if 5 < fa_ordersInLastHour ctx then [(''EXCESSIVE_ORDER_VELOCITY_1H'', 45)]
      else if 2 < fa_ordersInLastHour ctx then [(''MODERATE_ORDER_VELOCITY'', 15)] else []) @
     (if fa_isFirstTimeBuyer ctx \<and> 5000 < fa_orderTotalUSD ctx then [(''FIRST_TIME_BUYER_HIGH_VALUE'', 30)] else []) @
     (if fa_billingZip ctx \<noteq> fa_shippingZip ctx then [(''BILLING_SHIPPING_ZIP_MISMATCH'', 10)] else []) @
     (if fa_cardIssuerCountry ctx \<noteq> ''US'' \<and> fa_cardIssuerCountry ctx \<noteq> ''CA'' then [(''INTERNATIONAL_CARD_ISSUER'', 20)] else [])"

definition evaluateOrder :: "IFraudAssessmentContext \<Rightarrow> IFraudScoreResult" where
  "evaluateOrder ctx =
     (let riskScore = (\<Sum>r \<leftarrow> triggered ctx. snd r)
      in \<lparr> fr_orderId = fa_orderId ctx, fr_riskScore = min 100 riskScore,
           fr_decision = (if 70 \<le> riskScore then AUTO_REJECT else if 35 \<le> riskScore then MANUAL_REVIEW else APPROVE),
           fr_triggeredRules = map fst (triggered ctx) \<rparr>)"

text \<open>A decision of rejection comes from excessive velocity with a large first order or a foreign card and
  another address, or from moderate velocity with all of the other three.\<close>

lemma rejection_rules:
  "fr_decision (evaluateOrder ctx) = AUTO_REJECT \<longleftrightarrow>
    (let large = fa_isFirstTimeBuyer ctx \<and> 5000 < fa_orderTotalUSD ctx;
         away = (fa_billingZip ctx \<noteq> fa_shippingZip ctx);
         foreign = (fa_cardIssuerCountry ctx \<noteq> ''US'' \<and> fa_cardIssuerCountry ctx \<noteq> ''CA'')
     in 5 < fa_ordersInLastHour ctx \<and> (large \<or> away \<and> foreign) \<or>
        2 < fa_ordersInLastHour ctx \<and> large \<and> away \<and> foreign)"
  by (auto simp: evaluateOrder_def triggered_def Let_def split: if_splits)

lemma fraud_score_range: "0 \<le> fr_riskScore (evaluateOrder ctx) \<and> fr_riskScore (evaluateOrder ctx) \<le> 100"
  by (auto simp: evaluateOrder_def triggered_def Let_def)

end
