(* ===== verification/Order_Pricing.thy ===== *)
theory Order_Pricing
  imports Prelude Double
begin

text \<open>
  The pricing engines of the order service: the seeded price matrix
  (pricing/ComprehensiveEnterprisePricingMatrix.ts), bundles (pricing/TieredVolumeDiscountCalculator.ts),
  contract prices with a margin guard (pricing/B2BContractPriceTierCalculator.ts), the quotation of an order
  (pricing/DynamicPricingEngine.ts), freight surcharges (pricing/DynamicSurgeFreightTariffCalculator.ts),
  procurement contracts (contracts/EnterpriseCustomerProcurementContractEngine.ts) and the split of a payment
  (settlement/MultiGatewayEscrowSettlementEngine.ts). Amounts in dollars are doubles.
\<close>

section \<open>The price matrix\<close>

record IPricingMatrixEntry =
  pe_ruleId :: string
  pe_skuCategory :: string
  pe_minVolumeQuantity :: rat
  pe_maxVolumeQuantity :: rat
  pe_baseUnitPriceUSD :: rat
  pe_contractDiscountPct :: rat
  pe_marginFloorUSD :: rat
  pe_currencyIso :: string
  pe_isTaxable :: bool
  pe_freightClassNumber :: nat
  pe_palletCapacity :: nat

definition categories :: "string list" where
  "categories = [''INDUSTRIAL_EQUIPMENT'', ''ELECTRONICS_CONSUMER'', ''PHARMACEUTICAL_COLD'', ''AUTOMOTIVE_PARTS'',
     ''CHEMICAL_HAZMAT'', ''AEROSPACE_COMPONENTS'', ''RAW_MATERIALS'', ''PACKAGING_SUPPLIES'',
     ''FOOD_BEVERAGE_PERISHABLE'', ''APPAREL_TEXTILES'']"

definition price_entry :: "string \<Rightarrow> nat \<Rightarrow> nat \<Rightarrow> IPricingMatrixEntry" where
  "price_entry cat catIdx tier =
     (let basePrice = of_nat (100 + catIdx * 45 + tier * 10)
      in \<lparr> pe_ruleId = ''PRICING_RULE_'' @ cat @ ''_'' @ dec_string tier, pe_skuCategory = cat,
           pe_minVolumeQuantity = of_nat ((tier - 1) * 50 + 1), pe_maxVolumeQuantity = of_nat (tier * 50),
           pe_baseUnitPriceUSD = basePrice, pe_contractDiscountPct = min 35 (dmul (of_nat tier) (7 / 2)),
           pe_marginFloorUSD = dmul basePrice (fl (7 / 10)), pe_currencyIso = ''USD'', pe_isTaxable = True,
           pe_freightClassNumber = 70 + catIdx * 5, pe_palletCapacity = 40 - tier * 2 \<rparr>)"

definition seedPricingRules :: "(string, IPricingMatrixEntry list) jsmap" where
  "seedPricingRules =
     map (\<lambda>(catIdx, cat). (cat, map (price_entry cat catIdx) [1..<9])) (enumerate 0 categories)"


definition price_rows :: "string \<Rightarrow> IPricingMatrixEntry list" where
  "price_rows category =
     (case jm_get seedPricingRules category of
        Some entries \<Rightarrow> entries
      | None \<Rightarrow> the (jm_get seedPricingRules ''INDUSTRIAL_EQUIPMENT''))"

definition matched_row :: "rat \<Rightarrow> IPricingMatrixEntry list \<Rightarrow> IPricingMatrixEntry" where
  "matched_row quantity entries =
     (case find (\<lambda>e. pe_minVolumeQuantity e \<le> quantity \<and> quantity \<le> pe_maxVolumeQuantity e) entries of
        Some e \<Rightarrow> e
      | None \<Rightarrow> last entries)"



definition getCategoryCount :: nat where
  "getCategoryCount = length seedPricingRules"

lemma price_entry_range [simp]:
  "pe_minVolumeQuantity (price_entry cat i t) = of_nat ((t - 1) * 50 + 1)"
  "pe_maxVolumeQuantity (price_entry cat i t) = of_nat (t * 50)"
  by (simp_all add: price_entry_def Let_def)

lemma seeded_rows:
  assumes "jm_get seedPricingRules category = Some entries"
  shows "\<exists>catIdx < 10. entries = map (price_entry category catIdx) [1..<9]"
proof -
  have "(category, entries) \<in> set seedPricingRules" using assms by (rule map_of_SomeD)
  then obtain i where "(i, category) \<in> set (enumerate 0 categories)" and "entries = map (price_entry category i) [1..<9]"
    by (auto simp: seedPricingRules_def)
  moreover from this(1) have "i < 10" by (simp add: in_set_enumerate_eq) (simp add: categories_def)
  ultimately show ?thesis by blast
qed

lemma industrial_rows:
  "jm_get seedPricingRules ''INDUSTRIAL_EQUIPMENT'' = Some (map (price_entry ''INDUSTRIAL_EQUIPMENT'' 0) [1..<9])"
  by (simp only: seedPricingRules_def categories_def enumerate_simps list.map map_of.simps split_conv prod.sel if_True simp_thms fun_upd_apply)

lemma price_rows_tiers: "\<exists>cat catIdx. catIdx < 10 \<and> price_rows category = map (price_entry cat catIdx) [1..<9]"
proof (cases "jm_get seedPricingRules category")
  case None
  then have "price_rows category = map (price_entry ''INDUSTRIAL_EQUIPMENT'' 0) [1..<9]"
    by (simp only: price_rows_def industrial_rows option.case option.sel)
  then show ?thesis by (metis zero_less_numeral)
next
  case (Some entries)
  then show ?thesis using seeded_rows [OF Some] by (simp only: price_rows_def option.case) blast
qed

text \<open>A whole number of units up to four hundred is priced in the tier of its fifties; every other quantity, none,
  a negative number, a fraction between two tiers or more than four hundred, gets the last and largest discount.\<close>

definition tier_of :: "rat \<Rightarrow> nat" where
  "tier_of q = (if 1 \<le> q \<and> q \<le> 400 \<and> q - of_int \<lfloor>(q - 1) / 50\<rfloor> * 50 \<le> 50 then nat \<lfloor>(q - 1) / 50\<rfloor> + 1 else 8)"

lemma find_tier:
  "find (\<lambda>e. pe_minVolumeQuantity e \<le> q \<and> q \<le> pe_maxVolumeQuantity e) (map (price_entry cat i) [1..<9]) =
    (if 1 \<le> q \<and> q \<le> 400 \<and> q - of_int \<lfloor>(q - 1) / 50\<rfloor> * 50 \<le> 50 then Some (price_entry cat i (tier_of q)) else None)"
proof -
  have upt: "[1..<9] = [1, 2, 3, 4, 5, 6, 7, 8::nat]" by (simp add: upt_rec)
  consider "q < 1" | "400 < q" | "1 \<le> q" "q \<le> 400" by linarith
  then show ?thesis
  proof cases
    case 3
    define k where "k = \<lfloor>(q - 1) / 50\<rfloor>"
    have k: "of_int k * 50 \<le> q - 1" "q - 1 < of_int k * 50 + 50"
      using of_int_floor_le [of "(q - 1) / 50"] floor_less_iff [of "(q - 1) / 50" "k + 1"] by (simp_all add: k_def)
    then have "of_int k * 50 < (400 :: rat)" "(-50 :: rat) < of_int k * 50" using 3 by linarith+
    then have "k \<in> {0, 1, 2, 3, 4, 5, 6, 7}" by auto
    then show ?thesis using 3 k unfolding tier_of_def k_def [symmetric] upt
      by (elim insertE emptyE; hypsubst; simp add: eval_nat_numeral; linarith?)
  qed (unfold upt, simp_all)
qed

lemma matched_tier:
  "\<exists>cat catIdx. catIdx < 10 \<and> matched_row q (price_rows category) = price_entry cat catIdx (tier_of q)"
proof -
  have "matched_row q (map (price_entry cat i) [1..<9]) = price_entry cat i (tier_of q)" for cat i
    unfolding matched_row_def find_tier by (simp add: tier_of_def upt_rec eval_nat_numeral)
  then show ?thesis using price_rows_tiers [of category] by metis
qed












section \<open>Bundles\<close>

record IBundleRule =
  br_bundleId :: string
  br_requiredSkuList :: "string list"
  br_bundleFixedPriceUSD :: "rat option"
  br_bundleDiscountPct :: "rat option"
  br_minimumPurchases :: int

record bundle_item =
  bi_sku :: string
  bi_priceUSD :: rat
  bi_quantity :: int

definition registerBundle :: "IBundleRule \<Rightarrow> IBundleRule list \<Rightarrow> IBundleRule list" where
  "registerBundle rule bs = bs @ [rule]"

definition qty_of :: "(string, int) jsmap \<Rightarrow> string \<Rightarrow> int" where
  "qty_of m sku = (case jm_get m sku of Some n \<Rightarrow> n | None \<Rightarrow> 0)"

definition skuQtyMap :: "bundle_item list \<Rightarrow> (string, int) jsmap" where
  "skuQtyMap items = foldl (\<lambda>m i. jm_set (bi_sku i) (qty_of m (bi_sku i) + bi_quantity i) m) [] items"

definition bundle_eligible :: "bundle_item list \<Rightarrow> IBundleRule \<Rightarrow> bool" where
  "bundle_eligible items b \<longleftrightarrow> list_all (\<lambda>sku. br_minimumPurchases b \<le> qty_of (skuQtyMap items) sku) (br_requiredSkuList b)"

definition bundleSubtotal :: "bundle_item list \<Rightarrow> IBundleRule \<Rightarrow> rat" where
  "bundleSubtotal items b =
     foldl (\<lambda>acc sku. dadd acc (case find (\<lambda>i. bi_sku i = sku) items of
         Some i \<Rightarrow> dmul (bi_priceUSD i) (of_int (br_minimumPurchases b)) | None \<Rightarrow> 0)) 0 (br_requiredSkuList b)"

definition evaluate_bundle :: "bundle_item list \<Rightarrow> IBundleRule \<Rightarrow> rat \<times> string list \<Rightarrow> rat \<times> string list" where
  "evaluate_bundle items b r =
     (let (totalSavedUSD, matchedBundles) = r
      in if \<not> bundle_eligible items b then r
         else (case br_bundleDiscountPct b of
                 Some pct \<Rightarrow> if pct = 0 then totalSavedUSD
                             else dadd totalSavedUSD (toFixed 2 (dmul (bundleSubtotal items b) (ddiv pct 100)))
               | None \<Rightarrow> totalSavedUSD, matchedBundles @ [br_bundleId b]))"

definition evaluateBundles :: "bundle_item list \<Rightarrow> IBundleRule list \<Rightarrow> rat \<times> string list" where
  "evaluateBundles items bs = fold (evaluate_bundle items) bs (0, [])"

text \<open>The quantities are summed per article, and a bundle matches exactly when each of its articles is bought often
  enough in total, whatever other bundles it shares them with: the same units earn every discount they match.\<close>

lemma skuQtyMap_sum: "qty_of (skuQtyMap items) sku = (\<Sum>i \<leftarrow> filter (\<lambda>i. bi_sku i = sku) items. bi_quantity i)"
proof -
  have "qty_of (foldl (\<lambda>m i. jm_set (bi_sku i) (qty_of m (bi_sku i) + bi_quantity i) m) m items) sku =
      qty_of m sku + (\<Sum>i \<leftarrow> filter (\<lambda>i. bi_sku i = sku) items. bi_quantity i)" for m
    by (induction items arbitrary: m) (simp_all add: qty_of_def)
  then show ?thesis by (simp add: skuQtyMap_def qty_of_def)
qed

lemma evaluateBundles_matched:
  "snd (evaluateBundles items bs) = map br_bundleId (filter (bundle_eligible items) bs)"
proof -
  have "snd (fold (evaluate_bundle items) bs r) = snd r @ map br_bundleId (filter (bundle_eligible items) bs)" for r
    by (induction bs arbitrary: r) (simp_all add: evaluate_bundle_def split: prod.split)
  then show ?thesis by (simp add: evaluateBundles_def)
qed

lemma bundle_counted_again:
  "evaluateBundles items (bs @ bs) = fold (evaluate_bundle items) bs (evaluateBundles items bs)"
  by (simp add: evaluateBundles_def)

section \<open>Contract prices\<close>

record IContractPricingRule =
  cr_contractId :: string
  cr_customerId :: string
  cr_sku :: string
  cr_baseContractPriceUSD :: rat
  cr_minimumOrderQuantity :: rat
  cr_tier1DiscountThreshold :: rat
  cr_tier1DiscountPct :: rat
  cr_tier2DiscountThreshold :: rat
  cr_tier2DiscountPct :: rat
  cr_minimumMarginProtectionPct :: rat

definition rule_key :: "string \<Rightarrow> string \<Rightarrow> string" where
  "rule_key customerId sku = customerId @ ''_'' @ sku"

definition registerPricingRule ::
  "IContractPricingRule \<Rightarrow> (string, IContractPricingRule) jsmap \<Rightarrow> (string, IContractPricingRule) jsmap" where
  "registerPricingRule rule m = jm_set (rule_key (cr_customerId rule) (cr_sku rule)) rule m"

definition standard_rule :: "string \<Rightarrow> string \<Rightarrow> rat \<Rightarrow> IContractPricingRule" where
  "standard_rule customerId sku cost =
     \<lparr> cr_contractId = ''STANDARD_COMMERCIAL'', cr_customerId = customerId, cr_sku = sku,
       cr_baseContractPriceUSD = dmul cost (fl (135 / 100)), cr_minimumOrderQuantity = 1,
       cr_tier1DiscountThreshold = 50, cr_tier1DiscountPct = 5, cr_tier2DiscountThreshold = 200,
       cr_tier2DiscountPct = 12, cr_minimumMarginProtectionPct = 15 \<rparr>"

record tier_quote =
  tq_finalUnitPriceUSD :: rat
  tq_totalExtendedPriceUSD :: rat
  tq_appliedDiscountPct :: rat
  tq_marginPct :: rat

definition tier_discount :: "IContractPricingRule \<Rightarrow> rat \<Rightarrow> rat" where
  "tier_discount rule quantity =
     (if cr_tier2DiscountThreshold rule \<le> quantity then cr_tier2DiscountPct rule
      else if cr_tier1DiscountThreshold rule \<le> quantity then cr_tier1DiscountPct rule else 0)"

definition minAllowedPrice :: "IContractPricingRule \<Rightarrow> rat \<Rightarrow> rat" where
  "minAllowedPrice rule cost = toFixed 2 (dmul cost (dadd 1 (ddiv (cr_minimumMarginProtectionPct rule) 100)))"

definition calculateFinalTierPrice ::
  "string \<Rightarrow> string \<Rightarrow> rat \<Rightarrow> rat \<Rightarrow> (string, IContractPricingRule) jsmap \<Rightarrow> tier_quote" where
  "calculateFinalTierPrice customerId sku quantity cost m =
     (let rule = (case jm_get m (rule_key customerId sku) of Some r \<Rightarrow> r | None \<Rightarrow> standard_rule customerId sku cost);
          discountPct = tier_discount rule quantity;
          unitPrice = toFixed 2 (dmul (cr_baseContractPriceUSD rule) (dsub 1 (ddiv discountPct 100)));
          guarded = unitPrice < minAllowedPrice rule cost;
          finalUnit = (if guarded then minAllowedPrice rule cost else unitPrice)
      in \<lparr> tq_finalUnitPriceUSD = finalUnit,
           tq_totalExtendedPriceUSD = toFixed 2 (dmul finalUnit quantity),
           tq_appliedDiscountPct =
             (if guarded then toFixed 1 (dmul (ddiv (dsub (cr_baseContractPriceUSD rule) finalUnit) (cr_baseContractPriceUSD rule)) 100)
              else discountPct),
           tq_marginPct = toFixed 1 (dmul (ddiv (dsub finalUnit cost) finalUnit) 100) \<rparr>)"

text \<open>The margin guard: no quantity and no discount brings the unit price below the protected one; and a rule is
  found again by its customer and article, but also by another pair whose key reads the same.\<close>

lemma margin_guard:
  assumes "jm_get m (rule_key customerId sku) = Some rule"
  shows "minAllowedPrice rule cost \<le> tq_finalUnitPriceUSD (calculateFinalTierPrice customerId sku quantity cost m)"
  using assms by (simp add: calculateFinalTierPrice_def Let_def)

lemma margin_guard_standard:
  assumes "jm_get m (rule_key customerId sku) = None"
  shows "toFixed 2 (dmul cost (dadd 1 (ddiv 15 100))) \<le> tq_finalUnitPriceUSD (calculateFinalTierPrice customerId sku quantity cost m)"
  using assms by (simp add: calculateFinalTierPrice_def Let_def minAllowedPrice_def standard_rule_def)

lemma rule_keys_collide: "rule_key (a @ ''_'' @ b) c = rule_key a (b @ ''_'' @ c)"
  by (simp add: rule_key_def)

lemma minimum_quantity_ignored:
  "calculateFinalTierPrice c s q cost (registerPricingRule (r\<lparr> cr_minimumOrderQuantity := n \<rparr>) m) =
    calculateFinalTierPrice c s q cost (registerPricingRule r m)"
  by (simp add: calculateFinalTierPrice_def registerPricingRule_def Let_def tier_discount_def minAllowedPrice_def)

section \<open>Quotation of an order\<close>

datatype customer_tier = STANDARD_TIER | SILVER | GOLD | PLATINUM
datatype service_level = STANDARD_LEVEL | EXPRESS | OVERNIGHT

record pricing_item =
  pi_sku :: string
  pi_unitPriceUSD :: rat
  pi_quantity :: rat
  pi_weightKg :: rat
  pi_volumeM3 :: rat

record IPricingContext =
  pc_orderId :: string
  pc_tenantId :: string
  pc_customerTier :: customer_tier
  pc_items :: "pricing_item list"
  pc_shippingOriginZip :: string
  pc_shippingDestZip :: string
  pc_requestedServiceLevel :: service_level
  pc_appliedPromoCodes :: "string list"

record IPricingResult =
  pr_baseItemsSubtotal :: rat
  pr_volumeDiscountAmount :: rat
  pr_tierDiscountAmount :: rat
  pr_promoDiscountAmount :: rat
  pr_freightSurchargeAmount :: rat
  pr_fuelSurchargeAmount :: rat
  pr_estimatedTaxAmount :: rat
  pr_finalTotalAmount :: rat
  pr_currency :: string

definition baseItemsSubtotal :: "pricing_item list \<Rightarrow> rat" where
  "baseItemsSubtotal items = foldl (\<lambda>acc i. dadd acc (dmul (pi_unitPriceUSD i) (pi_quantity i))) 0 items"

definition totalWeightKg :: "pricing_item list \<Rightarrow> rat" where
  "totalWeightKg items = foldl (\<lambda>acc i. dadd acc (dmul (pi_weightKg i) (pi_quantity i))) 0 items"

primrec tierDiscountPct :: "customer_tier \<Rightarrow> rat" where
  "tierDiscountPct STANDARD_TIER = 0"
| "tierDiscountPct SILVER = fl (5 / 100)"
| "tierDiscountPct GOLD = fl (1 / 10)"
| "tierDiscountPct PLATINUM = fl (15 / 100)"

definition volumeDiscount :: "rat \<Rightarrow> rat" where
  "volumeDiscount subtotal =
     (if 10000 < subtotal then toFixed 2 (dmul subtotal (fl (8 / 100)))
      else if 5000 < subtotal then toFixed 2 (dmul subtotal (fl (4 / 100))) else 0)"

primrec freightMultiplier :: "service_level \<Rightarrow> rat" where
  "freightMultiplier STANDARD_LEVEL = 1"
| "freightMultiplier EXPRESS = fl (16 / 10)"
| "freightMultiplier OVERNIGHT = 5 / 2"

definition calculateOrderPricing :: "IPricingContext \<Rightarrow> IPricingResult" where
  "calculateOrderPricing ctx =
     (let subtotal = baseItemsSubtotal (pc_items ctx);
          tierDiscount = toFixed 2 (dmul subtotal (tierDiscountPct (pc_customerTier ctx)));
          volume = volumeDiscount subtotal;
          freight = toFixed 2 (dmul (dmul (totalWeightKg (pc_items ctx)) (fl (285 / 100)))
                      (freightMultiplier (pc_requestedServiceLevel ctx)));
          fuel = toFixed 2 (dmul freight (fl (12 / 100)));
          taxable = max 0 (dsub (dsub subtotal tierDiscount) volume);
          tax = toFixed 2 (dmul taxable (fl (825 / 10000)))
      in \<lparr> pr_baseItemsSubtotal = subtotal, pr_volumeDiscountAmount = volume, pr_tierDiscountAmount = tierDiscount,
           pr_promoDiscountAmount = 0, pr_freightSurchargeAmount = freight, pr_fuelSurchargeAmount = fuel,
           pr_estimatedTaxAmount = tax,
           pr_finalTotalAmount = toFixed 2 (dadd (dadd (dadd taxable freight) fuel) tax), pr_currency = ''USD'' \<rparr>)"

lemma pricing_total_nonneg:
  assumes "list_all (\<lambda>i. 0 \<le> pi_weightKg i \<and> 0 \<le> pi_quantity i) (pc_items ctx)"
  shows "0 \<le> pr_finalTotalAmount (calculateOrderPricing ctx) \<and> 0 \<le> pr_estimatedTaxAmount (calculateOrderPricing ctx)"
proof -
  have "0 \<le> foldl (\<lambda>acc i. dadd acc (dmul (pi_weightKg i) (pi_quantity i))) a items"
    if "list_all (\<lambda>i. 0 \<le> pi_weightKg i \<and> 0 \<le> pi_quantity i) items" "0 \<le> a" for a items
    using that by (induction items arbitrary: a) (simp_all add: dadd_def dmul_def fl_nonneg)
  from this [OF assms] have w: "0 \<le> totalWeightKg (pc_items ctx)" by (simp add: totalWeightKg_def)
  have m: "0 \<le> freightMultiplier l" for l by (cases l) (simp_all add: fl_nonneg)
  show ?thesis
    by (auto simp: calculateOrderPricing_def Let_def dadd_def dmul_def
        intro!: toFixed_nonneg fl_nonneg mult_nonneg_nonneg add_nonneg_nonneg w m)
qed

text \<open>Promotion codes change nothing.\<close>

lemma promotions_ignored: "calculateOrderPricing (ctx\<lparr> pc_appliedPromoCodes := codes \<rparr>) = calculateOrderPricing ctx"
  by (simp add: calculateOrderPricing_def)

section \<open>Freight surcharges\<close>

record ISurgeFreightContext =
  sf_originState :: string
  sf_destState :: string
  sf_baseRateUSD :: rat
  sf_isPeakQ4HolidaySeason :: bool
  sf_weatherWarningSeverity :: rat
  sf_dieselNationalAveragePriceUSD :: rat

record surge_rate =
  sr_finalRateUSD :: rat
  sr_peakSurchargeUSD :: rat
  sr_weatherSurchargeUSD :: rat
  sr_fuelSurchargeUSD :: rat

definition calculateFinalRate :: "ISurgeFreightContext \<Rightarrow> surge_rate" where
  "calculateFinalRate ctx =
     (let rate = sf_baseRateUSD ctx;
          peakFee = (if sf_isPeakQ4HolidaySeason ctx then toFixed 2 (dmul rate (fl (18 / 100))) else 0);
          weatherFee = (if 3 \<le> sf_weatherWarningSeverity ctx
                        then toFixed 2 (dmul rate (dmul (sf_weatherWarningSeverity ctx) (fl (5 / 100)))) else 0);
          dieselDiff = max 0 (dsub (sf_dieselNationalAveragePriceUSD ctx) (fl (380 / 100)));
          fuelFee = toFixed 2 (dmul rate (dmul dieselDiff (fl (6 / 100))))
      in \<lparr> sr_finalRateUSD = toFixed 2 (dadd (dadd (dadd rate peakFee) weatherFee) fuelFee),
           sr_peakSurchargeUSD = peakFee, sr_weatherSurchargeUSD = weatherFee, sr_fuelSurchargeUSD = fuelFee \<rparr>)"

text \<open>No surcharge lowers the rate, and dearer diesel never lowers it either.\<close>

lemma surcharges_nonneg:
  assumes "0 \<le> sf_baseRateUSD ctx"
  shows "0 \<le> sr_peakSurchargeUSD (calculateFinalRate ctx) \<and> 0 \<le> sr_weatherSurchargeUSD (calculateFinalRate ctx) \<and>
    0 \<le> sr_fuelSurchargeUSD (calculateFinalRate ctx)"
  using assms by (auto simp: calculateFinalRate_def Let_def dmul_def intro!: toFixed_nonneg fl_nonneg mult_nonneg_nonneg)

lemma rate_monotone_in_diesel:
  assumes "0 \<le> sf_baseRateUSD ctx" and "sf_dieselNationalAveragePriceUSD ctx \<le> d"
  shows "sr_finalRateUSD (calculateFinalRate ctx) \<le>
    sr_finalRateUSD (calculateFinalRate (ctx\<lparr> sf_dieselNationalAveragePriceUSD := d \<rparr>))"
proof -
  let ?diff = "\<lambda>d. max 0 (dsub d (fl (380 / 100)))"
  let ?fuel = "\<lambda>d. toFixed 2 (dmul (sf_baseRateUSD ctx) (dmul (?diff d) (fl (6 / 100))))"
  have diff: "?diff (sf_dieselNationalAveragePriceUSD ctx) \<le> ?diff d"
    unfolding dsub_def by (rule max.mono [OF order_refl fl_mono]) (use assms in simp)
  have f6: "0 \<le> fl (6 / 100)" by (rule fl_nonneg) simp
  have "dmul (sf_baseRateUSD ctx) (dmul (?diff (sf_dieselNationalAveragePriceUSD ctx)) (fl (6 / 100))) \<le>
      dmul (sf_baseRateUSD ctx) (dmul (?diff d) (fl (6 / 100)))"
    by (intro dmul_mono_right dmul_mono_left diff f6 assms)
  then have fuel: "?fuel (sf_dieselNationalAveragePriceUSD ctx) \<le> ?fuel d"
    by (rule toFixed_mono [rotated]) (intro dmul_nonneg assms f6 max.cobounded1)
  define p where "p = sr_peakSurchargeUSD (calculateFinalRate ctx)"
  define w where "w = sr_weatherSurchargeUSD (calculateFinalRate ctx)"
  have pw: "0 \<le> p" "0 \<le> w" "0 \<le> ?fuel (sf_dieselNationalAveragePriceUSD ctx)"
    using surcharges_nonneg [OF assms(1)] by (simp_all add: p_def w_def) (simp add: calculateFinalRate_def Let_def)
  have base: "0 \<le> dadd (dadd (sf_baseRateUSD ctx) p) w" using assms pw by (simp add: dadd_def fl_nonneg)
  have r: "sr_finalRateUSD (calculateFinalRate ctx) =
      toFixed 2 (dadd (dadd (dadd (sf_baseRateUSD ctx) p) w) (?fuel (sf_dieselNationalAveragePriceUSD ctx)))"
    by (simp add: calculateFinalRate_def Let_def p_def w_def)
  have r': "sr_finalRateUSD (calculateFinalRate (ctx\<lparr> sf_dieselNationalAveragePriceUSD := d \<rparr>)) =
      toFixed 2 (dadd (dadd (dadd (sf_baseRateUSD ctx) p) w) (?fuel d))"
    by (simp add: calculateFinalRate_def Let_def p_def w_def)
  show ?thesis unfolding r r'
    by (rule toFixed_mono; intro dadd_mono_right dadd_nonneg fuel base pw)
qed

section \<open>Procurement contracts\<close>

record tiered_rule =
  tr_skuCategory :: string
  tr_minimumQuantity :: rat
  tr_discountPercentage :: rat

record IProcurementContract =
  pk_contractId :: string
  pk_tenantId :: string
  pk_customerOrganizationId :: string
  pk_effectiveFrom :: instant
  pk_expiresAt :: instant
  pk_minimumAnnualCommitmentUSD :: rat
  pk_currentAnnualSpendUSD :: rat
  pk_paymentTermsDays :: int
  pk_slaOnTimeDeliveryTargetPct :: rat
  pk_lateDeliveryPenaltyRatePct :: rat
  pk_preferredCarrierList :: "string list"
  pk_tieredPricingRules :: "tiered_rule list"

type_synonym contracts = "(string, IProcurementContract) jsmap"

definition registerProcurement :: "IProcurementContract \<Rightarrow> contracts \<Rightarrow> contracts" where
  "registerProcurement c m = jm_set (pk_contractId c) c m"

text \<open>\<open>sort(...)[0]\<close> over the rules that apply: the sort is stable and descending.\<close>

definition applicableRule :: "IProcurementContract \<Rightarrow> string \<Rightarrow> rat \<Rightarrow> tiered_rule option" where
  "applicableRule c category qty =
     (case sort_key (\<lambda>r. - tr_discountPercentage r)
             (filter (\<lambda>r. tr_skuCategory r = category \<and> tr_minimumQuantity r \<le> qty) (pk_tieredPricingRules c)) of
        [] \<Rightarrow> None | r # _ \<Rightarrow> Some r)"

definition category_discount :: "IProcurementContract \<Rightarrow> rat \<Rightarrow> nat \<Rightarrow> string \<times> rat \<Rightarrow> rat \<Rightarrow> rat" where
  "category_discount c orderTotal n cq acc =
     (case applicableRule c (fst cq) (snd cq) of
        None \<Rightarrow> acc
      | Some r \<Rightarrow> dadd acc (toFixed 2 (dmul (ddiv orderTotal (of_nat n)) (ddiv (tr_discountPercentage r) 100))))"

record contract_evaluation =
  ce_appliedDiscountsUSD :: rat
  ce_netTotalUSD :: rat
  ce_eligibleForSlaPenalty :: bool

definition evaluateOrderAgainstContract ::
  "string \<Rightarrow> rat \<Rightarrow> (string, rat) jsmap \<Rightarrow> contracts \<Rightarrow> contracts \<times> contract_evaluation" where
  "evaluateOrderAgainstContract contractId orderTotal quantities m =
     (case jm_get m contractId of
        None \<Rightarrow> (m, \<lparr> ce_appliedDiscountsUSD = 0, ce_netTotalUSD = orderTotal, ce_eligibleForSlaPenalty = False \<rparr>)
      | Some c \<Rightarrow>
          let discount = fold (category_discount c orderTotal (length quantities)) quantities 0;
              net = toFixed 2 (dsub orderTotal discount);
              c = c\<lparr> pk_currentAnnualSpendUSD := dadd (pk_currentAnnualSpendUSD c) net \<rparr>
          in (jm_set contractId c m,
              \<lparr> ce_appliedDiscountsUSD = discount, ce_netTotalUSD = net,
                ce_eligibleForSlaPenalty = (dmul (pk_minimumAnnualCommitmentUSD c) (1 / 2) \<le> pk_currentAnnualSpendUSD c) \<rparr>))"

definition calculateAnnualRebate :: "string \<Rightarrow> contracts \<Rightarrow> string + rat \<times> string" where
  "calculateAnnualRebate contractId m =
     (case jm_get m contractId of
        None \<Rightarrow> Inl ''Contract not found''
      | Some c \<Rightarrow>
          if pk_minimumAnnualCommitmentUSD c \<le> pk_currentAnnualSpendUSD c
          then Inr (toFixed 2 (dmul (dsub (pk_currentAnnualSpendUSD c) (pk_minimumAnnualCommitmentUSD c)) (fl (35 / 1000))),
                    ''Tier commitment achieved: 3.5% growth rebate awarded'')
          else Inr (0, ''Commitment threshold not yet met''))"

text \<open>The rule applied is one that the quantity reaches, and no other such rule discounts more.\<close>

lemma applicableRule_best:
  assumes "applicableRule c category qty = Some r"
  shows "r \<in> set (pk_tieredPricingRules c) \<and> tr_skuCategory r = category \<and> tr_minimumQuantity r \<le> qty \<and>
    (\<forall>r' \<in> set (pk_tieredPricingRules c). tr_skuCategory r' = category \<longrightarrow> tr_minimumQuantity r' \<le> qty \<longrightarrow>
       tr_discountPercentage r' \<le> tr_discountPercentage r)"
proof -
  define cs where "cs = filter (\<lambda>r. tr_skuCategory r = category \<and> tr_minimumQuantity r \<le> qty) (pk_tieredPricingRules c)"
  obtain rs where rs: "sort_key (\<lambda>r. - tr_discountPercentage r) cs = r # rs"
    using assms by (auto simp: applicableRule_def cs_def [symmetric] split: list.splits)
  then have "set cs = insert r (set rs)" by (metis list.set(2) set_sort)
  moreover have "\<forall>r' \<in> set rs. tr_discountPercentage r' \<le> tr_discountPercentage r"
    using sorted_sort_key [of "\<lambda>r. - tr_discountPercentage r" cs] by (simp add: rs)
  ultimately have "r \<in> set cs" "\<forall>r' \<in> set cs. tr_discountPercentage r' \<le> tr_discountPercentage r" by auto
  then show ?thesis by (auto simp: cs_def)
qed

text \<open>Every evaluation counts as a purchase: asking for the price of an order moves the annual spend by its net
  total, and asking often enough earns the rebate.\<close>

definition spend :: "string \<Rightarrow> contracts \<Rightarrow> rat" where
  "spend contractId m = (case jm_get m contractId of Some c \<Rightarrow> pk_currentAnnualSpendUSD c | None \<Rightarrow> 0)"

fun evaluate_all :: "string \<Rightarrow> (rat \<times> (string, rat) jsmap) list \<Rightarrow> contracts \<Rightarrow> contracts \<times> contract_evaluation list" where
  "evaluate_all contractId [] m = (m, [])"
| "evaluate_all contractId ((orderTotal, q) # os) m =
     (let (m, e) = evaluateOrderAgainstContract contractId orderTotal q m; (m, es) = evaluate_all contractId os m
      in (m, e # es))"

lemma evaluate_known:
  assumes "jm_get m contractId = Some c"
  shows "jm_get (fst (evaluateOrderAgainstContract contractId t q m)) contractId =
    Some (c\<lparr> pk_currentAnnualSpendUSD := dadd (pk_currentAnnualSpendUSD c) (ce_netTotalUSD (snd (evaluateOrderAgainstContract contractId t q m))) \<rparr>)"
  using assms by (simp add: evaluateOrderAgainstContract_def Let_def)

lemma quotes_count_as_spend:
  assumes "jm_get m contractId = Some c" and "evaluate_all contractId orders m = (m', es)"
  shows "jm_get m' contractId = Some (c\<lparr> pk_currentAnnualSpendUSD := foldl dadd (pk_currentAnnualSpendUSD c) (map ce_netTotalUSD es) \<rparr>)"
  using assms
proof (induction orders arbitrary: m c es)
  case (Cons o' os)
  obtain t q where o': "o' = (t, q)" by fastforce
  obtain m1 e where e: "evaluateOrderAgainstContract contractId t q m = (m1, e)" by fastforce
  obtain es' where es: "evaluate_all contractId os m1 = (m', es')" "es = e # es'"
    using Cons.prems(2) by (auto simp: o' e split: prod.splits)
  from evaluate_known [OF Cons.prems(1), of t q] Cons.IH [OF _ es(1)] show ?case by (simp add: e es(2))
qed simp

section \<open>Splitting a payment\<close>

record IPaymentSplitContext =
  ps_orderId :: string
  ps_grossAmountUSD :: rat
  ps_platformFeePct :: rat
  ps_carrierPayoutUSD :: rat
  ps_warehouseFulfillmentFeeUSD :: rat

record payout =
  po_platformRevenueUSD :: rat
  po_merchantNetPayoutUSD :: rat
  po_carrierPayoutUSD :: rat
  po_warehouseFeeUSD :: rat

definition calculatePayoutSplits :: "IPaymentSplitContext \<Rightarrow> payout" where
  "calculatePayoutSplits ctx =
     (let platformFee = toFixed 2 (dmul (ps_grossAmountUSD ctx) (ddiv (ps_platformFeePct ctx) 100));
          totalDeductions = dadd (dadd platformFee (ps_carrierPayoutUSD ctx)) (ps_warehouseFulfillmentFeeUSD ctx);
          merchantNet = toFixed 2 (dsub (ps_grossAmountUSD ctx) totalDeductions)
      in \<lparr> po_platformRevenueUSD = platformFee, po_merchantNetPayoutUSD = max 0 merchantNet,
           po_carrierPayoutUSD = ps_carrierPayoutUSD ctx, po_warehouseFeeUSD = ps_warehouseFulfillmentFeeUSD ctx \<rparr>)"

text \<open>In whole cents: when the deductions leave something, the four payouts add up to the payment exactly; when they
  do not, the merchant gets nothing and the payouts exceed the payment by what is missing.\<close>

lemma platform_fee_cents:
  assumes "0 \<le> x"
  shows "\<exists>f. 0 \<le> f \<and> toFixed 2 x = cents f"
  using assms by (intro exI [of _ "Math_round (x * 100)"]) (simp add: toFixed_def cents_def Math_round_def)

lemma net_cents:
  assumes "\<bar>g\<bar> \<le> 10 ^ 9" and "\<bar>f\<bar> \<le> 10 ^ 9" and "\<bar>c\<bar> \<le> 10 ^ 9" and "\<bar>w\<bar> \<le> 10 ^ 9"
  shows "toFixed 2 (dsub (cents g) (dadd (dadd (cents f) (cents c)) (cents w))) = cents (g - (f + c + w))"
proof -
  have e: "\<bar>cents k - of_int k / 100\<bar> \<le> 1 / 100000 \<and> \<bar>cents k\<bar> \<le> 100000000" if "\<bar>k\<bar> \<le> 10 ^ 9" for k
  proof -
    have "\<bar>of_int k :: rat\<bar> \<le> 10 ^ 9" using that by (metis of_int_abs of_int_le_iff of_int_numeral of_int_power)
    then show ?thesis using cents_error [of k] that by (simp add: abs_if split: if_splits)
  qed
  note eg = e [OF assms(1)] and ef = e [OF assms(2)] and ec = e [OF assms(3)] and ew = e [OF assms(4)]
  have n: "\<bar>fl x - x\<bar> \<le> 1 / 100000 \<and> \<bar>fl x\<bar> \<le> \<bar>x\<bar> + 1" if "\<bar>x\<bar> \<le> 1000000000" for x
  proof -
    have "\<bar>x\<bar> \<le> 3 * 10 ^ 10" using that by simp
    then have "\<bar>fl x - x\<bar> \<le> 1 / 100000" using fl_abs_le [of x] by simp
    then show ?thesis by linarith
  qed
  define s where "s = dadd (cents f) (cents c)"
  have s: "\<bar>s - (cents f + cents c)\<bar> \<le> 1 / 100000 \<and> \<bar>s\<bar> \<le> \<bar>cents f + cents c\<bar> + 1"
    unfolding s_def dadd_def by (rule n) (use ef ec in linarith)
  have sb: "\<bar>s\<bar> \<le> 200000001" using conjunct2 [OF s] conjunct2 [OF ef] conjunct2 [OF ec] by linarith
  define t where "t = dadd s (cents w)"
  have t: "\<bar>t - (s + cents w)\<bar> \<le> 1 / 100000 \<and> \<bar>t\<bar> \<le> \<bar>s + cents w\<bar> + 1"
    unfolding t_def dadd_def by (rule n) (use sb conjunct2 [OF ew] in linarith)
  have tb: "\<bar>t\<bar> \<le> 400000000" using conjunct2 [OF t] sb conjunct2 [OF ew] by linarith
  define d where "d = dsub (cents g) t"
  have d: "\<bar>d - (cents g - t)\<bar> \<le> 1 / 100000 \<and> \<bar>d\<bar> \<le> \<bar>cents g - t\<bar> + 1"
    unfolding d_def dsub_def by (rule n) (use tb conjunct2 [OF eg] in linarith)
  have "\<bar>d - of_int (g - (f + c + w)) / 100\<bar> \<le> 7 / 100000"
    unfolding of_int_diff of_int_add
  proof (rule abs_leI)
    note bounds =
      abs_le_D1 [OF conjunct1 [OF d]] abs_le_D1 [OF conjunct1 [OF t]] abs_le_D1 [OF conjunct1 [OF s]] abs_le_D1 [OF conjunct1 [OF ef]] abs_le_D1 [OF conjunct1 [OF ec]] abs_le_D1 [OF conjunct1 [OF ew]] abs_le_D1 [OF conjunct1 [OF eg]]
      abs_le_D2 [OF conjunct1 [OF d]] abs_le_D2 [OF conjunct1 [OF t]] abs_le_D2 [OF conjunct1 [OF s]] abs_le_D2 [OF conjunct1 [OF ef]] abs_le_D2 [OF conjunct1 [OF ec]] abs_le_D2 [OF conjunct1 [OF ew]] abs_le_D2 [OF conjunct1 [OF eg]]
    show "d - (of_int g - (of_int f + of_int c + of_int w)) / 100 \<le> 7 / 100000"
      using bounds unfolding diff_divide_distrib add_divide_distrib by linarith
    show "- (d - (of_int g - (of_int f + of_int c + of_int w)) / 100) \<le> 7 / 100000"
      using bounds unfolding diff_divide_distrib add_divide_distrib by linarith
  qed
  moreover have "\<bar>d * 10 ^ 2 - y\<bar> < 1 / 2" if "\<bar>d - y / 100\<bar> \<le> 7 / 100000" for y
    using that by (simp add: abs_if split: if_splits)
  ultimately have "\<bar>d * 10 ^ 2 - of_int (g - (f + c + w))\<bar> < 1 / 2" by blast
  from toFixed_near [OF this] show ?thesis by (simp add: d_def t_def s_def cents_def)
qed

lemma escrow_split:
  assumes "ps_grossAmountUSD ctx = cents g" and "ps_carrierPayoutUSD ctx = cents c" and "ps_warehouseFulfillmentFeeUSD ctx = cents w"
    and "0 \<le> g" "g \<le> 10 ^ 9" and "0 \<le> c" "c \<le> 10 ^ 9" and "0 \<le> w" "w \<le> 10 ^ 9"
    and "po_platformRevenueUSD (calculatePayoutSplits ctx) = cents f" and "0 \<le> f" and "f \<le> 10 ^ 9"
  shows "po_merchantNetPayoutUSD (calculatePayoutSplits ctx) = cents (max 0 (g - (f + c + w)))"
proof -
  have "toFixed 2 (dmul (cents g) (ddiv (ps_platformFeePct ctx) 100)) = cents f"
    using assms by (simp add: calculatePayoutSplits_def Let_def)
  then have "po_merchantNetPayoutUSD (calculatePayoutSplits ctx) = max 0 (cents (g - (f + c + w)))"
    using net_cents [of g f c w] assms by (simp add: calculatePayoutSplits_def Let_def)
  also have "\<dots> = cents (max 0 (g - (f + c + w)))"
    using cents_mono [of 0 "g - (f + c + w)"] cents_mono [of "g - (f + c + w)" 0] by (auto simp: max_def antisym)
  finally show ?thesis .
qed

end
