(* ===== verification/Subscriptions.thy ===== *)
theory Subscriptions
  imports Prelude Double
begin

text \<open>
  Recurring orders (order-service/src/subscriptions/RecurringOrderSubscriptionEngine.ts), with the part of the
  calendar of \<open>Date\<close> they rely on: a local date is a year, a month from 0 and a day from 1, and setting a day or
  month beyond the end carries the excess into the months that follow, as ECMAScript's MakeDay prescribes. The time of
  day is untouched, and local times that a change of clocks skips are outside the model.
\<close>

section \<open>The calendar\<close>

record local_date =
  ld_year :: nat
  ld_month :: nat
  ld_day :: nat

definition leap :: "nat \<Rightarrow> bool" where
  "leap y \<longleftrightarrow> y mod 4 = 0 \<and> (y mod 100 \<noteq> 0 \<or> y mod 400 = 0)"

definition month_length :: "nat \<Rightarrow> nat \<Rightarrow> nat" where
  "month_length y m = (if m = 1 then if leap y then 29 else 28 else if m \<in> {3, 5, 8, 10} then 30 else 31)"

lemma month_length_range: "28 \<le> month_length y m \<and> month_length y m \<le> 31"
  by (simp add: month_length_def)

function spill :: "nat \<Rightarrow> nat \<Rightarrow> nat \<Rightarrow> local_date" where
  "spill y m d =
     (if d \<le> month_length y m then \<lparr> ld_year = y, ld_month = m, ld_day = d \<rparr>
      else if m = 11 then spill (y + 1) 0 (d - month_length y m)
      else spill y (m + 1) (d - month_length y m))"
  by pat_completeness auto
termination
  by (relation "measure (\<lambda>(y, m, d). d)") (simp_all add: month_length_def)

declare spill.simps [simp del]

definition setDate :: "nat \<Rightarrow> local_date \<Rightarrow> local_date" where
  "setDate d t = spill (ld_year t) (ld_month t) d"

definition setMonth :: "nat \<Rightarrow> local_date \<Rightarrow> local_date" where
  "setMonth m t = spill (ld_year t + m div 12) (m mod 12) (ld_day t)"

text \<open>Days are numbered from the start of the calendar; carrying over keeps the number and ends in a real date.\<close>

definition days_before_year :: "nat \<Rightarrow> nat" where
  "days_before_year y = (\<Sum>i \<leftarrow> [0..<y]. if leap i then 366 else 365)"

definition day_number :: "nat \<Rightarrow> nat \<Rightarrow> nat \<Rightarrow> nat" where
  "day_number y m d = days_before_year y + (\<Sum>i \<leftarrow> [0..<m]. month_length y i) + d"

definition date_number :: "local_date \<Rightarrow> nat" where
  "date_number t = day_number (ld_year t) (ld_month t) (ld_day t)"

definition real_date :: "local_date \<Rightarrow> bool" where
  "real_date t \<longleftrightarrow> ld_month t < 12 \<and> 1 \<le> ld_day t \<and> ld_day t \<le> month_length (ld_year t) (ld_month t)"

lemma days_before_next_year: "days_before_year (y + 1) = days_before_year y + (if leap y then 366 else 365)"
  by (simp add: days_before_year_def)

lemma year_length: "(\<Sum>i \<leftarrow> [0..<12]. month_length y i) = (if leap y then 366 else 365)"
  by (simp add: upt_rec month_length_def)

lemma day_number_next_month:
  assumes "m < 12" and "month_length y m < d"
  shows "day_number y m d =
    (if m = 11 then day_number (y + 1) 0 (d - month_length y m) else day_number y (m + 1) (d - month_length y m))"
proof (cases "m = 11")
  case True
  have "(\<Sum>i \<leftarrow> [0..<12]. month_length y i) = (\<Sum>i \<leftarrow> [0..<11]. month_length y i) + month_length y 11"
    by (simp add: upt_Suc_append [of 0 11, simplified])
  then show ?thesis using True assms days_before_next_year [of y] year_length [of y] by (simp add: day_number_def)
next
  case False
  then show ?thesis using assms by (simp add: day_number_def)
qed

lemma spill_number: "m < 12 \<Longrightarrow> date_number (spill y m d) = day_number y m d"
proof (induction y m d rule: spill.induct)
  case (1 y m d)
  show ?case
  proof (cases "d \<le> month_length y m")
    case True
    then show ?thesis by (simp add: spill.simps [of y m d] date_number_def)
  next
    case False
    with 1 day_number_next_month [of m y d] show ?thesis by (subst spill.simps) auto
  qed
qed

lemma spill_real: "m < 12 \<Longrightarrow> 1 \<le> d \<Longrightarrow> real_date (spill y m d)"
proof (induction y m d rule: spill.induct)
  case (1 y m d)
  show ?case
  proof (cases "d \<le> month_length y m")
    case True
    then show ?thesis using 1 by (simp add: spill.simps [of y m d] real_date_def)
  next
    case False
    with 1 show ?thesis by (subst spill.simps) auto
  qed
qed

lemma spill_fits: "d \<le> month_length y m \<Longrightarrow> spill y m d = \<lparr> ld_year = y, ld_month = m, ld_day = d \<rparr>"
  by (simp add: spill.simps)

section \<open>The engine\<close>

datatype frequency = WEEKLY | BI_WEEKLY | MONTHLY | QUARTERLY
datatype subscription_status = SUB_ACTIVE | SUB_PAUSED | SUB_CANCELLED

record subscription_item =
  si_sku :: string
  si_quantity :: nat
  si_unitPriceUSD :: rat

record subscription_request =
  sb_customerId :: string
  sb_tenantId :: string
  sb_frequency :: frequency
  sb_nextBillingDate :: instant
  sb_items :: "subscription_item list"
  sb_shippingAddressId :: string
  sb_paymentMethodId :: string

record ISubscriptionSchedule = subscription_request +
  sb_subscriptionId :: string
  sb_status :: subscription_status

type_synonym subscriptions = "(string, ISubscriptionSchedule) jsmap"

definition createSubscription :: "instant \<Rightarrow> nat \<Rightarrow> subscription_request \<Rightarrow> subscriptions \<Rightarrow> subscriptions \<times> ISubscriptionSchedule" where
  "createSubscription now random schedule m =
     (let subscriptionId = ''SUB-'' @ to_upper (base_string 36 (nat now)) @ ''-'' @ dec_string random;
          sub = subscription_request.extend schedule \<lparr> sb_subscriptionId = subscriptionId, sb_status = SUB_ACTIVE \<rparr>
      in (jm_set subscriptionId sub m, sub))"

definition calculateNextExecutionDate :: "local_date \<Rightarrow> frequency \<Rightarrow> local_date" where
  "calculateNextExecutionDate t f =
     (case f of
        WEEKLY \<Rightarrow> setDate (ld_day t + 7) t
      | BI_WEEKLY \<Rightarrow> setDate (ld_day t + 14) t
      | MONTHLY \<Rightarrow> setMonth (ld_month t + 1) t
      | QUARTERLY \<Rightarrow> setMonth (ld_month t + 3) t)"

definition getDueSubscriptions :: "instant \<Rightarrow> subscriptions \<Rightarrow> ISubscriptionSchedule list" where
  "getDueSubscriptions now m = filter (\<lambda>s. sb_status s = SUB_ACTIVE \<and> sb_nextBillingDate s \<le> now) (jm_values m)"

definition months_on :: "nat \<Rightarrow> local_date \<Rightarrow> nat \<times> nat" where
  "months_on k t = (ld_year t + (ld_month t + k) div 12, (ld_month t + k) mod 12)"

lemma setMonth_carry:
  assumes "real_date t" and "months_on k t = (y, m)"
  shows "setMonth (ld_month t + k) t =
    (if ld_day t \<le> month_length y m then \<lparr> ld_year = y, ld_month = m, ld_day = ld_day t \<rparr>
     else \<lparr> ld_year = y, ld_month = m + 1, ld_day = ld_day t - month_length y m \<rparr>)"
proof -
  have ym: "y = ld_year t + (ld_month t + k) div 12" "m = (ld_month t + k) mod 12" using assms(2) by (simp_all add: months_on_def)
  have m: "m < 12" by (simp add: ym)
  have d: "ld_day t \<le> 31"
    using assms(1) month_length_range [of "ld_year t" "ld_month t"] unfolding real_date_def by linarith
  have e: "setMonth (ld_month t + k) t = spill y m (ld_day t)" by (simp add: setMonth_def ym)
  show ?thesis
  proof (cases "ld_day t \<le> month_length y m")
    case False
    then have "m \<noteq> 11" using d by (auto simp: month_length_def split: if_splits)
    moreover have "ld_day t - month_length y m \<le> month_length y (m + 1)"
      using d month_length_range [of y m] month_length_range [of y "m + 1"] by linarith
    ultimately show ?thesis using False by (simp add: e spill.simps [of y m] spill_fits)
  qed (simp add: e spill_fits)
qed

lemma next_real: "real_date t \<Longrightarrow> real_date (calculateNextExecutionDate t f)"
  by (cases f) (simp_all add: calculateNextExecutionDate_def setDate_def setMonth_def spill_real real_date_def [of t])

text \<open> 
  Weekly schedules move by seven and fourteen days. A monthly or quarterly one keeps its day where the month has it;
  otherwise it lands in the month after, so that a month without the day is skipped.
\<close>

theorem next_execution_date:
  assumes "real_date t"
  shows "date_number (calculateNextExecutionDate t WEEKLY) = date_number t + 7 \<and>
    date_number (calculateNextExecutionDate t BI_WEEKLY) = date_number t + 14 \<and>
    real_date (calculateNextExecutionDate t f) \<and>
    calculateNextExecutionDate t MONTHLY =
      (let (y, m) = months_on 1 t
       in if ld_day t \<le> month_length y m then \<lparr> ld_year = y, ld_month = m, ld_day = ld_day t \<rparr>
          else \<lparr> ld_year = y, ld_month = m + 1, ld_day = ld_day t - month_length y m \<rparr>) \<and>
    calculateNextExecutionDate t QUARTERLY =
      (let (y, m) = months_on 3 t
       in if ld_day t \<le> month_length y m then \<lparr> ld_year = y, ld_month = m, ld_day = ld_day t \<rparr>
          else \<lparr> ld_year = y, ld_month = m + 1, ld_day = ld_day t - month_length y m \<rparr>)"
proof -
  have m: "ld_month t < 12" "1 \<le> ld_day t" using assms by (simp_all add: real_date_def)
  have "date_number (setDate (ld_day t + k) t) = date_number t + k" for k
    using spill_number [OF m(1), of "ld_year t" "ld_day t + k"] by (simp add: setDate_def date_number_def day_number_def)
  then show ?thesis
    using setMonth_carry [OF assms, of 1] setMonth_carry [OF assms, of 3] next_real [OF assms, of f]
    by (simp add: calculateNextExecutionDate_def split_beta Let_def prod_eq_iff)
qed

theorem next_execution_date_witness:
  "calculateNextExecutionDate \<lparr> ld_year = 2025, ld_month = 0, ld_day = 31 \<rparr> MONTHLY =
     \<lparr> ld_year = 2025, ld_month = 2, ld_day = 3 \<rparr>"
  using next_execution_date [of "\<lparr> ld_year = 2025, ld_month = 0, ld_day = 31 \<rparr>" MONTHLY]
  by (simp add: real_date_def month_length_def months_on_def leap_def)

text \<open>A schedule that slipped to the first days of a month stays there: the end of the month is never seen again.\<close>

lemma day_kept:
  assumes "real_date t" and "ld_day t \<le> 28"
  shows "ld_day (((\<lambda>t. calculateNextExecutionDate t MONTHLY) ^^ n) t) = ld_day t \<and>
    real_date (((\<lambda>t. calculateNextExecutionDate t MONTHLY) ^^ n) t)"
proof (induction n)
  case (Suc n)
  let ?t = "((\<lambda>t. calculateNextExecutionDate t MONTHLY) ^^ n) t"
  obtain y m where ym: "months_on 1 ?t = (y, m)" by fastforce
  have real: "real_date (calculateNextExecutionDate ?t MONTHLY)"
    by (rule next_real [OF conjunct2 [OF Suc.IH]])
  have "ld_day ?t \<le> month_length y m" using Suc.IH assms(2) month_length_range [of y m] by simp
  then have "ld_day (calculateNextExecutionDate ?t MONTHLY) = ld_day ?t"
    using Suc.IH setMonth_carry [OF _ ym] by (simp add: calculateNextExecutionDate_def)
  with real Suc.IH show ?case by simp
qed (simp add: assms)

text \<open>The engine never moves a billing date and never leaves the active state: what is due stays due.\<close>

lemma due_stays_due: "now \<le> now' \<Longrightarrow> set (getDueSubscriptions now m) \<subseteq> set (getDueSubscriptions now' m)"
  by (auto simp: getDueSubscriptions_def)

lemma created_due:
  assumes "\<not> jm_has m (sb_subscriptionId (snd (createSubscription now r req m)))"
  shows "getDueSubscriptions t (fst (createSubscription now r req m)) =
    getDueSubscriptions t m @ (if sb_nextBillingDate req \<le> t then [snd (createSubscription now r req m)] else [])"
  using assms by (simp add: createSubscription_def getDueSubscriptions_def Let_def jm_set_append jm_values_def
      subscription_request.extend_def)

end
