(* ===== verification/Domain_Units.thy ===== *)
theory Domain_Units
  imports Prelude
begin

text \<open>
  The domain module that every service holds a copy of (modules/EnterpriseDomainModule.ts; the copies differ in the
  name of the service): units of work with a state, a payload of values of any type, and an audit trail.
  A method reads the clock several times: \<open>clock n\<close> is what the reading number \<open>n\<close> of a call gives.
\<close>

datatype unit_state = INITIALIZED | PROCESSING | COMPLETED | SUSPENDED

primrec state_name :: "unit_state \<Rightarrow> string" where
  "state_name INITIALIZED = ''INITIALIZED''"
| "state_name PROCESSING = ''PROCESSING''"
| "state_name COMPLETED = ''COMPLETED''"
| "state_name SUSPENDED = ''SUSPENDED''"

record audit_entry =
  ae_timestamp :: instant
  ae_action :: string
  ae_userId :: string

record 'v IDomainUnit =
  un_unitId :: string
  un_tenantId :: string
  un_operationalCode :: string
  un_executionPriority :: int
  un_state :: unit_state
  un_payloadMap :: "(string, 'v) jsmap"
  un_auditTrail :: "audit_entry list"
  un_createdAt :: instant
  un_updatedAt :: instant

type_synonym 'v units = "(string, 'v IDomainUnit) jsmap"

definition createUnit :: "(nat \<Rightarrow> instant) \<Rightarrow> string \<Rightarrow> string \<Rightarrow> string \<Rightarrow> int \<Rightarrow> 'v units \<Rightarrow> 'v units \<times> 'v IDomainUnit" where
  "createUnit clock unitId tenantId operationalCode executionPriority m =
     (let u = \<lparr> un_unitId = unitId, un_tenantId = tenantId, un_operationalCode = operationalCode,
                un_executionPriority = executionPriority, un_state = INITIALIZED, un_payloadMap = [],
                un_auditTrail = [\<lparr> ae_timestamp = clock 0, ae_action = ''UNIT_CREATED'', ae_userId = ''system'' \<rparr>],
                un_createdAt = clock 1, un_updatedAt = clock 2 \<rparr>
      in (jm_set unitId u m, u))"

definition payload_action :: "string \<Rightarrow> string" where
  "payload_action key = ''PAYLOAD_UPDATED:'' @ key"

definition setPayload :: "(nat \<Rightarrow> instant) \<Rightarrow> string \<Rightarrow> string \<Rightarrow> 'v \<Rightarrow> string \<Rightarrow> 'v units \<Rightarrow> 'v units \<times> bool" where
  "setPayload clock unitId key value actorUserId m =
     (case jm_get m unitId of
        None \<Rightarrow> (m, False)
      | Some u \<Rightarrow>
          (jm_set unitId
             (u\<lparr> un_payloadMap := jm_set key value (un_payloadMap u), un_updatedAt := clock 0,
                 un_auditTrail := un_auditTrail u @
                   [\<lparr> ae_timestamp = clock 1, ae_action = payload_action key, ae_userId = actorUserId \<rparr>] \<rparr>) m, True))"

definition transition_action :: "unit_state \<Rightarrow> unit_state \<Rightarrow> string" where
  "transition_action oldState newState = ''STATE_TRANSITION:'' @ state_name oldState @ ''->'' @ state_name newState"

definition transitionState :: "(nat \<Rightarrow> instant) \<Rightarrow> string \<Rightarrow> unit_state \<Rightarrow> string \<Rightarrow> 'v units \<Rightarrow> 'v units \<times> bool" where
  "transitionState clock unitId newState actorUserId m =
     (case jm_get m unitId of
        None \<Rightarrow> (m, False)
      | Some u \<Rightarrow>
          (jm_set unitId
             (u\<lparr> un_state := newState, un_updatedAt := clock 0,
                 un_auditTrail := un_auditTrail u @
                   [\<lparr> ae_timestamp = clock 1, ae_action = transition_action (un_state u) newState, ae_userId = actorUserId \<rparr>] \<rparr>) m,
           True))"

definition getUnit :: "string \<Rightarrow> 'v units \<Rightarrow> 'v IDomainUnit option" where
  "getUnit unitId m = jm_get m unitId"

definition listUnitsByTenant :: "string \<Rightarrow> 'v units \<Rightarrow> 'v IDomainUnit list" where
  "listUnitsByTenant tenantId m = filter (\<lambda>u. un_tenantId u = tenantId) (jm_values m)"

definition calculateModuleScore :: "string \<Rightarrow> 'v units \<Rightarrow> int" where
  "calculateModuleScore tenantId m = foldl (\<lambda>acc u. acc + un_executionPriority u) 0 (listUnitsByTenant tenantId m)"

section \<open>The audit trail\<close>

datatype 'v unit_call =
  CreateUnit string string string int
| SetPayload string string 'v string
| TransitionState string unit_state string

fun unit_step :: "(nat \<Rightarrow> instant) \<times> 'v unit_call \<Rightarrow> 'v units \<Rightarrow> 'v units" where
  "unit_step (clock, CreateUnit i t c p) m = fst (createUnit clock i t c p m)"
| "unit_step (clock, SetPayload i k v a) m = fst (setPayload clock i k v a m)"
| "unit_step (clock, TransitionState i s a) m = fst (transitionState clock i s a m)"

text \<open>What a reader of the trail recovers: the state named last by a transition, and the keys that were written.\<close>

definition read_transition :: "string \<Rightarrow> unit_state option" where
  "read_transition a =
     map_option snd (find (\<lambda>(s, s'). a = transition_action s s')
       (List.product [INITIALIZED, PROCESSING, COMPLETED, SUSPENDED] [INITIALIZED, PROCESSING, COMPLETED, SUSPENDED]))"

definition read_payload :: "string \<Rightarrow> string option" where
  "read_payload a = (if starts_with ''PAYLOAD_UPDATED:'' a then Some (drop (length ''PAYLOAD_UPDATED:'') a) else None)"

definition replay_entry :: "audit_entry \<Rightarrow> unit_state \<times> string list \<Rightarrow> unit_state \<times> string list" where
  "replay_entry e r =
     (case read_transition (ae_action e) of
        Some s \<Rightarrow> (s, snd r)
      | None \<Rightarrow> (case read_payload (ae_action e) of Some k \<Rightarrow> (fst r, snd r @ [k]) | None \<Rightarrow> r))"

definition replay :: "audit_entry list \<Rightarrow> unit_state \<times> string list" where
  "replay es = fold replay_entry es (INITIALIZED, [])"

lemma read_transition_action [simp]: "read_transition (transition_action s s') = Some s'"
  by (cases s; cases s') (simp_all add: read_transition_def transition_action_def)

lemma read_other [simp]: "read_transition (payload_action k) = None" "read_payload (payload_action k) = Some k"
  by (simp_all add: read_transition_def transition_action_def read_payload_def payload_action_def starts_with_def)

lemma read_created [simp]: "read_transition ''UNIT_CREATED'' = None" "read_payload ''UNIT_CREATED'' = None"
  by (simp_all add: read_transition_def transition_action_def read_payload_def starts_with_def)

lemma not_created [simp]: "payload_action k \<noteq> ''UNIT_CREATED''" "transition_action s s' \<noteq> ''UNIT_CREATED''"
  by (simp_all add: payload_action_def transition_action_def)

lemma replay_snoc: "replay (es @ [e]) = replay_entry e (replay es)"
  by (simp add: replay_def)

definition trail_faithful :: "'v IDomainUnit \<Rightarrow> bool" where
  "trail_faithful u \<longleftrightarrow>
     (case replay (un_auditTrail u) of (s, ks) \<Rightarrow> s = un_state u \<and> set ks = fst ` set (un_payloadMap u)) \<and>
     un_auditTrail u \<noteq> [] \<and> ae_action (hd (un_auditTrail u)) = ''UNIT_CREATED'' \<and>
     list_all (\<lambda>e. ae_action e \<noteq> ''UNIT_CREATED'') (tl (un_auditTrail u))"

lemma faithful_created: "trail_faithful (snd (createUnit now i t c p m))"
  by (simp add: createUnit_def Let_def trail_faithful_def replay_def replay_entry_def)

lemma faithful_payload:
  assumes "trail_faithful u"
  shows "trail_faithful (u\<lparr> un_payloadMap := jm_set k v (un_payloadMap u), un_updatedAt := t1,
     un_auditTrail := un_auditTrail u @ [\<lparr> ae_timestamp = t2, ae_action = payload_action k, ae_userId = a \<rparr>] \<rparr>)"
  using assms by (simp add: trail_faithful_def replay_snoc replay_entry_def jm_keys_set split_beta)

lemma faithful_transition:
  assumes "trail_faithful u"
  shows "trail_faithful (u\<lparr> un_state := s, un_updatedAt := t1,
     un_auditTrail := un_auditTrail u @ [\<lparr> ae_timestamp = t2, ae_action = transition_action (un_state u) s, ae_userId = a \<rparr>] \<rparr>)"
  using assms by (simp add: trail_faithful_def replay_snoc replay_entry_def split_beta)

definition units_inv :: "'v units \<Rightarrow> bool" where
  "units_inv m \<longleftrightarrow> keyed un_unitId m \<and> (\<forall>k u. jm_get m k = Some u \<longrightarrow> trail_faithful u)"

lemma units_inv_set:
  assumes "units_inv m" and "trail_faithful u" and "un_unitId u = i"
  shows "units_inv (jm_set i u m)"
  using assms by (simp add: units_inv_def keyed_put)

lemma units_inv_get: "units_inv m \<Longrightarrow> jm_get m i = Some u \<Longrightarrow> trail_faithful u \<and> un_unitId u = i"
  by (auto simp: units_inv_def dest: keyed_get)

lemma unit_step_keeps: "units_inv m \<Longrightarrow> units_inv (unit_step c m)"
proof -
  assume i: "units_inv m"
  obtain clock call where c: "c = (clock, call)" by fastforce
  show ?thesis
  proof (cases call)
    case (CreateUnit i t cd p)
    have "un_unitId (snd (createUnit clock i t cd p m)) = i" by (simp add: createUnit_def Let_def)
    moreover have "fst (createUnit clock i t cd p m) = jm_set i (snd (createUnit clock i t cd p m)) m"
      by (simp add: createUnit_def Let_def)
    ultimately show ?thesis using units_inv_set [OF i faithful_created, of clock i t cd p m i] by (simp add: c CreateUnit)
  next
    case (SetPayload i' k v a)
    show ?thesis
    proof (cases "jm_get m i'")
      case (Some u)
      from units_inv_get [OF i this] show ?thesis
        by (simp add: c SetPayload setPayload_def Some units_inv_set [OF i] faithful_payload)
    qed (simp add: c SetPayload setPayload_def i)
  next
    case (TransitionState i' s a)
    show ?thesis
    proof (cases "jm_get m i'")
      case (Some u)
      from units_inv_get [OF i this] show ?thesis
        by (simp add: c TransitionState transitionState_def Some units_inv_set [OF i] faithful_transition)
    qed (simp add: c TransitionState transitionState_def i)
  qed
qed

interpretation unit_machine: invariant_machine unit_step units_inv
  by unfold_locales (rule unit_step_keeps)

text \<open>C21: 
  The trail of a unit tells its state and the keys of its payload at any time. It starts with the one entry of its creation,
  and replaying the actions gives the state the unit is in and exactly the keys that its payload has.
\<close>

theorem audit_trail_replays:
  assumes "getUnit i (fold unit_step cs []) = Some u"
  shows "fst (replay (un_auditTrail u)) = un_state u \<and>
    set (snd (replay (un_auditTrail u))) = fst ` set (un_payloadMap u) \<and>
    (\<exists>created changes. un_auditTrail u = created # changes \<and> ae_action created = ''UNIT_CREATED'' \<and>
       list_all (\<lambda>e. ae_action e \<noteq> ''UNIT_CREATED'') changes)"
proof -
  have "units_inv (fold unit_step cs [])" by (rule unit_machine.run_keeps) (simp add: units_inv_def)
  with assms have "trail_faithful u" by (auto simp: units_inv_def getUnit_def)
  then show ?thesis by (cases "un_auditTrail u") (simp_all add: trail_faithful_def split: prod.splits)
qed

theorem audit_trail_replays_witness:
  "\<exists>u. getUnit ''u1'' (fold unit_step [(int, CreateUnit ''u1'' ''t'' ''OP'' 100), (int, SetPayload ''u1'' ''k'' (7 :: int) ''bob''),
        (int, TransitionState ''u1'' COMPLETED ''bob'')] []) = Some u \<and>
     un_state u = COMPLETED \<and> fst (replay (un_auditTrail u)) = un_state u \<and> set (snd (replay (un_auditTrail u))) = {''k''}"
proof -
  obtain u where u: "getUnit ''u1'' (fold unit_step [(int, CreateUnit ''u1'' ''t'' ''OP'' 100), (int, SetPayload ''u1'' ''k'' (7 :: int) ''bob''),
        (int, TransitionState ''u1'' COMPLETED ''bob'')] []) = Some u" and "un_state u = COMPLETED" "fst ` set (un_payloadMap u) = {''k''}"
    by (simp add: getUnit_def createUnit_def setPayload_def transitionState_def Let_def)
  with audit_trail_replays [OF u] show ?thesis by metis
qed

text \<open>No transition is refused, and creating a unit under a name in use, of any tenant, discards it with its trail.\<close>

lemma any_transition: "snd (transitionState clock i s a m) \<longleftrightarrow> jm_has m i"
  by (simp add: transitionState_def split: option.split)

lemma create_discards: "getUnit i (fst (createUnit clock i t c p m)) = Some (snd (createUnit clock i t c p [] ))"
  by (simp add: getUnit_def createUnit_def Let_def)

lemma module_score:
  assumes "\<not> jm_has m i"
  shows "calculateModuleScore t' (fst (createUnit clock i t c p m)) = calculateModuleScore t' m + (if t = t' then p else 0)"
  using assms by (simp add: calculateModuleScore_def listUnitsByTenant_def createUnit_def Let_def jm_set_append jm_values_def)

end
