(* ===== verification/Fleet_Compliance.thy ===== *)
theory Fleet_Compliance
  imports Prelude Double "HOL-Library.Multiset"
begin

text \<open>
  The compliance and monitoring engines of the logistics service: hours of service
  (hos/DriverHoursOfServiceComplianceEngine.ts), rest breaks (compliance/DriverMandatoryRestPeriodValidator.ts),
  hazardous transport (compliance/DotHazardousTransportInspector.ts,
  routing/HazardousHazmatRouteAvoidancePlanner.ts), maintenance (fleet/VehiclePreventativeMaintenanceScheduler.ts),
  the cold chain (iot/ColdChainTemperatureSensorMonitor.ts,
  refrigeration/ReeferRefrigeratedCargoTemperatureAlertEngine.ts), polygon geofences
  (geofence/PolygonGeofenceMatcher.ts) and the highway table (routing/MultiStateHighwayTransitRoutingTable.ts).
  Minutes and odometer readings are integers, temperatures and coordinates doubles.
\<close>

section \<open>Hours of service\<close>

datatype duty_status = OFF_DUTY | SLEEPER_BERTH | DRIVING | ON_DUTY_NOT_DRIVING

record IDriverDutyLog =
  dl_logId :: string
  dl_driverId :: string
  dl_status :: duty_status
  dl_startedAt :: instant
  dl_endedAt :: "instant option"
  dl_durationMinutes :: int

record IHosComplianceStatus =
  hs_driverId :: string
  hs_drivingMinutesRemaining :: int
  hs_shiftMinutesRemaining :: int
  hs_cycleMinutesRemaining :: int
  hs_requiresBreakInMinutes :: int
  hs_isViolation :: bool
  hs_activeViolations :: "string list"

definition MAX_DRIVING_MINUTES :: int where "MAX_DRIVING_MINUTES = 11 * 60"
definition MAX_SHIFT_MINUTES :: int where "MAX_SHIFT_MINUTES = 14 * 60"
definition MAX_CYCLE_MINUTES :: int where "MAX_CYCLE_MINUTES = 70 * 60"

definition add_duty :: "IDriverDutyLog \<Rightarrow> int \<times> int \<Rightarrow> int \<times> int" where
  "add_duty l t =
     (case dl_status l of
        DRIVING \<Rightarrow> (fst t + dl_durationMinutes l, snd t + dl_durationMinutes l)
      | ON_DUTY_NOT_DRIVING \<Rightarrow> (fst t, snd t + dl_durationMinutes l)
      | _ \<Rightarrow> t)"

text \<open>JavaScript's remainder takes the sign of the dividend.\<close>

definition minutes_rem :: "int \<Rightarrow> int \<Rightarrow> int" where
  "minutes_rem a b = (if 0 \<le> a then a mod b else - (- a mod b))"

definition duty_violations :: "int \<Rightarrow> int \<Rightarrow> string list" where
  "duty_violations driving onDuty =
     (if MAX_DRIVING_MINUTES < driving then [''11_HOUR_DRIVING_LIMIT_EXCEEDED''] else []) @
     (if MAX_SHIFT_MINUTES < onDuty then [''14_HOUR_ON_DUTY_SHIFT_LIMIT_EXCEEDED''] else [])"

definition evaluateDriverCompliance :: "string \<Rightarrow> IDriverDutyLog list \<Rightarrow> IHosComplianceStatus" where
  "evaluateDriverCompliance driverId dutyLogs =
     (let (driving, onDuty) = fold add_duty dutyLogs (0, 0);
          drivingRemaining = max 0 (MAX_DRIVING_MINUTES - driving)
      in \<lparr> hs_driverId = driverId, hs_drivingMinutesRemaining = drivingRemaining,
           hs_shiftMinutesRemaining = max 0 (MAX_SHIFT_MINUTES - onDuty),
           hs_cycleMinutesRemaining = max 0 (MAX_CYCLE_MINUTES - onDuty),
           hs_requiresBreakInMinutes = min drivingRemaining (480 - minutes_rem driving 480),
           hs_isViolation = (duty_violations driving onDuty \<noteq> []),
           hs_activeViolations = duty_violations driving onDuty \<rparr>)"

definition minutes_in :: "duty_status set \<Rightarrow> IDriverDutyLog list \<Rightarrow> int" where
  "minutes_in S logs = (\<Sum>l \<leftarrow> filter (\<lambda>l. dl_status l \<in> S) logs. dl_durationMinutes l)"

lemma minutes_in_append [simp]: "minutes_in S (xs @ ys) = minutes_in S xs + minutes_in S ys"
  by (simp add: minutes_in_def)

lemma minutes_in_nonneg: "list_all (\<lambda>l. 0 \<le> dl_durationMinutes l) logs \<Longrightarrow> 0 \<le> minutes_in S logs"
  by (induction logs) (simp_all add: minutes_in_def)

lemma fold_add_duty:
  "fold add_duty logs (d, w) = (d + minutes_in {DRIVING} logs, w + minutes_in {DRIVING, ON_DUTY_NOT_DRIVING} logs)"
  by (induction logs arbitrary: d w) (auto simp: minutes_in_def add_duty_def split: duty_status.split)

lemma compliance_closed_form:
  "hs_isViolation (evaluateDriverCompliance d logs) \<longleftrightarrow>
    660 < minutes_in {DRIVING} logs \<or> 840 < minutes_in {DRIVING, ON_DUTY_NOT_DRIVING} logs"
  "hs_drivingMinutesRemaining (evaluateDriverCompliance d logs) = max 0 (660 - minutes_in {DRIVING} logs)"
  "hs_shiftMinutesRemaining (evaluateDriverCompliance d logs) = max 0 (840 - minutes_in {DRIVING, ON_DUTY_NOT_DRIVING} logs)"
  "hs_cycleMinutesRemaining (evaluateDriverCompliance d logs) = max 0 (4200 - minutes_in {DRIVING, ON_DUTY_NOT_DRIVING} logs)"
  "hs_requiresBreakInMinutes (evaluateDriverCompliance d logs) =
     min (max 0 (660 - minutes_in {DRIVING} logs)) (480 - minutes_rem (minutes_in {DRIVING} logs) 480)"
  by (simp_all add: evaluateDriverCompliance_def fold_add_duty Let_def duty_violations_def
      MAX_DRIVING_MINUTES_def MAX_SHIFT_MINUTES_def MAX_CYCLE_MINUTES_def)

text \<open>C39: 
  Hours only accumulate. A driver may go on for exactly as long as the remaining minutes say, but no rest, however
  long, gives any of them back: once in violation, always in violation.
\<close>

theorem hours_of_service:
  assumes "list_all (\<lambda>l. 0 \<le> dl_durationMinutes l) later"
  shows "hs_isViolation (evaluateDriverCompliance d logs) \<le> hs_isViolation (evaluateDriverCompliance d (logs @ later)) \<and>
    hs_drivingMinutesRemaining (evaluateDriverCompliance d (logs @ later)) =
      max 0 (hs_drivingMinutesRemaining (evaluateDriverCompliance d logs) - minutes_in {DRIVING} later) \<and>
    hs_shiftMinutesRemaining (evaluateDriverCompliance d (logs @ later)) =
      max 0 (hs_shiftMinutesRemaining (evaluateDriverCompliance d logs) - minutes_in {DRIVING, ON_DUTY_NOT_DRIVING} later)"
  using minutes_in_nonneg [OF assms, of "{DRIVING}"] minutes_in_nonneg [OF assms, of "{DRIVING, ON_DUTY_NOT_DRIVING}"]
  by (auto simp: compliance_closed_form)

theorem hours_of_service_witness:
  "hs_drivingMinutesRemaining (evaluateDriverCompliance ''d1''
     ([\<lparr> dl_logId = ''a'', dl_driverId = ''d1'', dl_status = DRIVING, dl_startedAt = 0, dl_endedAt = None, dl_durationMinutes = 600 \<rparr>] @
      [\<lparr> dl_logId = ''b'', dl_driverId = ''d1'', dl_status = OFF_DUTY, dl_startedAt = 1, dl_endedAt = None, dl_durationMinutes = 6000 \<rparr>])) = 60"
  using hours_of_service [of "[\<lparr> dl_logId = ''b'', dl_driverId = ''d1'', dl_status = OFF_DUTY, dl_startedAt = 1,
        dl_endedAt = None, dl_durationMinutes = 6000 \<rparr>]" "''d1''"
      "[\<lparr> dl_logId = ''a'', dl_driverId = ''d1'', dl_status = DRIVING, dl_startedAt = 0, dl_endedAt = None, dl_durationMinutes = 600 \<rparr>]"]
  by (simp add: compliance_closed_form minutes_in_def)

text \<open>A driver who has driven eight hours without a break has one due now, and is told it is due in three hours.\<close>

lemma break_due_is_forgotten:
  "hs_requiresBreakInMinutes (evaluateDriverCompliance d
     [\<lparr> dl_logId = l, dl_driverId = d, dl_status = DRIVING, dl_startedAt = 0, dl_endedAt = None, dl_durationMinutes = 480 \<rparr>]) = 180"
  by (simp add: compliance_closed_form minutes_in_def minutes_rem_def)

section \<open>Rest breaks\<close>

datatype rest_type = OFF_DUTY_MEAL | REST_SLEEPER_BERTH | REST_STOP

record IRestBreakLog =
  rb_breakId :: string
  rb_driverId :: string
  rb_restType :: rest_type
  rb_startTime :: instant
  rb_endTime :: "instant option"
  rb_durationMinutes :: int
  rb_truckStopGeofenceId :: "string option"

record break_compliance =
  bc_isCompliant :: bool
  bc_qualifyingRestMinutes :: int
  bc_minutesUntilMandatoryBreak :: int

definition qualifyingRest :: "IRestBreakLog list \<Rightarrow> int" where
  "qualifyingRest breaks = (\<Sum>b \<leftarrow> filter (\<lambda>b. 30 \<le> rb_durationMinutes b) breaks. rb_durationMinutes b)"

definition validateBreakCompliance :: "int \<Rightarrow> IRestBreakLog list \<Rightarrow> break_compliance" where
  "validateBreakCompliance continuousDrivingMinutes breaks =
     \<lparr> bc_isCompliant = (continuousDrivingMinutes \<le> 480 \<or> 30 \<le> qualifyingRest breaks),
       bc_qualifyingRestMinutes = qualifyingRest breaks,
       bc_minutesUntilMandatoryBreak = max 0 (480 - continuousDrivingMinutes) \<rparr>"

text \<open>The threshold of the sum never decides beyond that of the single break: one break of thirty minutes, at any
  time and of any driver, makes up for any drive.\<close>

lemma qualifyingRest_nonneg: "0 \<le> qualifyingRest breaks"
  by (induction breaks) (simp_all add: qualifyingRest_def)

lemma qualifyingRest_Cons:
  "qualifyingRest (b # bs) = (if 30 \<le> rb_durationMinutes b then rb_durationMinutes b else 0) + qualifyingRest bs"
  by (simp add: qualifyingRest_def)

lemma qualifyingRest_iff: "30 \<le> qualifyingRest breaks \<longleftrightarrow> list_ex (\<lambda>b. 30 \<le> rb_durationMinutes b) breaks"
proof (induction breaks)
  case (Cons b bs)
  then show ?case using qualifyingRest_nonneg [of bs] by (auto simp: qualifyingRest_Cons)
qed (simp add: qualifyingRest_def)

section \<open>Hazardous transport\<close>

datatype packing_group = I | II | III

record IHazmatCargoItem =
  hc_unNumber :: string
  hc_properShippingName :: string
  hc_hazardClassNumber :: string
  hc_packingGroup :: packing_group
  hc_grossWeightLbs :: rat
  hc_isReportableQuantity :: bool
  hc_ergGuidePageNumber :: nat

record IDriverHazmatCredentials =
  hd_driverId :: string
  hd_licenseNumber :: string
  hd_endorsements :: "string list"
  hd_twicCardVerified :: bool
  hd_medicalCardExpiresAt :: instant
  hd_hazmatTrainingExpiresAt :: instant

record transport_decision =
  td_isAllowedToDispatch :: bool
  td_violations :: "string list"
  td_requiredPlacardNames :: "string list"

definition hazmat_weight :: "IHazmatCargoItem list \<Rightarrow> rat" where
  "hazmat_weight items = foldl (\<lambda>acc i. dadd acc (hc_grossWeightLbs i)) 0 items"

definition placard :: "IHazmatCargoItem \<Rightarrow> string" where
  "placard i = ''CLASS_'' @ hc_hazardClassNumber i @ ''_PLACARD''"

definition add_placard :: "IHazmatCargoItem \<Rightarrow> string list \<Rightarrow> string list" where
  "add_placard i ps = (if placard i \<in> set ps then ps else ps @ [placard i])"

definition evaluateTransportCompliance ::
  "instant \<Rightarrow> IHazmatCargoItem list \<Rightarrow> IDriverHazmatCredentials \<Rightarrow> bool \<Rightarrow> transport_decision" where
  "evaluateTransportCompliance now items driver vehicleHasPlacards =
     (let heavy = 1001 \<le> hazmat_weight items;
          violations =
            (if ''H'' \<in> set (hd_endorsements driver) \<or> ''X'' \<in> set (hd_endorsements driver) then []
             else [''Driver lacks required H or X Hazmat endorsement on CDL'']) @
            (if hd_hazmatTrainingExpiresAt driver < now
             then [''Driver recurrent DOT hazardous materials security training has expired''] else []) @
            (if hd_medicalCardExpiresAt driver < now
             then [''Driver DOT physical medical examiner certificate is expired''] else []) @
            (if heavy \<and> \<not> vehicleHasPlacards
             then [''Vehicle lacks mandatory DOT placards for aggregate hazardous payload >= 1,001 lbs''] else [])
      in \<lparr> td_isAllowedToDispatch = (violations = []), td_violations = violations,
           td_requiredPlacardNames = (if heavy then fold add_placard items [] else []) \<rparr>)"

lemma transport_decides:
  "td_isAllowedToDispatch (evaluateTransportCompliance now items driver placards) \<longleftrightarrow>
    (''H'' \<in> set (hd_endorsements driver) \<or> ''X'' \<in> set (hd_endorsements driver)) \<and>
    now \<le> hd_hazmatTrainingExpiresAt driver \<and> now \<le> hd_medicalCardExpiresAt driver \<and>
    (1001 \<le> hazmat_weight items \<longrightarrow> placards)"
  by (auto simp: evaluateTransportCompliance_def Let_def)

text \<open>Each class on board is placarded once.\<close>

lemma placards_once:
  "distinct (td_requiredPlacardNames (evaluateTransportCompliance now items driver p)) \<and>
   (1001 \<le> hazmat_weight items \<longrightarrow>
     set (td_requiredPlacardNames (evaluateTransportCompliance now items driver p)) = placard ` set items)"
proof -
  have "distinct (fold add_placard items ps) \<and> set (fold add_placard items ps) = set ps \<union> placard ` set items" if "distinct ps" for ps
    using that by (induction items arbitrary: ps) (auto simp: add_placard_def)
  then show ?thesis by (simp add: evaluateTransportCompliance_def Let_def)
qed

record IRouteCoordinate =
  rc_latitude :: rat
  rc_longitude :: rat
  rc_segmentName :: string
  rc_isTunnel :: bool
  rc_isNearDrinkingWaterReservoir :: bool

definition segment_flags :: "bool \<Rightarrow> IRouteCoordinate \<Rightarrow> string list" where
  "segment_flags explosive s =
     (if rc_isTunnel s then [''Restricted tunnel transit: '' @ rc_segmentName s] else []) @
     (if explosive \<and> rc_isNearDrinkingWaterReservoir s
      then [''Water protection watershed violation: '' @ rc_segmentName s] else [])"

record route_approval =
  ra_isApprovedRoute :: bool
  ra_flaggedSegments :: "string list"
  ra_detourRecommended :: bool

definition filterRestrictedHazmatSegments :: "IRouteCoordinate list \<Rightarrow> bool \<Rightarrow> route_approval" where
  "filterRestrictedHazmatSegments route explosive =
     (let flagged = concat (map (segment_flags explosive) route)
      in \<lparr> ra_isApprovedRoute = (flagged = []), ra_flaggedSegments = flagged, ra_detourRecommended = (flagged \<noteq> []) \<rparr>)"

lemma route_approved_iff:
  "ra_isApprovedRoute (filterRestrictedHazmatSegments route explosive) \<longleftrightarrow>
    list_all (\<lambda>s. \<not> rc_isTunnel s \<and> \<not> (explosive \<and> rc_isNearDrinkingWaterReservoir s)) route"
  by (auto simp: filterRestrictedHazmatSegments_def segment_flags_def list_all_iff)

section \<open>Maintenance\<close>

datatype vehicle_status = OPTIMAL | SERVICE_DUE_SOON | SERVICE_OVERDUE | OUT_OF_SERVICE
datatype task_priority = ROUTINE | URGENT | SAFETY_CRITICAL

record IVehicleMaintenanceRecord =
  vm_vehicleId :: string
  vm_vin :: string
  vm_currentOdometerKm :: int
  vm_lastOilChangeKm :: int
  vm_lastBrakeServiceKm :: int
  vm_lastTireRotationKm :: int
  vm_engineOperatingHours :: int
  vm_status :: vehicle_status

record IMaintenanceTaskRecommendation =
  mt_taskName :: string
  mt_priority :: task_priority
  mt_estimatedCostUSD :: rat
  mt_estimatedDowntimeHours :: rat

definition OIL_INTERVAL_KM :: int where "OIL_INTERVAL_KM = 25000"
definition BRAKE_INTERVAL_KM :: int where "BRAKE_INTERVAL_KM = 60000"
definition TIRE_INTERVAL_KM :: int where "TIRE_INTERVAL_KM = 40000"

definition maintenance_tasks :: "IVehicleMaintenanceRecord \<Rightarrow> IMaintenanceTaskRecommendation list" where
  "maintenance_tasks v =
     (let kmSinceOil = vm_currentOdometerKm v - vm_lastOilChangeKm v;
          kmSinceBrake = vm_currentOdometerKm v - vm_lastBrakeServiceKm v;
          kmSinceTire = vm_currentOdometerKm v - vm_lastTireRotationKm v
      in (if OIL_INTERVAL_KM \<le> kmSinceOil
          then [\<lparr> mt_taskName = ''Heavy Duty Synthetic Engine Oil & Filter Replacement'',
                  mt_priority = (if OIL_INTERVAL_KM + 3000 < kmSinceOil then URGENT else ROUTINE),
                  mt_estimatedCostUSD = 350, mt_estimatedDowntimeHours = 5 / 2 \<rparr>] else []) @
         (if BRAKE_INTERVAL_KM \<le> kmSinceBrake
          then [\<lparr> mt_taskName = ''Air Brake Lining Inspection & Drum Rotor Measurement'', mt_priority = SAFETY_CRITICAL,
                  mt_estimatedCostUSD = 780, mt_estimatedDowntimeHours = 4 \<rparr>] else []) @
         (if TIRE_INTERVAL_KM \<le> kmSinceTire
          then [\<lparr> mt_taskName = ''All-Axle Commercial Tire Rotation & Tread Depth Gauge'', mt_priority = ROUTINE,
                  mt_estimatedCostUSD = 180, mt_estimatedDowntimeHours = 3 / 2 \<rparr>] else []))"

definition evaluateVehicleHealth :: "IVehicleMaintenanceRecord \<Rightarrow> vehicle_status \<times> IMaintenanceTaskRecommendation list" where
  "evaluateVehicleHealth v =
     (let tasks = maintenance_tasks v
      in (if list_ex (\<lambda>t. mt_priority t = SAFETY_CRITICAL) tasks then SERVICE_OVERDUE
          else if tasks \<noteq> [] then SERVICE_DUE_SOON else OPTIMAL, tasks))"

text \<open>The status in one line per case; driving on never improves it. A vehicle is never taken out of service: the
  recorded status is not read, and urgent oil reads as due soon.\<close>

lemma vehicle_status_cases:
  "fst (evaluateVehicleHealth v) =
    (if vm_lastBrakeServiceKm v + 60000 \<le> vm_currentOdometerKm v then SERVICE_OVERDUE
     else if vm_lastOilChangeKm v + 25000 \<le> vm_currentOdometerKm v \<or> vm_lastTireRotationKm v + 40000 \<le> vm_currentOdometerKm v
     then SERVICE_DUE_SOON else OPTIMAL)"
  by (auto simp: evaluateVehicleHealth_def maintenance_tasks_def Let_def OIL_INTERVAL_KM_def BRAKE_INTERVAL_KM_def TIRE_INTERVAL_KM_def)

lemma never_out_of_service: "fst (evaluateVehicleHealth v) \<noteq> OUT_OF_SERVICE"
  by (simp add: vehicle_status_cases)

section \<open>The cold chain\<close>

record ITemperatureReading =
  te_sensorId :: string
  te_shipmentId :: string
  te_temperatureCelsius :: rat
  te_relativeHumidityPct :: rat
  te_ambientTemperatureCelsius :: rat
  te_batteryLevelPct :: rat
  te_recordedAt :: instant

record IColdChainThreshold =
  th_minTempCelsius :: rat
  th_maxTempCelsius :: rat
  th_maxExcursionMinutes :: int

datatype alert_severity = WARNING | CRITICAL

type_synonym excursions = "(string, int) jsmap"

definition is_excursion :: "IColdChainThreshold \<Rightarrow> ITemperatureReading \<Rightarrow> bool" where
  "is_excursion th r \<longleftrightarrow> te_temperatureCelsius r < th_minTempCelsius th \<or> th_maxTempCelsius th < te_temperatureCelsius r"

definition excursion_of :: "string \<Rightarrow> excursions \<Rightarrow> int" where
  "excursion_of shipmentId m = (case jm_get m shipmentId of Some n \<Rightarrow> n | None \<Rightarrow> 0)"

record reading_verdict =
  rv_isWithinRange :: bool
  rv_alertSeverity :: "alert_severity option"

definition ingestReading :: "ITemperatureReading \<Rightarrow> IColdChainThreshold \<Rightarrow> excursions \<Rightarrow> excursions \<times> reading_verdict" where
  "ingestReading r th m =
     (if \<not> is_excursion th r
      then (jm_delete (te_shipmentId r) m, \<lparr> rv_isWithinRange = True, rv_alertSeverity = None \<rparr>)
      else let current = excursion_of (te_shipmentId r) m + 5
           in (jm_set (te_shipmentId r) current m,
               \<lparr> rv_isWithinRange = False,
                 rv_alertSeverity = Some (if th_maxExcursionMinutes th \<le> current then CRITICAL else WARNING) \<rparr>))"

definition excursion_run :: "string \<Rightarrow> (ITemperatureReading \<times> IColdChainThreshold) list \<Rightarrow> nat" where
  "excursion_run shipmentId rs =
     length (takeWhile (\<lambda>(r, th). is_excursion th r) (rev (filter (\<lambda>(r, th). te_shipmentId r = shipmentId) rs)))"

definition ingest_pings :: "(ITemperatureReading \<times> IColdChainThreshold) list \<Rightarrow> excursions" where
  "ingest_pings rs = fold (\<lambda>(r, th) m. fst (ingestReading r th m)) rs []"

lemma excursion_run_snoc:
  "excursion_run s (rs @ [(r, th)]) =
    (if te_shipmentId r \<noteq> s then excursion_run s rs else if is_excursion th r then Suc (excursion_run s rs) else 0)"
  by (simp add: excursion_run_def)

lemma ingest_pings_snoc: "ingest_pings (rs @ [(r, th)]) = fst (ingestReading r th (ingest_pings rs))"
  by (simp add: ingest_pings_def)

lemma ingest_pings_run: "excursion_of s (ingest_pings rs) = 5 * int (excursion_run s rs)"
proof (induction rs rule: rev_induct)
  case Nil
  then show ?case by (simp add: ingest_pings_def excursion_of_def excursion_run_def)
next
  case (snoc x rs)
  obtain r th where x: "x = (r, th)" by fastforce
  show ?case
    using snoc.IH unfolding x ingest_pings_snoc excursion_run_snoc
    by (auto simp: ingestReading_def excursion_of_def Let_def)
qed

text \<open>C40: 
  The counter refines the readings of the shipment: it is five minutes for each of the last readings in a row that
  were out of range, whatever the readings of other shipments in between and whatever the times of the readings.
\<close>

theorem cold_chain_run:
  "rv_alertSeverity (snd (ingestReading r th (ingest_pings rs))) =
    (if \<not> is_excursion th r then None
     else if th_maxExcursionMinutes th \<le> 5 * int (Suc (excursion_run (te_shipmentId r) rs)) then Some CRITICAL
     else Some WARNING)"
  by (simp add: ingestReading_def Let_def ingest_pings_run algebra_simps)

datatype compartment = ZONE_A_FROZEN | ZONE_B_CHILLED | ZONE_C_AMBIENT
datatype compressor = RUNNING | DEFROST | COMPRESSOR_OFF | FAULT
datatype reefer_severity = NORMAL_LEVEL | WARNING_LEVEL | CRITICAL_LEVEL

record IReeferSensorReading =
  rf_telematicsId :: string
  rf_shipmentId :: string
  rf_compartmentZone :: compartment
  rf_temperatureCelsius :: rat
  rf_humidityPercentage :: rat
  rf_compressorState :: compressor
  rf_timestamp :: instant

record reefer_alert =
  re_isAlertTriggered :: bool
  re_severity :: reefer_severity
  re_deviationCelsius :: rat

primrec zoneThresholds :: "compartment \<Rightarrow> rat \<times> rat" where
  "zoneThresholds ZONE_A_FROZEN = (-25, -18)"
| "zoneThresholds ZONE_B_CHILLED = (2, 8)"
| "zoneThresholds ZONE_C_AMBIENT = (15, 25)"

definition reefer_deviation :: "rat \<times> rat \<Rightarrow> rat \<Rightarrow> rat" where
  "reefer_deviation limits temp =
     (if snd limits < temp then toFixed 2 (dsub temp (snd limits))
      else if temp < fst limits then toFixed 2 (dsub (fst limits) temp) else 0)"

definition evaluateReading :: "IReeferSensorReading \<Rightarrow> reefer_alert" where
  "evaluateReading r =
     (let deviation = reefer_deviation (zoneThresholds (rf_compartmentZone r)) (rf_temperatureCelsius r)
      in if 5 \<le> deviation \<or> rf_compressorState r = FAULT
         then \<lparr> re_isAlertTriggered = True, re_severity = CRITICAL_LEVEL, re_deviationCelsius = deviation \<rparr>
         else if 0 < deviation
         then \<lparr> re_isAlertTriggered = True, re_severity = WARNING_LEVEL, re_deviationCelsius = deviation \<rparr>
         else \<lparr> re_isAlertTriggered = False, re_severity = NORMAL_LEVEL, re_deviationCelsius = 0 \<rparr>)"

text \<open>A temperature in the range of its zone raises no alert unless the compressor has failed; a deviation below half
  a hundredth of a degree rounds away.\<close>

lemma reefer_in_range:
  assumes "fst (zoneThresholds (rf_compartmentZone r)) \<le> rf_temperatureCelsius r"
    and "rf_temperatureCelsius r \<le> snd (zoneThresholds (rf_compartmentZone r))"
  shows "re_isAlertTriggered (evaluateReading r) \<longleftrightarrow> rf_compressorState r = FAULT"
  using assms by (simp add: evaluateReading_def reefer_deviation_def)

section \<open>Geofences\<close>

record latlon =
  ll_lat :: rat
  ll_lon :: rat

record IGeofencePolygon =
  gp_zoneId :: string
  gp_zoneName :: string
  gp_vertices :: "latlon list"

definition crosses :: "latlon \<Rightarrow> latlon \<Rightarrow> latlon \<Rightarrow> bool" where
  "crosses point vi vj \<longleftrightarrow>
     ((ll_lat point < ll_lat vi) \<noteq> (ll_lat point < ll_lat vj)) \<and>
     ll_lon point < dadd (ddiv (dmul (dsub (ll_lon vj) (ll_lon vi)) (dsub (ll_lat point) (ll_lat vi)))
                               (dsub (ll_lat vj) (ll_lat vi))) (ll_lon vi)"

text \<open>The loop \<open>for (i = 0, j = n - 1; i < n; j = i++)\<close>: \<open>j\<close> is the vertex before \<open>i\<close>.\<close>

fun cast_ray :: "latlon \<Rightarrow> latlon \<Rightarrow> latlon list \<Rightarrow> bool \<Rightarrow> bool" where
  "cast_ray point vj [] inside = inside"
| "cast_ray point vj (vi # vs) inside = cast_ray point vi vs (if crosses point vi vj then \<not> inside else inside)"

definition isPointInsidePolygon :: "latlon \<Rightarrow> IGeofencePolygon \<Rightarrow> bool" where
  "isPointInsidePolygon point polygon =
     (case gp_vertices polygon of [] \<Rightarrow> False | vs \<Rightarrow> cast_ray point (last vs) vs False)"

definition polygon_edges :: "latlon list \<Rightarrow> (latlon \<times> latlon) list" where
  "polygon_edges vs = zip vs (last vs # vs)"

lemma cast_ray_parity:
  "cast_ray p vj vs inside \<longleftrightarrow> (inside \<noteq> odd (length (filter (\<lambda>(vi, vj). crosses p vi vj) (zip vs (vj # vs)))))"
  by (induction vs arbitrary: vj inside) auto

lemma inside_parity:
  "isPointInsidePolygon p g \<longleftrightarrow> odd (length (filter (\<lambda>(vi, vj). crosses p vi vj) (polygon_edges (gp_vertices g))))"
  by (cases "gp_vertices g") (simp_all only: isPointInsidePolygon_def polygon_edges_def cast_ray_parity list.case, simp_all)

lemma zip_shifted: "zip (xs @ [x]) (y # xs @ zs) = zip xs (y # xs) @ [(x, last (y # xs))]"
  by (induction xs arbitrary: y) auto

lemma polygon_edges_rotate: "mset (polygon_edges (vs @ [v])) = mset (polygon_edges (v # vs))"
proof (cases vs)
  case (Cons u us)
  then show ?thesis using zip_shifted [of vs v v "[v]"] by (simp add: polygon_edges_def)
qed (simp add: polygon_edges_def)

text \<open> 
  A point is inside exactly when the ray crosses an odd number of edges. So the answer does not depend on the vertex
  the polygon starts with, and a point north or south of all vertices is outside.
\<close>

theorem geofence_rotation:
  "isPointInsidePolygon p \<lparr> gp_zoneId = z, gp_zoneName = n, gp_vertices = rotate k vs \<rparr> =
   isPointInsidePolygon p \<lparr> gp_zoneId = z, gp_zoneName = n, gp_vertices = vs \<rparr>"
proof (induction k)
  case (Suc k)
  have one: "isPointInsidePolygon p \<lparr> gp_zoneId = z, gp_zoneName = n, gp_vertices = rotate1 us \<rparr> =
      isPointInsidePolygon p \<lparr> gp_zoneId = z, gp_zoneName = n, gp_vertices = us \<rparr>" for us
  proof (cases us)
    case (Cons v ws)
    have "size (filter_mset (\<lambda>(vi, vj). crosses p vi vj) (mset (polygon_edges (ws @ [v])))) =
        size (filter_mset (\<lambda>(vi, vj). crosses p vi vj) (mset (polygon_edges (v # ws))))"
      by (simp only: polygon_edges_rotate)
    then show ?thesis unfolding inside_parity Cons by (simp flip: mset_filter)
  qed simp
  show ?case using one [of "rotate k vs"] Suc by simp
qed simp

lemma outside_band:
  assumes "list_all (\<lambda>v. ll_lat v \<le> ll_lat p) (gp_vertices g) \<or> list_all (\<lambda>v. ll_lat p < ll_lat v) (gp_vertices g)"
  shows "\<not> isPointInsidePolygon p g"
proof -
  have "filter (\<lambda>(vi, vj). crosses p vi vj) (polygon_edges (gp_vertices g)) = []"
  proof (rule ccontr)
    assume "filter (\<lambda>(vi, vj). crosses p vi vj) (polygon_edges (gp_vertices g)) \<noteq> []"
    then obtain vi vj where c: "(vi, vj) \<in> set (polygon_edges (gp_vertices g))" "crosses p vi vj"
      by (force simp: filter_empty_conv)
    then have "gp_vertices g \<noteq> []" by (auto simp: polygon_edges_def)
    moreover have "vi \<in> set (gp_vertices g)" "vj \<in> set (last (gp_vertices g) # gp_vertices g)"
      using c(1) unfolding polygon_edges_def by (rule set_zip_leftD, rule set_zip_rightD)
    ultimately have "vi \<in> set (gp_vertices g)" "vj \<in> set (gp_vertices g)" by auto
    with assms c(2) show False by (auto simp: crosses_def list_all_iff)
  qed
  then show ?thesis by (simp add: inside_parity)
qed

section \<open>The highway table\<close>

record IHighwayCorridorSegment =
  hw_corridorId :: string
  hw_originState :: string
  hw_destinationState :: string
  hw_interstateHighwayCode :: string
  hw_distanceMiles :: rat
  hw_averageTransitHours :: rat
  hw_tollFeeUSD :: rat
  hw_dieselFuelConsumptionGallons :: rat
  hw_co2EmissionsKg :: rat
  hw_speedLimitMph :: nat
  hw_weightLimitGrossLbs :: nat

definition corridor_states :: "string list" where
  "corridor_states = [''CA'', ''NV'', ''AZ'', ''UT'', ''CO'', ''NM'', ''TX'', ''OK'', ''KS'', ''MO'', ''IL'', ''IN'', ''OH'', ''PA'',
     ''NY'', ''NJ'', ''GA'', ''FL'', ''NC'', ''VA'']"

definition corridor_id :: "string \<Rightarrow> string \<Rightarrow> string" where
  "corridor_id orig dest = ''CORRIDOR_'' @ orig @ ''_'' @ dest"

definition corridor :: "nat \<Rightarrow> string \<Rightarrow> string \<Rightarrow> IHighwayCorridorSegment" where
  "corridor i orig dest =
     (let distance = of_nat (250 + i * 35); fuel = toFixed 1 (ddiv distance (13 / 2))
      in \<lparr> hw_corridorId = corridor_id orig dest, hw_originState = orig, hw_destinationState = dest,
           hw_interstateHighwayCode = (if i mod 2 = 0 then ''I-80'' else ''I-40''), hw_distanceMiles = distance,
           hw_averageTransitHours = toFixed 1 (ddiv distance 58),
           hw_tollFeeUSD = (if i mod 3 = 0 then toFixed 2 (dmul distance (fl (12 / 100))) else 0),
           hw_dieselFuelConsumptionGallons = fuel, hw_co2EmissionsKg = toFixed 1 (dmul fuel (fl (1018 / 100))),
           hw_speedLimitMph = 65, hw_weightLimitGrossLbs = 80000 \<rparr>)"

definition seedCorridors :: "(string, IHighwayCorridorSegment) jsmap" where
  "seedCorridors =
     map (\<lambda>(i, orig, dest). (corridor_id orig dest, corridor i orig dest))
       (enumerate 0 (zip corridor_states (tl corridor_states)))"

definition getCorridor :: "string \<Rightarrow> string \<Rightarrow> IHighwayCorridorSegment option" where
  "getCorridor orig dest = jm_get seedCorridors (corridor_id orig dest)"

record route_totals =
  rt_totalDistanceMiles :: rat
  rt_totalHours :: rat
  rt_totalTollsUSD :: rat
  rt_totalCo2Kg :: rat

definition add_leg :: "string \<times> string \<Rightarrow> rat \<times> rat \<times> rat \<times> rat \<Rightarrow> rat \<times> rat \<times> rat \<times> rat" where
  "add_leg leg t =
     (case t of (miles, hrs, tolls, co2) \<Rightarrow>
        case getCorridor (fst leg) (snd leg) of
          Some c \<Rightarrow> (dadd miles (hw_distanceMiles c), dadd hrs (hw_averageTransitHours c),
                     dadd tolls (hw_tollFeeUSD c), dadd co2 (hw_co2EmissionsKg c))
        | None \<Rightarrow> (dadd miles 300, dadd hrs (fl (52 / 10)), tolls, dadd co2 450))"

definition calculateHighwayRoute :: "string list \<Rightarrow> route_totals" where
  "calculateHighwayRoute routeStates =
     (case fold add_leg (zip routeStates (tl routeStates)) (0, 0, 0, 0) of (miles, hrs, tolls, co2) \<Rightarrow>
        \<lparr> rt_totalDistanceMiles = miles, rt_totalHours = toFixed 1 hrs, rt_totalTollsUSD = toFixed 2 tolls,
          rt_totalCo2Kg = toFixed 1 co2 \<rparr>)"

text \<open>The table is directed: each state but the last leads to one other, and no corridor can be driven back, so the
  way back is estimated by the defaults.\<close>

lemma corridor_keys:
  "map fst seedCorridors = map (\<lambda>(o1, d1). corridor_id o1 d1) (zip corridor_states (tl corridor_states))"
proof -
  have "map fst seedCorridors =
      map (\<lambda>(o1, d1). corridor_id o1 d1) (map snd (enumerate 0 (zip corridor_states (tl corridor_states))))"
    by (simp add: seedCorridors_def split_beta comp_def del: map_snd_enumerate)
  then show ?thesis by (simp only: map_snd_enumerate)
qed

lemma one_way: "getCorridor ''CA'' ''NV'' \<noteq> None \<and> getCorridor ''NV'' ''CA'' = None"
  by (simp add: getCorridor_def map_of_eq_None_iff corridor_keys corridor_states_def corridor_id_def flip: set_map)

end
