(* ===== verification/Warehouse_Cargo.thy ===== *)
theory Warehouse_Cargo
  imports Prelude Double "HOL-Library.Multiset"
begin

text \<open>
  Goods and their handling in the inventory service: packing into bins
  (packing/VolumetricBinPackingHeuristic.ts), the choice of a carton
  (packaging/SustainableCartonPackagingSelector.ts), barcodes (tracking/SerializedAssetBarcodeScannerService.ts),
  inbound inspection (quality/InboundQualityInspectionChecklist.ts), stock audits
  (stock/PhysicalInventoryAuditReconciliation.ts), transfers between warehouses
  (transfer/InterWarehouseTransferCoordinator.ts), and the alarms of conveyors and gas sensors
  (maintenance/WarehouseConveyorHealthTelemetryProcessor.ts, hazmat/HazardousGasDispersionModel.ts).
\<close>

section \<open>Bins\<close>

record IItem3D =
  i3_id :: string
  i3_sku :: string
  i3_widthCm :: rat
  i3_heightCm :: rat
  i3_depthCm :: rat
  i3_weightKg :: rat
  i3_isFragile :: bool
  i3_canRotate :: bool

record packed_item =
  pk_item :: IItem3D
  pk_positionX :: nat
  pk_positionY :: nat
  pk_positionZ :: nat

record bin_template =
  bt_maxWeightKg :: rat
  bt_widthCm :: rat
  bt_heightCm :: rat
  bt_depthCm :: rat

record IBin3D = bin_template +
  b3_binId :: string
  b3_packedItems :: "packed_item list"
  b3_currentWeightKg :: rat

definition box_volume :: "IItem3D \<Rightarrow> rat" where
  "box_volume i = dmul (dmul (i3_widthCm i) (i3_heightCm i)) (i3_depthCm i)"

definition bin_takes :: "IItem3D \<Rightarrow> IBin3D \<Rightarrow> bool" where
  "bin_takes item b \<longleftrightarrow> dadd (b3_currentWeightKg b) (i3_weightKg item) \<le> bt_maxWeightKg b"

definition put_in_bin :: "IItem3D \<Rightarrow> IBin3D \<Rightarrow> IBin3D" where
  "put_in_bin item b =
     b\<lparr> b3_packedItems := b3_packedItems b @
          [\<lparr> pk_item = item, pk_positionX = 0, pk_positionY = 0, pk_positionZ = length (b3_packedItems b) * 10 \<rparr>],
        b3_currentWeightKg := dadd (b3_currentWeightKg b) (i3_weightKg item) \<rparr>"

definition new_bin :: "bin_template \<Rightarrow> nat \<Rightarrow> IItem3D \<Rightarrow> IBin3D" where
  "new_bin t n item =
     bin_template.extend t
       \<lparr> b3_binId = ''BIN-'' @ dec_string (n + 1),
         b3_packedItems = [\<lparr> pk_item = item, pk_positionX = 0, pk_positionY = 0, pk_positionZ = 0 \<rparr>],
         b3_currentWeightKg = i3_weightKg item \<rparr>"

fun fit_first :: "IItem3D \<Rightarrow> IBin3D list \<Rightarrow> IBin3D list option" where
  "fit_first item [] = None"
| "fit_first item (b # bs) =
     (if bin_takes item b then Some (put_in_bin item b # bs) else map_option ((#) b) (fit_first item bs))"

definition pack_carton :: "bin_template \<Rightarrow> IItem3D \<Rightarrow> IBin3D list \<Rightarrow> IBin3D list" where
  "pack_carton t item bins =
     (case fit_first item bins of Some bins' \<Rightarrow> bins' | None \<Rightarrow> bins @ [new_bin t (length bins) item])"

definition packItemsIntoBins :: "IItem3D list \<Rightarrow> bin_template \<Rightarrow> IBin3D list" where
  "packItemsIntoBins items t = fold (pack_carton t) (sort_key (\<lambda>i. - box_volume i) items) []"

definition bin_items :: "IBin3D \<Rightarrow> IItem3D list" where
  "bin_items b = map pk_item (b3_packedItems b)"

definition bin_ok :: "bin_template \<Rightarrow> IBin3D \<Rightarrow> bool" where
  "bin_ok t b \<longleftrightarrow>
     b3_currentWeightKg b = foldl dadd (i3_weightKg (hd (bin_items b))) (map i3_weightKg (tl (bin_items b))) \<and>
     bt_maxWeightKg b = bt_maxWeightKg t \<and> bin_items b \<noteq> [] \<and>
     (length (bin_items b) = 1 \<or> b3_currentWeightKg b \<le> bt_maxWeightKg t)"

lemma bin_ok_new: "bin_ok t (new_bin t n item)"
  by (simp add: bin_ok_def new_bin_def bin_items_def bin_template.extend_def)

lemma bin_ok_put: "bin_ok t b \<Longrightarrow> bin_takes item b \<Longrightarrow> bin_ok t (put_in_bin item b)"
  by (cases "bin_items b") (auto simp: bin_ok_def put_in_bin_def bin_takes_def bin_items_def)

lemma fit_first_items:
  "fit_first item bs = Some bs' \<Longrightarrow>
    mset (concat (map bin_items bs')) = add_mset item (mset (concat (map bin_items bs))) \<and> length bs' = length bs"
  by (induction bs arbitrary: bs') (auto simp: put_in_bin_def bin_items_def split: if_splits)

lemma fit_first_ok:
  "fit_first item bs = Some bs' \<Longrightarrow> list_all (bin_ok t) bs \<Longrightarrow> list_all (bin_ok t) bs'"
  by (induction bs arbitrary: bs') (auto simp: bin_ok_put split: if_splits)

lemma fit_first_None: "fit_first item bs = None \<longleftrightarrow> list_all (\<lambda>b. \<not> bin_takes item b) bs"
  by (induction bs) auto

lemma pack_carton_keeps:
  assumes "list_all (bin_ok t) bs"
  shows "list_all (bin_ok t) (pack_carton t item bs) \<and>
    mset (concat (map bin_items (pack_carton t item bs))) = add_mset item (mset (concat (map bin_items bs)))"
proof (cases "fit_first item bs")
  case None
  then show ?thesis using assms by (simp add: pack_carton_def bin_ok_new) (simp add: new_bin_def bin_items_def bin_template.extend_def)
next
  case (Some bs')
  then show ?thesis using assms fit_first_items [OF Some] fit_first_ok [OF Some] by (simp add: pack_carton_def)
qed

text \<open> 
  Every item is packed exactly once; a bin is within the weight limit unless it holds the single item that exceeds the
  limit by itself; and no bin is opened for an item that an earlier bin could take. Sizes play no part but in the order.
\<close>

theorem packing_conserves:
  "mset (concat (map bin_items (packItemsIntoBins items t))) = mset items \<and>
   list_all (bin_ok t) (packItemsIntoBins items t)"
proof -
  have "list_all (bin_ok t) (fold (pack_carton t) is bs) \<and>
      mset (concat (map bin_items (fold (pack_carton t) is bs))) = mset is + mset (concat (map bin_items bs))"
    if "list_all (bin_ok t) bs" for "is" bs
    using that
  proof (induction "is" arbitrary: bs)
    case (Cons i "is")
    from pack_carton_keeps [OF Cons.prems, of i] Cons.IH [of "pack_carton t i bs"] show ?case by simp
  qed simp
  from this [of "[]" "sort_key (\<lambda>i. - box_volume i) items"] show ?thesis by (simp add: packItemsIntoBins_def)
qed

section \<open>Cartons\<close>

datatype eco_rating = FSC_100_RECYCLED | KRAFT_STANDARD | CORRUGATED_HEAVY_DUTY

record ICartonSize =
  cs_cartonCode :: string
  cs_innerLengthCm :: rat
  cs_innerWidthCm :: rat
  cs_innerHeightCm :: rat
  cs_maxPayloadWeightKg :: rat
  cs_tareWeightKg :: rat
  cs_materialEcoRating :: eco_rating

definition carton_row :: "string \<Rightarrow> rat \<Rightarrow> rat \<Rightarrow> rat \<Rightarrow> rat \<Rightarrow> rat \<Rightarrow> eco_rating \<Rightarrow> ICartonSize" where
  "carton_row code l w h payload tare eco =
     \<lparr> cs_cartonCode = code, cs_innerLengthCm = l, cs_innerWidthCm = w, cs_innerHeightCm = h,
       cs_maxPayloadWeightKg = payload, cs_tareWeightKg = tare, cs_materialEcoRating = eco \<rparr>"

definition cartons :: "ICartonSize list" where
  "cartons =
     [carton_row ''BOX-S1'' 20 15 10 5 (fl (15 / 100)) FSC_100_RECYCLED,
      carton_row ''BOX-M1'' 35 25 20 15 (fl (35 / 100)) FSC_100_RECYCLED,
      carton_row ''BOX-L1'' 50 40 35 30 (fl (65 / 100)) FSC_100_RECYCLED,
      carton_row ''BOX-XL1'' 70 55 45 50 (fl (110 / 100)) CORRUGATED_HEAVY_DUTY]"

definition carton_volume :: "ICartonSize \<Rightarrow> rat" where
  "carton_volume c = dmul (dmul (cs_innerLengthCm c) (cs_innerWidthCm c)) (cs_innerHeightCm c)"

definition carton_fits :: "rat \<Rightarrow> rat \<Rightarrow> rat \<Rightarrow> ICartonSize \<Rightarrow> bool" where
  "carton_fits volume dimension weight c \<longleftrightarrow>
     weight \<le> cs_maxPayloadWeightKg c \<and>
     dimension \<le> max (max (cs_innerLengthCm c) (cs_innerWidthCm c)) (cs_innerHeightCm c) \<and>
     volume \<le> carton_volume c"

record carton_choice =
  cc_selectedCarton :: ICartonSize
  cc_voidFillVolumeCm3 :: rat
  cc_cartonUtilizationPct :: rat

definition choice_of :: "rat \<Rightarrow> ICartonSize \<Rightarrow> carton_choice" where
  "choice_of volume c =
     \<lparr> cc_selectedCarton = c, cc_voidFillVolumeCm3 = max 0 (dsub (carton_volume c) volume),
       cc_cartonUtilizationPct = toFixed 1 (dmul (ddiv volume (carton_volume c)) 100) \<rparr>"

definition selectOptimalCarton :: "rat \<Rightarrow> rat \<Rightarrow> rat \<Rightarrow> carton_choice" where
  "selectOptimalCarton volume dimension weight =
     (case sort_key carton_volume (filter (carton_fits volume dimension weight) cartons) of
        [] \<Rightarrow> choice_of volume (last cartons)
      | chosen # _ \<Rightarrow> choice_of volume chosen)"

text \<open>The smallest carton that fits is chosen. What fits none is put in the largest one all the same.\<close>

lemma carton_smallest:
  assumes "c \<in> set cartons" and "carton_fits v d w c"
  shows "carton_fits v d w (cc_selectedCarton (selectOptimalCarton v d w)) \<and>
    carton_volume (cc_selectedCarton (selectOptimalCarton v d w)) \<le> carton_volume c"
proof -
  define cs where "cs = filter (carton_fits v d w) cartons"
  have c: "c \<in> set (sort_key carton_volume cs)" using assms by (simp add: cs_def)
  then obtain a as where a: "sort_key carton_volume cs = a # as" by (cases "sort_key carton_volume cs") auto
  then have "a \<in> set cs" by (metis list.set_intros(1) set_sort)
  moreover have "carton_volume a \<le> carton_volume c"
    using sorted_sort_key [of carton_volume cs] c by (auto simp: a)
  moreover have "cc_selectedCarton (selectOptimalCarton v d w) = a"
    by (simp add: selectOptimalCarton_def cs_def [symmetric] a choice_of_def)
  ultimately show ?thesis by (simp add: cs_def)
qed

lemma carton_overflow:
  assumes "list_all (\<lambda>c. \<not> carton_fits v d w c) cartons"
  shows "cc_selectedCarton (selectOptimalCarton v d w) = last cartons"
proof -
  have "filter (carton_fits v d w) cartons = []" using assms by (simp add: list_all_iff filter_empty_conv)
  then show ?thesis by (simp add: selectOptimalCarton_def choice_of_def)
qed

section \<open>Barcodes\<close>

record IGs1ParsedBarcode =
  gs_rawBarcode :: string
  gs_gtin14 :: "string option"
  gs_serialNumber :: "string option"
  gs_lotNumber :: "string option"
  gs_expirationDate :: "string option"
  gs_ssccPalletId :: "string option"
  gs_netWeightKg :: "rat option"
  gs_isValidGs1 :: bool

definition decimal_digit :: "char \<Rightarrow> bool" where
  "decimal_digit c \<longleftrightarrow> 48 \<le> (of_char c :: nat) \<and> (of_char c :: nat) \<le> 57"

definition alphanumeric :: "char \<Rightarrow> bool" where
  "alphanumeric c \<longleftrightarrow> decimal_digit c \<or> 65 \<le> (of_char c :: nat) \<and> (of_char c :: nat) \<le> 90 \<or>
     97 \<le> (of_char c :: nat) \<and> (of_char c :: nat) \<le> 122"

text \<open>\<open>s.match(/p(c{lo,hi})/)\<close>: the leftmost occurrence of the prefix that enough characters of the class follow,
  and as many of them as the bound allows.\<close>

fun match_field :: "string \<Rightarrow> (char \<Rightarrow> bool) \<Rightarrow> nat \<Rightarrow> nat \<Rightarrow> string \<Rightarrow> string option" where
  "match_field p c lo hi s =
     (if starts_with p s \<and> lo \<le> length (takeWhile c (drop (length p) s))
      then Some (take hi (takeWhile c (drop (length p) s)))
      else case s of [] \<Rightarrow> None | _ # s' \<Rightarrow> match_field p c lo hi s')"

declare match_field.simps [simp del]

definition parseGs1DataMatrix :: "string \<Rightarrow> IGs1ParsedBarcode" where
  "parseGs1DataMatrix barcode =
     (let clean = filter (\<lambda>c. c \<noteq> CHR ''('' \<and> c \<noteq> CHR '')'') barcode;
          gtin = match_field ''01'' decimal_digit 14 14 clean;
          serial = match_field ''21'' alphanumeric 6 20 clean;
          sscc = match_field ''00'' decimal_digit 18 18 clean
      in \<lparr> gs_rawBarcode = barcode, gs_gtin14 = gtin, gs_serialNumber = serial,
           gs_lotNumber = match_field ''10'' alphanumeric 4 15 clean,
           gs_expirationDate = match_field ''17'' decimal_digit 6 6 clean, gs_ssccPalletId = sscc, gs_netWeightKg = None,
           gs_isValidGs1 = (gtin \<noteq> None \<or> sscc \<noteq> None \<or> serial \<noteq> None) \<rparr>)"

lemma match_field_head:
  assumes "list_all c v" and "length v = n" and "0 < n"
  shows "match_field p c n n (p @ v @ rest) = Some v"
proof -
  have "takeWhile c (v @ rest) = v @ takeWhile c rest" using assms(1) by (simp add: takeWhile_append2 list_all_iff)
  then show ?thesis using assms by (subst match_field.simps) (simp add: starts_with_def)
qed

text \<open>What a match returns stands in the code behind its prefix, has the right length and only its characters.\<close>

lemma match_field_sound:
  "match_field p c lo hi s = Some v \<Longrightarrow> lo \<le> hi \<Longrightarrow>
    (\<exists>a b. s = a @ p @ v @ b) \<and> lo \<le> length v \<and> length v \<le> hi \<and> list_all c v"
proof (induction s)
  case Nil
  then show ?case by (subst (asm) match_field.simps) (auto simp: starts_with_def split: if_splits)
next
  case (Cons x s)
  show ?case
  proof (cases "starts_with p (x # s) \<and> lo \<le> length (takeWhile c (drop (length p) (x # s)))")
    case True
    define w where "w = takeWhile c (drop (length p) (x # s))"
    have v: "v = take hi w" using Cons.prems True by (subst (asm) match_field.simps) (simp add: w_def)
    have w: "list_all c w" by (auto simp: list_all_iff w_def dest: set_takeWhileD)
    have "x # s = p @ drop (length p) (x # s)"
      using True unfolding starts_with_def by (metis append_take_drop_id)
    also have "\<dots> = p @ v @ (drop hi w @ dropWhile c (drop (length p) (x # s)))"
      unfolding v by (metis append_assoc append_take_drop_id takeWhile_dropWhile_id w_def)
    finally have "\<exists>a b. x # s = a @ p @ v @ b" by (metis append_Nil)
    moreover have "lo \<le> length v" "length v \<le> hi" using True Cons.prems(2) by (simp_all add: v w_def)
    moreover have "list_all c v" using w by (auto simp: v list_all_iff dest: in_set_takeD)
    ultimately show ?thesis by blast
  next
    case False
    then have "match_field p c lo hi s = Some v"
      using Cons.prems(1) by (subst (asm) match_field.simps) (simp split: if_splits)
    from Cons.IH [OF this Cons.prems(2)] show ?thesis by (metis append_Cons)
  qed
qed

text \<open>
  A code that begins with its article number is read back exactly, whatever follows; the other fields are searched
  through the whole code, the digits of the article number included.
\<close>

theorem gtin_roundtrip:
  assumes "list_all decimal_digit g" and "length g = 14"
  shows "gs_gtin14 (parseGs1DataMatrix (''(01)'' @ g @ rest)) = Some g \<and> gs_isValidGs1 (parseGs1DataMatrix (''(01)'' @ g @ rest))"
proof -
  let ?clean = "filter (\<lambda>c. c \<noteq> CHR ''('' \<and> c \<noteq> CHR '')'')"
  have "\<forall>c \<in> set g. c \<noteq> CHR ''('' \<and> c \<noteq> CHR '')''" using assms(1) by (auto simp: list_all_iff decimal_digit_def)
  then have "?clean (''(01)'' @ g @ rest) = ''01'' @ g @ ?clean rest" by (simp add: filter_id_conv)
  then show ?thesis
    using match_field_head [OF assms, of "''01''" "?clean rest"] unfolding parseGs1DataMatrix_def Let_def by simp
qed

theorem gtin_roundtrip_witness:
  "gs_gtin14 (parseGs1DataMatrix (''(01)'' @ ''00012345678905'' @ ''(21)SN123456'')) = Some ''00012345678905''"
  using gtin_roundtrip [of "''00012345678905''" "''(21)SN123456''"] by (simp add: decimal_digit_def)

lemma serial_inside_gtin:
  "gs_serialNumber (parseGs1DataMatrix ''(01)10211234567895(21)SN123456'') = Some ''123456789521SN123456''"
  by code_simp

section \<open>Inbound inspection\<close>

datatype packaging_condition = PRISTINE | MINOR_DENT | WATER_DAMAGED | CRUSHED

record IQaInspectionItem =
  qa_sku :: string
  qa_expectedUnits :: int
  qa_sampledUnits :: int
  qa_defectiveUnits :: int
  qa_packagingCondition :: packaging_condition
  qa_tiltIndicatorTripped :: bool
  qa_temperatureExcursionRecorded :: bool

record inspection_verdict =
  iv_isApproved :: bool
  iv_defectRatePct :: rat
  iv_quarantineSkuList :: "string list"

definition MAX_ALLOWED_DEFECT_RATE_PCT :: rat where "MAX_ALLOWED_DEFECT_RATE_PCT = 3 / 2"

definition defect_pct :: "int \<Rightarrow> int \<Rightarrow> rat" where
  "defect_pct sampled defective = (if 0 < sampled then dmul (ddiv (of_int defective) (of_int sampled)) 100 else 0)"

definition quarantined :: "IQaInspectionItem \<Rightarrow> bool" where
  "quarantined i \<longleftrightarrow>
     MAX_ALLOWED_DEFECT_RATE_PCT < defect_pct (qa_sampledUnits i) (qa_defectiveUnits i) \<or>
     qa_packagingCondition i = CRUSHED \<or> qa_tiltIndicatorTripped i"

definition evaluateInspection :: "IQaInspectionItem list \<Rightarrow> inspection_verdict" where
  "evaluateInspection items =
     (let totalSampled = foldl (\<lambda>n i. n + qa_sampledUnits i) 0 items;
          totalDefects = foldl (\<lambda>n i. n + qa_defectiveUnits i) 0 items;
          quarantine = map qa_sku (filter quarantined items);
          defectRatePct = (if 0 < totalSampled then toFixed 2 (defect_pct totalSampled totalDefects) else 0)
      in \<lparr> iv_isApproved = (quarantine = [] \<and> defectRatePct \<le> MAX_ALLOWED_DEFECT_RATE_PCT),
           iv_defectRatePct = defectRatePct, iv_quarantineSkuList = quarantine \<rparr>)"

text \<open>An approved delivery has no item to quarantine. Water damage, a recorded temperature excursion, missing units
  and items of which nothing was sampled do not stand in its way.\<close>

lemma approved_items:
  "iv_isApproved (evaluateInspection items) \<Longrightarrow> list_all (\<lambda>i. \<not> quarantined i) items"
  by (simp add: evaluateInspection_def Let_def filter_empty_conv list_all_iff)

lemma unsampled_approved:
  "iv_isApproved (evaluateInspection [\<lparr> qa_sku = s, qa_expectedUnits = n, qa_sampledUnits = 0, qa_defectiveUnits = d,
     qa_packagingCondition = WATER_DAMAGED, qa_tiltIndicatorTripped = False, qa_temperatureExcursionRecorded = True \<rparr>])"
  by (simp add: evaluateInspection_def quarantined_def defect_pct_def MAX_ALLOWED_DEFECT_RATE_PCT_def)

section \<open>Stock audits\<close>

record book_entry =
  be_qty :: int
  be_unitCost :: rat

record physical_count =
  pcn_sku :: string
  pcn_warehouseId :: string
  pcn_bin :: string
  pcn_count :: int

record IInventoryDiscrepancyRecord =
  id_sku :: string
  id_warehouseId :: string
  id_binLocation :: string
  id_perpetualBookQuantity :: int
  id_physicalCountedQuantity :: int
  id_varianceUnits :: int
  id_variancePct :: rat
  id_unitCostUSD :: rat
  id_financialImpactUSD :: rat
  id_requiresSupervisorSignoff :: bool

record audit_result =
  au_itemsAudited :: nat
  au_totalDiscrepancies :: nat
  au_netFinancialVarianceUSD :: rat
  au_records :: "IInventoryDiscrepancyRecord list"

definition count_record :: "(string, book_entry) jsmap \<Rightarrow> physical_count \<Rightarrow> IInventoryDiscrepancyRecord" where
  "count_record books pc =
     (let book = (case jm_get books (pcn_sku pc) of Some b \<Rightarrow> b | None \<Rightarrow> \<lparr> be_qty = 0, be_unitCost = 25 \<rparr>);
          variance = pcn_count pc - be_qty book;
          variancePct = (if 0 < be_qty book then toFixed 1 (dmul (ddiv (of_int variance) (of_int (be_qty book))) 100) else 0);
          impact = toFixed 2 (dmul (of_int variance) (be_unitCost book))
      in \<lparr> id_sku = pcn_sku pc, id_warehouseId = pcn_warehouseId pc, id_binLocation = pcn_bin pc,
           id_perpetualBookQuantity = be_qty book, id_physicalCountedQuantity = pcn_count pc,
           id_varianceUnits = variance, id_variancePct = variancePct, id_unitCostUSD = be_unitCost book,
           id_financialImpactUSD = impact,
           id_requiresSupervisorSignoff = (500 < \<bar>impact\<bar> \<or> 10 < \<bar>variancePct\<bar>) \<rparr>)"

definition reconcileAuditCounts :: "(string, book_entry) jsmap \<Rightarrow> physical_count list \<Rightarrow> audit_result" where
  "reconcileAuditCounts books counts =
     (let records = map (count_record books) counts
      in \<lparr> au_itemsAudited = length counts,
           au_totalDiscrepancies = length (filter (\<lambda>r. id_varianceUnits r \<noteq> 0) records),
           au_netFinancialVarianceUSD = toFixed 2 (foldl (\<lambda>n r. dadd n (id_financialImpactUSD r)) 0 records),
           au_records = records \<rparr>)"

text \<open>
  Counts that agree with the books leave no discrepancy, no variance and nothing to sign. An article that lies in two
  bins is compared with the whole book quantity twice, so a complete count of it reads as two shortages.
\<close>

lemma audit_clean:
  assumes "list_all (\<lambda>pc. \<exists>b. jm_get books (pcn_sku pc) = Some b \<and> be_qty b = pcn_count pc) counts"
  shows "au_totalDiscrepancies (reconcileAuditCounts books counts) = 0 \<and>
    au_netFinancialVarianceUSD (reconcileAuditCounts books counts) = 0 \<and>
    list_all (\<lambda>r. \<not> id_requiresSupervisorSignoff r) (au_records (reconcileAuditCounts books counts))"
proof -
  have zero: "toFixed d 0 = 0" for d using Math_round_int [of 0] by (simp add: toFixed_def)
  have r: "id_varianceUnits (count_record books pc) = 0 \<and> id_financialImpactUSD (count_record books pc) = 0 \<and>
      \<not> id_requiresSupervisorSignoff (count_record books pc)" if "pc \<in> set counts" for pc
    using assms that by (auto simp: list_all_iff count_record_def Let_def dmul_def ddiv_def zero)
  have "foldl (\<lambda>n r. dadd n (id_financialImpactUSD r)) 0 (map (count_record books) counts) = 0"
    using r by (induction counts) (auto simp: dadd_def)
  with r show ?thesis by (simp add: reconcileAuditCounts_def Let_def zero filter_empty_conv list_all_iff)
qed

lemma split_bins_misread:
  assumes "jm_get books s = Some b" and "be_qty b = m + n" and "m \<noteq> 0" and "n \<noteq> 0"
  shows "au_totalDiscrepancies (reconcileAuditCounts books
    [\<lparr> pcn_sku = s, pcn_warehouseId = w, pcn_bin = b1, pcn_count = m \<rparr>,
     \<lparr> pcn_sku = s, pcn_warehouseId = w, pcn_bin = b2, pcn_count = n \<rparr>]) = 2"
  using assms by (simp add: reconcileAuditCounts_def count_record_def Let_def)

section \<open>Transfers between warehouses\<close>

datatype transfer_status = DRAFT | PICKED | IN_TRANSIT | RECEIVED | DISCREPANCY

record transfer_item =
  ti_sku :: string
  ti_transferQuantity :: int

record ITransferManifest =
  tm_transferId :: string
  tm_originWarehouseId :: string
  tm_destinationWarehouseId :: string
  tm_items :: "transfer_item list"
  tm_status :: transfer_status
  tm_createdDate :: instant
  tm_shippedDate :: "instant option"
  tm_receivedDate :: "instant option"

type_synonym transfers = "(string, ITransferManifest) jsmap"

definition createTransfer :: "instant \<Rightarrow> string \<Rightarrow> string \<Rightarrow> transfer_item list \<Rightarrow> transfers \<Rightarrow> transfers \<times> ITransferManifest" where
  "createTransfer now origin destination items m =
     (let transferId = ''TRF-'' @ to_upper (base_string 36 (nat now));
          manifest = \<lparr> tm_transferId = transferId, tm_originWarehouseId = origin, tm_destinationWarehouseId = destination,
                       tm_items = items, tm_status = DRAFT, tm_createdDate = now, tm_shippedDate = None, tm_receivedDate = None \<rparr>
      in (jm_set transferId manifest m, manifest))"

definition markInTransit :: "instant \<Rightarrow> string \<Rightarrow> transfers \<Rightarrow> transfers \<times> (string + ITransferManifest)" where
  "markInTransit now transferId m =
     (case jm_get m transferId of
        None \<Rightarrow> (m, Inl ''Transfer not found'')
      | Some t \<Rightarrow> let t = t\<lparr> tm_status := IN_TRANSIT, tm_shippedDate := Some now \<rparr> in (jm_set transferId t m, Inr t))"

definition completeTransfer :: "instant \<Rightarrow> string \<Rightarrow> transfers \<Rightarrow> transfers \<times> (string + ITransferManifest)" where
  "completeTransfer now transferId m =
     (case jm_get m transferId of
        None \<Rightarrow> (m, Inl ''Transfer not found'')
      | Some t \<Rightarrow> let t = t\<lparr> tm_status := RECEIVED, tm_receivedDate := Some now \<rparr> in (jm_set transferId t m, Inr t))"

text \<open>
  A shipped transfer carries its date of shipment and a received one its date of receipt; but nothing else orders the
  steps: a draft is received without having been shipped, and a received transfer goes in transit again. The stock of
  the two warehouses is never touched.
\<close>

definition dated :: "ITransferManifest \<Rightarrow> bool" where
  "dated t \<longleftrightarrow> tm_status t \<in> {DRAFT, IN_TRANSIT, RECEIVED} \<and> (tm_status t = IN_TRANSIT \<longrightarrow> tm_shippedDate t \<noteq> None) \<and>
     (tm_status t = RECEIVED \<longrightarrow> tm_receivedDate t \<noteq> None)"

datatype transfer_call =
  CreateTransfer string string "transfer_item list"
| MarkInTransit string
| CompleteTransfer string

fun transfer_step :: "instant \<times> transfer_call \<Rightarrow> transfers \<Rightarrow> transfers" where
  "transfer_step (now, CreateTransfer origin dest items) m = fst (createTransfer now origin dest items m)"
| "transfer_step (now, MarkInTransit i) m = fst (markInTransit now i m)"
| "transfer_step (now, CompleteTransfer i) m = fst (completeTransfer now i m)"

definition transfers_inv :: "transfers \<Rightarrow> bool" where
  "transfers_inv m \<longleftrightarrow> (\<forall>i t. jm_get m i = Some t \<longrightarrow> dated t)"

interpretation transfer_machine: invariant_machine transfer_step transfers_inv
proof unfold_locales
  fix m e
  assume "transfers_inv m"
  then show "transfers_inv (transfer_step e m)"
    by (cases "(e, m)" rule: transfer_step.cases)
      (auto simp: transfers_inv_def createTransfer_def markInTransit_def completeTransfer_def dated_def Let_def split: option.splits)
qed

lemma transfers_dated: "jm_get (fold transfer_step cs []) i = Some t \<Longrightarrow> dated t"
  using transfer_machine.run_keeps [of "[]" cs] by (simp add: transfers_inv_def)

lemma transfer_unguarded:
  assumes "jm_get m i = Some t"
  shows "jm_get (fst (markInTransit n2 i (fst (completeTransfer n1 i m)))) i =
    Some (t\<lparr> tm_status := IN_TRANSIT, tm_shippedDate := Some n2, tm_receivedDate := Some n1 \<rparr>)"
  using assms by (simp add: markInTransit_def completeTransfer_def Let_def)

section \<open>Conveyors and gas sensors\<close>

record IConveyorTelemetryReading =
  cv_conveyorLineId :: string
  cv_motorVibrationRmsMmS :: rat
  cv_motorTemperatureCelsius :: rat
  cv_beltTensionNewtons :: rat
  cv_packageTroughputPerMinute :: rat
  cv_timestamp :: instant

datatype conveyor_risk = NOMINAL | ELEVATED | IMMINENT_FAILURE

record conveyor_health =
  ch_healthIndexPct :: int
  ch_riskLevel :: conveyor_risk
  ch_alertReasons :: "string list"

text \<open>The degree sign of the message is left out: strings are ASCII here.\<close>

definition conveyor_alerts :: "IConveyorTelemetryReading \<Rightarrow> (int \<times> string) list" where
  "conveyor_alerts r =
     (if fl (71 / 10) < cv_motorVibrationRmsMmS r then [(50, ''Severe motor bearing vibration anomaly: RMS > 7.1 mm/s'')]
      else if 9 / 2 < cv_motorVibrationRmsMmS r then [(25, ''Elevated motor vibration: RMS > 4.5 mm/s'')] else []) @
     (if 85 < cv_motorTemperatureCelsius r then [(35, ''Motor stator thermal overload: Temp > 85 C'')] else []) @
     (if cv_beltTensionNewtons r < 1200 then [(20, ''Conveyor drive belt slippage risk: Tension < 1200 N'')] else [])"

definition analyzeHealth :: "IConveyorTelemetryReading \<Rightarrow> conveyor_health" where
  "analyzeHealth r =
     (let score = foldl (\<lambda>s a. s - fst a) 100 (conveyor_alerts r); healthIndexPct = max 0 score
      in \<lparr> ch_healthIndexPct = healthIndexPct,
           ch_riskLevel = (if healthIndexPct < 40 then IMMINENT_FAILURE else if healthIndexPct < 75 then ELEVATED else NOMINAL),
           ch_alertReasons = map snd (conveyor_alerts r) \<rparr>)"

text \<open>No single reading is an imminent failure: severe vibration alone leaves an index of fifty. A slipping belt or
  elevated vibration alone is nominal, though an alert.\<close>

lemma failure_needs_two:
  "ch_riskLevel (analyzeHealth r) = IMMINENT_FAILURE \<longleftrightarrow>
    fl (71 / 10) < cv_motorVibrationRmsMmS r \<and> (85 < cv_motorTemperatureCelsius r \<or> cv_beltTensionNewtons r < 1200) \<or>
    \<not> fl (71 / 10) < cv_motorVibrationRmsMmS r \<and> 9 / 2 < cv_motorVibrationRmsMmS r \<and>
      85 < cv_motorTemperatureCelsius r \<and> cv_beltTensionNewtons r < 1200"
  by (simp add: analyzeHealth_def conveyor_alerts_def Let_def)

datatype gas = AMMONIA | CARBON_MONOXIDE | CHLORINE | REFRIGERANT_R404A
datatype gas_risk = SAFE | GAS_WARNING | EVACUATION_REQUIRED

record IGasSensorReading =
  ga_sensorId :: string
  ga_warehouseId :: string
  ga_bayNumber :: nat
  ga_gasType :: gas
  ga_concentrationPpm :: rat
  ga_ambientTemperatureCelsius :: rat
  ga_ventilationAirflowCfm :: rat
  ga_recordedAt :: instant

primrec ppmThresholds :: "gas \<Rightarrow> rat \<times> rat" where
  "ppmThresholds AMMONIA = (25, 50)"
| "ppmThresholds CARBON_MONOXIDE = (35, 100)"
| "ppmThresholds CHLORINE = (1 / 2, 3)"
| "ppmThresholds REFRIGERANT_R404A = (500, 1000)"

definition evaluateAtmosphericRisk :: "IGasSensorReading \<Rightarrow> gas_risk \<times> string list" where
  "evaluateAtmosphericRisk r =
     (let limits = ppmThresholds (ga_gasType r)
      in if snd limits \<le> ga_concentrationPpm r
         then (EVACUATION_REQUIRED, [''ACTIVATE_EMERGENCY_SIRENS'', ''SEAL_BAY_FIRE_SHUTTERS'',
                 ''MAX_EXHAUST_VENTILATION_BOOST'', ''ALERT_MUNICIPAL_HAZMAT_DISPATCH''])
         else if fst limits \<le> ga_concentrationPpm r
         then (GAS_WARNING, [''INCREASE_BAY_VENTILATION_50_PCT'', ''DISPATCH_FACILITY_SAFETY_OFFICER''])
         else (SAFE, [''LOG_TELEMETRY'']))"

primrec gas_level :: "gas_risk \<Rightarrow> nat" where
  "gas_level SAFE = 0"
| "gas_level GAS_WARNING = 1"
| "gas_level EVACUATION_REQUIRED = 2"

text \<open>More gas is never rated safer, for each gas.\<close>

lemma gas_monotone:
  assumes "ga_concentrationPpm r \<le> p"
  shows "gas_level (fst (evaluateAtmosphericRisk r)) \<le> gas_level (fst (evaluateAtmosphericRisk (r\<lparr> ga_concentrationPpm := p \<rparr>)))"
  using assms by (simp add: evaluateAtmosphericRisk_def Let_def)

end
