(* ===== verification/Market_Basket.thy ===== *)
theory Market_Basket
  imports Prelude Double "HOL-Library.Char_ord" "HOL-Library.List_Lexorder"
begin

text \<open>
  Association rules between articles of the same orders, in the analytics service
  (clustering/WarehouseSkuAffinityMarketBasketAnalyzer.ts): the counts of single articles and of pairs, and the rules
  whose support and confidence reach the thresholds. \<open>sort()\<close> on two strings compares their character codes.
\<close>

record IOrderBasket =
  ob_orderId :: string
  ob_skuList :: "string list"

record ISkuAssociationRule =
  ar_antecedentSku :: string
  ar_consequentSku :: string
  ar_supportPct :: rat
  ar_confidencePct :: rat
  ar_liftRatio :: rat

text \<open>\<open>Array.from(new Set(xs))\<close> keeps the first occurrences in their order.\<close>

definition unique_skus :: "string list \<Rightarrow> string list" where
  "unique_skus xs = rev (remdups (rev xs))"

definition bump :: "string \<Rightarrow> (string, nat) jsmap \<Rightarrow> (string, nat) jsmap" where
  "bump k m = jm_set k ((case jm_get m k of Some n \<Rightarrow> n | None \<Rightarrow> 0) + 1) m"

definition pair_key :: "string \<Rightarrow> string \<Rightarrow> string" where
  "pair_key a b = min a b @ ''::'' @ max a b"

text \<open>The two nested loops over \<open>i < j\<close>.\<close>

fun pair_keys :: "string list \<Rightarrow> string list" where
  "pair_keys [] = []"
| "pair_keys (x # xs) = map (pair_key x) xs @ pair_keys xs"

definition singleItemCounts :: "IOrderBasket list \<Rightarrow> (string, nat) jsmap" where
  "singleItemCounts baskets = fold (\<lambda>b. fold bump (unique_skus (ob_skuList b))) baskets []"

definition pairCounts :: "IOrderBasket list \<Rightarrow> (string, nat) jsmap" where
  "pairCounts baskets = fold (\<lambda>b. fold bump (pair_keys (unique_skus (ob_skuList b)))) baskets []"

text \<open>\<open>key.split('::')\<close>, of which the first two parts are read.\<close>

fun split_pair :: "string \<Rightarrow> string list" where
  "split_pair [] = [[]]"
| "split_pair [x] = [[x]]"
| "split_pair (x # y # s) =
     (if x = CHR '':'' \<and> y = CHR '':'' then [] # split_pair s
      else case split_pair (y # s) of [] \<Rightarrow> [[x]] | p # ps \<Rightarrow> (x # p) # ps)"

definition count_of :: "(string, nat) jsmap \<Rightarrow> string \<Rightarrow> nat" where
  "count_of m s = (case jm_get m s of Some n \<Rightarrow> if n = 0 then 1 else n | None \<Rightarrow> 1)"

definition rule_of :: "IOrderBasket list \<Rightarrow> rat \<Rightarrow> rat \<Rightarrow> string \<times> nat \<Rightarrow> ISkuAssociationRule list" where
  "rule_of baskets minSupportPct minConfidencePct kc =
     (let skuA = split_pair (fst kc) ! 0; skuB = split_pair (fst kc) ! 1; n = of_nat (snd kc);
          t = of_nat (length baskets);
          support = dmul (ddiv n t) 100;
          countA = of_nat (count_of (singleItemCounts baskets) skuA);
          countB = of_nat (count_of (singleItemCounts baskets) skuB);
          confAtoB = dmul (ddiv n countA) 100
      in if minSupportPct \<le> support \<and> minConfidencePct \<le> confAtoB
         then [\<lparr> ar_antecedentSku = skuA, ar_consequentSku = skuB, ar_supportPct = toFixed 2 support,
                 ar_confidencePct = toFixed 2 confAtoB,
                 ar_liftRatio = toFixed 2 (ddiv confAtoB (dmul (ddiv countB t) 100)) \<rparr>]
         else [])"

definition mineAssociationRules :: "IOrderBasket list \<Rightarrow> rat \<Rightarrow> rat \<Rightarrow> ISkuAssociationRule list" where
  "mineAssociationRules baskets minSupportPct minConfidencePct =
     (if baskets = [] then []
      else sort_key (\<lambda>r. - ar_liftRatio r)
             (concat (map (rule_of baskets minSupportPct minConfidencePct) (pairCounts baskets))))"

section \<open>Counting\<close>

lemma unique_skus_simps [simp]: "set (unique_skus xs) = set xs" "distinct (unique_skus xs)"
  by (simp_all add: unique_skus_def)

lemma bump_get: "jm_get (fold bump ks m) k =
    (if k \<in> set ks then Some ((case jm_get m k of Some n \<Rightarrow> n | None \<Rightarrow> 0) + count_list ks k) else jm_get m k)"
  by (induction ks arbitrary: m) (auto simp: bump_def count_list_0_iff split: option.splits)

lemma bump_ok: "jm_ok m \<Longrightarrow> jm_ok (fold bump ks m)"
  by (induction ks arbitrary: m) (simp_all add: bump_def)

lemma counts_get:
  "jm_get (fold (\<lambda>b. fold bump (f b)) bs m) k =
    (if \<exists>b \<in> set bs. k \<in> set (f b) then Some ((case jm_get m k of Some n \<Rightarrow> n | None \<Rightarrow> 0) + (\<Sum>b \<leftarrow> bs. count_list (f b) k))
     else jm_get m k)"
proof (induction bs arbitrary: m)
  case (Cons b bs)
  have none: "(\<Sum>b \<leftarrow> bs. count_list (f b) k) = 0" if "\<not> (\<exists>b \<in> set bs. k \<in> set (f b))"
    using that by (induction bs) (auto simp: count_list_0_iff)
  show ?case
  proof (cases "\<exists>b \<in> set bs. k \<in> set (f b)")
    case True
    then show ?thesis by (auto simp: Cons.IH bump_get count_list_0_iff)
  next
    case False
    then show ?thesis using none by (simp add: Cons.IH bump_get)
  qed
qed simp

lemma counts_ok: "jm_ok m \<Longrightarrow> jm_ok (fold (\<lambda>b. fold bump (f b)) bs m)"
  by (induction bs arbitrary: m) (simp_all add: bump_ok)

text \<open>Articles without a colon: the key of a pair determines it up to the order, and is split back into it.\<close>

definition plain :: "string \<Rightarrow> bool" where
  "plain s \<longleftrightarrow> CHR '':'' \<notin> set s"

lemma plain_simps [simp]: "plain []" "plain (x # s) \<longleftrightarrow> x \<noteq> CHR '':'' \<and> plain s"
  by (auto simp: plain_def)

lemma plain_prefix: "plain a \<Longrightarrow> plain c \<Longrightarrow> a @ ''::'' @ b = c @ ''::'' @ d \<Longrightarrow> a = c \<and> b = d"
proof -
  assume p: "plain a" "plain c" and e: "a @ ''::'' @ b = c @ ''::'' @ d"
  have t: "takeWhile (\<lambda>x. x \<noteq> CHR '':'') (u @ ''::'' @ v) = u" if "plain u" for u v
    using that by (subst takeWhile_append2) (auto simp: plain_def)
  from t [OF p(1), of b] t [OF p(2), of d] e have "a = c" by simp
  with e show ?thesis by simp
qed

lemma plain_min_max: "plain a \<Longrightarrow> plain b \<Longrightarrow> plain (min a b) \<and> plain (max a b)"
  by (simp add: min_def max_def)

lemma pair_key_commute: "pair_key a b = pair_key b a"
  by (simp add: pair_key_def min.commute max.commute)

lemma pair_key_inject:
  assumes "plain a" "plain b" "plain c" "plain d"
  shows "pair_key a b = pair_key c d \<longleftrightarrow> {a, b} = {c, d}"
proof
  assume "pair_key a b = pair_key c d"
  then have "min a b = min c d \<and> max a b = max c d"
    unfolding pair_key_def by (rule plain_prefix [rotated 2]) (simp_all add: assms plain_min_max)
  then show "{a, b} = {c, d}" by (auto simp: min_def max_def split: if_splits)
next
  assume "{a, b} = {c, d}"
  then show "pair_key a b = pair_key c d" by (auto simp: doubleton_eq_iff pair_key_commute)
qed

lemma split_plain: "plain s \<Longrightarrow> split_pair s = [s]"
  by (induction s rule: split_pair.induct) auto

lemma split_joined: "plain a \<Longrightarrow> split_pair (a @ ''::'' @ s) = a # split_pair s"
proof (induction a)
  case (Cons x a)
  then have x: "x \<noteq> CHR '':''" "plain a" by simp_all
  obtain y ys where y: "a @ ''::'' @ s = y # ys" by (cases a) auto
  then show ?case using Cons.IH [OF x(2)] x(1) by simp
qed simp

lemma split_pair_key:
  assumes "plain a" and "plain b"
  shows "split_pair (pair_key a b) = [min a b, max a b]"
  using plain_min_max [OF assms] by (simp only: pair_key_def split_joined split_plain)

lemma count_pair_keys:
  assumes "distinct us" and "list_all plain us" and "plain a" and "plain b" and "a \<noteq> b"
  shows "count_list (pair_keys us) (pair_key a b) = (if a \<in> set us \<and> b \<in> set us then 1 else 0)"
  using assms(1,2)
proof (induction us)
  case (Cons u us)
  have c: "count_list (map (pair_key u) vs) (pair_key a b) = count_list vs b" if "u = a" "list_all plain vs" "u \<notin> set vs" for vs
    using that assms by (induction vs) (auto simp: pair_key_inject doubleton_eq_iff list_all_iff)
  have d: "count_list (map (pair_key u) vs) (pair_key a b) = count_list vs a" if "u = b" "list_all plain vs" "u \<notin> set vs" for vs
    using that assms by (induction vs) (auto simp: pair_key_inject doubleton_eq_iff list_all_iff)
  have e: "count_list (map (pair_key u) vs) (pair_key a b) = 0" if "u \<noteq> a" "u \<noteq> b" "list_all plain vs" "plain u" for vs
    using that assms by (induction vs) (auto simp: pair_key_inject doubleton_eq_iff list_all_iff)
  have one: "count_list vs x = (if x \<in> set vs then 1 else 0)" if "distinct vs" for vs and x :: string
    using that by (induction vs) auto
  have us: "list_all plain us" "u \<notin> set us" "plain u" "distinct us" using Cons.prems by simp_all
  note IH = Cons.IH [OF us(4,1)]
  consider "u = a" | "u = b" | "u \<noteq> a" "u \<noteq> b" by blast
  then show ?case
  proof cases
    case 1
    then show ?thesis using c [OF _ us(1,2)] IH us(2) assms(5) one [OF us(4)] by simp
  next
    case 2
    then show ?thesis using d [OF _ us(1,2)] IH us(2) assms(5) one [OF us(4)] by simp
  next
    case 3
    then show ?thesis using e [OF _ _ us(1,3)] IH by simp
  qed
qed simp

definition baskets_with :: "string list \<Rightarrow> IOrderBasket list \<Rightarrow> nat" where
  "baskets_with skus baskets = length (filter (\<lambda>b. set skus \<subseteq> set (ob_skuList b)) baskets)"

lemma single_count:
  "jm_get (singleItemCounts baskets) s = (if 0 < baskets_with [s] baskets then Some (baskets_with [s] baskets) else None)"
proof -
  have one: "count_list vs x = (if x \<in> set vs then 1 else 0)" if "distinct vs" for vs and x :: string
    using that by (induction vs) auto
  have s: "(\<Sum>b \<leftarrow> bs. count_list (unique_skus (ob_skuList b)) s) = baskets_with [s] bs" for bs
    by (induction bs) (simp_all add: one baskets_with_def)
  have "(\<exists>b \<in> set baskets. s \<in> set (ob_skuList b)) \<longleftrightarrow> 0 < baskets_with [s] baskets"
    by (auto simp: baskets_with_def filter_empty_conv)
  then show ?thesis unfolding singleItemCounts_def counts_get by (simp add: s)
qed

lemma pair_count:
  assumes "list_all (\<lambda>b. list_all plain (ob_skuList b)) baskets" and "plain a" "plain b" "a \<noteq> b"
  shows "jm_get (pairCounts baskets) (pair_key a b) =
    (if 0 < baskets_with [a, b] baskets then Some (baskets_with [a, b] baskets) else None)"
proof -
  have c: "count_list (pair_keys (unique_skus (ob_skuList k))) (pair_key a b) =
      (if {a, b} \<subseteq> set (ob_skuList k) then 1 else 0)" if "k \<in> set baskets" for k
    using count_pair_keys [of "unique_skus (ob_skuList k)" a b] that assms by (simp add: list_all_iff)
  have "(\<Sum>k \<leftarrow> bs. count_list (pair_keys (unique_skus (ob_skuList k))) (pair_key a b)) = baskets_with [a, b] bs"
    if "set bs \<subseteq> set baskets" for bs
    using that c by (induction bs) (simp_all add: baskets_with_def)
  moreover have "(\<exists>k \<in> set baskets. pair_key a b \<in> set (pair_keys (unique_skus (ob_skuList k)))) \<longleftrightarrow> 0 < baskets_with [a, b] baskets"
  proof -
    have "pair_key a b \<in> set (pair_keys (unique_skus (ob_skuList k))) \<longleftrightarrow> {a, b} \<subseteq> set (ob_skuList k)"
      if "k \<in> set baskets" for k
      using c [OF that] count_list_0_iff [of "pair_keys (unique_skus (ob_skuList k))" "pair_key a b"] by (auto split: if_splits)
    then show ?thesis by (auto simp: baskets_with_def filter_empty_conv)
  qed
  ultimately show ?thesis unfolding pairCounts_def counts_get by simp
qed

section \<open>The rules\<close>

text \<open>The specification: support, confidence and lift of a pair, from the baskets themselves.\<close>

definition pair_support :: "IOrderBasket list \<Rightarrow> string \<Rightarrow> string \<Rightarrow> rat" where
  "pair_support bs a b = dmul (ddiv (of_nat (baskets_with [a, b] bs)) (of_nat (length bs))) 100"

definition pair_confidence :: "IOrderBasket list \<Rightarrow> string \<Rightarrow> string \<Rightarrow> rat" where
  "pair_confidence bs a b = dmul (ddiv (of_nat (baskets_with [a, b] bs)) (of_nat (baskets_with [a] bs))) 100"

definition pair_rule :: "IOrderBasket list \<Rightarrow> string \<Rightarrow> string \<Rightarrow> ISkuAssociationRule" where
  "pair_rule bs a b =
     \<lparr> ar_antecedentSku = a, ar_consequentSku = b, ar_supportPct = toFixed 2 (pair_support bs a b),
       ar_confidencePct = toFixed 2 (pair_confidence bs a b),
       ar_liftRatio = toFixed 2 (ddiv (pair_confidence bs a b) (dmul (ddiv (of_nat (baskets_with [b] bs)) (of_nat (length bs))) 100)) \<rparr>"

lemma baskets_with_mono: "set xs \<subseteq> set ys \<Longrightarrow> baskets_with ys bs \<le> baskets_with xs bs"
  by (induction bs) (auto simp: baskets_with_def)

lemma pair_keys_of: "distinct us \<Longrightarrow> k \<in> set (pair_keys us) \<Longrightarrow> \<exists>a b. a \<in> set us \<and> b \<in> set us \<and> a < b \<and> k = pair_key a b"
proof (induction us)
  case (Cons u us)
  show ?case
  proof (cases "k \<in> set (pair_keys us)")
    case True
    with Cons.IH Cons.prems(1) obtain a b where "a \<in> set us" "b \<in> set us" "a < b" "k = pair_key a b" by auto
    then show ?thesis by (intro exI [of _ a] exI [of _ b]) simp
  next
    case False
    with Cons.prems obtain v where v: "v \<in> set us" "k = pair_key u v" by auto
    with Cons.prems have "u < v \<or> v < u" by (metis distinct.simps(2) neq_iff)
    then show ?thesis
    proof
      assume "u < v"
      with v show ?thesis by (intro exI [of _ u] exI [of _ v]) simp
    next
      assume "v < u"
      with v pair_key_commute [of u v] show ?thesis by (intro exI [of _ v] exI [of _ u]) simp
    qed
  qed
qed simp

lemma pairCounts_entries:
  assumes "list_all (\<lambda>b. list_all plain (ob_skuList b)) baskets"
  shows "set (pairCounts baskets) =
    {(pair_key a b, baskets_with [a, b] baskets) | a b. plain a \<and> plain b \<and> a < b \<and> 0 < baskets_with [a, b] baskets}"
proof (rule set_eqI)
  fix kc :: "string \<times> nat"
  obtain k n where kc: "kc = (k, n)" by fastforce
  have ok: "jm_ok (pairCounts baskets)" unfolding pairCounts_def by (rule counts_ok) simp
  then have mem: "kc \<in> set (pairCounts baskets) \<longleftrightarrow> jm_get (pairCounts baskets) k = Some n" by (simp add: kc)
  show "kc \<in> set (pairCounts baskets) \<longleftrightarrow>
      kc \<in> {(pair_key a b, baskets_with [a, b] baskets) | a b. plain a \<and> plain b \<and> a < b \<and> 0 < baskets_with [a, b] baskets}"
  proof
    assume "kc \<in> set (pairCounts baskets)"
    then have g: "jm_get (pairCounts baskets) k = Some n" by (simp add: mem)
    then obtain o1 where o1: "o1 \<in> set baskets" "k \<in> set (pair_keys (unique_skus (ob_skuList o1)))"
      unfolding pairCounts_def counts_get by (auto split: if_splits)
    from pair_keys_of [OF _ this(2)] obtain a b where ab: "a \<in> set (ob_skuList o1)" "b \<in> set (ob_skuList o1)" "a < b" "k = pair_key a b"
      by auto
    with o1(1) assms have p: "plain a" "plain b" by (auto simp: list_all_iff)
    with g ab pair_count [OF assms p] show "kc \<in> {(pair_key a b, baskets_with [a, b] baskets) | a b.
        plain a \<and> plain b \<and> a < b \<and> 0 < baskets_with [a, b] baskets}"
      by (auto simp: kc split: if_splits)
  next
    assume "kc \<in> {(pair_key a b, baskets_with [a, b] baskets) | a b. plain a \<and> plain b \<and> a < b \<and> 0 < baskets_with [a, b] baskets}"
    then obtain a b where ab: "k = pair_key a b" "n = baskets_with [a, b] baskets" "plain a" "plain b" "a < b" "0 < baskets_with [a, b] baskets"
      by (auto simp: kc)
    then have "jm_get (pairCounts baskets) k = Some n" using pair_count [OF assms ab(3,4)] by simp
    then show "kc \<in> set (pairCounts baskets)" by (simp only: mem)
  qed
qed

lemma rule_of_pair:
  assumes "plain a" "plain b" "a < b" "0 < baskets_with [a, b] bs"
  shows "rule_of bs ms mc (pair_key a b, baskets_with [a, b] bs) =
    (if ms \<le> pair_support bs a b \<and> mc \<le> pair_confidence bs a b then [pair_rule bs a b] else [])"
proof -
  have "split_pair (pair_key a b) = [a, b]" using split_pair_key [OF assms(1,2)] assms(3) by (simp add: min_absorb1 max_absorb2 less_imp_le)
  moreover have "0 < baskets_with [a] bs" "0 < baskets_with [b] bs"
    using assms(4) baskets_with_mono [of "[a]" "[a, b]" bs] baskets_with_mono [of "[b]" "[a, b]" bs] by simp_all
  then have "count_of (singleItemCounts bs) a = baskets_with [a] bs" "count_of (singleItemCounts bs) b = baskets_with [b] bs"
    by (simp_all add: count_of_def single_count)
  ultimately show ?thesis
    by (simp add: rule_of_def Let_def pair_rule_def pair_support_def pair_confidence_def)
qed

text \<open>C33: 
  For baskets whose articles contain no colon the rules are exactly the pairs, the smaller article first, that are bought
  together, with support and confidence at the thresholds, by falling lift. The rule in the other direction is never considered.
  The code asks for no such articles: with a colon in an article the key of a pair is split in the wrong place (lemma
  \<open>colon_pairs_misread\<close>).
\<close>

theorem association_rules_exact:
  assumes "list_all (\<lambda>b. list_all plain (ob_skuList b)) baskets" and "baskets \<noteq> []"
  shows "set (mineAssociationRules baskets ms mc) =
      {pair_rule baskets a b | a b. plain a \<and> plain b \<and> a < b \<and> 0 < baskets_with [a, b] baskets \<and>
         ms \<le> pair_support baskets a b \<and> mc \<le> pair_confidence baskets a b} \<and>
    sorted (map (\<lambda>r. - ar_liftRatio r) (mineAssociationRules baskets ms mc))"
proof -
  have "set (mineAssociationRules baskets ms mc) = (\<Union>kc \<in> set (pairCounts baskets). set (rule_of baskets ms mc kc))"
    using assms(2) by (simp add: mineAssociationRules_def)
  also have "\<dots> = {pair_rule baskets a b | a b. plain a \<and> plain b \<and> a < b \<and> 0 < baskets_with [a, b] baskets \<and>
         ms \<le> pair_support baskets a b \<and> mc \<le> pair_confidence baskets a b}" (is "?l = ?r")
  proof (intro subset_antisym subsetI)
    fix r assume "r \<in> ?l"
    then obtain a b where "plain a" "plain b" "a < b" "0 < baskets_with [a, b] baskets"
      "r \<in> set (rule_of baskets ms mc (pair_key a b, baskets_with [a, b] baskets))"
      unfolding pairCounts_entries [OF assms(1)] by blast
    then show "r \<in> ?r" by (auto simp: rule_of_pair split: if_splits)
  next
    fix r assume "r \<in> ?r"
    then obtain a b where ab: "r = pair_rule baskets a b" "plain a" "plain b" "a < b" "0 < baskets_with [a, b] baskets"
      "ms \<le> pair_support baskets a b" "mc \<le> pair_confidence baskets a b" by blast
    then have "r \<in> set (rule_of baskets ms mc (pair_key a b, baskets_with [a, b] baskets))" by (simp add: rule_of_pair)
    with ab show "r \<in> ?l" unfolding pairCounts_entries [OF assms(1)] by blast
  qed
  finally show ?thesis using assms(2) by (simp add: mineAssociationRules_def)
qed

theorem association_rules_exact_witness:
  "map ar_antecedentSku (mineAssociationRules [\<lparr> ob_orderId = ''o1'', ob_skuList = [''B'', ''A'', ''B''] \<rparr>] 2 30) = [''A''] \<and>
   set (mineAssociationRules [\<lparr> ob_orderId = ''o1'', ob_skuList = [''B'', ''A'', ''B''] \<rparr>] 2 30) =
     {pair_rule [\<lparr> ob_orderId = ''o1'', ob_skuList = [''B'', ''A'', ''B''] \<rparr>] a b | a b.
       plain a \<and> plain b \<and> a < b \<and> 0 < baskets_with [a, b] [\<lparr> ob_orderId = ''o1'', ob_skuList = [''B'', ''A'', ''B''] \<rparr>] \<and>
       2 \<le> pair_support [\<lparr> ob_orderId = ''o1'', ob_skuList = [''B'', ''A'', ''B''] \<rparr>] a b \<and>
       30 \<le> pair_confidence [\<lparr> ob_orderId = ''o1'', ob_skuList = [''B'', ''A'', ''B''] \<rparr>] a b}"
proof (intro conjI)
  show "map ar_antecedentSku (mineAssociationRules [\<lparr> ob_orderId = ''o1'', ob_skuList = [''B'', ''A'', ''B''] \<rparr>] 2 30) = [''A'']"
    by code_simp
qed (rule conjunct1 [OF association_rules_exact]; simp)

text \<open>A basket of \<open>A::B\<close> and \<open>C\<close> gives a rule between \<open>A\<close> and \<open>B\<close>, which nobody bought.\<close>

lemma colon_pairs_misread:
  "map (\<lambda>r. (ar_antecedentSku r, ar_consequentSku r)) (mineAssociationRules [\<lparr> ob_orderId = ''o1'', ob_skuList = [''A::B'', ''C''] \<rparr>] 2 30) =
     [(''A'', ''B'')]"
  by code_simp

end
