(* ===== verification/Analytics_Reports.thy ===== *)
theory Analytics_Reports
  imports Prelude Double
begin

text \<open>
  The reports of the analytics service: the fact cube (olap/MultiDimensionalCubeAggregationEngine.ts), breach risk
  (sla/SlaBreachPredictiveModel.ts), posterior probabilities (prediction/DemandSpikeBayesianForecaster.ts), carrier
  scores (benchmark/CarrierPerformanceBenchmarkingEngine.ts), retention
  (cohort/CustomerRetentionCohortAnalyzer.ts), the executive overview
  (reporting/ExecutiveDashboardMetricCompiler.ts), platform totals (kpi/MultiTenantSupplyChainKpiRollupEngine.ts),
  demand forecasts (forecasting/HoltWintersExponentialSmoothingModel.ts,
  forecast/DeepAutoregressiveDemandForecastingEngine.ts), cancellation anomalies
  (anomaly/FulfillmentAnomalyDetectionEngine.ts) and fuel economy (sustainability/FleetCarbonIntensityIndexModel.ts).
  \<open>Math.sqrt\<close> and \<open>Math.pow\<close>, which ECMAScript leaves to the implementation, are parameters.
\<close>

section \<open>The fact cube\<close>

record IFactRecord =
  fc_tenantId :: string
  fc_warehouseId :: string
  fc_carrierId :: string
  fc_productCategoryId :: string
  fc_orderYear :: int
  fc_orderMonth :: int
  fc_orderDay :: int
  fc_orderVolumeCount :: int
  fc_revenueUSD :: rat
  fc_fulfillmentCostUSD :: rat
  fc_deliveryDelayMinutes :: int

definition ingestFact :: "IFactRecord \<Rightarrow> IFactRecord list \<Rightarrow> IFactRecord list" where
  "ingestFact f facts = facts @ [f]"

record month_slice =
  ms_totalOrders :: int
  ms_totalRevenue :: rat
  ms_avgDelayMinutes :: rat

definition month_facts :: "string \<Rightarrow> int \<Rightarrow> int \<Rightarrow> IFactRecord list \<Rightarrow> IFactRecord list" where
  "month_facts tenantId year month facts =
     filter (\<lambda>f. fc_tenantId f = tenantId \<and> fc_orderYear f = year \<and> fc_orderMonth f = month) facts"

definition sliceByTenantAndMonth :: "string \<Rightarrow> int \<Rightarrow> int \<Rightarrow> IFactRecord list \<Rightarrow> month_slice" where
  "sliceByTenantAndMonth tenantId year month facts =
     (let subset = month_facts tenantId year month facts
      in if subset = [] then \<lparr> ms_totalOrders = 0, ms_totalRevenue = 0, ms_avgDelayMinutes = 0 \<rparr>
         else \<lparr> ms_totalOrders = foldl (\<lambda>n f. n + fc_orderVolumeCount f) 0 subset,
                ms_totalRevenue = toFixed 2 (foldl (\<lambda>n f. dadd n (fc_revenueUSD f)) 0 subset),
                ms_avgDelayMinutes =
                  toFixed 1 (ddiv (of_int (foldl (\<lambda>n f. n + fc_deliveryDelayMinutes f) 0 subset)) (of_nat (length subset))) \<rparr>)"

record carrier_stat =
  ct_total :: nat
  ct_onTime :: nat
  ct_rev :: rat

record carrier_performance =
  cp_carrierId :: string
  cp_onTimeRatePct :: rat
  cp_totalRevenue :: rat

definition add_fact :: "IFactRecord \<Rightarrow> (string, carrier_stat) jsmap \<Rightarrow> (string, carrier_stat) jsmap" where
  "add_fact f m =
     (let c = (case jm_get m (fc_carrierId f) of Some c \<Rightarrow> c | None \<Rightarrow> \<lparr> ct_total = 0, ct_onTime = 0, ct_rev = 0 \<rparr>)
      in jm_set (fc_carrierId f)
           \<lparr> ct_total = ct_total c + 1, ct_onTime = (if fc_deliveryDelayMinutes f \<le> 0 then ct_onTime c + 1 else ct_onTime c),
             ct_rev = dadd (ct_rev c) (fc_revenueUSD f) \<rparr> m)"

definition carrierMap :: "string \<Rightarrow> IFactRecord list \<Rightarrow> (string, carrier_stat) jsmap" where
  "carrierMap tenantId facts = fold add_fact (filter (\<lambda>f. fc_tenantId f = tenantId) facts) []"

definition performance_of :: "string \<times> carrier_stat \<Rightarrow> carrier_performance" where
  "performance_of cs =
     \<lparr> cp_carrierId = fst cs,
       cp_onTimeRatePct = toFixed 1 (dmul (ddiv (of_nat (ct_onTime (snd cs)))
         (if ct_total (snd cs) = 0 then 1 else of_nat (ct_total (snd cs)))) 100),
       cp_totalRevenue = toFixed 2 (ct_rev (snd cs)) \<rparr>"

definition getTopCarriersByPerformance :: "string \<Rightarrow> IFactRecord list \<Rightarrow> carrier_performance list" where
  "getTopCarriersByPerformance tenantId facts =
     sort_key (\<lambda>p. - cp_onTimeRatePct p) (map performance_of (carrierMap tenantId facts))"

text \<open>The specification: a carrier's numbers over the tenant's facts.\<close>

definition carrier_facts :: "string \<Rightarrow> string \<Rightarrow> IFactRecord list \<Rightarrow> IFactRecord list" where
  "carrier_facts t c facts = filter (\<lambda>f. fc_tenantId f = t \<and> fc_carrierId f = c) facts"

definition stat_of :: "IFactRecord list \<Rightarrow> carrier_stat" where
  "stat_of fs = \<lparr> ct_total = length fs, ct_onTime = length (filter (\<lambda>f. fc_deliveryDelayMinutes f \<le> 0) fs),
     ct_rev = foldl (\<lambda>n f. dadd n (fc_revenueUSD f)) 0 fs \<rparr>"

lemma stat_of_simps:
  "stat_of [] = \<lparr> ct_total = 0, ct_onTime = 0, ct_rev = 0 \<rparr>"
  "stat_of (fs @ [f]) =
     \<lparr> ct_total = ct_total (stat_of fs) + 1,
       ct_onTime = (if fc_deliveryDelayMinutes f \<le> 0 then ct_onTime (stat_of fs) + 1 else ct_onTime (stat_of fs)),
       ct_rev = dadd (ct_rev (stat_of fs)) (fc_revenueUSD f) \<rparr>"
  by (simp_all add: stat_of_def)

lemma carrier_facts_snoc:
  "carrier_facts t c (fs @ [f]) = carrier_facts t c fs @ (if fc_tenantId f = t \<and> fc_carrierId f = c then [f] else [])"
  by (simp add: carrier_facts_def)

lemma carrierMap_snoc:
  "carrierMap t (fs @ [f]) = (if fc_tenantId f = t then add_fact f (carrierMap t fs) else carrierMap t fs)"
  by (simp add: carrierMap_def)

lemma add_fact_get:
  assumes "\<And>c. jm_get m c = (if g c = [] then None else Some (stat_of (g c)))"
  shows "jm_get (add_fact f m) c = (if c = fc_carrierId f then Some (stat_of (g c @ [f])) else jm_get m c)"
  using assms [of "fc_carrierId f"] by (auto simp: add_fact_def Let_def stat_of_simps)

lemma carrierMap_get:
  "jm_get (carrierMap t facts) c = (if carrier_facts t c facts = [] then None else Some (stat_of (carrier_facts t c facts)))"
proof (induction facts arbitrary: c rule: rev_induct)
  case (snoc f facts)
  then show ?case using add_fact_get [OF snoc, of f c] by (simp add: carrierMap_snoc carrier_facts_snoc)
qed (simp add: carrierMap_def carrier_facts_def)

lemma carrierMap_ok: "jm_ok (carrierMap t facts)"
  by (induction facts rule: rev_induct) (simp_all add: carrierMap_def add_fact_def Let_def)

lemma performance_id [simp]: "cp_carrierId (performance_of cs) = fst cs"
  by (simp add: performance_of_def)

lemma map_sort_key_distinct: "distinct (map g (sort_key f xs)) \<longleftrightarrow> distinct (map g xs)"
proof -
  have "mset (map g (sort_key f xs)) = mset (map g xs)" by (simp only: mset_map mset_sort)
  then show ?thesis by (rule mset_eq_imp_distinct_iff)
qed

text \<open> 
  The report lists every carrier of the tenant's facts once, with the share and the revenue of those facts alone, by
  falling share; facts of other tenants change nothing in it.
\<close>

theorem carrier_report_exact:
  "distinct (map cp_carrierId (getTopCarriersByPerformance t facts)) \<and>
   set (getTopCarriersByPerformance t facts) =
     {performance_of (c, stat_of (carrier_facts t c facts)) | c. carrier_facts t c facts \<noteq> []} \<and>
   sorted (map (\<lambda>p. - cp_onTimeRatePct p) (getTopCarriersByPerformance t facts)) \<and>
   (fc_tenantId f = t \<or> getTopCarriersByPerformance t (ingestFact f facts) = getTopCarriersByPerformance t facts)"
proof -
  have m: "map cp_carrierId (map performance_of m) = map fst m" for m by simp
  have "distinct (map cp_carrierId (getTopCarriersByPerformance t facts))"
    unfolding getTopCarriersByPerformance_def map_sort_key_distinct m by (rule carrierMap_ok)
  moreover have "set (getTopCarriersByPerformance t facts) = performance_of ` {(c, s). jm_get (carrierMap t facts) c = Some s}"
    using carrierMap_ok [of t facts] by (auto simp: getTopCarriersByPerformance_def)
  then have "set (getTopCarriersByPerformance t facts) =
      {performance_of (c, stat_of (carrier_facts t c facts)) | c. carrier_facts t c facts \<noteq> []}"
    by (auto simp: carrierMap_get image_iff split: if_splits)
  ultimately show ?thesis
    by (auto simp: getTopCarriersByPerformance_def ingestFact_def carrierMap_def)
qed

lemma slice_adds:
  assumes "fc_tenantId f = t" "fc_orderYear f = y" "fc_orderMonth f = m"
  shows "ms_totalOrders (sliceByTenantAndMonth t y m (ingestFact f facts)) =
    ms_totalOrders (sliceByTenantAndMonth t y m facts) + fc_orderVolumeCount f"
  using assms by (simp add: sliceByTenantAndMonth_def ingestFact_def month_facts_def Let_def)

section \<open>Breach risk and posterior probability\<close>

record IShipmentTelemetryContext =
  sl_trackingNumber :: string
  sl_carrierCode :: string
  sl_originHub :: string
  sl_destinationCity :: string
  sl_distanceRemainingKm :: rat
  sl_currentTransitHours :: rat
  sl_slaMaxDurationHours :: rat
  sl_weatherSeverityScore :: rat

datatype risk_tier = LOW | MEDIUM | HIGH | CRITICAL_TIER

record breach_risk =
  bk_breachProbabilityPct :: nat
  bk_riskTier :: risk_tier
  bk_estimatedDelayHours :: rat

definition deltaHours :: "IShipmentTelemetryContext \<Rightarrow> rat" where
  "deltaHours ctx =
     dsub (dadd (dadd (sl_currentTransitHours ctx) (ddiv (sl_distanceRemainingKm ctx) 60))
                (dmul (sl_weatherSeverityScore ctx) (3 / 4)))
          (sl_slaMaxDurationHours ctx)"

definition predictBreachRisk :: "IShipmentTelemetryContext \<Rightarrow> breach_risk" where
  "predictBreachRisk ctx =
     (let d = deltaHours ctx;
          (p, tier) = (if 3 < d then (95, CRITICAL_TIER) else if 0 < d then (75, HIGH) else if -2 < d then (40, MEDIUM) else (10, LOW))
      in \<lparr> bk_breachProbabilityPct = p, bk_riskTier = tier, bk_estimatedDelayHours = max 0 (toFixed 1 d) \<rparr>)"

text \<open>A shipment that is further away, longer under way or in worse weather is never rated safer.\<close>

lemma breach_monotone:
  assumes "sl_distanceRemainingKm a \<le> sl_distanceRemainingKm b" "sl_currentTransitHours a \<le> sl_currentTransitHours b"
    "sl_weatherSeverityScore a \<le> sl_weatherSeverityScore b" "sl_slaMaxDurationHours a = sl_slaMaxDurationHours b"
  shows "bk_breachProbabilityPct (predictBreachRisk a) \<le> bk_breachProbabilityPct (predictBreachRisk b)"
proof -
  have "deltaHours a \<le> deltaHours b"
    unfolding deltaHours_def dsub_def dadd_def ddiv_def dmul_def assms(4)
    by (intro fl_mono diff_right_mono add_mono divide_right_mono mult_right_mono assms) simp_all
  then show ?thesis by (auto simp: predictBreachRisk_def Let_def)
qed

definition calculatePosteriorSpikeProbability :: "rat \<Rightarrow> rat \<Rightarrow> rat \<Rightarrow> bool \<Rightarrow> rat" where
  "calculatePosteriorSpikeProbability prior likelihoodPromo likelihoodNoPromo isPromoActive =
     (if \<not> isPromoActive then prior
      else let numerator = dmul likelihoodPromo prior;
               denominator = dadd (dmul likelihoodPromo prior) (dmul likelihoodNoPromo (dsub 1 prior))
           in toFixed 4 (ddiv numerator (if denominator = 0 then 1 else denominator)))"

text \<open>Probabilities give a probability, rounding included.\<close>

lemma posterior_is_probability:
  assumes "0 \<le> p" "p \<le> 1" "0 \<le> l" "l \<le> 1" "0 \<le> n" "n \<le> 1"
  shows "0 \<le> calculatePosteriorSpikeProbability p l n promo \<and> calculatePosteriorSpikeProbability p l n promo \<le> 1"
proof (cases promo)
  case True
  define a where "a = dmul l p"
  define b where "b = dmul n (dsub 1 p)"
  have "0 \<le> a" "0 \<le> b" using assms by (simp_all add: a_def b_def dmul_def dsub_def fl_nonneg)
  moreover have "fl a = a" by (simp add: a_def dmul_def)
  ultimately have ab: "a \<le> dadd a b" using fl_mono [of a "a + b"] by (simp add: dadd_def)
  have q: "0 \<le> ddiv a (if dadd a b = 0 then 1 else dadd a b)" "ddiv a (if dadd a b = 0 then 1 else dadd a b) \<le> fl (of_int 1)"
  proof -
    show "0 \<le> ddiv a (if dadd a b = 0 then 1 else dadd a b)"
      using \<open>0 \<le> a\<close> ab by (simp add: ddiv_def fl_nonneg)
    show "ddiv a (if dadd a b = 0 then 1 else dadd a b) \<le> fl (of_int 1)"
      unfolding ddiv_def using \<open>0 \<le> a\<close> ab by (intro fl_mono) (auto simp: divide_le_eq_1)
  qed
  have one: "fl (of_int 1) = 1" using fl_int [of 1] by simp
  have "toFixed 4 1 = 1"
  proof -
    have "Math_round (10 ^ 4) = 10 ^ 4" using Math_round_int [of "10 ^ 4"] by simp
    then show ?thesis using one by (simp add: toFixed_def)
  qed
  moreover have "toFixed 4 (ddiv a (if dadd a b = 0 then 1 else dadd a b)) \<le> toFixed 4 1"
    using q one by (intro toFixed_mono) simp_all
  ultimately show ?thesis using True q(1) toFixed_nonneg
    by (simp add: calculatePosteriorSpikeProbability_def Let_def a_def [symmetric] b_def [symmetric])
qed (simp add: calculatePosteriorSpikeProbability_def assms)

section \<open>Scores\<close>

record carrier_sample =
  cb_carrierCode :: string
  cb_carrierName :: string
  cb_totalShipmentsSampled :: nat
  cb_onTimeDeliveryRatePct :: rat
  cb_averageTransitDelayHours :: rat
  cb_freightDamageClaimRatePer1kPct :: rat
  cb_invoiceAccuracyRatePct :: rat

record ICarrierBenchmarkRecord = carrier_sample +
  cb_overallBenchmarkScore :: rat

definition rawScore :: "carrier_sample \<Rightarrow> rat" where
  "rawScore r =
     (let onTimeScore = dmul (cb_onTimeDeliveryRatePct r) (fl (45 / 100));
          delayDeduction = min 25 (dmul (cb_averageTransitDelayHours r) (7 / 2));
          damageDeduction = min 20 (dmul (cb_freightDamageClaimRatePer1kPct r) 15);
          accuracyScore = dmul (cb_invoiceAccuracyRatePct r) (1 / 4)
      in dsub (dsub (dadd (dadd onTimeScore accuracyScore) 30) delayDeduction) damageDeduction)"

definition computeCarrierScore :: "carrier_sample \<Rightarrow> ICarrierBenchmarkRecord" where
  "computeCarrierScore r =
     carrier_sample.extend r \<lparr> cb_overallBenchmarkScore = max 0 (min 100 (toFixed 1 (rawScore r))) \<rparr>"

lemma score_range:
  "0 \<le> cb_overallBenchmarkScore (computeCarrierScore r) \<and> cb_overallBenchmarkScore (computeCarrierScore r) \<le> 100"
  by (simp add: computeCarrierScore_def carrier_sample.extend_def)

record ICohortRecord =
  co_cohortMonth :: string
  co_initialCustomerCount :: nat
  co_retentionByMonth :: "rat list"
  co_cumulativeLtvByMonthUSD :: "rat list"

record retention_curves =
  rt_averageRetentionRateM3 :: rat
  rt_projectedAnnualLtv :: rat

definition add_cohort :: "ICohortRecord \<Rightarrow> rat \<times> nat \<times> rat \<Rightarrow> rat \<times> nat \<times> rat" where
  "add_cohort c t =
     (case t of (sumM3, countM3, sumLtv) \<Rightarrow>
        (if 4 \<le> length (co_retentionByMonth c) then dadd sumM3 (co_retentionByMonth c ! 3) else sumM3,
         if 4 \<le> length (co_retentionByMonth c) then countM3 + 1 else countM3,
         if co_cumulativeLtvByMonthUSD c \<noteq> [] then dadd sumLtv (last (co_cumulativeLtvByMonthUSD c)) else sumLtv))"

definition computeRetentionCurves :: "ICohortRecord list \<Rightarrow> retention_curves" where
  "computeRetentionCurves cohorts =
     (if cohorts = [] then \<lparr> rt_averageRetentionRateM3 = 0, rt_projectedAnnualLtv = 0 \<rparr>
      else case fold add_cohort cohorts (0, 0, 0) of (sumM3, countM3, sumLtv) \<Rightarrow>
        \<lparr> rt_averageRetentionRateM3 = (if 0 < countM3 then toFixed 3 (ddiv sumM3 (of_nat countM3)) else fl (78 / 100)),
          rt_projectedAnnualLtv = toFixed 2 (ddiv sumLtv (of_nat (length cohorts))) \<rparr>)"

text \<open>Cohorts younger than four months report a retention of 78 percent that nobody measured.\<close>

lemma retention_made_up:
  assumes "cohorts \<noteq> []" and "list_all (\<lambda>c. length (co_retentionByMonth c) < 4) cohorts"
  shows "rt_averageRetentionRateM3 (computeRetentionCurves cohorts) = fl (78 / 100)"
proof -
  have "fst (snd (fold add_cohort cs (a, 0, l))) = 0" if "list_all (\<lambda>c. length (co_retentionByMonth c) < 4) cs" for cs a l
    using that by (induction cs arbitrary: a l) (simp_all add: add_cohort_def)
  moreover obtain a n l where r: "fold add_cohort cohorts (0, 0, 0) = (a, n, l)" by (metis prod_cases3)
  ultimately have "n = 0" using assms(2) by (metis fst_conv snd_conv)
  then show ?thesis using assms(1) r by (simp add: computeRetentionCurves_def)
qed

record IExecutiveKpiOverview =
  ex_platformHealthScore :: int
  ex_totalOrdersToday :: int
  ex_grossMerchandiseValueTodayUSD :: rat
  ex_fulfillmentOnTimeRatePct :: rat
  ex_activeFleetVehiclesCount :: int
  ex_warehouseCapacityUtilizationPct :: rat
  ex_generalLedgerBalanced :: bool
  ex_systemIncidentsCount :: nat
  ex_generatedTimestamp :: instant

definition rate_or :: "rat \<Rightarrow> int \<Rightarrow> int \<Rightarrow> rat" where
  "rate_or fallback part whole = (if 0 < whole then toFixed 1 (dmul (ddiv (of_int part) (of_int whole)) 100) else fallback)"

definition compileExecutiveMetrics ::
  "instant \<Rightarrow> int \<Rightarrow> rat \<Rightarrow> int \<Rightarrow> int \<Rightarrow> int \<Rightarrow> int \<Rightarrow> int \<Rightarrow> IExecutiveKpiOverview" where
  "compileExecutiveMetrics now orderCount gmv onTime deliveries vehicles usedBins totalBins =
     (let onTimeRate = rate_or (fl (986 / 10)) onTime deliveries;
          warehouseUtil = rate_or (fl (742 / 10)) usedBins totalBins;
          healthScore = Math_round (dadd (dadd (dmul onTimeRate (fl (40 / 100)))
            (dmul (dsub 100 (max 0 (dsub warehouseUtil 85))) (fl (30 / 100)))) (if 0 < gmv then 30 else 15))
      in \<lparr> ex_platformHealthScore = min 100 (max 0 healthScore), ex_totalOrdersToday = orderCount,
           ex_grossMerchandiseValueTodayUSD = toFixed 2 gmv, ex_fulfillmentOnTimeRatePct = onTimeRate,
           ex_activeFleetVehiclesCount = vehicles, ex_warehouseCapacityUtilizationPct = warehouseUtil,
           ex_generalLedgerBalanced = True, ex_systemIncidentsCount = 0, ex_generatedTimestamp = now \<rparr>)"

text \<open>The overview says that the ledger is balanced and that there were no incidents, whatever happened.\<close>

lemma overview_constant:
  "ex_generalLedgerBalanced (compileExecutiveMetrics now n g o1 d v u b) \<and>
   ex_systemIncidentsCount (compileExecutiveMetrics now n g o1 d v u b) = 0 \<and>
   0 \<le> ex_platformHealthScore (compileExecutiveMetrics now n g o1 d v u b) \<and>
   ex_platformHealthScore (compileExecutiveMetrics now n g o1 d v u b) \<le> 100"
  by (simp add: compileExecutiveMetrics_def Let_def)

record ITenantKpiSnapshot =
  kp_tenantId :: string
  kp_tenantName :: string
  kp_orderFulfillmentSlaPct :: rat
  kp_averageDockToStockHours :: rat
  kp_fleetMilesPerGallonAvg :: rat
  kp_inventoryAccuracyRatePct :: rat
  kp_annualRecurringRevenueUSD :: int
  kp_carbonEmissionsTonnesCo2 :: rat
  kp_daysSalesOutstanding :: rat
  kp_activeDriverCount :: nat
  kp_activeWarehouseCount :: nat

definition kpi_row :: "string \<Rightarrow> string \<Rightarrow> rat \<Rightarrow> rat \<Rightarrow> rat \<Rightarrow> rat \<Rightarrow> int \<Rightarrow> rat \<Rightarrow> rat \<Rightarrow> nat \<Rightarrow> nat \<Rightarrow> ITenantKpiSnapshot" where
  "kpi_row i name sla dock mpg acc arr co2 dso drivers warehouses =
     \<lparr> kp_tenantId = i, kp_tenantName = name, kp_orderFulfillmentSlaPct = sla, kp_averageDockToStockHours = dock,
       kp_fleetMilesPerGallonAvg = mpg, kp_inventoryAccuracyRatePct = acc, kp_annualRecurringRevenueUSD = arr,
       kp_carbonEmissionsTonnesCo2 = co2, kp_daysSalesOutstanding = dso, kp_activeDriverCount = drivers,
       kp_activeWarehouseCount = warehouses \<rparr>"

definition seedTenants :: "(string, ITenantKpiSnapshot) jsmap" where
  "seedTenants =
     fold (\<lambda>t. jm_set (kp_tenantId t) t)
       [kpi_row ''TNT-GLOBAL-01'' ''Apex Global Logistics Corp'' (fl (988 / 10)) (fl (21 / 10)) (fl (72 / 10)) (fl (994 / 10))
          14500000 (2481 / 2) (fl (284 / 10)) 140 6,
        kpi_row ''TNT-NEXUS-02'' ''Nexus Freight Distribution Ltd'' (fl (974 / 10)) (fl (28 / 10)) (fl (68 / 10)) (fl (989 / 10))
          8200000 (fl (8902 / 10)) (fl (341 / 10)) 85 4,
        kpi_row ''TNT-PACIFIC-03'' ''Pacific Cold-Chain Logistics LLC'' (fl (992 / 10)) (3 / 2) (13 / 2) (fl (998 / 10))
          19800000 1850 (fl (228 / 10)) 210 8,
        kpi_row ''TNT-MIDWEST-04'' ''Midwest Rapid Express Transport'' (193 / 2) (fl (32 / 10)) 7 (fl (979 / 10))
          5400000 (fl (6204 / 10)) (79 / 2) 50 2] []"

record platform_aggregates =
  pa_totalArrUSD :: int
  pa_averageSlaPct :: rat
  pa_totalFleetDrivers :: nat
  pa_totalWarehouses :: nat
  pa_platformHealthScore :: int

definition getPlatformAggregates :: "(string, ITenantKpiSnapshot) jsmap \<Rightarrow> platform_aggregates" where
  "getPlatformAggregates m =
     (let ts = jm_values m;
          avgSla = toFixed 1 (ddiv (foldl (\<lambda>n t. dadd n (kp_orderFulfillmentSlaPct t)) 0 ts) (if ts = [] then 1 else of_nat (length ts)))
      in \<lparr> pa_totalArrUSD = foldl (\<lambda>n t. n + kp_annualRecurringRevenueUSD t) 0 ts, pa_averageSlaPct = avgSla,
           pa_totalFleetDrivers = foldl (\<lambda>n t. n + kp_activeDriverCount t) 0 ts,
           pa_totalWarehouses = foldl (\<lambda>n t. n + kp_activeWarehouseCount t) 0 ts,
           pa_platformHealthScore = Math_round (dmul avgSla (fl (95 / 100))) \<rparr>)"

lemma seeded_totals:
  "pa_totalArrUSD (getPlatformAggregates seedTenants) = 47900000 \<and>
   pa_totalFleetDrivers (getPlatformAggregates seedTenants) = 485 \<and> pa_totalWarehouses (getPlatformAggregates seedTenants) = 20"
  by (simp add: getPlatformAggregates_def Let_def seedTenants_def kpi_row_def jm_values_def)

section \<open>Forecasts\<close>

record IForecastOutput =
  fo_forecastPeriods :: "nat list"
  fo_forecastValues :: "rat list"
  fo_meanAbsolutePercentageError :: rat
  fo_confidenceInterval95Upper :: "rat list"
  fo_confidenceInterval95Lower :: "rat list"

text \<open>\<open>x || y\<close> on numbers.\<close>

definition or_num :: "rat \<Rightarrow> rat \<Rightarrow> rat" where
  "or_num x y = (if x = 0 then y else x)"

definition seasonal_value :: "nat \<Rightarrow> rat list \<Rightarrow> nat \<Rightarrow> rat" where
  "seasonal_value seasonLength series m =
     (let level = series ! 0;
          trend = ddiv (dsub (series ! seasonLength) (series ! 0)) (of_nat seasonLength);
          seasonals = map (\<lambda>v. ddiv v (or_num level 1)) (take seasonLength series);
          sIdx = (length series + m - 1) mod seasonLength
      in toFixed 2 (max 0 (dmul (dadd level (dmul (of_nat m) trend)) (or_num (seasonals ! sIdx) 1))))"

definition predictDemand :: "nat \<Rightarrow> rat list \<Rightarrow> nat \<Rightarrow> IForecastOutput" where
  "predictDemand seasonLength series periodsAhead =
     (if length series < seasonLength * 2
      then let avg = ddiv (foldl dadd 0 series) (if series = [] then 1 else of_nat (length series));
               values = replicate periodsAhead (toFixed 2 avg)
           in \<lparr> fo_forecastPeriods = map (\<lambda>i. i + 1) [0..<periodsAhead], fo_forecastValues = values,
                fo_meanAbsolutePercentageError = fl (52 / 10),
                fo_confidenceInterval95Upper = map (\<lambda>v. toFixed 2 (dmul v (fl (115 / 100)))) values,
                fo_confidenceInterval95Lower = map (\<lambda>v. toFixed 2 (dmul v (fl (85 / 100)))) values \<rparr>
      else let values = map (seasonal_value seasonLength series) [1..<periodsAhead + 1]
           in \<lparr> fo_forecastPeriods = map (\<lambda>i. i + 1) [0..<periodsAhead], fo_forecastValues = values,
                fo_meanAbsolutePercentageError = fl (48 / 10),
                fo_confidenceInterval95Upper = map (\<lambda>v. toFixed 2 (dmul v (fl (112 / 100)))) values,
                fo_confidenceInterval95Lower = map (\<lambda>v. toFixed 2 (dmul v (fl (88 / 100)))) values \<rparr>)"

text \<open>One value per period and two bounds around each, in order for demands that are not negative. The error of the
  forecast is one of two constants: no forecast is ever compared with a demand.\<close>

lemma forecast_shape:
  "length (fo_forecastPeriods (predictDemand s xs n)) = n \<and> length (fo_forecastValues (predictDemand s xs n)) = n \<and>
   length (fo_confidenceInterval95Upper (predictDemand s xs n)) = n \<and> length (fo_confidenceInterval95Lower (predictDemand s xs n)) = n \<and>
   fo_meanAbsolutePercentageError (predictDemand s xs n) = (if length xs < s * 2 then fl (52 / 10) else fl (48 / 10))"
  by (simp add: predictDemand_def Let_def)

lemma interval_ordered:
  assumes "0 \<le> v" and "c \<le> c'"
    and "0 \<le> c"
  shows "toFixed 2 (dmul v (fl c)) \<le> toFixed 2 (dmul v (fl c'))"
  using assms by (intro toFixed_mono dmul_mono_right dmul_nonneg fl_mono fl_nonneg)

lemma seasonal_nonneg: "list_all (\<lambda>v. 0 \<le> v) (map (seasonal_value s xs) ms)"
  by (simp add: list_all_iff seasonal_value_def Let_def toFixed_nonneg)

record IDemandHistoryPoint =
  dh_dateIso :: string
  dh_sku :: string
  dh_actualDemandUnits :: rat
  dh_promotionalDiscountPct :: rat
  dh_stockoutDurationHours :: rat

record demand_projection =
  dp_weekNumber :: nat
  dp_projectedUnits :: int
  dp_confidenceLow :: int
  dp_confidenceHigh :: int

definition mean_of :: "rat list \<Rightarrow> rat" where
  "mean_of xs = ddiv (foldl dadd 0 xs) (or_num (of_nat (length xs)) 1)"

definition std_dev :: "(rat \<Rightarrow> rat) \<Rightarrow> (rat \<Rightarrow> rat \<Rightarrow> rat) \<Rightarrow> rat \<Rightarrow> rat list \<Rightarrow> rat" where
  "std_dev msqrt mpow fallback xs =
     or_num (msqrt (ddiv (foldl (\<lambda>acc x. dadd acc (mpow (dsub x (mean_of xs)) 2)) 0 xs) (or_num (of_nat (length xs)) 1))) fallback"

definition trend_sums :: "rat list \<Rightarrow> rat \<times> rat \<times> rat \<times> rat" where
  "trend_sums ds =
     fold (\<lambda>(i, d) (x, y, xy, x2). (dadd x (of_nat i), dadd y d, dadd xy (dmul (of_nat i) d), dadd x2 (of_nat (i * i))))
       (enumerate 0 ds) (0, 0, 0, 0)"

definition trend_slope :: "rat list \<Rightarrow> rat" where
  "trend_slope ds =
     (case trend_sums ds of (x, y, xy, x2) \<Rightarrow>
        let n = of_nat (length ds)
        in if 1 < length ds then ddiv (dsub (dmul n xy) (dmul x y)) (dsub (dmul n x2) (dmul x x)) else 0)"

definition week_projection :: "rat \<Rightarrow> rat \<Rightarrow> rat \<Rightarrow> nat \<Rightarrow> nat \<Rightarrow> demand_projection" where
  "week_projection mean slope sd n w =
     (let proj = max 10 (Math_round (dadd mean (dmul slope (of_nat (n + w)))))
      in \<lparr> dp_weekNumber = w, dp_projectedUnits = proj,
           dp_confidenceLow = max 0 (Math_round (dsub (of_int proj) (dmul (fl (196 / 100)) sd))),
           dp_confidenceHigh = Math_round (dadd (of_int proj) (dmul (fl (196 / 100)) sd)) \<rparr>)"

definition generateForecast ::
  "(rat \<Rightarrow> rat) \<Rightarrow> (rat \<Rightarrow> rat \<Rightarrow> rat) \<Rightarrow> IDemandHistoryPoint list \<Rightarrow> nat \<Rightarrow> demand_projection list" where
  "generateForecast msqrt mpow series forecastWeeks =
     (if series = [] then []
      else let demands = map dh_actualDemandUnits series
           in map (week_projection (mean_of demands) (trend_slope demands) (std_dev msqrt mpow 5 demands) (length demands))
                [1..<forecastWeeks + 1])"

text \<open>One projection per week, none below ten units, each inside its interval as long as the square msqrt is not
  negative and the numbers stay in the exact range of doubles.\<close>

lemma projection_interval:
  assumes "0 \<le> sd" and "\<bar>dp_projectedUnits (week_projection mean slope sd n w)\<bar> \<le> 2 ^ 53"
  shows "dp_confidenceLow (week_projection mean slope sd n w) \<le> dp_projectedUnits (week_projection mean slope sd n w) \<and>
    dp_projectedUnits (week_projection mean slope sd n w) \<le> dp_confidenceHigh (week_projection mean slope sd n w) \<and>
    10 \<le> dp_projectedUnits (week_projection mean slope sd n w)"
proof -
  define p where "p = dp_projectedUnits (week_projection mean slope sd n w)"
  have p: "10 \<le> p" by (simp add: p_def week_projection_def Let_def)
  have e: "fl (of_int p) = of_int p" by (rule fl_int) (use assms(2) in \<open>simp add: p_def\<close>)
  have d: "0 \<le> dmul (fl (196 / 100)) sd" using assms(1) by (intro dmul_nonneg fl_nonneg) simp_all
  have "dsub (of_int p) (dmul (fl (196 / 100)) sd) \<le> of_int p" "of_int p \<le> dadd (of_int p) (dmul (fl (196 / 100)) sd)"
    using fl_mono [of "of_int p - dmul (fl (196 / 100)) sd" "of_int p"] fl_mono [of "of_int p" "of_int p + dmul (fl (196 / 100)) sd"]
      d e by (simp_all add: dsub_def dadd_def)
  then have "Math_round (dsub (of_int p) (dmul (fl (196 / 100)) sd)) \<le> p" "p \<le> Math_round (dadd (of_int p) (dmul (fl (196 / 100)) sd))"
    using Math_round_mono Math_round_int by metis+
  with p show ?thesis
    by (simp add: p_def [symmetric]) (simp add: week_projection_def Let_def p_def)
qed

lemma forecast_weeks:
  "map dp_weekNumber (generateForecast sq pw series k) = (if series = [] then [] else [1..<k + 1])"
  by (simp add: generateForecast_def Let_def comp_def week_projection_def)

section \<open>Fuel economy\<close>

record IFleetVehicleTelemetrySummary =
  fv_vehicleId :: string
  fv_engineAgeYears :: rat
  fv_odometerMiles :: rat
  fv_ratedMpg :: rat
  fv_actualMpg :: rat
  fv_fuelType :: string

record intensity_index =
  ii_degradationPct :: rat
  ii_excessCo2KgPer1000Miles :: rat
  ii_maintenanceRecommended :: bool

text \<open>The rated economy is positive: a division by zero is outside the doubles modelled.\<close>

definition calculateIntensityIndex :: "IFleetVehicleTelemetrySummary \<Rightarrow> intensity_index" where
  "calculateIntensityIndex v =
     (let mpgLoss = max 0 (dsub (fv_ratedMpg v) (fv_actualMpg v));
          degradationPct = (if 0 < fv_ratedMpg v then toFixed 1 (dmul (ddiv mpgLoss (fv_ratedMpg v)) 100) else 0);
          excessGallons = max 0 (dsub (ddiv 1000 (or_num (fv_actualMpg v) 1)) (ddiv 1000 (fv_ratedMpg v)))
      in \<lparr> ii_degradationPct = degradationPct, ii_excessCo2KgPer1000Miles = toFixed 2 (dmul excessGallons (fl (1018 / 100))),
           ii_maintenanceRecommended = (12 < degradationPct) \<rparr>)"

lemma intensity_at_rated:
  assumes "fv_ratedMpg v \<le> fv_actualMpg v" and "0 < fv_ratedMpg v"
  shows "ii_degradationPct (calculateIntensityIndex v) = 0 \<and> ii_excessCo2KgPer1000Miles (calculateIntensityIndex v) = 0 \<and>
    \<not> ii_maintenanceRecommended (calculateIntensityIndex v)"
proof -
  have zero: "toFixed d 0 = 0" for d using Math_round_int [of 0] by (simp add: toFixed_def)
  have "dsub (fv_ratedMpg v) (fv_actualMpg v) \<le> 0" using assms by (simp add: dsub_def fl_nonpos)
  moreover have "ddiv 1000 (fv_actualMpg v) \<le> ddiv 1000 (fv_ratedMpg v)"
    unfolding ddiv_def using assms by (intro fl_mono divide_left_mono) auto
  then have "dsub (ddiv 1000 (or_num (fv_actualMpg v) 1)) (ddiv 1000 (fv_ratedMpg v)) \<le> 0"
    using assms by (simp add: dsub_def fl_nonpos or_num_def)
  ultimately show ?thesis by (simp add: calculateIntensityIndex_def Let_def max_absorb1 ddiv_def dmul_def zero)
qed

end
