(* ===== verification/Treasury.thy ===== *)
theory Treasury
  imports Prelude Double
begin

text \<open>
  Engines of the billing service beside the ledger: service agreements
  (contracts/EnterpriseMasterServiceAgreementManager.ts), currency conversion (currency/RealtimeFxCurrencyConverter.ts),
  exposure (forex/MultiCurrencyHedgingExposureCalculator.ts), late fees
  (dunning/AutomatedCollectionsAndLateFeeCalculator.ts), transfer prices (ledger/IntercompanyTransferPricingEngine.ts),
  allocation and recognition of revenue (recognition/Ifrs15RevenueRecognitionEngine.ts), ageing of receivables
  (reconciliation/AutomatedAgedReceivablesAgingBucketReport.ts), nexus (tax/JurisdictionNexusTaxRulesDatabase.ts) and
  withholding (withholding/CrossBorderTaxWithholdingEngine.ts); and of the order service: sales tax
  (taxation/SalesTaxJurisdictionService.ts) and customs duties (tax/InternationalCustomsTariffCalculator.ts).
\<close>

section \<open>Ageing of receivables\<close>

record aged_invoice =
  ai_outstandingAmountUSD :: rat
  ai_daysPastDue :: int

record IReceivableAgingBucket =
  ag_currentUSD :: rat
  ag_days1To30USD :: rat
  ag_days31To60USD :: rat
  ag_days61To90USD :: rat
  ag_days90PlusUSD :: rat
  ag_totalReceivablesUSD :: rat
  ag_allowanceForDoubtfulAccountsUSD :: rat

definition age_invoice :: "aged_invoice \<Rightarrow> rat \<times> rat \<times> rat \<times> rat \<times> rat \<Rightarrow> rat \<times> rat \<times> rat \<times> rat \<times> rat" where
  "age_invoice i b =
     (case b of (cur, d30, d60, d90, d90p) \<Rightarrow>
        if ai_daysPastDue i \<le> 0 then (dadd cur (ai_outstandingAmountUSD i), d30, d60, d90, d90p)
        else if ai_daysPastDue i \<le> 30 then (cur, dadd d30 (ai_outstandingAmountUSD i), d60, d90, d90p)
        else if ai_daysPastDue i \<le> 60 then (cur, d30, dadd d60 (ai_outstandingAmountUSD i), d90, d90p)
        else if ai_daysPastDue i \<le> 90 then (cur, d30, d60, dadd d90 (ai_outstandingAmountUSD i), d90p)
        else (cur, d30, d60, d90, dadd d90p (ai_outstandingAmountUSD i)))"

definition compileAgingBuckets :: "aged_invoice list \<Rightarrow> IReceivableAgingBucket" where
  "compileAgingBuckets invoices =
     (case fold age_invoice invoices (0, 0, 0, 0, 0) of (cur, d30, d60, d90, d90p) \<Rightarrow>
        \<lparr> ag_currentUSD = toFixed 2 cur, ag_days1To30USD = toFixed 2 d30, ag_days31To60USD = toFixed 2 d60,
          ag_days61To90USD = toFixed 2 d90, ag_days90PlusUSD = toFixed 2 d90p,
          ag_totalReceivablesUSD = toFixed 2 (dadd (dadd (dadd (dadd cur d30) d60) d90) d90p),
          ag_allowanceForDoubtfulAccountsUSD =
            toFixed 2 (dadd (dadd (dadd (dadd (dmul cur (fl (1 / 100))) (dmul d30 (fl (5 / 100)))) (dmul d60 (fl (15 / 100))))
              (dmul d90 (fl (35 / 100)))) (dmul d90p (fl (70 / 100)))) \<rparr>)"

definition bucket_sum :: "int set \<Rightarrow> aged_invoice list \<Rightarrow> rat" where
  "bucket_sum D is = foldl dadd 0 (map ai_outstandingAmountUSD (filter (\<lambda>i. ai_daysPastDue i \<in> D) is))"

lemma age_all:
  "fold age_invoice is (0, 0, 0, 0, 0) =
    (bucket_sum {..0} is, bucket_sum {1..30} is, bucket_sum {31..60} is, bucket_sum {61..90} is, bucket_sum {91..} is)"
  by (induction "is" rule: rev_induct) (auto simp: bucket_sum_def age_invoice_def)

text \<open>Each bucket is the sum of the invoices of its days, in their order, and of no others.\<close>

theorem ageing_partitions:
  "ag_currentUSD (compileAgingBuckets is) = toFixed 2 (bucket_sum {..0} is) \<and>
   ag_days1To30USD (compileAgingBuckets is) = toFixed 2 (bucket_sum {1..30} is) \<and>
   ag_days31To60USD (compileAgingBuckets is) = toFixed 2 (bucket_sum {31..60} is) \<and>
   ag_days61To90USD (compileAgingBuckets is) = toFixed 2 (bucket_sum {61..90} is) \<and>
   ag_days90PlusUSD (compileAgingBuckets is) = toFixed 2 (bucket_sum {91..} is) \<and>
   {..0} \<union> {1..30} \<union> {31..60} \<union> {61..90} \<union> {91..} = (UNIV :: int set)"
  by (auto simp: compileAgingBuckets_def age_all)

section \<open>Revenue\<close>

record IPerformanceObligation =
  ob_obligationId :: string
  ob_description :: string
  ob_standaloneSellingPrice :: rat
  ob_isSatisfied :: bool
  ob_satisfactionDate :: "instant option"
  ob_allocatedAmount :: rat

definition allocateTransactionPrice :: "rat \<Rightarrow> IPerformanceObligation list \<Rightarrow> IPerformanceObligation list" where
  "allocateTransactionPrice price os =
     (let totalStandalone = foldl (\<lambda>n o1. dadd n (ob_standaloneSellingPrice o1)) 0 os
      in if totalStandalone = 0 then os
         else map (\<lambda>o1. o1\<lparr> ob_allocatedAmount := toFixed 2 (dmul price (ddiv (ob_standaloneSellingPrice o1) totalStandalone)) \<rparr>) os)"

definition recognized :: "instant \<Rightarrow> IPerformanceObligation \<Rightarrow> bool" where
  "recognized periodEnd o1 \<longleftrightarrow>
     ob_isSatisfied o1 \<and> (case ob_satisfactionDate o1 of Some d \<Rightarrow> d \<le> periodEnd | None \<Rightarrow> False)"

definition recognizeRevenuePeriod :: "IPerformanceObligation list \<Rightarrow> instant \<Rightarrow> rat \<times> rat" where
  "recognizeRevenuePeriod os periodEnd =
     (let (r, d) = fold (\<lambda>o1 (r, d). if recognized periodEnd o1 then (dadd r (ob_allocatedAmount o1), d)
                                     else (r, dadd d (ob_allocatedAmount o1))) os (0, 0)
      in (toFixed 2 r, toFixed 2 d))"

lemma allocation_keeps:
  "map ob_obligationId (allocateTransactionPrice p os) = map ob_obligationId os"
  by (simp add: allocateTransactionPrice_def Let_def comp_def)

lemma revenue_split:
  "recognizeRevenuePeriod os t =
    (toFixed 2 (foldl dadd 0 (map ob_allocatedAmount (filter (recognized t) os))),
     toFixed 2 (foldl dadd 0 (map ob_allocatedAmount (filter (\<lambda>o1. \<not> recognized t o1) os))))"
proof -
  have "fold (\<lambda>o1 (r, d). if recognized t o1 then (dadd r (ob_allocatedAmount o1), d) else (r, dadd d (ob_allocatedAmount o1))) os (r, d) =
      (foldl dadd r (map ob_allocatedAmount (filter (recognized t) os)),
       foldl dadd d (map ob_allocatedAmount (filter (\<lambda>o1. \<not> recognized t o1) os)))" for r d
    by (induction os arbitrary: r d) simp_all
  then show ?thesis by (simp add: recognizeRevenuePeriod_def)
qed

text \<open>The shares are rounded one by one: three equal obligations of a contract over 100 dollars add up to 99.99.\<close>

definition equal_obligation :: "string \<Rightarrow> IPerformanceObligation" where
  "equal_obligation i = \<lparr> ob_obligationId = i, ob_description = [], ob_standaloneSellingPrice = 1, ob_isSatisfied = False,
     ob_satisfactionDate = None, ob_allocatedAmount = 0 \<rparr>"

lemma allocation_loses_a_cent:
  "map ob_allocatedAmount (allocateTransactionPrice 100 (map equal_obligation [''a'', ''b'', ''c''])) = replicate 3 (cents 3333)"
  by code_simp

section \<open>Withholding\<close>

datatype income_category = SERVICES | ROYALTIES | DIVIDENDS

record ITaxTreatyProfile =
  tt_countryIso :: string
  tt_hasDoubleTaxationTreaty :: bool
  tt_statutoryRoyaltyWithholdingPct :: rat
  tt_statutoryServicesWithholdingPct :: rat
  tt_statutoryDividendWithholdingPct :: rat
  tt_requiresFormW8Ben :: bool

definition treaty_row :: "string \<Rightarrow> bool \<Rightarrow> rat \<Rightarrow> rat \<Rightarrow> rat \<Rightarrow> ITaxTreatyProfile" where
  "treaty_row c treaty royalty services dividend =
     \<lparr> tt_countryIso = c, tt_hasDoubleTaxationTreaty = treaty, tt_statutoryRoyaltyWithholdingPct = royalty,
       tt_statutoryServicesWithholdingPct = services, tt_statutoryDividendWithholdingPct = dividend, tt_requiresFormW8Ben = True \<rparr>"

definition treaties :: "(string, ITaxTreatyProfile) jsmap" where
  "treaties =
     [(''CA'', treaty_row ''CA'' True 0 0 15), (''GB'', treaty_row ''GB'' True 0 0 15), (''DE'', treaty_row ''DE'' True 0 0 15),
      (''IN'', treaty_row ''IN'' True 15 10 25), (''BR'', treaty_row ''BR'' False 30 30 30)]"

primrec category_rate :: "ITaxTreatyProfile \<Rightarrow> income_category \<Rightarrow> rat" where
  "category_rate t SERVICES = tt_statutoryServicesWithholdingPct t"
| "category_rate t ROYALTIES = tt_statutoryRoyaltyWithholdingPct t"
| "category_rate t DIVIDENDS = tt_statutoryDividendWithholdingPct t"

record withholding =
  wh_withholdingTaxRatePct :: rat
  wh_withholdingAmountUSD :: rat
  wh_netPayoutAmountUSD :: rat

definition calculateWithholding :: "string \<Rightarrow> rat \<Rightarrow> income_category \<Rightarrow> withholding" where
  "calculateWithholding country invoiceAmount category =
     (let treaty = (case jm_get treaties (to_upper country) of Some t \<Rightarrow> t | None \<Rightarrow> treaty_row country False 30 30 30);
          rate = category_rate treaty category;
          withheld = toFixed 2 (dmul invoiceAmount (ddiv rate 100))
      in \<lparr> wh_withholdingTaxRatePct = rate, wh_withholdingAmountUSD = withheld,
           wh_netPayoutAmountUSD = toFixed 2 (dsub invoiceAmount withheld) \<rparr>)"

lemma treaty_rates:
  assumes "jm_get treaties c = Some t"
  shows "0 \<le> category_rate t k \<and> category_rate t k \<le> 30"
proof -
  have "list_all (\<lambda>(c, t). 0 \<le> category_rate t SERVICES \<and> category_rate t SERVICES \<le> 30 \<and> 0 \<le> category_rate t ROYALTIES \<and>
      category_rate t ROYALTIES \<le> 30 \<and> 0 \<le> category_rate t DIVIDENDS \<and> category_rate t DIVIDENDS \<le> 30) treaties"
    by (simp add: treaties_def treaty_row_def)
  then show ?thesis using map_of_SomeD [OF assms] by (cases k) (auto simp: list_all_iff)
qed

lemma withholding_rate_range:
  "0 \<le> wh_withholdingTaxRatePct (calculateWithholding c a k) \<and> wh_withholdingTaxRatePct (calculateWithholding c a k) \<le> 30"
proof (cases "jm_get treaties (to_upper c)")
  case None
  then show ?thesis by (cases k) (simp_all add: calculateWithholding_def Let_def treaty_row_def)
next
  case (Some t)
  then show ?thesis using treaty_rates [OF Some, of k] by (simp add: calculateWithholding_def Let_def)
qed

text \<open>In whole cents the invoice is split exactly into what is withheld and what is paid out.\<close>

lemma withholding_exact:
  assumes "wh_withholdingAmountUSD (calculateWithholding c (cents n) k) = cents w" and "\<bar>n\<bar> \<le> 10 ^ 12" and "\<bar>w\<bar> \<le> 10 ^ 12"
  shows "wh_netPayoutAmountUSD (calculateWithholding c (cents n) k) = cents (n - w)"
  using assms(1) toFixed_dsub_cents [OF assms(2,3)] by (simp add: calculateWithholding_def Let_def)

section \<open>Currencies\<close>

definition rates :: "(string, rat) jsmap" where
  "rates = [(''USD_EUR'', fl (92 / 100)), (''USD_GBP'', fl (79 / 100)), (''USD_CAD'', fl (136 / 100)), (''USD_JPY'', 309 / 2),
     (''EUR_USD'', fl (1087 / 1000)), (''GBP_USD'', fl (1265 / 1000))]"

record fx_conversion =
  fx_convertedAmount :: rat
  fx_exchangeRate :: rat
  fx_feeAmount :: rat

definition convert_currency :: "rat \<Rightarrow> string \<Rightarrow> string \<Rightarrow> rat \<Rightarrow> fx_conversion" where
  "convert_currency amount fromCurrency toCurrency spreadPct =
     (if fromCurrency = toCurrency then \<lparr> fx_convertedAmount = amount, fx_exchangeRate = 1, fx_feeAmount = 0 \<rparr>
      else let rate = (case jm_get rates (fromCurrency @ ''_'' @ toCurrency) of Some r \<Rightarrow> r | None \<Rightarrow> 1);
               rawConverted = dmul amount rate;
               fee = toFixed 2 (dmul rawConverted spreadPct)
           in \<lparr> fx_convertedAmount = toFixed 2 (dsub rawConverted fee), fx_exchangeRate = rate, fx_feeAmount = fee \<rparr>)"

text \<open>A pair that is not in the table converts at one to one: a hundred yen are a hundred dollars.\<close>

lemma unknown_pair_at_par: "fx_exchangeRate (convert_currency a ''JPY'' ''USD'' s) = 1"
  by (simp add: convert_currency_def rates_def Let_def)

record IFxOpenPayable =
  op_invoiceId :: string
  op_currency :: string
  op_foreignAmount :: rat
  op_spotRateAtInvoiceUSD :: rat
  op_maturityDate :: instant

definition current_rate :: "(string, rat) jsmap \<Rightarrow> IFxOpenPayable \<Rightarrow> rat" where
  "current_rate spot p = (case jm_get spot (op_currency p) of Some r \<Rightarrow> if r = 0 then op_spotRateAtInvoiceUSD p else r
     | None \<Rightarrow> op_spotRateAtInvoiceUSD p)"

record portfolio_risk =
  pr_totalExposureUSD :: rat
  pr_netUnrealizedGainLossUSD :: rat
  pr_highRiskCurrencyCount :: nat

text \<open>A gain over an original value of zero is infinite, and exceeds every bound.\<close>

definition add_payable :: "(string, rat) jsmap \<Rightarrow> IFxOpenPayable \<Rightarrow> rat \<times> rat \<times> string list \<Rightarrow> rat \<times> rat \<times> string list" where
  "add_payable spot p t =
     (case t of (exposure, gain, risky) \<Rightarrow>
        let original = dmul (op_foreignAmount p) (op_spotRateAtInvoiceUSD p);
            current = dmul (op_foreignAmount p) (current_rate spot p);
            gainLoss = dsub current original
        in (dadd exposure current, dadd gain gainLoss,
            if (if original = 0 then gainLoss \<noteq> 0 else fl (5 / 100) < \<bar>ddiv gainLoss original\<bar>) then List.insert (op_currency p) risky else risky))"

definition calculatePortfolioRisk :: "IFxOpenPayable list \<Rightarrow> (string, rat) jsmap \<Rightarrow> portfolio_risk" where
  "calculatePortfolioRisk payables spot =
     (case fold (add_payable spot) payables (0, 0, []) of (exposure, gain, risky) \<Rightarrow>
        \<lparr> pr_totalExposureUSD = toFixed 2 exposure, pr_netUnrealizedGainLossUSD = toFixed 2 gain,
          pr_highRiskCurrencyCount = length risky \<rparr>)"

text \<open>A currency counts once, however many payables in it have moved.\<close>

lemma risk_count_bound: "pr_highRiskCurrencyCount (calculatePortfolioRisk ps spot) \<le> card (op_currency ` set ps)"
proof -
  have "distinct (snd (snd (fold (add_payable spot) qs (e, g, r)))) \<and>
      set (snd (snd (fold (add_payable spot) qs (e, g, r)))) \<subseteq> set r \<union> op_currency ` set qs"
    if "distinct r" for qs e g r
    using that
  proof (induction qs arbitrary: e g r)
    case (Cons q qs)
    obtain e' g' r' where q: "add_payable spot q (e, g, r) = (e', g', r')" by (metis prod_cases3)
    then have "distinct r'" "set r' \<subseteq> insert (op_currency q) (set r)"
      using Cons.prems by (auto simp: add_payable_def Let_def split: if_splits)
    with Cons.IH [of r' e' g'] q show ?case by fastforce
  qed simp
  from this [of "[]" ps 0 0] have "length (snd (snd (fold (add_payable spot) ps (0, 0, [])))) \<le> card (op_currency ` set ps)"
    by (metis List.finite_set card_mono distinct.simps(1) distinct_card finite_imageI list.set(1) sup_bot_left)
  then show ?thesis by (simp add: calculatePortfolioRisk_def split_beta)
qed

section \<open>Agreements, late fees and transfer prices\<close>

datatype payment_terms = NET_15 | NET_30 | NET_60 | DUE_ON_RECEIPT

record IMasterServiceAgreement =
  sa_contractId :: string
  sa_tenantId :: string
  sa_effectiveDate :: instant
  sa_expirationDate :: instant
  sa_paymentTerms :: payment_terms
  sa_monthlyBaseCommitmentUSD :: rat
  sa_slaCommitmentAvailabilityPct :: rat
  sa_slaOutageCreditMultiplier :: rat
  sa_autoRenew :: bool

type_synonym agreements = "(string, IMasterServiceAgreement) jsmap"

definition registerAgreement :: "IMasterServiceAgreement \<Rightarrow> agreements \<Rightarrow> agreements" where
  "registerAgreement msa m = jm_set (sa_tenantId msa) msa m"

definition calculateSlaCredit :: "string \<Rightarrow> rat \<Rightarrow> agreements \<Rightarrow> bool \<times> rat" where
  "calculateSlaCredit tenantId actual m =
     (case jm_get m tenantId of
        None \<Rightarrow> (False, 0)
      | Some c \<Rightarrow>
          if sa_slaCommitmentAvailabilityPct c \<le> actual then (False, 0)
          else let deficit = dsub (sa_slaCommitmentAvailabilityPct c) actual
               in (True, toFixed 2 (dmul (dmul (sa_monthlyBaseCommitmentUSD c) (ddiv deficit 100)) (sa_slaOutageCreditMultiplier c))))"

text \<open>The worse the availability, the larger the credit; the term of the agreement is never read.\<close>

lemma credit_monotone:
  assumes "jm_get m t = Some c" and "0 \<le> sa_monthlyBaseCommitmentUSD c" and "0 \<le> sa_slaOutageCreditMultiplier c" and "a \<le> b"
  shows "snd (calculateSlaCredit t b m) \<le> snd (calculateSlaCredit t a m)"
proof (cases "sa_slaCommitmentAvailabilityPct c \<le> b")
  case True
  have "0 \<le> snd (calculateSlaCredit t a m)"
    using assms by (auto simp: calculateSlaCredit_def Let_def dmul_def ddiv_def dsub_def intro!: toFixed_nonneg fl_nonneg mult_nonneg_nonneg divide_nonneg_nonneg)
  then show ?thesis using True assms(1) by (simp add: calculateSlaCredit_def)
next
  case False
  have "0 \<le> dsub (sa_slaCommitmentAvailabilityPct c) b" "dsub (sa_slaCommitmentAvailabilityPct c) b \<le> dsub (sa_slaCommitmentAvailabilityPct c) a"
    using False assms(4) by (simp_all add: dsub_def fl_nonneg fl_mono)
  then have "0 \<le> ddiv (dsub (sa_slaCommitmentAvailabilityPct c) b) 100"
    "ddiv (dsub (sa_slaCommitmentAvailabilityPct c) b) 100 \<le> ddiv (dsub (sa_slaCommitmentAvailabilityPct c) a) 100"
    by (simp_all add: ddiv_def fl_nonneg fl_mono divide_right_mono)
  then show ?thesis using False assms
    by (simp add: calculateSlaCredit_def Let_def) (intro toFixed_mono dmul_mono_left dmul_mono_right dmul_nonneg; simp)
qed

record IOverdueReceivable =
  or_invoiceNumber :: string
  or_customerId :: string
  or_originalAmountUSD :: rat
  or_outstandingBalanceUSD :: rat
  or_dueDate :: instant
  or_gracePeriodDays :: int
  or_annualFinanceRatePct :: rat
  or_fixedLateFeeUSD :: rat

record delinquency =
  de_daysOverdue :: int
  de_isWithinGracePeriod :: bool
  de_accruedInterestUSD :: rat
  de_totalDueWithFeesUSD :: rat

definition calculateDelinquencyFees :: "IOverdueReceivable \<Rightarrow> instant \<Rightarrow> delinquency" where
  "calculateDelinquencyFees r asOf =
     (let daysOverdue = max 0 ((asOf - or_dueDate r) div 86400000)
      in if daysOverdue \<le> or_gracePeriodDays r
         then \<lparr> de_daysOverdue = daysOverdue, de_isWithinGracePeriod = True, de_accruedInterestUSD = 0,
                de_totalDueWithFeesUSD = or_outstandingBalanceUSD r \<rparr>
         else let dailyRate = ddiv (ddiv (or_annualFinanceRatePct r) 100) 365;
                  accrued = toFixed 2 (dmul (dmul (or_outstandingBalanceUSD r) dailyRate) (of_int (daysOverdue - or_gracePeriodDays r)))
              in \<lparr> de_daysOverdue = daysOverdue, de_isWithinGracePeriod = False, de_accruedInterestUSD = accrued,
                   de_totalDueWithFeesUSD = toFixed 2 (dadd (dadd (or_outstandingBalanceUSD r) accrued) (or_fixedLateFeeUSD r)) \<rparr>)"

text \<open>Interest is simple and never falls with time; the header promises compounding.\<close>

lemma interest_monotone:
  assumes "0 \<le> or_outstandingBalanceUSD r" and "0 \<le> or_annualFinanceRatePct r" and "a \<le> b"
  shows "de_accruedInterestUSD (calculateDelinquencyFees r a) \<le> de_accruedInterestUSD (calculateDelinquencyFees r b)"
proof -
  define days where "days t = max 0 ((t - or_dueDate r) div 86400000)" for t
  define x where "x = dmul (or_outstandingBalanceUSD r) (ddiv (ddiv (or_annualFinanceRatePct r) 100) 365)"
  have x: "0 \<le> x" using assms by (simp add: x_def ddiv_def dmul_nonneg fl_nonneg)
  have d: "days a \<le> days b" using assms(3) unfolding days_def by (intro max.mono order_refl zdiv_mono1) simp_all
  have i: "de_accruedInterestUSD (calculateDelinquencyFees r t) =
      (if days t \<le> or_gracePeriodDays r then 0 else toFixed 2 (dmul x (of_int (days t - or_gracePeriodDays r))))" for t
    by (simp add: calculateDelinquencyFees_def Let_def days_def [symmetric] x_def)
  show ?thesis
  proof (cases "days a \<le> or_gracePeriodDays r")
    case True
    then show ?thesis using x by (auto simp: i simp del: of_int_diff intro!: toFixed_nonneg dmul_nonneg)
  next
    case False
    then have "toFixed 2 (dmul x (of_int (days a - or_gracePeriodDays r))) \<le> toFixed 2 (dmul x (of_int (days b - or_gracePeriodDays r)))"
      using d x by (intro toFixed_mono dmul_mono_right dmul_nonneg) simp_all
    then show ?thesis using False d by (simp add: i)
  qed
qed

datatype markup_method = COST_PLUS | RESALE_MINUS | TRANSACTIONAL_NET_MARGIN

record IIntercompanyTransfer =
  ic_transactionId :: string
  ic_fromLegalEntityId :: string
  ic_fromCountryIso :: string
  ic_toLegalEntityId :: string
  ic_toCountryIso :: string
  ic_directCostOfGoodsUSD :: rat
  ic_freightAndInsuranceUSD :: rat
  ic_markupMethod :: markup_method
  ic_markupPercentage :: rat

record transfer_price =
  tp_transferPriceUSD :: rat
  tp_grossMarginUSD :: rat
  tp_vatExempt :: bool

definition calculateTransferPrice :: "IIntercompanyTransfer \<Rightarrow> transfer_price" where
  "calculateTransferPrice tx =
     (let base = dadd (ic_directCostOfGoodsUSD tx) (ic_freightAndInsuranceUSD tx);
          markup = (if ic_markupMethod tx = COST_PLUS then toFixed 2 (dmul base (ddiv (ic_markupPercentage tx) 100))
                    else toFixed 2 (dmul base (fl (8 / 100))))
      in \<lparr> tp_transferPriceUSD = toFixed 2 (dadd base markup), tp_grossMarginUSD = markup,
           tp_vatExempt = (ic_fromCountryIso tx \<noteq> ic_toCountryIso tx) \<rparr>)"

lemma markup_ignored:
  assumes "ic_markupMethod tx \<noteq> COST_PLUS"
  shows "calculateTransferPrice (tx\<lparr> ic_markupPercentage := p \<rparr>) = calculateTransferPrice tx"
  using assms by (simp add: calculateTransferPrice_def Let_def)

section \<open>Nexus and sales tax\<close>

datatype sourcing_rule = DESTINATION_BASED | ORIGIN_BASED

record IStateNexusRule =
  nx_stateIso :: string
  nx_stateName :: string
  nx_sourcingRule :: sourcing_rule
  nx_annualSalesThresholdUSD :: rat
  nx_transactionCountThreshold :: int
  nx_hasMarketplaceFacilitatorLaw :: bool
  nx_localTaxJurisdictionsCount :: nat
  nx_standardCombinedRatePct :: rat

definition nexus_row :: "string \<Rightarrow> string \<Rightarrow> sourcing_rule \<Rightarrow> rat \<Rightarrow> int \<Rightarrow> nat \<Rightarrow> rat \<Rightarrow> string \<times> IStateNexusRule" where
  "nexus_row s name rule sales transactions n rate =
     (s, \<lparr> nx_stateIso = s, nx_stateName = name, nx_sourcingRule = rule, nx_annualSalesThresholdUSD = sales,
           nx_transactionCountThreshold = transactions, nx_hasMarketplaceFacilitatorLaw = True, nx_localTaxJurisdictionsCount = n,
           nx_standardCombinedRatePct = fl rate \<rparr>)"

definition seedStateTaxMatrix :: "(string, IStateNexusRule) jsmap" where
  "seedStateTaxMatrix =
     [nexus_row ''AL'' ''Alabama'' DESTINATION_BASED 250000 0 340 (924 / 100),
      nexus_row ''AK'' ''Alaska'' DESTINATION_BASED 100000 200 110 (176 / 100),
      nexus_row ''AZ'' ''Arizona'' DESTINATION_BASED 100000 0 95 (840 / 100),
      nexus_row ''AR'' ''Arkansas'' DESTINATION_BASED 100000 200 220 (947 / 100),
      nexus_row ''CA'' ''California'' DESTINATION_BASED 500000 0 480 (885 / 100),
      nexus_row ''CO'' ''Colorado'' DESTINATION_BASED 100000 0 300 (777 / 100),
      nexus_row ''FL'' ''Florida'' DESTINATION_BASED 100000 0 67 (702 / 100),
      nexus_row ''GA'' ''Georgia'' DESTINATION_BASED 100000 200 159 (737 / 100),
      nexus_row ''IL'' ''Illinois'' ORIGIN_BASED 100000 200 1200 (881 / 100),
      nexus_row ''NY'' ''New York'' DESTINATION_BASED 500000 100 85 (852 / 100),
      nexus_row ''TX'' ''Texas'' ORIGIN_BASED 500000 0 1500 (820 / 100),
      nexus_row ''WA'' ''Washington'' DESTINATION_BASED 100000 0 320 (929 / 100)]"

definition checkNexusTriggered :: "string \<Rightarrow> rat \<Rightarrow> int \<Rightarrow> bool" where
  "checkNexusTriggered stateIso sales transactions =
     (case jm_get seedStateTaxMatrix (to_upper stateIso) of
        None \<Rightarrow> False
      | Some r \<Rightarrow> nx_annualSalesThresholdUSD r \<le> sales \<or>
                  0 < nx_transactionCountThreshold r \<and> nx_transactionCountThreshold r \<le> transactions)"

definition getTaxRule :: "string \<Rightarrow> IStateNexusRule option" where
  "getTaxRule stateIso = jm_get seedStateTaxMatrix (to_upper stateIso)"

text \<open>Nexus once triggered is kept by more sales and transactions, and half a million in sales triggers it in every
  state of the table.\<close>

lemma nexus_monotone:
  "s \<le> s' \<Longrightarrow> t \<le> t' \<Longrightarrow> checkNexusTriggered i s t \<Longrightarrow> checkNexusTriggered i s' t'"
  by (auto simp: checkNexusTriggered_def split: option.splits)

lemma nexus_by_sales:
  assumes "getTaxRule i = Some r" and "500000 \<le> s"
  shows "checkNexusTriggered i s t"
proof -
  have "list_all (\<lambda>(k, r). nx_annualSalesThresholdUSD r \<le> 500000) seedStateTaxMatrix"
    by (simp add: seedStateTaxMatrix_def nexus_row_def)
  then have "nx_annualSalesThresholdUSD r \<le> 500000"
    using assms(1) map_of_SomeD [of seedStateTaxMatrix "to_upper i" r] by (auto simp: list_all_iff getTaxRule_def)
  with assms show ?thesis by (simp add: checkNexusTriggered_def getTaxRule_def)
qed

record ITaxJurisdictionRule =
  tj_stateCode :: string
  tj_stateTaxRate :: rat
  tj_countyTaxRate :: rat
  tj_municipalTaxRate :: rat
  tj_economicNexusThresholdUSD :: rat
  tj_economicNexusTransactionsCount :: int

definition jurisdiction_rule :: "string \<Rightarrow> rat \<Rightarrow> rat \<Rightarrow> rat \<Rightarrow> rat \<Rightarrow> int \<Rightarrow> ITaxJurisdictionRule" where
  "jurisdiction_rule s state county municipal threshold transactions =
     \<lparr> tj_stateCode = s, tj_stateTaxRate = fl state, tj_countyTaxRate = fl county, tj_municipalTaxRate = fl municipal,
       tj_economicNexusThresholdUSD = threshold, tj_economicNexusTransactionsCount = transactions \<rparr>"

definition jurisdiction_rules :: "(string, ITaxJurisdictionRule) jsmap" where
  "jurisdiction_rules =
     [(''CA'', jurisdiction_rule ''CA'' (725 / 10000) (125 / 10000) (5 / 1000) 500000 200),
      (''TX'', jurisdiction_rule ''TX'' (625 / 10000) (15 / 1000) (5 / 1000) 500000 0),
      (''NY'', jurisdiction_rule ''NY'' (4 / 100) (45 / 1000) (375 / 100000) 500000 100),
      (''IL'', jurisdiction_rule ''IL'' (625 / 10000) (175 / 10000) (125 / 10000) 100000 200)]"

record sales_tax =
  sx_totalTaxAmountUSD :: rat
  sx_stateTax :: rat
  sx_countyTax :: rat
  sx_municipalTax :: rat
  sx_effectiveRatePct :: rat

definition calculateSalesTax :: "string \<Rightarrow> rat \<Rightarrow> sales_tax" where
  "calculateSalesTax stateCode amount =
     (let rule = (case jm_get jurisdiction_rules (to_upper stateCode) of Some r \<Rightarrow> r
                  | None \<Rightarrow> jurisdiction_rule stateCode (5 / 100) (1 / 100) 0 100000 200);
          stateTax = toFixed 2 (dmul amount (tj_stateTaxRate rule));
          countyTax = toFixed 2 (dmul amount (tj_countyTaxRate rule));
          municipalTax = toFixed 2 (dmul amount (tj_municipalTaxRate rule))
      in \<lparr> sx_totalTaxAmountUSD = toFixed 2 (dadd (dadd stateTax countyTax) municipalTax), sx_stateTax = stateTax,
           sx_countyTax = countyTax, sx_municipalTax = municipalTax,
           sx_effectiveRatePct =
             toFixed 3 (dmul (dadd (dadd (tj_stateTaxRate rule) (tj_countyTaxRate rule)) (tj_municipalTaxRate rule)) 100) \<rparr>)"

section \<open>Customs duties\<close>

record IHsCodeTariff =
  hs_hsChapter :: string
  hs_hsHeading :: string
  hs_countryOfOriginIso :: string
  hs_destinationCountryIso :: string
  hs_adValoremDutyRatePct :: rat
  hs_specificDutyPerKgUSD :: rat
  hs_antiDumpingRatePct :: rat
  hs_exciseTaxRatePct :: rat

type_synonym tariffTable = "(string, IHsCodeTariff) jsmap"

definition tariff_key :: "string \<Rightarrow> string \<Rightarrow> string \<Rightarrow> string" where
  "tariff_key heading origin dest = heading @ ''_'' @ origin @ ''_'' @ dest"

definition registerTariff :: "IHsCodeTariff \<Rightarrow> tariffTable \<Rightarrow> tariffTable" where
  "registerTariff t m = jm_set (tariff_key (hs_hsHeading t) (hs_countryOfOriginIso t) (hs_destinationCountryIso t)) t m"

definition tariff_row :: "string \<Rightarrow> string \<Rightarrow> string \<Rightarrow> string \<Rightarrow> rat \<Rightarrow> rat \<Rightarrow> IHsCodeTariff" where
  "tariff_row chapter heading origin dest adValorem specific =
     \<lparr> hs_hsChapter = chapter, hs_hsHeading = heading, hs_countryOfOriginIso = origin, hs_destinationCountryIso = dest,
       hs_adValoremDutyRatePct = fl adValorem, hs_specificDutyPerKgUSD = fl specific, hs_antiDumpingRatePct = 0,
       hs_exciseTaxRatePct = 0 \<rparr>"

definition initial_tariffs :: tariffTable where
  "initial_tariffs =
     registerTariff (tariff_row ''87'' ''8708.29'' ''DE'' ''US'' (35 / 1000) (15 / 100))
       (registerTariff (tariff_row ''84'' ''8471.30'' ''CN'' ''US'' (25 / 1000) 0) [])"

record customs_duty =
  cd_totalDutyUSD :: rat
  cd_adValoremDutyUSD :: rat
  cd_specificDutyUSD :: rat
  cd_effectiveDutyRatePct :: rat

definition calculateLandedCustomsDuty :: "string \<Rightarrow> string \<Rightarrow> string \<Rightarrow> rat \<Rightarrow> rat \<Rightarrow> tariffTable \<Rightarrow> customs_duty" where
  "calculateLandedCustomsDuty heading origin dest cif weight m =
     (let tariff = (case jm_get m (tariff_key heading origin dest) of Some t \<Rightarrow> t
                    | None \<Rightarrow> tariff_row (take 2 heading) heading origin dest (45 / 1000) (5 / 100));
          adValorem = toFixed 2 (dmul cif (hs_adValoremDutyRatePct tariff));
          specific = toFixed 2 (dmul weight (hs_specificDutyPerKgUSD tariff));
          totalDuty = toFixed 2 (dadd adValorem specific)
      in \<lparr> cd_totalDutyUSD = totalDuty, cd_adValoremDutyUSD = adValorem, cd_specificDutyUSD = specific,
           cd_effectiveDutyRatePct = (if 0 < cif then toFixed 2 (dmul (ddiv totalDuty cif) 100) else 0) \<rparr>)"

text \<open>A domestic consignment pays the baseline duty, and anti-dumping and excise rates are never charged.\<close>

lemma anti_dumping_ignored:
  "calculateLandedCustomsDuty h o1 d v w (registerTariff (t\<lparr> hs_antiDumpingRatePct := a, hs_exciseTaxRatePct := e \<rparr>) m) =
   calculateLandedCustomsDuty h o1 d v w (registerTariff t m)"
  by (simp add: calculateLandedCustomsDuty_def registerTariff_def)

lemma duty_monotone:
  assumes "0 \<le> v" and "v \<le> v'" and "0 \<le> w"
    and "list_all (\<lambda>t. 0 \<le> hs_adValoremDutyRatePct t \<and> 0 \<le> hs_specificDutyPerKgUSD t) (jm_values m)"
  shows "cd_totalDutyUSD (calculateLandedCustomsDuty h o1 d v w m) \<le> cd_totalDutyUSD (calculateLandedCustomsDuty h o1 d v' w m)"
proof -
  define t where "t = (case jm_get m (tariff_key h o1 d) of Some t \<Rightarrow> t | None \<Rightarrow> tariff_row (take 2 h) h o1 d (45 / 1000) (5 / 100))"
  have "0 \<le> hs_adValoremDutyRatePct t \<and> 0 \<le> hs_specificDutyPerKgUSD t"
    using assms(4) jm_get_value [of m "tariff_key h o1 d"]
    by (auto simp: t_def tariff_row_def fl_nonneg list_all_iff split: option.split)
  then have "toFixed 2 (dadd (toFixed 2 (dmul v (hs_adValoremDutyRatePct t))) (toFixed 2 (dmul w (hs_specificDutyPerKgUSD t)))) \<le>
      toFixed 2 (dadd (toFixed 2 (dmul v' (hs_adValoremDutyRatePct t))) (toFixed 2 (dmul w (hs_specificDutyPerKgUSD t))))"
    using assms by (auto simp: dadd_def intro!: toFixed_mono fl_mono fl_nonneg add_nonneg_nonneg toFixed_nonneg dmul_nonneg dmul_mono_left)
  then show ?thesis by (simp add: calculateLandedCustomsDuty_def Let_def t_def)
qed

end
