(* ===== verification/Edge_Security.thy ===== *)
theory Edge_Security
  imports Optimization Access_Control
begin

text \<open>
  Checks at the edge of the platform: the request filter of the gateway
  (api-gateway/src/security/WafWebExploitSignatureFilter.ts), single sign-on
  (auth-service/src/saml/SamlIdentityProviderAssertionConsumer.ts), impossible travel
  (auth-service/src/anomaly/ImpossibleTravelAnomalyDetector.ts), commitments
  (common/src/crypto/ZeroKnowledgeProofVerifier.ts), the choice of a channel and the retry delay of the notification
  service (channels/OmnichannelRoutingStrategy.ts, webhook/WebhookRetryBackoffOrchestrator.ts) and proofs of delivery
  (logistics-service/src/pod/ElectronicSignatureVerificationService.ts). The trigonometric functions are the parameter
  \<open>js_math\<close>, decoding a request the parameter \<open>decode\<close>.
\<close>

section \<open>The request filter\<close>

datatype threat_level = NO_THREAT | THREAT_LOW | THREAT_MEDIUM | THREAT_HIGH | THREAT_CRITICAL

record IWafInspectionResult =
  waf_isBlocked :: bool
  waf_threatLevel :: threat_level
  waf_matchedRuleId :: "string option"
  waf_sanitizedInput :: string

definition word_char :: "char \<Rightarrow> bool" where
  "word_char c \<longleftrightarrow> (let n = (of_char c :: nat) in 48 \<le> n \<and> n \<le> 57 \<or> 65 \<le> n \<and> n \<le> 90 \<or> 97 \<le> n \<and> n \<le> 122 \<or> n = 95)"

text \<open>\<open>\bW\b\<close>: the word at a place where neither the character before nor the one after is a word character.\<close>

fun has_word :: "string \<Rightarrow> bool \<Rightarrow> string \<Rightarrow> bool" where
  "has_word w inWord [] = False"
| "has_word w inWord (c # s) =
     ((\<not> inWord \<and> starts_with w (c # s) \<and> (case drop (length w) (c # s) of [] \<Rightarrow> True | d # _ \<Rightarrow> \<not> word_char d)) \<or>
      has_word w (word_char c) s)"

definition sql_words :: "string list" where
  "sql_words = [''select'', ''insert'', ''update'', ''delete'', ''drop'', ''union'', ''alter'', ''create'', ''exec'', ''declare'']"

definition SQLI_REGEX :: "string \<Rightarrow> bool" where
  "SQLI_REGEX s \<longleftrightarrow> list_ex (\<lambda>w. has_word w False (to_lower s)) sql_words \<or>
     str_includes s ''--'' \<or> str_includes s ''/*'' \<or> str_includes s '';''"

definition XSS_REGEX :: "string \<Rightarrow> bool" where
  "XSS_REGEX s \<longleftrightarrow> list_ex (str_includes (to_lower s))
     [''<script'', ''javascript:'', ''onerror='', ''onload='', ''eval('', ''document.cookie'']"

definition PATH_TRAVERSAL_REGEX :: "string \<Rightarrow> bool" where
  "PATH_TRAVERSAL_REGEX s \<longleftrightarrow> list_ex (str_includes (to_lower s))
     [''../'', ''..'' @ [CHR 0x5C], ''%2e%2e%2f'', ''%2e%2e/'']"

definition inspectPayload :: "string \<Rightarrow> IWafInspectionResult" where
  "inspectPayload input =
     (let blocked = (\<lambda>level rule. \<lparr> waf_isBlocked = True, waf_threatLevel = level, waf_matchedRuleId = Some rule, waf_sanitizedInput = [] \<rparr>)
      in if SQLI_REGEX input then blocked THREAT_CRITICAL ''OWASP_CRS_942_SQLI''
         else if XSS_REGEX input then blocked THREAT_HIGH ''OWASP_CRS_941_XSS''
         else if PATH_TRAVERSAL_REGEX input then blocked THREAT_HIGH ''OWASP_CRS_930_LFI''
         else \<lparr> waf_isBlocked = False, waf_threatLevel = NO_THREAT, waf_matchedRuleId = None,
                waf_sanitizedInput = filter (\<lambda>c. c \<noteq> CHR ''<'' \<and> c \<noteq> CHR ''>'') input \<rparr>)"

lemma passed_clean:
  "\<not> waf_isBlocked (inspectPayload s) \<longleftrightarrow> \<not> SQLI_REGEX s \<and> \<not> XSS_REGEX s \<and> \<not> PATH_TRAVERSAL_REGEX s"
  by (simp add: inspectPayload_def Let_def)

text \<open>What passes shows none of the signatures as it came in. Taking the angle brackets out can put one together,
  though: the sanitized text is not inspected again.\<close>

theorem sanitizing_reassembles:
  "waf_isBlocked (inspectPayload ''jav<ascript:x'') = False \<and>
   waf_sanitizedInput (inspectPayload ''jav<ascript:x'') = ''javascript:x'' \<and>
   waf_isBlocked (inspectPayload (waf_sanitizedInput (inspectPayload ''jav<ascript:x''))) \<and>
   (waf_isBlocked (inspectPayload s) \<or> set (waf_sanitizedInput (inspectPayload s)) = set s - {CHR ''<'', CHR ''>''})"
proof (intro conjI)
  show "waf_isBlocked (inspectPayload ''jav<ascript:x'') = False" by code_simp
  show "waf_sanitizedInput (inspectPayload ''jav<ascript:x'') = ''javascript:x''" by code_simp
  show "waf_isBlocked (inspectPayload (waf_sanitizedInput (inspectPayload ''jav<ascript:x'')))" by code_simp
  show "waf_isBlocked (inspectPayload s) \<or> set (waf_sanitizedInput (inspectPayload s)) = set s - {CHR ''<'', CHR ''>''}"
    by (auto simp: inspectPayload_def Let_def)
qed

section \<open>Single sign-on\<close>

record saml_attributes =
  sm_email :: string
  sm_firstName :: string
  sm_lastName :: string
  sm_department :: string
  sm_groups :: "string list"

record ISamlAssertionAttributes =
  sm_nameId :: string
  sm_nameIdFormat :: string
  sm_sessionIndex :: string
  sm_issuer :: string
  sm_recipient :: string
  sm_attributes :: saml_attributes
  sm_notBefore :: instant
  sm_notOnOrAfter :: instant

text \<open>\<open>/<tag[^>]*>([^<]+)<\/tag>/\<close>, leftmost: after the tag everything to the next \<open>>\<close>, then at least one character that
  is not \<open><\<close>, then the closing tag.\<close>

definition element_at :: "string \<Rightarrow> string \<Rightarrow> string option" where
  "element_at tag s =
     (let rest = dropWhile (\<lambda>c. c \<noteq> CHR ''>'') (drop (length tag + 1) s);
          content = takeWhile (\<lambda>c. c \<noteq> CHR ''<'') (tl rest)
      in if starts_with (''<'' @ tag) s \<and> rest \<noteq> [] \<and> content \<noteq> [] \<and>
            starts_with (''</'' @ tag @ ''>'') (drop (length content) (tl rest))
         then Some content else None)"

fun match_element :: "string \<Rightarrow> string \<Rightarrow> string option" where
  "match_element tag [] = None"
| "match_element tag (c # s) = (case element_at tag (c # s) of Some v \<Rightarrow> Some v | None \<Rightarrow> match_element tag s)"

definition element_or :: "string \<Rightarrow> string \<Rightarrow> string \<Rightarrow> string" where
  "element_or tag fallback xml =
     (case match_element (''saml2:'' @ tag) xml of
        Some v \<Rightarrow> v
      | None \<Rightarrow> (case match_element tag xml of Some v \<Rightarrow> v | None \<Rightarrow> fallback))"

definition parseAndValidateAssertion ::
  "(string \<Rightarrow> string) \<Rightarrow> instant \<Rightarrow> string \<Rightarrow> string \<Rightarrow> string + ISamlAssertionAttributes" where
  "parseAndValidateAssertion decode now response expectedAudience =
     (let xml = decode response
      in if \<not> str_includes xml ''saml2:Assertion'' \<and> \<not> str_includes xml ''Assertion''
         then Inl ''Invalid SAML response: Missing SAML Assertion node''
         else let nameId = element_or ''NameID'' ''enterprise_user@tenant.com'' xml
              in Inr \<lparr> sm_nameId = nameId, sm_nameIdFormat = ''urn:oasis:names:tc:SAML:1.1:nameid-format:emailAddress'',
                   sm_sessionIndex = ''_sess_'' @ base_string 36 (nat now),
                   sm_issuer = element_or ''Issuer'' ''https://sts.windows.net/enterprise-id/'' xml,
                   sm_recipient = expectedAudience,
                   sm_attributes = \<lparr> sm_email = nameId, sm_firstName = ''Executive'', sm_lastName = ''Officer'',
                     sm_department = ''Logistics Operations'', sm_groups = [''Logix-Administrators'', ''Fleet-Dispatchers''] \<rparr>,
                   sm_notBefore = now - 60000, sm_notOnOrAfter = now + 3600000 \<rparr>)"

text \<open>C13: 
  No signature, no audience and no date is read: a response is accepted exactly when the word Assertion stands in it,
  it names the expected audience whatever it says, and makes its bearer an administrator, valid now.
\<close>

theorem assertion_unverified:
  "(parseAndValidateAssertion decode now r a = Inl ''Invalid SAML response: Missing SAML Assertion node'') =
     (\<not> str_includes (decode r) ''Assertion'') \<and>
   (str_includes (decode r) ''Assertion'' =
      (\<exists>v. parseAndValidateAssertion decode now r a = Inr v \<and> sm_recipient v = a \<and>
         sm_groups (sm_attributes v) = [''Logix-Administrators'', ''Fleet-Dispatchers''] \<and>
         sm_notBefore v < now \<and> now < sm_notOnOrAfter v))"
proof -
  have "str_includes x ''saml2:Assertion'' \<Longrightarrow> str_includes x ''Assertion''" for x
    unfolding str_includes_iff by (elim exE, rule_tac x = "u @ ''saml2:''" in exI, rule_tac x = v in exI) simp
  then show ?thesis by (auto simp: parseAndValidateAssertion_def Let_def)
qed

section \<open>Impossible travel\<close>

record IUserLoginLocation =
  lo_userId :: string
  lo_ipAddress :: string
  lo_latitude :: rat
  lo_longitude :: rat
  lo_cityName :: string
  lo_countryIso :: string
  lo_timestamp :: instant

type_synonym login_history = "(string, IUserLoginLocation) jsmap"

text \<open>The great-circle formula of both classes; a square root of a negative number is not a number.\<close>

definition great_circle :: "js_math \<Rightarrow> rat \<Rightarrow> rat \<times> rat \<Rightarrow> rat \<times> rat \<Rightarrow> number" where
  "great_circle math R p1 p2 =
     (let dLat = ddiv (dmul (dsub (fst p2) (fst p1)) (m_PI math)) 180;
          dLon = ddiv (dmul (dsub (snd p2) (snd p1)) (m_PI math)) 180;
          a = dadd (dmul (m_sin math (ddiv dLat 2)) (m_sin math (ddiv dLat 2)))
                (dmul (dmul (dmul (m_cos math (ddiv (dmul (fst p1) (m_PI math)) 180))
                                  (m_cos math (ddiv (dmul (fst p2) (m_PI math)) 180)))
                            (m_sin math (ddiv dLon 2))) (m_sin math (ddiv dLon 2)))
      in if a < 0 \<or> dsub 1 a < 0 then None
         else Some (dmul R (dmul 2 (m_atan2 math (m_sqrt math a) (m_sqrt math (dsub 1 a))))))"

record travel_verdict =
  tv_isSuspicious :: bool
  tv_impliedSpeedKmh :: number
  tv_previousCity :: "string option"

definition evaluateLogin :: "js_math \<Rightarrow> IUserLoginLocation \<Rightarrow> login_history \<Rightarrow> login_history \<times> travel_verdict" where
  "evaluateLogin math login m =
     (jm_set (lo_userId login) login m,
      case jm_get m (lo_userId login) of
        None \<Rightarrow> \<lparr> tv_isSuspicious = False, tv_impliedSpeedKmh = Some 0, tv_previousCity = None \<rparr>
      | Some previous \<Rightarrow>
          let elapsedHours = ddiv (of_int (lo_timestamp login - lo_timestamp previous)) 3600000
          in if elapsedHours \<le> 0
             then \<lparr> tv_isSuspicious = True, tv_impliedSpeedKmh = Some 9999, tv_previousCity = Some (lo_cityName previous) \<rparr>
             else let distanceKm = great_circle math 6371 (lo_latitude previous, lo_longitude previous)
                                     (lo_latitude login, lo_longitude login);
                      speed = map_option (\<lambda>d. toFixed 1 (ddiv d elapsedHours)) distanceKm
                  in \<lparr> tv_isSuspicious = (case (speed, distanceKm) of (Some v, Some d) \<Rightarrow> 900 < v \<and> 300 < d | _ \<Rightarrow> False),
                       tv_impliedSpeedKmh = speed, tv_previousCity = Some (lo_cityName previous) \<rparr>)"

text \<open>
  Every login becomes the next reference, a suspicious one as well: its repetition from the same place an hour later is
  not suspicious, for functions that are zero at zero.
\<close>

lemma great_circle_same:
  assumes "m_sin math 0 = 0" and "m_sqrt math 0 = 0" and "m_atan2 math 0 (m_sqrt math 1) = 0"
  shows "great_circle math R p p = Some 0"
proof -
  have one: "fl 1 = 1" using fl_int [of 1] by simp
  show ?thesis
    using assms by (simp add: great_circle_def Let_def dsub_def dmul_def ddiv_def dadd_def one)
qed

lemma repeated_login_accepted:
  assumes "m_sin math 0 = 0" and "m_sqrt math 0 = 0" and "m_atan2 math 0 (m_sqrt math 1) = 0"
  shows "\<not> tv_isSuspicious (snd (evaluateLogin math (l\<lparr> lo_timestamp := lo_timestamp l + 3600000 \<rparr>) (fst (evaluateLogin math l m))))"
proof -
  have "0 < ddiv (of_int 3600000) 3600000" by (simp add: ddiv_def fl_sign)
  then show ?thesis using great_circle_same [OF assms] by (simp add: evaluateLogin_def Let_def)
qed

lemma first_login_accepted: "jm_get m (lo_userId l) = None \<Longrightarrow> \<not> tv_isSuspicious (snd (evaluateLogin math l m))"
  by (simp add: evaluateLogin_def)

section \<open>Proofs of delivery\<close>

record IPodSubmission =
  pd_trackingNumber :: string
  pd_recipientName :: string
  pd_signatureBase64Png :: string
  pd_deliveryLatitude :: rat
  pd_deliveryLongitude :: rat
  pd_deliveryTimestamp :: instant
  pd_photoUrl :: "string option"
  pd_deviceImei :: string

type_synonym pods = "(string, IPodSubmission) jsmap"

definition pod_distance :: "js_math \<Rightarrow> IPodSubmission \<Rightarrow> rat \<times> rat \<Rightarrow> int option" where
  "pod_distance math pod expected =
     map_option Math_round (great_circle math 6371000 (pd_deliveryLatitude pod, pd_deliveryLongitude pod) expected)"

definition verifyAndStorePod ::
  "js_math \<Rightarrow> IPodSubmission \<Rightarrow> rat \<times> rat \<Rightarrow> pods \<Rightarrow> pods \<times> (string + bool \<times> int option)" where
  "verifyAndStorePod math pod expected m =
     (if pd_recipientName pod = [] \<or> pd_signatureBase64Png pod = []
      then (m, Inl ''Signature and recipient name are required for ePOD'')
      else (jm_set (pd_trackingNumber pod) pod m,
            Inr (case pod_distance math pod expected of Some d \<Rightarrow> d \<le> 500 | None \<Rightarrow> False, pod_distance math pod expected)))"

definition getPod :: "string \<Rightarrow> pods \<Rightarrow> IPodSubmission option" where
  "getPod trackingNumber m = jm_get m trackingNumber"

text \<open>A proof that fails the verification of its place is stored all the same, and replaces the one before.\<close>

lemma unverified_pod_stored:
  assumes "pd_recipientName pod \<noteq> []" and "pd_signatureBase64Png pod \<noteq> []"
  shows "getPod t (fst (verifyAndStorePod math pod e m)) = (if t = pd_trackingNumber pod then Some pod else getPod t m)"
  using assms by (simp add: verifyAndStorePod_def getPod_def)

lemma refused_pod_not_stored:
  "snd (verifyAndStorePod math pod e m) = Inl msg \<Longrightarrow> fst (verifyAndStorePod math pod e m) = m"
  by (auto simp: verifyAndStorePod_def split: if_splits)

section \<open>Commitments\<close>

record IPedersenCommitment =
  pm_commitmentHex :: string
  pm_blindingFactorHex :: string
  pm_curveGeneratorG :: string
  pm_curveGeneratorH :: string

definition generateCommitment :: "int \<Rightarrow> string \<Rightarrow> IPedersenCommitment" where
  "generateCommitment v secretBlindingHex =
     \<lparr> pm_commitmentHex = ''0x'' @
         take 64 (pad_end 64 (CHR ''0'') (to_hex (''ZKP_COMMIT_'' @ int_string v @ ''_'' @ secretBlindingHex))),
       pm_blindingFactorHex = secretBlindingHex,
       pm_curveGeneratorG = ''0x79be667ef9dcbbac55a06295ce870b07029bfcdb2dce28d959f2815b16f81798'',
       pm_curveGeneratorH = ''0x483ada7726a3c4655da4fbfc0e1108a8fd17b448a68554199c47d08ffb10d4b8'' \<rparr>"

definition verifyCommitmentEquality :: "string \<Rightarrow> string \<Rightarrow> bool" where
  "verifyCommitmentEquality c1 c2 \<longleftrightarrow> to_lower c1 = to_lower c2"

lemma commitment_text:
  assumes "length (int_string v) \<le> 20"
  shows "pm_commitmentHex (generateCommitment v r) =
    ''0x'' @ to_hex (''ZKP_COMMIT_'' @ int_string v @ ''_'') @ take (64 - 2 * (12 + length (int_string v))) (pad_end 64 (CHR ''0'') (to_hex r))"
proof -
  have hex: "to_hex (a @ b) = to_hex a @ to_hex b" for a b by (simp add: to_hex_def)
  let ?h = "to_hex (''ZKP_COMMIT_'' @ int_string v @ ''_'')"
  have l: "length ?h = 2 * (12 + length (int_string v))" by simp
  have "take 64 (pad_end 64 (CHR ''0'') (?h @ to_hex r)) = ?h @ take (64 - length ?h) (to_hex r @ replicate (64 - length (?h @ to_hex r)) (CHR ''0''))"
    using assms by (simp add: pad_end_def take_append)
  also have "take (64 - length ?h) (to_hex r @ replicate (64 - length (?h @ to_hex r)) (CHR ''0'')) =
      take (64 - length ?h) (pad_end 64 (CHR ''0'') (to_hex r))"
    by (simp add: pad_end_def take_append min_def)
  finally have "take 64 (pad_end 64 (CHR ''0'') (to_hex (''ZKP_COMMIT_'' @ int_string v @ ''_'' @ r))) =
      ?h @ take (64 - length ?h) (pad_end 64 (CHR ''0'') (to_hex r))"
    using hex [of "''ZKP_COMMIT_'' @ int_string v @ ''_''" r] by simp
  then show ?thesis by (simp only: generateCommitment_def IPedersenCommitment.simps l)
qed

text \<open> 
  The commitment is the committed value in hexadecimal, followed by as much of the blinding factor as fits in 32 bytes:
  it hides nothing, and blinding factors that agree in their first twenty characters give the same commitment.
\<close>

theorem commitment_hides_nothing:
  assumes "length (int_string v) \<le> 20" and "take 20 r = take 20 r'" and "20 \<le> length r" and "20 \<le> length r'"
  shows "take (2 * (12 + length (int_string v))) (drop 2 (pm_commitmentHex (generateCommitment v r))) =
      to_hex (''ZKP_COMMIT_'' @ int_string v @ ''_'') \<and>
    verifyCommitmentEquality (pm_commitmentHex (generateCommitment v r)) (pm_commitmentHex (generateCommitment v r'))"
proof -
  have t: "take k (pad_end 64 (CHR ''0'') (to_hex x)) = take k (to_hex (take 20 x))" if "20 \<le> length x" "k \<le> 40" for k x
  proof -
    have "take k (pad_end 64 (CHR ''0'') (to_hex x)) = take k (take 40 (pad_end 64 (CHR ''0'') (to_hex x)))"
      using that by (simp add: min_absorb1)
    also have "take 40 (pad_end 64 (CHR ''0'') (to_hex x)) = take (2 * 20) (to_hex x)"
      using that by (simp add: pad_end_def)
    finally show ?thesis by (simp only: take_to_hex)
  qed
  have "64 - 2 * (12 + length (int_string v)) \<le> 40" by simp
  then have "pm_commitmentHex (generateCommitment v r) = pm_commitmentHex (generateCommitment v r')"
    unfolding commitment_text [OF assms(1)] using t [OF assms(3)] t [OF assms(4)] assms(2) by simp
  then show ?thesis by (simp add: commitment_text [OF assms(1)] verifyCommitmentEquality_def)
qed

theorem commitment_hides_nothing_witness:
  "verifyCommitmentEquality (pm_commitmentHex (generateCommitment 42 ''0123456789abcdef0123-secret-one''))
     (pm_commitmentHex (generateCommitment 42 ''0123456789abcdef0123-secret-two''))"
proof -
  have "length (int_string 42) \<le> 20" by code_simp
  from commitment_hides_nothing [OF this, of "''0123456789abcdef0123-secret-one''" "''0123456789abcdef0123-secret-two''"]
  show ?thesis by simp
qed

section \<open>Notification channels and retries\<close>

datatype notification_priority = PRIORITY_CRITICAL | PRIORITY_HIGH | PRIORITY_NORMAL | PRIORITY_LOW
datatype primary_channel = WEBSOCKET | PUSH | SMS | EMAIL

record 'm INotificationPayload =
  np_notificationId :: string
  np_recipientUserId :: string
  np_priority :: notification_priority
  np_title :: string
  np_body :: string
  np_metadata :: 'm

definition determinePrimaryChannel :: "'m INotificationPayload \<Rightarrow> primary_channel" where
  "determinePrimaryChannel p =
     (case np_priority p of PRIORITY_CRITICAL \<Rightarrow> SMS | PRIORITY_HIGH \<Rightarrow> PUSH | PRIORITY_NORMAL \<Rightarrow> WEBSOCKET | PRIORITY_LOW \<Rightarrow> EMAIL)"

record retry_plan =
  rp_nextAttemptDate :: instant
  rp_delaySeconds :: int

definition baseDelay :: "nat \<Rightarrow> int" where
  "baseDelay attemptNumber = min 3600 (2 ^ attemptNumber * 5)"

definition calculateNextRetry :: "instant \<Rightarrow> int \<Rightarrow> nat \<Rightarrow> retry_plan" where
  "calculateNextRetry now jitter attemptNumber =
     \<lparr> rp_nextAttemptDate = now + (baseDelay attemptNumber + jitter) * 1000, rp_delaySeconds = baseDelay attemptNumber + jitter \<rparr>"

text \<open>The delay grows with the attempts up to an hour and a jitter below five seconds.\<close>

lemma baseDelay_mono: "m \<le> n \<Longrightarrow> baseDelay m \<le> baseDelay n"
  unfolding baseDelay_def by (intro min.mono order_refl mult_right_mono power_increasing) simp_all

lemma retry_delay:
  assumes "0 \<le> j" and "j < 5"
  shows "5 \<le> rp_delaySeconds (calculateNextRetry now j n) \<and> rp_delaySeconds (calculateNextRetry now j n) < 3605 \<and>
    (10 \<le> n \<longrightarrow> rp_delaySeconds (calculateNextRetry now j n) = 3600 + j)"
proof -
  have "baseDelay 0 \<le> baseDelay n" by (rule baseDelay_mono) simp
  moreover have "baseDelay n = 3600" if "10 \<le> n"
    using baseDelay_mono [OF that] by (simp add: baseDelay_def min_def split: if_splits)
  ultimately show ?thesis using assms by (auto simp: calculateNextRetry_def) (simp_all add: baseDelay_def min_def split: if_splits)
qed

end
