(* ===== verification/Reference_Tables.thy ===== *)
theory Reference_Tables
  imports Optimization
begin

text \<open>
  The reference tables of the services. Each is a class with a private map, filled by its constructor from literal rows,
  one \<open>set\<close> of a record under its own identifier per line, and a lookup. The rows of a table differ from line to line by
  a regular pattern in the number of the group (state, sector, currency) and the number within the group; the model
  gives a row as a function of the two and the table as the rows of all groups in the order of the source. A decimal of
  the source is the double nearest to it.

  The lookups share one contract, the locale \<open>reference_table\<close>: no identifier is set twice, so that the constructor
  loses no row and a lookup returns the row of the code, or nothing.
\<close>

section \<open>Tables\<close>

definition seeded :: "('r \<Rightarrow> string) \<Rightarrow> 'r list \<Rightarrow> (string, 'r) jsmap" where
  "seeded key rows = fold (\<lambda>r m. jm_set (key r) r m) rows []"

locale reference_table =
  fixes key :: "'r \<Rightarrow> string" and entries :: "'r list"
  assumes distinct_keys: "distinct (map key entries)"
begin

lemma seeded_is_map: "distinct (map key rs) \<Longrightarrow> seeded key rs = map (\<lambda>r. (key r, r)) rs"
proof (induction rs rule: rev_induct)
  case (snoc r rs)
  then have rs: "seeded key rs = map (\<lambda>r. (key r, r)) rs" by simp
  have "jm_get (map (\<lambda>r. (key r, r)) rs) (key r) = None" using snoc.prems by (auto simp: map_of_eq_None_iff)
  from jm_set_append [OF this] have "jm_set (key r) r (seeded key rs) = map (\<lambda>r. (key r, r)) rs @ [(key r, r)]" by (simp add: rs)
  then show ?case by (simp add: seeded_def)
qed (simp add: seeded_def)

lemma table_rows: "seeded key entries = map (\<lambda>r. (key r, r)) entries"
  using seeded_is_map [of entries] distinct_keys by simp

lemma lookup_iff: "jm_get (seeded key entries) k = Some r \<longleftrightarrow> r \<in> set entries \<and> key r = k"
  using distinct_keys by (auto simp: table_rows map_of_eq_Some_iff comp_def)

lemma lookup_row: "r \<in> set entries \<Longrightarrow> jm_get (seeded key entries) (key r) = Some r"
  by (simp add: lookup_iff)

lemma lookup_None: "jm_get (seeded key entries) k = None \<longleftrightarrow> k \<notin> key ` set entries"
proof -
  have "(\<exists>r. jm_get (seeded key entries) k = Some r) \<longleftrightarrow> k \<in> key ` set entries" by (auto simp: lookup_iff)
  then show ?thesis by auto
qed

end

text \<open>The rows of a table: the numbers \<open>a\<close> to \<open>b - 1\<close> of every group, group after group.\<close>

definition grid :: "(nat \<Rightarrow> 'g \<Rightarrow> nat \<Rightarrow> 'r) \<Rightarrow> 'g list \<Rightarrow> nat \<Rightarrow> nat \<Rightarrow> 'r list" where
  "grid f groups a b = map (\<lambda>(g, i). f g (groups ! g) i) (List.product [0..<length groups] [a..<b])"

lemma grid_iff:
  "r \<in> set (grid f groups a b) \<longleftrightarrow> (\<exists>g i. g < length groups \<and> a \<le> i \<and> i < b \<and> r = f g (groups ! g) i)"
  by (force simp: grid_def)

lemma grid_row: "g < length groups \<Longrightarrow> a \<le> i \<Longrightarrow> i < b \<Longrightarrow> f g (groups ! g) i \<in> set (grid f groups a b)"
  by (auto simp: grid_iff)

lemma grid_keys:
  assumes "\<And>g h i j. g < length groups \<Longrightarrow> h < length groups \<Longrightarrow> i \<in> {a..<b} \<Longrightarrow> j \<in> {a..<b} \<Longrightarrow>
      key (f g (groups ! g) i) = key (f h (groups ! h) j) \<Longrightarrow> g = h \<and> i = j"
  shows "distinct (map key (grid f groups a b))"
proof -
  have "inj_on (\<lambda>(g, i). key (f g (groups ! g) i)) (set (List.product [0..<length groups] [a..<b]))"
    using assms by (auto simp: inj_on_def)
  moreover have "map key (grid f groups a b) = map (\<lambda>(g, i). key (f g (groups ! g) i)) (List.product [0..<length groups] [a..<b])"
    by (simp add: grid_def)
  ultimately show ?thesis by (simp only: distinct_map) (simp add: distinct_product)
qed

lemma grid_distinct:
  assumes "distinct groups"
    and same: "\<And>g h s t i j. s \<in> set groups \<Longrightarrow> t \<in> set groups \<Longrightarrow> key (f g s i) = key (f h t j) \<Longrightarrow> s = t \<and> i = j"
  shows "distinct (map key (grid f groups a b))"
proof (rule grid_keys)
  fix g h i j
  assume n: "g < length groups" "h < length groups" and "key (f g (groups ! g) i) = key (f h (groups ! h) j)"
  then have "groups ! g = groups ! h \<and> i = j" by (intro same [of _ _ g _ h]) simp_all
  then show "g = h \<and> i = j" using assms(1) n by (simp add: nth_eq_iff_index_eq)
qed

text \<open>The parts of an identifier: a zero-padded number, and a name that holds no dash.\<close>

definition numbered :: "nat \<Rightarrow> nat \<Rightarrow> string" where
  "numbered w n = pad_start w (CHR ''0'') (dec_string n)"

lemma base_value_zeros: "base_value b (replicate k (CHR ''0'') @ s) = base_value b s"
proof -
  have z: "char_digit (CHR ''0'') = 0" by code_simp
  have "foldl (\<lambda>acc c. acc * b + char_digit c) 0 (replicate k (CHR ''0'')) = 0" by (induction k) (simp_all add: z)
  then show ?thesis by (simp add: base_value_def)
qed

lemma numbered_inject: "numbered w m = numbered w' n \<Longrightarrow> m = n"
proof -
  assume "numbered w m = numbered w' n"
  moreover have "base_value 10 (numbered w n) = n" for w n
    by (simp add: numbered_def pad_start_def base_value_zeros dec_string_def base_value_string)
  ultimately show ?thesis by metis
qed

lemma dash_split: "CHR ''-'' \<notin> set x \<Longrightarrow> CHR ''-'' \<notin> set y \<Longrightarrow> x @ CHR ''-'' # u = y @ CHR ''-'' # v \<longleftrightarrow> x = y \<and> u = v"
proof (induction x arbitrary: y)
  case Nil
  then show ?case by (cases y) auto
next
  case (Cons c x)
  then show ?case by (cases y) auto
qed

section \<open>Sales tax by district\<close>

record ITaxRateRecord =
  tr_jurisdictionCode :: string
  tr_stateIso :: string
  tr_countyName :: string
  tr_cityOrDistrict :: string
  tr_stateRatePct :: rat
  tr_countyRatePct :: rat
  tr_localRatePct :: rat
  tr_combinedRatePct :: rat
  tr_isFoodExempt :: bool
  tr_isApparelExempt :: bool
  tr_effectiveYear :: int

definition tax_states :: "string list" where
  "tax_states =
     [''AL'', ''AK'', ''AZ'', ''AR'', ''CA'', ''CO'', ''CT'', ''DE'', ''FL'', ''GA'', ''HI'', ''ID'', ''IL'', ''IN'', ''IA'', ''KS'', ''KY'',
      ''LA'', ''ME'', ''MD'', ''MA'', ''MI'', ''MN'', ''MS'', ''MO'', ''MT'', ''NE'', ''NV'', ''NH'', ''NJ'', ''NM'', ''NY'', ''NC'', ''ND'',
      ''OH'', ''OK'', ''OR'', ''PA'', ''RI'', ''SC'', ''SD'', ''TN'', ''TX'', ''UT'', ''VT'', ''VA'', ''WA'', ''WV'', ''WI'', ''WY'']"

definition tax_row :: "nat \<Rightarrow> string \<Rightarrow> nat \<Rightarrow> ITaxRateRecord" where
  "tax_row g st i =
     (let stateRate = 4 + 3 / 4 * of_nat (g mod 4);
          county = (if i mod 3 = 0 then 1 else if i mod 3 = 1 then 3 / 2 else 2);
          district = 1 / 2 + 1 / 4 * of_nat (i mod 4)
      in \<lparr> tr_jurisdictionCode = st @ ''-DIST-'' @ numbered 2 i, tr_stateIso = st, tr_countyName = ''County-'' @ dec_string i,
           tr_cityOrDistrict = ''District-'' @ dec_string i, tr_stateRatePct = stateRate, tr_countyRatePct = county,
           tr_localRatePct = district, tr_combinedRatePct = stateRate + county + district, tr_isFoodExempt = (i mod 2 = 0),
           tr_isApparelExempt = (i mod 3 = 0), tr_effectiveYear = 2026 \<rparr>)"

definition tax_rows :: "ITaxRateRecord list" where
  "tax_rows = grid tax_row tax_states 1 13"

definition getTaxRate :: "string \<Rightarrow> ITaxRateRecord option" where
  "getTaxRate code = jm_get (seeded tr_jurisdictionCode tax_rows) code"

definition calculateTaxForDistrict :: "string \<Rightarrow> rat \<Rightarrow> bool \<Rightarrow> bool \<Rightarrow> rat" where
  "calculateTaxForDistrict code amountUSD isFood isApparel =
     (case getTaxRate code of
        None \<Rightarrow> toFixed 2 (dmul amountUSD (fl (75 / 1000)))
      | Some r \<Rightarrow>
          if isFood \<and> tr_isFoodExempt r then 0
          else if isApparel \<and> tr_isApparelExempt r then 0
          else toFixed 2 (dmul amountUSD (ddiv (tr_combinedRatePct r) 100)))"

lemma same_length_prefix:
  "length x = length y \<Longrightarrow> x @ u = y @ v \<Longrightarrow> x = y \<and> u = v"
  by simp

lemma tax_states_two: "\<forall>s\<in>set tax_states. length s = 2"
  by (simp add: tax_states_def)

interpretation tax_table: reference_table tr_jurisdictionCode tax_rows
proof
  show "distinct (map tr_jurisdictionCode tax_rows)"
    unfolding tax_rows_def
  proof (rule grid_distinct)
    show "distinct tax_states" by (simp add: tax_states_def)
    fix g h s t i j
    assume "s \<in> set tax_states" "t \<in> set tax_states" and e: "tr_jurisdictionCode (tax_row g s i) = tr_jurisdictionCode (tax_row h t j)"
    then have "length s = length t" by (simp add: tax_states_two)
    then show "s = t \<and> i = j" using e by (auto simp: tax_row_def Let_def dest: numbered_inject)
  qed
qed

lemma tax_row_found:
  assumes "g < 50" and "1 \<le> i" and "i \<le> 12"
  shows "getTaxRate (tax_states ! g @ ''-DIST-'' @ numbered 2 i) = Some (tax_row g (tax_states ! g) i)"
proof -
  have "tax_row g (tax_states ! g) i \<in> set tax_rows"
    unfolding tax_rows_def by (rule grid_row) (use assms in \<open>simp_all add: tax_states_def\<close>)
  from tax_table.lookup_row [OF this] show ?thesis by (simp add: getTaxRate_def tax_row_def Let_def)
qed

lemma tax_row_rates:
  "tr_combinedRatePct (tax_row g s i) = tr_stateRatePct (tax_row g s i) + tr_countyRatePct (tax_row g s i) + tr_localRatePct (tax_row g s i)"
  "11 / 2 \<le> tr_combinedRatePct (tax_row g s i)" "tr_combinedRatePct (tax_row g s i) \<le> 19 / 2"
proof -
  have "g mod 4 \<le> 3" "i mod 4 \<le> 3" by simp_all
  then have "(of_nat (g mod 4) :: rat) \<le> 3" "(of_nat (i mod 4) :: rat) \<le> 3" by linarith+
  then show "tr_combinedRatePct (tax_row g s i) = tr_stateRatePct (tax_row g s i) + tr_countyRatePct (tax_row g s i) + tr_localRatePct (tax_row g s i)"
    "11 / 2 \<le> tr_combinedRatePct (tax_row g s i)" "tr_combinedRatePct (tax_row g s i) \<le> 19 / 2"
    by (auto simp: tax_row_def Let_def)
qed

lemma rate_share_error:
  assumes "0 \<le> pct" and "pct \<le> 10" and "0 \<le> amount" and "amount \<le> 10 ^ 9"
  shows "\<bar>toFixed 2 (dmul amount (fl (pct / 100))) - amount * pct / 100\<bar> \<le> 1 / 198"
proof -
  have m: "0 \<le> amount * pct" "amount * pct \<le> 10 ^ 9 * 10" using mult_mono [of amount "10 ^ 9" pct 10] assms by simp_all
  have "\<bar>dmul amount (fl (pct / 100)) - amount * (pct / 100)\<bar> \<le> 3 * (amount * (pct / 100)) / 2 ^ 53"
    by (rule fl_product_error) (use assms in simp_all)
  also have "\<dots> \<le> 1 / 10 ^ 7" using m by simp
  finally have e: "\<bar>dmul amount (fl (pct / 100)) - amount * pct / 100\<bar> \<le> 1 / 10 ^ 7" by simp
  note e' = abs_le_D1 [OF e] abs_le_D2 [OF e]
  have "\<bar>dmul amount (fl (pct / 100))\<bar> \<le> 10 ^ 10" unfolding abs_le_iff using e' m by simp
  note f = toFixed_error [OF this]
  show ?thesis unfolding abs_le_iff using e' abs_le_D1 [OF f] abs_le_D2 [OF f] by simp
qed

text \<open>
  Every district of the table is found; its combined rate is the sum of its three rates; what is due on an amount is
  that share of it to the cent unless an exemption applies; and a district that is not in the table pays 7.5 percent,
  exemptions or not.
\<close>

theorem district_tax:
  assumes "g < 50" and "1 \<le> i" and "i \<le> 12" and "0 \<le> amount" and "amount \<le> 10 ^ 9"
    and "code = tax_states ! g @ ''-DIST-'' @ numbered 2 i" and "getTaxRate other = None"
  shows "\<exists>r. getTaxRate code = Some r \<and> tr_combinedRatePct r = tr_stateRatePct r + tr_countyRatePct r + tr_localRatePct r \<and>
      (if isFood \<and> even i \<or> isApparel \<and> 3 dvd i then calculateTaxForDistrict code amount isFood isApparel = 0
       else \<bar>calculateTaxForDistrict code amount isFood isApparel - amount * tr_combinedRatePct r / 100\<bar> \<le> 1 / 198) \<and>
      \<bar>calculateTaxForDistrict other amount isFood isApparel - amount * 75 / 1000\<bar> \<le> 1 / 198"
proof (intro exI conjI)
  let ?r = "tax_row g (tax_states ! g) i"
  show r: "getTaxRate code = Some ?r" using tax_row_found [OF assms(1-3)] assms(6) by simp
  show "tr_combinedRatePct ?r = tr_stateRatePct ?r + tr_countyRatePct ?r + tr_localRatePct ?r" by (rule tax_row_rates)
  have "0 \<le> tr_combinedRatePct ?r" "tr_combinedRatePct ?r \<le> 10" using tax_row_rates(2,3) [of g "tax_states ! g" i] by simp_all
  note e = rate_share_error [OF this assms(4,5)]
  have x: "tr_isFoodExempt ?r = even i" "tr_isApparelExempt ?r = (3 dvd i)" by (auto simp: tax_row_def Let_def)
  show "if isFood \<and> even i \<or> isApparel \<and> 3 dvd i then calculateTaxForDistrict code amount isFood isApparel = 0
      else \<bar>calculateTaxForDistrict code amount isFood isApparel - amount * tr_combinedRatePct ?r / 100\<bar> \<le> 1 / 198"
    using e by (simp add: calculateTaxForDistrict_def r x ddiv_def)
  show "\<bar>calculateTaxForDistrict other amount isFood isApparel - amount * 75 / 1000\<bar> \<le> 1 / 198"
    using rate_share_error [of "75 / 10", OF _ _ assms(4,5)] assms(7) by (simp add: calculateTaxForDistrict_def)
qed

text \<open>The second district of Arizona, food, and a district that does not exist.\<close>

theorem district_tax_witness:
  "\<exists>r. getTaxRate ''AZ-DIST-01'' = Some r \<and> tr_combinedRatePct r = tr_stateRatePct r + tr_countyRatePct r + tr_localRatePct r \<and>
     \<bar>calculateTaxForDistrict ''AZ-DIST-01'' 200 True True - 200 * tr_combinedRatePct r / 100\<bar> \<le> 1 / 198 \<and>
     \<bar>calculateTaxForDistrict [] 200 True True - 15\<bar> \<le> 1 / 198"
proof -
  have c: "''AZ-DIST-01'' = tax_states ! 2 @ ''-DIST-'' @ numbered 2 1" by code_simp
  have "([] :: string) \<notin> tr_jurisdictionCode ` set tax_rows"
    by (auto simp: tax_rows_def grid_iff tax_row_def Let_def)
  then have n: "getTaxRate [] = None" by (simp add: getTaxRate_def tax_table.lookup_None)
  show ?thesis using district_tax [OF _ _ _ _ _ c n, of 200 True True] by simp
qed

section \<open>Value added tax\<close>

record IEUVatRecord =
  vr_countryCode :: string
  vr_countryName :: string
  vr_standardRatePct :: rat
  vr_reducedRatePct :: rat
  vr_superReducedRatePct :: rat
  vr_parkingRatePct :: rat
  vr_currencyIso :: string
  vr_isEuMember :: bool

definition vat_countries :: "string list" where
  "vat_countries =
     [''AT'', ''BE'', ''BG'', ''CY'', ''CZ'', ''DE'', ''DK'', ''EE'', ''EL'', ''ES'', ''FI'', ''FR'', ''HR'', ''HU'', ''IE'', ''IT'', ''LT'',
      ''LU'', ''LV'', ''MT'', ''NL'', ''PL'', ''PT'', ''RO'', ''SE'', ''SI'', ''SK'']"

definition vat_row :: "nat \<Rightarrow> string \<Rightarrow> nat \<Rightarrow> IEUVatRecord" where
  "vat_row g c i =
     \<lparr> vr_countryCode = c @ ''_ZONE_'' @ dec_string i, vr_countryName = ''EU Member '' @ c @ '' Zone '' @ dec_string i,
       vr_standardRatePct = of_nat (17 + g mod 10), vr_reducedRatePct = of_nat (5 + g mod 5), vr_superReducedRatePct = 4,
       vr_parkingRatePct = 12, vr_currencyIso = ''EUR'', vr_isEuMember = True \<rparr>"

definition vat_rows :: "IEUVatRecord list" where
  "vat_rows = grid vat_row vat_countries 1 21"

definition getVatRate :: "string \<Rightarrow> IEUVatRecord option" where
  "getVatRate code = jm_get (seeded vr_countryCode vat_rows) code"

lemma vat_countries_two: "\<forall>s\<in>set vat_countries. length s = 2"
  by (simp add: vat_countries_def)

interpretation vat_table: reference_table vr_countryCode vat_rows
proof
  show "distinct (map vr_countryCode vat_rows)"
    unfolding vat_rows_def
  proof (rule grid_distinct)
    show "distinct vat_countries" by (simp add: vat_countries_def)
    fix g h s t i j
    assume "s \<in> set vat_countries" "t \<in> set vat_countries" and e: "vr_countryCode (vat_row g s i) = vr_countryCode (vat_row h t j)"
    then have "length s = length t" by (simp add: vat_countries_two)
    then show "s = t \<and> i = j" using e by (auto simp: vat_row_def)
  qed
qed

section \<open>Currencies\<close>

record ICurrencyPrecisionSpec =
  cs_isoCode :: string
  cs_numericCode :: int
  cs_currencyName :: string
  cs_decimalPlaces :: nat
  cs_symbolUtf8 :: string
  cs_isMinorUnitSupported :: bool
  cs_settlementTplusDays :: int

definition currency_names :: "string list" where
  "currency_names =
     [''USD'', ''EUR'', ''GBP'', ''JPY'', ''CAD'', ''AUD'', ''CHF'', ''CNY'', ''INR'', ''BRL'', ''MXN'', ''SGD'', ''HKD'', ''NZD'', ''SEK'',
      ''KRW'', ''ZAR'', ''AED'', ''SAR'', ''NOK'']"

definition currency_row :: "nat \<Rightarrow> string \<Rightarrow> nat \<Rightarrow> ICurrencyPrecisionSpec" where
  "currency_row g c i =
     \<lparr> cs_isoCode = c @ ''_V'' @ dec_string i, cs_numericCode = 100 + 25 * int g + int i,
       cs_currencyName = c @ '' Variant '' @ dec_string i, cs_decimalPlaces = (if c = ''JPY'' then 0 else 2), cs_symbolUtf8 = ''$'',
       cs_isMinorUnitSupported = True, cs_settlementTplusDays = 2 \<rparr>"

definition currency_rows :: "ICurrencyPrecisionSpec list" where
  "currency_rows = grid currency_row currency_names 1 26"

definition getSpec :: "string \<Rightarrow> ICurrencyPrecisionSpec option" where
  "getSpec code = jm_get (seeded cs_isoCode currency_rows) code"

definition formatAmount :: "string \<Rightarrow> rat \<Rightarrow> string" where
  "formatAmount code amount =
     (let spec = getSpec code; dec = (case spec of Some s \<Rightarrow> cs_decimalPlaces s | None \<Rightarrow> 2)
      in fixed_text dec amount)"

lemma currency_names_three: "\<forall>s\<in>set currency_names. length s = 3"
  by (simp add: currency_names_def)

interpretation currency_table: reference_table cs_isoCode currency_rows
proof
  show "distinct (map cs_isoCode currency_rows)"
    unfolding currency_rows_def
  proof (rule grid_distinct)
    show "distinct currency_names" by (simp add: currency_names_def)
    fix g h s t i j
    assume "s \<in> set currency_names" "t \<in> set currency_names" and e: "cs_isoCode (currency_row g s i) = cs_isoCode (currency_row h t j)"
    then have "length s = length t" by (simp add: currency_names_three)
    then show "s = t \<and> i = j" using e by (auto simp: currency_row_def)
  qed
qed

lemma plain_code_unknown:
  assumes "CHR ''_'' \<notin> set code"
  shows "getSpec code = None" and "getVatRate code = None"
proof -
  have "code \<notin> cs_isoCode ` set currency_rows" using assms by (auto simp: currency_rows_def grid_iff currency_row_def)
  then show "getSpec code = None" by (simp add: getSpec_def currency_table.lookup_None)
  have "code \<notin> vr_countryCode ` set vat_rows" using assms by (auto simp: vat_rows_def grid_iff vat_row_def)
  then show "getVatRate code = None" by (simp add: getVatRate_def vat_table.lookup_None)
qed

text \<open>
  The tables are keyed by variants and zones. A plain currency code is unknown to the one, so that every amount is shown
  with two decimals, the yen too, whose variants have none; a plain country code is unknown to the other.
\<close>

theorem plain_codes_unknown:
  assumes "CHR ''_'' \<notin> set code"
  shows "getSpec code = None \<and> formatAmount code amount = fixed_text 2 amount \<and> getVatRate code = None \<and>
    (\<forall>i\<in>{1..25}. formatAmount (''JPY_V'' @ dec_string i) amount = fixed_text 0 amount)"
proof (intro conjI ballI)
  show "getSpec code = None" "getVatRate code = None" using plain_code_unknown [OF assms] by simp_all
  then show "formatAmount code amount = fixed_text 2 amount" by (simp add: formatAmount_def)
  fix i :: nat assume i: "i \<in> {1..25}"
  have "currency_row 3 (currency_names ! 3) i \<in> set currency_rows"
    unfolding currency_rows_def by (rule grid_row) (use i in \<open>simp_all add: currency_names_def\<close>)
  from currency_table.lookup_row [OF this] show "formatAmount (''JPY_V'' @ dec_string i) amount = fixed_text 0 amount"
    by (simp add: formatAmount_def getSpec_def currency_row_def currency_names_def)
qed

theorem plain_codes_unknown_witness:
  "formatAmount ''JPY'' (5 / 2) = ''2.50'' \<and> getVatRate ''DE'' = None \<and> formatAmount ''JPY_V1'' (5 / 2) = ''3''"
proof -
  have t: "fixed_text 2 (5 / 2) = ''2.50''" "fixed_text 0 (5 / 2) = ''3''" "''JPY_V'' @ dec_string 1 = ''JPY_V1''" by code_simp+
  have y: "formatAmount ''JPY'' (5 / 2) = fixed_text 2 (5 / 2)" "\<forall>i\<in>{1..25}. formatAmount (''JPY_V'' @ dec_string i) (5 / 2) = fixed_text 0 (5 / 2)"
    using plain_codes_unknown [of "''JPY''" "5 / 2"] by simp_all
  have "formatAmount ''JPY_V1'' (5 / 2) = fixed_text 0 (5 / 2)" unfolding t(3) [symmetric] using y(2) by (rule bspec) simp
  moreover have "getVatRate ''DE'' = None" using plain_codes_unknown [of "''DE''"] by simp
  ultimately show ?thesis by (simp add: y(1) t(1,2))
qed

section \<open>Postal code centroids\<close>

record IZipCentroidRecord =
  zc_postalCode :: string
  zc_stateCode :: string
  zc_cityName :: string
  zc_latitude :: rat
  zc_longitude :: rat
  zc_timeZone :: string
  zc_isMetropolitanHub :: bool
  zc_primaryCarrierHubCode :: string

definition zip_states :: "string list" where
  "zip_states = [''CA'', ''NY'', ''TX'', ''IL'', ''FL'', ''PA'', ''OH'', ''GA'', ''NC'', ''WA'']"

definition zip_row :: "nat \<Rightarrow> string \<Rightarrow> nat \<Rightarrow> IZipCentroidRecord" where
  "zip_row g st i =
     \<lparr> zc_postalCode = numbered 2 (g + 1) @ numbered 3 i, zc_stateCode = st, zc_cityName = ''City-'' @ st @ ''-'' @ dec_string i,
       zc_latitude = fl (30 + 3 / 2 * of_nat g + of_nat i / 20), zc_longitude = fl (- 120 + 4 * of_nat g + of_nat i * 8 / 100),
       zc_timeZone = ''America/New_York'', zc_isMetropolitanHub = (i mod 5 = 0),
       zc_primaryCarrierHubCode = ''HUB-'' @ st @ ''-'' @ dec_string (i div 10 + 1) \<rparr>"

definition zip_rows :: "IZipCentroidRecord list" where
  "zip_rows = grid zip_row zip_states 1 61"

definition getCentroid :: "string \<Rightarrow> IZipCentroidRecord option" where
  "getCentroid code = jm_get (seeded zc_postalCode zip_rows) code"

text \<open>\<open>Math.sqrt\<close> of a negative number is not a number, and nothing computed from it is.\<close>

definition computeHaversineDistance :: "js_math \<Rightarrow> string \<Rightarrow> string \<Rightarrow> number" where
  "computeHaversineDistance math zip1 zip2 =
     (case (getCentroid zip1, getCentroid zip2) of
        (Some c1, Some c2) \<Rightarrow>
          let dLat = ddiv (dmul (dsub (zc_latitude c2) (zc_latitude c1)) (m_PI math)) 180;
              dLon = ddiv (dmul (dsub (zc_longitude c2) (zc_longitude c1)) (m_PI math)) 180;
              a = dadd (dmul (m_sin math (ddiv dLat 2)) (m_sin math (ddiv dLat 2)))
                    (dmul (dmul (dmul (m_cos math (ddiv (dmul (zc_latitude c1) (m_PI math)) 180))
                      (m_cos math (ddiv (dmul (zc_latitude c2) (m_PI math)) 180))) (m_sin math (ddiv dLon 2))) (m_sin math (ddiv dLon 2)))
          in if a < 0 \<or> dsub 1 a < 0 then None
             else let c = dmul 2 (m_atan2 math (m_sqrt math a) (m_sqrt math (dsub 1 a)))
                  in Some (toFixed 1 (dmul (fl (39588 / 10)) c))
      | _ \<Rightarrow> Some 250)"

text \<open>A centroid carries its own postal code because the number of the state has two digits in all of them.\<close>

lemma numbered_length: "n < 10 ^ w \<Longrightarrow> 0 < w \<Longrightarrow> length (numbered w n) = w"
proof -
  assume n: "n < 10 ^ w" "0 < w"
  have "length (base_string 10 n) \<le> w" if "n < 10 ^ w" "0 < w" for n w
    using that
  proof (induction n arbitrary: w rule: less_induct)
    case (less n)
    show ?case
    proof (cases "n < 10")
      case True
      with less.prems show ?thesis by (simp add: base_string.simps [of 10 n])
    next
      case False
      obtain v where w: "w = Suc v" using less.prems by (cases w) auto
      have "0 < v" using False less.prems by (cases v) (auto simp: w)
      moreover have "n div 10 < 10 ^ v" using less.prems by (simp add: w less_mult_imp_div_less mult.commute)
      ultimately have "length (base_string 10 (n div 10)) \<le> v" using less.IH [of "n div 10" v] False by simp
      then show ?thesis using False by (simp add: base_string.simps [of 10 n] w)
    qed
  qed
  from this [OF n] show ?thesis by (simp add: numbered_def pad_start_def dec_string_def)
qed

interpretation zip_table: reference_table zc_postalCode zip_rows
proof
  show "distinct (map zc_postalCode zip_rows)"
    unfolding zip_rows_def
  proof (rule grid_keys)
    fix g h i j
    assume n: "g < length zip_states" "h < length zip_states"
      and e: "zc_postalCode (zip_row g (zip_states ! g) i) = zc_postalCode (zip_row h (zip_states ! h) j)"
    have "length (numbered 2 (g + 1)) = length (numbered 2 (h + 1))" using n by (simp add: numbered_length zip_states_def)
    then show "g = h \<and> i = j" using e by (auto simp: zip_row_def dest: numbered_inject)
  qed
qed

section \<open>Items\<close>

record IMasterSkuSpec =
  ms_sku :: string
  ms_upcCode :: string
  ms_brandCode :: string
  ms_categoryHierarchy :: string
  ms_unitLengthInches :: rat
  ms_unitWidthInches :: rat
  ms_unitHeightInches :: rat
  ms_unitWeightPounds :: rat
  ms_casePackQuantity :: int
  ms_palletTierQuantity :: int
  ms_storageCondition :: string
  ms_countryOfManufacture :: string
  ms_standardCostUSD :: rat
  ms_msrpPriceUSD :: rat

definition sku_categories :: "string list" where
  "sku_categories = [''IND'', ''ELEC'', ''MED'', ''AUTO'', ''CHEM'', ''AERO'', ''RAW'', ''FOOD'', ''TEX'', ''PKG'']"

definition sku_row :: "nat \<Rightarrow> string \<Rightarrow> nat \<Rightarrow> IMasterSkuSpec" where
  "sku_row g c i =
     (let cost = 10 + 25 * of_nat g + 7 / 2 * of_nat i
      in \<lparr> ms_sku = ''SKU-'' @ c @ ''-'' @ numbered 3 i, ms_upcCode = ''0840'' @ numbered 3 g @ numbered 4 i,
           ms_brandCode = ''BRAND-'' @ c, ms_categoryHierarchy = ''ROOT/'' @ c, ms_unitLengthInches = 5 + 3 / 2 * of_nat (i mod 15),
           ms_unitWidthInches = fl (4 + 12 / 10 * of_nat (i mod 10)), ms_unitHeightInches = of_nat (2 + i mod 8),
           ms_unitWeightPounds = 1 + 3 / 4 * of_nat (i mod 20), ms_casePackQuantity = 12, ms_palletTierQuantity = 48,
           ms_storageCondition = ''DRY_AMBIENT'', ms_countryOfManufacture = ''US'', ms_standardCostUSD = cost,
           ms_msrpPriceUSD = toFixed 2 (dmul cost (fl (145 / 100))) \<rparr>)"

definition sku_rows :: "IMasterSkuSpec list" where
  "sku_rows = grid sku_row sku_categories 1 61"

definition getSku :: "string \<Rightarrow> IMasterSkuSpec option" where
  "getSku sku = jm_get (seeded ms_sku sku_rows) sku"

definition calculateCubeFeet :: "string \<Rightarrow> rat" where
  "calculateCubeFeet sku =
     (case getSku sku of
        None \<Rightarrow> 1 / 2
      | Some item \<Rightarrow>
          toFixed 3 (ddiv (dmul (dmul (ms_unitLengthInches item) (ms_unitWidthInches item)) (ms_unitHeightInches item)) 1728))"

lemma sku_categories_undashed: "\<forall>s\<in>set sku_categories. CHR ''-'' \<notin> set s"
  by (simp add: sku_categories_def)

interpretation sku_table: reference_table ms_sku sku_rows
proof
  show "distinct (map ms_sku sku_rows)"
    unfolding sku_rows_def
  proof (rule grid_distinct)
    show "distinct sku_categories" by (simp add: sku_categories_def)
    fix g h s t i j
    assume "s \<in> set sku_categories" "t \<in> set sku_categories" and e: "ms_sku (sku_row g s i) = ms_sku (sku_row h t j)"
    then have "CHR ''-'' \<notin> set s" "CHR ''-'' \<notin> set t" using sku_categories_undashed by auto
    then show "s = t \<and> i = j" using e by (auto simp: sku_row_def Let_def dash_split dest: numbered_inject)
  qed
qed

section \<open>Industry benchmarks\<close>

record ISupplyChainBenchmarkRecord =
  sb_benchmarkId :: string
  sb_industrySector :: string
  sb_annualRevenueTier :: string
  sb_averageOrderCycleTimeHours :: rat
  sb_inventoryTurnoverRatio :: rat
  sb_freightCostAsPctRevenue :: rat
  sb_perfectOrderFillRatePct :: rat
  sb_onTimeDeliveryRatePct :: rat
  sb_cashToCashCycleDays :: int
  sb_supplierLeadTimeDays :: int

definition benchmark_sectors :: "string list" where
  "benchmark_sectors =
     [''AEROSPACE'', ''AUTOMOTIVE'', ''CHEMICAL'', ''CONSUMER_GOODS'', ''ENERGY'', ''FOOD_BEVERAGE'', ''HEALTHCARE'', ''HIGH_TECH'',
      ''INDUSTRIAL'', ''PHARMA'', ''RETAIL_ECOM'', ''TELECOM'']"

definition benchmark_tiers :: "string list" where
  "benchmark_tiers = [''TIER_1_ENTERPRISE'', ''TIER_2_MIDMARKET'', ''TIER_3_GROWTH'', ''TIER_4_EMERGING'']"

definition benchmark_row :: "nat \<Rightarrow> string \<times> string \<Rightarrow> nat \<Rightarrow> ISupplyChainBenchmarkRecord" where
  "benchmark_row g st i =
     (let s = g div 4; t = g mod 4
      in \<lparr> sb_benchmarkId = ''BM-'' @ fst st @ ''-'' @ snd st @ ''-'' @ numbered 2 i, sb_industrySector = fst st,
           sb_annualRevenueTier = snd st, sb_averageOrderCycleTimeHours = fl (of_nat (125 + 4 * i + 21 * s) / 10),
           sb_inventoryTurnoverRatio = fl (of_nat (40 + 15 * t + i) / 10), sb_freightCostAsPctRevenue = fl (of_nat (35 + 8 * (s mod 4)) / 10),
           sb_perfectOrderFillRatePct = fl (94 + 11 / 10 * of_nat (i mod 5)), sb_onTimeDeliveryRatePct = fl (95 + 12 / 10 * of_nat (i mod 4)),
           sb_cashToCashCycleDays = int (25 + 3 * s + i), sb_supplierLeadTimeDays = int (10 + 4 * t + i) \<rparr>)"

definition benchmark_rows :: "ISupplyChainBenchmarkRecord list" where
  "benchmark_rows = grid benchmark_row (List.product benchmark_sectors benchmark_tiers) 1 26"

definition getBenchmark :: "string \<Rightarrow> ISupplyChainBenchmarkRecord option" where
  "getBenchmark code = jm_get (seeded sb_benchmarkId benchmark_rows) code"

lemma benchmark_undashed:
  "\<forall>s\<in>set benchmark_sectors. CHR ''-'' \<notin> set s" "\<forall>t\<in>set benchmark_tiers. CHR ''-'' \<notin> set t"
  by (simp_all add: benchmark_sectors_def benchmark_tiers_def)

interpretation benchmark_table: reference_table sb_benchmarkId benchmark_rows
proof
  show "distinct (map sb_benchmarkId benchmark_rows)"
    unfolding benchmark_rows_def
  proof (rule grid_distinct)
    show "distinct (List.product benchmark_sectors benchmark_tiers)"
      by (intro distinct_product) (simp_all add: benchmark_sectors_def benchmark_tiers_def)
    fix g h s t i j
    assume "s \<in> set (List.product benchmark_sectors benchmark_tiers)" "t \<in> set (List.product benchmark_sectors benchmark_tiers)"
      and e: "sb_benchmarkId (benchmark_row g s i) = sb_benchmarkId (benchmark_row h t j)"
    then have "CHR ''-'' \<notin> set (fst s)" "CHR ''-'' \<notin> set (fst t)" "CHR ''-'' \<notin> set (snd s)" "CHR ''-'' \<notin> set (snd t)"
      using benchmark_undashed by auto
    then show "s = t \<and> i = j"
      using e by (auto simp: benchmark_row_def Let_def dash_split prod_eq_iff dest: numbered_inject)
  qed
qed

section \<open>Carrier gateways\<close>

record ICarrierGatewayRoute =
  gr_gatewayRouteId :: string
  gr_carrierCode :: string
  gr_countryIso :: string
  gr_protocolType :: string
  gr_primaryEndpointUri :: string
  gr_fallbackEndpointUri :: string
  gr_maxConcurrency :: int
  gr_averageLatencyMs :: int
  gr_costPerMessageUSD :: rat
  gr_isDirectSlaGuaranteed :: bool

definition gateway_countries :: "string list" where
  "gateway_countries =
     [''US'', ''CA'', ''GB'', ''DE'', ''FR'', ''IT'', ''ES'', ''NL'', ''AU'', ''JP'', ''IN'', ''BR'', ''MX'', ''SG'', ''HK'', ''NZ'', ''SE'',
      ''NO'', ''CH'', ''AE'']"

definition gateway_carriers :: "string list" where
  "gateway_carriers = [''TWILIO'', ''SINCH'', ''VONAGE'', ''INFO_BIP'', ''AWS_SNS'', ''TELNYX'']"

definition gateway_row :: "nat \<Rightarrow> string \<times> string \<Rightarrow> nat \<Rightarrow> ICarrierGatewayRoute" where
  "gateway_row g cc i =
     (let path = ''/v2/'' @ to_lower (fst cc) @ ''/sms/'' @ dec_string i
      in \<lparr> gr_gatewayRouteId = ''GW-'' @ fst cc @ ''-'' @ snd cc @ ''-'' @ numbered 2 i, gr_carrierCode = snd cc, gr_countryIso = fst cc,
           gr_protocolType = ''SMPP_3_4'', gr_primaryEndpointUri = ''https://api.'' @ to_lower (snd cc) @ ''.com'' @ path,
           gr_fallbackEndpointUri = ''https://backup.'' @ to_lower (snd cc) @ ''.net'' @ path, gr_maxConcurrency = int (50 + 10 * i),
           gr_averageLatencyMs = int (120 + 5 * (g div 6) + 2 * i), gr_costPerMessageUSD = fl (of_nat (50 + 10 * (g div 6) + 2 * i) / 10000),
           gr_isDirectSlaGuaranteed = (i mod 2 = 0) \<rparr>)"

definition gateway_rows :: "ICarrierGatewayRoute list" where
  "gateway_rows = grid gateway_row (List.product gateway_countries gateway_carriers) 1 11"

definition getRoute :: "string \<Rightarrow> ICarrierGatewayRoute option" where
  "getRoute code = jm_get (seeded gr_gatewayRouteId gateway_rows) code"

lemma gateway_undashed:
  "\<forall>s\<in>set gateway_countries. CHR ''-'' \<notin> set s" "\<forall>t\<in>set gateway_carriers. CHR ''-'' \<notin> set t"
  by (simp_all add: gateway_countries_def gateway_carriers_def)

interpretation gateway_table: reference_table gr_gatewayRouteId gateway_rows
proof
  show "distinct (map gr_gatewayRouteId gateway_rows)"
    unfolding gateway_rows_def
  proof (rule grid_distinct)
    show "distinct (List.product gateway_countries gateway_carriers)"
      by (intro distinct_product) (simp_all add: gateway_countries_def gateway_carriers_def)
    fix g h s t i j
    assume "s \<in> set (List.product gateway_countries gateway_carriers)" "t \<in> set (List.product gateway_countries gateway_carriers)"
      and e: "gr_gatewayRouteId (gateway_row g s i) = gr_gatewayRouteId (gateway_row h t j)"
    then have "CHR ''-'' \<notin> set (fst s)" "CHR ''-'' \<notin> set (fst t)" "CHR ''-'' \<notin> set (snd s)" "CHR ''-'' \<notin> set (snd t)"
      using gateway_undashed by auto
    then show "s = t \<and> i = j"
      using e by (auto simp: gateway_row_def Let_def dash_split prod_eq_iff dest: numbered_inject)
  qed
qed

section \<open>Identity providers\<close>

record IOidcProviderConfig =
  op_providerId :: string
  op_issuerUri :: string
  op_authorizationEndpoint :: string
  op_tokenEndpoint :: string
  op_userinfoEndpoint :: string
  op_jwksUri :: string
  op_clientId :: string
  op_supportedScopes :: "string list"
  op_claimsMapping :: "(string, string) jsmap"

definition provider_names :: "string list" where
  "provider_names =
     [''CORP_ALPHA'', ''CORP_BETA'', ''CORP_GAMMA'', ''CORP_DELTA'', ''CORP_EPSILON'', ''CORP_ZETA'', ''CORP_ETA'', ''CORP_THETA'',
      ''CORP_IOTA'', ''CORP_KAPPA'']"

definition provider_row :: "nat \<Rightarrow> string \<Rightarrow> nat \<Rightarrow> IOidcProviderConfig" where
  "provider_row g p i =
     (let issuer = ''https://idp.'' @ to_lower p @ ''.com/tenant/'' @ dec_string i
      in \<lparr> op_providerId = ''OIDC-'' @ p @ ''-'' @ numbered 2 i, op_issuerUri = issuer,
           op_authorizationEndpoint = issuer @ ''/oauth2/v2.0/authorize'', op_tokenEndpoint = issuer @ ''/oauth2/v2.0/token'',
           op_userinfoEndpoint = issuer @ ''/oidc/userinfo'', op_jwksUri = issuer @ ''/discovery/v2.0/keys'',
           op_clientId = ''client-'' @ p @ ''-'' @ dec_string i, op_supportedScopes = [''openid'', ''profile'', ''email'', ''groups''],
           op_claimsMapping = [(''sub'', ''userId''), (''email'', ''userEmail''), (''name'', ''fullName'')] \<rparr>)"

definition provider_rows :: "IOidcProviderConfig list" where
  "provider_rows = grid provider_row provider_names 1 51"

definition getProvider :: "string \<Rightarrow> IOidcProviderConfig option" where
  "getProvider code = jm_get (seeded op_providerId provider_rows) code"

lemma provider_names_undashed: "\<forall>s\<in>set provider_names. CHR ''-'' \<notin> set s"
  by (simp add: provider_names_def)

interpretation provider_table: reference_table op_providerId provider_rows
proof
  show "distinct (map op_providerId provider_rows)"
    unfolding provider_rows_def
  proof (rule grid_distinct)
    show "distinct provider_names" by (simp add: provider_names_def)
    fix g h s t i j
    assume "s \<in> set provider_names" "t \<in> set provider_names" and e: "op_providerId (provider_row g s i) = op_providerId (provider_row h t j)"
    then have "CHR ''-'' \<notin> set s" "CHR ''-'' \<notin> set t" using provider_names_undashed by auto
    then show "s = t \<and> i = j" using e by (auto simp: provider_row_def Let_def dash_split dest: numbered_inject)
  qed
qed

end
