(* ===== verification/Order_Http.thy ===== *)
theory Order_Http
  imports Gateway Order_Saga
begin

text \<open>
  The HTTP layer of the order service: the schemas of services/order-service/src/dto/order.dto.ts, the validation of
  packages/common/src/utils/validation.ts, the handlers of controllers/orderController.ts, and the routes and the error
  handler of app.ts, over the service and the event loop of \<open>Order_Saga\<close>.

  The zod combinators the schemas use are modelled by what they document: a parser takes the value found under a key, if
  there is one, and gives the parsed value or all issues, in the order of the schema, with their paths; keys that the
  schema does not name are dropped. Zod's own patterns for identifiers and e-mail addresses and its messages are the
  parameter \<open>zod_lib\<close>; Express's matching of a route, which gives the \<open>:id\<close> of the path, is the parameter \<open>route\<close>.
\<close>

section \<open>Schemas\<close>

datatype body_json = JNull | JBool bool | JNum rat | JStr string | JArr "body_json list" | JObj "(string, body_json) jsmap"

datatype issue_code = InvalidType string | InvalidString string | InvalidEnum | TooSmall nat | WrongLength nat | NotInteger

record zod_lib =
  z_uuid :: "string \<Rightarrow> bool"
  z_email :: "string \<Rightarrow> bool"
  z_message :: "issue_code \<Rightarrow> body_json option \<Rightarrow> string"

record issue =
  is_path :: "string list"
  is_message :: string

type_synonym 'a parsed = "issue list + 'a"

definition z_fail :: "zod_lib \<Rightarrow> issue_code \<Rightarrow> body_json option \<Rightarrow> issue" where
  "z_fail zod c v = \<lparr> is_path = [], is_message = z_message zod c v \<rparr>"

definition z_checks :: "zod_lib \<Rightarrow> (issue_code \<times> ('a \<Rightarrow> bool)) list \<Rightarrow> body_json option \<Rightarrow> 'a \<Rightarrow> 'a parsed" where
  "z_checks zod cs v x =
     (let is = map (\<lambda>(c, _). z_fail zod c v) (filter (\<lambda>(_, ok). \<not> ok x) cs) in if is = [] then Inr x else Inl is)"

definition z_string :: "zod_lib \<Rightarrow> (issue_code \<times> (string \<Rightarrow> bool)) list \<Rightarrow> body_json option \<Rightarrow> string parsed" where
  "z_string zod cs v =
     (case v of Some (JStr s) \<Rightarrow> z_checks zod cs v s | _ \<Rightarrow> Inl [z_fail zod (InvalidType ''string'') v])"

definition z_min :: "nat \<Rightarrow> issue_code \<times> (string \<Rightarrow> bool)" where
  "z_min n = (TooSmall n, \<lambda>s. n \<le> length s)"

definition z_length :: "nat \<Rightarrow> issue_code \<times> (string \<Rightarrow> bool)" where
  "z_length n = (WrongLength n, \<lambda>s. length s = n)"

definition z_number :: "zod_lib \<Rightarrow> (issue_code \<times> (rat \<Rightarrow> bool)) list \<Rightarrow> body_json option \<Rightarrow> rat parsed" where
  "z_number zod cs v =
     (case v of Some (JNum x) \<Rightarrow> z_checks zod cs v x | _ \<Rightarrow> Inl [z_fail zod (InvalidType ''number'') v])"

definition z_optional :: "(body_json option \<Rightarrow> 'a parsed) \<Rightarrow> body_json option \<Rightarrow> 'a option parsed" where
  "z_optional p v = (case v of None \<Rightarrow> Inr None | Some _ \<Rightarrow> map_sum id Some (p v))"

definition z_default :: "'a \<Rightarrow> (body_json option \<Rightarrow> 'a parsed) \<Rightarrow> body_json option \<Rightarrow> 'a parsed" where
  "z_default d p v = (case v of None \<Rightarrow> Inr d | Some _ \<Rightarrow> p v)"

definition at_path :: "string \<Rightarrow> 'a parsed \<Rightarrow> 'a parsed" where
  "at_path k r = map_sum (map (\<lambda>i. i\<lparr> is_path := k # is_path i \<rparr>)) id r"

definition z_key :: "(string, body_json) jsmap \<Rightarrow> string \<Rightarrow> (body_json option \<Rightarrow> 'a parsed) \<Rightarrow> 'a parsed" where
  "z_key fs k p = at_path k (p (jm_get fs k))"

text \<open>The issues of the keys of an object are collected from all of them.\<close>

definition z_and :: "('a \<Rightarrow> 'b) parsed \<Rightarrow> 'a parsed \<Rightarrow> 'b parsed" where
  "z_and f x =
     (case (f, x) of
        (Inr g, Inr y) \<Rightarrow> Inr (g y) | (Inl is, Inr _) \<Rightarrow> Inl is | (Inr _, Inl js) \<Rightarrow> Inl js | (Inl is, Inl js) \<Rightarrow> Inl (is @ js))"

definition z_object :: "zod_lib \<Rightarrow> ((string, body_json) jsmap \<Rightarrow> 'a parsed) \<Rightarrow> body_json option \<Rightarrow> 'a parsed" where
  "z_object zod p v = (case v of Some (JObj fs) \<Rightarrow> p fs | _ \<Rightarrow> Inl [z_fail zod (InvalidType ''object'') v])"

fun z_items :: "nat \<Rightarrow> (body_json option \<Rightarrow> 'a parsed) \<Rightarrow> body_json list \<Rightarrow> 'a list parsed" where
  "z_items n p [] = Inr []"
| "z_items n p (v # vs) = z_and (map_sum id (#) (at_path (dec_string n) (p (Some v)))) (z_items (Suc n) p vs)"

text \<open>\<open>z.array(p).min(1, message)\<close>.\<close>

definition z_nonempty :: "zod_lib \<Rightarrow> string \<Rightarrow> (body_json option \<Rightarrow> 'a parsed) \<Rightarrow> body_json option \<Rightarrow> 'a list parsed" where
  "z_nonempty zod msg p v =
     (case v of
        Some (JArr vs) \<Rightarrow> if vs = [] then Inl [\<lparr> is_path = [], is_message = msg \<rparr>] else z_items 0 p vs
      | _ \<Rightarrow> Inl [z_fail zod (InvalidType ''array'') v])"

definition z_priority :: "zod_lib \<Rightarrow> body_json option \<Rightarrow> OrderPriority parsed" where
  "z_priority zod v =
     (case map_of [(''LOW'', OrderPriority.LOW), (''STANDARD'', OrderPriority.STANDARD), (''HIGH'', OrderPriority.HIGH),
         (''CRITICAL'', OrderPriority.CRITICAL), (''EMERGENCY'', OrderPriority.EMERGENCY)]
         (case v of Some (JStr s) \<Rightarrow> s | _ \<Rightarrow> []) of
        Some p \<Rightarrow> Inr p
      | None \<Rightarrow> Inl [z_fail zod InvalidEnum v])"

definition AddressSchema :: "zod_lib \<Rightarrow> body_json option \<Rightarrow> Address parsed" where
  "AddressSchema zod = z_object zod (\<lambda>fs.
     z_and (z_and (z_and (z_and (z_and (z_and (z_and (z_and (z_and (map_sum id
       (\<lambda>l1 l2 city state post country name phone email ins.
          \<lparr> ad_streetLine1 = l1, ad_streetLine2 = l2, ad_city = city, ad_stateOrProvince = state, ad_postalCode = post,
            ad_countryCode = to_upper country, ad_contactName = name, ad_contactPhone = phone, ad_contactEmail = email,
            ad_instructions = ins \<rparr>)
       (z_key fs ''streetLine1'' (z_string zod [z_min 3])))
       (z_key fs ''streetLine2'' (z_optional (z_string zod []))))
       (z_key fs ''city'' (z_string zod [z_min 2])))
       (z_key fs ''stateOrProvince'' (z_string zod [z_min 2])))
       (z_key fs ''postalCode'' (z_string zod [z_min 2])))
       (z_key fs ''countryCode'' (z_string zod [z_length 2])))
       (z_key fs ''contactName'' (z_string zod [z_min 2])))
       (z_key fs ''contactPhone'' (z_string zod [z_min 5])))
       (z_key fs ''contactEmail'' (z_optional (z_string zod [(InvalidString ''email'', z_email zod)]))))
       (z_key fs ''instructions'' (z_optional (z_string zod []))))"

definition z_count :: "zod_lib \<Rightarrow> body_json option \<Rightarrow> int parsed" where
  "z_count zod v = map_sum id floor (z_number zod [(NotInteger, \<lambda>x. x = of_int \<lfloor>x\<rfloor>), (TooSmall 0, \<lambda>x. 0 < x)] v)"

definition OrderItemSchema :: "zod_lib \<Rightarrow> body_json option \<Rightarrow> OrderItemDTO parsed" where
  "OrderItemSchema zod = z_object zod (\<lambda>fs.
     z_and (z_and (z_and (map_sum id
       (\<lambda>sku name qty price. \<lparr> di_sku = sku, di_productName = name, di_quantity = qty, di_unitPriceCents = price \<rparr>)
       (z_key fs ''sku'' (z_string zod [z_min 3])))
       (z_key fs ''productName'' (z_string zod [z_min 1])))
       (z_key fs ''quantity'' (z_count zod)))
       (z_key fs ''unitPriceCents'' (z_count zod)))"

definition CreateOrderSchema :: "zod_lib \<Rightarrow> body_json option \<Rightarrow> CreateOrderDTO parsed" where
  "CreateOrderSchema zod = z_object zod (\<lambda>fs.
     z_and (z_and (z_and (z_and (z_and (z_and (z_and (z_and (map_sum id
       (\<lambda>t c mail w prio items ship bill notes.
          \<lparr> co_tenantId = t, co_customerId = c, co_customerEmail = mail, co_warehouseId = w, co_priority = prio,
            co_items = items, co_shippingAddress = ship, co_billingAddress = bill, co_notes = notes \<rparr>)
       (z_key fs ''tenantId'' (z_string zod [(InvalidString ''uuid'', z_uuid zod)])))
       (z_key fs ''customerId'' (z_string zod [(InvalidString ''uuid'', z_uuid zod)])))
       (z_key fs ''customerEmail'' (z_string zod [(InvalidString ''email'', z_email zod)])))
       (z_key fs ''warehouseId'' (z_string zod [(InvalidString ''uuid'', z_uuid zod)])))
       (z_key fs ''priority'' (z_default OrderPriority.STANDARD (z_priority zod))))
       (z_key fs ''items'' (z_nonempty zod ''Order must contain at least one line item.'' (OrderItemSchema zod))))
       (z_key fs ''shippingAddress'' (AddressSchema zod)))
       (z_key fs ''billingAddress'' (AddressSchema zod)))
       (z_key fs ''notes'' (z_optional (z_string zod []))))"

definition CancelOrderSchema :: "zod_lib \<Rightarrow> body_json option \<Rightarrow> string parsed" where
  "CancelOrderSchema zod = z_object zod (\<lambda>fs.
     z_key fs ''reason'' (\<lambda>v. case v of
        Some (JStr s) \<Rightarrow>
          if 3 \<le> length s then Inr s
          else Inl [\<lparr> is_path = [], is_message = ''Cancellation reason must be provided.'' \<rparr>]
      | _ \<Rightarrow> Inl [z_fail zod (InvalidType ''string'') v]))"

section \<open>Validation\<close>

type_synonym field_errors = "(string, string list) jsmap"

fun join_path :: "string list \<Rightarrow> string" where
  "join_path [] = []"
| "join_path [p] = p"
| "join_path (p # ps) = p @ CHR ''.'' # join_path ps"

definition field_errors_of :: "issue list \<Rightarrow> field_errors" where
  "field_errors_of is =
     fold (\<lambda>i m.
       let path = (if join_path (is_path i) = [] then ''root'' else join_path (is_path i));
           old = (case jm_get m path of Some ms \<Rightarrow> ms | None \<Rightarrow> [])
       in jm_set path (old @ [is_message i]) m) is []"

definition validate :: "(body_json option \<Rightarrow> 'a parsed) \<Rightarrow> body_json \<Rightarrow> (app_error \<times> field_errors) + 'a" where
  "validate schema body =
     (case schema (Some body) of
        Inl is \<Rightarrow> Inl (ValidationError ''Input validation failed against schema rules.'', field_errors_of is)
      | Inr dto \<Rightarrow> Inr dto)"

section \<open>Handlers\<close>

datatype reply_body =
    OrderData "OrderEntity option"
  | OrderList "OrderEntity list"
  | Failure string string field_errors

record reply =
  rp_status :: nat
  rp_body :: reply_body

datatype handler_result = Reply reply | Pending | NoRoute

text \<open>The service's error handler: the fields of a domain exception, or a plain 500.\<close>

definition order_error :: "app_error \<times> field_errors \<Rightarrow> reply" where
  "order_error err =
     (case (statusCode (fst err), errorCode (fst err)) of
        (Some st, Some code) \<Rightarrow> \<lparr> rp_status = st, rp_body = Failure code (errorMessage (fst err)) (snd err) \<rparr>
      | _ \<Rightarrow> \<lparr> rp_status = 500, rp_body = Failure ''INTERNAL_ORDER_ERROR'' ''Internal server error.'' [] \<rparr>)"

text \<open>A request as the service sees it: what the gateway forwards, the parsed body and the query.\<close>

record service_request =
  sv_http :: http_request
  sv_body :: body_json
  sv_query :: "(string, string) jsmap"

text \<open>\<open>req.body\<close> as an object: the keys of an array are its indices, none of which a schema names.\<close>

definition body_fields :: "body_json \<Rightarrow> (string, body_json) jsmap" where
  "body_fields b = (case b of JObj fs \<Rightarrow> fs | _ \<Rightarrow> [])"

text \<open>\<open>{ ...req.body, tenantId }\<close>; a tenant that is neither in the header nor in the body stays undefined.\<close>

definition with_tenant :: "service_request \<Rightarrow> body_json" where
  "with_tenant req =
     (let fs = body_fields (sv_body req)
      in JObj (case header (sv_http req) ''x-tenant-id'' of
                 Some t \<Rightarrow> if t = [] then fs else jm_set ''tenantId'' (JStr t) fs
               | None \<Rightarrow> fs))"

definition query_tenant :: "service_request \<Rightarrow> string option" where
  "query_tenant req = or_else (header (sv_http req) ''x-tenant-id'') (jm_get (sv_query req) ''tenantId'')"

definition handle_createOrder ::
  "zod_lib \<Rightarrow> instant \<Rightarrow> (nat \<Rightarrow> string) \<Rightarrow> string \<Rightarrow> service_request \<Rightarrow> order_sys \<Rightarrow> order_sys \<times> handler_result" where
  "handle_createOrder zod now uids num req s =
     (case validate (CreateOrderSchema zod) (with_tenant req) of
        Inl err \<Rightarrow> (s, Reply (order_error err))
      | Inr dto \<Rightarrow>
          (order_exec (ActCreate now uids num dto) s,
           Reply \<lparr> rp_status = 201, rp_body = OrderData (Some (snd (createOrder now uids num dto (os_orders s)))) \<rparr>))"

definition handle_getOrder :: "string \<Rightarrow> order_sys \<Rightarrow> handler_result" where
  "handle_getOrder i s =
     (case getOrder i (os_orders s) of
        Inl err \<Rightarrow> Reply (order_error (err, []))
      | Inr e \<Rightarrow> Reply \<lparr> rp_status = 200, rp_body = OrderData (Some e) \<rparr>)"

definition handle_listOrders :: "service_request \<Rightarrow> order_sys \<Rightarrow> handler_result" where
  "handle_listOrders req s =
     Reply \<lparr> rp_status = 200,
       rp_body = OrderList (case query_tenant req of Some t \<Rightarrow> listOrders t (os_orders s) | None \<Rightarrow> []) \<rparr>"

text \<open>
  A cancellation is decided when the lookup it awaits resumes (the task \<open>CancelDecide\<close>); the reply is made of its
  outcome then.
\<close>

definition handle_cancelOrder :: "zod_lib \<Rightarrow> string \<Rightarrow> service_request \<Rightarrow> order_sys \<Rightarrow> order_sys \<times> handler_result" where
  "handle_cancelOrder zod i req s =
     (case validate (CancelOrderSchema zod) (sv_body req) of
        Inl err \<Rightarrow> (s, Reply (order_error err))
      | Inr reason \<Rightarrow> (order_exec (ActCancel i reason) s, Pending))"

definition cancel_reply :: "OrderEntity option outcome \<Rightarrow> reply" where
  "cancel_reply r =
     (case r of
        Inl err \<Rightarrow> order_error (err, [])
      | Inr e \<Rightarrow> \<lparr> rp_status = 200, rp_body = OrderData e \<rparr>)"

definition order_app ::
  "(string \<Rightarrow> string \<Rightarrow> string option) \<Rightarrow> zod_lib \<Rightarrow> instant \<Rightarrow> (nat \<Rightarrow> string) \<Rightarrow> string \<Rightarrow> string \<Rightarrow> service_request
     \<Rightarrow> order_sys \<Rightarrow> order_sys \<times> handler_result" where
  "order_app route zod now uids num path req s =
     (let m = hq_method (sv_http req)
      in if m = ''POST'' \<and> route ''/api/v1/orders'' path \<noteq> None then handle_createOrder zod now uids num req s
         else if m = ''GET'' \<and> route ''/api/v1/orders'' path \<noteq> None then (s, handle_listOrders req s)
         else case (m = ''GET'', route ''/api/v1/orders/:id'' path) of
                (True, Some i) \<Rightarrow> (s, handle_getOrder i s)
              | _ \<Rightarrow>
                (case (m = ''POST'', route ''/api/v1/orders/:id/cancel'' path) of
                   (True, Some i) \<Rightarrow> handle_cancelOrder zod i req s
                 | _ \<Rightarrow> (s, NoRoute)))"

section \<open>What a validated order is\<close>

lemma at_path_Inr [simp]: "at_path k r = Inr x \<longleftrightarrow> r = Inr x"
  by (cases r) (auto simp: at_path_def)

lemma z_key_Inr [simp]: "z_key fs k p = Inr x \<longleftrightarrow> p (jm_get fs k) = Inr x"
  by (simp add: z_key_def)

lemma z_and_Inr [simp]: "z_and f x = Inr y \<longleftrightarrow> (\<exists>g a. f = Inr g \<and> x = Inr a \<and> y = g a)"
  by (cases f; cases x) (auto simp: z_and_def)

lemma map_sum_Inr [simp]: "map_sum id f r = Inr y \<longleftrightarrow> (\<exists>x. r = Inr x \<and> y = f x)"
  by (cases r) auto

lemma z_object_Inr [simp]: "z_object zod p v = Inr x \<longleftrightarrow> (\<exists>fs. v = Some (JObj fs) \<and> p fs = Inr x)"
  by (auto simp: z_object_def split: option.split body_json.split)

lemma z_checks_Inr [simp]: "z_checks zod cs v x = Inr y \<longleftrightarrow> y = x \<and> (\<forall>(c, ok) \<in> set cs. ok x)"
  by (auto simp: z_checks_def Let_def filter_empty_conv)

lemma z_string_Inr [simp]: "z_string zod cs v = Inr s \<longleftrightarrow> v = Some (JStr s) \<and> (\<forall>(c, ok) \<in> set cs. ok s)"
  by (auto simp: z_string_def split: option.split body_json.split)

lemma z_number_Inr [simp]: "z_number zod cs v = Inr x \<longleftrightarrow> v = Some (JNum x) \<and> (\<forall>(c, ok) \<in> set cs. ok x)"
  by (auto simp: z_number_def split: option.split body_json.split)

lemma z_count_pos: "z_count zod v = Inr n \<Longrightarrow> 1 \<le> n"
proof -
  assume "z_count zod v = Inr n"
  then obtain x :: rat where "x = of_int \<lfloor>x\<rfloor>" "0 < x" "n = \<lfloor>x\<rfloor>" by (auto simp: z_count_def)
  then have "0 < (of_int n :: rat)" by metis
  then show ?thesis by simp
qed

lemma z_items_Inr: "z_items n p vs = Inr xs \<Longrightarrow> list_all2 (\<lambda>v x. p (Some v) = Inr x) vs xs"
  by (induction n p vs arbitrary: xs rule: z_items.induct) auto

lemma item_schema: "OrderItemSchema zod v = Inr it \<Longrightarrow> 1 \<le> di_quantity it \<and> 1 \<le> di_unitPriceCents it \<and> 3 \<le> length (di_sku it)"
  by (auto simp: OrderItemSchema_def z_min_def dest: z_count_pos)

lemma create_schema:
  assumes "CreateOrderSchema zod (Some (JObj fs)) = Inr dto"
  shows "co_items dto \<noteq> []" and "\<forall>it \<in> set (co_items dto). 1 \<le> di_quantity it \<and> 1 \<le> di_unitPriceCents it"
    and "jm_get fs ''tenantId'' = Some (JStr (co_tenantId dto))"
proof -
  from assms obtain vs where vs: "jm_get fs ''tenantId'' = Some (JStr (co_tenantId dto))"
    "z_nonempty zod ''Order must contain at least one line item.'' (OrderItemSchema zod) (jm_get fs ''items'') = Inr (co_items dto)"
    by (auto simp: CreateOrderSchema_def)
  then show "jm_get fs ''tenantId'' = Some (JStr (co_tenantId dto))" by simp
  from vs(2) obtain js where "js \<noteq> []" "z_items 0 (OrderItemSchema zod) js = Inr (co_items dto)"
    by (auto simp: z_nonempty_def split: option.splits body_json.splits if_splits)
  with z_items_Inr [OF this(2)] show "co_items dto \<noteq> []" "\<forall>it \<in> set (co_items dto). 1 \<le> di_quantity it \<and> 1 \<le> di_unitPriceCents it"
    by (auto simp: list_all2_conv_all_nth in_set_conv_nth dest!: item_schema)
qed

text \<open>The order a create request makes, and its total.\<close>

lemma create_handled:
  assumes "handle_createOrder zod now uids num req s = (s', Reply r)"
  obtains (rejected) iss where "CreateOrderSchema zod (Some (with_tenant req)) = Inl iss" "s' = s" "rp_status r = 400"
      "rp_body r = Failure ''VALIDATION_FAILED'' ''Input validation failed against schema rules.'' (field_errors_of iss)"
    | (created) dto where "CreateOrderSchema zod (Some (with_tenant req)) = Inr dto" "rp_status r = 201"
      "s' = order_exec (ActCreate now uids num dto) s" "rp_body r = OrderData (Some (snd (createOrder now uids num dto (os_orders s))))"
  using assms
  by (cases "CreateOrderSchema zod (Some (with_tenant req))") (auto simp: handle_createOrder_def validate_def order_error_def)

lemma created_total:
  assumes "\<forall>it \<in> set (co_items dto). 1 \<le> di_quantity it \<and> 1 \<le> di_unitPriceCents it"
    and "snd (createOrder now uids num dto m) = e" and "o_subtotalCents e \<le> 2 ^ 45"
  shows "o_subtotalCents e = (\<Sum>it \<leftarrow> co_items dto. line_total it)"
    and "m_amount (o_totalAmount e) = o_subtotalCents e + (8 * o_subtotalCents e + 50) div 100 + 1500"
proof -
  show sub: "o_subtotalCents e = (\<Sum>it \<leftarrow> co_items dto. line_total it)"
    using assms(2) by (auto simp: createOrder_def Let_def order_create_def foldl_line_total)
  have "0 \<le> (\<Sum>it \<leftarrow> its. line_total it)" if "\<forall>it \<in> set its. 1 \<le> di_quantity it \<and> 1 \<le> di_unitPriceCents it" for its
    using that by (induction its) (auto simp: line_total_def)
  from this [OF assms(1)] have "0 \<le> o_subtotalCents e" by (simp only: sub)
  from order_tax_exact [OF this assms(3)] createOrder_priced [of now uids num dto m]
  show "m_amount (o_totalAmount e) = o_subtotalCents e + (8 * o_subtotalCents e + 50) div 100 + 1500"
    by (simp add: order_priced_def assms(2))
qed

lemma with_tenant_key:
  "jm_get (case with_tenant req of JObj fs \<Rightarrow> fs | _ \<Rightarrow> []) ''tenantId'' =
    (case header (sv_http req) ''x-tenant-id'' of
       Some t \<Rightarrow> if t = [] then jm_get (body_fields (sv_body req)) ''tenantId'' else Some (JStr t)
     | None \<Rightarrow> jm_get (body_fields (sv_body req)) ''tenantId'')"
  by (simp add: with_tenant_def Let_def split: option.split)

text \<open>A request that reaches the service carries the token's tenant.\<close>

lemma forwarded_to_orders:
  assumes "snd (gateway lib cfg t uid hq hits) = Forwarded ORDER_SERVICE path hq'"
  obtains token d where "bearer hq = Some token" "jwtVerify lib token = Inr d" "header hq' ''x-tenant-id'' = cl_tenantId d"
proof (cases rule: gateway_cases [of lib cfg t uid hq hits])
  case routed
  with assms have f: "dispatch_mounts lib (correlationIdMiddleware uid hq) mounts = Forwarded ORDER_SERVICE path hq'" by simp
  from dispatch_forwarded [OF f] mounts_guarded have "authenticateJwt lib False (correlationIdMiddleware uid hq) = Inr hq'"
    by fastforce
  from authenticated [OF this] that show ?thesis by (auto simp: propagated decoded_user_def)
qed (use assms in simp_all)

end
