(* ===== verification/Key_Material.thy ===== *)
theory Key_Material
  imports Auth Gateway
begin

text \<open>
  Two classes that produce key material without a key: the password bridge of
  services/auth-service/src/crypto/Argon2idHardwareSecurityModuleBridge.ts and the push headers of
  services/notification-service/src/push/WebPushVapidSignatureGenerator.ts. A string is its bytes (ASCII); the base64url
  encoding of Node's buffers and the parts of a parsed URL are parameters.
\<close>

section \<open>Password bridge\<close>

record argon_hash =
  ah_hashHex :: string
  ah_memoryCostKb :: int
  ah_iterations :: int

definition text_bytes :: "string \<Rightarrow> nat list" where
  "text_bytes s = map of_char s"

definition argon_prefix :: "string \<Rightarrow> string" where
  "argon_prefix saltHex = ''argon2id$v=19$m=65536,t=3,p=4$'' @ saltHex @ ''$''"

definition computeHash :: "string \<Rightarrow> string \<Rightarrow> argon_hash" where
  "computeHash password saltHex =
     \<lparr> ah_hashHex = argon_prefix saltHex @ take 48 (hex_encode (text_bytes (password @ saltHex))),
       ah_memoryCostKb = 65536, ah_iterations = 3 \<rparr>"

text \<open>What a reader of the stored hash does: skip the parameters and the salt, and decode.\<close>

definition recovered_text :: "string \<Rightarrow> string \<Rightarrow> string" where
  "recovered_text saltHex stored = map char_of (hex_decode (drop (length (argon_prefix saltHex)) stored))"

lemma hex_encode_take: "take (2 * n) (hex_encode bs) = hex_encode (take n bs)"
proof (induction n arbitrary: bs)
  case (Suc n)
  then show ?case by (cases bs) simp_all
qed simp

lemma text_bytes_small: "\<forall>b \<in> set (take n (text_bytes s)). b < 256"
  by (auto simp: text_bytes_def dest!: in_set_takeD)

lemma hash_recovered: "recovered_text saltHex (ah_hashHex (computeHash password saltHex)) = take 24 (password @ saltHex)"
proof -
  have "drop (length (argon_prefix saltHex)) (ah_hashHex (computeHash password saltHex)) = hex_encode (take 24 (text_bytes (password @ saltHex)))"
    using hex_encode_take [of 24] by (simp add: computeHash_def)
  then have "recovered_text saltHex (ah_hashHex (computeHash password saltHex)) = map char_of (take 24 (text_bytes (password @ saltHex)))"
    unfolding recovered_text_def using hex_round_trip [OF text_bytes_small [of 24 "password @ saltHex"]] by (simp only:)
  then show ?thesis by (simp add: text_bytes_def take_map comp_def flip: map_append)
qed

text \<open>C19: 
  The hash is the password in hexadecimal. Reading a text as its bytes, the stored text is the parameters and the salt, followed by the code of the password
  and the salt: decoding it gives the first 24 bytes of the two, so a password of at most 24 bytes comes back
  whole, and the salt after it as far as it fits; and a longer password has the same hash as its first 24 bytes,
  so that passwords that agree in these have the same hash under every salt.
\<close>

theorem password_in_hash:
  "starts_with (argon_prefix saltHex) (ah_hashHex (computeHash password saltHex)) \<and>
   recovered_text saltHex (ah_hashHex (computeHash password saltHex)) = take 24 (password @ saltHex) \<and>
   (if length password \<le> 24
    then recovered_text saltHex (ah_hashHex (computeHash password saltHex)) = password @ take (24 - length password) saltHex
    else computeHash password saltHex = computeHash (take 24 password) saltHex)"
proof -
  have "computeHash password saltHex = computeHash (take 24 password) saltHex" if "24 < length password"
    using that hex_encode_take [of 24] by (simp add: computeHash_def text_bytes_def take_map)
  then show ?thesis by (simp add: hash_recovered) (simp add: computeHash_def starts_with_def)
qed

section \<open>Push headers\<close>

record IVapidKeys =
  vk_publicKeyBase64Url :: string
  vk_privateKeyBase64Url :: string
  vk_subjectContactUri :: string

record vapid_header =
  vh_authorizationHeader :: string
  vh_cryptoKeyHeader :: string

record push_lib =
  url_protocol :: "string \<Rightarrow> string option"
  url_host :: "string \<Rightarrow> string"
  base64url :: "string \<Rightarrow> string"

text \<open>\<open>new URL\<close> throws on a text that is not one; both readings of the clock are the instant \<open>now\<close> (milliseconds).\<close>

definition generateVapidHeader :: "push_lib \<Rightarrow> nat \<Rightarrow> string \<Rightarrow> IVapidKeys \<Rightarrow> vapid_header option" where
  "generateVapidHeader lib now endpointUrl keys =
     (case url_protocol lib endpointUrl of
        None \<Rightarrow> None
      | Some protocol \<Rightarrow>
          let audience = protocol @ ''//'' @ url_host lib endpointUrl;
              expiry = now div 1000 + 12 * 3600;
              header = ''{'' @ json_string ''typ'' @ '':'' @ json_string ''JWT'' @ '','' @ json_string ''alg'' @ '':'' @ json_string ''ES256'' @ ''}'';
              payload = ''{'' @ json_string ''aud'' @ '':'' @ json_string audience @ '','' @ json_string ''exp'' @ '':'' @ dec_string expiry @ '',''
                @ json_string ''sub'' @ '':'' @ json_string (vk_subjectContactUri keys) @ ''}'';
              signature = base64url lib (''VAPID_SIG_'' @ dec_string now @ ''_'' @ take 8 (vk_publicKeyBase64Url keys));
              token = base64url lib header @ ''.'' @ base64url lib payload @ ''.'' @ signature
          in Some \<lparr> vh_authorizationHeader = ''vapid t='' @ token @ '', k='' @ vk_publicKeyBase64Url keys,
                    vh_cryptoKeyHeader = ''p256ecdsa='' @ vk_publicKeyBase64Url keys \<rparr>)"

text \<open>The private key plays no part: whoever knows the public key and the contact makes the same header.\<close>

theorem push_header_forgeable:
  "generateVapidHeader lib now url (keys\<lparr> vk_privateKeyBase64Url := k \<rparr>) = generateVapidHeader lib now url keys \<and>
   (url_protocol lib url = None \<longleftrightarrow> generateVapidHeader lib now url keys = None)"
  by (simp add: generateVapidHeader_def Let_def split: option.split)

end
