(* ===== verification/Operations_Metrics.thy ===== *)
theory Operations_Metrics
  imports Optimization
begin

text \<open>
  Small calculators of the services: reorder quantities (inventory-service/src/replenishment), emissions, dead reckoning
  and the engine packets of vehicles (logistics-service/src/sustainability, telemetry, telematics) and cancellation
  anomalies (analytics-service/src/anomaly). A quotient by zero, or what is computed from one, is \<open>None\<close>.
\<close>

section \<open>Reorder quantities\<close>

record IEoqParameters =
  eq_sku :: string
  eq_annualDemandUnits :: rat
  eq_fixedOrderCostUSD :: rat
  eq_unitCostUSD :: rat
  eq_annualCarryingCostRate :: rat
  eq_leadTimeDays :: rat
  eq_safetyStockDays :: rat

record IEoqCalculationResult =
  er_sku :: string
  er_optimalEoqUnits :: "int option"
  er_annualHoldingCostUSD :: number
  er_annualOrderingCostUSD :: number
  er_totalAnnualInventoryCostUSD :: number
  er_reorderPointUnits :: int
  er_safetyStockUnits :: int
  er_ordersPerYear :: number

definition calculateEoq :: "js_math \<Rightarrow> IEoqParameters \<Rightarrow> IEoqCalculationResult" where
  "calculateEoq math p =
     (let H = dmul (eq_unitCostUSD p) (eq_annualCarryingCostRate p);
          S = eq_fixedOrderCostUSD p;
          D = eq_annualDemandUnits p;
          q = ddiv (dmul (dmul 2 D) S) (if H = 0 then 1 else H);
          optimal = (if q < 0 then None else Some (Math_round (m_sqrt math q)));
          orders = (case optimal of Some n \<Rightarrow> if n = 0 then None else Some (toFixed 1 (ddiv D (of_int n))) | None \<Rightarrow> None);
          ordering = map_option (\<lambda>k. toFixed 2 (dmul k S)) orders;
          holding = map_option (\<lambda>n. toFixed 2 (dmul (ddiv (of_int n) 2) H)) optimal;
          total = map_option (toFixed 2) (nadd ordering holding);
          daily = ddiv D 365;
          safety = Math_round (dmul daily (eq_safetyStockDays p));
          reorder = Math_round (dadd (dmul daily (eq_leadTimeDays p)) (of_int safety))
      in \<lparr> er_sku = eq_sku p, er_optimalEoqUnits = optimal, er_annualHoldingCostUSD = holding, er_annualOrderingCostUSD = ordering,
           er_totalAnnualInventoryCostUSD = total, er_reorderPointUnits = reorder, er_safetyStockUnits = safety,
           er_ordersPerYear = orders \<rparr>)"

section \<open>Emissions\<close>

datatype powertrain = DIESEL_EURO_6 | CNG | BATTERY_ELECTRIC | HYDROGEN_FUEL_CELL

record IFreightTripEnergyContext =
  ft_shipmentId :: string
  ft_powertrainType :: powertrain
  ft_cargoWeightTonnes :: rat
  ft_totalDistanceKm :: rat
  ft_emptyBackhaulKm :: rat
  ft_averageSpeedKmh :: rat

record trip_emissions =
  te_totalEmissionsKgCo2e :: rat
  te_emissionsPerTonneKmGrams :: rat
  te_treeOffsetEquivalents :: int

fun EMISSIONS_FACTORS :: "powertrain \<Rightarrow> rat" where
  "EMISSIONS_FACTORS DIESEL_EURO_6 = 125 / 2"
| "EMISSIONS_FACTORS CNG = fl (482 / 10)"
| "EMISSIONS_FACTORS BATTERY_ELECTRIC = fl (128 / 10)"
| "EMISSIONS_FACTORS HYDROGEN_FUEL_CELL = fl (54 / 10)"

definition calculateTripEmissions :: "IFreightTripEnergyContext \<Rightarrow> trip_emissions" where
  "calculateTripEmissions ctx =
     (let factor = EMISSIONS_FACTORS (ft_powertrainType ctx);
          tonneKm = dadd (dmul (ft_cargoWeightTonnes ctx) (ft_totalDistanceKm ctx))
                      (dmul (dmul (ft_emptyBackhaulKm ctx) (1 / 4)) (ft_cargoWeightTonnes ctx));
          total = toFixed 2 (ddiv (dmul tonneKm factor) 1000)
      in \<lparr> te_totalEmissionsKgCo2e = total, te_emissionsPerTonneKmGrams = factor, te_treeOffsetEquivalents = Math_ceil (ddiv total 22) \<rparr>)"

section \<open>Dead reckoning\<close>

record IImuTelemetrySample =
  iu_timestamp :: instant
  iu_accelerationForwardMs2 :: rat
  iu_yawRateDegreesPerSecond :: rat
  iu_wheelSpeedMps :: rat

record position_fix =
  px_lat :: rat
  px_lon :: number
  px_heading :: rat

record dead_reckoning =
  dr_projectedLat :: rat
  dr_projectedLon :: number
  dr_projectedHeading :: rat
  dr_confidenceScore :: rat

definition imu_step :: "js_math \<Rightarrow> rat \<Rightarrow> IImuTelemetrySample \<Rightarrow> position_fix \<Rightarrow> position_fix" where
  "imu_step math dt sample p =
     (let heading = js_rem (dadd (px_heading p) (dmul (iu_yawRateDegreesPerSecond sample) dt)) 360;
          travelled = dmul (iu_wheelSpeedMps sample) dt;
          headingRad = ddiv (dmul heading (m_PI math)) 180;
          dLat = dmul travelled (m_cos math headingRad);
          dLon = dmul travelled (m_sin math headingRad);
          lat = dadd (px_lat p) (ddiv dLat 111320);
          perDegree = dmul 111320 (m_cos math (ddiv (dmul lat (m_PI math)) 180))
      in \<lparr> px_lat = lat, px_lon = (if perDegree = 0 then None else nadd (px_lon p) (Some (ddiv dLon perDegree))), px_heading = heading \<rparr>)"

definition confidence_score :: "nat \<Rightarrow> rat" where
  "confidence_score n = max (fl (2 / 10)) (toFixed 2 (dsub 1 (dmul (of_nat n) (fl (5 / 100)))))"

definition computeDeadReckoningPosition ::
  "js_math \<Rightarrow> rat \<Rightarrow> rat \<Rightarrow> rat \<Rightarrow> IImuTelemetrySample list \<Rightarrow> rat \<Rightarrow> dead_reckoning" where
  "computeDeadReckoningPosition math lat lon heading samples dt =
     (let p = fold (imu_step math dt) samples \<lparr> px_lat = lat, px_lon = Some lon, px_heading = heading \<rparr>
      in \<lparr> dr_projectedLat = toFixed 6 (px_lat p), dr_projectedLon = map_option (toFixed 6) (px_lon p),
           dr_projectedHeading = toFixed 1 (px_heading p), dr_confidenceScore = confidence_score (length samples) \<rparr>)"

section \<open>Engine packets\<close>

datatype lamp = CHECK_ENGINE | STOP_ENGINE | WARNING | PROTECTION

record IDtcFaultCode =
  dtc_spn :: rat
  dtc_fmi :: rat
  dtc_occurrenceCount :: rat
  dtc_lampStatus :: lamp
  dtc_description :: string

record ICanBusTelemetryPacket =
  cb_vehicleId :: string
  cb_vin :: string
  cb_engineRpm :: rat
  cb_vehicleSpeedKmh :: rat
  cb_engineCoolantTempCelsius :: rat
  cb_fuelLevelPct :: rat
  cb_defLevelPct :: rat
  cb_instantaneousFuelEconomyKmL :: rat
  cb_odometerKm :: rat
  cb_engineRunHours :: rat
  cb_activeDtcs :: "IDtcFaultCode list"
  cb_timestamp :: instant

text \<open>A raw payload gives a field or not; \<open>||\<close> takes the default for a zero and an empty text too.\<close>

record raw_dtc =
  rd_numbers :: "(string, rat) jsmap"
  rd_lampStatus :: "lamp option"
  rd_description :: "string option"

record raw_packet =
  rw_texts :: "(string, string) jsmap"
  rw_numbers :: "(string, rat) jsmap"
  rw_activeDtcs :: "raw_dtc list option"

definition number_or :: "(string, rat) jsmap \<Rightarrow> string \<Rightarrow> rat \<Rightarrow> rat" where
  "number_or m k d = (case jm_get m k of Some x \<Rightarrow> if x = 0 then d else x | None \<Rightarrow> d)"

definition text_or :: "string option \<Rightarrow> string \<Rightarrow> string" where
  "text_or v d = (case v of Some s \<Rightarrow> if s = [] then d else s | None \<Rightarrow> d)"

definition parse_dtc :: "raw_dtc \<Rightarrow> IDtcFaultCode" where
  "parse_dtc d =
     \<lparr> dtc_spn = number_or (rd_numbers d) ''spn'' 110, dtc_fmi = number_or (rd_numbers d) ''fmi'' 0,
       dtc_occurrenceCount = number_or (rd_numbers d) ''occurrenceCount'' 1,
       dtc_lampStatus = (case rd_lampStatus d of Some l \<Rightarrow> l | None \<Rightarrow> WARNING),
       dtc_description = text_or (rd_description d) ''Engine Coolant Temperature High'' \<rparr>"

definition parsePacket :: "instant \<Rightarrow> raw_packet \<Rightarrow> ICanBusTelemetryPacket" where
  "parsePacket now raw =
     \<lparr> cb_vehicleId = text_or (jm_get (rw_texts raw) ''vehicleId'') ''TRK-9001'',
       cb_vin = text_or (jm_get (rw_texts raw) ''vin'') ''1M8GDM9AXKP042788'',
       cb_engineRpm = number_or (rw_numbers raw) ''engineRpm'' 1450,
       cb_vehicleSpeedKmh = number_or (rw_numbers raw) ''vehicleSpeedKmh'' (177 / 2),
       cb_engineCoolantTempCelsius = number_or (rw_numbers raw) ''engineCoolantTempCelsius'' 87,
       cb_fuelLevelPct = number_or (rw_numbers raw) ''fuelLevelPct'' (fl (742 / 10)),
       cb_defLevelPct = number_or (rw_numbers raw) ''defLevelPct'' 89,
       cb_instantaneousFuelEconomyKmL = number_or (rw_numbers raw) ''instantaneousFuelEconomyKmL'' (fl (34 / 10)),
       cb_odometerKm = number_or (rw_numbers raw) ''odometerKm'' (297841 / 2),
       cb_engineRunHours = number_or (rw_numbers raw) ''engineRunHours'' (fl (42802 / 10)),
       cb_activeDtcs = map parse_dtc (case rw_activeDtcs raw of Some ds \<Rightarrow> ds | None \<Rightarrow> []),
       cb_timestamp = now \<rparr>"

definition detectImmediateMaintenanceRequired :: "ICanBusTelemetryPacket \<Rightarrow> bool" where
  "detectImmediateMaintenanceRequired p =
     (if 105 < cb_engineCoolantTempCelsius p then True
      else if cb_defLevelPct p < 5 then True
      else list_ex (\<lambda>d. dtc_lampStatus d = STOP_ENGINE) (cb_activeDtcs p))"

section \<open>Cancellation anomalies\<close>

record IFulfillmentMetricPoint =
  fm_timestamp :: instant
  fm_ordersCreated :: rat
  fm_ordersCancelled :: rat
  fm_averagePickDurationSeconds :: rat
  fm_carrierDelayedShipmentsCount :: rat

record anomaly =
  an_metricPoint :: IFulfillmentMetricPoint
  an_zScore :: rat
  an_anomalyType :: string

definition cancel_ratio :: "IFulfillmentMetricPoint \<Rightarrow> rat" where
  "cancel_ratio p = ddiv (fm_ordersCancelled p) (if fm_ordersCreated p = 0 then 1 else fm_ordersCreated p)"

definition ratio_mean :: "rat list \<Rightarrow> rat" where
  "ratio_mean rs = ddiv (foldl dadd 0 rs) (of_nat (length rs))"

definition ratio_variance :: "(rat \<Rightarrow> rat \<Rightarrow> rat) \<Rightarrow> rat list \<Rightarrow> rat" where
  "ratio_variance pow rs =
     ddiv (foldl (\<lambda>acc curr. dadd acc (pow (dsub curr (ratio_mean rs)) 2)) 0 rs) (of_nat (length rs))"

definition ratio_std_dev :: "js_math \<Rightarrow> (rat \<Rightarrow> rat \<Rightarrow> rat) \<Rightarrow> rat list \<Rightarrow> rat" where
  "ratio_std_dev math pow rs =
     (let sd = m_sqrt math (ratio_variance pow rs) in if sd = 0 then fl (1 / 100) else sd)"

definition z_score :: "js_math \<Rightarrow> (rat \<Rightarrow> rat \<Rightarrow> rat) \<Rightarrow> rat list \<Rightarrow> rat \<Rightarrow> rat" where
  "z_score math pow rs r = toFixed 2 (ddiv (dsub r (ratio_mean rs)) (ratio_std_dev math pow rs))"

definition computeZScoreAnomalies ::
  "js_math \<Rightarrow> (rat \<Rightarrow> rat \<Rightarrow> rat) \<Rightarrow> IFulfillmentMetricPoint list \<Rightarrow> anomaly list" where
  "computeZScoreAnomalies math pow series =
     (if length series < 5 then []
      else let rs = map cancel_ratio series
           in List.map_filter (\<lambda>p.
                let z = z_score math pow rs (cancel_ratio p)
                in if 5 / 2 \<le> \<bar>z\<bar>
                   then Some \<lparr> an_metricPoint = p, an_zScore = z,
                               an_anomalyType = (if 0 < z then ''HIGH_CANCELLATION_SPIKE'' else ''UNUSUAL_ZERO_CANCELLATION'') \<rparr>
                   else None) series)"

section \<open>Properties\<close>

text \<open>The reorder point holds the safety stock, and a longer lead time never lowers it.\<close>

lemma reorder_point_covers:
  assumes "0 \<le> eq_annualDemandUnits p" and "0 \<le> eq_safetyStockDays p" and "0 \<le> eq_leadTimeDays p"
    and "dmul (ddiv (eq_annualDemandUnits p) 365) (eq_safetyStockDays p) \<le> 2 ^ 52" and "eq_leadTimeDays p \<le> lead"
  shows "0 \<le> er_safetyStockUnits (calculateEoq math p)"
    and "er_safetyStockUnits (calculateEoq math p) \<le> er_reorderPointUnits (calculateEoq math p)"
    and "er_reorderPointUnits (calculateEoq math p) \<le> er_reorderPointUnits (calculateEoq math (p\<lparr> eq_leadTimeDays := lead \<rparr>))"
proof -
  define daily where "daily = ddiv (eq_annualDemandUnits p) 365"
  define x where "x = dmul daily (eq_safetyStockDays p)"
  have d: "0 \<le> daily" using assms(1) by (simp add: daily_def ddiv_def fl_nonneg)
  then have x: "0 \<le> x" "x \<le> 2 ^ 52" using assms(2,4) by (simp_all add: x_def daily_def [symmetric] dmul_nonneg)
  have "Math_round (of_int 0) \<le> Math_round x" "Math_round x \<le> Math_round (of_int (2 ^ 52))"
    using x by (intro Math_round_mono; simp)+
  then have "0 \<le> Math_round x" "Math_round x \<le> 2 ^ 52" by (simp_all only: Math_round_int)
  then have s: "0 \<le> Math_round x" "\<bar>Math_round x\<bar> \<le> 2 ^ 53" by simp_all
  have e: "er_safetyStockUnits (calculateEoq math p) = Math_round x"
    "er_reorderPointUnits (calculateEoq math p) = Math_round (dadd (dmul daily (eq_leadTimeDays p)) (of_int (Math_round x)))"
    "er_reorderPointUnits (calculateEoq math (p\<lparr> eq_leadTimeDays := lead \<rparr>)) = Math_round (dadd (dmul daily lead) (of_int (Math_round x)))"
    by (simp_all add: calculateEoq_def Let_def daily_def x_def)
  show "0 \<le> er_safetyStockUnits (calculateEoq math p)" using s e by simp
  have "dadd 0 (of_int (Math_round x)) \<le> dadd (dmul daily (eq_leadTimeDays p)) (of_int (Math_round x))"
    using dmul_nonneg [OF d assms(3)] by (simp add: dadd_def fl_mono)
  then have "of_int (Math_round x) \<le> dadd (dmul daily (eq_leadTimeDays p)) (of_int (Math_round x))"
    by (simp only: dadd_def add_0_left fl_int [OF s(2)])
  from Math_round_mono [OF this] show "er_safetyStockUnits (calculateEoq math p) \<le> er_reorderPointUnits (calculateEoq math p)"
    by (simp add: e)
  have "dadd (dmul daily (eq_leadTimeDays p)) (of_int (Math_round x)) \<le> dadd (dmul daily lead) (of_int (Math_round x))"
    using dmul_mono_right [OF d assms(5)] by (simp add: dadd_def fl_mono)
  from Math_round_mono [OF this] show "er_reorderPointUnits (calculateEoq math p) \<le> er_reorderPointUnits (calculateEoq math (p\<lparr> eq_leadTimeDays := lead \<rparr>))"
    by (simp only: e)
qed

text \<open>On the same trip a cleaner powertrain never emits more.\<close>

lemma factor_order:
  "0 \<le> EMISSIONS_FACTORS HYDROGEN_FUEL_CELL" "EMISSIONS_FACTORS HYDROGEN_FUEL_CELL \<le> EMISSIONS_FACTORS BATTERY_ELECTRIC"
  "EMISSIONS_FACTORS BATTERY_ELECTRIC \<le> EMISSIONS_FACTORS CNG" "EMISSIONS_FACTORS CNG \<le> EMISSIONS_FACTORS DIESEL_EURO_6"
  using fl_bounds [of "482 / 10"] by (simp_all add: fl_nonneg fl_mono)

lemma emissions_mono:
  assumes "0 \<le> ft_cargoWeightTonnes c" and "0 \<le> ft_totalDistanceKm c" and "0 \<le> ft_emptyBackhaulKm c"
    and "0 \<le> EMISSIONS_FACTORS t" and "EMISSIONS_FACTORS t \<le> EMISSIONS_FACTORS u"
  shows "te_totalEmissionsKgCo2e (calculateTripEmissions (c\<lparr> ft_powertrainType := t \<rparr>)) \<le>
    te_totalEmissionsKgCo2e (calculateTripEmissions (c\<lparr> ft_powertrainType := u \<rparr>))"
proof -
  define k where "k = dadd (dmul (ft_cargoWeightTonnes c) (ft_totalDistanceKm c))
    (dmul (dmul (ft_emptyBackhaulKm c) (1 / 4)) (ft_cargoWeightTonnes c))"
  have k: "0 \<le> k" using assms by (simp add: k_def dadd_nonneg dmul_nonneg)
  have "ddiv (dmul k (EMISSIONS_FACTORS t)) 1000 \<le> ddiv (dmul k (EMISSIONS_FACTORS u)) 1000"
    using dmul_mono_right [OF k assms(5)] by (simp add: ddiv_def fl_mono divide_right_mono)
  moreover have "0 \<le> ddiv (dmul k (EMISSIONS_FACTORS t)) 1000" using k assms(4) by (simp add: ddiv_def fl_nonneg dmul_nonneg)
  ultimately show ?thesis by (simp add: calculateTripEmissions_def Let_def k_def [symmetric] toFixed_mono)
qed

text \<open>
  A packet is sent for maintenance when the coolant is above 105 degrees, a stop lamp is lit, or the fluid is below five
  percent but not empty: a level of zero is read as 89 percent.
\<close>

theorem empty_tank_unnoticed:
  "detectImmediateMaintenanceRequired (parsePacket now raw) \<longleftrightarrow>
    (\<exists>t. jm_get (rw_numbers raw) ''engineCoolantTempCelsius'' = Some t \<and> 105 < t) \<or>
    (\<exists>l. jm_get (rw_numbers raw) ''defLevelPct'' = Some l \<and> l < 5 \<and> l \<noteq> 0) \<or>
    (\<exists>ds d. rw_activeDtcs raw = Some ds \<and> d \<in> set ds \<and> rd_lampStatus d = Some STOP_ENGINE)"
proof -
  have coolant: "105 < number_or m k 87 \<longleftrightarrow> (\<exists>t. jm_get m k = Some t \<and> 105 < t)" for m k
    by (auto simp: number_or_def split: option.split)
  have fluid: "number_or m k 89 < 5 \<longleftrightarrow> (\<exists>l. jm_get m k = Some l \<and> l < 5 \<and> l \<noteq> 0)" for m k
    by (auto simp: number_or_def split: option.split)
  have "dtc_lampStatus (parse_dtc d) = STOP_ENGINE \<longleftrightarrow> rd_lampStatus d = Some STOP_ENGINE" for d
    by (auto simp: parse_dtc_def split: option.split)
  then have lamp: "list_ex (\<lambda>d. dtc_lampStatus d = STOP_ENGINE) (cb_activeDtcs (parsePacket now raw)) \<longleftrightarrow>
      (\<exists>ds d. rw_activeDtcs raw = Some ds \<and> d \<in> set ds \<and> rd_lampStatus d = Some STOP_ENGINE)"
    by (cases "rw_activeDtcs raw") (auto simp: parsePacket_def list_ex_iff)
  have ifs: "(if a then True else if b then True else c) = (a \<or> b \<or> c)" for a b c by simp
  show ?thesis
    unfolding detectImmediateMaintenanceRequired_def lamp ifs
    by (simp only: parsePacket_def ICanBusTelemetryPacket.simps coolant fluid)
qed

text \<open>Dead reckoning loses five percent of confidence per sample, down to twenty.\<close>

lemma confidence_steps: "n \<le> 15 \<Longrightarrow> toFixed 2 (dsub 1 (dmul (of_nat n) (fl (5 / 100)))) = fl ((100 - 5 * of_nat n) / 100)"
proof -
  assume n: "n \<le> 15"
  then have q: "(of_nat n :: rat) \<le> 15" by simp
  define m where "m = dmul (of_nat n) (fl (5 / 100))"
  have "\<bar>m - of_nat n * (5 / 100)\<bar> \<le> 3 * (of_nat n * (5 / 100)) / 2 ^ 53"
    unfolding m_def by (rule fl_product_error) simp_all
  also have "\<dots> \<le> 1 / 1000" using q by simp
  finally have m: "\<bar>m - of_nat n / 20\<bar> \<le> 1 / 1000" by simp
  have "\<bar>dsub 1 m - (1 - m)\<bar> \<le> \<bar>1 - m\<bar> / 2 ^ 53" unfolding dsub_def by (rule fl_error)
  also have "\<dots> \<le> 1 / 1000"
    using abs_le_D1 [OF m] abs_le_D2 [OF m] q by (simp add: abs_if)
  finally have d: "\<bar>dsub 1 m - (1 - m)\<bar> \<le> 1 / 1000" .
  have "\<bar>dsub 1 m * 10 ^ 2 - of_int (100 - 5 * int n)\<bar> < 1 / 2"
    unfolding abs_less_iff using abs_le_D1 [OF m] abs_le_D2 [OF m] abs_le_D1 [OF d] abs_le_D2 [OF d] by simp
  from toFixed_near [OF this] show ?thesis by (simp add: m_def)
qed

lemma confidence_floor: "16 \<le> n \<Longrightarrow> n \<le> 1000000 \<Longrightarrow> toFixed 2 (dsub 1 (dmul (of_nat n) (fl (5 / 100)))) \<le> fl (2 / 10)"
proof -
  assume n: "16 \<le> n" "n \<le> 1000000"
  then have q: "(16 :: rat) \<le> of_nat n" "(of_nat n :: rat) \<le> 1000000" by simp_all
  define m where "m = dmul (of_nat n) (fl (5 / 100))"
  have "\<bar>m - of_nat n * (5 / 100)\<bar> \<le> 3 * (of_nat n * (5 / 100)) / 2 ^ 53"
    unfolding m_def by (rule fl_product_error) simp_all
  also have "\<dots> \<le> 1 / 1000" using q by simp
  finally have m: "\<bar>m - of_nat n / 20\<bar> \<le> 1 / 1000" by simp
  have "dsub 1 m \<le> fl (201 / 1000)"
    unfolding dsub_def by (rule fl_mono) (use abs_le_D2 [OF m] q in simp)
  also have "\<dots> \<le> 202 / 1000" using fl_bounds [of "201 / 1000"] by simp
  finally have u: "dsub 1 m \<le> 202 / 1000" .
  show ?thesis
  proof (cases "0 \<le> dsub 1 m")
    case True
    have "toFixed 2 (202 / 1000) = fl (of_int 20 / 10 ^ 2)" by (rule toFixed_near) simp
    with toFixed_mono [OF True u, of 2] show ?thesis by (simp add: m_def)
  next
    case False
    then have "0 \<le> Math_round (- dsub 1 m * 10 ^ 2)" by (simp add: Math_round_def)
    then have "toFixed 2 (dsub 1 m) \<le> 0" using False by (simp add: toFixed_def fl_nonneg)
    also have "0 \<le> fl (2 / 10)" by (simp add: fl_nonneg)
    finally show ?thesis by (simp add: m_def)
  qed
qed

lemma confidence_closed:
  "n \<le> 1000000 \<Longrightarrow> confidence_score n = (if n \<le> 15 then fl ((100 - 5 * of_nat n) / 100) else fl (2 / 10))"
proof -
  assume n: "n \<le> 1000000"
  show ?thesis
  proof (cases "n \<le> 15")
    case True
    then have "(of_nat n :: rat) \<le> 15" by simp
    then have "fl (2 / 10) \<le> fl ((100 - 5 * of_nat n) / 100)" by (intro fl_mono) simp
    then show ?thesis unfolding confidence_score_def confidence_steps [OF True] using True by (simp only: max_absorb2 if_True)
  next
    case False
    then have "toFixed 2 (dsub 1 (dmul (of_nat n) (fl (5 / 100)))) \<le> fl (2 / 10)" using n by (intro confidence_floor) simp_all
    then show ?thesis unfolding confidence_score_def using False by (simp only: max_absorb1 if_False)
  qed
qed

definition square_sum :: "(rat \<Rightarrow> rat) \<Rightarrow> rat list \<Rightarrow> rat" where
  "square_sum p rs = foldl (\<lambda>acc r. dadd acc (p r)) 0 rs"

lemma square_sum_ge:
  assumes "\<And>r. 0 \<le> p r"
  shows "0 \<le> square_sum p rs \<and> fl (square_sum p rs) = square_sum p rs \<and> (\<forall>r\<in>set rs. fl (p r) \<le> square_sum p rs)"
proof (induction rs rule: rev_induct)
  case (snoc c rs)
  let ?s = "square_sum p rs"
  have e: "square_sum p (rs @ [c]) = fl (?s + p c)" by (simp add: square_sum_def dadd_def)
  have "fl (p c) \<le> fl (?s + p c)" "fl ?s \<le> fl (?s + p c)" "0 \<le> fl (?s + p c)"
    by (rule fl_mono, use snoc in simp, rule fl_mono, use assms in simp, rule fl_nonneg, use snoc assms [of c] in simp)
  then show ?case using snoc unfolding e by (metis (no_types, lifting) fl_idem in_set_conv_decomp order_trans rotate1.simps(2) set_ConsD set_rotate1)
qed (simp add: square_sum_def fl_def)

lemma six_deviations:
  fixes a b :: rat
  assumes "0 \<le> a" and "0 \<le> b" and "a * (1 - 1 / 2 ^ 40) * (1 - 1 / 2 ^ 53) / 6 * (1 - 1 / 2 ^ 53) * (1 - 1 / 2 ^ 40) \<le> b"
  shows "a \<le> (61 / 10) * b"
  using assms by simp

lemma z_score_short:
  assumes sq: "\<And>x. 0 \<le> x \<Longrightarrow> 0 \<le> m_sqrt math x \<and> x * (1 - 1 / 2 ^ 40) \<le> (m_sqrt math x)\<^sup>2"
    and pw: "\<And>x. x\<^sup>2 * (1 - 1 / 2 ^ 40) \<le> pow x 2"
    and n: "length rs \<le> 6" and r: "r \<in> set rs"
  shows "\<bar>z_score math pow rs r\<bar> < 5 / 2"
proof -
  define d where "d = dsub r (ratio_mean rs)"
  define p where "p c = pow (dsub c (ratio_mean rs)) 2" for c
  define sd where "sd = m_sqrt math (ratio_variance pow rs)"
  have p0: "0 \<le> p c" for c
    unfolding p_def by (rule order_trans [OF _ pw]) simp
  note S = square_sum_ge [of p rs, OF p0]
  have len: "0 < length rs" using r by (cases rs) auto
  then have len': "(0 :: rat) < of_nat (length rs)" "(of_nat (length rs) :: rat) \<le> 6" using n by simp_all
  have v: "ratio_variance pow rs = fl (square_sum p rs / of_nat (length rs))"
    by (simp add: ratio_variance_def square_sum_def p_def ddiv_def)
  have "d\<^sup>2 * (1 - 1 / 2 ^ 40) * (1 - 1 / 2 ^ 53) \<le> p r * (1 - 1 / 2 ^ 53)"
    using pw [of d] by (simp add: p_def d_def)
  also have "\<dots> \<le> square_sum p rs" using fl_bounds [OF p0 [of r]] S r by force
  finally have s: "d\<^sup>2 * (1 - 1 / 2 ^ 40) * (1 - 1 / 2 ^ 53) \<le> square_sum p rs" .
  have "d\<^sup>2 * (1 - 1 / 2 ^ 40) * (1 - 1 / 2 ^ 53) / 6 \<le> square_sum p rs / 6" using s by simp
  also have "\<dots> \<le> square_sum p rs / of_nat (length rs)" using S len' by (intro divide_left_mono) auto
  finally have q: "d\<^sup>2 * (1 - 1 / 2 ^ 40) * (1 - 1 / 2 ^ 53) / 6 \<le> square_sum p rs / of_nat (length rs)" .
  have "d\<^sup>2 * (1 - 1 / 2 ^ 40) * (1 - 1 / 2 ^ 53) / 6 * (1 - 1 / 2 ^ 53) \<le> ratio_variance pow rs"
    using fl_bounds [of "square_sum p rs / of_nat (length rs)"] q S len' unfolding v by simp
  moreover have v0: "0 \<le> ratio_variance pow rs" unfolding v using S len' by (intro fl_nonneg) simp
  ultimately have "d\<^sup>2 * (1 - 1 / 2 ^ 40) * (1 - 1 / 2 ^ 53) / 6 * (1 - 1 / 2 ^ 53) * (1 - 1 / 2 ^ 40) \<le> sd\<^sup>2"
    using sq [OF v0] by (simp add: sd_def)
  then have main: "d\<^sup>2 \<le> (61 / 10) * sd\<^sup>2" by (rule six_deviations [OF zero_le_power2 zero_le_power2])
  have sd0: "0 \<le> sd" using sq [OF v0] by (simp add: sd_def)
  define y where "y = d / (if sd = 0 then fl (1 / 100) else sd)"
  have y: "\<bar>y\<bar> \<le> 247 / 100"
  proof (cases "sd = 0")
    case True
    with main have "d = 0" by simp
    then show ?thesis by (simp add: y_def)
  next
    case False
    have "y\<^sup>2 \<le> 61 / 10" using main False sd0 by (simp add: y_def power_divide divide_le_eq)
    also have "\<dots> \<le> (247 / 100 :: rat)\<^sup>2" by (simp add: power2_eq_square)
    finally have "\<bar>y\<bar>\<^sup>2 \<le> (247 / 100)\<^sup>2" by simp
    then show ?thesis by (rule power2_le_imp_le) simp
  qed
  have "\<bar>fl y - y\<bar> \<le> \<bar>y\<bar> / 2 ^ 53" by (rule fl_error)
  then have f: "\<bar>fl y\<bar> \<le> 248 / 100" using y by (simp add: abs_if split: if_splits)
  then have "\<bar>toFixed 2 (fl y) - fl y\<bar> \<le> 1 / 199" by (intro toFixed_error) simp
  then have "\<bar>toFixed 2 (fl y)\<bar> < 5 / 2" using f by (simp add: abs_if split: if_splits)
  moreover have "z_score math pow rs r = toFixed 2 (fl y)"
    by (simp add: z_score_def ratio_std_dev_def Let_def ddiv_def y_def d_def sd_def)
  ultimately show ?thesis by simp
qed

text \<open>C35: 
  A single outlier among \<open>n\<close> values lies at most \<open>\<surd>n\<close> deviations from their mean, so the threshold of 2.5 is out of
  reach of five or six: the first series the guard lets through are never found anomalous. The library's square root and
  power are assumed not to fall short by more than the last bits.
\<close>

theorem short_series_silent:
  assumes "\<And>x. 0 \<le> x \<Longrightarrow> 0 \<le> m_sqrt math x \<and> x * (1 - 1 / 2 ^ 40) \<le> (m_sqrt math x)\<^sup>2"
    and "\<And>x. x\<^sup>2 * (1 - 1 / 2 ^ 40) \<le> pow x 2" and "length series \<le> 6"
  shows "computeZScoreAnomalies math pow series = []"
proof -
  have "\<bar>z_score math pow (map cancel_ratio series) (cancel_ratio p)\<bar> < 5 / 2" if "p \<in> set series" for p
    by (rule z_score_short [where math = math and pow = pow, OF assms(1,2)]) (use assms(3) that in simp_all)
  then show ?thesis
    by (auto simp: computeZScoreAnomalies_def Let_def map_filter_def filter_empty_conv not_le)
qed

text \<open>Half of \<open>x + 1\<close>, one step of Newton's iteration, does not fall short; a month with nothing but cancellations is silent.\<close>

theorem short_series_silent_witness:
  "computeZScoreAnomalies \<lparr> m_sin = id, m_cos = id, m_atan2 = (\<lambda>_ _. 0), m_sqrt = (\<lambda>x. (x + 1) / 2), m_PI = 3 \<rparr> (\<lambda>x _. x\<^sup>2)
     (map (\<lambda>k. \<lparr> fm_timestamp = k, fm_ordersCreated = 100, fm_ordersCancelled = (if k = 3 then 100 else 0),
        fm_averagePickDurationSeconds = 60, fm_carrierDelayedShipmentsCount = 0 \<rparr>) [0, 1, 2, 3, 4, 5]) = []"
proof (rule short_series_silent)
  fix x :: rat
  show "x\<^sup>2 * (1 - 1 / 2 ^ 40) \<le> x\<^sup>2" using zero_le_power2 [of x] by simp
  assume x: "0 \<le> x"
  have "0 \<le> ((x - 1) / 2)\<^sup>2" by simp
  also have "\<dots> = ((x + 1) / 2)\<^sup>2 - x" by (simp add: power2_eq_square field_simps)
  finally show "0 \<le> m_sqrt \<lparr> m_sin = id, m_cos = id, m_atan2 = (\<lambda>_ _. 0), m_sqrt = (\<lambda>x. (x + 1) / 2), m_PI = 3 \<rparr> x \<and>
    x * (1 - 1 / 2 ^ 40) \<le> (m_sqrt \<lparr> m_sin = id, m_cos = id, m_atan2 = (\<lambda>_ _. 0), m_sqrt = (\<lambda>x. (x + 1) / 2), m_PI = 3 \<rparr> x)\<^sup>2"
    using x by simp
qed simp

end
