(* ===== verification/Trade_Documents.thy ===== *)
theory Trade_Documents
  imports Reference_Tables
begin

text \<open>
  Papers of a shipment: the tariff schedule (order-service/src/customs), commercial invoices (order-service/src/invoicing),
  chargeback evidence (order-service/src/disputes) and electronic invoices (billing-service/src/invoicing).
\<close>

section \<open>Tariff schedule\<close>

record IHtsClassificationRecord =
  ht_htsCode :: string
  ht_chapterNumber :: int
  ht_headingNumber :: string
  ht_subheadingNumber :: string
  ht_descriptionText :: string
  ht_generalDutyRatePct :: rat
  ht_specialDutyTradeAgreementPct :: rat
  ht_eccnExportControlRating :: "string option"
  ht_requiresExportLicense :: bool

definition hts_entries :: "IHtsClassificationRecord list" where
  "hts_entries =
     [\<lparr> ht_htsCode = ''8471.30.0100'', ht_chapterNumber = 84, ht_headingNumber = ''8471'', ht_subheadingNumber = ''8471.30'',
        ht_descriptionText = ''Portable automatic data processing machines, weighing not more than 10 kg'',
        ht_generalDutyRatePct = 0, ht_specialDutyTradeAgreementPct = 0, ht_eccnExportControlRating = Some ''5A002'',
        ht_requiresExportLicense = False \<rparr>,
      \<lparr> ht_htsCode = ''8504.40.9580'', ht_chapterNumber = 85, ht_headingNumber = ''8504'', ht_subheadingNumber = ''8504.40'',
        ht_descriptionText = ''Static converters, power supplies for automatic data processing machines'',
        ht_generalDutyRatePct = 3 / 2, ht_specialDutyTradeAgreementPct = 0, ht_eccnExportControlRating = Some ''EAR99'',
        ht_requiresExportLicense = False \<rparr>,
      \<lparr> ht_htsCode = ''8708.29.5060'', ht_chapterNumber = 87, ht_headingNumber = ''8708'', ht_subheadingNumber = ''8708.29'',
        ht_descriptionText = ''Parts and accessories of the motor vehicles of headings 8701 to 8705'',
        ht_generalDutyRatePct = 5 / 2, ht_specialDutyTradeAgreementPct = 0, ht_eccnExportControlRating = Some ''EAR99'',
        ht_requiresExportLicense = False \<rparr>,
      \<lparr> ht_htsCode = ''9013.80.9000'', ht_chapterNumber = 90, ht_headingNumber = ''9013'', ht_subheadingNumber = ''9013.80'',
        ht_descriptionText = ''Liquid crystal devices, not constituting articles provided for more specifically in other headings'',
        ht_generalDutyRatePct = 9 / 2, ht_specialDutyTradeAgreementPct = 0, ht_eccnExportControlRating = Some ''6A005'',
        ht_requiresExportLicense = True \<rparr>]"

definition lookupHtsCode :: "string \<Rightarrow> IHtsClassificationRecord option" where
  "lookupHtsCode code = jm_get (seeded ht_htsCode hts_entries) code"

definition searchByKeyword :: "string \<Rightarrow> IHtsClassificationRecord list" where
  "searchByKeyword keyword =
     (let lower = to_lower keyword
      in filter (\<lambda>c. str_includes (to_lower (ht_descriptionText c)) lower \<or> str_includes (ht_htsCode c) lower)
           (jm_values (seeded ht_htsCode hts_entries)))"

interpretation hts_table: reference_table ht_htsCode hts_entries
  by unfold_locales (simp add: hts_entries_def)

text \<open>Every code is found under itself and by a search for it, in any case.\<close>

lemma hts_found:
  assumes "e \<in> set hts_entries"
  shows "lookupHtsCode (ht_htsCode e) = Some e" and "e \<in> set (searchByKeyword (ht_descriptionText e))"
proof -
  show "lookupHtsCode (ht_htsCode e) = Some e" using hts_table.lookup_row [OF assms] by (simp add: lookupHtsCode_def)
  have "str_includes s s" for s using str_includes_iff [of s s] append_Nil2 by (metis append_Nil)
  then show "e \<in> set (searchByKeyword (ht_descriptionText e))"
    using assms by (simp add: searchByKeyword_def Let_def hts_table.table_rows jm_values_def comp_def)
qed

section \<open>Commercial invoices\<close>

datatype incoterms = FOB | CIF | DDP | EXW | DAP

record party_details =
  pd_name :: string
  pd_address :: string
  pd_taxId :: string

record invoice_item =
  it_lineNumber :: int
  it_sku :: string
  it_description :: string
  it_hsTariffCode :: string
  it_countryOfOrigin :: string
  it_quantity :: rat
  it_unitPrice :: rat
  it_totalPrice :: rat
  it_weightKg :: rat

record ICommercialInvoiceData =
  ci_invoiceNumber :: string
  ci_orderReference :: string
  ci_incoterms :: incoterms
  ci_shipperDetails :: party_details
  ci_consigneeDetails :: party_details
  ci_currency :: string
  ci_exchangeRateToUSD :: rat
  ci_lineItems :: "invoice_item list"
  ci_grossWeightKg :: rat
  ci_netWeightKg :: rat
  ci_subtotalAmount :: rat
  ci_freightCharge :: rat
  ci_insuranceCharge :: rat
  ci_grandTotalAmount :: rat
  ci_declarationStatement :: string

text \<open>The loop writes the line numbers and totals into the caller's items (distinct objects), which the invoice then refers to.\<close>

definition numbered_item :: "nat \<Rightarrow> invoice_item \<Rightarrow> invoice_item" where
  "numbered_item idx item =
     item\<lparr> it_lineNumber := int idx + 1, it_totalPrice := toFixed 2 (dmul (it_unitPrice item) (it_quantity item)) \<rparr>"

definition compileInvoice ::
  "nat \<Rightarrow> string \<Rightarrow> incoterms \<Rightarrow> party_details \<Rightarrow> party_details \<Rightarrow> invoice_item list \<Rightarrow> rat \<Rightarrow> rat \<Rightarrow> ICommercialInvoiceData" where
  "compileInvoice now orderId terms shipper consignee items0 freightUSD insuranceUSD =
     (let items = map (\<lambda>(i, item). numbered_item i item) (enumerate 0 items0);
          subtotal = foldl (\<lambda>acc item. dadd acc (it_totalPrice item)) 0 items;
          netWeight = foldl (\<lambda>acc item. dadd acc (it_weightKg item)) 0 items;
          grandTotal = toFixed 2 (dadd (dadd subtotal freightUSD) insuranceUSD);
          grossWeight = toFixed 2 (dmul netWeight (fl (108 / 100)))
      in \<lparr> ci_invoiceNumber = ''INV-COMM-'' @ to_upper (base_string 36 now), ci_orderReference = orderId, ci_incoterms = terms,
           ci_shipperDetails = shipper, ci_consigneeDetails = consignee, ci_currency = ''USD'', ci_exchangeRateToUSD = 1,
           ci_lineItems = items, ci_grossWeightKg = grossWeight, ci_netWeightKg = netWeight, ci_subtotalAmount = toFixed 2 subtotal,
           ci_freightCharge = freightUSD, ci_insuranceCharge = insuranceUSD, ci_grandTotalAmount = grandTotal,
           ci_declarationStatement =
             ''We hereby certify that this commercial invoice is true and correct, and the products originate from the specified jurisdictions.'' \<rparr>)"

lemma numbered_item_again: "numbered_item i (numbered_item j item) = numbered_item i item"
  by (simp add: numbered_item_def)

lemma enumerate_again:
  "map (\<lambda>(i, item). f i item) (enumerate n (map (\<lambda>(i, item). g i item) (enumerate n xs))) =
    map (\<lambda>(i, item). f i (g i item)) (enumerate n xs)"
  by (induction xs arbitrary: n) simp_all

text \<open>
  Lines are numbered from one whatever numbers and totals the items came with; so compiling the items of an invoice again
  gives the same invoice.
\<close>

theorem compiling_again:
  "ci_lineItems (compileInvoice now oid t s c items freight insurance) = map (\<lambda>(i, item). numbered_item i item) (enumerate 0 items) \<and>
   compileInvoice now oid t s c (ci_lineItems (compileInvoice now' oid' t' s' c' items freight' insurance')) freight insurance =
     compileInvoice now oid t s c items freight insurance"
  by (simp add: compileInvoice_def Let_def enumerate_again numbered_item_again)

section \<open>Chargeback evidence\<close>

record IChargebackEvidencePacket =
  ce_disputeId :: string
  ce_orderId :: string
  ce_reasonCode :: string
  ce_disputedAmountUSD :: rat
  ce_carrierTrackingNumber :: string
  ce_podSignedByName :: string
  ce_ipAddressAtOrderTime :: string
  ce_customerSignatureUrl :: "string option"
  ce_compiledAt :: instant

definition compileEvidence ::
  "instant \<Rightarrow> string \<Rightarrow> string \<Rightarrow> string \<Rightarrow> rat \<Rightarrow> string \<Rightarrow> string \<Rightarrow> string \<Rightarrow> IChargebackEvidencePacket" where
  "compileEvidence now disputeId orderId reasonCode amount carrierTracking podName ip =
     \<lparr> ce_disputeId = disputeId, ce_orderId = orderId, ce_reasonCode = reasonCode, ce_disputedAmountUSD = amount,
       ce_carrierTrackingNumber = carrierTracking, ce_podSignedByName = podName, ce_ipAddressAtOrderTime = ip,
       ce_customerSignatureUrl = None, ce_compiledAt = now \<rparr>"

section \<open>Electronic invoices\<close>

record IEInvoiceHeader =
  ei_invoiceNumber :: string
  ei_issueDate :: string
  ei_dueDate :: string
  ei_sellerVatId :: string
  ei_sellerLegalName :: string
  ei_buyerVatId :: string
  ei_buyerLegalName :: string
  ei_currencyCode :: string
  ei_paymentIban :: string

record IEInvoiceLine =
  el_lineId :: string
  el_itemDescription :: string
  el_quantity :: rat
  el_unitPrice :: rat
  el_vatRatePct :: rat
  el_lineSubtotal :: rat

text \<open>Lines of text, each after a line break.\<close>

definition text_lines :: "string list \<Rightarrow> string" where
  "text_lines ls = concat (map (\<lambda>l. CHR 0x0A # l) ls)"

definition amount_line :: "string \<Rightarrow> string \<Rightarrow> string \<Rightarrow> rat \<Rightarrow> string" where
  "amount_line indent tag currency x =
     indent @ ''<cbc:'' @ tag @ '' currencyID=\"'' @ currency @ ''\">'' @ fixed_text 2 x @ ''</cbc:'' @ tag @ ''>''"

text \<open>\<open>num\<close> is the conversion of a number to a string.\<close>

definition line_xml :: "(rat \<Rightarrow> string) \<Rightarrow> IEInvoiceHeader \<Rightarrow> nat \<Rightarrow> IEInvoiceLine \<Rightarrow> string" where
  "line_xml num h idx l =
     text_lines
       [''    <cac:InvoiceLine>'',
        ''      <cbc:ID>'' @ dec_string (idx + 1) @ ''</cbc:ID>'',
        ''      <cbc:InvoicedQuantity unitCode=\"EA\">'' @ num (el_quantity l) @ ''</cbc:InvoicedQuantity>'',
        amount_line ''      '' ''LineExtensionAmount'' (ei_currencyCode h) (el_lineSubtotal l),
        ''      <cac:Item>'',
        ''        <cbc:Description>'' @ el_itemDescription l @ ''</cbc:Description>'',
        ''      </cac:Item>'',
        ''      <cac:Price>'',
        amount_line ''        '' ''PriceAmount'' (ei_currencyCode h) (el_unitPrice l),
        ''      </cac:Price>'',
        ''    </cac:InvoiceLine>'']"

definition line_tax :: "IEInvoiceLine \<Rightarrow> rat" where
  "line_tax l = toFixed 2 (dmul (el_lineSubtotal l) (ddiv (el_vatRatePct l) 100))"

definition lines_subtotal :: "IEInvoiceLine list \<Rightarrow> rat" where
  "lines_subtotal ls = foldl (\<lambda>acc l. dadd acc (el_lineSubtotal l)) 0 ls"

definition lines_tax :: "IEInvoiceLine list \<Rightarrow> rat" where
  "lines_tax ls = foldl (\<lambda>acc l. dadd acc (line_tax l)) 0 ls"

definition party_lines :: "string \<Rightarrow> string \<Rightarrow> string \<Rightarrow> string list" where
  "party_lines tag name vatId =
     [''  <cac:'' @ tag @ ''>'', ''    <cac:Party>'', ''      <cac:PartyLegalEntity>'',
      ''        <cbc:RegistrationName>'' @ name @ ''</cbc:RegistrationName>'', ''        <cbc:CompanyID>'' @ vatId @ ''</cbc:CompanyID>'',
      ''      </cac:PartyLegalEntity>'', ''    </cac:Party>'', ''  </cac:'' @ tag @ ''>'']"

definition buildUblXml :: "(rat \<Rightarrow> string) \<Rightarrow> IEInvoiceHeader \<Rightarrow> IEInvoiceLine list \<Rightarrow> string" where
  "buildUblXml num h ls =
     (let subtotal = lines_subtotal ls;
          linesXml = concat (map (\<lambda>(i, l). line_xml num h i l) (enumerate 0 ls));
          grandTotal = toFixed 2 (dadd subtotal (lines_tax ls));
          currency = ei_currencyCode h
      in ''<?xml version=\"1.0\" encoding=\"UTF-8\"?>'' @
         text_lines
           ([''<Invoice xmlns=\"urn:oasis:names:specification:ubl:schema:xsd:Invoice-2\"'',
             ''         xmlns:cac=\"urn:oasis:names:specification:ubl:schema:xsd:CommonAggregateComponents-2\"'',
             ''         xmlns:cbc=\"urn:oasis:names:specification:ubl:schema:xsd:CommonBasicComponents-2\">'',
             ''  <cbc:CustomizationID>urn:cen.eu:en16931:2017#compliant#urn:fdc:peppol.eu:2017:poacc:billing:3.0</cbc:CustomizationID>'',
             ''  <cbc:ID>'' @ ei_invoiceNumber h @ ''</cbc:ID>'',
             ''  <cbc:IssueDate>'' @ ei_issueDate h @ ''</cbc:IssueDate>'',
             ''  <cbc:DueDate>'' @ ei_dueDate h @ ''</cbc:DueDate>'',
             ''  <cbc:DocumentCurrencyCode>'' @ currency @ ''</cbc:DocumentCurrencyCode>''] @
            party_lines ''AccountingSupplierParty'' (ei_sellerLegalName h) (ei_sellerVatId h) @
            party_lines ''AccountingCustomerParty'' (ei_buyerLegalName h) (ei_buyerVatId h) @
            [''  <cac:LegalMonetaryTotal>'',
             amount_line ''    '' ''LineExtensionAmount'' currency subtotal,
             amount_line ''    '' ''TaxExclusiveAmount'' currency subtotal,
             amount_line ''    '' ''TaxInclusiveAmount'' currency grandTotal,
             amount_line ''    '' ''PayableAmount'' currency grandTotal,
             ''  </cac:LegalMonetaryTotal>'',
             ''  '' @ linesXml,
             ''</Invoice>'']))"

lemma includes_append: "str_includes s t \<Longrightarrow> str_includes (u @ s @ v) t"
  unfolding str_includes_iff by (metis append.assoc)

lemma text_lines_includes: "l \<in> set ls \<Longrightarrow> str_includes l t \<Longrightarrow> str_includes (text_lines ls) t"
proof -
  assume "l \<in> set ls" and t: "str_includes l t"
  then obtain as bs where "ls = as @ l # bs" by (meson split_list)
  then have "text_lines ls = (text_lines as @ [CHR 0x0A]) @ l @ text_lines bs" by (simp add: text_lines_def)
  with includes_append [OF t] show ?thesis by metis
qed

lemma xml_line: "l \<in> set ls \<Longrightarrow> str_includes l t \<Longrightarrow> str_includes (u @ text_lines ls) t"
  using includes_append [of "text_lines ls" t u "[]"] text_lines_includes by simp

lemma includes_refl [simp]: "str_includes s s"
  using str_includes_iff [of s s] by (metis append_Nil append_Nil2)

text \<open>
  Texts are inserted as they are: whatever markup a description holds is markup of the invoice. What is payable is shown
  to the cent.
\<close>

theorem einvoice_verbatim:
  assumes "l \<in> set ls"
  shows "str_includes (buildUblXml num h ls) (''<cbc:Description>'' @ el_itemDescription l @ ''</cbc:Description>'') \<and>
    str_includes (buildUblXml num h ls)
      (amount_line ''    '' ''PayableAmount'' (ei_currencyCode h) (toFixed 2 (dadd (lines_subtotal ls) (lines_tax ls))))"
proof -
  let ?d = "''<cbc:Description>'' @ el_itemDescription l @ ''</cbc:Description>''"
  obtain i where i: "(i, l) \<in> set (enumerate 0 ls)"
    using assms by (metis in_set_impl_in_set_zip2 length_upt enumerate_eq_zip add.left_neutral minus_nat.diff_0)
  have "str_includes (line_xml num h i l) ?d"
    unfolding line_xml_def by (rule text_lines_includes [of "''        '' @ ?d @ []"]) (simp, rule includes_append, rule includes_refl)
  moreover obtain as bs where "enumerate 0 ls = as @ (i, l) # bs" using i by (meson split_list)
  ultimately have d: "str_includes (concat (map (\<lambda>(i, l). line_xml num h i l) (enumerate 0 ls))) ?d"
    using includes_append by simp
  from includes_append [OF d, of "''  ''" "[]"]
  have d': "str_includes (''  '' @ concat (map (\<lambda>(i, l). line_xml num h i l) (enumerate 0 ls))) ?d" by (simp only: append_Nil2)
  show ?thesis
    unfolding buildUblXml_def Let_def
  proof (intro conjI)
    let ?a = "amount_line ''    '' ''PayableAmount'' (ei_currencyCode h) (toFixed 2 (dadd (lines_subtotal ls) (lines_tax ls)))"
    show "str_includes (''<?xml version=\"1.0\" encoding=\"UTF-8\"?>'' @ text_lines (xs @ ys @ zs @ [a1, a2, a3, a4, a5, a6,
        ''  '' @ concat (map (\<lambda>(i, l). line_xml num h i l) (enumerate 0 ls)), a7])) ?d" for xs ys zs a1 a2 a3 a4 a5 a6 a7
      by (rule xml_line [OF _ d']) simp
    show "str_includes (''<?xml version=\"1.0\" encoding=\"UTF-8\"?>'' @ text_lines (xs @ ys @ zs @ [a1, a2, a3, a4, ?a, a6, a8, a7])) ?a"
      for xs ys zs a1 a2 a3 a4 a6 a7 a8
      by (rule xml_line [OF _ includes_refl]) simp
  qed
qed

text \<open>A description that closes its own element and opens another.\<close>

theorem einvoice_verbatim_witness:
  "str_includes
     (buildUblXml (\<lambda>_. ''1'')
       \<lparr> ei_invoiceNumber = ''I-1'', ei_issueDate = ''2026-01-01'', ei_dueDate = ''2026-02-01'', ei_sellerVatId = ''S'', ei_sellerLegalName = ''S'',
         ei_buyerVatId = ''B'', ei_buyerLegalName = ''B'', ei_currencyCode = ''EUR'', ei_paymentIban = ''X'' \<rparr>
       [\<lparr> el_lineId = ''1'', el_itemDescription = ''x</cbc:Description><cbc:Note>free</cbc:Note><cbc:Description>'', el_quantity = 1,
          el_unitPrice = 5, el_vatRatePct = 20, el_lineSubtotal = 5 \<rparr>])
     ''<cbc:Description>x</cbc:Description><cbc:Note>free</cbc:Note><cbc:Description></cbc:Description>''"
  using einvoice_verbatim [of "\<lparr> el_lineId = ''1'', el_itemDescription = ''x</cbc:Description><cbc:Note>free</cbc:Note><cbc:Description>'',
      el_quantity = 1, el_unitPrice = 5, el_vatRatePct = 20, el_lineSubtotal = 5 \<rparr>"]
  by simp

end
