(* ===== verification/Analytics_Store.thy ===== *)
theory Analytics_Store
  imports Gateway
begin

text \<open>
  The analytics service (services/analytics-service/src): the repository of daily summaries and metrics, the dashboard and
  the export over it, and the handlers of controllers/analyticsController.ts. The values of \<open>Math.random\<close>, the
  identifiers and the conversions of numbers and dates to strings are arguments.
\<close>

section \<open>Repository\<close>

record DailyExecutiveSummaryEntity =
  ds_id :: string
  ds_tenantId :: string
  ds_reportDate :: string
  ds_totalOrdersCount :: int
  ds_totalRevenueCents :: int
  ds_averageOrderValueCents :: int
  ds_onTimeDeliveryRatePercent :: rat
  ds_inventoryTurnoverRate :: rat
  ds_activeFleetUtilizationPercent :: rat
  ds_createdAt :: instant

record MetricSnapshotEntity =
  mt_id :: string
  mt_tenantId :: string
  mt_metricName :: string
  mt_metricValue :: rat
  mt_unit :: string
  mt_dimensions :: "(string, string) jsmap"
  mt_recordedAt :: instant

record analytics_repo =
  ar_summaries :: "DailyExecutiveSummaryEntity list"
  ar_metrics :: "MetricSnapshotEntity list"

text \<open>The five random numbers that one day of seeding draws, in order.\<close>

record day_draws =
  dd_orders :: rat
  dd_revenue :: rat
  dd_onTime :: rat
  dd_turnover :: rat
  dd_fleet :: rat

definition seeded_day :: "(instant \<Rightarrow> string) \<Rightarrow> string \<Rightarrow> instant \<Rightarrow> nat \<Rightarrow> string \<Rightarrow> day_draws \<Rightarrow> DailyExecutiveSummaryEntity" where
  "seeded_day iso_date tenantId today i uid r =
     (let d = today - int i * 24 * 60 * 60 * 1000;
          orders = Math_floor (dadd 150 (dmul (dd_orders r) 80));
          revenue = orders * Math_floor (dadd 8500 (dmul (dd_revenue r) 3000))
      in \<lparr> ds_id = uid, ds_tenantId = tenantId, ds_reportDate = take 10 (iso_date d), ds_totalOrdersCount = orders,
           ds_totalRevenueCents = revenue, ds_averageOrderValueCents = Math_round (ddiv (of_int revenue) (of_int orders)),
           ds_onTimeDeliveryRatePercent = toFixed 2 (dadd 95 (dmul (dd_onTime r) 4)),
           ds_inventoryTurnoverRate = toFixed 2 (dadd (fl (42 / 10)) (dmul (dd_turnover r) (fl (8 / 10)))),
           ds_activeFleetUtilizationPercent = toFixed 2 (dadd 82 (dmul (dd_fleet r) 12)), ds_createdAt = d \<rparr>)"

definition seedHistoricalData ::
  "(instant \<Rightarrow> string) \<Rightarrow> string \<Rightarrow> instant \<Rightarrow> (nat \<Rightarrow> string) \<Rightarrow> (nat \<Rightarrow> day_draws) \<Rightarrow> analytics_repo \<Rightarrow> analytics_repo" where
  "seedHistoricalData iso_date tenantId today uids draws repo =
     repo\<lparr> ar_summaries := ar_summaries repo @ map (\<lambda>i. seeded_day iso_date tenantId today i (uids i) (draws i)) (rev [0..<15]) \<rparr>"

definition new_repo :: "(instant \<Rightarrow> string) \<Rightarrow> instant \<Rightarrow> (nat \<Rightarrow> string) \<Rightarrow> (nat \<Rightarrow> day_draws) \<Rightarrow> analytics_repo" where
  "new_repo iso_date today uids draws =
     seedHistoricalData iso_date ''global-tenant'' today uids draws \<lparr> ar_summaries = [], ar_metrics = [] \<rparr>"

definition getExecutiveSummaries :: "string \<Rightarrow> analytics_repo \<Rightarrow> DailyExecutiveSummaryEntity list" where
  "getExecutiveSummaries tenantId repo =
     filter (\<lambda>s. ds_tenantId s = tenantId \<or> ds_tenantId s = ''global-tenant'') (ar_summaries repo)"

definition recordMetric :: "string \<Rightarrow> MetricSnapshotEntity \<Rightarrow> analytics_repo \<Rightarrow> analytics_repo \<times> MetricSnapshotEntity" where
  "recordMetric uid m repo =
     (let e = m\<lparr> mt_id := uid \<rparr> in (repo\<lparr> ar_metrics := ar_metrics repo @ [e] \<rparr>, e))"

section \<open>Service\<close>

record current_kpis =
  kp_totalOrders :: int
  kp_totalRevenue :: Money
  kp_averageOrderValue :: Money
  kp_onTimeDeliveryRate :: rat
  kp_fleetUtilizationRate :: rat

record trend_point =
  tp_date :: string
  tp_orders :: int
  tp_revenueCents :: int
  tp_onTimeDeliveryRate :: rat

record dashboard =
  db_currentKPIs :: current_kpis
  db_trends :: "trend_point list"

definition getExecutiveDashboard :: "string \<Rightarrow> analytics_repo \<Rightarrow> dashboard" where
  "getExecutiveDashboard tenantId repo =
     (let summaries = getExecutiveSummaries tenantId repo;
          latest = (if summaries = [] then (0, 0, 0, 197 / 2, 88)
                    else let s = summaries ! (length summaries - 1)
                         in (ds_totalOrdersCount s, ds_totalRevenueCents s, ds_averageOrderValueCents s,
                             ds_onTimeDeliveryRatePercent s, ds_activeFleetUtilizationPercent s));
          historical = js_last 7 summaries
      in case latest of (orders, revenue, average, onTime, fleet) \<Rightarrow>
           \<lparr> db_currentKPIs = \<lparr> kp_totalOrders = orders, kp_totalRevenue = \<lparr> m_amount = revenue, m_currency = ''USD'' \<rparr>,
               kp_averageOrderValue = \<lparr> m_amount = average, m_currency = ''USD'' \<rparr>, kp_onTimeDeliveryRate = onTime,
               kp_fleetUtilizationRate = fleet \<rparr>,
             db_trends = map (\<lambda>h. \<lparr> tp_date = ds_reportDate h, tp_orders = ds_totalOrdersCount h,
               tp_revenueCents = ds_totalRevenueCents h, tp_onTimeDeliveryRate = ds_onTimeDeliveryRatePercent h \<rparr>) historical \<rparr>)"

datatype report_format = JSON | CSV

datatype report_data = Summaries "DailyExecutiveSummaryEntity list" | Text string

fun js_join :: "string \<Rightarrow> string list \<Rightarrow> string" where
  "js_join sep [] = []"
| "js_join sep [s] = s"
| "js_join sep (s # ss) = s @ sep @ js_join sep ss"

definition csv_row :: "(rat \<Rightarrow> string) \<Rightarrow> DailyExecutiveSummaryEntity \<Rightarrow> string" where
  "csv_row num s =
     js_join '',''
       [ds_reportDate s, int_string (ds_totalOrdersCount s), fixed_text 2 (ddiv (of_int (ds_totalRevenueCents s)) 100),
        fixed_text 2 (ddiv (of_int (ds_averageOrderValueCents s)) 100), num (ds_onTimeDeliveryRatePercent s) @ ''%'',
        num (ds_activeFleetUtilizationPercent s) @ ''%'']"

definition csv_headers :: string where
  "csv_headers = ''ReportDate,TotalOrders,TotalRevenueUSD,AverageOrderValueUSD,OnTimeDeliveryPercent,FleetUtilizationPercent'' @ [CHR 0x0A]"

definition exportReport :: "(rat \<Rightarrow> string) \<Rightarrow> string \<Rightarrow> report_format \<Rightarrow> analytics_repo \<Rightarrow> report_data \<times> report_format" where
  "exportReport num tenantId format repo =
     (let summaries = getExecutiveSummaries tenantId repo
      in if format = JSON then (Summaries summaries, JSON)
         else (Text (csv_headers @ js_join [CHR 0x0A] (map (csv_row num) summaries)), CSV))"

section \<open>Handlers\<close>

definition tenant_of :: "http_request \<Rightarrow> (string, string) jsmap \<Rightarrow> string" where
  "tenant_of req query = the (or_else (or_else (header req ''x-tenant-id'') (jm_get query ''tenantId'')) (Some ''global-tenant''))"

definition handle_getDashboard :: "http_request \<Rightarrow> (string, string) jsmap \<Rightarrow> analytics_repo \<Rightarrow> nat \<times> dashboard" where
  "handle_getDashboard req query repo = (200, getExecutiveDashboard (tenant_of req query) repo)"

record report_reply =
  rr_status :: nat
  rr_headers :: "(string, string) jsmap"
  rr_data :: report_data

text \<open>A format other than csv, known or not, is answered as json would be, except that the service then makes csv of it.\<close>

definition handle_exportReport :: "(rat \<Rightarrow> string) \<Rightarrow> http_request \<Rightarrow> (string, string) jsmap \<Rightarrow> analytics_repo \<Rightarrow> report_reply" where
  "handle_exportReport num req query repo =
     (let format = the (or_else (jm_get query ''format'') (Some ''json''));
          report = exportReport num (tenant_of req query) (if format = ''json'' then JSON else CSV) repo
      in if format = ''csv''
         then \<lparr> rr_status = 200, rr_headers = [(''Content-Type'', ''text/csv''),
                  (''Content-Disposition'', ''attachment; filename=\"logix-executive-report.csv\"'')], rr_data = fst report \<rparr>
         else \<lparr> rr_status = 200, rr_headers = [], rr_data = fst report \<rparr>)"

section \<open>Properties\<close>

text \<open>The average order value of a seeded day is exact: its revenue is a whole multiple of its orders.\<close>

lemma draws_bounds:
  assumes "0 \<le> x" and "x < 1" and "0 \<le> k" and "k \<le> 10 ^ 6" and "0 \<le> b" and "b \<le> 10 ^ 6"
  shows "b \<le> Math_floor (dadd (of_int b) (dmul x (of_int k)))" and "Math_floor (dadd (of_int b) (dmul x (of_int k))) \<le> b + k"
proof -
  have kb: "\<bar>k\<bar> \<le> 2 ^ 53" "\<bar>b\<bar> \<le> 2 ^ 53" "\<bar>b + k\<bar> \<le> 2 ^ 53" using assms by simp_all
  have p: "0 \<le> x * of_int k" "x * of_int k \<le> of_int k" using assms by (simp_all add: mult_left_le_one_le)
  have "0 \<le> dmul x (of_int k)" "dmul x (of_int k) \<le> fl (of_int k)"
    by (simp_all add: dmul_def fl_nonneg fl_mono p)
  then have m: "0 \<le> dmul x (of_int k)" "dmul x (of_int k) \<le> of_int k" by (simp_all only: fl_int [OF kb(1)])
  have "fl (of_int b) \<le> dadd (of_int b) (dmul x (of_int k))" "dadd (of_int b) (dmul x (of_int k)) \<le> fl (of_int (b + k))"
    unfolding dadd_def using m by (intro fl_mono; simp)+
  then have "of_int b \<le> dadd (of_int b) (dmul x (of_int k))" "dadd (of_int b) (dmul x (of_int k)) \<le> of_int (b + k)"
    by (simp_all only: fl_int [OF kb(2)] fl_int [OF kb(3)])
  then show "b \<le> Math_floor (dadd (of_int b) (dmul x (of_int k)))" "Math_floor (dadd (of_int b) (dmul x (of_int k))) \<le> b + k"
    by (simp_all add: Math_floor_def le_floor_iff floor_le_iff)
qed

definition draws_ok :: "day_draws \<Rightarrow> bool" where
  "draws_ok r \<longleftrightarrow> 0 \<le> dd_orders r \<and> dd_orders r < 1 \<and> 0 \<le> dd_revenue r \<and> dd_revenue r < 1"

lemma seeded_day_average:
  assumes "draws_ok r" and "d = seeded_day iso_date t today i uid r"
  shows "150 \<le> ds_totalOrdersCount d" and "ds_totalOrdersCount d \<le> 230"
    and "ds_totalRevenueCents d = ds_totalOrdersCount d * ds_averageOrderValueCents d"
    and "8500 \<le> ds_averageOrderValueCents d" and "ds_averageOrderValueCents d \<le> 11500"
proof -
  define n where "n = Math_floor (dadd 150 (dmul (dd_orders r) 80))"
  define k where "k = Math_floor (dadd 8500 (dmul (dd_revenue r) 3000))"
  have n: "150 \<le> n" "n \<le> 230"
    using draws_bounds [of "dd_orders r" 80 150] assms(1) by (simp_all add: n_def draws_ok_def)
  have k: "8500 \<le> k" "k \<le> 11500"
    using draws_bounds [of "dd_revenue r" 3000 8500] assms(1) by (simp_all add: k_def draws_ok_def)
  have "ddiv (of_int (n * k)) (of_int n) = of_int k"
    using n k by (simp add: ddiv_def)
  then have "Math_round (ddiv (of_int (n * k)) (of_int n)) = k" by simp
  then have "ds_totalOrdersCount d = n" "ds_totalRevenueCents d = n * k" "ds_averageOrderValueCents d = k"
    using assms(2) by (simp_all add: seeded_day_def Let_def n_def k_def)
  with n k show "150 \<le> ds_totalOrdersCount d" "ds_totalOrdersCount d \<le> 230"
    "ds_totalRevenueCents d = ds_totalOrdersCount d * ds_averageOrderValueCents d"
    "8500 \<le> ds_averageOrderValueCents d" "ds_averageOrderValueCents d \<le> 11500" by simp_all
qed

text \<open>
  The dashboard of any tenant, of whatever metrics were recorded, is that of the fifteen random days the repository was
  made with: its average is exact, and its trend is their last week, oldest first.
\<close>

theorem dashboard_is_seed:
  assumes "\<And>i. draws_ok (draws i)" and "repo = new_repo iso_date today uids draws"
    and "repo' = fold (\<lambda>(uid, m) q. fst (recordMetric uid m q)) records repo"
  shows "getExecutiveDashboard tenant repo' = getExecutiveDashboard ''global-tenant'' repo \<and>
    (let k = db_currentKPIs (getExecutiveDashboard tenant repo')
     in m_amount (kp_totalRevenue k) = kp_totalOrders k * m_amount (kp_averageOrderValue k) \<and> 150 \<le> kp_totalOrders k) \<and>
    map tp_date (db_trends (getExecutiveDashboard tenant repo')) =
      map (\<lambda>i. take 10 (iso_date (today - int i * 24 * 60 * 60 * 1000))) [6, 5, 4, 3, 2, 1, 0]"
proof -
  have days: "ar_summaries repo = map (\<lambda>i. seeded_day iso_date ''global-tenant'' today i (uids i) (draws i)) (rev [0..<15])"
    by (simp add: assms(2) new_repo_def seedHistoricalData_def)
  have "ar_summaries (fold (\<lambda>(uid, m) q. fst (recordMetric uid m q)) records q) = ar_summaries q" for q
    by (induction records arbitrary: q) (auto simp: recordMetric_def Let_def)
  then have "ar_summaries repo' = ar_summaries repo" by (simp add: assms(3))
  moreover have "getExecutiveSummaries t repo = ar_summaries repo" for t
    by (simp add: getExecutiveSummaries_def days filter_map comp_def seeded_day_def Let_def)
  ultimately have s: "getExecutiveSummaries t repo' = ar_summaries repo" "getExecutiveSummaries t repo = ar_summaries repo" for t
    by (simp_all only: getExecutiveSummaries_def)
  have l: "rev [0..<15] = [14, 13, 12, 11, 10, 9, 8, 7, 6, 5, 4, 3, 2, 1, 0 :: nat]" by (simp add: upt_rec)
  have lst: "ar_summaries repo \<noteq> []" "ar_summaries repo ! (length (ar_summaries repo) - 1) = seeded_day iso_date ''global-tenant'' today 0 (uids 0) (draws 0)"
    by (simp_all add: days l)
  note avg = seeded_day_average [OF assms(1) [of 0] refl, of iso_date "''global-tenant''" today 0 "uids 0"]
  show ?thesis
    using avg lst by (simp add: getExecutiveDashboard_def Let_def s) (simp add: js_last_pos days l seeded_day_def Let_def)
qed

theorem dashboard_is_seed_witness:
  "getExecutiveDashboard ''t1'' (fst (recordMetric ''m1''
       \<lparr> mt_id = [], mt_tenantId = ''t1'', mt_metricName = ''orders'', mt_metricValue = 7, mt_unit = ''1'', mt_dimensions = [], mt_recordedAt = 5 \<rparr>
       (new_repo (\<lambda>_. ''2026-01-01T00:00'') 0 (\<lambda>_. ''u'') (\<lambda>_. \<lparr> dd_orders = 1 / 2, dd_revenue = 0, dd_onTime = 0, dd_turnover = 0, dd_fleet = 0 \<rparr>)))) =
     getExecutiveDashboard ''global-tenant''
       (new_repo (\<lambda>_. ''2026-01-01T00:00'') 0 (\<lambda>_. ''u'') (\<lambda>_. \<lparr> dd_orders = 1 / 2, dd_revenue = 0, dd_onTime = 0, dd_turnover = 0, dd_fleet = 0 \<rparr>))"
  using dashboard_is_seed [of "\<lambda>_. \<lparr> dd_orders = 1 / 2, dd_revenue = 0, dd_onTime = 0, dd_turnover = 0, dd_fleet = 0 \<rparr>" _ "\<lambda>_. ''2026-01-01T00:00''" 0
      "\<lambda>_. ''u''" _ "[(''m1'', \<lparr> mt_id = [], mt_tenantId = ''t1'', mt_metricName = ''orders'', mt_metricValue = 7, mt_unit = ''1'',
        mt_dimensions = [], mt_recordedAt = 5 \<rparr>)]", OF _ refl refl, of "''t1''"]
  by (simp add: draws_ok_def)

end
