(* ===== verification/Service_Repositories.thy ===== *)
theory Service_Repositories
  imports Common_Types Double
begin

text \<open>
  The repositories of the other services (services/*/src/repositories: users, ledger entries, dispatches, stock rows, daily
  figures, notifications). Each is the class of \<open>Tenant_Repository\<close> written again over another record; here the class is
  a group of operations over any record (\<open>store_ops\<close> says how to read its identifier, its tenant and its fields by name, and
  how an update stamps it), each service's repository is that group for its record, and what the six share is proved
  once, in the locale \<open>tenant_store\<close>. The values of an enumeration are its strings. An update of a record whose type has no
  \<open>updatedAt\<close> adds one all the same; nothing reads it, and a filter on it matches nothing, since two dates are never
  identical.
\<close>

section \<open>The class\<close>

datatype cell = CText string | CNumber rat | CBool bool | CObject

record 'r store_ops =
  so_key :: "'r \<Rightarrow> string"
  so_tenant :: "'r \<Rightarrow> string"
  so_touch :: "instant \<Rightarrow> 'r \<Rightarrow> 'r"
  so_fields :: "'r \<Rightarrow> (string, cell) jsmap"

type_synonym 'r store = "(string, 'r) jsmap"

record query_options =
  qo_page :: "int option"
  qo_limit :: "int option"
  qo_filter :: "(string \<times> cell option) list"

record 'r query_page =
  qp_records :: "'r list"
  qp_totalCount :: nat
  qp_page :: int
  qp_limit :: int

definition store_insert :: "'r store_ops \<Rightarrow> 'r \<Rightarrow> 'r store \<Rightarrow> 'r store \<times> 'r outcome" where
  "store_insert ops r m =
     (if jm_has m (so_key ops r) then (m, Inl (PlainError (''Duplicate record identified with ID '' @ so_key ops r)))
      else (jm_set (so_key ops r) r m, Inr r))"

definition store_findById :: "'r store_ops \<Rightarrow> string \<Rightarrow> string \<Rightarrow> 'r store \<Rightarrow> 'r option" where
  "store_findById ops i t m =
     (case jm_get m i of None \<Rightarrow> None | Some r \<Rightarrow> if so_tenant ops r \<noteq> t then None else Some r)"

definition store_update ::
  "'r store_ops \<Rightarrow> instant \<Rightarrow> string \<Rightarrow> string \<Rightarrow> ('r \<Rightarrow> 'r) \<Rightarrow> 'r store \<Rightarrow> 'r store \<times> 'r outcome" where
  "store_update ops now i t f m =
     (case store_findById ops i t m of
        None \<Rightarrow> (m, Inl (PlainError (''Record '' @ i @ '' not found in tenant scope'')))
      | Some r \<Rightarrow> let u = so_touch ops now (f r) in (jm_set i u m, Inr u))"

definition store_delete :: "'r store_ops \<Rightarrow> string \<Rightarrow> string \<Rightarrow> 'r store \<Rightarrow> 'r store \<times> bool" where
  "store_delete ops i t m = (case store_findById ops i t m of None \<Rightarrow> (m, False) | Some r \<Rightarrow> (jm_delete i m, True))"

definition cell_matches :: "cell \<Rightarrow> cell option \<Rightarrow> bool" where
  "cell_matches v w \<longleftrightarrow> v \<noteq> CObject \<and> w = Some v"

definition store_filter :: "'r store_ops \<Rightarrow> (string \<times> cell option) list \<Rightarrow> 'r list \<Rightarrow> 'r list" where
  "store_filter ops fs rs =
     fold (\<lambda>(k, w) all. case w of None \<Rightarrow> all | Some v \<Rightarrow> filter (\<lambda>r. cell_matches v (jm_get (so_fields ops r) k)) all) fs rs"

definition store_query :: "'r store_ops \<Rightarrow> string \<Rightarrow> query_options \<Rightarrow> 'r store \<Rightarrow> 'r query_page" where
  "store_query ops t opts m =
     (let page = (case qo_page opts of None \<Rightarrow> 1 | Some p \<Rightarrow> p);
          limit = (case qo_limit opts of None \<Rightarrow> 20 | Some l \<Rightarrow> l);
          everything = store_filter ops (qo_filter opts) (filter (\<lambda>r. so_tenant ops r = t) (jm_values m));
          start = (page - 1) * limit
      in \<lparr> qp_records = js_slice start (start + limit) everything, qp_totalCount = length everything, qp_page = page, qp_limit = limit \<rparr>)"

definition store_count :: "'r store_ops \<Rightarrow> string \<Rightarrow> 'r store \<Rightarrow> nat" where
  "store_count ops t m = length (filter (\<lambda>r. so_tenant ops r = t) (jm_values m))"

section \<open>Contract\<close>

text \<open>What a tenant's service relies on: calls for other tenants leave its records alone, and a query is its own.\<close>

datatype 'r store_call = CallInsert 'r | CallUpdate instant string string "'r \<Rightarrow> 'r" | CallDelete string string

locale tenant_store =
  fixes tenant :: "'r \<Rightarrow> string"
    and insert_r :: "'r \<Rightarrow> 's \<Rightarrow> 's \<times> 'r outcome"
    and find_r :: "string \<Rightarrow> string \<Rightarrow> 's \<Rightarrow> 'r option"
    and update_r :: "instant \<Rightarrow> string \<Rightarrow> string \<Rightarrow> ('r \<Rightarrow> 'r) \<Rightarrow> 's \<Rightarrow> 's \<times> 'r outcome"
    and delete_r :: "string \<Rightarrow> string \<Rightarrow> 's \<Rightarrow> 's \<times> bool"
  assumes find_tenant: "find_r i t s = Some r \<Longrightarrow> tenant r = t"
    and insert_other: "tenant r \<noteq> t \<Longrightarrow> find_r i t (fst (insert_r r s)) = find_r i t s"
    and update_other: "t' \<noteq> t \<Longrightarrow> (\<And>r. tenant (f r) = tenant r) \<Longrightarrow> find_r i t (fst (update_r now j t' f s)) = find_r i t s"
    and delete_other: "t' \<noteq> t \<Longrightarrow> find_r i t (fst (delete_r j t' s)) = find_r i t s"
    and update_found: "find_r i t s = Some r \<Longrightarrow> \<exists>u. snd (update_r now i t f s) = Inr u"
    and delete_found: "find_r i t s = Some r \<Longrightarrow> snd (delete_r i t s) \<and> find_r i t (fst (delete_r i t s)) = None"
begin

primrec call_r :: "'r store_call \<Rightarrow> 's \<Rightarrow> 's" where
  "call_r (CallInsert r) s = fst (insert_r r s)"
| "call_r (CallUpdate now i t f) s = fst (update_r now i t f s)"
| "call_r (CallDelete i t) s = fst (delete_r i t s)"

primrec foreign :: "string \<Rightarrow> 'r store_call \<Rightarrow> bool" where
  "foreign t (CallInsert r) \<longleftrightarrow> tenant r \<noteq> t"
| "foreign t (CallUpdate now i t' f) \<longleftrightarrow> t' \<noteq> t \<and> (\<forall>r. tenant (f r) = tenant r)"
| "foreign t (CallDelete i t') \<longleftrightarrow> t' \<noteq> t"

lemma foreign_call: "foreign t c \<Longrightarrow> find_r i t (call_r c s) = find_r i t s"
  by (cases c) (simp_all add: insert_other update_other delete_other)

lemma foreign_calls: "list_all (foreign t) cs \<Longrightarrow> find_r i t (fold call_r cs s) = find_r i t s"
  by (induction cs arbitrary: s) (simp_all add: foreign_call)

text \<open>A record that was there before is still the tenant's to delete after any calls of others.\<close>

lemma delete_after: "list_all (foreign t) cs \<Longrightarrow> find_r i t s = Some r \<Longrightarrow> snd (delete_r i t (fold call_r cs s))"
  using foreign_calls delete_found by metis

end

text \<open>The class keeps the contract for every record whose update keeps the tenant.\<close>

lemma store_contract:
  assumes "\<And>now r. so_tenant ops (so_touch ops now r) = so_tenant ops r"
  shows "tenant_store (so_tenant ops) (store_insert ops) (store_findById ops) (store_update ops) (store_delete ops)"
  using assms
  by unfold_locales
    (auto simp: store_insert_def store_findById_def store_update_def store_delete_def Let_def split: option.splits if_splits)

lemma store_filter_subset: "set (store_filter ops fs rs) \<subseteq> set rs"
proof (induction fs arbitrary: rs)
  case (Cons f fs)
  obtain k w where f: "f = (k, w)" by fastforce
  show ?case
    using Cons [of rs] Cons [of "filter (\<lambda>r. cell_matches (the w) (jm_get (so_fields ops r) k)) rs"]
    by (cases w) (auto simp: f store_filter_def)
qed (simp add: store_filter_def)

lemma store_query_own:
  assumes "r \<in> set (qp_records (store_query ops t opts m))"
  shows "so_tenant ops r = t \<and> r \<in> set (jm_values m)"
proof -
  have "r \<in> set (store_filter ops (qo_filter opts) (filter (\<lambda>r. so_tenant ops r = t) (jm_values m)))"
    using assms js_slice_subset by (fastforce simp: store_query_def Let_def)
  then show ?thesis using store_filter_subset by fastforce
qed

section \<open>Users\<close>

record IUserAccount =
  ua_userId :: string
  ua_tenantId :: string
  ua_email :: string
  ua_passwordHash :: string
  ua_fullName :: string
  ua_roles :: "string list"
  ua_isMfaEnabled :: bool
  ua_failedLoginAttempts :: rat
  ua_lockoutUntil :: "instant option"
  ua_lastLoginAt :: "instant option"
  ua_createdAt :: instant
  ua_updatedAt :: instant

definition account_ops :: "IUserAccount store_ops" where
  "account_ops =
     \<lparr> so_key = ua_userId, so_tenant = ua_tenantId,
       so_touch = (\<lambda>now r. r\<lparr> ua_updatedAt := now \<rparr>),
       so_fields = (\<lambda>r.
         [(''userId'', CText (ua_userId r)), (''tenantId'', CText (ua_tenantId r)),
          (''email'', CText (ua_email r)), (''passwordHash'', CText (ua_passwordHash r)),
          (''fullName'', CText (ua_fullName r)), (''roles'', CObject),
          (''isMfaEnabled'', CBool (ua_isMfaEnabled r)),
          (''failedLoginAttempts'', CNumber (ua_failedLoginAttempts r)), (''lockoutUntil'', CObject),
          (''lastLoginAt'', CObject), (''createdAt'', CObject), (''updatedAt'', CObject)]) \<rparr>"

definition account_insert :: "IUserAccount \<Rightarrow> IUserAccount store \<Rightarrow> IUserAccount store \<times> IUserAccount outcome" where
  "account_insert = store_insert account_ops"

definition account_findById :: "string \<Rightarrow> string \<Rightarrow> IUserAccount store \<Rightarrow> IUserAccount option" where
  "account_findById = store_findById account_ops"

definition account_update ::
  "instant \<Rightarrow> string \<Rightarrow> string \<Rightarrow> (IUserAccount \<Rightarrow> IUserAccount) \<Rightarrow> IUserAccount store \<Rightarrow> IUserAccount store \<times> IUserAccount outcome" where
  "account_update = store_update account_ops"

definition account_delete :: "string \<Rightarrow> string \<Rightarrow> IUserAccount store \<Rightarrow> IUserAccount store \<times> bool" where
  "account_delete = store_delete account_ops"

definition account_query :: "string \<Rightarrow> query_options \<Rightarrow> IUserAccount store \<Rightarrow> IUserAccount query_page" where
  "account_query = store_query account_ops"

definition account_countByTenant :: "string \<Rightarrow> IUserAccount store \<Rightarrow> nat" where
  "account_countByTenant = store_count account_ops"

interpretation accounts: tenant_store ua_tenantId account_insert account_findById account_update account_delete
  using store_contract [of account_ops]
  by (simp add: account_ops_def account_insert_def account_findById_def account_update_def account_delete_def)

section \<open>Ledger entries\<close>

record IGeneralLedgerEntryRecord =
  gl_entryId :: string
  gl_tenantId :: string
  gl_transactionNumber :: string
  gl_postingDate :: instant
  gl_debitAccountNumber :: string
  gl_creditAccountNumber :: string
  gl_amountUSD :: rat
  gl_currencyCode :: string
  gl_exchangeRate :: rat
  gl_isReconciled :: bool
  gl_referenceDocumentId :: string
  gl_createdAt :: instant

definition entry_ops :: "IGeneralLedgerEntryRecord store_ops" where
  "entry_ops =
     \<lparr> so_key = gl_entryId, so_tenant = gl_tenantId,
       so_touch = (\<lambda>now r. r),
       so_fields = (\<lambda>r.
         [(''entryId'', CText (gl_entryId r)), (''tenantId'', CText (gl_tenantId r)),
          (''transactionNumber'', CText (gl_transactionNumber r)), (''postingDate'', CObject),
          (''debitAccountNumber'', CText (gl_debitAccountNumber r)),
          (''creditAccountNumber'', CText (gl_creditAccountNumber r)),
          (''amountUSD'', CNumber (gl_amountUSD r)), (''currencyCode'', CText (gl_currencyCode r)),
          (''exchangeRate'', CNumber (gl_exchangeRate r)), (''isReconciled'', CBool (gl_isReconciled r)),
          (''referenceDocumentId'', CText (gl_referenceDocumentId r)), (''createdAt'', CObject)]) \<rparr>"

definition entry_insert :: "IGeneralLedgerEntryRecord \<Rightarrow> IGeneralLedgerEntryRecord store \<Rightarrow> IGeneralLedgerEntryRecord store \<times> IGeneralLedgerEntryRecord outcome" where
  "entry_insert = store_insert entry_ops"

definition entry_findById :: "string \<Rightarrow> string \<Rightarrow> IGeneralLedgerEntryRecord store \<Rightarrow> IGeneralLedgerEntryRecord option" where
  "entry_findById = store_findById entry_ops"

definition entry_update ::
  "instant \<Rightarrow> string \<Rightarrow> string \<Rightarrow> (IGeneralLedgerEntryRecord \<Rightarrow> IGeneralLedgerEntryRecord) \<Rightarrow> IGeneralLedgerEntryRecord store \<Rightarrow> IGeneralLedgerEntryRecord store \<times> IGeneralLedgerEntryRecord outcome" where
  "entry_update = store_update entry_ops"

definition entry_delete :: "string \<Rightarrow> string \<Rightarrow> IGeneralLedgerEntryRecord store \<Rightarrow> IGeneralLedgerEntryRecord store \<times> bool" where
  "entry_delete = store_delete entry_ops"

definition entry_query :: "string \<Rightarrow> query_options \<Rightarrow> IGeneralLedgerEntryRecord store \<Rightarrow> IGeneralLedgerEntryRecord query_page" where
  "entry_query = store_query entry_ops"

definition entry_countByTenant :: "string \<Rightarrow> IGeneralLedgerEntryRecord store \<Rightarrow> nat" where
  "entry_countByTenant = store_count entry_ops"

interpretation entries: tenant_store gl_tenantId entry_insert entry_findById entry_update entry_delete
  using store_contract [of entry_ops]
  by (simp add: entry_ops_def entry_insert_def entry_findById_def entry_update_def entry_delete_def)

section \<open>Dispatches\<close>

record ICarrierDispatchRecord =
  cd_dispatchId :: string
  cd_tenantId :: string
  cd_carrierCode :: string
  cd_driverId :: string
  cd_vehicleId :: string
  cd_trackingNumber :: string
  cd_originFacility :: string
  cd_destinationAddress :: string
  cd_status :: string
  cd_estimatedDeliveryAt :: instant
  cd_actualDeliveryAt :: "instant option"
  cd_createdAt :: instant

definition dispatch_ops :: "ICarrierDispatchRecord store_ops" where
  "dispatch_ops =
     \<lparr> so_key = cd_dispatchId, so_tenant = cd_tenantId,
       so_touch = (\<lambda>now r. r),
       so_fields = (\<lambda>r.
         [(''dispatchId'', CText (cd_dispatchId r)), (''tenantId'', CText (cd_tenantId r)),
          (''carrierCode'', CText (cd_carrierCode r)), (''driverId'', CText (cd_driverId r)),
          (''vehicleId'', CText (cd_vehicleId r)), (''trackingNumber'', CText (cd_trackingNumber r)),
          (''originFacility'', CText (cd_originFacility r)),
          (''destinationAddress'', CText (cd_destinationAddress r)), (''status'', CText (cd_status r)),
          (''estimatedDeliveryAt'', CObject), (''actualDeliveryAt'', CObject), (''createdAt'', CObject)]) \<rparr>"

definition dispatch_insert :: "ICarrierDispatchRecord \<Rightarrow> ICarrierDispatchRecord store \<Rightarrow> ICarrierDispatchRecord store \<times> ICarrierDispatchRecord outcome" where
  "dispatch_insert = store_insert dispatch_ops"

definition dispatch_findById :: "string \<Rightarrow> string \<Rightarrow> ICarrierDispatchRecord store \<Rightarrow> ICarrierDispatchRecord option" where
  "dispatch_findById = store_findById dispatch_ops"

definition dispatch_update ::
  "instant \<Rightarrow> string \<Rightarrow> string \<Rightarrow> (ICarrierDispatchRecord \<Rightarrow> ICarrierDispatchRecord) \<Rightarrow> ICarrierDispatchRecord store \<Rightarrow> ICarrierDispatchRecord store \<times> ICarrierDispatchRecord outcome" where
  "dispatch_update = store_update dispatch_ops"

definition dispatch_delete :: "string \<Rightarrow> string \<Rightarrow> ICarrierDispatchRecord store \<Rightarrow> ICarrierDispatchRecord store \<times> bool" where
  "dispatch_delete = store_delete dispatch_ops"

definition dispatch_query :: "string \<Rightarrow> query_options \<Rightarrow> ICarrierDispatchRecord store \<Rightarrow> ICarrierDispatchRecord query_page" where
  "dispatch_query = store_query dispatch_ops"

definition dispatch_countByTenant :: "string \<Rightarrow> ICarrierDispatchRecord store \<Rightarrow> nat" where
  "dispatch_countByTenant = store_count dispatch_ops"

interpretation dispatches: tenant_store cd_tenantId dispatch_insert dispatch_findById dispatch_update dispatch_delete
  using store_contract [of dispatch_ops]
  by (simp add: dispatch_ops_def dispatch_insert_def dispatch_findById_def dispatch_update_def dispatch_delete_def)

section \<open>Stock rows\<close>

record IWarehouseInventoryRecord =
  wi_inventoryId :: string
  wi_tenantId :: string
  wi_sku :: string
  wi_warehouseCode :: string
  wi_zoneCode :: string
  wi_binLocation :: string
  wi_quantityOnHand :: rat
  wi_quantityAllocated :: rat
  wi_quantityAvailable :: rat
  wi_reorderThreshold :: rat
  wi_lastCycleCountAt :: instant
  wi_createdAt :: instant

definition stockrow_ops :: "IWarehouseInventoryRecord store_ops" where
  "stockrow_ops =
     \<lparr> so_key = wi_inventoryId, so_tenant = wi_tenantId,
       so_touch = (\<lambda>now r. r),
       so_fields = (\<lambda>r.
         [(''inventoryId'', CText (wi_inventoryId r)), (''tenantId'', CText (wi_tenantId r)),
          (''sku'', CText (wi_sku r)), (''warehouseCode'', CText (wi_warehouseCode r)),
          (''zoneCode'', CText (wi_zoneCode r)), (''binLocation'', CText (wi_binLocation r)),
          (''quantityOnHand'', CNumber (wi_quantityOnHand r)),
          (''quantityAllocated'', CNumber (wi_quantityAllocated r)),
          (''quantityAvailable'', CNumber (wi_quantityAvailable r)),
          (''reorderThreshold'', CNumber (wi_reorderThreshold r)), (''lastCycleCountAt'', CObject),
          (''createdAt'', CObject)]) \<rparr>"

definition stockrow_insert :: "IWarehouseInventoryRecord \<Rightarrow> IWarehouseInventoryRecord store \<Rightarrow> IWarehouseInventoryRecord store \<times> IWarehouseInventoryRecord outcome" where
  "stockrow_insert = store_insert stockrow_ops"

definition stockrow_findById :: "string \<Rightarrow> string \<Rightarrow> IWarehouseInventoryRecord store \<Rightarrow> IWarehouseInventoryRecord option" where
  "stockrow_findById = store_findById stockrow_ops"

definition stockrow_update ::
  "instant \<Rightarrow> string \<Rightarrow> string \<Rightarrow> (IWarehouseInventoryRecord \<Rightarrow> IWarehouseInventoryRecord) \<Rightarrow> IWarehouseInventoryRecord store \<Rightarrow> IWarehouseInventoryRecord store \<times> IWarehouseInventoryRecord outcome" where
  "stockrow_update = store_update stockrow_ops"

definition stockrow_delete :: "string \<Rightarrow> string \<Rightarrow> IWarehouseInventoryRecord store \<Rightarrow> IWarehouseInventoryRecord store \<times> bool" where
  "stockrow_delete = store_delete stockrow_ops"

definition stockrow_query :: "string \<Rightarrow> query_options \<Rightarrow> IWarehouseInventoryRecord store \<Rightarrow> IWarehouseInventoryRecord query_page" where
  "stockrow_query = store_query stockrow_ops"

definition stockrow_countByTenant :: "string \<Rightarrow> IWarehouseInventoryRecord store \<Rightarrow> nat" where
  "stockrow_countByTenant = store_count stockrow_ops"

interpretation stockrows: tenant_store wi_tenantId stockrow_insert stockrow_findById stockrow_update stockrow_delete
  using store_contract [of stockrow_ops]
  by (simp add: stockrow_ops_def stockrow_insert_def stockrow_findById_def stockrow_update_def stockrow_delete_def)

section \<open>Daily figures\<close>

record IDailyKpiAggregationRecord =
  dk_kpiId :: string
  dk_tenantId :: string
  dk_aggregationDate :: string
  dk_totalOrdersProcessed :: rat
  dk_grossRevenueUSD :: rat
  dk_netRevenueUSD :: rat
  dk_averageOrderValueUSD :: rat
  dk_onTimeDeliveryPercentage :: rat
  dk_fleetUtilizationPercentage :: rat
  dk_slaBreachCount :: rat
  dk_computedAt :: instant

definition kpi_ops :: "IDailyKpiAggregationRecord store_ops" where
  "kpi_ops =
     \<lparr> so_key = dk_kpiId, so_tenant = dk_tenantId,
       so_touch = (\<lambda>now r. r),
       so_fields = (\<lambda>r.
         [(''kpiId'', CText (dk_kpiId r)), (''tenantId'', CText (dk_tenantId r)),
          (''aggregationDate'', CText (dk_aggregationDate r)),
          (''totalOrdersProcessed'', CNumber (dk_totalOrdersProcessed r)),
          (''grossRevenueUSD'', CNumber (dk_grossRevenueUSD r)),
          (''netRevenueUSD'', CNumber (dk_netRevenueUSD r)),
          (''averageOrderValueUSD'', CNumber (dk_averageOrderValueUSD r)),
          (''onTimeDeliveryPercentage'', CNumber (dk_onTimeDeliveryPercentage r)),
          (''fleetUtilizationPercentage'', CNumber (dk_fleetUtilizationPercentage r)),
          (''slaBreachCount'', CNumber (dk_slaBreachCount r)), (''computedAt'', CObject)]) \<rparr>"

definition kpi_insert :: "IDailyKpiAggregationRecord \<Rightarrow> IDailyKpiAggregationRecord store \<Rightarrow> IDailyKpiAggregationRecord store \<times> IDailyKpiAggregationRecord outcome" where
  "kpi_insert = store_insert kpi_ops"

definition kpi_findById :: "string \<Rightarrow> string \<Rightarrow> IDailyKpiAggregationRecord store \<Rightarrow> IDailyKpiAggregationRecord option" where
  "kpi_findById = store_findById kpi_ops"

definition kpi_update ::
  "instant \<Rightarrow> string \<Rightarrow> string \<Rightarrow> (IDailyKpiAggregationRecord \<Rightarrow> IDailyKpiAggregationRecord) \<Rightarrow> IDailyKpiAggregationRecord store \<Rightarrow> IDailyKpiAggregationRecord store \<times> IDailyKpiAggregationRecord outcome" where
  "kpi_update = store_update kpi_ops"

definition kpi_delete :: "string \<Rightarrow> string \<Rightarrow> IDailyKpiAggregationRecord store \<Rightarrow> IDailyKpiAggregationRecord store \<times> bool" where
  "kpi_delete = store_delete kpi_ops"

definition kpi_query :: "string \<Rightarrow> query_options \<Rightarrow> IDailyKpiAggregationRecord store \<Rightarrow> IDailyKpiAggregationRecord query_page" where
  "kpi_query = store_query kpi_ops"

definition kpi_countByTenant :: "string \<Rightarrow> IDailyKpiAggregationRecord store \<Rightarrow> nat" where
  "kpi_countByTenant = store_count kpi_ops"

interpretation kpis: tenant_store dk_tenantId kpi_insert kpi_findById kpi_update kpi_delete
  using store_contract [of kpi_ops]
  by (simp add: kpi_ops_def kpi_insert_def kpi_findById_def kpi_update_def kpi_delete_def)

section \<open>Notifications\<close>

record IOmnichannelNotificationRecord =
  om_notificationId :: string
  om_tenantId :: string
  om_recipientId :: string
  om_channel :: string
  om_priority :: string
  om_templateId :: string
  om_deliveryStatus :: string
  om_retryCount :: rat
  om_dispatchedAt :: "instant option"
  om_createdAt :: instant

definition notice_ops :: "IOmnichannelNotificationRecord store_ops" where
  "notice_ops =
     \<lparr> so_key = om_notificationId, so_tenant = om_tenantId,
       so_touch = (\<lambda>now r. r),
       so_fields = (\<lambda>r.
         [(''notificationId'', CText (om_notificationId r)), (''tenantId'', CText (om_tenantId r)),
          (''recipientId'', CText (om_recipientId r)), (''channel'', CText (om_channel r)),
          (''priority'', CText (om_priority r)), (''templateId'', CText (om_templateId r)),
          (''deliveryStatus'', CText (om_deliveryStatus r)), (''retryCount'', CNumber (om_retryCount r)),
          (''dispatchedAt'', CObject), (''createdAt'', CObject)]) \<rparr>"

definition notice_insert :: "IOmnichannelNotificationRecord \<Rightarrow> IOmnichannelNotificationRecord store \<Rightarrow> IOmnichannelNotificationRecord store \<times> IOmnichannelNotificationRecord outcome" where
  "notice_insert = store_insert notice_ops"

definition notice_findById :: "string \<Rightarrow> string \<Rightarrow> IOmnichannelNotificationRecord store \<Rightarrow> IOmnichannelNotificationRecord option" where
  "notice_findById = store_findById notice_ops"

definition notice_update ::
  "instant \<Rightarrow> string \<Rightarrow> string \<Rightarrow> (IOmnichannelNotificationRecord \<Rightarrow> IOmnichannelNotificationRecord) \<Rightarrow> IOmnichannelNotificationRecord store \<Rightarrow> IOmnichannelNotificationRecord store \<times> IOmnichannelNotificationRecord outcome" where
  "notice_update = store_update notice_ops"

definition notice_delete :: "string \<Rightarrow> string \<Rightarrow> IOmnichannelNotificationRecord store \<Rightarrow> IOmnichannelNotificationRecord store \<times> bool" where
  "notice_delete = store_delete notice_ops"

definition notice_query :: "string \<Rightarrow> query_options \<Rightarrow> IOmnichannelNotificationRecord store \<Rightarrow> IOmnichannelNotificationRecord query_page" where
  "notice_query = store_query notice_ops"

definition notice_countByTenant :: "string \<Rightarrow> IOmnichannelNotificationRecord store \<Rightarrow> nat" where
  "notice_countByTenant = store_count notice_ops"

interpretation notices: tenant_store om_tenantId notice_insert notice_findById notice_update notice_delete
  using store_contract [of notice_ops]
  by (simp add: notice_ops_def notice_insert_def notice_findById_def notice_update_def notice_delete_def)

section \<open>What each service has\<close>

text \<open>In every one of the six, calls for other tenants leave what a tenant finds as it was.\<close>

lemmas stores_isolated =
  accounts.foreign_calls entries.foreign_calls dispatches.foreign_calls stockrows.foreign_calls kpis.foreign_calls notices.foreign_calls

lemma account_query_own: "r \<in> set (qp_records (account_query t opts m)) \<Longrightarrow> ua_tenantId r = t \<and> r \<in> set (jm_values m)"
  using store_query_own [of r account_ops t opts m] by (simp add: account_query_def) (simp add: account_ops_def)

end
