(* ===== verification/Spec2Isabelle.thy ===== *)
theory Spec2Isabelle
  imports Event_Bus Lease_Lock Ring_Buffer Order_Saga Policy_Engine Radix_Trie BPlus_Tree
    Circuit_Breaker Token_Bucket Gateway Warehouse_Flow Outbox Fulfillment
    Domain_Template Tenant_Repository Stock_Interleaving Auth Billing Smpp Optimization Tax_Engine Logistics Access_Control
    Promotions Fiscal_Periods Route_Planning Notifications
    Spot_Auction Warehouse_Floor Chart_Of_Accounts Receivables Carrier_Selection Second_Factors
    Identity_Provisioning Telemetry Platform_Core Order_Engines Order_Pricing Subscriptions Domain_Units
    Fleet_Compliance Warehouse_Cargo Market_Basket Analytics_Reports Treasury Edge_Security
    Reference_Tables Order_Http Key_Material Operations_Metrics Trade_Documents Analytics_Store Service_Repositories
begin

text \<open>
  Verification development of the Logix logistics platform.

  \<^bold>\<open>The program.\<close> Logix is a set of TypeScript services: an API gateway (services/api-gateway) in front of the auth,
  order, inventory, logistics, billing, notification and analytics services (services/*-service), which share a
  library (packages/common). A client's request passes the gateway: it gets a correlation identifier, is counted by
  the rate limiter, its token is verified, and identity headers taken from the token replace the client's own before
  the request is forwarded to the service that its path names. A service validates the body, calls its service class,
  and keeps its records in memory. The services never call each other: each one owns its repositories, and the event bus
  of packages/common lives within one process. Order_Http and the two properties below follow a request through the
  gateway to the stored order.

  \<^bold>\<open>Conventions.\<close> State is passed explicitly: an operation that changes the fields of an object takes and returns a
  record. An asynchronous function runs without interruption from one \<^verbatim>\<open>await\<close> that really waits to the next. The saga
  and cancellation of orders, the requests on stock, registration and login, and the settling of a circuit breaker's call
  are split at their gaps, and the pieces are steps that any other step may come between. Other operations are atomic here
  although some of them await: the flush of the outbox runs as a whole (flushes do not overlap), and so does
  \<^verbatim>\<open>reserveItemsForOrder\<close> in Inventory_Stock (its parts are in Stock_Interleaving). The clock, uuids and random values are
  arguments. Where a method reads the clock several times and a property speaks of these dates, the readings are
  \<^verbatim>\<open>clock 0\<close>, \<^verbatim>\<open>clock 1\<close> and so on (Domain_Units, proofs of delivery in Logistics, the login in Auth); elsewhere one reading
  stands for all of a call, so that dates in its result, like \<^verbatim>\<open>submittedAt\<close> of a bid in Spot_Auction, can in the code be
  later by the duration of the call. A JavaScript Map is an association list in insertion order with the operations of Prelude (\<^verbatim>\<open>jm_get\<close>,
  \<^verbatim>\<open>jm_set\<close>, \<^verbatim>\<open>jm_delete\<close>); an object that several places share is looked up again by its key. Exceptions are values of
  a sum type, \<^verbatim>\<open>undefined\<close> is \<^verbatim>\<open>None\<close>. Strings are lists of characters. Amounts in cents and counters are integers,
  within the range where doubles are exact wherever a theorem states a bound such as 2 to the 45th; other numbers
  are rationals that every operation rounds to binary64 (Double: \<^verbatim>\<open>fl\<close>, \<^verbatim>\<open>dadd\<close>, \<^verbatim>\<open>dmul\<close>, \<^verbatim>\<open>ddiv\<close>, \<^verbatim>\<open>toFixed\<close>), without
  overflow, infinities and the sign of zero; NaN, where code can produce it, is \<^verbatim>\<open>None\<close>. Shifts and masks are done at 32
  bits with words (Ring_Buffer, Smpp). Code outside the repository is a parameter: jsonwebtoken's verification and
  Express's matching of paths (\<^verbatim>\<open>gateway_lib\<close>, \<^verbatim>\<open>route\<close>), the string formats and messages of zod (\<^verbatim>\<open>zod_lib\<close>), PBKDF2,
  trigonometry and square roots (\<^verbatim>\<open>js_math\<close>), base64 and the rendering of instants.

  \<^bold>\<open>Foundations.\<close> Prelude: maps, arrays, paging, the locale \<^verbatim>\<open>entity_repository\<close> (find, save and update of an in-memory
  repository and what a client may conclude) and the locale \<^verbatim>\<open>invariant_machine\<close> (a step function and an invariant; runs
  keep it). Double: binary64 rounding, its monotonicity and the exactness of sums and products under the bounds used
  later, \<^verbatim>\<open>Math.round\<close> and \<^verbatim>\<open>toFixed\<close>. Common_Types: enumerations, exceptions and the Result type of packages/common/src.

  \<^bold>\<open>packages/common.\<close> Event_Bus (messaging/bus.ts), Lease_Lock and Ring_Buffer (concurrency, buffers), Radix_Trie and
  BPlus_Tree (trees: the trie refines a map, a split of the second loses keys), Policy_Engine (security/policyEngine.ts),
  Tax_Engine (billing/taxEngine.ts), Optimization (utils/mathOptimization.ts), Platform_Core (matrices, contexts,
  subsystem managers, and the gateway's query planner).

  \<^bold>\<open>Gateway.\<close> Gateway (app.ts, middleware), Rate_Limiter (middleware/rateLimiter.ts), Circuit_Breaker (services/, circuit/: it
  refines an automaton of three states), Token_Bucket (resilience/: bounds with rounding counted), Edge_Security.

  \<^bold>\<open>Orders.\<close> Order_Model (entities, repositories, OrderService), Order_Saga (sagaOrchestrator.ts; interleavings of requests
  and sagas as the relation \<^verbatim>\<open>order_step\<close> and the function \<^verbatim>\<open>order_exec\<close>), Order_Http (dto, controllers, app.ts), Fulfillment
  (orchestration, allocation), Outbox (events), Tenant_Repository and Domain_Template (repositories, domain), Order_Engines,
  Order_Pricing, Promotions, Subscriptions (returns, checkout, fraud, pricing, promotions, subscriptions), Trade_Documents.

  \<^bold>\<open>Inventory.\<close> Inventory_Stock (InventoryService and its repositories; orders of several items), Stock_Interleaving
  (requests on stock that interrupt each other at every await: stock is conserved as long as releases of one reservation, and
  first receipts of one article in one warehouse, do not overlap; \<^verbatim>\<open>reservation_defects\<close> shows what overlapping releases do),
  Warehouse_Flow (lot, crossdock, dock), Warehouse_Floor, Warehouse_Cargo, Route_Planning (also the tours of the logistics
  service), Domain_Units.

  \<^bold>\<open>Billing.\<close> Billing (ledger and BillingService; the locale \<^verbatim>\<open>balanced_ledger\<close> states what a journal that only takes balanced
  entries gives), Chart_Of_Accounts, Fiscal_Periods, Receivables, Treasury.

  \<^bold>\<open>Auth.\<close> Auth (AuthService, hashing, tokens; registrations and logins that interrupt each other: accounts are unique as
  long as registrations of one account do not overlap, and \<^verbatim>\<open>registration_race\<close> shows what happens otherwise), Access_Control
  (roles, OAuth2 codes, revocation, audit chain), Second_Factors, Identity_Provisioning, Key_Material.

  \<^bold>\<open>Logistics, notification, analytics.\<close> Logistics (service and repository), Carrier_Selection, Spot_Auction, Fleet_Compliance;
  Notifications and Smpp; Analytics_Store (service, dashboard and handlers), Analytics_Reports, Telemetry, Market_Basket,
  Operations_Metrics (also of inventory and logistics).

  \<^bold>\<open>All services.\<close> Reference_Tables (the constant tables of eight classes, and their lookups) and Service_Repositories (the
  tenant-scoped repositories of six services over their own records).

  \<^bold>\<open>Interfaces.\<close> Besides the three named above: \<^verbatim>\<open>event_bus\<close> (subscriptions are kept until they are cancelled), \<^verbatim>\<open>reference_table\<close>
  (unique keys, hence lookups return the row of the key) and \<^verbatim>\<open>tenant_store\<close> (no operation shows or changes another tenant's
  records). Each is interpreted on the definitions of every component that provides it: users, orders, sagas, shipments
  and domain entities are entity repositories; leases, auctions, bays, transfers, units of work and the logistics service
  are invariant machines; nine tables and six stores interpret the last two.

  \<^bold>\<open>What the lemmas show.\<close> For each component: its invariant and that every operation keeps it; what an operation answers
  on each branch, errors included; an abstract specification and its refinement where there is a contract (maps, automata,
  sums of journals, multisets of stock); closed forms of loops, with bounds of rounding errors where doubles are used.
  Several theorems state what the code really does where that is less than its comments promise: a trial balance
  that never balances, orders read and cancelled across tenants, an audit chain that does not see a change of its events, a
  password that can be read off its hash.

  \<^bold>\<open>Loops.\<close> No definition uses fuel. Recursions that are not structural have termination proofs: traversals of roles by the
  roles not visited, tree insertions by depth, tours by the stops left, calendar spills by the days left. The only loop whose
  termination is a property is the eviction loop of Telemetry (\<^verbatim>\<open>while_option\<close>, shown to be never \<^verbatim>\<open>None\<close>).

  \<^bold>\<open>Not modelled.\<close> The web dashboard (rendering), the HTTP layers of the services other than order and analytics (the same
  pattern over operations that are modelled), the listeners and configurations, loggers, the event registry (interfaces nobody
  uses), and the hundreds of generated copies of the domain layer, outboxes and modules that differ from the modelled ones
  in their names only.
\<close>

section \<open>A request through the gateway to the order service\<close>

text \<open>The routes and the string formats used by the witnesses.\<close>

definition demo_route :: "string \<Rightarrow> string \<Rightarrow> string option" where
  "demo_route pattern path =
     map_of [((''/api/v1/orders'', ''/api/v1/orders''), []), ((''/api/v1/orders/:id'', ''/api/v1/orders/order''), ''order''),
       ((''/api/v1/orders/:id/cancel'', ''/api/v1/orders/order/cancel''), ''order'')] (pattern, path)"

definition demo_zod :: zod_lib where
  "demo_zod = \<lparr> z_uuid = (\<lambda>s. s \<noteq> []), z_email = (\<lambda>s. s \<noteq> []), z_message = (\<lambda>_ _. ''Required'') \<rparr>"

text \<open>C3:
  What a client of the gateway gets from the order service. When the gateway forwards a request to the order service and that
  service answers it, the request carried a token that was verified. An error of the validation or of the service changes no
  order. A listing shows the orders of the token's tenant, whatever tenant the query string names. A created order is stored,
  has items, belongs to the token's tenant, and its total is exactly the subtotal, the tax of eight percent rounded to
  the nearest cent, and the freight of 15 dollars, for subtotals up to 2 to the 45th cents. Only when the token carries no tenant the
  body chooses it.
\<close>

theorem orders_behind_gateway:
  assumes "snd (gateway lib cfg t uid hq hits) = Forwarded ORDER_SERVICE path hq'" and "sv_http req = hq'"
    and "order_app route zod now uids num path req s = (s', Reply r)"
  shows "\<exists>token d. bearer hq = Some token \<and> jwtVerify lib token = Inr d \<and>
    (case rp_body r of
       Failure code msg errs \<Rightarrow> s' = s \<and> rp_status r \<in> {400, 404}
     | OrderList es \<Rightarrow> s' = s \<and>
         (\<forall>tenant. cl_tenantId d = Some tenant \<longrightarrow> tenant \<noteq> [] \<longrightarrow> es = listOrders tenant (os_orders s))
     | OrderData found \<Rightarrow>
         (if rp_status r = 201
          then \<exists>e. found = Some e \<and> order_find (os_orders s') (o_id e) = Some e \<and> o_items e \<noteq> [] \<and>
            (\<forall>tenant. cl_tenantId d = Some tenant \<longrightarrow> tenant \<noteq> [] \<longrightarrow> o_tenantId e = tenant) \<and>
            (cl_tenantId d = None \<longrightarrow> jm_get (body_fields (sv_body req)) ''tenantId'' = Some (JStr (o_tenantId e))) \<and>
            (o_subtotalCents e \<le> 2 ^ 45 \<longrightarrow>
              m_amount (o_totalAmount e) = o_subtotalCents e + (8 * o_subtotalCents e + 50) div 100 + 1500)
          else s' = s \<and> (\<exists>i. found = order_find (os_orders s) i)))"
proof -
  obtain token d where d: "bearer hq = Some token" "jwtVerify lib token = Inr d" "header hq' ''x-tenant-id'' = cl_tenantId d"
    by (rule forwarded_to_orders [OF assms(1)])
  have listed: "query_tenant req = Some tenant" if "cl_tenantId d = Some tenant" "tenant \<noteq> []" for tenant
    using that d(3) assms(2) by (simp add: query_tenant_def or_else_def)
  consider (create) "handle_createOrder zod now uids num req s = (s', Reply r)"
    | (listing) "s' = s" "handle_listOrders req s = Reply r"
    | (read) i where "s' = s" "handle_getOrder i s = Reply r"
    | (cancel) i where "handle_cancelOrder zod i req s = (s', Reply r)"
    using assms(3) by (auto simp: order_app_def Let_def split: if_splits option.splits bool.splits)
  then show ?thesis
  proof cases
    case create
    then show ?thesis
    proof (cases rule: create_handled)
      case (rejected iss)
      then show ?thesis using d by auto
    next
      case (created dto)
      define e where "e = snd (createOrder now uids num dto (os_orders s))"
      obtain fs where fs: "with_tenant req = JObj fs" by (simp add: with_tenant_def Let_def)
      note sch = create_schema [OF created(1) [unfolded fs]]
      have "o_items e \<noteq> []" using sch(1) by (cases "co_items dto") (simp_all add: e_def createOrder_def Let_def order_create_def)
      moreover have "order_find (os_orders s') (o_id e) = Some e"
        using createOrder_stored [of now uids num dto "os_orders s"] created(3)
        by (auto simp: e_def order_find_def split: prod.splits)
      moreover have "o_tenantId e = tenant" if "cl_tenantId d = Some tenant" "tenant \<noteq> []" for tenant
        using sch(3) with_tenant_key [of req] that d(3) assms(2) fs
        by (simp add: e_def createOrder_stored)
      moreover have "jm_get (body_fields (sv_body req)) ''tenantId'' = Some (JStr (o_tenantId e))" if "cl_tenantId d = None"
        using sch(3) with_tenant_key [of req] that d(3) assms(2) fs
        by (simp add: e_def createOrder_stored)
      ultimately show ?thesis
        using d created_total(2) [OF sch(2) e_def [symmetric]] created(2,4) by (auto simp: e_def [symmetric])
    qed
  next
    case listing
    then show ?thesis using d listed by (auto simp: handle_listOrders_def)
  next
    case read
    then show ?thesis using d
      by (auto simp: handle_getOrder_def getOrder_def order_error_def split: option.splits) metis
  next
    case cancel
    then show ?thesis using d
      by (auto simp: handle_cancelOrder_def validate_def order_error_def split: sum.splits)
  qed
qed

theorem orders_behind_gateway_witness:
  "(case snd (gateway Gateway.demo_lib demo_rate 0 ''c1'' (demo_request ''good'' ''/api/v1/orders'') []) of
      Forwarded svc path hq' \<Rightarrow>
        order_app demo_route demo_zod 0 demo_uids ''ORD-2'' path \<lparr> sv_http = hq', sv_body = JNull, sv_query = [(''tenantId'', ''t'')] \<rparr>
          demo_created = (demo_created, Reply \<lparr> rp_status = 200, rp_body = OrderList (listOrders ''t1'' (os_orders demo_created)) \<rparr>)
    | _ \<Rightarrow> False)"
proof -
  let ?hq = "demo_request ''good'' ''/api/v1/orders''"
  have m: "hq_method ?hq = ''GET''" by code_simp
  obtain hq' where f: "snd (gateway Gateway.demo_lib demo_rate 0 ''c1'' ?hq []) = Forwarded ORDER_SERVICE ''/api/v1/orders'' hq'"
      and h: "hq_method hq' = ''GET''" and v: "bearer ?hq = Some ''good''" "jwtVerify Gateway.demo_lib ''good'' = Inr d \<Longrightarrow> cl_tenantId d = Some ''t1''" for d
  proof -
    have "case snd (gateway Gateway.demo_lib demo_rate 0 ''c1'' ?hq []) of
        Forwarded svc p hq' \<Rightarrow> svc = ORDER_SERVICE \<and> p = ''/api/v1/orders'' \<and> hq_method hq' = ''GET'' | _ \<Rightarrow> False" by code_simp
    moreover have "bearer ?hq = Some ''good''" by code_simp
    ultimately show thesis using that by (auto simp: Gateway.demo_lib_def split: gateway_result.splits)
  qed
  let ?req = "\<lparr> sv_http = hq', sv_body = JNull, sv_query = [(''tenantId'', ''t'')] \<rparr>"
  have "order_app demo_route demo_zod 0 demo_uids ''ORD-2'' ''/api/v1/orders'' ?req demo_created = (demo_created, handle_listOrders ?req demo_created)"
    by (simp add: order_app_def Let_def h demo_route_def)
  moreover obtain r where r: "handle_listOrders ?req demo_created = Reply r" "rp_status r = 200" "\<exists>es. rp_body r = OrderList es"
    by (simp add: handle_listOrders_def)
  ultimately have a: "order_app demo_route demo_zod 0 demo_uids ''ORD-2'' ''/api/v1/orders'' ?req demo_created = (demo_created, Reply r)" by simp
  have "rp_body r = OrderList (listOrders ''t1'' (os_orders demo_created))"
    using orders_behind_gateway [OF f _ a] r(3) v by auto
  then show ?thesis using f a r(2) by (cases r) simp
qed

text \<open>C4:
  Orders by identifier. The routes that read and cancel one order ask for its identifier only: whatever tenant the
  request's headers carry, the order is returned, and a cancellation that passes the validation cancels it as soon as its
  pending part has run, unless it is delivered or cancelled already.
\<close>

theorem orders_by_id_cross_tenants:
  assumes "route ''/api/v1/orders'' path = None" and "route ''/api/v1/orders/:id'' path = Some i"
    and "hq_method (sv_http req) = ''GET''" and "order_find (os_orders s) i = Some e"
    and "route ''/api/v1/orders'' cpath = None" and "route ''/api/v1/orders/:id/cancel'' cpath = Some i"
    and "hq_method (sv_http creq) = ''POST''" and "validate (CancelOrderSchema zod) (sv_body creq) = Inr why"
    and "o_status e \<notin> {OrderStatus.DELIVERED, OrderStatus.CANCELLED}"
  shows "order_app route zod now uids num path req s = (s, Reply \<lparr> rp_status = 200, rp_body = OrderData (Some e) \<rparr>) \<and>
    (let (s1, r1) = order_app route zod now uids num cpath creq s;
         s2 = order_exec (ActRun (length (os_tasks s)) later u) s1
     in r1 = Pending \<and>
        order_find (os_orders s2) i =
          Some (e\<lparr> o_status := OrderStatus.CANCELLED, o_cancellationReason := Some why, o_updatedAt := later \<rparr>))"
proof -
  have "fst (cancel_decide later i why (Some e) (os_orders s)) =
      fst (order_update later i (\<lambda>e. e\<lparr> o_status := OrderStatus.CANCELLED, o_cancellationReason := Some why \<rparr>) (os_orders s))"
    using cancel_decide_state [of later i why "Some e" "os_orders s"] assms(9) by simp
  then show ?thesis
    using assms
    by (auto simp: order_app_def Let_def handle_getOrder_def getOrder_def handle_cancelOrder_def order_find_def nth_append
        order_update_def repo_update_get split: prod.split)
qed

theorem orders_by_id_cross_tenants_witness:
  "\<exists>e. o_tenantId e = ''t'' \<and>
     order_app demo_route demo_zod 0 demo_uids ''ORD-2'' ''/api/v1/orders/order''
       \<lparr> sv_http = set_header ''x-tenant-id'' (Some ''t1'') (demo_request ''good'' []), sv_body = JNull, sv_query = [] \<rparr> demo_created =
       (demo_created, Reply \<lparr> rp_status = 200, rp_body = OrderData (Some e) \<rparr>)"
proof -
  let ?get = "\<lparr> sv_http = set_header ''x-tenant-id'' (Some ''t1'') (demo_request ''good'' []), sv_body = JNull, sv_query = [] \<rparr>"
  let ?post = "\<lparr> sv_http = (demo_request ''good'' [])\<lparr> hq_method := ''POST'' \<rparr>, sv_body = JObj [(''reason'', JStr ''why'')], sv_query = [] \<rparr>"
  define e where "e = snd (createOrder 0 demo_uids ''ORD-1'' demo_dto [])"
  have e: "order_find (os_orders demo_created) ''order'' = Some e" "o_tenantId e = ''t''" "o_status e = OrderStatus.PENDING_VALIDATION"
    using createOrder_stored [of 0 demo_uids "''ORD-1''" demo_dto "[]"]
    by (auto simp: e_def demo_created_def order_init_def order_find_def demo_uids_def demo_dto_def split: prod.split)
  have g: "hq_method (sv_http ?get) = ''GET''" "hq_method (sv_http ?post) = ''POST''"
    by (simp_all add: demo_request_def)
  have v: "validate (CancelOrderSchema demo_zod) (sv_body ?post) = Inr ''why''"
    by (simp add: validate_def CancelOrderSchema_def z_object_def z_key_def at_path_def)
  have r: "demo_route ''/api/v1/orders'' ''/api/v1/orders/order'' = None" "demo_route ''/api/v1/orders/:id'' ''/api/v1/orders/order'' = Some ''order''"
    "demo_route ''/api/v1/orders'' ''/api/v1/orders/order/cancel'' = None"
    "demo_route ''/api/v1/orders/:id/cancel'' ''/api/v1/orders/order/cancel'' = Some ''order''"
    by (simp_all add: demo_route_def)
  show ?thesis
    using orders_by_id_cross_tenants [where route = demo_route and req = ?get and creq = ?post and s = demo_created, OF r(1,2) g(1) e(1) r(3,4) g(2) v,
        of 0 demo_uids "''ORD-2''" 1 "[]"] e by auto
qed

end
